(* ===== verification/Prelude.thy ===== *)
theory Prelude
  imports Main "HOL-Library.Word" "HOL-Library.Multiset" "HOL-Library.List_Lexorder"
begin

text \<open>
  The vocabulary every component of the development shares: Go's machine integers as words,
  Go strings and byte slices as lists of bytes, the outcome of a fallible Go function (a value,
  an error or a run-time panic), and the generic facts on words, lists and outcomes that the
  component theories use.
\<close>

unbundle bit_operations_syntax

section \<open>Go's types\<close>

text \<open>
  A Go \<open>string\<close> is an immutable sequence of bytes, and \<open><\<close> on strings compares bytes; with the
  lexicographic order of \<open>List_Lexorder\<close> a list of 8-bit words behaves the same way.
  A \<open>float64\<close> is kept as its IEEE 754 bit pattern: the code modelled here moves floats around
  (\<open>math.Float64bits\<close>, \<open>math.Float64frombits\<close>) and compares them with zero only.
\<close>

type_synonym byte = "8 word"
type_synonym bytes = "byte list"
type_synonym gostring = bytes
type_synonym u32 = "32 word"
type_synonym u64 = "64 word"
type_synonym i32 = "32 word"
type_synonym i64 = "64 word"
type_synonym f64 = "64 word"

text \<open>A string literal of the source.\<close>

definition gostr :: "string \<Rightarrow> gostring" where
  "gostr s = map (\<lambda>c. word_of_nat (of_char c)) s"

text \<open>\<open>x == 0\<close> on a float64: both zeros compare equal to 0, so the sign bit is ignored.\<close>

definition f64_is_zero :: "f64 \<Rightarrow> bool" where
  "f64_is_zero x \<longleftrightarrow> push_bit 1 x = 0"

section \<open>Outcomes\<close>

text \<open>
  A call returns a value, returns an error, or panics (here: a slice expression out of range).
\<close>

datatype ('e, 'a) outcome = Ok 'a | Err 'e | Panic

fun bind_outcome :: "('e, 'a) outcome \<Rightarrow> ('a \<Rightarrow> ('e, 'b) outcome) \<Rightarrow> ('e, 'b) outcome" where
  "bind_outcome (Ok a) f = f a"
| "bind_outcome (Err e) f = Err e"
| "bind_outcome Panic f = Panic"

fun map_err :: "('e \<Rightarrow> 'f) \<Rightarrow> ('e, 'a) outcome \<Rightarrow> ('f, 'a) outcome" where
  "map_err f (Ok a) = Ok a"
| "map_err f (Err e) = Err (f e)"
| "map_err f Panic = Panic"

lemma bind_outcome_Ok_iff [simp]:
  "bind_outcome m f = Ok b \<longleftrightarrow> (\<exists>a. m = Ok a \<and> f a = Ok b)"
  by (cases m) auto

lemma map_err_Ok_iff [simp]: "map_err f m = Ok a \<longleftrightarrow> m = Ok a"
  by (cases m) auto

lemma map_err_Panic_iff [simp]: "map_err f m = Panic \<longleftrightarrow> m = Panic"
  by (cases m) auto

lemma bind_outcome_Panic_iff:
  "bind_outcome m f = Panic \<longleftrightarrow> m = Panic \<or> (\<exists>a. m = Ok a \<and> f a = Panic)"
  by (cases m) auto

section \<open>Words\<close>

lemma unat_drop_bit_word: "unat (drop_bit n (w :: 'a :: len word)) = unat w div 2 ^ n"
  by (simp only: unat_drop_bit_eq) (simp add: drop_bit_eq_div)

lemma unat_word_of_nat: "n < 2 ^ 64 \<Longrightarrow> unat (word_of_nat n :: u64) = n"
  by (simp add: unsigned_of_nat take_bit_nat_eq_self)

lemma bit_word_less_exp: "(w :: 'a :: len word) < 2 ^ k \<Longrightarrow> bit w n \<Longrightarrow> n < k"
  by (metis bit_take_bit_iff less_mask_eq take_bit_eq_mask)

lemma mask7: "(0x7F :: 'a :: len word) = mask 7"
  by (simp add: mask_eq_exp_minus_1)

lemma mask3: "(7 :: 'a :: len word) = mask 3"
  by (simp add: mask_eq_exp_minus_1)

lemma bit_0x80: "bit (0x80 :: int) n \<longleftrightarrow> n = 7"
proof -
  have "(0x80 :: int) = push_bit 7 1" by simp
  then show ?thesis by (simp only: bit_push_bit_iff bit_1_iff) auto
qed

lemma ucast_scast_32 [simp]: "(ucast (scast (w :: i32) :: i64) :: i32) = w"
  by (intro bit_eqI) (auto simp: bit_simps)

lemma ucast_ucast_32 [simp]: "(ucast (ucast (w :: u32) :: u64) :: u32) = w"
  by (intro bit_eqI) (auto simp: bit_simps)

lemma f64_is_zero_0 [simp]: "f64_is_zero 0"
  by (simp add: f64_is_zero_def)

section \<open>Lists\<close>

lemma foldl_append_concat: "foldl (\<lambda>buf x. buf @ g x) b xs = b @ concat (map g xs)"
  by (induction xs arbitrary: b) auto

text \<open>Appending one element at a time to a list field of a record.\<close>

lemma foldl_field_append:
  assumes "\<And>p v. get (upd v p) = v" "\<And>p v w. upd w (upd v p) = upd w p" "\<And>p. upd (get p) p = p"
  shows "foldl (\<lambda>p x. upd (get p @ [x]) p) p xs = upd (get p @ xs) p"
  by (induction xs arbitrary: p) (simp_all add: assms)

lemma length_filter_mono: "(\<And>x. P x \<Longrightarrow> Q x) \<Longrightarrow> length (filter P xs) \<le> length (filter Q xs)"
  by (induction xs) (auto intro: le_SucI)

lemma find_Some_set: "List.find P xs = Some x \<Longrightarrow> x \<in> set xs \<and> P x"
  by (auto simp: find_Some_iff)

text \<open>\<open>strings.Join\<close>.\<close>

fun join_strings :: "gostring \<Rightarrow> gostring list \<Rightarrow> gostring" where
  "join_strings sep [] = []"
| "join_strings sep [s] = s"
| "join_strings sep (s # t # ts) = s @ sep @ join_strings sep (t # ts)"

text \<open>A call per element, the state threaded through.\<close>

fun thread :: "('s \<Rightarrow> 'a \<Rightarrow> 'b \<times> 's) \<Rightarrow> 's \<Rightarrow> 'a list \<Rightarrow> 'b list \<times> 's" where
  "thread f s [] = ([], s)"
| "thread f s (x # xs) = (let (y, s) = f s x; (ys, s) = thread f s xs in (y # ys, s))"

lemma thread_append:
  "thread f s (xs @ ys) = (fst (thread f s xs) @ fst (thread f (snd (thread f s xs)) ys),
     snd (thread f (snd (thread f s xs)) ys))"
  by (induction xs arbitrary: s) (simp_all add: Let_def split_beta)

end
