(* ===== verification/Wire.thy ===== *)
theory Wire
  imports Prelude
begin

text \<open>
  The protobuf wire format of \<open>internal/prw/proto.go\<close>: the encoding and decoding helpers at the
  end of that file (varints, zigzag, tags, fixed64, length-delimited data, \<open>skipField\<close>), the
  loop all the \<open>unmarshal\<close> methods share, and the interface through which one message embeds
  another. A decoding helper of the source that answers a negative count for bad input answers
  \<open>None\<close> here; \<open>skipField\<close> keeps its count as an integer, because the source returns
  \<open>-1\<close> with no error for a broken varint and its callers slice with it.
\<close>

section \<open>Encoding\<close>

text \<open>Wire types (proto.go, the first const block).\<close>

definition wireVarint :: nat where "wireVarint = 0"
definition wireFixed64 :: nat where "wireFixed64 = 1"
definition wireLengthDelim :: nat where "wireLengthDelim = 2"
definition wireFixed32 :: nat where "wireFixed32 = 5"

function appendVarint :: "bytes \<Rightarrow> u64 \<Rightarrow> bytes" where
  "appendVarint buf v =
     (if v \<ge> 0x80 then appendVarint (buf @ [ucast v OR 0x80]) (drop_bit 7 v)
      else buf @ [ucast v])"
  by pat_completeness auto
termination
proof (relation "measure (\<lambda>(buf, v). unat v)")
  fix buf :: bytes and v :: u64 assume "0x80 \<le> v"
  then have "128 \<le> unat v" by (simp add: word_le_nat_alt)
  then show "((buf @ [ucast v OR 0x80], drop_bit 7 v), buf, v) \<in> measure (\<lambda>(buf, v). unat v)"
    by (simp only: in_measure case_prod_conv unat_drop_bit_word) simp
qed simp

declare appendVarint.simps [simp del]

text \<open>\<open>uint64(fieldNum<<3) | wireType\<close>.\<close>

definition wire_tag :: "nat \<Rightarrow> nat \<Rightarrow> u64" where
  "wire_tag fieldNum wireType = push_bit 3 (word_of_nat fieldNum) OR word_of_nat wireType"

definition appendTagVarint :: "bytes \<Rightarrow> nat \<Rightarrow> u64 \<Rightarrow> bytes" where
  "appendTagVarint buf fieldNum v =
     (let tag = wire_tag fieldNum wireVarint;
          buf = appendVarint buf tag
      in appendVarint buf v)"

text \<open>\<open>uint64((v<<1)^(v>>63))\<close>, the shift right being arithmetic on int64.\<close>

definition zigzag :: "i64 \<Rightarrow> u64" where
  "zigzag v = push_bit 1 v XOR signed_drop_bit 63 v"

text \<open>\<open>int64(uv>>1) ^ -int64(uv&1)\<close>.\<close>

definition unzigzag :: "u64 \<Rightarrow> i64" where
  "unzigzag uv = drop_bit 1 uv XOR - (uv AND 1)"

definition appendTagVarintSigned :: "bytes \<Rightarrow> nat \<Rightarrow> i64 \<Rightarrow> bytes" where
  "appendTagVarintSigned buf fieldNum v =
     (let tag = wire_tag fieldNum wireVarint;
          buf = appendVarint buf tag
      in appendVarint buf (zigzag v))"

definition appendTagFixed64 :: "bytes \<Rightarrow> nat \<Rightarrow> u64 \<Rightarrow> bytes" where
  "appendTagFixed64 buf fieldNum v =
     (let tag = wire_tag fieldNum wireFixed64;
          buf = appendVarint buf tag
      in buf @ [ucast v, ucast (drop_bit 8 v), ucast (drop_bit 16 v), ucast (drop_bit 24 v),
                ucast (drop_bit 32 v), ucast (drop_bit 40 v), ucast (drop_bit 48 v), ucast (drop_bit 56 v)])"

definition appendTagLengthDelim :: "bytes \<Rightarrow> nat \<Rightarrow> bytes \<Rightarrow> bytes" where
  "appendTagLengthDelim buf fieldNum data =
     (let tag = wire_tag fieldNum wireLengthDelim;
          buf = appendVarint buf tag;
          buf = appendVarint buf (word_of_nat (length data))
      in buf @ data)"

text \<open>\<open>binary.LittleEndian.PutUint64\<close> and \<open>binary.LittleEndian.Uint64\<close>.\<close>

fun le_bytes :: "nat \<Rightarrow> u64 \<Rightarrow> bytes" where
  "le_bytes 0 v = []"
| "le_bytes (Suc k) v = ucast v # le_bytes k (drop_bit 8 v)"

fun le_uint64 :: "bytes \<Rightarrow> u64" where
  "le_uint64 [] = 0"
| "le_uint64 (b # bs) = ucast b OR push_bit 8 (le_uint64 bs)"

definition marshalSignedVarints :: "i64 list \<Rightarrow> bytes" where
  "marshalSignedVarints values = foldl (\<lambda>buf v. appendVarint buf (zigzag v)) [] values"

definition marshalFixed64s :: "f64 list \<Rightarrow> bytes" where
  "marshalFixed64s values = concat (map (le_bytes 8) values)"

section \<open>Decoding\<close>

text \<open>
  What an \<open>unmarshal\<close> method reports: one constructor per error message of the source, the
  string naming the field or value the message names.
\<close>

datatype wire_error =
    InvalidTag
  | InvalidWireType string nat
  | InvalidEncoding string
  | InsufficientData string
  | UnknownWireType nat
  | SkipUnknownField nat wire_error
  | FailedUnmarshal string wire_error

type_synonym 'a decoded = "(wire_error, 'a) outcome"
type_synonym 'a field_decoder = "'a \<Rightarrow> nat \<Rightarrow> nat \<Rightarrow> bytes \<Rightarrow> ('a \<times> nat) decoded"

fun consumeVarint_loop :: "nat \<Rightarrow> u64 \<Rightarrow> bytes \<Rightarrow> (u64 \<times> nat) option" where
  "consumeVarint_loop i v [] = None"
| "consumeVarint_loop i v (b # bs) =
     (if i < 10 then
        (let v' = v OR push_bit (7 * i) (ucast (b AND 0x7F))
         in if b < 0x80 then Some (v', i + 1) else consumeVarint_loop (i + 1) v' bs)
      else None)"

definition consumeVarint :: "bytes \<Rightarrow> (u64 \<times> nat) option" where
  "consumeVarint data = consumeVarint_loop 0 0 data"

definition consumeTag :: "bytes \<Rightarrow> (nat \<times> nat \<times> nat) option" where
  "consumeTag data =
     (case consumeVarint data of
        None \<Rightarrow> None
      | Some (v, n) \<Rightarrow> Some (unat (drop_bit 3 v), unat (v AND 7), n))"

definition consumeSignedVarint :: "bytes \<Rightarrow> (i64 \<times> nat) option" where
  "consumeSignedVarint data =
     (case consumeVarint data of None \<Rightarrow> None | Some (uv, n) \<Rightarrow> Some (unzigzag uv, n))"

definition consumeBytes :: "bytes \<Rightarrow> (bytes \<times> nat) option" where
  "consumeBytes data =
     (case consumeVarint data of
        None \<Rightarrow> None
      | Some (len, vn) \<Rightarrow>
          if (word_of_nat (length data - vn) :: u64) < len then None
          else Some (take (unat len) (drop vn data), vn + unat len))"

definition skipField :: "bytes \<Rightarrow> nat \<Rightarrow> wire_error + int" where
  "skipField data wireType =
     (if wireType = wireVarint then
        (case consumeVarint data of None \<Rightarrow> Inr (- 1) | Some (_, n) \<Rightarrow> Inr (int n))
      else if wireType = wireFixed64 then
        (if length data < 8 then Inl (InsufficientData ''fixed64'') else Inr 8)
      else if wireType = wireLengthDelim then
        (case consumeVarint data of
           None \<Rightarrow> Inl (InvalidEncoding ''length'')
         | Some (len, vn) \<Rightarrow> Inr (sint (word_of_nat vn + len)))
      else if wireType = wireFixed32 then
        (if length data < 4 then Inl (InsufficientData ''fixed32'') else Inr 4)
      else Inl (UnknownWireType wireType))"

text \<open>
  The \<open>default\<close> branch every \<open>unmarshal\<close> method ends with: skip the field, then slice
  \<open>data = data[n:]\<close>, which panics when \<open>n\<close> is negative or past the end.
\<close>

definition skip_unknown :: "'a field_decoder" where
  "skip_unknown m fieldNum wireType data =
     (case skipField data wireType of
        Inl e \<Rightarrow> Err (SkipUnknownField fieldNum e)
      | Inr n \<Rightarrow> if 0 \<le> n \<and> n \<le> int (length data) then Ok (m, nat n) else Panic)"

lemma consumeVarint_loop_bounds:
  "consumeVarint_loop i v data = Some (w, n) \<Longrightarrow> i < n \<and> n \<le> i + length data"
  by (induction i v data rule: consumeVarint_loop.induct)
     (fastforce simp: Let_def split: if_splits)+

lemma consumeVarint_bounds:
  "consumeVarint data = Some (v, n) \<Longrightarrow> 0 < n \<and> n \<le> length data"
  using consumeVarint_loop_bounds by (fastforce simp: consumeVarint_def)

lemma consumeTag_bounds:
  "consumeTag data = Some (f, w, n) \<Longrightarrow> 0 < n \<and> n \<le> length data"
  using consumeVarint_bounds by (auto simp: consumeTag_def split: option.splits)

text \<open>
  \<open>unmarshalSignedVarints\<close> stops silently at the first varint it cannot read;
  \<open>unmarshalFixed64s\<close> drops a trailing part shorter than 8 bytes.
\<close>

function unmarshalSignedVarints :: "bytes \<Rightarrow> i64 list" where
  "unmarshalSignedVarints data =
     (if data = [] then []
      else case consumeSignedVarint data of
        None \<Rightarrow> []
      | Some (v, n) \<Rightarrow> v # unmarshalSignedVarints (drop n data))"
  by pat_completeness auto
termination
  by (relation "measure length")
     (auto simp: consumeSignedVarint_def dest: consumeVarint_bounds split: option.splits)

declare unmarshalSignedVarints.simps [simp del]

definition unmarshalFixed64s :: "bytes \<Rightarrow> f64 list" where
  "unmarshalFixed64s data =
     map (\<lambda>i. le_uint64 (take 8 (drop (i * 8) data))) [0..<length data div 8]"

text \<open>
  The loop of every \<open>unmarshal\<close> method: read a tag, let the message's \<open>switch\<close> (the
  \<open>field\<close> argument) consume the value, continue behind it. The switch answers the updated
  message and how many bytes it consumed after the tag.
\<close>

function decode_loop :: "'a field_decoder \<Rightarrow> 'a \<Rightarrow> bytes \<Rightarrow> 'a decoded" where
  "decode_loop field m data =
     (if data = [] then Ok m
      else case consumeTag data of
        None \<Rightarrow> Err InvalidTag
      | Some (fieldNum, wireType, n) \<Rightarrow>
          (case field m fieldNum wireType (drop n data) of
             Ok (m', k) \<Rightarrow> decode_loop field m' (drop k (drop n data))
           | Err e \<Rightarrow> Err e
           | Panic \<Rightarrow> Panic))"
  by pat_completeness auto
termination
  by (relation "measure (\<lambda>(field, m, data). length data)") (auto dest: consumeTag_bounds)

declare decode_loop.simps [simp del]

section \<open>Varints\<close>

lemma appendVarint_small: "v < 0x80 \<Longrightarrow> appendVarint buf v = buf @ [ucast v]"
  by (simp add: appendVarint.simps [of buf v] not_le [symmetric])

lemma appendVarint_big:
  "\<not> v < 0x80 \<Longrightarrow> appendVarint buf v = appendVarint (buf @ [ucast v OR 0x80]) (drop_bit 7 v)"
  by (simp add: appendVarint.simps [of buf v] not_le [symmetric])

lemma appendVarint_append: "appendVarint (buf @ buf') v = buf @ appendVarint buf' v"
proof (induction "unat v" arbitrary: v buf' rule: less_induct)
  case less
  show ?case
  proof (cases "v < 0x80")
    case False
    then have "128 \<le> unat v" by (simp add: word_less_nat_alt)
    then have "unat (drop_bit 7 v) < unat v" by (simp only: unat_drop_bit_word) simp
    from less [OF this, of "buf' @ [ucast v OR 0x80]"] False show ?thesis
      by (simp add: appendVarint_big)
  qed (simp add: appendVarint_small)
qed
text \<open>
  The bytes one varint adds to a buffer. Appending is \<open>buf @ varint v\<close>; every other encoder
  is normalised to such a concatenation of segments (collection \<open>encode_simps\<close>).
\<close>

definition varint :: "u64 \<Rightarrow> bytes" where
  "varint v = appendVarint [] v"

named_theorems encode_simps

lemma appendVarint_varint [encode_simps]: "appendVarint buf v = buf @ varint v"
  using appendVarint_append [of buf "[]" v] by (simp add: varint_def)

lemma varint_small: "v < 0x80 \<Longrightarrow> varint v = [ucast v]"
  by (simp add: varint_def appendVarint_small)

lemma varint_big: "\<not> v < 0x80 \<Longrightarrow> varint v = (ucast v OR 0x80) # varint (drop_bit 7 v)"
  using appendVarint_append [of "[ucast v OR 0x80]" "[]"] by (simp add: varint_def appendVarint_big)

lemma varint_not_Nil [simp]: "varint v \<noteq> []"
  by (cases "v < 0x80") (simp_all add: varint_small varint_big)

lemma low7_cont: "(ucast ((ucast (v::u64) OR 0x80 :: byte) AND 0x7F) :: u64) = v AND 0x7F"
  unfolding mask7 by (rule bit_eqI) (auto simp: bit_simps bit_0x80)

lemma low7_last: "(v::u64) < 0x80 \<Longrightarrow> (ucast ((ucast v :: byte) AND 0x7F) :: u64) = v"
proof -
  assume "v < 0x80"
  then have "v AND mask 7 = v" by (simp add: less_mask_eq)
  moreover have "(ucast ((ucast v :: byte) AND mask 7) :: u64) = v AND mask 7"
    by (rule bit_eqI) (auto simp: bit_simps)
  ultimately show ?thesis by (simp add: mask7)
qed

lemma cont_byte: "\<not> ((ucast (v::u64) OR 0x80 :: byte) < 0x80)"
  using le_word_or1 [of "0x80 :: byte" "ucast v"] by (simp add: not_less)

lemma last_byte: "(v::u64) < 0x80 \<Longrightarrow> (ucast v :: byte) < 0x80"
  by (simp add: word_less_nat_alt unsigned_ucast_eq take_bit_eq_mod)

lemma varint_split: "push_bit n (v AND 0x7F) OR push_bit (7 + n) (drop_bit 7 v) = push_bit n (v::u64)"
  unfolding mask7
proof (rule bit_eqI)
  fix k
  show "bit (push_bit n (v AND mask 7) OR push_bit (7 + n) (drop_bit 7 v)) k = bit (push_bit n v) k"
  proof (cases "7 + n \<le> k")
    case True
    then have "7 + (k - (7 + n)) = k - n" by simp
    with True show ?thesis by (auto simp: bit_simps)
  qed (auto simp: bit_simps)
qed

lemma consume_varint_aux:
  assumes "i < 10" "unat v < 2 ^ (7 * (10 - i))"
  shows "consumeVarint_loop i acc (varint v @ rest)
           = Some (acc OR push_bit (7 * i) v, i + length (varint v))"
  using assms
proof (induction "unat v" arbitrary: v i acc rule: less_induct)
  case less
  show ?case
  proof (cases "v < 0x80")
    case True
    with less.prems show ?thesis
      by (simp add: varint_small low7_last last_byte)
  next
    case False
    let ?v = "drop_bit 7 v"
    from False have ge: "128 \<le> unat v" by (simp add: word_less_nat_alt)
    with less.prems have i: "i + 1 < 10"
      by (cases "i = 9") auto
    have "unat ?v < unat v" using ge by (simp only: unat_drop_bit_word) simp
    moreover have "unat ?v < 2 ^ (7 * (10 - (i + 1)))"
    proof -
      have "(2::nat) ^ (7 * (10 - i)) = 2 ^ (7 * (10 - (i + 1))) * 2 ^ 7"
        using i by (simp only: power_add [symmetric]) (rule arg_cong [where f = "\<lambda>k. 2 ^ k"], simp)
      with less.prems(2) show ?thesis
        by (simp only: unat_drop_bit_word less_mult_imp_div_less)
    qed
    ultimately have "consumeVarint_loop (i + 1) (acc OR push_bit (7 * i) (v AND 0x7F)) (varint ?v @ rest)
      = Some ((acc OR push_bit (7 * i) (v AND 0x7F)) OR push_bit (7 * (i + 1)) ?v,
          i + 1 + length (varint ?v))"
      using i less.hyps by blast
    then show ?thesis
      using less.prems(1) False varint_split [of "7 * i" v]
      by (simp add: varint_big low7_cont cont_byte or.assoc)
  qed
qed

lemma consume_varint [simp]: "consumeVarint (varint v @ rest) = Some (v, length (varint v))"
proof -
  have "unat v < 2 ^ 64" using unsigned_less [of v] by simp
  also have "(2::nat) ^ 64 < 2 ^ (7 * (10 - 0))" by simp
  finally show ?thesis
    using consume_varint_aux [of 0 v 0 rest] by (simp add: consumeVarint_def)
qed

lemma consumeVarint_loop_10: "consumeVarint_loop i v data = Some (w, n) \<Longrightarrow> i \<le> 10 \<Longrightarrow> n \<le> 10"
  by (induction i v data rule: consumeVarint_loop.induct) (fastforce simp: Let_def split: if_splits)+

lemma length_varint_le: "length (varint v) \<le> 10"
  using consume_varint [of v "[]"] consumeVarint_loop_10 unfolding consumeVarint_def by blast

section \<open>Zigzag and fixed-width values\<close>

lemma unzigzag_zigzag [simp]: "unzigzag (zigzag v) = v"
proof (cases "bit v 63")
  case True
  then have s: "signed_drop_bit 63 v = -1"
    by (intro bit_eqI) (auto simp: bit_simps not_less_eq_eq)
  have "drop_bit 1 (push_bit 1 v XOR -1) XOR - 1 = v"
  proof (rule bit_eqI)
    fix n assume "possible_bit TYPE(64 word) n"
    then have "n < 64" by simp
    then show "bit (drop_bit 1 (push_bit 1 v XOR -1) XOR - 1) n = bit v n"
      using True
      by (cases "n = 63"; simp only: bit_simps o_apply; simp)
  qed
  moreover have "(push_bit 1 v XOR -1) AND 1 = (1 :: 64 word)"
    by (intro bit_eqI; simp only: bit_simps; auto)
  ultimately show ?thesis by (simp only: zigzag_def unzigzag_def s)
next
  case False
  then have s: "signed_drop_bit 63 v = 0"
    by (intro bit_eqI) (auto simp: bit_simps not_less_eq_eq)
  have "drop_bit 1 (push_bit 1 v) = v"
  proof (rule bit_eqI)
    fix n assume "possible_bit TYPE(64 word) n"
    then have "n < 64" by simp
    then show "bit (drop_bit 1 (push_bit 1 v)) n = bit v n"
      using False
      by (cases "n = 63"; simp only: bit_simps o_apply; simp)
  qed
  moreover have "push_bit 1 v AND 1 = (0 :: 64 word)"
    by (intro bit_eqI; simp only: bit_simps; auto)
  ultimately show ?thesis by (simp only: zigzag_def unzigzag_def s) simp
qed

lemma le_uint64_le_bytes: "le_uint64 (le_bytes k v) = take_bit (8 * k) v"
proof (induction k arbitrary: v)
  case (Suc k)
  have "(ucast (ucast v :: byte) :: u64) OR push_bit 8 (take_bit (8 * k) (drop_bit 8 v))
      = take_bit (8 * Suc k) v"
  proof (rule bit_eqI)
    fix n
    show "bit ((ucast (ucast v :: byte) :: u64) OR push_bit 8 (take_bit (8 * k) (drop_bit 8 v))) n
        = bit (take_bit (8 * Suc k) v) n"
    proof (cases "8 \<le> n")
      case True
      then have "8 + (n - 8) = n" by simp
      with True show ?thesis by (auto simp: bit_simps dest: bit_imp_le_length)
    qed (auto simp: bit_simps)
  qed
  with Suc show ?case by simp
qed simp

lemma le_bytes_8:
  "le_bytes 8 v = [ucast v, ucast (drop_bit 8 v), ucast (drop_bit 16 v), ucast (drop_bit 24 v),
     ucast (drop_bit 32 v), ucast (drop_bit 40 v), ucast (drop_bit 48 v), ucast (drop_bit 56 v)]"
  by (simp add: numeral_eq_Suc)

lemma le_uint64_8 [simp]: "le_uint64 (le_bytes 8 v) = v"
  by (simp add: le_uint64_le_bytes take_bit_word_eq_self)

lemma length_le_bytes [simp]: "length (le_bytes k v) = k"
  by (induction k arbitrary: v) auto

lemma consume_signed [simp]:
  "consumeSignedVarint (varint (zigzag v) @ rest) = Some (v, length (varint (zigzag v)))"
  by (simp add: consumeSignedVarint_def)

lemma marshalSignedVarints_concat:
  "marshalSignedVarints vs = concat (map (\<lambda>v. varint (zigzag v)) vs)"
  by (simp add: marshalSignedVarints_def encode_simps foldl_append_concat)

lemma unmarshalSignedVarints_Cons:
  "unmarshalSignedVarints (varint (zigzag v) @ rest) = v # unmarshalSignedVarints rest"
  by (simp add: unmarshalSignedVarints.simps [of "varint (zigzag v) @ rest"])

lemma unmarshal_marshalSignedVarints [simp]:
  "unmarshalSignedVarints (marshalSignedVarints vs) = vs"
  by (induction vs)
     (simp_all add: marshalSignedVarints_concat unmarshalSignedVarints_Cons
        unmarshalSignedVarints.simps [of "[]"])

lemma length_marshalFixed64s: "length (marshalFixed64s vs) = 8 * length vs"
  by (induction vs) (auto simp: marshalFixed64s_def)

lemma unmarshal_marshalFixed64s [simp]: "unmarshalFixed64s (marshalFixed64s vs) = vs"
proof -
  have "take 8 (drop (i * 8) (marshalFixed64s vs)) = le_bytes 8 (vs ! i)" if "i < length vs" for i
    using that
  proof (induction vs arbitrary: i)
    case (Cons v vs)
    then show ?case by (cases i) (auto simp: marshalFixed64s_def)
  qed simp
  then show ?thesis
    by (intro nth_equalityI) (auto simp: unmarshalFixed64s_def length_marshalFixed64s)
qed

section \<open>Tags, length-delimited data and the decoding loop\<close>

lemma tag_parts:
  assumes F: "(F :: u64) < 2 ^ 61" and W: "W < 2 ^ 3"
  shows "drop_bit 3 (push_bit 3 F OR W) = F" and "(push_bit 3 F OR W) AND mask 3 = W"
  by (intro bit_eqI; auto simp: bit_simps dest: bit_word_less_exp [OF F] bit_word_less_exp [OF W])+

lemma consumeTag_varint:
  assumes "fieldNum < 2 ^ 61" "wireType < 8"
  shows "consumeTag (varint (wire_tag fieldNum wireType) @ rest)
    = Some (fieldNum, wireType, length (varint (wire_tag fieldNum wireType)))"
proof -
  let ?F = "word_of_nat fieldNum :: u64" and ?W = "word_of_nat wireType :: u64"
  have F: "?F < 2 ^ 61" and W: "?W < 2 ^ 3"
    using assms by (simp_all add: word_less_nat_alt unsigned_of_nat take_bit_nat_eq_self)
  have "unat ?F = fieldNum" "unat ?W = wireType"
    using assms by (simp_all add: unsigned_of_nat take_bit_nat_eq_self)
  then show ?thesis
    by (simp only: consumeTag_def wire_tag_def consume_varint option.case prod.case tag_parts [OF F W] mask3)
qed

lemma decode_loop_Nil [simp]: "decode_loop field m [] = Ok m"
  by (simp add: decode_loop.simps)

lemma decode_loop_tagged:
  assumes "fieldNum < 2 ^ 61" "wireType < 8"
    and "field m fieldNum wireType (payload @ rest) = Ok (m', length payload)"
  shows "decode_loop field m (varint (wire_tag fieldNum wireType) @ payload @ rest)
    = decode_loop field m' rest"
  using assms by (subst decode_loop.simps) (simp add: consumeTag_varint)

text \<open>The three shapes of field the encoders write, as segments.\<close>

definition enc_varint :: "nat \<Rightarrow> u64 \<Rightarrow> bytes" where
  "enc_varint num v = varint (wire_tag num wireVarint) @ varint v"

definition enc_fixed64 :: "nat \<Rightarrow> u64 \<Rightarrow> bytes" where
  "enc_fixed64 num v = varint (wire_tag num wireFixed64) @ le_bytes 8 v"

definition enc_bytes :: "nat \<Rightarrow> bytes \<Rightarrow> bytes" where
  "enc_bytes num d = varint (wire_tag num wireLengthDelim) @ varint (word_of_nat (length d)) @ d"

lemma appendTag_segments [encode_simps]:
  "appendTagVarint buf num v = buf @ enc_varint num v"
  "appendTagVarintSigned buf num v = buf @ enc_varint num (zigzag v)"
  "appendTagFixed64 buf num v = buf @ enc_fixed64 num v"
  "appendTagLengthDelim buf num d = buf @ enc_bytes num d"
  by (simp_all add: appendTagVarint_def appendTagVarintSigned_def appendTagFixed64_def
      appendTagLengthDelim_def enc_varint_def enc_fixed64_def enc_bytes_def Let_def
      encode_simps le_bytes_8)

lemma consumeBytes_append [simp]:
  assumes "length d + length rest < 2 ^ 64"
  shows "consumeBytes (varint (word_of_nat (length d)) @ d @ rest)
    = Some (d, length (varint (word_of_nat (length d))) + length d)"
proof -
  have "unat (word_of_nat (length d) :: u64) = length d"
    and "unat (word_of_nat (length d + length rest) :: u64) = length d + length rest"
    using assms by (simp_all add: unat_word_of_nat del: of_nat_add)
  then show ?thesis
    by (simp add: consumeBytes_def word_less_nat_alt del: of_nat_add)
qed

lemma decode_enc_varint:
  assumes "field m num wireVarint (varint v @ rest) = Ok (m', length (varint v))" "num < 2 ^ 61"
  shows "decode_loop field m (enc_varint num v @ rest) = decode_loop field m' rest"
  using assms decode_loop_tagged [of num wireVarint field m "varint v" rest]
  by (simp add: enc_varint_def wireVarint_def)

lemma decode_enc_fixed64:
  assumes "field m num wireFixed64 (le_bytes 8 v @ rest) = Ok (m', 8)" "num < 2 ^ 61"
  shows "decode_loop field m (enc_fixed64 num v @ rest) = decode_loop field m' rest"
  using assms decode_loop_tagged [of num wireFixed64 field m "le_bytes 8 v" rest]
  by (simp add: enc_fixed64_def wireFixed64_def)

lemma decode_enc_bytes:
  assumes "field m num wireLengthDelim (varint (word_of_nat (length d)) @ d @ rest)
      = Ok (m', length (varint (word_of_nat (length d))) + length d)" "num < 2 ^ 61"
  shows "decode_loop field m (enc_bytes num d @ rest) = decode_loop field m' rest"
  using assms decode_loop_tagged [of num wireLengthDelim field m "varint (word_of_nat (length d)) @ d" rest]
  by (simp add: enc_bytes_def wireLengthDelim_def)

text \<open>
  The interface between a message type \<open>'m\<close> and a message \<open>'p\<close> that has it as a field:
  the inner message decodes what it encodes (up to \<open>canon\<close>, its canonical form), and the
  outer switch reads the field's bytes, decodes them and adds the result with \<open>add\<close>.
  Inside, a run of such fields is shown to decode to the list of canonical messages.
\<close>

locale embedded_message =
  fixes marshal :: "'m \<Rightarrow> bytes"
    and unmarshal :: "bytes \<Rightarrow> 'm decoded"
    and canon :: "'m \<Rightarrow> 'm"
    and field :: "'p field_decoder"
    and num :: nat
    and add :: "'p \<Rightarrow> 'm \<Rightarrow> 'p"
  assumes num_bound: "num < 2 ^ 61"
    and roundtrip: "length (marshal m) < 2 ^ 64 \<Longrightarrow> unmarshal (marshal m) = Ok (canon m)"
    and field_embeds: "consumeBytes data = Some (d, n) \<Longrightarrow> unmarshal d = Ok m
      \<Longrightarrow> field p num wireLengthDelim data = Ok (add p m, n)"
begin

lemma decode_one:
  assumes "length (enc_bytes num (marshal m)) + length rest < 2 ^ 64"
  shows "decode_loop field p (enc_bytes num (marshal m) @ rest)
    = decode_loop field (add p (canon m)) rest"
proof (rule decode_enc_bytes [OF _ num_bound])
  have len: "length (marshal m) + length rest < 2 ^ 64"
    using assms by (simp add: enc_bytes_def)
  then have "unmarshal (marshal m) = Ok (canon m)"
    by (intro roundtrip) simp
  with len show "field p num wireLengthDelim (varint (word_of_nat (length (marshal m))) @ marshal m @ rest)
      = Ok (add p (canon m), length (varint (word_of_nat (length (marshal m)))) + length (marshal m))"
    by (intro field_embeds) simp_all
qed

lemma decode_many:
  "length (concat (map (\<lambda>m. enc_bytes num (marshal m)) ms)) + length rest < 2 ^ 64
   \<Longrightarrow> decode_loop field p (concat (map (\<lambda>m. enc_bytes num (marshal m)) ms) @ rest)
     = decode_loop field (foldl add p (map canon ms)) rest"
proof (induction ms arbitrary: p)
  case (Cons m ms)
  then show ?case
    using decode_one [of m "concat (map (\<lambda>m. enc_bytes num (marshal m)) ms) @ rest" p]
    by simp
qed simp

end

end
