(* ===== verification/Prw_Types.thy ===== *)
theory Prw_Types
  imports Prelude
begin

text \<open>
  The Prometheus Remote Write data model of \<open>internal/prw/types.go\<close>: the protocol version, the
  request and its parts as records (a field \<open>F\<close> of a Go struct is a record field with a short
  prefix naming the struct), the accessors, \<open>SortLabels\<close> and the FNV-1a \<open>LabelsHash\<close> that
  identifies a series.
\<close>

section \<open>Protocol version\<close>

datatype Version = VersionAuto | Version1 | Version2

text \<open>\<open>ParseVersion\<close>: the result and whether an error is returned with it.\<close>

definition ParseVersion :: "gostring \<Rightarrow> Version \<times> gostring option" where
  "ParseVersion s =
     (if s = gostr '''' \<or> s = gostr ''auto'' then (VersionAuto, None)
      else if s = gostr ''1.0'' \<or> s = gostr ''1'' then (Version1, None)
      else if s = gostr ''2.0'' \<or> s = gostr ''2'' then (Version2, None)
      else (VersionAuto, Some (gostr ''unsupported PRW version: '' @ s)))"

section \<open>Requests\<close>

record Label =
  label_Name :: gostring
  label_Value :: gostring

record Sample =
  sample_Value :: f64
  sample_Timestamp :: i64

record Exemplar =
  ex_Labels :: "Label list"
  ex_Value :: f64
  ex_Timestamp :: i64

record BucketSpan =
  span_Offset :: i32
  span_Length :: u32

text \<open>
  \<open>HistogramResetHint\<close> and \<open>MetricType\<close> are int32 in the source; the named values are
  constants of that type and any other value can be stored.
\<close>

record Histogram =
  hist_Count :: u64
  hist_CountFloat :: f64
  hist_Sum :: f64
  hist_Schema :: i32
  hist_ZeroThreshold :: f64
  hist_ZeroCount :: u64
  hist_ZeroCountFloat :: f64
  hist_NegativeSpans :: "BucketSpan list"
  hist_NegativeDeltas :: "i64 list"
  hist_NegativeCounts :: "f64 list"
  hist_PositiveSpans :: "BucketSpan list"
  hist_PositiveDeltas :: "i64 list"
  hist_PositiveCounts :: "f64 list"
  hist_ResetHint :: i32
  hist_Timestamp :: i64

record MetricMetadata =
  md_Type :: i32
  md_MetricFamilyName :: gostring
  md_Help :: gostring
  md_Unit :: gostring

record TimeSeries =
  ts_Labels :: "Label list"
  ts_Samples :: "Sample list"
  ts_Exemplars :: "Exemplar list"
  ts_Histograms :: "Histogram list"

record WriteRequest =
  req_Timeseries :: "TimeSeries list"
  req_Metadata :: "MetricMetadata list"

definition MetricType_String :: "i32 \<Rightarrow> gostring" where
  "MetricType_String t =
     (if t = 1 then gostr ''counter''
      else if t = 2 then gostr ''gauge''
      else if t = 3 then gostr ''histogram''
      else if t = 4 then gostr ''gauge_histogram''
      else if t = 5 then gostr ''summary''
      else if t = 6 then gostr ''info''
      else if t = 7 then gostr ''stateset''
      else gostr ''unknown'')"

section \<open>Accessors\<close>

definition GetLabelValue :: "TimeSeries \<Rightarrow> gostring \<Rightarrow> gostring" where
  "GetLabelValue ts name =
     (case find (\<lambda>l. label_Name l = name) (ts_Labels ts) of
        Some l \<Rightarrow> label_Value l
      | None \<Rightarrow> [])"

definition MetricName :: "TimeSeries \<Rightarrow> gostring" where
  "MetricName ts =
     (case find (\<lambda>l. label_Name l = gostr ''__name__'') (ts_Labels ts) of
        Some l \<Rightarrow> label_Value l
      | None \<Rightarrow> [])"

definition DatapointCount :: "TimeSeries \<Rightarrow> nat" where
  "DatapointCount ts = length (ts_Samples ts) + length (ts_Exemplars ts) + length (ts_Histograms ts)"

definition TotalDatapoints :: "WriteRequest \<Rightarrow> nat" where
  "TotalDatapoints req = foldl (\<lambda>count ts. count + DatapointCount ts) 0 (req_Timeseries req)"

definition TotalTimeseries :: "WriteRequest \<Rightarrow> nat" where
  "TotalTimeseries req = length (req_Timeseries req)"

definition IsPRW2 :: "WriteRequest \<Rightarrow> bool" where
  "IsPRW2 req \<longleftrightarrow>
     (if 0 < length (req_Metadata req) then True
      else list_ex (\<lambda>ts. 0 < length (ts_Exemplars ts) \<or> 0 < length (ts_Histograms ts)) (req_Timeseries req))"

section \<open>Series identity\<close>

text \<open>
  \<open>SortLabels\<close> is \<open>sort.Slice\<close> by name. \<open>sort.Slice\<close> leaves the order of equal names open;
  the model takes the stable order, and the theorems about it assume distinct label names,
  where there is only one sorted order.
\<close>

definition SortLabels :: "TimeSeries \<Rightarrow> TimeSeries" where
  "SortLabels ts = ts\<lparr>ts_Labels := sort_key label_Name (ts_Labels ts)\<rparr>"

definition fnv_offset64 :: u64 where "fnv_offset64 = 14695981039346656037"
definition fnv_prime64 :: u64 where "fnv_prime64 = 1099511628211"

definition fnv_step :: "u64 \<Rightarrow> byte \<Rightarrow> u64" where
  "fnv_step hash b = (hash XOR ucast b) * fnv_prime64"

definition LabelsHash :: "TimeSeries \<Rightarrow> u64" where
  "LabelsHash ts =
     foldl (\<lambda>hash l.
        let hash = foldl fnv_step hash (label_Name l);
            hash = fnv_step hash 0xFF;
            hash = foldl fnv_step hash (label_Value l)
        in fnv_step hash 0xFF)
       fnv_offset64 (ts_Labels ts)"

section \<open>Properties\<close>

lemma TotalDatapoints_sum: "TotalDatapoints req = sum_list (map DatapointCount (req_Timeseries req))"
proof -
  have "foldl (\<lambda>count ts. count + DatapointCount ts) n xs = n + sum_list (map DatapointCount xs)" for n xs
    by (induction xs arbitrary: n) auto
  then show ?thesis by (simp add: TotalDatapoints_def)
qed

lemma MetricName_GetLabelValue: "MetricName ts = GetLabelValue ts (gostr ''__name__'')"
  by (simp add: MetricName_def GetLabelValue_def)

lemma SortLabels_sorted: "sorted (map label_Name (ts_Labels (SortLabels ts)))"
  by (simp add: SortLabels_def)

lemma mset_SortLabels [simp]: "mset (ts_Labels (SortLabels ts)) = mset (ts_Labels ts)"
  by (simp add: SortLabels_def)

text \<open>
  Two series with the same labels, listed in any order, have the same identity once
  \<open>SortLabels\<close> has run: the hash the limits enforcer keys its cardinality table with is a
  function of the label set.
\<close>

lemma SortLabels_permutation:
  assumes "mset (ts_Labels ts) = mset (ts_Labels ts')"
    and "distinct (map label_Name (ts_Labels ts))"
  shows "ts_Labels (SortLabels ts) = ts_Labels (SortLabels ts')"
proof -
  have "sort_key label_Name (ts_Labels ts) = sort_key label_Name (ts_Labels ts')"
    using assms by (intro sort_key_inj_key_eq) (auto simp: distinct_map)
  then show ?thesis by (simp add: SortLabels_def)
qed

lemma LabelsHash_cong: "ts_Labels ts = ts_Labels ts' \<Longrightarrow> LabelsHash ts = LabelsHash ts'"
  by (simp add: LabelsHash_def)

text \<open>\<open>SortLabels\<close> reorders labels only: accessors and counts do not change.\<close>

lemma SortLabels_frame [simp]:
  "ts_Samples (SortLabels ts) = ts_Samples ts"
  "ts_Exemplars (SortLabels ts) = ts_Exemplars ts"
  "ts_Histograms (SortLabels ts) = ts_Histograms ts"
  "DatapointCount (SortLabels ts) = DatapointCount ts"
  by (simp_all add: SortLabels_def DatapointCount_def)

lemma SortLabels_idem [simp]: "SortLabels (SortLabels ts) = SortLabels ts"
  by (simp add: SortLabels_def sort_key_id_if_sorted)


lemma GetLabelValue_map_of:
  "GetLabelValue ts n = (case map_of (map (\<lambda>l. (label_Name l, label_Value l)) (ts_Labels ts)) n of
     Some v \<Rightarrow> v | None \<Rightarrow> [])"
proof -
  have "map_of (map (\<lambda>l. (label_Name l, label_Value l)) ls) n = map_option label_Value (find (\<lambda>l. label_Name l = n) ls)"
    for ls by (induction ls) auto
  from this [of "ts_Labels ts"] show ?thesis
    by (cases "find (\<lambda>l. label_Name l = n) (ts_Labels ts)") (simp_all add: GetLabelValue_def)
qed

lemma GetLabelValue_perm:
  assumes "mset (ts_Labels ts) = mset (ts_Labels ts')" "distinct (map label_Name (ts_Labels ts))"
  shows "GetLabelValue ts n = GetLabelValue ts' n"
proof -
  let ?kv = "map (\<lambda>l. (label_Name l, label_Value l))"
  have "distinct (map label_Name (ts_Labels ts'))" "set (ts_Labels ts) = set (ts_Labels ts')"
    using assms by (metis mset_eq_imp_distinct_iff mset_map, metis mset_eq_setD)
  then have "map_of (?kv (ts_Labels ts)) = map_of (?kv (ts_Labels ts'))"
    using assms(2) by (subst map_of_inject_set) (simp_all add: o_def)
  then show ?thesis by (simp add: GetLabelValue_map_of)
qed

lemma GetLabelValue_SortLabels [simp]:
  "distinct (map label_Name (ts_Labels ts)) \<Longrightarrow> GetLabelValue (SortLabels ts) n = GetLabelValue ts n"
  by (rule sym, rule GetLabelValue_perm) simp_all

text \<open>
  The identity of a series does not depend on the order of its labels: two series with the same
  labels under distinct names have the same \<open>LabelsHash\<close> once \<open>SortLabels\<close> has run, which
  is how the limits enforcer keys its cardinality tables.
\<close>

theorem LabelsHash_order_independent:
  assumes "mset (ts_Labels ts) = mset (ts_Labels ts')"
    and "distinct (map label_Name (ts_Labels ts))"
  shows "LabelsHash (SortLabels ts) = LabelsHash (SortLabels ts')"
  by (intro LabelsHash_cong SortLabels_permutation assms)

theorem LabelsHash_order_independent_witness:
  "LabelsHash (SortLabels \<lparr>ts_Labels = [\<lparr>label_Name = [98], label_Value = [1]\<rparr>, \<lparr>label_Name = [97], label_Value = [2]\<rparr>],
      ts_Samples = [], ts_Exemplars = [], ts_Histograms = []\<rparr>)
   = LabelsHash (SortLabels \<lparr>ts_Labels = [\<lparr>label_Name = [97], label_Value = [2]\<rparr>, \<lparr>label_Name = [98], label_Value = [1]\<rparr>],
      ts_Samples = [], ts_Exemplars = [], ts_Histograms = []\<rparr>)"
  by (rule LabelsHash_order_independent) simp_all

end
