(* ===== verification/Prw_Codec.thy ===== *)
theory Prw_Codec
  imports Wire Prw_Types
begin

text \<open>
  The message encoders and decoders of \<open>internal/prw/proto.go\<close>. Each \<open>marshal\<close> method is a
  chain of appends as in the source; each \<open>unmarshal\<close> method is the shared loop of theory
  \<open>Wire\<close> over a definition \<open>X_field\<close> that is the \<open>switch\<close> of the method, branch by branch.
  Interned strings are equal to the bytes they were made from (theory \<open>Intern\<close>), so the decoder
  of a label stores the bytes. The main results: decoding an encoded request gives the request
  back, up to the sign of zero floats in histograms, which the encoder drops.
\<close>

section \<open>Field numbers\<close>

named_theorems field_nums

definition fieldWriteRequestTimeseries :: nat where [field_nums]: "fieldWriteRequestTimeseries = 1"
definition fieldWriteRequestMetadata :: nat where [field_nums]: "fieldWriteRequestMetadata = 3"
definition fieldTimeSeriesLabels :: nat where [field_nums]: "fieldTimeSeriesLabels = 1"
definition fieldTimeSeriesSamples :: nat where [field_nums]: "fieldTimeSeriesSamples = 2"
definition fieldTimeSeriesExemplars :: nat where [field_nums]: "fieldTimeSeriesExemplars = 3"
definition fieldTimeSeriesHistograms :: nat where [field_nums]: "fieldTimeSeriesHistograms = 4"
definition fieldLabelName :: nat where [field_nums]: "fieldLabelName = 1"
definition fieldLabelValue :: nat where [field_nums]: "fieldLabelValue = 2"
definition fieldSampleValue :: nat where [field_nums]: "fieldSampleValue = 1"
definition fieldSampleTimestamp :: nat where [field_nums]: "fieldSampleTimestamp = 2"
definition fieldExemplarLabels :: nat where [field_nums]: "fieldExemplarLabels = 1"
definition fieldExemplarValue :: nat where [field_nums]: "fieldExemplarValue = 2"
definition fieldExemplarTimestamp :: nat where [field_nums]: "fieldExemplarTimestamp = 3"
definition fieldHistogramCount :: nat where [field_nums]: "fieldHistogramCount = 1"
definition fieldHistogramCountFloat :: nat where [field_nums]: "fieldHistogramCountFloat = 2"
definition fieldHistogramSum :: nat where [field_nums]: "fieldHistogramSum = 3"
definition fieldHistogramSchema :: nat where [field_nums]: "fieldHistogramSchema = 4"
definition fieldHistogramZeroThreshold :: nat where [field_nums]: "fieldHistogramZeroThreshold = 5"
definition fieldHistogramZeroCount :: nat where [field_nums]: "fieldHistogramZeroCount = 6"
definition fieldHistogramZeroCountFloat :: nat where [field_nums]: "fieldHistogramZeroCountFloat = 7"
definition fieldHistogramNegativeSpans :: nat where [field_nums]: "fieldHistogramNegativeSpans = 8"
definition fieldHistogramNegativeDeltas :: nat where [field_nums]: "fieldHistogramNegativeDeltas = 9"
definition fieldHistogramNegativeCounts :: nat where [field_nums]: "fieldHistogramNegativeCounts = 10"
definition fieldHistogramPositiveSpans :: nat where [field_nums]: "fieldHistogramPositiveSpans = 11"
definition fieldHistogramPositiveDeltas :: nat where [field_nums]: "fieldHistogramPositiveDeltas = 12"
definition fieldHistogramPositiveCounts :: nat where [field_nums]: "fieldHistogramPositiveCounts = 13"
definition fieldHistogramResetHint :: nat where [field_nums]: "fieldHistogramResetHint = 14"
definition fieldHistogramTimestamp :: nat where [field_nums]: "fieldHistogramTimestamp = 15"
definition fieldBucketSpanOffset :: nat where [field_nums]: "fieldBucketSpanOffset = 1"
definition fieldBucketSpanLength :: nat where [field_nums]: "fieldBucketSpanLength = 2"
definition fieldMetadataType :: nat where [field_nums]: "fieldMetadataType = 1"
definition fieldMetadataMetricFamilyName :: nat where [field_nums]: "fieldMetadataMetricFamilyName = 2"
definition fieldMetadataHelp :: nat where [field_nums]: "fieldMetadataHelp = 3"
definition fieldMetadataUnit :: nat where [field_nums]: "fieldMetadataUnit = 4"

section \<open>Shapes of field that recur in the switches\<close>

text \<open>\<open>if wireType != want \{ return error \}\<close>.\<close>

definition require_wire :: "string \<Rightarrow> nat \<Rightarrow> nat \<Rightarrow> 'a decoded \<Rightarrow> 'a decoded" where
  "require_wire what want wireType k =
     (if wireType \<noteq> want then Err (InvalidWireType what wireType) else k)"

definition read_varint :: "string \<Rightarrow> ('p \<Rightarrow> u64 \<Rightarrow> 'p) \<Rightarrow> 'p \<Rightarrow> bytes \<Rightarrow> ('p \<times> nat) decoded" where
  "read_varint what put p data =
     (case consumeVarint data of
        None \<Rightarrow> Err (InvalidEncoding what)
      | Some (v, n) \<Rightarrow> Ok (put p v, n))"

definition read_signed :: "string \<Rightarrow> ('p \<Rightarrow> i64 \<Rightarrow> 'p) \<Rightarrow> 'p \<Rightarrow> bytes \<Rightarrow> ('p \<times> nat) decoded" where
  "read_signed what put p data =
     (case consumeSignedVarint data of
        None \<Rightarrow> Err (InvalidEncoding what)
      | Some (v, n) \<Rightarrow> Ok (put p v, n))"

definition read_fixed64 :: "string \<Rightarrow> ('p \<Rightarrow> u64 \<Rightarrow> 'p) \<Rightarrow> 'p \<Rightarrow> bytes \<Rightarrow> ('p \<times> nat) decoded" where
  "read_fixed64 what put p data =
     (if length data < 8 then Err (InsufficientData what)
      else Ok (put p (le_uint64 (take 8 data)), 8))"

definition read_bytes :: "string \<Rightarrow> ('p \<Rightarrow> bytes \<Rightarrow> 'p) \<Rightarrow> 'p \<Rightarrow> bytes \<Rightarrow> ('p \<times> nat) decoded" where
  "read_bytes what put p data =
     (case consumeBytes data of
        None \<Rightarrow> Err (InvalidEncoding what)
      | Some (d, n) \<Rightarrow> Ok (put p d, n))"

definition read_message ::
    "string \<Rightarrow> string \<Rightarrow> (bytes \<Rightarrow> 'm decoded) \<Rightarrow> ('p \<Rightarrow> 'm \<Rightarrow> 'p) \<Rightarrow> 'p \<Rightarrow> bytes \<Rightarrow> ('p \<times> nat) decoded" where
  "read_message what msg unmarshal add p data =
     (case consumeBytes data of
        None \<Rightarrow> Err (InvalidEncoding what)
      | Some (d, n) \<Rightarrow> bind_outcome (map_err (FailedUnmarshal msg) (unmarshal d)) (\<lambda>m. Ok (add p m, n)))"

section \<open>Label\<close>

definition Label_marshal :: "Label \<Rightarrow> bytes" where
  "Label_marshal l =
     (let buf = [];
          buf = appendTagLengthDelim buf fieldLabelName (label_Name l);
          buf = appendTagLengthDelim buf fieldLabelValue (label_Value l)
      in buf)"

definition Label_field :: "Label field_decoder" where
  "Label_field l fieldNum wireType data =
     (if fieldNum = fieldLabelName then
        require_wire ''name'' wireLengthDelim wireType
          (read_bytes ''name length'' (\<lambda>l b. l\<lparr>label_Name := b\<rparr>) l data)
      else if fieldNum = fieldLabelValue then
        require_wire ''value'' wireLengthDelim wireType
          (read_bytes ''value length'' (\<lambda>l b. l\<lparr>label_Value := b\<rparr>) l data)
      else skip_unknown l fieldNum wireType data)"

definition Label_unmarshal :: "bytes \<Rightarrow> Label decoded" where
  "Label_unmarshal data = decode_loop Label_field \<lparr>label_Name = [], label_Value = []\<rparr> data"

definition Label_estimateSize :: "Label \<Rightarrow> nat" where
  "Label_estimateSize l = 2 + length (label_Name l) + 2 + length (label_Value l)"

section \<open>Sample\<close>

definition Sample_marshal :: "Sample \<Rightarrow> bytes" where
  "Sample_marshal s =
     (let buf = [];
          buf = appendTagFixed64 buf fieldSampleValue (sample_Value s);
          buf = appendTagVarint buf fieldSampleTimestamp (sample_Timestamp s)
      in buf)"

definition Sample_field :: "Sample field_decoder" where
  "Sample_field s fieldNum wireType data =
     (if fieldNum = fieldSampleValue then
        require_wire ''value'' wireFixed64 wireType
          (read_fixed64 ''fixed64'' (\<lambda>s v. s\<lparr>sample_Value := v\<rparr>) s data)
      else if fieldNum = fieldSampleTimestamp then
        require_wire ''timestamp'' wireVarint wireType
          (read_varint ''timestamp varint'' (\<lambda>s v. s\<lparr>sample_Timestamp := v\<rparr>) s data)
      else skip_unknown s fieldNum wireType data)"

definition Sample_unmarshal :: "bytes \<Rightarrow> Sample decoded" where
  "Sample_unmarshal data = decode_loop Sample_field \<lparr>sample_Value = 0, sample_Timestamp = 0\<rparr> data"

definition Sample_estimateSize :: "Sample \<Rightarrow> nat" where
  "Sample_estimateSize s = 1 + 8 + 1 + 10"

section \<open>Exemplar\<close>

definition Exemplar_marshal :: "Exemplar \<Rightarrow> bytes" where
  "Exemplar_marshal e =
     (let buf = [];
          buf = foldl (\<lambda>buf l. appendTagLengthDelim buf fieldExemplarLabels (Label_marshal l)) buf (ex_Labels e);
          buf = appendTagFixed64 buf fieldExemplarValue (ex_Value e);
          buf = appendTagVarint buf fieldExemplarTimestamp (ex_Timestamp e)
      in buf)"

definition Exemplar_field :: "Exemplar field_decoder" where
  "Exemplar_field e fieldNum wireType data =
     (if fieldNum = fieldExemplarLabels then
        require_wire ''labels'' wireLengthDelim wireType
          (read_message ''label length'' ''label'' Label_unmarshal
             (\<lambda>e l. e\<lparr>ex_Labels := ex_Labels e @ [l]\<rparr>) e data)
      else if fieldNum = fieldExemplarValue then
        require_wire ''value'' wireFixed64 wireType
          (read_fixed64 ''fixed64'' (\<lambda>e v. e\<lparr>ex_Value := v\<rparr>) e data)
      else if fieldNum = fieldExemplarTimestamp then
        require_wire ''timestamp'' wireVarint wireType
          (read_varint ''timestamp varint'' (\<lambda>e v. e\<lparr>ex_Timestamp := v\<rparr>) e data)
      else skip_unknown e fieldNum wireType data)"

definition Exemplar_unmarshal :: "bytes \<Rightarrow> Exemplar decoded" where
  "Exemplar_unmarshal data =
     decode_loop Exemplar_field \<lparr>ex_Labels = [], ex_Value = 0, ex_Timestamp = 0\<rparr> data"

definition Exemplar_estimateSize :: "Exemplar \<Rightarrow> nat" where
  "Exemplar_estimateSize e =
     foldl (\<lambda>size l. size + (2 + Label_estimateSize l)) (1 + 8 + 1 + 10) (ex_Labels e)"

section \<open>BucketSpan\<close>

definition BucketSpan_marshal :: "BucketSpan \<Rightarrow> bytes" where
  "BucketSpan_marshal span =
     (let buf = [];
          buf = appendTagVarintSigned buf fieldBucketSpanOffset (scast (span_Offset span));
          buf = appendTagVarint buf fieldBucketSpanLength (ucast (span_Length span))
      in buf)"

definition BucketSpan_field :: "BucketSpan field_decoder" where
  "BucketSpan_field span fieldNum wireType data =
     (if fieldNum = fieldBucketSpanOffset then
        require_wire ''offset'' wireVarint wireType
          (read_signed ''offset varint'' (\<lambda>s v. s\<lparr>span_Offset := ucast v\<rparr>) span data)
      else if fieldNum = fieldBucketSpanLength then
        require_wire ''length'' wireVarint wireType
          (read_varint ''length varint'' (\<lambda>s v. s\<lparr>span_Length := ucast v\<rparr>) span data)
      else skip_unknown span fieldNum wireType data)"

definition BucketSpan_unmarshal :: "bytes \<Rightarrow> BucketSpan decoded" where
  "BucketSpan_unmarshal data = decode_loop BucketSpan_field \<lparr>span_Offset = 0, span_Length = 0\<rparr> data"

section \<open>Histogram\<close>

definition Histogram_marshal :: "Histogram \<Rightarrow> bytes" where
  "Histogram_marshal h =
     (let buf = [];
          buf = (if hist_Count h \<noteq> 0 then appendTagVarint buf fieldHistogramCount (hist_Count h) else buf);
          buf = (if \<not> f64_is_zero (hist_CountFloat h)
                 then appendTagFixed64 buf fieldHistogramCountFloat (hist_CountFloat h) else buf);
          buf = (if \<not> f64_is_zero (hist_Sum h) then appendTagFixed64 buf fieldHistogramSum (hist_Sum h) else buf);
          buf = (if hist_Schema h \<noteq> 0
                 then appendTagVarintSigned buf fieldHistogramSchema (scast (hist_Schema h)) else buf);
          buf = (if \<not> f64_is_zero (hist_ZeroThreshold h)
                 then appendTagFixed64 buf fieldHistogramZeroThreshold (hist_ZeroThreshold h) else buf);
          buf = (if hist_ZeroCount h \<noteq> 0
                 then appendTagVarint buf fieldHistogramZeroCount (hist_ZeroCount h) else buf);
          buf = (if \<not> f64_is_zero (hist_ZeroCountFloat h)
                 then appendTagFixed64 buf fieldHistogramZeroCountFloat (hist_ZeroCountFloat h) else buf);
          buf = foldl (\<lambda>buf s. appendTagLengthDelim buf fieldHistogramNegativeSpans (BucketSpan_marshal s))
                  buf (hist_NegativeSpans h);
          buf = (if 0 < length (hist_NegativeDeltas h)
                 then appendTagLengthDelim buf fieldHistogramNegativeDeltas
                        (marshalSignedVarints (hist_NegativeDeltas h)) else buf);
          buf = (if 0 < length (hist_NegativeCounts h)
                 then appendTagLengthDelim buf fieldHistogramNegativeCounts
                        (marshalFixed64s (hist_NegativeCounts h)) else buf);
          buf = foldl (\<lambda>buf s. appendTagLengthDelim buf fieldHistogramPositiveSpans (BucketSpan_marshal s))
                  buf (hist_PositiveSpans h);
          buf = (if 0 < length (hist_PositiveDeltas h)
                 then appendTagLengthDelim buf fieldHistogramPositiveDeltas
                        (marshalSignedVarints (hist_PositiveDeltas h)) else buf);
          buf = (if 0 < length (hist_PositiveCounts h)
                 then appendTagLengthDelim buf fieldHistogramPositiveCounts
                        (marshalFixed64s (hist_PositiveCounts h)) else buf);
          buf = (if hist_ResetHint h \<noteq> 0
                 then appendTagVarint buf fieldHistogramResetHint (scast (hist_ResetHint h)) else buf);
          buf = appendTagVarint buf fieldHistogramTimestamp (hist_Timestamp h)
      in buf)"

text \<open>Most scalar branches of this switch do not look at the wire type.\<close>

definition Histogram_field :: "Histogram field_decoder" where
  "Histogram_field h fieldNum wireType data =
     (if fieldNum = fieldHistogramCount then
        read_varint ''count varint'' (\<lambda>h v. h\<lparr>hist_Count := v\<rparr>) h data
      else if fieldNum = fieldHistogramCountFloat then
        read_fixed64 ''count_float'' (\<lambda>h v. h\<lparr>hist_CountFloat := v\<rparr>) h data
      else if fieldNum = fieldHistogramSum then
        read_fixed64 ''sum'' (\<lambda>h v. h\<lparr>hist_Sum := v\<rparr>) h data
      else if fieldNum = fieldHistogramSchema then
        read_signed ''schema varint'' (\<lambda>h v. h\<lparr>hist_Schema := ucast v\<rparr>) h data
      else if fieldNum = fieldHistogramZeroThreshold then
        read_fixed64 ''zero_threshold'' (\<lambda>h v. h\<lparr>hist_ZeroThreshold := v\<rparr>) h data
      else if fieldNum = fieldHistogramZeroCount then
        read_varint ''zero_count varint'' (\<lambda>h v. h\<lparr>hist_ZeroCount := v\<rparr>) h data
      else if fieldNum = fieldHistogramZeroCountFloat then
        read_fixed64 ''zero_count_float'' (\<lambda>h v. h\<lparr>hist_ZeroCountFloat := v\<rparr>) h data
      else if fieldNum = fieldHistogramNegativeSpans then
        require_wire ''negative_spans'' wireLengthDelim wireType
          (read_message ''span length'' ''span'' BucketSpan_unmarshal
             (\<lambda>h s. h\<lparr>hist_NegativeSpans := hist_NegativeSpans h @ [s]\<rparr>) h data)
      else if fieldNum = fieldHistogramNegativeDeltas then
        require_wire ''negative_deltas'' wireLengthDelim wireType
          (read_bytes ''deltas length'' (\<lambda>h d. h\<lparr>hist_NegativeDeltas := unmarshalSignedVarints d\<rparr>) h data)
      else if fieldNum = fieldHistogramNegativeCounts then
        require_wire ''negative_counts'' wireLengthDelim wireType
          (read_bytes ''counts length'' (\<lambda>h d. h\<lparr>hist_NegativeCounts := unmarshalFixed64s d\<rparr>) h data)
      else if fieldNum = fieldHistogramPositiveSpans then
        require_wire ''positive_spans'' wireLengthDelim wireType
          (read_message ''span length'' ''span'' BucketSpan_unmarshal
             (\<lambda>h s. h\<lparr>hist_PositiveSpans := hist_PositiveSpans h @ [s]\<rparr>) h data)
      else if fieldNum = fieldHistogramPositiveDeltas then
        require_wire ''positive_deltas'' wireLengthDelim wireType
          (read_bytes ''deltas length'' (\<lambda>h d. h\<lparr>hist_PositiveDeltas := unmarshalSignedVarints d\<rparr>) h data)
      else if fieldNum = fieldHistogramPositiveCounts then
        require_wire ''positive_counts'' wireLengthDelim wireType
          (read_bytes ''counts length'' (\<lambda>h d. h\<lparr>hist_PositiveCounts := unmarshalFixed64s d\<rparr>) h data)
      else if fieldNum = fieldHistogramResetHint then
        read_varint ''reset_hint varint'' (\<lambda>h v. h\<lparr>hist_ResetHint := ucast v\<rparr>) h data
      else if fieldNum = fieldHistogramTimestamp then
        read_varint ''timestamp varint'' (\<lambda>h v. h\<lparr>hist_Timestamp := v\<rparr>) h data
      else skip_unknown h fieldNum wireType data)"

definition Histogram_zero :: Histogram where
  "Histogram_zero =
     \<lparr>hist_Count = 0, hist_CountFloat = 0, hist_Sum = 0, hist_Schema = 0, hist_ZeroThreshold = 0,
      hist_ZeroCount = 0, hist_ZeroCountFloat = 0, hist_NegativeSpans = [], hist_NegativeDeltas = [],
      hist_NegativeCounts = [], hist_PositiveSpans = [], hist_PositiveDeltas = [],
      hist_PositiveCounts = [], hist_ResetHint = 0, hist_Timestamp = 0\<rparr>"

definition Histogram_unmarshal :: "bytes \<Rightarrow> Histogram decoded" where
  "Histogram_unmarshal data = decode_loop Histogram_field Histogram_zero data"

definition Histogram_estimateSize :: "Histogram \<Rightarrow> nat" where
  "Histogram_estimateSize h =
     (let size = 100;
          size = size + length (hist_NegativeSpans h) * 10;
          size = size + length (hist_NegativeDeltas h) * 10;
          size = size + length (hist_NegativeCounts h) * 8;
          size = size + length (hist_PositiveSpans h) * 10;
          size = size + length (hist_PositiveDeltas h) * 10;
          size = size + length (hist_PositiveCounts h) * 8
      in size)"

section \<open>MetricMetadata\<close>

definition MetricMetadata_marshal :: "MetricMetadata \<Rightarrow> bytes" where
  "MetricMetadata_marshal md =
     (let buf = [];
          buf = (if md_Type md \<noteq> 0 then appendTagVarint buf fieldMetadataType (scast (md_Type md)) else buf);
          buf = (if md_MetricFamilyName md \<noteq> []
                 then appendTagLengthDelim buf fieldMetadataMetricFamilyName (md_MetricFamilyName md) else buf);
          buf = (if md_Help md \<noteq> [] then appendTagLengthDelim buf fieldMetadataHelp (md_Help md) else buf);
          buf = (if md_Unit md \<noteq> [] then appendTagLengthDelim buf fieldMetadataUnit (md_Unit md) else buf)
      in buf)"

definition MetricMetadata_field :: "MetricMetadata field_decoder" where
  "MetricMetadata_field md fieldNum wireType data =
     (if fieldNum = fieldMetadataType then
        read_varint ''type varint'' (\<lambda>m v. m\<lparr>md_Type := ucast v\<rparr>) md data
      else if fieldNum = fieldMetadataMetricFamilyName then
        require_wire ''metric_family_name'' wireLengthDelim wireType
          (read_bytes ''name length'' (\<lambda>m b. m\<lparr>md_MetricFamilyName := b\<rparr>) md data)
      else if fieldNum = fieldMetadataHelp then
        require_wire ''help'' wireLengthDelim wireType
          (read_bytes ''help length'' (\<lambda>m b. m\<lparr>md_Help := b\<rparr>) md data)
      else if fieldNum = fieldMetadataUnit then
        require_wire ''unit'' wireLengthDelim wireType
          (read_bytes ''unit length'' (\<lambda>m b. m\<lparr>md_Unit := b\<rparr>) md data)
      else skip_unknown md fieldNum wireType data)"

definition MetricMetadata_unmarshal :: "bytes \<Rightarrow> MetricMetadata decoded" where
  "MetricMetadata_unmarshal data =
     decode_loop MetricMetadata_field
       \<lparr>md_Type = 0, md_MetricFamilyName = [], md_Help = [], md_Unit = []\<rparr> data"

definition MetricMetadata_estimateSize :: "MetricMetadata \<Rightarrow> nat" where
  "MetricMetadata_estimateSize md =
     2 + length (md_MetricFamilyName md) + 2 + length (md_Help md) + 2 + length (md_Unit md) + 2"

section \<open>TimeSeries\<close>

definition TimeSeries_marshal :: "TimeSeries \<Rightarrow> bytes" where
  "TimeSeries_marshal ts =
     (let buf = [];
          buf = foldl (\<lambda>buf x. appendTagLengthDelim buf fieldTimeSeriesLabels (Label_marshal x)) buf (ts_Labels ts);
          buf = foldl (\<lambda>buf x. appendTagLengthDelim buf fieldTimeSeriesSamples (Sample_marshal x)) buf (ts_Samples ts);
          buf = foldl (\<lambda>buf x. appendTagLengthDelim buf fieldTimeSeriesExemplars (Exemplar_marshal x)) buf (ts_Exemplars ts);
          buf = foldl (\<lambda>buf x. appendTagLengthDelim buf fieldTimeSeriesHistograms (Histogram_marshal x)) buf (ts_Histograms ts)
      in buf)"

definition TimeSeries_field :: "TimeSeries field_decoder" where
  "TimeSeries_field ts fieldNum wireType data =
     (if fieldNum = fieldTimeSeriesLabels then
        require_wire ''labels'' wireLengthDelim wireType
          (read_message ''label length'' ''label'' Label_unmarshal
             (\<lambda>t x. t\<lparr>ts_Labels := ts_Labels t @ [x]\<rparr>) ts data)
      else if fieldNum = fieldTimeSeriesSamples then
        require_wire ''sample'' wireLengthDelim wireType
          (read_message ''sample length'' ''sample'' Sample_unmarshal
             (\<lambda>t x. t\<lparr>ts_Samples := ts_Samples t @ [x]\<rparr>) ts data)
      else if fieldNum = fieldTimeSeriesExemplars then
        require_wire ''exemplar'' wireLengthDelim wireType
          (read_message ''exemplar length'' ''exemplar'' Exemplar_unmarshal
             (\<lambda>t x. t\<lparr>ts_Exemplars := ts_Exemplars t @ [x]\<rparr>) ts data)
      else if fieldNum = fieldTimeSeriesHistograms then
        require_wire ''histogram'' wireLengthDelim wireType
          (read_message ''histogram length'' ''histogram'' Histogram_unmarshal
             (\<lambda>t x. t\<lparr>ts_Histograms := ts_Histograms t @ [x]\<rparr>) ts data)
      else skip_unknown ts fieldNum wireType data)"

definition TimeSeries_unmarshal :: "bytes \<Rightarrow> TimeSeries decoded" where
  "TimeSeries_unmarshal data =
     decode_loop TimeSeries_field
       \<lparr>ts_Labels = [], ts_Samples = [], ts_Exemplars = [], ts_Histograms = []\<rparr> data"

definition TimeSeries_estimateSize :: "TimeSeries \<Rightarrow> nat" where
  "TimeSeries_estimateSize ts =
     (let size = 0;
          size = foldl (\<lambda>size x. size + (2 + Label_estimateSize x)) size (ts_Labels ts);
          size = foldl (\<lambda>size x. size + (2 + Sample_estimateSize x)) size (ts_Samples ts);
          size = foldl (\<lambda>size x. size + (2 + Exemplar_estimateSize x)) size (ts_Exemplars ts);
          size = foldl (\<lambda>size x. size + (2 + Histogram_estimateSize x)) size (ts_Histograms ts)
      in size)"

section \<open>WriteRequest\<close>

definition WriteRequest_Marshal :: "WriteRequest \<Rightarrow> bytes" where
  "WriteRequest_Marshal req =
     (let buf = [];
          buf = foldl (\<lambda>buf x. appendTagLengthDelim buf fieldWriteRequestTimeseries (TimeSeries_marshal x))
                  buf (req_Timeseries req);
          buf = foldl (\<lambda>buf x. appendTagLengthDelim buf fieldWriteRequestMetadata (MetricMetadata_marshal x))
                  buf (req_Metadata req)
      in buf)"

definition WriteRequest_field :: "WriteRequest field_decoder" where
  "WriteRequest_field req fieldNum wireType data =
     (if fieldNum = fieldWriteRequestTimeseries then
        require_wire ''timeseries'' wireLengthDelim wireType
          (read_message ''timeseries length'' ''timeseries'' TimeSeries_unmarshal
             (\<lambda>r x. r\<lparr>req_Timeseries := req_Timeseries r @ [x]\<rparr>) req data)
      else if fieldNum = fieldWriteRequestMetadata then
        require_wire ''metadata'' wireLengthDelim wireType
          (read_message ''metadata length'' ''metadata'' MetricMetadata_unmarshal
             (\<lambda>r x. r\<lparr>req_Metadata := req_Metadata r @ [x]\<rparr>) req data)
      else skip_unknown req fieldNum wireType data)"

definition WriteRequest_Unmarshal :: "bytes \<Rightarrow> WriteRequest decoded" where
  "WriteRequest_Unmarshal data =
     decode_loop WriteRequest_field \<lparr>req_Timeseries = [], req_Metadata = []\<rparr> data"

definition UnmarshalWriteRequest :: "bytes \<Rightarrow> WriteRequest decoded" where
  "UnmarshalWriteRequest data = WriteRequest_Unmarshal data"

definition WriteRequest_estimateSize :: "WriteRequest \<Rightarrow> nat" where
  "WriteRequest_estimateSize req =
     (let size = 0;
          size = foldl (\<lambda>size x. size + (2 + TimeSeries_estimateSize x)) size (req_Timeseries req);
          size = foldl (\<lambda>size x. size + (2 + MetricMetadata_estimateSize x)) size (req_Metadata req)
      in size)"

section \<open>Canonical form\<close>

text \<open>
  What survives a round trip. The histogram encoder writes a float field only if it is
  \<open>!= 0\<close>, so a negative zero comes back as zero; everything else comes back as it was.
\<close>

definition canon_f64 :: "f64 \<Rightarrow> f64" where
  "canon_f64 x = (if f64_is_zero x then 0 else x)"

definition canon_Histogram :: "Histogram \<Rightarrow> Histogram" where
  "canon_Histogram h =
     h\<lparr>hist_CountFloat := canon_f64 (hist_CountFloat h),
       hist_Sum := canon_f64 (hist_Sum h),
       hist_ZeroThreshold := canon_f64 (hist_ZeroThreshold h),
       hist_ZeroCountFloat := canon_f64 (hist_ZeroCountFloat h)\<rparr>"

definition canon_TimeSeries :: "TimeSeries \<Rightarrow> TimeSeries" where
  "canon_TimeSeries ts = ts\<lparr>ts_Histograms := map canon_Histogram (ts_Histograms ts)\<rparr>"

definition canon_WriteRequest :: "WriteRequest \<Rightarrow> WriteRequest" where
  "canon_WriteRequest req = req\<lparr>req_Timeseries := map canon_TimeSeries (req_Timeseries req)\<rparr>"

section \<open>Round trips\<close>

lemma foldl_enc_bytes [encode_simps]:
  "foldl (\<lambda>buf x. buf @ enc_bytes num (g x)) buf xs = buf @ concat (map (\<lambda>x. enc_bytes num (g x)) xs)"
  by (rule foldl_append_concat)

lemma if_append [encode_simps]: "(if c then buf @ x else buf) = buf @ (if c then x else [])"
  by simp

text \<open>What the field readers make of the three shapes of segment.\<close>

lemma read_segments [simp]:
  "read_varint what put p (varint v @ rest) = Ok (put p v, length (varint v))"
  "read_signed what put' p (varint (zigzag w) @ rest) = Ok (put' p w, length (varint (zigzag w)))"
  "read_fixed64 what put p (le_bytes 8 v @ rest) = Ok (put p v, 8)"
  "length d + length rest < 2 ^ 64 \<Longrightarrow>
     read_bytes what putb p (varint (word_of_nat (length d)) @ d @ rest)
       = Ok (putb p d, length (varint (word_of_nat (length d))) + length d)"
  by (simp_all add: read_varint_def read_signed_def read_fixed64_def read_bytes_def)

lemma read_message_Ok:
  "consumeBytes data = Some (d, n) \<Longrightarrow> unmarshal d = Ok m
   \<Longrightarrow> read_message what msg unmarshal add p data = Ok (add p m, n)"
  by (simp add: read_message_def)

lemma require_wire_same [simp]: "require_wire what w w k = k"
  by (simp add: require_wire_def)

lemma enc_bytes_fits [simp]:
  "length (enc_bytes num d) + k < 2 ^ 64 \<Longrightarrow> length d + k < 2 ^ 64"
  by (simp add: enc_bytes_def)

lemma decode_optional:
  assumes "c \<Longrightarrow> decode_loop field m (e @ rest) = decode_loop field m' rest" "\<not> c \<Longrightarrow> m' = m"
  shows "decode_loop field m ((if c then e else []) @ rest) = decode_loop field m' rest"
  using assms by (cases c) auto

lemmas segment_simps = field_nums enc_bytes_def

subsection \<open>Flat messages\<close>

lemma Label_segments:
  "length (enc_bytes fieldLabelName d) + length rest < 2 ^ 64 \<Longrightarrow>
     decode_loop Label_field l (enc_bytes fieldLabelName d @ rest)
       = decode_loop Label_field (l\<lparr>label_Name := d\<rparr>) rest"
  "length (enc_bytes fieldLabelValue d) + length rest < 2 ^ 64 \<Longrightarrow>
     decode_loop Label_field l (enc_bytes fieldLabelValue d @ rest)
       = decode_loop Label_field (l\<lparr>label_Value := d\<rparr>) rest"
  by (rule decode_enc_bytes; simp add: Label_field_def segment_simps)+

lemma Label_roundtrip:
  assumes "length (Label_marshal l) < 2 ^ 64"
  shows "Label_unmarshal (Label_marshal l) = Ok l"
proof -
  have enc: "Label_marshal l
      = enc_bytes fieldLabelName (label_Name l) @ enc_bytes fieldLabelValue (label_Value l) @ []"
    by (simp add: Label_marshal_def encode_simps Let_def)
  show ?thesis
    using assms unfolding Label_unmarshal_def enc
    by (simp add: Label_segments del: append_Nil2)
qed

lemma Sample_segments:
  "decode_loop Sample_field s (enc_fixed64 fieldSampleValue v @ rest)
     = decode_loop Sample_field (s\<lparr>sample_Value := v\<rparr>) rest"
  "decode_loop Sample_field s (enc_varint fieldSampleTimestamp v @ rest)
     = decode_loop Sample_field (s\<lparr>sample_Timestamp := v\<rparr>) rest"
  by (rule decode_enc_fixed64 decode_enc_varint; simp add: Sample_field_def field_nums)+

lemma Sample_roundtrip: "Sample_unmarshal (Sample_marshal s) = Ok s"
proof -
  have "Sample_marshal s
      = enc_fixed64 fieldSampleValue (sample_Value s) @ enc_varint fieldSampleTimestamp (sample_Timestamp s) @ []"
    by (simp add: Sample_marshal_def encode_simps Let_def)
  then show ?thesis
    by (simp only: Sample_unmarshal_def Sample_segments) simp
qed

lemma BucketSpan_segments:
  "decode_loop BucketSpan_field s (enc_varint fieldBucketSpanOffset (zigzag v) @ rest)
     = decode_loop BucketSpan_field (s\<lparr>span_Offset := ucast v\<rparr>) rest"
  "decode_loop BucketSpan_field s (enc_varint fieldBucketSpanLength w @ rest)
     = decode_loop BucketSpan_field (s\<lparr>span_Length := ucast w\<rparr>) rest"
  by (rule decode_enc_varint; simp add: BucketSpan_field_def field_nums)+

lemma BucketSpan_roundtrip: "BucketSpan_unmarshal (BucketSpan_marshal s) = Ok s"
proof -
  have "BucketSpan_marshal s
      = enc_varint fieldBucketSpanOffset (zigzag (scast (span_Offset s)))
        @ enc_varint fieldBucketSpanLength (ucast (span_Length s)) @ []"
    by (simp add: BucketSpan_marshal_def encode_simps Let_def)
  then show ?thesis
    by (simp only: BucketSpan_unmarshal_def BucketSpan_segments) simp
qed

text \<open>An empty field of a metadata entry is not written; decoding starts from empty fields.\<close>

lemma MetricMetadata_segments:
  "md_Type m = 0 \<Longrightarrow>
     decode_loop MetricMetadata_field m ((if t \<noteq> 0 then enc_varint fieldMetadataType (scast t) else []) @ rest)
       = decode_loop MetricMetadata_field (m\<lparr>md_Type := t\<rparr>) rest"
  "md_MetricFamilyName m = [] \<Longrightarrow>
     length (if d \<noteq> [] then enc_bytes fieldMetadataMetricFamilyName d else []) + length rest < 2 ^ 64 \<Longrightarrow>
     decode_loop MetricMetadata_field m
       ((if d \<noteq> [] then enc_bytes fieldMetadataMetricFamilyName d else []) @ rest)
       = decode_loop MetricMetadata_field (m\<lparr>md_MetricFamilyName := d\<rparr>) rest"
  "md_Help m = [] \<Longrightarrow>
     length (if d \<noteq> [] then enc_bytes fieldMetadataHelp d else []) + length rest < 2 ^ 64 \<Longrightarrow>
     decode_loop MetricMetadata_field m ((if d \<noteq> [] then enc_bytes fieldMetadataHelp d else []) @ rest)
       = decode_loop MetricMetadata_field (m\<lparr>md_Help := d\<rparr>) rest"
  "md_Unit m = [] \<Longrightarrow>
     length (if d \<noteq> [] then enc_bytes fieldMetadataUnit d else []) + length rest < 2 ^ 64 \<Longrightarrow>
     decode_loop MetricMetadata_field m ((if d \<noteq> [] then enc_bytes fieldMetadataUnit d else []) @ rest)
       = decode_loop MetricMetadata_field (m\<lparr>md_Unit := d\<rparr>) rest"
  by (cases m; rule decode_optional, rule decode_enc_varint decode_enc_bytes;
      simp add: MetricMetadata_field_def segment_simps)+

lemma MetricMetadata_roundtrip:
  assumes "length (MetricMetadata_marshal md) < 2 ^ 64"
  shows "MetricMetadata_unmarshal (MetricMetadata_marshal md) = Ok md"
proof -
  have enc: "MetricMetadata_marshal md =
      (if md_Type md \<noteq> 0 then enc_varint fieldMetadataType (scast (md_Type md)) else [])
      @ (if md_MetricFamilyName md \<noteq> [] then enc_bytes fieldMetadataMetricFamilyName (md_MetricFamilyName md) else [])
      @ (if md_Help md \<noteq> [] then enc_bytes fieldMetadataHelp (md_Help md) else [])
      @ (if md_Unit md \<noteq> [] then enc_bytes fieldMetadataUnit (md_Unit md) else []) @ []"
    by (simp only: MetricMetadata_marshal_def encode_simps Let_def append_assoc append_Nil append_Nil2)
  show ?thesis
    using assms unfolding MetricMetadata_unmarshal_def enc
    by (simp add: MetricMetadata_segments del: append_Nil2 split del: if_split)
qed

subsection \<open>Messages with embedded messages\<close>

text \<open>
  The laws of \<open>embedded_message\<close> for each field of the format that holds another message.
\<close>

lemma add_many [simp]:
  "foldl (\<lambda>e l. e\<lparr>ex_Labels := ex_Labels e @ [l]\<rparr>) e ls = e\<lparr>ex_Labels := ex_Labels e @ ls\<rparr>"
  "foldl (\<lambda>h s. h\<lparr>hist_NegativeSpans := hist_NegativeSpans h @ [s]\<rparr>) h ss
     = h\<lparr>hist_NegativeSpans := hist_NegativeSpans h @ ss\<rparr>"
  "foldl (\<lambda>h s. h\<lparr>hist_PositiveSpans := hist_PositiveSpans h @ [s]\<rparr>) h ss
     = h\<lparr>hist_PositiveSpans := hist_PositiveSpans h @ ss\<rparr>"
  "foldl (\<lambda>t x. t\<lparr>ts_Labels := ts_Labels t @ [x]\<rparr>) t ls = t\<lparr>ts_Labels := ts_Labels t @ ls\<rparr>"
  "foldl (\<lambda>t x. t\<lparr>ts_Samples := ts_Samples t @ [x]\<rparr>) t sms = t\<lparr>ts_Samples := ts_Samples t @ sms\<rparr>"
  "foldl (\<lambda>t x. t\<lparr>ts_Exemplars := ts_Exemplars t @ [x]\<rparr>) t es = t\<lparr>ts_Exemplars := ts_Exemplars t @ es\<rparr>"
  "foldl (\<lambda>t x. t\<lparr>ts_Histograms := ts_Histograms t @ [x]\<rparr>) t hs = t\<lparr>ts_Histograms := ts_Histograms t @ hs\<rparr>"
  "foldl (\<lambda>r x. r\<lparr>req_Timeseries := req_Timeseries r @ [x]\<rparr>) r tss
     = r\<lparr>req_Timeseries := req_Timeseries r @ tss\<rparr>"
  "foldl (\<lambda>r x. r\<lparr>req_Metadata := req_Metadata r @ [x]\<rparr>) r mds = r\<lparr>req_Metadata := req_Metadata r @ mds\<rparr>"
  by (simp_all add: foldl_field_append [where get = ex_Labels and upd = "\<lambda>v e. e\<lparr>ex_Labels := v\<rparr>"]
      foldl_field_append [where get = hist_NegativeSpans and upd = "\<lambda>v e. e\<lparr>hist_NegativeSpans := v\<rparr>"]
      foldl_field_append [where get = hist_PositiveSpans and upd = "\<lambda>v e. e\<lparr>hist_PositiveSpans := v\<rparr>"]
      foldl_field_append [where get = ts_Labels and upd = "\<lambda>v e. e\<lparr>ts_Labels := v\<rparr>"]
      foldl_field_append [where get = ts_Samples and upd = "\<lambda>v e. e\<lparr>ts_Samples := v\<rparr>"]
      foldl_field_append [where get = ts_Exemplars and upd = "\<lambda>v e. e\<lparr>ts_Exemplars := v\<rparr>"]
      foldl_field_append [where get = ts_Histograms and upd = "\<lambda>v e. e\<lparr>ts_Histograms := v\<rparr>"]
      foldl_field_append [where get = req_Timeseries and upd = "\<lambda>v e. e\<lparr>req_Timeseries := v\<rparr>"]
      foldl_field_append [where get = req_Metadata and upd = "\<lambda>v e. e\<lparr>req_Metadata := v\<rparr>"])

interpretation ex_labels: embedded_message Label_marshal Label_unmarshal id Exemplar_field
  fieldExemplarLabels "\<lambda>e l. e\<lparr>ex_Labels := ex_Labels e @ [l]\<rparr>"
  by unfold_locales (simp_all add: Exemplar_field_def field_nums Label_roundtrip read_message_Ok)

lemma Exemplar_segments:
  "decode_loop Exemplar_field e (enc_fixed64 fieldExemplarValue v @ rest)
     = decode_loop Exemplar_field (e\<lparr>ex_Value := v\<rparr>) rest"
  "decode_loop Exemplar_field e (enc_varint fieldExemplarTimestamp v @ rest)
     = decode_loop Exemplar_field (e\<lparr>ex_Timestamp := v\<rparr>) rest"
  by (rule decode_enc_fixed64 decode_enc_varint; simp add: Exemplar_field_def field_nums)+

lemma Exemplar_roundtrip:
  assumes "length (Exemplar_marshal e) < 2 ^ 64"
  shows "Exemplar_unmarshal (Exemplar_marshal e) = Ok e"
proof -
  have enc: "Exemplar_marshal e
      = concat (map (\<lambda>l. enc_bytes fieldExemplarLabels (Label_marshal l)) (ex_Labels e))
        @ enc_fixed64 fieldExemplarValue (ex_Value e)
        @ enc_varint fieldExemplarTimestamp (ex_Timestamp e) @ []"
    by (simp add: Exemplar_marshal_def encode_simps Let_def)
  show ?thesis
    using assms unfolding Exemplar_unmarshal_def enc
    by (simp add: ex_labels.decode_many Exemplar_segments del: append_Nil2)
qed

interpretation neg_spans: embedded_message BucketSpan_marshal BucketSpan_unmarshal id Histogram_field
  fieldHistogramNegativeSpans "\<lambda>h s. h\<lparr>hist_NegativeSpans := hist_NegativeSpans h @ [s]\<rparr>"
  by unfold_locales (simp_all add: Histogram_field_def field_nums BucketSpan_roundtrip read_message_Ok)

interpretation pos_spans: embedded_message BucketSpan_marshal BucketSpan_unmarshal id Histogram_field
  fieldHistogramPositiveSpans "\<lambda>h s. h\<lparr>hist_PositiveSpans := hist_PositiveSpans h @ [s]\<rparr>"
  by unfold_locales (simp_all add: Histogram_field_def field_nums BucketSpan_roundtrip read_message_Ok)

text \<open>
  The scalar and packed fields of a histogram. A field is left out when it is zero or empty;
  decoding starts from a histogram in which it is.
\<close>

lemma Histogram_varint_segments:
  "hist_Count h = 0 \<Longrightarrow>
     decode_loop Histogram_field h ((if v \<noteq> 0 then enc_varint fieldHistogramCount v else []) @ rest)
       = decode_loop Histogram_field (h\<lparr>hist_Count := v\<rparr>) rest"
  "hist_ZeroCount h = 0 \<Longrightarrow>
     decode_loop Histogram_field h ((if v \<noteq> 0 then enc_varint fieldHistogramZeroCount v else []) @ rest)
       = decode_loop Histogram_field (h\<lparr>hist_ZeroCount := v\<rparr>) rest"
  "hist_Schema h = 0 \<Longrightarrow>
     decode_loop Histogram_field h
       ((if w \<noteq> 0 then enc_varint fieldHistogramSchema (zigzag (scast w)) else []) @ rest)
       = decode_loop Histogram_field (h\<lparr>hist_Schema := w\<rparr>) rest"
  "hist_ResetHint h = 0 \<Longrightarrow>
     decode_loop Histogram_field h ((if w \<noteq> 0 then enc_varint fieldHistogramResetHint (scast w) else []) @ rest)
       = decode_loop Histogram_field (h\<lparr>hist_ResetHint := w\<rparr>) rest"
  by (cases h; rule decode_optional, rule decode_enc_varint; simp add: Histogram_field_def field_nums)+

lemma Histogram_timestamp_segment:
  "decode_loop Histogram_field h (enc_varint fieldHistogramTimestamp v @ rest)
     = decode_loop Histogram_field (h\<lparr>hist_Timestamp := v\<rparr>) rest"
  by (rule decode_enc_varint; simp add: Histogram_field_def field_nums)

lemma Histogram_float_segments:
  "hist_CountFloat h = 0 \<Longrightarrow>
     decode_loop Histogram_field h ((if \<not> f64_is_zero x then enc_fixed64 fieldHistogramCountFloat x else []) @ rest)
       = decode_loop Histogram_field (h\<lparr>hist_CountFloat := canon_f64 x\<rparr>) rest"
  "hist_Sum h = 0 \<Longrightarrow>
     decode_loop Histogram_field h ((if \<not> f64_is_zero x then enc_fixed64 fieldHistogramSum x else []) @ rest)
       = decode_loop Histogram_field (h\<lparr>hist_Sum := canon_f64 x\<rparr>) rest"
  "hist_ZeroThreshold h = 0 \<Longrightarrow>
     decode_loop Histogram_field h ((if \<not> f64_is_zero x then enc_fixed64 fieldHistogramZeroThreshold x else []) @ rest)
       = decode_loop Histogram_field (h\<lparr>hist_ZeroThreshold := canon_f64 x\<rparr>) rest"
  "hist_ZeroCountFloat h = 0 \<Longrightarrow>
     decode_loop Histogram_field h ((if \<not> f64_is_zero x then enc_fixed64 fieldHistogramZeroCountFloat x else []) @ rest)
       = decode_loop Histogram_field (h\<lparr>hist_ZeroCountFloat := canon_f64 x\<rparr>) rest"
  by (cases h; rule decode_optional, rule decode_enc_fixed64;
      simp add: Histogram_field_def field_nums canon_f64_def)+

lemma Histogram_packed_segments:
  "hist_NegativeDeltas h = [] \<Longrightarrow>
     length (if 0 < length vs then enc_bytes fieldHistogramNegativeDeltas (marshalSignedVarints vs) else [])
       + length rest < 2 ^ 64 \<Longrightarrow>
     decode_loop Histogram_field h
       ((if 0 < length vs then enc_bytes fieldHistogramNegativeDeltas (marshalSignedVarints vs) else []) @ rest)
       = decode_loop Histogram_field (h\<lparr>hist_NegativeDeltas := vs\<rparr>) rest"
  "hist_PositiveDeltas h = [] \<Longrightarrow>
     length (if 0 < length vs then enc_bytes fieldHistogramPositiveDeltas (marshalSignedVarints vs) else [])
       + length rest < 2 ^ 64 \<Longrightarrow>
     decode_loop Histogram_field h
       ((if 0 < length vs then enc_bytes fieldHistogramPositiveDeltas (marshalSignedVarints vs) else []) @ rest)
       = decode_loop Histogram_field (h\<lparr>hist_PositiveDeltas := vs\<rparr>) rest"
  "hist_NegativeCounts h = [] \<Longrightarrow>
     length (if 0 < length xs then enc_bytes fieldHistogramNegativeCounts (marshalFixed64s xs) else [])
       + length rest < 2 ^ 64 \<Longrightarrow>
     decode_loop Histogram_field h
       ((if 0 < length xs then enc_bytes fieldHistogramNegativeCounts (marshalFixed64s xs) else []) @ rest)
       = decode_loop Histogram_field (h\<lparr>hist_NegativeCounts := xs\<rparr>) rest"
  "hist_PositiveCounts h = [] \<Longrightarrow>
     length (if 0 < length xs then enc_bytes fieldHistogramPositiveCounts (marshalFixed64s xs) else [])
       + length rest < 2 ^ 64 \<Longrightarrow>
     decode_loop Histogram_field h
       ((if 0 < length xs then enc_bytes fieldHistogramPositiveCounts (marshalFixed64s xs) else []) @ rest)
       = decode_loop Histogram_field (h\<lparr>hist_PositiveCounts := xs\<rparr>) rest"
  by (cases h; rule decode_optional, rule decode_enc_bytes;
      simp add: Histogram_field_def field_nums enc_bytes_def)+

lemma Histogram_marshal_segments:
  "Histogram_marshal h =
     (if hist_Count h \<noteq> 0 then enc_varint fieldHistogramCount (hist_Count h) else [])
     @ (if \<not> f64_is_zero (hist_CountFloat h) then enc_fixed64 fieldHistogramCountFloat (hist_CountFloat h) else [])
     @ (if \<not> f64_is_zero (hist_Sum h) then enc_fixed64 fieldHistogramSum (hist_Sum h) else [])
     @ (if hist_Schema h \<noteq> 0 then enc_varint fieldHistogramSchema (zigzag (scast (hist_Schema h))) else [])
     @ (if \<not> f64_is_zero (hist_ZeroThreshold h)
        then enc_fixed64 fieldHistogramZeroThreshold (hist_ZeroThreshold h) else [])
     @ (if hist_ZeroCount h \<noteq> 0 then enc_varint fieldHistogramZeroCount (hist_ZeroCount h) else [])
     @ (if \<not> f64_is_zero (hist_ZeroCountFloat h)
        then enc_fixed64 fieldHistogramZeroCountFloat (hist_ZeroCountFloat h) else [])
     @ concat (map (\<lambda>s. enc_bytes fieldHistogramNegativeSpans (BucketSpan_marshal s)) (hist_NegativeSpans h))
     @ (if 0 < length (hist_NegativeDeltas h)
        then enc_bytes fieldHistogramNegativeDeltas (marshalSignedVarints (hist_NegativeDeltas h)) else [])
     @ (if 0 < length (hist_NegativeCounts h)
        then enc_bytes fieldHistogramNegativeCounts (marshalFixed64s (hist_NegativeCounts h)) else [])
     @ concat (map (\<lambda>s. enc_bytes fieldHistogramPositiveSpans (BucketSpan_marshal s)) (hist_PositiveSpans h))
     @ (if 0 < length (hist_PositiveDeltas h)
        then enc_bytes fieldHistogramPositiveDeltas (marshalSignedVarints (hist_PositiveDeltas h)) else [])
     @ (if 0 < length (hist_PositiveCounts h)
        then enc_bytes fieldHistogramPositiveCounts (marshalFixed64s (hist_PositiveCounts h)) else [])
     @ (if hist_ResetHint h \<noteq> 0 then enc_varint fieldHistogramResetHint (scast (hist_ResetHint h)) else [])
     @ enc_varint fieldHistogramTimestamp (hist_Timestamp h) @ []"
  by (simp only: Histogram_marshal_def encode_simps Let_def append_assoc append_Nil append_Nil2)

lemma Histogram_roundtrip:
  assumes "length (Histogram_marshal h) < 2 ^ 64"
  shows "Histogram_unmarshal (Histogram_marshal h) = Ok (canon_Histogram h)"
  using assms unfolding Histogram_unmarshal_def Histogram_marshal_segments Histogram_zero_def
  by (simp add: Histogram_varint_segments Histogram_float_segments Histogram_packed_segments
      Histogram_timestamp_segment neg_spans.decode_many pos_spans.decode_many canon_Histogram_def
      del: append_Nil2 length_greater_0_conv split del: if_split)

interpretation ts_labels: embedded_message Label_marshal Label_unmarshal id TimeSeries_field
  fieldTimeSeriesLabels "\<lambda>t x. t\<lparr>ts_Labels := ts_Labels t @ [x]\<rparr>"
  by unfold_locales (simp_all add: TimeSeries_field_def field_nums Label_roundtrip read_message_Ok)

interpretation ts_samples: embedded_message Sample_marshal Sample_unmarshal id TimeSeries_field
  fieldTimeSeriesSamples "\<lambda>t x. t\<lparr>ts_Samples := ts_Samples t @ [x]\<rparr>"
  by unfold_locales (simp_all add: TimeSeries_field_def field_nums Sample_roundtrip read_message_Ok)

interpretation ts_exemplars: embedded_message Exemplar_marshal Exemplar_unmarshal id TimeSeries_field
  fieldTimeSeriesExemplars "\<lambda>t x. t\<lparr>ts_Exemplars := ts_Exemplars t @ [x]\<rparr>"
  by unfold_locales (simp_all add: TimeSeries_field_def field_nums Exemplar_roundtrip read_message_Ok)

interpretation ts_histograms: embedded_message Histogram_marshal Histogram_unmarshal canon_Histogram
  TimeSeries_field fieldTimeSeriesHistograms "\<lambda>t x. t\<lparr>ts_Histograms := ts_Histograms t @ [x]\<rparr>"
  by unfold_locales (simp_all add: TimeSeries_field_def field_nums Histogram_roundtrip read_message_Ok)

lemma TimeSeries_roundtrip:
  assumes "length (TimeSeries_marshal ts) < 2 ^ 64"
  shows "TimeSeries_unmarshal (TimeSeries_marshal ts) = Ok (canon_TimeSeries ts)"
proof -
  have enc: "TimeSeries_marshal ts =
      concat (map (\<lambda>x. enc_bytes fieldTimeSeriesLabels (Label_marshal x)) (ts_Labels ts))
      @ concat (map (\<lambda>x. enc_bytes fieldTimeSeriesSamples (Sample_marshal x)) (ts_Samples ts))
      @ concat (map (\<lambda>x. enc_bytes fieldTimeSeriesExemplars (Exemplar_marshal x)) (ts_Exemplars ts))
      @ concat (map (\<lambda>x. enc_bytes fieldTimeSeriesHistograms (Histogram_marshal x)) (ts_Histograms ts)) @ []"
    by (simp only: TimeSeries_marshal_def encode_simps Let_def append_assoc append_Nil append_Nil2)
  show ?thesis
    using assms unfolding TimeSeries_unmarshal_def enc
    by (simp add: ts_labels.decode_many ts_samples.decode_many ts_exemplars.decode_many
        ts_histograms.decode_many canon_TimeSeries_def del: append_Nil2)
qed

interpretation req_series: embedded_message TimeSeries_marshal TimeSeries_unmarshal canon_TimeSeries
  WriteRequest_field fieldWriteRequestTimeseries "\<lambda>r x. r\<lparr>req_Timeseries := req_Timeseries r @ [x]\<rparr>"
  by unfold_locales (simp_all add: WriteRequest_field_def field_nums TimeSeries_roundtrip read_message_Ok)

interpretation req_metadata: embedded_message MetricMetadata_marshal MetricMetadata_unmarshal id
  WriteRequest_field fieldWriteRequestMetadata "\<lambda>r x. r\<lparr>req_Metadata := req_Metadata r @ [x]\<rparr>"
  by unfold_locales (simp_all add: WriteRequest_field_def field_nums MetricMetadata_roundtrip read_message_Ok)

lemma WriteRequest_roundtrip:
  assumes "length (WriteRequest_Marshal req) < 2 ^ 64"
  shows "WriteRequest_Unmarshal (WriteRequest_Marshal req) = Ok (canon_WriteRequest req)"
proof -
  have enc: "WriteRequest_Marshal req =
      concat (map (\<lambda>x. enc_bytes fieldWriteRequestTimeseries (TimeSeries_marshal x)) (req_Timeseries req))
      @ concat (map (\<lambda>x. enc_bytes fieldWriteRequestMetadata (MetricMetadata_marshal x)) (req_Metadata req)) @ []"
    by (simp only: WriteRequest_Marshal_def encode_simps Let_def append_assoc append_Nil append_Nil2)
  show ?thesis
    using assms unfolding WriteRequest_Unmarshal_def enc
    by (simp add: req_series.decode_many req_metadata.decode_many canon_WriteRequest_def del: append_Nil2)
qed

section \<open>Unknown fields\<close>

text \<open>A field the switch does not know is handed to \<open>skip_unknown\<close>.\<close>

lemma WriteRequest_field_unknown:
  "num \<noteq> fieldWriteRequestTimeseries \<Longrightarrow> num \<noteq> fieldWriteRequestMetadata
   \<Longrightarrow> WriteRequest_field req num w data = skip_unknown req num w data"
  by (simp add: WriteRequest_field_def)

lemma skip_unknown_segments:
  "skip_unknown m num wireVarint (varint v @ rest) = Ok (m, length (varint v))"
  "skip_unknown m num wireFixed64 (le_bytes 8 v @ rest) = Ok (m, 8)"
  by (simp_all add: skip_unknown_def skipField_def wireVarint_def wireFixed64_def)

lemma skip_unknown_bytes:
  assumes "length (varint (word_of_nat (length d))) + length d < 2 ^ 63"
  shows "skip_unknown m num wireLengthDelim (varint (word_of_nat (length d)) @ d @ rest)
    = Ok (m, length (varint (word_of_nat (length d))) + length d)"
proof -
  define n where "n = length (varint (word_of_nat (length d))) + length d"
  have "sint (word_of_nat n :: u64) = int n"
    using assms by (simp add: n_def [symmetric] signed_of_nat signed_take_bit_int_eq_self)
  then show ?thesis
    by (simp add: skip_unknown_def skipField_def wireVarint_def wireFixed64_def wireLengthDelim_def n_def)
qed

lemma skip_unknown_truncated:
  "consumeVarint data = None \<Longrightarrow> skip_unknown m num wireVarint data = Panic"
  by (simp add: skip_unknown_def skipField_def)

section \<open>Properties\<close>

text \<open>
  C1: A write request survives encoding. Decoding what \<open>Marshal\<close> produced (any request whose
  encoding is shorter than 2^64 bytes) returns the request, every label, sample, exemplar,
  histogram and metadata entry in order; only a negative zero in a histogram float comes back
  as zero, because the encoder omits float fields that compare equal to 0.
\<close>

theorem WriteRequest_Unmarshal_Marshal:
  assumes "length (WriteRequest_Marshal req) < 2 ^ 64"
  shows "UnmarshalWriteRequest (WriteRequest_Marshal req) = Ok (canon_WriteRequest req)"
  using WriteRequest_roundtrip [OF assms] by (simp add: UnmarshalWriteRequest_def)

theorem WriteRequest_Unmarshal_Marshal_witness:
  "UnmarshalWriteRequest (WriteRequest_Marshal
     \<lparr>req_Timeseries = [\<lparr>ts_Labels = [\<lparr>label_Name = [97], label_Value = [98]\<rparr>],
        ts_Samples = [\<lparr>sample_Value = 0x3FF0000000000000, sample_Timestamp = 5\<rparr>],
        ts_Exemplars = [], ts_Histograms = []\<rparr>], req_Metadata = []\<rparr>)
   = Ok \<lparr>req_Timeseries = [\<lparr>ts_Labels = [\<lparr>label_Name = [97], label_Value = [98]\<rparr>],
        ts_Samples = [\<lparr>sample_Value = 0x3FF0000000000000, sample_Timestamp = 5\<rparr>],
        ts_Exemplars = [], ts_Histograms = []\<rparr>], req_Metadata = []\<rparr>"
  by (subst WriteRequest_Unmarshal_Marshal)
     (simp_all add: canon_WriteRequest_def canon_TimeSeries_def WriteRequest_Marshal_def TimeSeries_marshal_def
        Label_marshal_def Sample_marshal_def field_nums encode_simps enc_bytes_def enc_fixed64_def enc_varint_def
        wire_tag_def wireLengthDelim_def wireFixed64_def wireVarint_def varint_small f64_is_zero_def)

text \<open>
  Re-encoding a decoded request gives the same bytes: \<open>Marshal\<close> of the canonical form is
  \<open>Marshal\<close> of the request.
\<close>

theorem WriteRequest_Marshal_canon: "WriteRequest_Marshal (canon_WriteRequest req) = WriteRequest_Marshal req"
proof -
  have c: "f64_is_zero (canon_f64 x) = f64_is_zero x" "\<not> f64_is_zero x \<Longrightarrow> canon_f64 x = x" for x
    by (simp_all add: canon_f64_def)
  have "Histogram_marshal (canon_Histogram h) = Histogram_marshal h" for h
    by (simp add: Histogram_marshal_segments canon_Histogram_def c split del: if_split cong: if_cong)
  then have "TimeSeries_marshal (canon_TimeSeries ts) = TimeSeries_marshal ts" for ts
    by (simp add: TimeSeries_marshal_def canon_TimeSeries_def encode_simps foldl_append_concat o_def)
  then show ?thesis
    by (simp add: WriteRequest_Marshal_def canon_WriteRequest_def encode_simps foldl_append_concat o_def)
qed

text \<open>
  Concatenating the encodings of two requests decodes to the request with both lists of
  series and both lists of metadata appended, as Protocol Buffers prescribe for repeated fields.
\<close>

theorem WriteRequest_Unmarshal_concat:
  assumes "length (WriteRequest_Marshal r1 @ WriteRequest_Marshal r2) < 2 ^ 64"
  shows "UnmarshalWriteRequest (WriteRequest_Marshal r1 @ WriteRequest_Marshal r2)
    = Ok (canon_WriteRequest \<lparr>req_Timeseries = req_Timeseries r1 @ req_Timeseries r2,
                              req_Metadata = req_Metadata r1 @ req_Metadata r2\<rparr>)"
proof -
  have enc: "WriteRequest_Marshal req =
      concat (map (\<lambda>x. enc_bytes fieldWriteRequestTimeseries (TimeSeries_marshal x)) (req_Timeseries req))
      @ concat (map (\<lambda>x. enc_bytes fieldWriteRequestMetadata (MetricMetadata_marshal x)) (req_Metadata req))" for req
    by (simp only: WriteRequest_Marshal_def encode_simps Let_def append_assoc append_Nil append_Nil2)
  have "UnmarshalWriteRequest ((WriteRequest_Marshal r1 @ WriteRequest_Marshal r2) @ [])
    = Ok (canon_WriteRequest \<lparr>req_Timeseries = req_Timeseries r1 @ req_Timeseries r2,
                              req_Metadata = req_Metadata r1 @ req_Metadata r2\<rparr>)"
    using assms unfolding UnmarshalWriteRequest_def WriteRequest_Unmarshal_def enc append_assoc
    by (simp add: req_series.decode_many req_metadata.decode_many canon_WriteRequest_def del: append_Nil2)
  then show ?thesis by simp
qed

theorem WriteRequest_Unmarshal_concat_witness:
  "UnmarshalWriteRequest (WriteRequest_Marshal \<lparr>req_Timeseries = [\<lparr>ts_Labels = [], ts_Samples = [],
       ts_Exemplars = [], ts_Histograms = []\<rparr>], req_Metadata = []\<rparr>
     @ WriteRequest_Marshal \<lparr>req_Timeseries = [], req_Metadata = []\<rparr>)
   = Ok \<lparr>req_Timeseries = [\<lparr>ts_Labels = [], ts_Samples = [], ts_Exemplars = [], ts_Histograms = []\<rparr>],
         req_Metadata = []\<rparr>"
  by (subst WriteRequest_Unmarshal_concat)
     (simp_all add: canon_WriteRequest_def canon_TimeSeries_def WriteRequest_Marshal_def TimeSeries_marshal_def
        field_nums encode_simps enc_bytes_def wire_tag_def wireLengthDelim_def varint_small)

text \<open>
  Forward compatibility. A well-formed field with a number the decoder does not know (varint,
  fixed64 or length-delimited) in front of a message is skipped without changing the result.
\<close>

theorem Unmarshal_skips_unknown_fields:
  assumes "num \<notin> {1, 3}" "num < 2 ^ 61" "length d < 2 ^ 62"
  shows "UnmarshalWriteRequest (appendTagVarint [] num v @ data) = UnmarshalWriteRequest data
    \<and> UnmarshalWriteRequest (appendTagFixed64 [] num v @ data) = UnmarshalWriteRequest data
    \<and> UnmarshalWriteRequest (appendTagLengthDelim [] num d @ data) = UnmarshalWriteRequest data"
proof -
  have u: "WriteRequest_field req num w dat = skip_unknown req num w dat" for req w dat
    using assms by (intro WriteRequest_field_unknown) (auto simp: field_nums)
  have "length (varint (word_of_nat (length d))) + length d < 2 ^ 63"
    using assms(3) length_varint_le [of "word_of_nat (length d)"] by simp
  from skip_unknown_bytes [OF this]
  have b: "decode_loop WriteRequest_field m (enc_bytes num d @ data) = decode_loop WriteRequest_field m data" for m
    using assms(2) by (intro decode_enc_bytes) (simp_all only: u)
  have "decode_loop WriteRequest_field m (enc_varint num v @ data) = decode_loop WriteRequest_field m data" for m
    using assms(2) by (intro decode_enc_varint) (simp_all only: u skip_unknown_segments)
  moreover have "decode_loop WriteRequest_field m (enc_fixed64 num v @ data) = decode_loop WriteRequest_field m data" for m
    using assms(2) by (intro decode_enc_fixed64) (simp_all only: u skip_unknown_segments)
  ultimately show ?thesis
    by (simp_all add: UnmarshalWriteRequest_def WriteRequest_Unmarshal_def encode_simps b)
qed

theorem Unmarshal_skips_unknown_fields_witness:
  "UnmarshalWriteRequest (appendTagLengthDelim [] 2 [1, 2, 3] @ []) = UnmarshalWriteRequest []"
  using Unmarshal_skips_unknown_fields [of 2 "[1, 2, 3]" 0 "[]"] by simp

text \<open>
  C30: A malformed unknown field crashes the decoder. When the message starts with an unknown
  field of varint type whose value is truncated, \<open>skipField\<close> answers -1 with no error and
  \<open>data[n:]\<close> panics instead of \<open>Unmarshal\<close> returning an error.
\<close>

theorem Unmarshal_truncated_unknown_panics:
  assumes "num \<notin> {1, 3}" "num < 2 ^ 61" "consumeVarint data = None"
  shows "UnmarshalWriteRequest (varint (wire_tag num wireVarint) @ data) = Panic"
proof -
  have "WriteRequest_field m num wireVarint data = Panic" for m
    using assms by (subst WriteRequest_field_unknown) (auto simp: field_nums skip_unknown_truncated)
  moreover have "consumeTag (varint (wire_tag num wireVarint) @ data)
      = Some (num, wireVarint, length (varint (wire_tag num wireVarint)))"
    using assms(2) by (intro consumeTag_varint) (simp_all add: wireVarint_def)
  ultimately show ?thesis
    unfolding UnmarshalWriteRequest_def WriteRequest_Unmarshal_def by (subst decode_loop.simps) simp
qed

theorem Unmarshal_truncated_unknown_panics_witness: "UnmarshalWriteRequest [0x50, 0x80] = Panic"
  using Unmarshal_truncated_unknown_panics [of 10 "[0x80]"]
  by (simp add: wire_tag_def wireVarint_def varint_small consumeVarint_def)

end
