(* ===== verification/Intern.thy ===== *)
theory Intern
  imports Prelude
begin

text \<open>
  The string interning pool of \<open>internal/intern/intern.go\<close>. The pool's \<open>sync.Map\<close> is an
  association list from a string to the interned copy; one \<open>Load\<close> and one \<open>LoadOrStore\<close> are
  atomic steps. Another goroutine can store between the two, so \<open>Intern_slow\<close>, the part after
  a failed lookup, is a definition of its own and its lemmas hold for any well-formed pool.
\<close>

section \<open>Model\<close>

record Pool =
  strings :: "(gostring \<times> gostring) list"
  hits :: u64
  misses :: u64

definition NewPool :: Pool where
  "NewPool = \<lparr>strings = [], hits = 0, misses = 0\<rparr>"

definition Load :: "Pool \<Rightarrow> gostring \<Rightarrow> gostring option" where
  "Load p s = map_of (strings p) s"

text \<open>\<open>sync.Map.LoadOrStore\<close>: the value present (or the one stored), and whether it was loaded.\<close>

definition LoadOrStore :: "Pool \<Rightarrow> gostring \<Rightarrow> gostring \<Rightarrow> gostring \<times> bool \<times> Pool" where
  "LoadOrStore p k v =
     (case map_of (strings p) k of
        Some w \<Rightarrow> (w, True, p)
      | None \<Rightarrow> (v, False, p\<lparr>strings := (k, v) # strings p\<rparr>))"

definition cloneString :: "gostring \<Rightarrow> gostring" where
  "cloneString s = s"

definition Intern_slow :: "Pool \<Rightarrow> gostring \<Rightarrow> gostring \<times> Pool" where
  "Intern_slow p s =
     (let clone = cloneString s
      in case LoadOrStore p clone clone of
           (actual, loaded, p) \<Rightarrow>
             if loaded then (actual, p\<lparr>hits := hits p + 1\<rparr>) else (actual, p\<lparr>misses := misses p + 1\<rparr>))"

definition Intern :: "Pool \<Rightarrow> gostring \<Rightarrow> gostring \<times> Pool" where
  "Intern p s =
     (case Load p s of
        Some interned \<Rightarrow> (interned, p\<lparr>hits := hits p + 1\<rparr>)
      | None \<Rightarrow> Intern_slow p s)"

text \<open>\<open>InternBytes\<close> does the same from a byte slice; \<open>unsafeString\<close> is used for the lookup only.\<close>

definition InternBytes :: "Pool \<Rightarrow> bytes \<Rightarrow> gostring \<times> Pool" where
  "InternBytes p b =
     (case Load p b of
        Some interned \<Rightarrow> (interned, p\<lparr>hits := hits p + 1\<rparr>)
      | None \<Rightarrow> Intern_slow p b)"

definition Stats :: "Pool \<Rightarrow> u64 \<times> u64" where
  "Stats p = (hits p, misses p)"

definition Size :: "Pool \<Rightarrow> nat" where
  "Size p = foldl (\<lambda>count _. count + 1) 0 (strings p)"

definition EstimatedMemoryBytes :: "Pool \<Rightarrow> nat" where
  "EstimatedMemoryBytes p = foldl (\<lambda>total (k, _). total + (96 + length k)) 0 (strings p)"

definition Reset :: "Pool \<Rightarrow> Pool" where
  "Reset p = p\<lparr>strings := [], hits := 0, misses := 0\<rparr>"

definition ResetIfLarge :: "Pool \<Rightarrow> nat \<Rightarrow> bool \<times> Pool" where
  "ResetIfLarge p maxEntries = (if Size p > maxEntries then (True, Reset p) else (False, p))"

text \<open>The pool of common label names, as \<open>CommonLabels\<close> initialises it.\<close>

definition prwLabels :: "gostring list" where
  "prwLabels = map gostr
    [''__name__'', ''job'', ''instance'', ''le'', ''quantile'', ''service'', ''env'', ''cluster'',
     ''namespace'', ''pod'', ''container'', ''node'', ''host'', ''region'', ''method'', ''endpoint'',
     ''status'', ''code'', ''version'', ''name'']"

definition otlpLabels :: "gostring list" where
  "otlpLabels = map gostr
    [''service.name'', ''service.namespace'', ''service.version'', ''service.instance.id'',
     ''deployment.environment'', ''k8s.pod.name'', ''k8s.namespace.name'', ''k8s.container.name'',
     ''k8s.node.name'', ''k8s.deployment.name'', ''k8s.cluster.name'', ''host.name'', ''host.id'',
     ''host.type'', ''host.arch'', ''cloud.provider'', ''cloud.region'', ''cloud.availability_zone'',
     ''cloud.account.id'', ''container.id'', ''container.name'', ''container.image.name'', ''process.pid'',
     ''process.executable.name'', ''telemetry.sdk.name'', ''telemetry.sdk.version'',
     ''telemetry.sdk.language'', ''http.method'', ''http.status_code'', ''http.route'', ''http.scheme'',
     ''http.url'', ''http.request.method'', ''http.response.status_code'', ''url.scheme'', ''url.path'',
     ''url.full'', ''server.address'', ''server.port'', ''client.address'', ''db.system'', ''db.name'',
     ''db.operation'', ''db.statement'', ''rpc.system'', ''rpc.service'', ''rpc.method'',
     ''rpc.grpc.status_code'', ''messaging.system'', ''messaging.destination'', ''messaging.operation'',
     ''net.peer.name'', ''net.peer.port'', ''net.host.name'', ''error.type'', ''exception.type'',
     ''exception.message'', ''otel.status_code'', ''otel.library.name'']"

definition CommonLabels :: Pool where
  "CommonLabels =
     (let pool = foldl (\<lambda>p label. snd (Intern p label)) NewPool prwLabels
      in foldl (\<lambda>p label. snd (Intern p label)) pool otlpLabels)"

section \<open>Well-formed pools\<close>

text \<open>Every string is stored once, under itself.\<close>

definition pool_wf :: "Pool \<Rightarrow> bool" where
  "pool_wf p \<longleftrightarrow> distinct (map fst (strings p)) \<and> (\<forall>(k, v) \<in> set (strings p). v = k)"

lemma pool_wf_lookup: "pool_wf p \<Longrightarrow> map_of (strings p) s = Some t \<Longrightarrow> t = s"
  by (auto simp: pool_wf_def dest: map_of_SomeD)

lemma pool_wf_NewPool [simp]: "pool_wf NewPool"
  by (simp add: pool_wf_def NewPool_def)

lemma pool_wf_Reset [simp]: "pool_wf (Reset p)"
  by (simp add: pool_wf_def Reset_def)

lemma pool_wf_counters [simp]:
  "pool_wf (p\<lparr>hits := h\<rparr>) = pool_wf p" "pool_wf (p\<lparr>misses := h\<rparr>) = pool_wf p"
  by (simp_all add: pool_wf_def)

lemma Size_length [simp]: "Size p = length (strings p)"
proof -
  have "foldl (\<lambda>count _. count + 1) n xs = n + length xs" for n and xs :: "(gostring \<times> gostring) list"
    by (induction xs arbitrary: n) auto
  then show ?thesis by (simp add: Size_def)
qed

lemma Intern_slow_correct:
  assumes "pool_wf p" "Intern_slow p s = (t, p')"
  shows "t = s \<and> pool_wf p' \<and> Size p' \<le> Size p + 1 \<and> map_of (strings p') s = Some s
    \<and> hits p' + misses p' = hits p + misses p + 1"
  using assms pool_wf_lookup [OF assms(1)]
  by (auto simp: Intern_slow_def LoadOrStore_def cloneString_def pool_wf_def Let_def map_of_eq_None_iff
      split: option.splits if_splits)

lemma Intern_correct:
  assumes "pool_wf p" "Intern p s = (t, p')"
  shows "t = s \<and> pool_wf p' \<and> Size p' \<le> Size p + 1 \<and> map_of (strings p') s = Some s
    \<and> hits p' + misses p' = hits p + misses p + 1"
  using assms pool_wf_lookup [OF assms(1)] Intern_slow_correct [OF assms(1)]
  by (auto simp: Intern_def Load_def split: option.splits)

lemma InternBytes_eq_Intern: "InternBytes = Intern"
  by (intro ext) (simp add: InternBytes_def Intern_def)

lemma fst_Intern [simp]: "pool_wf p \<Longrightarrow> fst (Intern p s) = s"
  using Intern_correct [of p s] by (cases "Intern p s") auto

lemma pool_wf_Intern [simp]: "pool_wf p \<Longrightarrow> pool_wf (snd (Intern p s))"
  using Intern_correct [of p s] by (cases "Intern p s") auto

lemma pool_wf_Intern_foldl: "pool_wf p \<Longrightarrow> pool_wf (foldl (\<lambda>p label. snd (Intern p label)) p ls)"
  by (induction ls arbitrary: p) simp_all

lemma pool_wf_CommonLabels [simp]: "pool_wf CommonLabels"
  by (simp add: CommonLabels_def pool_wf_Intern_foldl)

section \<open>The contract the clients rely on\<close>

text \<open>An interner returns an equal string and keeps its own state in order.\<close>

locale interner =
  fixes interner_ok :: "'p \<Rightarrow> bool"
    and intern :: "'p \<Rightarrow> gostring \<Rightarrow> gostring \<times> 'p"
  assumes intern_same: "interner_ok p \<Longrightarrow> fst (intern p s) = s"
    and intern_ok: "interner_ok p \<Longrightarrow> interner_ok (snd (intern p s))"
begin

lemma intern_thread:
  "interner_ok p \<Longrightarrow> fst (thread intern p ss) = ss \<and> interner_ok (snd (thread intern p ss))"
proof (induction ss arbitrary: p)
  case (Cons s ss)
  then show ?case
    using intern_same [of p s] intern_ok [of p s] Cons.IH [of "snd (intern p s)"]
    by (simp add: Let_def split_beta)
qed simp

end

interpretation pool: interner pool_wf Intern
  by unfold_locales simp_all

interpretation pool_bytes: interner pool_wf InternBytes
  by unfold_locales (simp_all add: InternBytes_eq_Intern)

lemma Intern_keeps: "pool_wf p \<Longrightarrow> map_of (strings p) k = Some v
    \<Longrightarrow> map_of (strings (snd (Intern p s))) k = Some v"
  by (auto simp: Intern_def Intern_slow_def Load_def LoadOrStore_def cloneString_def Let_def
      split: option.splits if_splits)

lemma thread_Intern_keeps: "pool_wf p \<Longrightarrow> map_of (strings p) k = Some v
    \<Longrightarrow> map_of (strings (snd (thread Intern p ss))) k = Some v"
proof (induction ss arbitrary: p)
  case (Cons s ss)
  then show ?case
    using Cons.IH [of "snd (Intern p s)"] Intern_keeps [of p k v s] by (simp add: Let_def split_beta)
qed simp

lemma thread_Intern_stored:
  assumes "pool_wf p" "s \<in> set ss"
  shows "map_of (strings (snd (thread Intern p ss))) s = Some s"
  using assms
proof (induction ss arbitrary: p)
  case (Cons a ss)
  have "map_of (strings (snd (Intern p a))) a = Some a"
    using Intern_correct [of p a] Cons.prems(1) by (cases "Intern p a") auto
  then have "map_of (strings (snd (thread Intern (snd (Intern p a)) ss))) a = Some a"
    using Cons.prems(1) by (intro thread_Intern_keeps) auto
  then show ?case
    using Cons.IH [of "snd (Intern p a)"] Cons.prems by (auto simp: Let_def split_beta)
qed simp

lemma Intern_keys: "pool_wf p \<Longrightarrow> fst ` set (strings (snd (Intern p s))) = insert s (fst ` set (strings p))"
  by (auto simp: Intern_def Intern_slow_def Load_def LoadOrStore_def cloneString_def Let_def image_iff
      split: option.splits intro!: bexI [OF _ map_of_SomeD])

lemma thread_Intern_keys:
  "pool_wf p \<Longrightarrow> fst ` set (strings (snd (thread Intern p ss))) = fst ` set (strings p) \<union> set ss"
proof (induction ss arbitrary: p)
  case (Cons s ss)
  then show ?case using Cons.IH [of "snd (Intern p s)"] by (simp add: Let_def split_beta Intern_keys)
qed simp

section \<open>Properties\<close>

text \<open>
  Interning never changes a string. A sequence of \<open>Intern\<close> calls on a well-formed pool
  returns exactly the strings passed in and keeps the pool well formed, and afterwards interning
  any of them again is a hit: it returns the string, counts one hit and leaves the
  stored strings as they are.
\<close>

theorem Intern_sequence:
  assumes "pool_wf p" "thread Intern p ss = (ts, p')"
  shows "ts = ss \<and> pool_wf p' \<and> (\<forall>s \<in> set ss. Intern p' s = (s, p'\<lparr>hits := hits p' + 1\<rparr>))"
  using pool.intern_thread [OF assms(1), of ss] thread_Intern_stored [OF assms(1), of _ ss] assms(2)
  by (auto simp: Intern_def Load_def)

theorem Intern_sequence_witness:
  "Intern (snd (thread Intern NewPool [gostr ''job'', gostr ''env'', gostr ''job''])) (gostr ''job'')
   = (gostr ''job'', \<lparr>strings = [(gostr ''env'', gostr ''env''), (gostr ''job'', gostr ''job'')], hits = 2, misses = 2\<rparr>)"
proof -
  have "thread Intern NewPool [gostr ''job'', gostr ''env'', gostr ''job'']
      = ([gostr ''job'', gostr ''env'', gostr ''job''],
         \<lparr>strings = [(gostr ''env'', gostr ''env''), (gostr ''job'', gostr ''job'')], hits = 1, misses = 2\<rparr>)"
    by (simp add: Intern_def Intern_slow_def Load_def LoadOrStore_def cloneString_def NewPool_def gostr_def Let_def)
  from Intern_sequence [OF pool_wf_NewPool this] this show ?thesis by simp
qed

text \<open>
  A pool never stores a string twice: after interning a list of strings its \<open>Size\<close> is the
  number of distinct strings among the old content and the list.
\<close>

theorem Intern_size:
  assumes "pool_wf p"
  shows "Size (snd (thread Intern p ss)) = card (fst ` set (strings p) \<union> set ss)"
proof -
  have "distinct (map fst (strings (snd (thread Intern p ss))))"
    using pool.intern_thread [OF assms, of ss] by (simp add: pool_wf_def)
  from distinct_card [OF this] show ?thesis
    by (simp add: thread_Intern_keys [OF assms, of ss])
qed

theorem Intern_size_witness:
  "Size (snd (thread Intern NewPool [gostr ''job'', gostr ''env'', gostr ''job'']))
   = card (fst ` set (strings NewPool) \<union> set [gostr ''job'', gostr ''env'', gostr ''job''])"
  by (rule Intern_size) simp

end
