(* ===== verification/Label_Interning.thy ===== *)
theory Label_Interning
  imports Prw_Codec Intern
begin

text \<open>
  The label decoder of \<open>internal/prw/proto.go\<close> with its interning pools: label names always go
  through \<open>labelNameIntern\<close>, values of at most \<open>InternMaxValueLength\<close> bytes through
  \<open>labelValueIntern\<close>, unless \<open>InternEnabled\<close> is off. It is shown to implement the decoder of theory
  \<open>Prw_Codec\<close>, which stores the bytes themselves.
\<close>

section \<open>Model\<close>

definition InternMaxValueLength :: nat where
  "InternMaxValueLength = 64"

text \<open>The label being decoded, and the two pools.\<close>

type_synonym label_state = "Label \<times> Pool \<times> Pool"

definition put_name :: "bool \<Rightarrow> label_state \<Rightarrow> bytes \<Rightarrow> label_state" where
  "put_name InternEnabled = (\<lambda>(l, names, values) nameBytes.
     if InternEnabled then
       (case InternBytes names nameBytes of (s, names) \<Rightarrow> (l\<lparr>label_Name := s\<rparr>, names, values))
     else (l\<lparr>label_Name := nameBytes\<rparr>, names, values))"

definition put_value :: "bool \<Rightarrow> label_state \<Rightarrow> bytes \<Rightarrow> label_state" where
  "put_value InternEnabled = (\<lambda>(l, names, values) valueBytes.
     if InternEnabled \<and> length valueBytes \<le> InternMaxValueLength then
       (case InternBytes values valueBytes of (s, values) \<Rightarrow> (l\<lparr>label_Value := s\<rparr>, names, values))
     else (l\<lparr>label_Value := valueBytes\<rparr>, names, values))"

definition Label_field_interned :: "bool \<Rightarrow> label_state field_decoder" where
  "Label_field_interned InternEnabled st fieldNum wireType data =
     (if fieldNum = fieldLabelName then
        require_wire ''name'' wireLengthDelim wireType
          (read_bytes ''name length'' (put_name InternEnabled) st data)
      else if fieldNum = fieldLabelValue then
        require_wire ''value'' wireLengthDelim wireType
          (read_bytes ''value length'' (put_value InternEnabled) st data)
      else skip_unknown st fieldNum wireType data)"

definition Label_unmarshal_interned :: "bool \<Rightarrow> Pool \<Rightarrow> Pool \<Rightarrow> bytes \<Rightarrow> label_state decoded" where
  "Label_unmarshal_interned InternEnabled names values data =
     decode_loop (Label_field_interned InternEnabled)
       (\<lparr>label_Name = [], label_Value = []\<rparr>, names, values) data"

definition LabelInternStats :: "Pool \<Rightarrow> Pool \<Rightarrow> (u64 \<times> u64) \<times> (u64 \<times> u64)" where
  "LabelInternStats names values = (Stats names, Stats values)"

section \<open>Simulation\<close>

text \<open>Pools in order, and the same label: the relation between the two decoders.\<close>

definition pools_ok :: "label_state \<Rightarrow> bool" where
  "pools_ok st \<longleftrightarrow> pool_wf (fst (snd st)) \<and> pool_wf (snd (snd st))"

lemma put_name_sim:
  "pools_ok st \<Longrightarrow> fst (put_name en st b) = (fst st)\<lparr>label_Name := b\<rparr> \<and> pools_ok (put_name en st b)"
  by (cases st) (simp add: put_name_def pools_ok_def split_beta pool_bytes.intern_same pool_bytes.intern_ok)

lemma put_value_sim:
  "pools_ok st \<Longrightarrow> fst (put_value en st b) = (fst st)\<lparr>label_Value := b\<rparr> \<and> pools_ok (put_value en st b)"
  by (cases st) (simp add: put_value_def pools_ok_def split_beta pool_bytes.intern_same pool_bytes.intern_ok)

fun outcome_sim :: "('s \<Rightarrow> bool) \<Rightarrow> ('s \<Rightarrow> 'a) \<Rightarrow> ('e, 's) outcome \<Rightarrow> ('e, 'a) outcome \<Rightarrow> bool" where
  "outcome_sim ok ab (Ok s) r \<longleftrightarrow> r = Ok (ab s) \<and> ok s"
| "outcome_sim ok ab (Err e) r \<longleftrightarrow> r = Err e"
| "outcome_sim ok ab Panic r \<longleftrightarrow> r = Panic"

lemma Label_field_sim:
  assumes "pools_ok st"
  shows "outcome_sim (\<lambda>(s, n). pools_ok s) (\<lambda>(s, n). (fst s, n))
    (Label_field_interned en st num w data) (Label_field (fst st) num w data)"
  using put_name_sim [OF assms, of en] put_value_sim [OF assms, of en] assms
  by (simp add: Label_field_interned_def Label_field_def require_wire_def read_bytes_def skip_unknown_def
      split: option.splits sum.splits)

lemma decode_loop_sim:
  assumes "\<And>s num w data. ok s \<Longrightarrow> outcome_sim (\<lambda>(s, n). ok s) (\<lambda>(s, n). (ab s, n))
      (f s num w data) (g (ab s) num w data)"
    and "ok s"
  shows "outcome_sim ok ab (decode_loop f s data) (decode_loop g (ab s) data)"
  using assms(2)
proof (induction "length data" arbitrary: s data rule: less_induct)
  case less
  show ?case
  proof (cases "data = [] \<or> consumeTag data = None")
    case True
    with less.prems show ?thesis
      by (auto simp: decode_loop.simps [of f s data] decode_loop.simps [of g "ab s" data])
  next
    case False
    then obtain num w n where t: "consumeTag data = Some (num, w, n)" by auto
    have step: "outcome_sim (\<lambda>(s, n). ok s) (\<lambda>(s, n). (ab s, n))
        (f s num w (drop n data)) (g (ab s) num w (drop n data))"
      using assms(1) less.prems by blast
    have "length (drop k (drop n data)) < length data" for k
      using consumeTag_bounds [OF t] False by simp
    then have IH: "outcome_sim ok ab (decode_loop f s' (drop k (drop n data)))
        (decode_loop g (ab s') (drop k (drop n data)))" if "ok s'" for s' k
      using less.hyps that by blast
    show ?thesis
      using step False t
      by (cases "f s num w (drop n data)")
         (auto simp: decode_loop.simps [of f s data] decode_loop.simps [of g "ab s" data] intro: IH simp del: drop_drop)
  qed
qed

section \<open>Properties\<close>

text \<open>
  Interning is invisible to the decoder: on well-formed pools, whether interning is enabled or
  not, \<open>Label.unmarshal\<close> gives the same label, the same error or the same panic as decoding the
  bytes directly, and leaves the pools well formed.
\<close>

theorem Label_unmarshal_interned_refines:
  assumes "pool_wf names" "pool_wf values"
  shows "outcome_sim (\<lambda>(l, names, values). pool_wf names \<and> pool_wf values) fst
    (Label_unmarshal_interned en names values data) (Label_unmarshal data)"
proof -
  have "(\<lambda>(l, names, values). pool_wf names \<and> pool_wf values) = pools_ok"
    by (auto simp: pools_ok_def fun_eq_iff)
  then show ?thesis
    using decode_loop_sim [where ok = pools_ok and ab = fst and f = "Label_field_interned en" and g = Label_field,
        OF Label_field_sim] assms
    by (fastforce simp: Label_unmarshal_interned_def Label_unmarshal_def pools_ok_def)
qed

theorem Label_unmarshal_interned_refines_witness:
  "outcome_sim (\<lambda>(l, names, values). pool_wf names \<and> pool_wf values) fst
    (Label_unmarshal_interned True CommonLabels NewPool (Label_marshal \<lparr>label_Name = gostr ''job'', label_Value = gostr ''api''\<rparr>))
    (Label_unmarshal (Label_marshal \<lparr>label_Name = gostr ''job'', label_Value = gostr ''api''\<rparr>))"
  by (rule Label_unmarshal_interned_refines) simp_all

end
