(* ===== verification/Otlp_Types.thy ===== *)
theory Otlp_Types
  imports Prelude
begin

text \<open>
  The OTLP messages the code works on, as the generated structs of \<open>internal/otlpvt\<close> have them. The
  five kinds of metrics share one shape: a list of data points with attributes, and fields the
  code only copies. The other fields of a data point (times, values, buckets, exemplars) are the
  type parameter \<open>'v\<close>. Pointers in repeated message fields are never nil, as unmarshalling
  makes them.
\<close>

section \<open>Messages\<close>

text \<open>
  An attribute value. Array, key-value list and bytes values are all treated alike
  (no code looks inside them).
\<close>

datatype AnyValue = StringValue gostring | IntValue i64 | BoolValue bool | DoubleValue f64 | OtherValue

record KeyValue =
  kv_Key :: gostring
  kv_Value :: "AnyValue option"

record Resource =
  res_Attributes :: "KeyValue list"
  res_DroppedAttributesCount :: u32

record InstrumentationScope =
  scope_Name :: gostring
  scope_Version :: gostring
  scope_Attributes :: "KeyValue list"
  scope_DroppedAttributesCount :: u32

record 'v DataPoint =
  dp_Attributes :: "KeyValue list"
  dp_rest :: 'v

datatype 'v metric_data =
    Metric_Gauge "'v DataPoint list"
  | Metric_Sum "'v DataPoint list" i32 bool
  | Metric_Histogram "'v DataPoint list" i32
  | Metric_ExponentialHistogram "'v DataPoint list" i32
  | Metric_Summary "'v DataPoint list"
  | Metric_NoData

record 'v Metric =
  m_Name :: gostring
  m_Description :: gostring
  m_Unit :: gostring
  m_Metadata :: "KeyValue list"
  m_Data :: "'v metric_data"

record 'v ScopeMetrics =
  sm_Scope :: "InstrumentationScope option"
  sm_Metrics :: "'v Metric list"
  sm_SchemaUrl :: gostring

record 'v ResourceMetrics =
  rm_Resource :: "Resource option"
  rm_ScopeMetrics :: "'v ScopeMetrics list"
  rm_SchemaUrl :: gostring

section \<open>The shape the five kinds share\<close>

fun data_points :: "'v metric_data \<Rightarrow> 'v DataPoint list" where
  "data_points (Metric_Gauge dps) = dps"
| "data_points (Metric_Sum dps _ _) = dps"
| "data_points (Metric_Histogram dps _) = dps"
| "data_points (Metric_ExponentialHistogram dps _) = dps"
| "data_points (Metric_Summary dps) = dps"
| "data_points Metric_NoData = []"

fun with_data_points :: "'v metric_data \<Rightarrow> 'v DataPoint list \<Rightarrow> 'v metric_data" where
  "with_data_points (Metric_Gauge _) dps = Metric_Gauge dps"
| "with_data_points (Metric_Sum _ t monotonic) dps = Metric_Sum dps t monotonic"
| "with_data_points (Metric_Histogram _ t) dps = Metric_Histogram dps t"
| "with_data_points (Metric_ExponentialHistogram _ t) dps = Metric_ExponentialHistogram dps t"
| "with_data_points (Metric_Summary _) dps = Metric_Summary dps"
| "with_data_points Metric_NoData dps = Metric_NoData"

lemma with_own_data_points [simp]: "with_data_points d (data_points d) = d"
  by (cases d) simp_all

lemma with_data_points_twice [simp]: "with_data_points (with_data_points d xs) ys = with_data_points d ys"
  by (cases d) simp_all

lemma data_points_with [simp]: "d \<noteq> Metric_NoData \<Longrightarrow> data_points (with_data_points d dps) = dps"
  by (cases d) simp_all

lemma data_points_map [simp]: "data_points (with_data_points d (map f (data_points d))) = map f (data_points d)"
  by (cases d) simp_all

text \<open>Changing the attributes of every data point of a metric, as the \<open>switch\<close> over the kinds does.\<close>

definition map_attributes :: "(KeyValue list \<Rightarrow> KeyValue list) \<Rightarrow> 'v Metric \<Rightarrow> 'v Metric" where
  "map_attributes f m =
     m\<lparr>m_Data := with_data_points (m_Data m) (map (\<lambda>dp. dp\<lparr>dp_Attributes := f (dp_Attributes dp)\<rparr>) (data_points (m_Data m)))\<rparr>"

definition metric_points :: "'v Metric \<Rightarrow> 'v DataPoint list" where
  "metric_points m = data_points (m_Data m)"

definition resource_points :: "'v ResourceMetrics \<Rightarrow> 'v DataPoint list" where
  "resource_points rm = concat (map (\<lambda>sm. concat (map metric_points (sm_Metrics sm))) (rm_ScopeMetrics rm))"

lemma map_attributes_points [simp]:
  "metric_points (map_attributes f m) = map (\<lambda>dp. dp\<lparr>dp_Attributes := f (dp_Attributes dp)\<rparr>) (metric_points m)"
  by (simp add: map_attributes_def metric_points_def)

lemma map_attributes_rest [simp]:
  "m_Name (map_attributes f m) = m_Name m" "m_Description (map_attributes f m) = m_Description m"
  "m_Unit (map_attributes f m) = m_Unit m" "m_Metadata (map_attributes f m) = m_Metadata m"
  by (simp_all add: map_attributes_def)

text \<open>The values of data points, apart from their attributes.\<close>

definition metric_values :: "'v Metric \<Rightarrow> 'v list" where
  "metric_values m = map dp_rest (metric_points m)"

definition scope_values :: "'v ScopeMetrics \<Rightarrow> 'v list" where
  "scope_values sm = concat (map metric_values (sm_Metrics sm))"

definition resource_values :: "'v ResourceMetrics \<Rightarrow> 'v list" where
  "resource_values rm = concat (map scope_values (rm_ScopeMetrics rm))"

text \<open>\<open>GetStringValue\<close>: the empty string for nil and for every other kind of value.\<close>

definition GetStringValue :: "AnyValue option \<Rightarrow> gostring" where
  "GetStringValue v = (case v of Some (StringValue s) \<Rightarrow> s | _ \<Rightarrow> [])"

end
