(* ===== verification/Shard_Key.thy ===== *)
theory Shard_Key
  imports Prw_Types Intern Otlp_Types
begin

text \<open>
  Shard keys: \<open>internal/sharding/shardkey.go\<close> (OTLP attributes) and \<open>internal/prw/shardkey.go\<close>
  (Prometheus labels). A Go map from label names to values is a HOL map. The prw builder interns
  the metric name in a package-level pool, which is passed in and returned. The conversion of a
  float64 attribute to text is the parameter \<open>floatToString\<close>, because it computes with floats.
\<close>

section \<open>Model of \<open>internal/sharding/shardkey.go\<close>\<close>

record ShardKeyBuilder =
  skb_config_Labels :: "gostring list"
  sortedKeys :: "gostring list"
  buf :: gostring

definition NewShardKeyBuilder :: "gostring list \<Rightarrow> ShardKeyBuilder" where
  "NewShardKeyBuilder cfg_Labels =
     \<lparr>skb_config_Labels = cfg_Labels, sortedKeys = sort cfg_Labels, buf = []\<rparr>"

text \<open>The loop over the sorted keys, which both packages have.\<close>

definition write_labels :: "gostring list \<Rightarrow> (gostring \<rightharpoonup> gostring) \<Rightarrow> gostring \<Rightarrow> gostring" where
  "write_labels keys attrs b =
     foldl (\<lambda>b key. case attrs key of
         Some value \<Rightarrow> if value \<noteq> [] then b @ gostr ''|'' @ key @ gostr ''='' @ value else b
       | None \<Rightarrow> b) b keys"

definition BuildKey :: "ShardKeyBuilder \<Rightarrow> gostring \<Rightarrow> (gostring \<rightharpoonup> gostring) \<Rightarrow> gostring \<times> ShardKeyBuilder" where
  "BuildKey b metricName attrs =
     (let b = b\<lparr>buf := []\<rparr>;
          b = b\<lparr>buf := buf b @ metricName\<rparr>;
          b = b\<lparr>buf := write_labels (sortedKeys b) attrs (buf b)\<rparr>
      in (buf b, b))"

definition GetConfiguredLabels :: "ShardKeyBuilder \<Rightarrow> gostring list" where
  "GetConfiguredLabels b = sortedKeys b"

text \<open>
  \<open>intToString\<close> fills a 20-byte buffer from the right. An index below 0 panics; the loop
  carries the written part of the buffer.
\<close>

function int_digits :: "nat \<Rightarrow> int \<Rightarrow> bytes \<Rightarrow> ('e, nat \<times> bytes) outcome" where
  "int_digits idx i b =
     (if i > 0 then
        (if idx = 0 then Panic
         else int_digits (idx - 1) (i div 10) (word_of_int (48 + i mod 10) # b))
      else Ok (idx, b))"
  by pat_completeness auto
termination
  by (relation "measure (\<lambda>(idx, i, b). idx)") auto

declare int_digits.simps [simp del]

definition intToString :: "i64 \<Rightarrow> ('e, gostring) outcome" where
  "intToString w =
     (if sint w = 0 then Ok (gostr ''0'')
      else if sint w = - 9223372036854775808 then Ok (gostr ''-9223372036854775808'')
      else
        let neg = sint w < 0;
            i = (if neg then - sint w else sint w)
        in bind_outcome (int_digits 20 i [])
             (\<lambda>(idx, b). if neg then (if idx = 0 then Panic else Ok (45 # b)) else Ok b))"

definition attr_value :: "(f64 \<Rightarrow> gostring) \<Rightarrow> KeyValue \<Rightarrow> ('e, gostring) outcome" where
  "attr_value floatToString attr =
     (case kv_Value attr of
        None \<Rightarrow> Ok []
      | Some (StringValue s) \<Rightarrow> Ok s
      | Some (IntValue i) \<Rightarrow> intToString i
      | Some (BoolValue b) \<Rightarrow> Ok (if b then gostr ''true'' else gostr ''false'')
      | Some (DoubleValue f) \<Rightarrow> Ok (floatToString f)
      | Some OtherValue \<Rightarrow> Ok [])"

definition ExtractAttributes ::
    "(f64 \<Rightarrow> gostring) \<Rightarrow> KeyValue option list \<Rightarrow> ('e, gostring \<rightharpoonup> gostring) outcome" where
  "ExtractAttributes floatToString attrs =
     (if length attrs = 0 then Ok Map.empty
      else foldl (\<lambda>acc attr. bind_outcome acc (\<lambda>result.
             case attr of
               None \<Rightarrow> Ok result
             | Some a \<Rightarrow>
                 if kv_Key a = [] then Ok result
                 else bind_outcome (attr_value floatToString a) (\<lambda>value.
                   Ok (if value \<noteq> [] then result(kv_Key a \<mapsto> value) else result))))
           (Ok Map.empty) attrs)"

definition BuildKeyFromProto :: "(f64 \<Rightarrow> gostring) \<Rightarrow> ShardKeyBuilder \<Rightarrow> gostring
    \<Rightarrow> KeyValue option list \<Rightarrow> ('e, gostring \<times> ShardKeyBuilder) outcome" where
  "BuildKeyFromProto floatToString b metricName attrs =
     bind_outcome (ExtractAttributes floatToString attrs) (\<lambda>m. Ok (BuildKey b metricName m))"

definition MergeAttributes :: "(gostring \<rightharpoonup> gostring) list \<Rightarrow> (gostring \<rightharpoonup> gostring)" where
  "MergeAttributes maps = foldl (\<lambda>result m. result ++ m) Map.empty maps"

section \<open>Model of \<open>internal/prw/shardkey.go\<close>\<close>

record PrwShardKeyBuilder =
  prw_config_Labels :: "gostring list"
  prw_sortedKeys :: "gostring list"

text \<open>The label keys are interned in \<open>shardLabelKeyIntern\<close>, the pool of common labels.\<close>

definition prw_NewShardKeyBuilder :: "Pool \<Rightarrow> gostring list \<Rightarrow> PrwShardKeyBuilder \<times> Pool" where
  "prw_NewShardKeyBuilder labelKeys cfg_Labels =
     (case thread Intern labelKeys cfg_Labels of
        (keys, labelKeys) \<Rightarrow> (\<lparr>prw_config_Labels = cfg_Labels, prw_sortedKeys = sort keys\<rparr>, labelKeys))"

definition label_map :: "Label list \<Rightarrow> (gostring \<rightharpoonup> gostring)" where
  "label_map ls = foldl (\<lambda>m l. m(label_Name l \<mapsto> label_Value l)) Map.empty ls"

definition prw_BuildKey :: "PrwShardKeyBuilder \<Rightarrow> Pool \<Rightarrow> TimeSeries option \<Rightarrow> gostring \<times> Pool" where
  "prw_BuildKey b metricNames ts =
     (case ts of
        None \<Rightarrow> ([], metricNames)
      | Some ts \<Rightarrow>
          (case Intern metricNames (MetricName ts) of
             (metricName, metricNames) \<Rightarrow>
               (write_labels (prw_sortedKeys b) (label_map (ts_Labels ts)) metricName, metricNames)))"

definition prw_BuildKeyFromLabels ::
    "PrwShardKeyBuilder \<Rightarrow> Pool \<Rightarrow> gostring \<Rightarrow> (gostring \<rightharpoonup> gostring) \<Rightarrow> gostring \<times> Pool" where
  "prw_BuildKeyFromLabels b metricNames metricName labels =
     (case Intern metricNames metricName of
        (metricName, metricNames) \<Rightarrow> (write_labels (prw_sortedKeys b) labels metricName, metricNames))"

definition ShardKeyInternStats :: "Pool \<Rightarrow> Pool \<Rightarrow> (u64 \<times> u64) \<times> (u64 \<times> u64)" where
  "ShardKeyInternStats metricNames labelKeys = (Stats metricNames, Stats labelKeys)"

definition prw_GetConfiguredLabels :: "PrwShardKeyBuilder \<Rightarrow> gostring list" where
  "prw_GetConfiguredLabels b = prw_sortedKeys b"

definition ExtractLabelsMap :: "Label list \<Rightarrow> (gostring \<rightharpoonup> gostring)" where
  "ExtractLabelsMap labels =
     (if length labels = 0 then Map.empty
      else foldl (\<lambda>m l. if label_Name l \<noteq> [] then m(label_Name l \<mapsto> label_Value l) else m) Map.empty labels)"

section \<open>What a key is\<close>

definition key_part :: "(gostring \<rightharpoonup> gostring) \<Rightarrow> gostring \<Rightarrow> gostring" where
  "key_part attrs key =
     (case attrs key of
        Some value \<Rightarrow> if value \<noteq> [] then gostr ''|'' @ key @ gostr ''='' @ value else []
      | None \<Rightarrow> [])"

definition shard_key :: "gostring list \<Rightarrow> gostring \<Rightarrow> (gostring \<rightharpoonup> gostring) \<Rightarrow> gostring" where
  "shard_key keys name attrs = name @ concat (map (key_part attrs) keys)"

lemma write_labels_shard_key: "write_labels keys attrs b = shard_key keys b attrs"
proof -
  have "(\<lambda>b key. case attrs key of
         Some value \<Rightarrow> if value \<noteq> [] then b @ gostr ''|'' @ key @ gostr ''='' @ value else b
       | None \<Rightarrow> b) = (\<lambda>b key. b @ key_part attrs key)"
    by (auto simp: fun_eq_iff key_part_def split: option.splits)
  then show ?thesis by (simp add: write_labels_def shard_key_def foldl_append_concat)
qed

lemma fst_BuildKey: "fst (BuildKey b name attrs) = shard_key (sortedKeys b) name attrs"
  by (simp add: BuildKey_def write_labels_shard_key Let_def)

definition series_key :: "PrwShardKeyBuilder \<Rightarrow> TimeSeries \<Rightarrow> gostring" where
  "series_key b ts = shard_key (prw_sortedKeys b) (MetricName ts) (label_map (ts_Labels ts))"

lemma prw_BuildKey_series:
  "pool_wf p \<Longrightarrow> fst (prw_BuildKey b p (Some ts)) = series_key b ts \<and> pool_wf (snd (prw_BuildKey b p (Some ts)))"
  using pool.intern_same [of p "MetricName ts"] pool.intern_ok [of p "MetricName ts"]
  by (simp add: prw_BuildKey_def split_beta write_labels_shard_key series_key_def)

lemma label_map_map_of: "distinct (map label_Name ls) \<Longrightarrow> l \<in> set ls \<Longrightarrow> label_map ls (label_Name l) = Some (label_Value l)"
proof (induction ls rule: rev_induct)
  case (snoc x ls)
  then have "l \<in> set ls \<Longrightarrow> label_Name l \<noteq> label_Name x" by (auto simp: image_iff)
  with snoc show ?case by (auto simp: label_map_def)
qed simp

lemma label_map_dom: "label_map ls n = None \<longleftrightarrow> n \<notin> label_Name ` set ls"
  by (induction ls rule: rev_induct) (auto simp: label_map_def)

lemma label_map_perm:
  assumes "mset ls = mset ls'" "distinct (map label_Name ls)"
  shows "label_map ls = label_map ls'"
proof
  fix n
  have s: "set ls = set ls'" "distinct (map label_Name ls')"
    using assms mset_eq_setD [OF assms(1)] by (simp, metis mset_eq_imp_distinct_iff mset_map)
  show "label_map ls n = label_map ls' n"
  proof (cases "n \<in> label_Name ` set ls")
    case True
    then obtain l where "l \<in> set ls" "n = label_Name l" by auto
    then show ?thesis using s assms(2) by (simp add: label_map_map_of)
  next
    case False
    then have "label_map ls n = None" "label_map ls' n = None" using s(1) by (simp_all add: label_map_dom)
    then show ?thesis by simp
  qed
qed

section \<open>Decimal numbers\<close>

definition dec_value :: "bytes \<Rightarrow> int" where
  "dec_value ds = foldl (\<lambda>a d. 10 * a + (int (unat d) - 48)) 0 ds"

definition parse_int :: "gostring \<Rightarrow> int" where
  "parse_int s = (case s of d # ds \<Rightarrow> if d = 45 then - dec_value ds else dec_value s | [] \<Rightarrow> 0)"

lemma dec_value_snoc: "dec_value (ds @ [d]) = 10 * dec_value ds + (int (unat d) - 48)"
  by (simp add: dec_value_def)

lemma digit_byte:
  assumes "0 \<le> r" "r < 10"
  shows "int (unat (word_of_int (48 + r) :: byte)) = 48 + r" "(word_of_int (48 + r) :: byte) \<noteq> 45"
proof -
  have u: "uint (word_of_int (48 + r) :: byte) = 48 + r"
    using assms by (simp add: uint_word_of_int_eq take_bit_int_eq_self del: of_int_add)
  then show "int (unat (word_of_int (48 + r) :: byte)) = 48 + r" by (simp del: of_int_add)
  show "(word_of_int (48 + r) :: byte) \<noteq> 45"
  proof
    assume "(word_of_int (48 + r) :: byte) = 45"
    with u have "48 + r = uint (45 :: byte)" by (simp only:)
    then show False using assms by simp
  qed
qed

lemma int_digits_value:
  assumes "0 \<le> i" "i < 10 ^ k" "k \<le> idx"
  shows "\<exists>ds. int_digits idx i b = (Ok (idx - length ds, ds @ b) :: ('e, nat \<times> bytes) outcome) \<and> length ds \<le> k \<and> dec_value ds = i
    \<and> (i > 0 \<longrightarrow> ds \<noteq> []) \<and> 45 \<notin> set ds"
  using assms
proof (induction k arbitrary: idx i b)
  case 0
  then show ?case by (simp add: int_digits.simps dec_value_def)
next
  case (Suc k)
  show ?case
  proof (cases "i > 0")
    case False
    then show ?thesis
      using Suc.prems by (intro exI [of _ "[]"]) (simp add: int_digits.simps [of idx 0] dec_value_def)
  next
    case True
    let ?d = "word_of_int (48 + i mod 10) :: byte"
    have "0 \<le> i div 10" "i div 10 < 10 ^ k" "k \<le> idx - 1" using Suc.prems by auto
    from Suc.IH [OF this, of "?d # b"]
    obtain ds where ds: "int_digits (idx - 1) (i div 10) (?d # b)
        = (Ok (idx - 1 - length ds, ds @ ?d # b) :: ('e, nat \<times> bytes) outcome)"
      "length ds \<le> k" "dec_value ds = i div 10" "45 \<notin> set ds" by blast
    have "int_digits idx i b
        = (Ok (idx - length (ds @ [?d]), (ds @ [?d]) @ b) :: ('e, nat \<times> bytes) outcome)"
      using True Suc.prems(3) ds(1) by (simp add: int_digits.simps [of idx i b])
    moreover have "dec_value (ds @ [?d]) = i"
      using digit_byte(1) [of "i mod 10"] by (simp add: dec_value_snoc ds(3))
    ultimately show ?thesis
      using ds(2,4) digit_byte(2) [of "i mod 10"] by (intro exI [of _ "ds @ [?d]"]) auto
  qed
qed

lemma intToString_parse: "\<exists>s. intToString w = (Ok s :: ('e, gostring) outcome) \<and> parse_int s = sint w"
proof (cases "sint w = 0 \<or> sint w = - 9223372036854775808")
  case True
  then show ?thesis by (auto simp: intToString_def parse_int_def dec_value_def gostr_def)
next
  case False
  define i where "i = (if sint w < 0 then - sint w else sint w)"
  have "- (2 ^ 63) \<le> sint w" "sint w < 2 ^ 63"
    using sint_greater_eq [of w] sint_less [of w] by simp_all
  then have "0 < i" "i < 10 ^ 19" using False by (auto simp: i_def)
  then obtain ds where ds: "int_digits 20 i [] = (Ok (20 - length ds, ds @ []) :: ('e, _) outcome)"
    "length ds \<le> 19" "dec_value ds = i" "ds \<noteq> []" "45 \<notin> set ds"
    using int_digits_value [of i 19 20 "[]"] by auto
  then have "intToString w = (Ok (if sint w < 0 then 45 # ds else ds) :: ('e, _) outcome)"
    using False by (simp add: intToString_def i_def [symmetric] Let_def)
  moreover have "parse_int (if sint w < 0 then 45 # ds else ds) = sint w"
    using ds(3-5) by (auto simp: parse_int_def i_def split: list.splits if_splits)
  ultimately show ?thesis by blast
qed

section \<open>Properties\<close>

text \<open>
  \<open>intToString\<close> is correct on every int64: it never runs out of its 20-byte buffer, and
  reading its result back as a decimal number gives the value, the minimum int64 included.
\<close>

theorem intToString_correct: "\<exists>s. intToString w = Ok s \<and> parse_int s = sint w"
  by (rule intToString_parse)

text \<open>
  The two shard-key implementations agree. On the same configured labels, metric name and label
  map, the OTLP builder and the Prometheus builder produce the same key, and building from
  a series is building from its metric name and its label map; the interning pool changes nothing.
\<close>

theorem shard_key_builders_agree:
  assumes "pool_wf labelKeys" "pool_wf metricNames"
  shows "fst (prw_BuildKeyFromLabels (fst (prw_NewShardKeyBuilder labelKeys cfg)) metricNames name attrs)
      = fst (BuildKey (NewShardKeyBuilder cfg) name attrs)
    \<and> fst (prw_BuildKey (fst (prw_NewShardKeyBuilder labelKeys cfg)) metricNames (Some ts))
      = fst (BuildKey (NewShardKeyBuilder cfg) (MetricName ts) (label_map (ts_Labels ts)))"
  using pool.intern_thread [OF assms(1), of cfg] pool.intern_same [OF assms(2)]
  by (simp add: prw_NewShardKeyBuilder_def prw_BuildKeyFromLabels_def prw_BuildKey_def split_beta fst_BuildKey
      NewShardKeyBuilder_def write_labels_shard_key)

theorem shard_key_builders_agree_witness:
  "fst (prw_BuildKeyFromLabels (fst (prw_NewShardKeyBuilder CommonLabels [gostr ''env''])) NewPool (gostr ''up'')
       [gostr ''env'' \<mapsto> gostr ''prod''])
   = fst (BuildKey (NewShardKeyBuilder [gostr ''env'']) (gostr ''up'') [gostr ''env'' \<mapsto> gostr ''prod''])"
  using shard_key_builders_agree [of CommonLabels NewPool "[gostr ''env'']"] by simp

text \<open>
  Shard keys are deterministic: neither the order in which labels are configured nor the order in
  which a series lists its (distinctly named) labels changes the key, so all copies of a
  series are routed alike.
\<close>

theorem prw_BuildKey_order_independent:
  assumes "pool_wf labelKeys" "pool_wf p" "pool_wf p'" "mset cfg = mset cfg'"
    and "mset (ts_Labels ts) = mset (ts_Labels ts')" "distinct (map label_Name (ts_Labels ts))"
  shows "fst (prw_BuildKey (fst (prw_NewShardKeyBuilder labelKeys cfg)) p (Some ts))
    = fst (prw_BuildKey (fst (prw_NewShardKeyBuilder labelKeys cfg')) p' (Some ts'))"
proof -
  have "fst (thread Intern labelKeys c) = c" for c
    using pool.intern_thread [OF assms(1)] by blast
  then have "prw_sortedKeys (fst (prw_NewShardKeyBuilder labelKeys c)) = sorted_list_of_multiset (mset c)" for c
    by (simp add: prw_NewShardKeyBuilder_def split_beta)
  then have "prw_sortedKeys (fst (prw_NewShardKeyBuilder labelKeys cfg))
      = prw_sortedKeys (fst (prw_NewShardKeyBuilder labelKeys cfg'))"
    by (simp only: assms(4))
  then show ?thesis
    using prw_BuildKey_series [OF assms(2)] prw_BuildKey_series [OF assms(3)] assms(4)
      label_map_perm [OF assms(5,6)] GetLabelValue_perm [OF assms(5,6)]
    by (simp add: series_key_def MetricName_GetLabelValue)
qed

theorem prw_BuildKey_order_independent_witness:
  "fst (prw_BuildKey (fst (prw_NewShardKeyBuilder CommonLabels [[98], [97]])) NewPool (Some
      \<lparr>ts_Labels = [\<lparr>label_Name = [98], label_Value = [1]\<rparr>, \<lparr>label_Name = [97], label_Value = [2]\<rparr>],
       ts_Samples = [], ts_Exemplars = [], ts_Histograms = []\<rparr>))
   = fst (prw_BuildKey (fst (prw_NewShardKeyBuilder CommonLabels [[97], [98]])) NewPool (Some
      \<lparr>ts_Labels = [\<lparr>label_Name = [97], label_Value = [2]\<rparr>, \<lparr>label_Name = [98], label_Value = [1]\<rparr>],
       ts_Samples = [], ts_Exemplars = [], ts_Histograms = []\<rparr>))"
  by (rule prw_BuildKey_order_independent) simp_all

end
