(* ===== verification/Hash_Ring.thy ===== *)
theory Hash_Ring
  imports Prelude
begin

text \<open>
  The consistent hash ring of \<open>internal/sharding/hashring.go\<close>. \<open>maphash.String\<close> under the
  process's random seed is the parameter \<open>hash\<close>: any function from strings to 64-bit words.
  \<open>sort.Search\<close> is modelled as the binary search it is. The specification is
  \<open>ring_owner\<close>: the endpoint that owns the first virtual node at or after the key's hash,
  wrapping around. The model is shown to implement it, which gives that a key moves only
  if its own endpoint is removed.
\<close>

section \<open>Model\<close>

record HashRing =
  ring :: "u64 list"
  nodes :: "u64 \<rightharpoonup> gostring"
  endpoints :: "gostring list"
  virtualNodes :: nat

definition DefaultVirtualNodes :: int where
  "DefaultVirtualNodes = 150"

definition NewHashRing :: "int \<Rightarrow> HashRing" where
  "NewHashRing vn =
     (let vn = (if vn \<le> 0 then DefaultVirtualNodes else vn)
      in \<lparr>ring = [], nodes = Map.empty, endpoints = [], virtualNodes = nat vn\<rparr>)"

text \<open>\<open>strconv.Itoa\<close> on a count.\<close>

fun Itoa :: "nat \<Rightarrow> gostring" where
  "Itoa n = (if n < 10 then [word_of_nat (48 + n)] else Itoa (n div 10) @ [word_of_nat (48 + n mod 10)])"

declare Itoa.simps [simp del]

definition virtual_key :: "gostring \<Rightarrow> nat \<Rightarrow> gostring" where
  "virtual_key endpoint i = endpoint @ gostr ''#'' @ Itoa i"

text \<open>The body of the inner loop: a hash already present is skipped.\<close>

definition add_virtual_node ::
    "(gostring \<Rightarrow> u64) \<Rightarrow> gostring \<Rightarrow> u64 list \<times> (u64 \<rightharpoonup> gostring) \<Rightarrow> nat \<Rightarrow> u64 list \<times> (u64 \<rightharpoonup> gostring)" where
  "add_virtual_node hash endpoint = (\<lambda>(r, m) i.
     let h = hash (virtual_key endpoint i)
     in if m h = None then (r @ [h], m(h \<mapsto> endpoint)) else (r, m))"

definition add_endpoint ::
    "(gostring \<Rightarrow> u64) \<Rightarrow> nat \<Rightarrow> u64 list \<times> (u64 \<rightharpoonup> gostring) \<Rightarrow> gostring \<Rightarrow> u64 list \<times> (u64 \<rightharpoonup> gostring)" where
  "add_endpoint hash vn st endpoint = foldl (add_virtual_node hash endpoint) st [0..<vn]"

definition UpdateEndpoints :: "(gostring \<Rightarrow> u64) \<Rightarrow> HashRing \<Rightarrow> gostring list \<Rightarrow> HashRing" where
  "UpdateEndpoints hash h eps =
     (let sorted_eps = sort eps;
          (r, m) = foldl (add_endpoint hash (virtualNodes h)) ([], Map.empty) sorted_eps
      in h\<lparr>ring := sort r, nodes := m, endpoints := sorted_eps\<rparr>)"

text \<open>\<open>sort.Search(n, f)\<close>: the loop on \<open>i < j\<close>, probing \<open>(i + j) / 2\<close>.\<close>

function sort_Search :: "(nat \<Rightarrow> bool) \<Rightarrow> nat \<Rightarrow> nat \<Rightarrow> nat" where
  "sort_Search f i j =
     (if i < j then
        (let h = (i + j) div 2 in if \<not> f h then sort_Search f (h + 1) j else sort_Search f i h)
      else i)"
  by pat_completeness auto
termination
  by (relation "measure (\<lambda>(f, i, j). j - i)") auto

declare sort_Search.simps [simp del]

definition GetEndpoint :: "(gostring \<Rightarrow> u64) \<Rightarrow> HashRing \<Rightarrow> gostring \<Rightarrow> gostring" where
  "GetEndpoint hash h key =
     (if length (ring h) = 0 then []
      else
        let k = hash key;
            idx = sort_Search (\<lambda>i. ring h ! i \<ge> k) 0 (length (ring h));
            idx = (if idx \<ge> length (ring h) then 0 else idx)
        in case nodes h (ring h ! idx) of Some e \<Rightarrow> e | None \<Rightarrow> [])"

definition GetEndpoints :: "HashRing \<Rightarrow> gostring list" where
  "GetEndpoints h = endpoints h"

definition ring_Size :: "HashRing \<Rightarrow> nat" where
  "ring_Size h = length (endpoints h)"

definition IsEmpty :: "HashRing \<Rightarrow> bool" where
  "IsEmpty h \<longleftrightarrow> length (endpoints h) = 0"

section \<open>Binary search\<close>

lemma sort_Search_least:
  assumes "i \<le> j" "\<And>a b. a \<le> b \<Longrightarrow> b < n \<Longrightarrow> f a \<Longrightarrow> f b" "j \<le> n"
    and "\<And>a. a < i \<Longrightarrow> \<not> f a" "j < n \<Longrightarrow> f j"
  shows "let r = sort_Search f i j in i \<le> r \<and> r \<le> j \<and> (\<forall>a < r. \<not> f a) \<and> (r < n \<longrightarrow> f r)"
  using assms
proof (induction f i j rule: sort_Search.induct)
  case (1 f i j)
  show ?case
  proof (cases "i < j")
    case True
    define h where "h = (i + j) div 2"
    have h: "i \<le> h" "h < j" using True by (simp_all add: h_def)
    show ?thesis
    proof (cases "f h")
      case True
      have "let r = sort_Search f i h in i \<le> r \<and> r \<le> h \<and> (\<forall>a < r. \<not> f a) \<and> (r < n \<longrightarrow> f r)"
        using "1.prems" h True by (intro "1.IH"(2) [OF \<open>i < j\<close> h_def]) auto
      then show ?thesis
        using \<open>i < j\<close> True h by (auto simp: sort_Search.simps [of f i j] Let_def h_def [symmetric])
    next
      case False
      have "\<not> f a" if "a < h + 1" for a
        using "1.prems"(2) [of a h] "1.prems"(3) False h that by (auto simp: less_Suc_eq_le)
      then have "let r = sort_Search f (h + 1) j in h + 1 \<le> r \<and> r \<le> j \<and> (\<forall>a < r. \<not> f a) \<and> (r < n \<longrightarrow> f r)"
        using "1.prems" h False by (intro "1.IH"(1) [OF \<open>i < j\<close> h_def]) auto
      then show ?thesis
        using \<open>i < j\<close> False h by (auto simp: sort_Search.simps [of f i j] Let_def h_def [symmetric])
    qed
  next
    case False
    then have "i = j" using "1.prems"(1) by simp
    then show ?thesis using "1.prems" by (auto simp: Let_def sort_Search.simps [of f j j])
  qed
qed

section \<open>Specification\<close>

definition virtual_hashes :: "(gostring \<Rightarrow> u64) \<Rightarrow> nat \<Rightarrow> gostring \<Rightarrow> u64 set" where
  "virtual_hashes hash vn e = (\<lambda>i. hash (virtual_key e i)) ` {..<vn}"

text \<open>Who owns a hash: the least endpoint that has it as a virtual node.\<close>

definition node_owner :: "(gostring \<Rightarrow> u64) \<Rightarrow> nat \<Rightarrow> gostring list \<Rightarrow> u64 \<Rightarrow> gostring option" where
  "node_owner hash vn es x = find (\<lambda>e. x \<in> virtual_hashes hash vn e) es"

definition ring_points :: "(gostring \<Rightarrow> u64) \<Rightarrow> nat \<Rightarrow> gostring list \<Rightarrow> u64 set" where
  "ring_points hash vn es = (\<Union>e \<in> set es. virtual_hashes hash vn e)"

text \<open>The clockwise successor of \<open>k\<close> in a finite non-empty set of points.\<close>

definition successor :: "u64 set \<Rightarrow> u64 \<Rightarrow> u64" where
  "successor P k = (if \<exists>x \<in> P. k \<le> x then Min {x \<in> P. k \<le> x} else Min P)"

definition ring_owner :: "(gostring \<Rightarrow> u64) \<Rightarrow> nat \<Rightarrow> gostring list \<Rightarrow> gostring \<Rightarrow> gostring option" where
  "ring_owner hash vn es key =
     (if ring_points hash vn es = {} then None
      else node_owner hash vn (sort es) (successor (ring_points hash vn es) (hash key)))"


section \<open>The ring's invariant\<close>

definition ring_built :: "u64 list \<times> (u64 \<rightharpoonup> gostring) \<Rightarrow> bool" where
  "ring_built st \<longleftrightarrow> distinct (fst st) \<and> set (fst st) = dom (snd st)"

lemma add_virtual_nodes:
  assumes "ring_built st"
  shows "ring_built (foldl (add_virtual_node hash e) st is)
    \<and> snd (foldl (add_virtual_node hash e) st is)
        = (\<lambda>x. if x \<in> (\<lambda>i. hash (virtual_key e i)) ` set is then Some e else None) ++ snd st"
  using assms
proof (induction "is" arbitrary: st)
  case Nil
  then show ?case by (simp add: map_add_def fun_eq_iff split: option.splits)
next
  case (Cons i "is")
  obtain r m where st: "st = (r, m)" by (cases st)
  have step: "ring_built (add_virtual_node hash e st i)"
    using Cons.prems by (auto simp: st ring_built_def add_virtual_node_def Let_def domIff)
  have "snd (add_virtual_node hash e st i) x
      = (case m x of None \<Rightarrow> if x = hash (virtual_key e i) then Some e else None | Some o1 \<Rightarrow> Some o1)" for x
    by (auto simp: st add_virtual_node_def Let_def split: option.splits)
  then show ?case
    using Cons.IH [OF step] by (auto simp: st map_add_def fun_eq_iff split: option.splits)
qed

lemma add_endpoint_built:
  assumes "ring_built st"
  shows "ring_built (add_endpoint hash vn st e)"
    and "snd (add_endpoint hash vn st e) x
      = (case snd st x of None \<Rightarrow> (if x \<in> virtual_hashes hash vn e then Some e else None) | Some o1 \<Rightarrow> Some o1)"
  using add_virtual_nodes [OF assms, of hash e "[0..<vn]"]
  by (auto simp: add_endpoint_def virtual_hashes_def map_add_def atLeast0LessThan split: option.splits)

lemma node_owner_snoc:
  "node_owner hash vn (es @ [e]) x = (case node_owner hash vn es x of
     None \<Rightarrow> (if x \<in> virtual_hashes hash vn e then Some e else None) | Some o1 \<Rightarrow> Some o1)"
  by (induction es) (simp_all add: node_owner_def)

lemma add_endpoints_built:
  "ring_built (foldl (add_endpoint hash vn) ([], Map.empty) es)
   \<and> snd (foldl (add_endpoint hash vn) ([], Map.empty) es) = node_owner hash vn es"
proof (induction es rule: rev_induct)
  case Nil
  then show ?case by (simp add: ring_built_def node_owner_def fun_eq_iff)
next
  case (snoc e es)
  then show ?case
    using add_endpoint_built [of "foldl (add_endpoint hash vn) ([], Map.empty) es" hash vn e]
    by (auto simp: node_owner_snoc fun_eq_iff)
qed

lemma dom_node_owner: "dom (node_owner hash vn es) = ring_points hash vn es"
  by (auto simp: node_owner_def ring_points_def dom_def find_None_iff simp flip: not_None_eq)

lemma finite_ring_points [simp]: "finite (ring_points hash vn es)"
  by (auto simp: ring_points_def virtual_hashes_def)

text \<open>What a rebuilt ring is, in terms of the specification.\<close>

lemma UpdateEndpoints_fields:
  "endpoints (UpdateEndpoints hash h eps) = sort eps"
  "virtualNodes (UpdateEndpoints hash h eps) = virtualNodes h"
  "nodes (UpdateEndpoints hash h eps) = node_owner hash (virtualNodes h) (sort eps)"
  "sorted (ring (UpdateEndpoints hash h eps))"
  "distinct (ring (UpdateEndpoints hash h eps))"
  "set (ring (UpdateEndpoints hash h eps)) = ring_points hash (virtualNodes h) eps"
  using add_endpoints_built [of hash "virtualNodes h" "sort eps"]
  by (auto simp: UpdateEndpoints_def ring_built_def dom_node_owner split_beta Let_def ring_points_def)

section \<open>Lookup is the successor on the ring\<close>

lemma successor_sorted:
  assumes "sorted r" "r \<noteq> []"
    and i_def: "i = sort_Search (\<lambda>i. r ! i \<ge> k) 0 (length r)"
  shows "r ! (if i \<ge> length r then 0 else i) = successor (set r) k"
proof -
  let ?f = "\<lambda>i. r ! i \<ge> k"
  have mono: "?f b" if "a \<le> b" "b < length r" "?f a" for a b
    using sorted_nth_mono [OF assms(1) that(1,2)] that(3) by (rule order_trans [rotated])
  have least: "i \<le> length r" "\<And>a. a < i \<Longrightarrow> \<not> ?f a" "i < length r \<longrightarrow> ?f i"
    using sort_Search_least [of 0 "length r" "length r" ?f] mono by (auto simp: i_def Let_def)
  show ?thesis
  proof (cases "i < length r")
    case True
    have "Min {x \<in> set r. k \<le> x} = r ! i"
    proof (rule Min_eqI)
      fix y assume "y \<in> {x \<in> set r. k \<le> x}"
      then obtain j where "j < length r" "y = r ! j" "k \<le> r ! j" by (auto simp: in_set_conv_nth)
      moreover have "i \<le> j" using least(2) [of j] \<open>k \<le> r ! j\<close> by (meson not_le)
      ultimately show "r ! i \<le> y" using sorted_nth_mono [OF assms(1)] by simp
    qed (use True least in auto)
    then show ?thesis using True least(3) by (auto simp: successor_def)
  next
    case False
    then have "\<not> (\<exists>x \<in> set r. k \<le> x)"
      using least by (auto simp: in_set_conv_nth)
    moreover have "Min (set r) = r ! 0"
      using assms(1,2) by (cases r) (auto intro!: Min_eqI)
    ultimately show ?thesis using False by (auto simp: successor_def)
  qed
qed

lemma successor_in: "finite P \<Longrightarrow> P \<noteq> {} \<Longrightarrow> successor P k \<in> P"
  using Min_in [of "{x \<in> P. k \<le> x}"] by (auto simp: successor_def)

lemma GetEndpoint_ring_owner:
  "GetEndpoint hash (UpdateEndpoints hash h eps) key
     = (case ring_owner hash (virtualNodes h) eps key of Some e \<Rightarrow> e | None \<Rightarrow> [])"
proof (cases "ring (UpdateEndpoints hash h eps) = []")
  case True
  then have "ring_points hash (virtualNodes h) eps = {}"
    using UpdateEndpoints_fields(6) [of hash h eps] by simp
  then show ?thesis using True by (simp add: GetEndpoint_def ring_owner_def)
next
  case False
  then have "ring_points hash (virtualNodes h) eps \<noteq> {}"
    using UpdateEndpoints_fields(6) [of hash h eps] by auto
  then show ?thesis
    using False successor_sorted [OF UpdateEndpoints_fields(4) False refl, of "hash key"]
    by (simp add: GetEndpoint_def ring_owner_def UpdateEndpoints_fields Let_def)
qed

lemma node_owner_in: "node_owner hash vn es x = Some e \<Longrightarrow> e \<in> set es \<and> x \<in> virtual_hashes hash vn e"
  unfolding node_owner_def find_Some_iff by (auto intro: nth_mem)

lemma ring_points_sort [simp]: "ring_points hash vn (sort es) = ring_points hash vn es"
  by (simp add: ring_points_def)

lemma ring_owner_Some:
  assumes "ring_points hash vn es \<noteq> {}"
  obtains e where "ring_owner hash vn es key = Some e" "e \<in> set es"
proof -
  have "successor (ring_points hash vn es) (hash key) \<in> dom (node_owner hash vn (sort es))"
    using assms by (simp add: dom_node_owner successor_in)
  then obtain e where e: "node_owner hash vn (sort es) (successor (ring_points hash vn es) (hash key)) = Some e"
    by auto
  show thesis
    using that [of e] node_owner_in [OF e] e assms by (simp add: ring_owner_def)
qed

lemma ring_points_nonempty: "vn > 0 \<Longrightarrow> es \<noteq> [] \<Longrightarrow> ring_points hash vn es \<noteq> {}"
  by (cases es) (auto simp: ring_points_def virtual_hashes_def)

section \<open>Removing an endpoint\<close>

lemma find_filter: "find P xs = Some y \<Longrightarrow> Q y \<Longrightarrow> find P (filter Q xs) = Some y"
  by (induction xs) (auto split: if_splits)

lemma successor_subset:
  assumes "finite P" "Q \<subseteq> P" "successor P k \<in> Q"
  shows "successor Q k = successor P k"
proof (cases "\<exists>x \<in> P. k \<le> x")
  case True
  let ?s = "Min {x \<in> P. k \<le> x}"
  have "?s \<in> {x \<in> P. k \<le> x}" using True assms(1) by (intro Min_in) auto
  then have s: "successor P k = ?s" "k \<le> ?s" using True by (auto simp: successor_def)
  have "Min {x \<in> Q. k \<le> x} = ?s"
    using assms s finite_subset [OF assms(2,1)] by (intro Min_eqI) (auto intro!: Min_le)
  moreover have "\<exists>x \<in> Q. k \<le> x" using assms(3) s by auto
  ultimately have "successor Q k = ?s" by (simp add: successor_def)
  then show ?thesis by (simp only: s(1))
next
  case False
  then have s: "successor P k = Min P" "\<not> (\<exists>x \<in> Q. k \<le> x)" using assms(2) by (auto simp: successor_def)
  have "Min Q = Min P"
    using assms s finite_subset [OF assms(2,1)] by (intro Min_eqI) (auto intro!: Min_le)
  then show ?thesis using s by (simp add: successor_def)
qed

lemma ring_owner_remove:
  assumes own: "ring_owner hash vn es key = Some e" and "e \<noteq> gone"
  shows "ring_owner hash vn (filter (\<lambda>x. x \<noteq> gone) es) key = Some e"
proof -
  let ?P = "ring_points hash vn es" and ?Q = "ring_points hash vn (filter (\<lambda>x. x \<noteq> gone) es)"
  have P: "?P \<noteq> {}" and o1: "node_owner hash vn (sort es) (successor ?P (hash key)) = Some e"
    using own by (auto simp: ring_owner_def split: if_splits)
  have Q: "successor ?P (hash key) \<in> ?Q"
    using node_owner_in [OF o1] assms(2) by (auto simp: ring_points_def)
  then have "successor ?Q (hash key) = successor ?P (hash key)"
    by (intro successor_subset) (auto simp: ring_points_def virtual_hashes_def)
  moreover have "node_owner hash vn (sort (filter (\<lambda>x. x \<noteq> gone) es)) (successor ?P (hash key)) = Some e"
    using o1 assms(2) by (simp add: node_owner_def filter_sort [symmetric] find_filter)
  ultimately show ?thesis using Q by (auto simp: ring_owner_def)
qed

section \<open>The contract the splitters rely on\<close>

text \<open>A ring is in order when it is what \<open>UpdateEndpoints\<close> builds for its own endpoints.\<close>

definition ring_ok :: "(gostring \<Rightarrow> u64) \<Rightarrow> HashRing \<Rightarrow> bool" where
  "ring_ok hash h \<longleftrightarrow> 0 < virtualNodes h \<and> h = UpdateEndpoints hash h (endpoints h)"

lemma UpdateEndpoints_again:
  "UpdateEndpoints hash (UpdateEndpoints hash h eps) eps' = UpdateEndpoints hash h eps'"
  by (simp add: UpdateEndpoints_def split_beta Let_def)

lemma UpdateEndpoints_sort [simp]: "UpdateEndpoints hash h (sort eps) = UpdateEndpoints hash h eps"
  by (simp add: UpdateEndpoints_def sorted_sort_id)

lemma ring_ok_UpdateEndpoints [simp]:
  "0 < virtualNodes h \<Longrightarrow> ring_ok hash (UpdateEndpoints hash h eps)"
  by (simp add: ring_ok_def UpdateEndpoints_fields UpdateEndpoints_again)

lemma virtualNodes_NewHashRing [simp]:
  "virtualNodes (NewHashRing n) = (if n \<le> 0 then 150 else nat n)" "0 < virtualNodes (NewHashRing n)"
  by (simp_all add: NewHashRing_def DefaultVirtualNodes_def)

lemma ring_ok_NewHashRing [simp]: "ring_ok hash (NewHashRing n)"
  using virtualNodes_NewHashRing(2) [of n] unfolding ring_ok_def
  by (simp add: NewHashRing_def UpdateEndpoints_def)

lemma ring_ok_GetEndpoint:
  assumes "ring_ok hash h"
  shows "GetEndpoint hash h key
    = (case ring_owner hash (virtualNodes h) (endpoints h) key of Some e \<Rightarrow> e | None \<Rightarrow> [])"
  using assms GetEndpoint_ring_owner [of hash h "endpoints h" key] by (simp add: ring_ok_def)

lemma ring_ok_GetEndpoint_in:
  assumes "ring_ok hash h" "\<not> IsEmpty h"
  shows "GetEndpoint hash h key \<in> set (GetEndpoints h)"
proof -
  have "ring_points hash (virtualNodes h) (endpoints h) \<noteq> {}"
    using assms by (intro ring_points_nonempty) (auto simp: ring_ok_def IsEmpty_def)
  then show ?thesis
    using ring_owner_Some [of hash "virtualNodes h" "endpoints h" key]
    by (metis GetEndpoints_def assms(1) option.simps(5) ring_ok_GetEndpoint)
qed

text \<open>
  A router sends every key to one of its endpoints as soon as it has any. Its clients group
  items by the endpoint of their key and skip an item with an empty endpoint.
\<close>

locale router =
  fixes router_ok :: "'r \<Rightarrow> bool"
    and no_endpoints :: "'r \<Rightarrow> bool"
    and targets :: "'r \<Rightarrow> gostring list"
    and route :: "'r \<Rightarrow> 'k \<Rightarrow> gostring"
  assumes route_in: "router_ok r \<Longrightarrow> \<not> no_endpoints r \<Longrightarrow> route r k \<in> set (targets r)"
begin

definition routed :: "'r \<Rightarrow> ('x \<Rightarrow> 'k) \<Rightarrow> 'x list \<Rightarrow> gostring \<Rightarrow> 'x list" where
  "routed r key xs e = filter (\<lambda>x. route r (key x) = e) xs"

lemma routed_total:
  assumes "router_ok r" "\<not> no_endpoints r" "distinct (targets r)"
  shows "mset (concat (map (routed r key xs) (targets r))) = mset xs"
proof (induction xs)
  case Nil
  show ?case by (simp add: routed_def)
next
  case (Cons x xs)
  have "mset (concat (map (\<lambda>e. if t = e then x # ys e else ys e) es))
      = (if t \<in> set es then {#x#} else {#}) + mset (concat (map ys es))"
    if "distinct es" for t ys es
    using that by (induction es) auto
  from this [OF assms(3), of "route r (key x)" "routed r key xs"]
  show ?case using Cons route_in [OF assms(1,2)] by (simp add: routed_def if_distrib cong: if_cong)
qed

lemma routed_target:
  assumes "router_ok r" "\<not> no_endpoints r" "routed r key xs e \<noteq> []"
  shows "e \<in> set (targets r)"
  using assms route_in [OF assms(1,2)] by (auto simp: routed_def filter_empty_conv)

end

interpretation hash_router: router "ring_ok hash" IsEmpty GetEndpoints "GetEndpoint hash" for hash
  by unfold_locales (rule ring_ok_GetEndpoint_in)

section \<open>Properties\<close>

lemma GetEndpoint_new_member:
  assumes "eps \<noteq> []"
  shows "GetEndpoint hash (UpdateEndpoints hash (NewHashRing n) eps) key \<in> set eps"
  using hash_router.route_in [of hash "UpdateEndpoints hash (NewHashRing n) eps" key] assms
    virtualNodes_NewHashRing(2) [of n]
  by (simp add: IsEmpty_def GetEndpoints_def UpdateEndpoints_fields del: virtualNodes_NewHashRing)

text \<open>
  C2: \<open>GetEndpoint\<close> on a rebuilt ring implements consistent hashing: it returns the endpoint owning
  the clockwise successor of the key's hash among all virtual nodes of all endpoints (the
  lexicographically least endpoint where several collide on a hash), and the empty string
  exactly when there is no virtual node. The sorting, the collision check and the binary
  search of the code do not change that, whatever the hash function is.
\<close>

theorem GetEndpoint_refines_ring_owner:
  "GetEndpoint hash (UpdateEndpoints hash h eps) key
     = (case ring_owner hash (virtualNodes h) eps key of Some e \<Rightarrow> e | None \<Rightarrow> [])"
  by (rule GetEndpoint_ring_owner)

text \<open>
  With at least one endpoint configured every key is routed, and to one of the configured endpoints.
\<close>

theorem GetEndpoint_member:
  assumes "eps \<noteq> []"
  shows "GetEndpoint hash (UpdateEndpoints hash (NewHashRing n) eps) key \<in> set eps"
  using assms by (rule GetEndpoint_new_member)

theorem GetEndpoint_member_witness:
  "GetEndpoint (\<lambda>s. word_of_nat (length s)) (UpdateEndpoints (\<lambda>s. word_of_nat (length s)) (NewHashRing 2)
     [gostr ''b:4317'', gostr ''a:4317'']) (gostr ''up'') \<in> {gostr ''b:4317'', gostr ''a:4317''}"
  using GetEndpoint_member [of "[gostr ''b:4317'', gostr ''a:4317'']" "\<lambda>s. word_of_nat (length s)" 2 "gostr ''up''"]
  by simp



text \<open>
  The order in which the endpoints are given does not matter: equal multisets of endpoints
  give the same ring.
\<close>

theorem UpdateEndpoints_order:
  assumes "mset eps = mset eps'"
  shows "UpdateEndpoints hash h eps = UpdateEndpoints hash h eps'"
  using assms by (metis UpdateEndpoints_sort sorted_list_of_multiset_mset)

theorem UpdateEndpoints_order_witness:
  "UpdateEndpoints (\<lambda>s. word_of_nat (length s)) (NewHashRing 3) [gostr ''b'', gostr ''a'']
   = UpdateEndpoints (\<lambda>s. word_of_nat (length s)) (NewHashRing 3) [gostr ''a'', gostr ''b'']"
  by (rule UpdateEndpoints_order) simp

end
