(* ===== verification/Prw_Splitter.thy ===== *)
theory Prw_Splitter
  imports Shard_Key Hash_Ring
begin

text \<open>
  The splitter of \<open>internal/prw/splitter.go\<close>: it cuts a write request into one request per
  endpoint, each series going to the endpoint of its shard key. The splitter uses the hash ring
  through the router contract of theory \<open>Hash_Ring\<close>; the pool of interned metric names is
  threaded through. Every series is shown to reach exactly one endpoint, in its original order.
\<close>

section \<open>Model\<close>

record Splitter =
  keyBuilder :: PrwShardKeyBuilder
  hashRing :: HashRing

definition NewSplitter :: "PrwShardKeyBuilder \<Rightarrow> HashRing \<Rightarrow> Splitter" where
  "NewSplitter kb r = \<lparr>keyBuilder = kb, hashRing = r\<rparr>"

text \<open>
  One iteration of the loop of \<open>Split\<close>. The result map holds pointers; appending through the
  pointer updates the map's entry.
\<close>

definition split_step :: "(gostring \<Rightarrow> u64) \<Rightarrow> Splitter
    \<Rightarrow> (gostring \<rightharpoonup> WriteRequest) \<times> Pool \<Rightarrow> TimeSeries \<Rightarrow> (gostring \<rightharpoonup> WriteRequest) \<times> Pool" where
  "split_step hash s = (\<lambda>(result, pool) ts.
     let (shardKey, pool) = prw_BuildKey (keyBuilder s) pool (Some ts);
         endpoint = GetEndpoint hash (hashRing s) shardKey
     in if endpoint = [] then (result, pool)
        else
          let endpointReq = (case result endpoint of
                Some r \<Rightarrow> r
              | None \<Rightarrow> \<lparr>req_Timeseries = [], req_Metadata = []\<rparr>);
              endpointReq = endpointReq\<lparr>req_Timeseries := req_Timeseries endpointReq @ [ts]\<rparr>
          in (result(endpoint \<mapsto> endpointReq), pool))"

definition Split :: "(gostring \<Rightarrow> u64) \<Rightarrow> Splitter \<Rightarrow> Pool \<Rightarrow> WriteRequest option
    \<Rightarrow> (gostring \<rightharpoonup> WriteRequest) option \<times> Pool" where
  "Split hash s pool req =
     (case req of
        None \<Rightarrow> (None, pool)
      | Some req \<Rightarrow>
          if length (req_Timeseries req) = 0 \<or> IsEmpty (hashRing s) then (None, pool)
          else
            let (result, pool) = foldl (split_step hash s) (Map.empty, pool) (req_Timeseries req);
                result = (if length (req_Metadata req) > 0
                          then (\<lambda>e. map_option (\<lambda>r. r\<lparr>req_Metadata := req_Metadata req\<rparr>) (result e))
                          else result)
            in (Some result, pool))"

definition split_series_step :: "(gostring \<Rightarrow> u64) \<Rightarrow> Splitter
    \<Rightarrow> (gostring \<rightharpoonup> TimeSeries list) \<times> Pool \<Rightarrow> TimeSeries \<Rightarrow> (gostring \<rightharpoonup> TimeSeries list) \<times> Pool" where
  "split_series_step hash s = (\<lambda>(result, pool) ts.
     let (shardKey, pool) = prw_BuildKey (keyBuilder s) pool (Some ts);
         endpoint = GetEndpoint hash (hashRing s) shardKey
     in if endpoint = [] then (result, pool)
        else (result(endpoint \<mapsto> (case result endpoint of Some l \<Rightarrow> l | None \<Rightarrow> []) @ [ts]), pool))"

definition SplitTimeseries :: "(gostring \<Rightarrow> u64) \<Rightarrow> Splitter \<Rightarrow> Pool \<Rightarrow> TimeSeries list
    \<Rightarrow> (gostring \<rightharpoonup> TimeSeries list) option \<times> Pool" where
  "SplitTimeseries hash s pool timeseries =
     (if length timeseries = 0 \<or> IsEmpty (hashRing s) then (None, pool)
      else case foldl (split_series_step hash s) (Map.empty, pool) timeseries of
             (result, pool) \<Rightarrow> (Some result, pool))"

definition GetEndpointForTimeSeries ::
    "(gostring \<Rightarrow> u64) \<Rightarrow> Splitter \<Rightarrow> Pool \<Rightarrow> TimeSeries option \<Rightarrow> gostring \<times> Pool" where
  "GetEndpointForTimeSeries hash s pool ts =
     (if ts = None \<or> IsEmpty (hashRing s) then ([], pool)
      else case prw_BuildKey (keyBuilder s) pool ts of
             (shardKey, pool) \<Rightarrow> (GetEndpoint hash (hashRing s) shardKey, pool))"

definition splitter_GetEndpoints :: "Splitter \<Rightarrow> gostring list" where
  "splitter_GetEndpoints s = GetEndpoints (hashRing s)"

definition splitter_UpdateEndpoints :: "(gostring \<Rightarrow> u64) \<Rightarrow> Splitter \<Rightarrow> gostring list \<Rightarrow> Splitter" where
  "splitter_UpdateEndpoints hash s eps = s\<lparr>hashRing := UpdateEndpoints hash (hashRing s) eps\<rparr>"

section \<open>Grouping\<close>

text \<open>The series an endpoint gets, through the router contract.\<close>

abbreviation series_for :: "(gostring \<Rightarrow> u64) \<Rightarrow> Splitter \<Rightarrow> TimeSeries list \<Rightarrow> gostring \<Rightarrow> TimeSeries list" where
  "series_for hash s tss e \<equiv> hash_router.routed hash (hashRing s) (series_key (keyBuilder s)) tss e"

lemma split_step_series:
  assumes "pool_wf pool"
  shows "split_step hash s (result, pool) ts =
    (let e = GetEndpoint hash (hashRing s) (series_key (keyBuilder s) ts)
     in if e = [] then result
        else result(e \<mapsto> (case result e of Some r \<Rightarrow> r\<lparr>req_Timeseries := req_Timeseries r @ [ts]\<rparr>
             | None \<Rightarrow> \<lparr>req_Timeseries = [ts], req_Metadata = []\<rparr>)),
     snd (prw_BuildKey (keyBuilder s) pool (Some ts)))"
  using prw_BuildKey_series [OF assms, of "keyBuilder s" ts]
  by (simp add: split_step_def split_beta Let_def split: option.splits)

lemma split_foldl:
  assumes "pool_wf pool"
  shows "pool_wf (snd (foldl (split_step hash s) (Map.empty, pool) tss))
    \<and> fst (foldl (split_step hash s) (Map.empty, pool) tss) e =
      (if e = [] \<or> series_for hash s tss e = [] then None
       else Some \<lparr>req_Timeseries = series_for hash s tss e, req_Metadata = []\<rparr>)"
proof (induction tss arbitrary: e rule: rev_induct)
  case Nil
  then show ?case using assms by (simp add: hash_router.routed_def)
next
  case (snoc ts tss)
  obtain result p where st: "foldl (split_step hash s) (Map.empty, pool) tss = (result, p)"
    by fastforce
  have p: "pool_wf p" and r: "\<And>e. result e = (if e = [] \<or> series_for hash s tss e = [] then None
       else Some \<lparr>req_Timeseries = series_for hash s tss e, req_Metadata = []\<rparr>)"
    using snoc st by simp_all
  show ?case
    using prw_BuildKey_series [OF p, of "keyBuilder s" ts]
    by (simp add: st split_step_series [OF p] r Let_def) (simp add: hash_router.routed_def)
qed

lemma split_series_step_series:
  assumes "pool_wf pool"
  shows "split_series_step hash s (result, pool) ts =
    (let e = GetEndpoint hash (hashRing s) (series_key (keyBuilder s) ts)
     in if e = [] then result else result(e \<mapsto> (case result e of Some l \<Rightarrow> l | None \<Rightarrow> []) @ [ts]),
     snd (prw_BuildKey (keyBuilder s) pool (Some ts)))"
  using prw_BuildKey_series [OF assms, of "keyBuilder s" ts]
  by (simp add: split_series_step_def split_beta Let_def)

lemma split_series_foldl:
  assumes "pool_wf pool"
  shows "pool_wf (snd (foldl (split_series_step hash s) (Map.empty, pool) tss))
    \<and> fst (foldl (split_series_step hash s) (Map.empty, pool) tss) e =
      (if e = [] \<or> series_for hash s tss e = [] then None else Some (series_for hash s tss e))"
proof (induction tss arbitrary: e rule: rev_induct)
  case Nil
  then show ?case using assms by (simp add: hash_router.routed_def)
next
  case (snoc ts tss)
  obtain result p where st: "foldl (split_series_step hash s) (Map.empty, pool) tss = (result, p)"
    by fastforce
  have p: "pool_wf p" and r: "\<And>e. result e = (if e = [] \<or> series_for hash s tss e = [] then None
       else Some (series_for hash s tss e))"
    using snoc st by simp_all
  show ?case
    using prw_BuildKey_series [OF p, of "keyBuilder s" ts]
    by (simp add: st split_series_step_series [OF p] r Let_def) (simp add: hash_router.routed_def)
qed

lemma Split_entry:
  assumes "pool_wf pool" "req_Timeseries req \<noteq> []" "\<not> IsEmpty (hashRing s)"
  obtains result pool' where "Split hash s pool (Some req) = (Some result, pool')" "pool_wf pool'"
    "\<And>e. result e = (if e = [] \<or> series_for hash s (req_Timeseries req) e = [] then None
      else Some \<lparr>req_Timeseries = series_for hash s (req_Timeseries req) e, req_Metadata = req_Metadata req\<rparr>)"
proof -
  obtain result p where st: "foldl (split_step hash s) (Map.empty, pool) (req_Timeseries req) = (result, p)"
    by fastforce
  have p: "pool_wf p" and r: "\<And>e. result e = (if e = [] \<or> series_for hash s (req_Timeseries req) e = [] then None
      else Some \<lparr>req_Timeseries = series_for hash s (req_Timeseries req) e, req_Metadata = []\<rparr>)"
    using split_foldl [OF assms(1), of hash s "req_Timeseries req"] st by simp_all
  show thesis
    by (rule that [OF _ p]) (use assms(2,3) in \<open>auto simp: Split_def st r Let_def fun_eq_iff\<close>)
qed

section \<open>Properties\<close>

text \<open>
  \<open>Split\<close> partitions a write request. With endpoints on the ring (none of them the empty string),
  each endpoint's request holds exactly the series whose shard key the ring maps to
  it, in their original order, with all the metadata; an endpoint no series maps to has no entry;
  and together the requests hold every series of the input exactly once.
\<close>

theorem Split_partitions:
  assumes "pool_wf pool" "ring_ok hash (hashRing s)" "endpoints (hashRing s) \<noteq> []"
    and "[] \<notin> set (endpoints (hashRing s))" "distinct (endpoints (hashRing s))" "req_Timeseries req \<noteq> []"
  shows "\<exists>result pool'. Split hash s pool (Some req) = (Some result, pool') \<and> pool_wf pool'
    \<and> dom result \<subseteq> set (endpoints (hashRing s))
    \<and> (\<forall>e r. result e = Some r \<longrightarrow> req_Metadata r = req_Metadata req \<and> req_Timeseries r
          = filter (\<lambda>ts. GetEndpoint hash (hashRing s) (series_key (keyBuilder s) ts) = e) (req_Timeseries req))
    \<and> mset (concat (map (\<lambda>e. case result e of Some r \<Rightarrow> req_Timeseries r | None \<Rightarrow> []) (endpoints (hashRing s))))
        = mset (req_Timeseries req)"
proof -
  have ring: "ring_ok hash (hashRing s)" "\<not> IsEmpty (hashRing s)" "distinct (GetEndpoints (hashRing s))"
    using assms by (simp_all add: IsEmpty_def GetEndpoints_def)
  obtain result p where r: "Split hash s pool (Some req) = (Some result, p)" "pool_wf p"
    "\<And>e. result e = (if e = [] \<or> series_for hash s (req_Timeseries req) e = [] then None
      else Some \<lparr>req_Timeseries = series_for hash s (req_Timeseries req) e, req_Metadata = req_Metadata req\<rparr>)"
    using Split_entry [OF assms(1,6) ring(2)] by metis
  have "(case result e of Some r \<Rightarrow> req_Timeseries r | None \<Rightarrow> []) = series_for hash s (req_Timeseries req) e"
    if "e \<in> set (endpoints (hashRing s))" for e
    using that assms(4) r(3) [of e] by auto
  then have "map (\<lambda>e. case result e of Some r \<Rightarrow> req_Timeseries r | None \<Rightarrow> []) (endpoints (hashRing s))
      = map (series_for hash s (req_Timeseries req)) (GetEndpoints (hashRing s))"
    by (simp add: GetEndpoints_def)
  then have "mset (concat (map (\<lambda>e. case result e of Some r \<Rightarrow> req_Timeseries r | None \<Rightarrow> []) (endpoints (hashRing s))))
        = mset (req_Timeseries req)"
    using hash_router.routed_total [OF ring] by simp
  moreover have "dom result \<subseteq> set (endpoints (hashRing s))"
    using hash_router.routed_target [OF ring(1,2)]
    by (auto simp: r(3) GetEndpoints_def dom_def split: if_splits)
  ultimately show ?thesis
    using r by (auto simp: hash_router.routed_def)
qed

theorem Split_partitions_witness:
  "\<exists>result pool'. Split (\<lambda>s. word_of_nat (length s))
      (NewSplitter (fst (prw_NewShardKeyBuilder CommonLabels [])) (UpdateEndpoints (\<lambda>s. word_of_nat (length s)) (NewHashRing 1) [[97], [98]]))
      NewPool (Some \<lparr>req_Timeseries = [\<lparr>ts_Labels = [], ts_Samples = [], ts_Exemplars = [], ts_Histograms = []\<rparr>],
        req_Metadata = []\<rparr>) = (Some result, pool')
    \<and> mset (concat (map (\<lambda>e. case result e of Some r \<Rightarrow> req_Timeseries r | None \<Rightarrow> []) [[97], [98]]))
        = {#\<lparr>ts_Labels = [], ts_Samples = [], ts_Exemplars = [], ts_Histograms = []\<rparr>#}"
  using Split_partitions [of NewPool "\<lambda>s. word_of_nat (length s)"
      "NewSplitter (fst (prw_NewShardKeyBuilder CommonLabels [])) (UpdateEndpoints (\<lambda>s. word_of_nat (length s)) (NewHashRing 1) [[97], [98]])"
      "\<lparr>req_Timeseries = [\<lparr>ts_Labels = [], ts_Samples = [], ts_Exemplars = [], ts_Histograms = []\<rparr>], req_Metadata = []\<rparr>"]
  by (auto simp: NewSplitter_def UpdateEndpoints_fields)

text \<open>
  \<open>Split\<close>, \<open>SplitTimeseries\<close> and \<open>GetEndpointForTimeSeries\<close> agree: the two splits give every
  endpoint the same series, and the endpoint of a series is where the splits put it.
\<close>

theorem splits_agree:
  assumes "pool_wf pool" "Split hash s pool (Some req) = (Some result, p1)"
    and "SplitTimeseries hash s pool (req_Timeseries req) = (Some series, p2)"
  shows "map_option req_Timeseries (result e) = series e
    \<and> (\<forall>ts \<in> set (req_Timeseries req). \<forall>pool. pool_wf pool \<longrightarrow>
         fst (GetEndpointForTimeSeries hash s pool (Some ts)) = e \<longrightarrow> e \<noteq> [] \<longrightarrow>
         (\<exists>l. series e = Some l \<and> ts \<in> set l))"
proof -
  have ne: "req_Timeseries req \<noteq> []" "\<not> IsEmpty (hashRing s)"
    using assms(2) by (auto simp: Split_def split: if_splits)
  have r: "result e = (if e = [] \<or> series_for hash s (req_Timeseries req) e = [] then None
      else Some \<lparr>req_Timeseries = series_for hash s (req_Timeseries req) e, req_Metadata = req_Metadata req\<rparr>)"
    using Split_entry [OF assms(1) ne, of hash] assms(2) by (metis fst_conv option.inject)
  have l: "series e = (if e = [] \<or> series_for hash s (req_Timeseries req) e = [] then None
      else Some (series_for hash s (req_Timeseries req) e))"
    using assms(3) ne split_series_foldl [OF assms(1), of hash s "req_Timeseries req" e]
    by (auto simp: SplitTimeseries_def split_beta)
  have "fst (GetEndpointForTimeSeries hash s pool (Some ts)) = GetEndpoint hash (hashRing s) (series_key (keyBuilder s) ts)"
    if "pool_wf pool" for pool ts
    using that ne prw_BuildKey_series by (simp add: GetEndpointForTimeSeries_def split_beta)
  then show ?thesis
    by (auto simp: r l hash_router.routed_def filter_empty_conv)
qed

theorem splits_agree_witness:
  "\<exists>result series p1 p2. map_option req_Timeseries (result [97]) = series [97]
    \<and> Split (\<lambda>s. 0) \<lparr>keyBuilder = \<lparr>prw_config_Labels = [], prw_sortedKeys = []\<rparr>,
        hashRing = \<lparr>ring = [5], nodes = [5 \<mapsto> [97]], endpoints = [[97]], virtualNodes = 1\<rparr>\<rparr> NewPool
      (Some \<lparr>req_Timeseries = [\<lparr>ts_Labels = [], ts_Samples = [], ts_Exemplars = [], ts_Histograms = []\<rparr>], req_Metadata = []\<rparr>)
      = (Some result, p1)
    \<and> SplitTimeseries (\<lambda>s. 0) \<lparr>keyBuilder = \<lparr>prw_config_Labels = [], prw_sortedKeys = []\<rparr>,
        hashRing = \<lparr>ring = [5], nodes = [5 \<mapsto> [97]], endpoints = [[97]], virtualNodes = 1\<rparr>\<rparr> NewPool
      [\<lparr>ts_Labels = [], ts_Samples = [], ts_Exemplars = [], ts_Histograms = []\<rparr>] = (Some series, p2)"
proof -
  let ?s = "\<lparr>keyBuilder = \<lparr>prw_config_Labels = [], prw_sortedKeys = []\<rparr>,
        hashRing = \<lparr>ring = [5], nodes = [5 \<mapsto> [97]], endpoints = [[97]], virtualNodes = 1\<rparr>\<rparr>"
  let ?r = "\<lparr>req_Timeseries = [\<lparr>ts_Labels = [], ts_Samples = [], ts_Exemplars = [], ts_Histograms = []\<rparr>], req_Metadata = []\<rparr>"
  obtain result p1 where r: "Split (\<lambda>s. 0) ?s NewPool (Some ?r) = (Some result, p1)"
    by (simp add: Split_def IsEmpty_def Let_def split_beta)
  obtain series p2 where l: "SplitTimeseries (\<lambda>s. 0) ?s NewPool (req_Timeseries ?r) = (Some series, p2)"
    by (simp add: SplitTimeseries_def IsEmpty_def split_beta)
  from splits_agree [OF pool_wf_NewPool r l, of "[97]"] r l show ?thesis by auto
qed

end
