(* ===== verification/Prw_Limits.thy ===== *)
theory Prw_Limits
  imports Prw_Types
begin

text \<open>
  The limits enforcer of \<open>internal/prw/limits.go\<close>: per rule a datapoint budget for each second and a
  cardinality budget. A compiled regular expression is the predicate of the strings it matches, and
  \<open>regexp.Compile\<close> is the parameter \<open>compile\<close>. Counters are integers: a datapoint counter stays
  below the rule's limit (shown here), so the int64 of the source does not wrap.
  \<open>Process\<close> sorts the labels of the series it is given, which the model returns too.
\<close>

section \<open>Model\<close>

type_synonym regex = "gostring \<Rightarrow> bool"

datatype LimitAction = LimitActionUnset | LimitActionDrop | LimitActionLog | LimitActionOther gostring

record LimitRule =
  rule_Name :: gostring
  MetricPattern :: gostring
  LabelPatterns :: "(gostring \<times> gostring) list"
  MaxDatapointsPerSecond :: int
  MaxCardinality :: int
  Action :: LimitAction
  metricRegex :: "regex option"
  labelRegexes :: "(gostring \<times> regex) list"

record LimitsEnforcer =
  Rules :: "LimitRule list"
  dryRun :: bool
  cardinalityMap :: "gostring \<Rightarrow> u64 set"
  datapointCounts :: "gostring \<Rightarrow> int"
  lastReset :: int
  totalDropped :: int
  totalViolations :: int

text \<open>A pattern that does not compile is logged and left out.\<close>

definition compile_rule :: "(gostring \<Rightarrow> regex option) \<Rightarrow> LimitRule \<Rightarrow> LimitRule" where
  "compile_rule compile r =
     (let r = (if MetricPattern r \<noteq> [] then
                 (case compile (MetricPattern r) of
                    Some re \<Rightarrow> r\<lparr>metricRegex := Some re\<rparr>
                  | None \<Rightarrow> r)
               else r);
          r = (if length (LabelPatterns r) > 0 then
                 r\<lparr>labelRegexes := List.map_filter
                     (\<lambda>(labelName, pattern). map_option (Pair labelName) (compile pattern)) (LabelPatterns r)\<rparr>
               else r)
      in if Action r = LimitActionUnset then r\<lparr>Action := LimitActionDrop\<rparr> else r)"

definition NewLimitsEnforcer ::
    "(gostring \<Rightarrow> regex option) \<Rightarrow> LimitRule list \<Rightarrow> bool \<Rightarrow> int \<Rightarrow> LimitsEnforcer" where
  "NewLimitsEnforcer compile rules dry now =
     \<lparr>Rules = map (compile_rule compile) rules, dryRun = dry, cardinalityMap = (\<lambda>_. {}),
      datapointCounts = (\<lambda>_. 0), lastReset = now, totalDropped = 0, totalViolations = 0\<rparr>"

definition matchesRule :: "TimeSeries \<Rightarrow> LimitRule \<Rightarrow> bool" where
  "matchesRule ts rule \<longleftrightarrow>
     (if (case metricRegex rule of Some re \<Rightarrow> \<not> re (MetricName ts) | None \<Rightarrow> False) then False
      else if length (labelRegexes rule) > 0
           \<and> list_ex (\<lambda>(labelName, re). \<not> re (GetLabelValue ts labelName)) (labelRegexes rule) then False
      else metricRegex rule \<noteq> None \<or> length (labelRegexes rule) > 0)"

text \<open>The two checks of the loop body; \<open>None\<close> is a violation.\<close>

definition check_datapoints :: "LimitsEnforcer \<Rightarrow> TimeSeries \<Rightarrow> LimitRule \<Rightarrow> LimitsEnforcer option" where
  "check_datapoints e ts rule =
     (if MaxDatapointsPerSecond rule > 0 then
        (let dpCount = int (DatapointCount ts);
             currentCount = datapointCounts e (rule_Name rule)
         in if currentCount + dpCount > MaxDatapointsPerSecond rule then None
            else Some (e\<lparr>datapointCounts := (datapointCounts e)(rule_Name rule := currentCount + dpCount)\<rparr>))
      else Some e)"

definition check_cardinality ::
    "LimitsEnforcer \<Rightarrow> TimeSeries \<Rightarrow> LimitRule \<Rightarrow> (LimitsEnforcer option) \<times> TimeSeries" where
  "check_cardinality e ts rule =
     (if MaxCardinality rule > 0 then
        (let ts = SortLabels ts;
             hash = LabelsHash ts;
             cardMap = cardinalityMap e (rule_Name rule)
         in if hash \<notin> cardMap then
              (if int (card cardMap) \<ge> MaxCardinality rule then (None, ts)
               else (Some (e\<lparr>cardinalityMap := (cardinalityMap e)(rule_Name rule := insert hash cardMap)\<rparr>), ts))
            else (Some e, ts))
      else (Some e, ts))"

definition violation :: "LimitsEnforcer \<Rightarrow> LimitsEnforcer" where
  "violation e = e\<lparr>totalViolations := totalViolations e + 1\<rparr>"

text \<open>The loop over the rules: the enforcer, the series (its labels maybe sorted) and the violated rule.\<close>

fun rule_loop :: "LimitsEnforcer \<Rightarrow> TimeSeries \<Rightarrow> LimitRule list \<Rightarrow> LimitsEnforcer \<times> TimeSeries \<times> LimitRule option" where
  "rule_loop e ts [] = (e, ts, None)"
| "rule_loop e ts (rule # rules) =
     (if \<not> matchesRule ts rule then rule_loop e ts rules
      else case check_datapoints e ts rule of
        None \<Rightarrow> (violation e, ts, Some rule)
      | Some e \<Rightarrow>
          (case check_cardinality e ts rule of
             (None, ts) \<Rightarrow> (violation e, ts, Some rule)
           | (Some e, ts) \<Rightarrow> rule_loop e ts rules))"

text \<open>One iteration of the loop over the series: enforcer, the request's series so far, the kept ones.\<close>

definition process_series :: "LimitsEnforcer \<times> TimeSeries list \<times> TimeSeries list \<Rightarrow> TimeSeries
    \<Rightarrow> LimitsEnforcer \<times> TimeSeries list \<times> TimeSeries list" where
  "process_series = (\<lambda>(e, seen, filtered) ts.
     case rule_loop e ts (Rules e) of
       (e, ts, None) \<Rightarrow> (e, seen @ [ts], filtered @ [ts])
     | (e, ts, Some violatedRule) \<Rightarrow>
         if dryRun e \<or> Action violatedRule = LimitActionLog then (e, seen @ [ts], filtered @ [ts])
         else (e\<lparr>totalDropped := totalDropped e + 1\<rparr>, seen @ [ts], filtered))"

definition second :: int where "second = 1000000000"

definition reset_window :: "LimitsEnforcer \<Rightarrow> int \<Rightarrow> LimitsEnforcer" where
  "reset_window e now =
     (if now - lastReset e \<ge> second then e\<lparr>datapointCounts := (\<lambda>_. 0), lastReset := now\<rparr> else e)"

text \<open>\<open>Process\<close>: the returned request, the caller's request (its series' labels maybe sorted), the enforcer.\<close>

definition Process :: "LimitsEnforcer \<Rightarrow> int \<Rightarrow> WriteRequest option
    \<Rightarrow> WriteRequest option \<times> WriteRequest option \<times> LimitsEnforcer" where
  "Process e now req =
     (case req of
        None \<Rightarrow> (None, None, e)
      | Some req \<Rightarrow>
          if length (Rules e) = 0 then (Some req, Some req, e)
          else
            let e = reset_window e now;
                (e, seen, filtered) = foldl process_series (e, [], []) (req_Timeseries req);
                req' = req\<lparr>req_Timeseries := seen\<rparr>
            in if length filtered = 0 then (None, Some req', e)
               else (Some \<lparr>req_Timeseries = filtered, req_Metadata = req_Metadata req\<rparr>, Some req', e))"

definition limits_Stats :: "LimitsEnforcer \<Rightarrow> int \<times> int" where
  "limits_Stats e = (totalDropped e, totalViolations e)"

definition ResetStats :: "LimitsEnforcer \<Rightarrow> LimitsEnforcer" where
  "ResetStats e = e\<lparr>totalDropped := 0, totalViolations := 0\<rparr>"

definition ResetCardinality :: "LimitsEnforcer \<Rightarrow> LimitsEnforcer" where
  "ResetCardinality e = e\<lparr>cardinalityMap := (\<lambda>_. {})\<rparr>"

section \<open>Invariant\<close>

text \<open>Rules have distinct names, and no rule's tables are above its limits.\<close>

definition limits_inv :: "LimitsEnforcer \<Rightarrow> bool" where
  "limits_inv e \<longleftrightarrow> inj_on rule_Name (set (Rules e)) \<and>
     (\<forall>r \<in> set (Rules e).
        (MaxDatapointsPerSecond r > 0 \<longrightarrow> datapointCounts e (rule_Name r) \<le> MaxDatapointsPerSecond r) \<and>
        (MaxCardinality r > 0 \<longrightarrow> finite (cardinalityMap e (rule_Name r))
           \<and> int (card (cardinalityMap e (rule_Name r))) \<le> MaxCardinality r))"

lemma check_datapoints_inv:
  assumes "limits_inv e" "rule \<in> set (Rules e)" "check_datapoints e ts rule = Some e'"
  shows "limits_inv e'"
proof -
  have "r \<in> set (Rules e) \<Longrightarrow> rule_Name r = rule_Name rule \<longleftrightarrow> r = rule" for r
    using assms(1,2) by (auto simp: limits_inv_def inj_on_def)
  with assms show ?thesis
    by (auto simp: limits_inv_def check_datapoints_def Let_def split: if_splits)
qed

lemma check_cardinality_inv:
  assumes "limits_inv e" "rule \<in> set (Rules e)" "check_cardinality e ts rule = (Some e', ts')"
  shows "limits_inv e'"
proof -
  let ?m = "cardinalityMap e (rule_Name rule)"
  have same: "r \<in> set (Rules e) \<Longrightarrow> rule_Name r = rule_Name rule \<longleftrightarrow> r = rule" for r
    using assms(1,2) by (auto simp: limits_inv_def inj_on_def)
  show ?thesis
  proof (cases "MaxCardinality rule > 0 \<and> LabelsHash (SortLabels ts) \<notin> ?m")
    case True
    let ?h = "LabelsHash (SortLabels ts)"
    have e': "int (card ?m) < MaxCardinality rule"
        "e' = e\<lparr>cardinalityMap := (cardinalityMap e)(rule_Name rule := insert ?h ?m)\<rparr>"
      using assms(3) True by (auto simp: check_cardinality_def Let_def split: if_splits)
    have "finite ?m" using assms(1,2) True by (simp add: limits_inv_def)
    with True e'(1) have "finite (insert ?h ?m)" "int (card (insert ?h ?m)) \<le> MaxCardinality rule" by simp_all
    then show ?thesis using assms(1) by (simp add: limits_inv_def e'(2) same)
  next
    case False
    then have "e' = e" using assms(3) by (simp add: check_cardinality_def Let_def split: if_splits)
    then show ?thesis using assms(1) by simp
  qed
qed

lemma limits_inv_counters [simp]:
  "limits_inv (violation e) = limits_inv e"
  "limits_inv (e\<lparr>totalDropped := d\<rparr>) = limits_inv e"
  by (simp_all add: limits_inv_def violation_def)

text \<open>What the checks leave alone.\<close>

lemma check_datapoints_frame:
  "check_datapoints e ts rule = Some e' \<Longrightarrow> Rules e' = Rules e \<and> dryRun e' = dryRun e
     \<and> cardinalityMap e' = cardinalityMap e \<and> (\<forall>n. datapointCounts e n \<le> datapointCounts e' n)"
  by (auto simp: check_datapoints_def Let_def split: if_splits)

lemma check_cardinality_frame:
  "check_cardinality e ts rule = (r, ts') \<Longrightarrow> (ts' = ts \<or> ts' = SortLabels ts) \<and> (\<forall>e'. r = Some e' \<longrightarrow>
     Rules e' = Rules e \<and> dryRun e' = dryRun e \<and> datapointCounts e' = datapointCounts e
     \<and> (\<forall>n. cardinalityMap e n \<subseteq> cardinalityMap e' n))"
  by (auto simp: check_cardinality_def Let_def split: if_splits)

text \<open>A rule charges a series when its tables account for it.\<close>

definition charged :: "LimitsEnforcer \<Rightarrow> LimitsEnforcer \<Rightarrow> TimeSeries \<Rightarrow> LimitRule \<Rightarrow> bool" where
  "charged e e' ts r \<longleftrightarrow>
     (MaxDatapointsPerSecond r > 0 \<longrightarrow>
        datapointCounts e (rule_Name r) + int (DatapointCount ts) \<le> datapointCounts e' (rule_Name r)) \<and>
     (MaxCardinality r > 0 \<longrightarrow> LabelsHash (SortLabels ts) \<in> cardinalityMap e' (rule_Name r))"

definition grows :: "LimitsEnforcer \<Rightarrow> LimitsEnforcer \<Rightarrow> bool" where
  "grows e e' \<longleftrightarrow> Rules e' = Rules e \<and> dryRun e' = dryRun e
     \<and> (\<forall>n. datapointCounts e n \<le> datapointCounts e' n \<and> cardinalityMap e n \<subseteq> cardinalityMap e' n)"

lemma grows_refl [simp]: "grows e e"
  by (simp add: grows_def)

lemma grows_trans [trans]: "grows e e' \<Longrightarrow> grows e' e'' \<Longrightarrow> grows e e''"
  by (auto simp: grows_def intro: order_trans)

lemma charged_mono: "grows e0 e \<Longrightarrow> charged e e1 ts r \<Longrightarrow> grows e1 e2 \<Longrightarrow> charged e0 e2 ts r"
  unfolding grows_def charged_def by (meson add_right_mono order_trans subsetD)


lemma matchesRule_SortLabels:
  "distinct (map label_Name (ts_Labels ts)) \<Longrightarrow> matchesRule (SortLabels ts) r = matchesRule ts r"
  unfolding matchesRule_def MetricName_GetLabelValue by (simp only: GetLabelValue_SortLabels)

lemma check_datapoints_charges:
  "check_datapoints e ts r = Some e' \<Longrightarrow> MaxDatapointsPerSecond r > 0
   \<Longrightarrow> datapointCounts e (rule_Name r) + int (DatapointCount ts) \<le> datapointCounts e' (rule_Name r)"
  by (auto simp: check_datapoints_def Let_def split: if_splits)

lemma check_cardinality_charges:
  "check_cardinality e ts r = (Some e', ts') \<Longrightarrow> MaxCardinality r > 0
   \<Longrightarrow> LabelsHash (SortLabels ts) \<in> cardinalityMap e' (rule_Name r)"
  by (auto simp: check_cardinality_def Let_def split: if_splits)

lemma checks_step:
  assumes "check_datapoints e ts r = Some e1" "check_cardinality e1 ts r = (Some e2, ts')"
  shows "grows e e2 \<and> charged e e2 ts r"
proof
  have "grows e e1" using check_datapoints_frame [OF assms(1)] by (simp add: grows_def)
  moreover have c: "grows e1 e2" "datapointCounts e2 = datapointCounts e1"
    using check_cardinality_frame [OF assms(2)] by (simp_all add: grows_def)
  ultimately show "grows e e2" by (metis grows_trans)
  show "charged e e2 ts r"
    unfolding charged_def c(2)
    using check_datapoints_charges [OF assms(1)] check_cardinality_charges [OF assms(2)] by blast
qed

text \<open>Same series up to the order of the labels.\<close>

definition same_series :: "TimeSeries \<Rightarrow> TimeSeries \<Rightarrow> bool" where
  "same_series ts ts' \<longleftrightarrow> ts' = ts \<or> ts' = SortLabels ts"

lemma same_series_facts:
  assumes "same_series ts ts'"
  shows "SortLabels ts' = SortLabels ts" "DatapointCount ts' = DatapointCount ts"
    "distinct (map label_Name (ts_Labels ts')) = distinct (map label_Name (ts_Labels ts))"
    "distinct (map label_Name (ts_Labels ts)) \<Longrightarrow> matchesRule ts' r = matchesRule ts r"
proof -
  have "mset (map label_Name (ts_Labels (SortLabels ts))) = mset (map label_Name (ts_Labels ts))" by simp
  then have "distinct (map label_Name (ts_Labels (SortLabels ts))) = distinct (map label_Name (ts_Labels ts))"
    by (rule mset_eq_imp_distinct_iff)
  then show "distinct (map label_Name (ts_Labels ts')) = distinct (map label_Name (ts_Labels ts))"
    using assms unfolding same_series_def by (elim disjE) simp_all
  show "distinct (map label_Name (ts_Labels ts)) \<Longrightarrow> matchesRule ts' r = matchesRule ts r"
    using assms unfolding same_series_def by (elim disjE) (simp_all add: matchesRule_SortLabels)
qed (use assms in \<open>auto simp: same_series_def\<close>)

lemma same_series_trans: "same_series a b \<Longrightarrow> same_series b c \<Longrightarrow> same_series a c"
  by (auto simp: same_series_def)

lemma charged_same: "same_series ts ts' \<Longrightarrow> charged e e' ts' r = charged e e' ts r"
  by (simp add: charged_def same_series_facts)

lemma rule_loop_correct:
  assumes "rule_loop e ts rs = (e', ts', v)" "limits_inv e" "set rs \<subseteq> set (Rules e)"
    and "distinct (map label_Name (ts_Labels ts))"
  shows "limits_inv e' \<and> grows e e' \<and> same_series ts ts' \<and>
    (v = None \<longrightarrow> (\<forall>r \<in> set rs. matchesRule ts r \<longrightarrow> charged e e' ts r)) \<and> (\<forall>r. v = Some r \<longrightarrow> r \<in> set rs)"
  using assms
proof (induction rs arbitrary: e ts)
  case Nil
  then show ?case by (simp add: same_series_def)
next
  case (Cons r rs)
  show ?case
  proof (cases "matchesRule ts r")
    case False
    then show ?thesis using Cons by auto
  next
    case True
    have r: "r \<in> set (Rules e)" using Cons.prems by simp
    show ?thesis
    proof (cases "check_datapoints e ts r")
      case None
      then show ?thesis using Cons.prems True by (auto simp: same_series_def grows_def violation_def limits_inv_def)
    next
      case (Some e1)
      note e1 = this
      have i1: "limits_inv e1" "Rules e1 = Rules e"
        using check_datapoints_inv [OF Cons.prems(2) r Some] check_datapoints_frame [OF Some] by simp_all
      obtain q t1 where q: "check_cardinality e1 ts r = (q, t1)" by fastforce
      have t1: "same_series ts t1" using check_cardinality_frame [OF q] by (simp add: same_series_def)
      show ?thesis
      proof (cases q)
        case None
        have "grows e (violation e1)"
          using check_datapoints_frame [OF e1] by (auto simp: grows_def violation_def)
        moreover have "e' = violation e1" "ts' = t1" "v = Some r"
          using Cons.prems(1) True e1 q None by simp_all
        ultimately show ?thesis using i1(1) t1 by simp
      next
        case (Some e2)
        have c: "grows e e2" "charged e e2 ts r"
          using checks_step [OF e1] q Some by simp_all
        have loop: "rule_loop e2 t1 rs = (e', ts', v)" using Cons.prems(1) True e1 q Some by simp
        have "limits_inv e2" using check_cardinality_inv [of e1 r ts e2 t1] i1 r q Some by simp
        moreover have "set rs \<subseteq> set (Rules e2)" using Cons.prems(3) c(1) by (simp add: grows_def)
        ultimately have IH: "limits_inv e' \<and> grows e2 e' \<and> same_series t1 ts' \<and>
            (v = None \<longrightarrow> (\<forall>r \<in> set rs. matchesRule t1 r \<longrightarrow> charged e2 e' t1 r)) \<and> (\<forall>r. v = Some r \<longrightarrow> r \<in> set rs)"
          using Cons.prems(4) same_series_facts(3) [OF t1] by (intro Cons.IH [OF loop]) simp_all
        have "charged e e' ts r" using charged_mono [OF grows_refl c(2)] IH by blast
        moreover have "\<forall>x \<in> set rs. matchesRule ts x \<longrightarrow> v = None \<longrightarrow> charged e e' ts x"
          using IH c(1) charged_mono [OF c(1) _ grows_refl] t1 same_series_facts(4) [OF t1 Cons.prems(4)]
          by (auto simp: charged_same)
        ultimately show ?thesis
          using IH grows_trans [OF c(1)] same_series_trans [OF t1] by auto
      qed
    qed
  qed
qed

section \<open>The loop over the series\<close>

lemma rule_loop_inv:
  "rule_loop e ts rs = (e', ts', v) \<Longrightarrow> limits_inv e \<Longrightarrow> set rs \<subseteq> set (Rules e)
   \<Longrightarrow> limits_inv e' \<and> Rules e' = Rules e"
proof (induction rs arbitrary: e ts)
  case (Cons r rs)
  have r: "r \<in> set (Rules e)" using Cons.prems by simp
  consider "\<not> matchesRule ts r" | "matchesRule ts r" "check_datapoints e ts r = None"
    | e1 t1 where "matchesRule ts r" "check_datapoints e ts r = Some e1" "check_cardinality e1 ts r = (None, t1)"
    | e1 e2 t1 where "matchesRule ts r" "check_datapoints e ts r = Some e1" "check_cardinality e1 ts r = (Some e2, t1)"
    by (metis option.exhaust surj_pair)
  then show ?case
  proof cases
    case 1
    then show ?thesis using Cons by simp
  next
    case 2
    then have "e' = violation e" using Cons.prems(1) by simp
    then show ?thesis using Cons.prems(2) by (simp add: violation_def limits_inv_def)
  next
    case 3
    then have "e' = violation e1" using Cons.prems(1) by simp
    then show ?thesis
      using check_datapoints_inv [OF Cons.prems(2) r 3(2)] check_datapoints_frame [OF 3(2)]
      by (simp add: violation_def limits_inv_def)
  next
    case 4
    have e1: "limits_inv e1" "Rules e1 = Rules e"
      using check_datapoints_inv [OF Cons.prems(2) r 4(2)] check_datapoints_frame [OF 4(2)] by blast+
    then have e2: "limits_inv e2" "Rules e2 = Rules e"
      using check_cardinality_inv [OF e1(1) _ 4(3)] check_cardinality_frame [OF 4(3)] r by (metis, metis)
    have "rule_loop e2 t1 rs = (e', ts', v)" using Cons.prems(1) 4 by simp
    from Cons.IH [OF this e2(1)] e2(2) Cons.prems(3) show ?thesis by simp
  qed
qed simp

lemma process_foldl_inv:
  "limits_inv e \<Longrightarrow> foldl process_series (e, seen, filtered) tss = (e', seen', filtered')
   \<Longrightarrow> limits_inv e' \<and> Rules e' = Rules e"
proof (induction tss arbitrary: e seen filtered)
  case (Cons ts tss)
  obtain e1 t1 v where l: "rule_loop e ts (Rules e) = (e1, t1, v)" by (metis prod_cases3)
  have e1: "limits_inv e1" "Rules e1 = Rules e" using rule_loop_inv [OF l Cons.prems(1)] by simp_all
  then have "limits_inv (e1\<lparr>totalDropped := totalDropped e1 + 1\<rparr>)" by simp
  from Cons.IH [OF this] Cons.IH [OF e1(1)] Cons.prems(2) e1(2) show ?case
    by (auto simp: process_series_def l split: option.splits if_splits)
qed simp

text \<open>How many datapoints, and which series, of a list count against a rule.\<close>

definition points_against :: "LimitRule \<Rightarrow> TimeSeries list \<Rightarrow> int" where
  "points_against r tss = sum_list (map (\<lambda>ts. int (DatapointCount ts)) (filter (\<lambda>ts. matchesRule ts r) tss))"

definition series_against :: "LimitRule \<Rightarrow> TimeSeries list \<Rightarrow> u64 set" where
  "series_against r tss = (\<lambda>ts. LabelsHash (SortLabels ts)) ` {ts \<in> set tss. matchesRule ts r}"

text \<open>What the kept series are, relative to the enforcer the loop started from.\<close>

definition accounted :: "LimitsEnforcer \<Rightarrow> LimitsEnforcer \<Rightarrow> TimeSeries list \<Rightarrow> bool" where
  "accounted e0 e tss \<longleftrightarrow> (\<forall>r \<in> set (Rules e0).
     (MaxDatapointsPerSecond r > 0 \<longrightarrow>
        datapointCounts e0 (rule_Name r) + points_against r tss \<le> datapointCounts e (rule_Name r)) \<and>
     (MaxCardinality r > 0 \<longrightarrow> series_against r tss \<subseteq> cardinalityMap e (rule_Name r)))"

lemma accounted_grows: "accounted e0 e tss \<Longrightarrow> grows e e' \<Longrightarrow> accounted e0 e' tss"
  unfolding accounted_def grows_def by (meson order_trans)

lemma accounted_snoc:
  assumes "accounted e0 e tss" "grows e e'" "same_series ts ts'" "distinct (map label_Name (ts_Labels ts))"
    and "\<forall>r \<in> set (Rules e0). matchesRule ts r \<longrightarrow> charged e e' ts r"
  shows "accounted e0 e' (tss @ [ts'])"
  unfolding accounted_def
proof (intro ballI conjI impI)
  fix r assume r: "r \<in> set (Rules e0)"
  note m = same_series_facts(1,2) [OF assms(3)] same_series_facts(4) [OF assms(3,4), of r]
  note a = accounted_grows [OF assms(1,2), unfolded accounted_def, rule_format, OF r]
  {
    assume d: "MaxDatapointsPerSecond r > 0"
    show "datapointCounts e0 (rule_Name r) + points_against r (tss @ [ts']) \<le> datapointCounts e' (rule_Name r)"
    proof (cases "matchesRule ts r")
      case True
      then have "datapointCounts e (rule_Name r) + int (DatapointCount ts) \<le> datapointCounts e' (rule_Name r)"
        using assms(5) r d by (simp add: charged_def)
      moreover have "datapointCounts e0 (rule_Name r) + points_against r tss \<le> datapointCounts e (rule_Name r)"
        using assms(1) r d by (simp add: accounted_def)
      ultimately show ?thesis using True by (simp add: points_against_def m)
    qed (use a d in \<open>simp add: points_against_def m\<close>)
  next
    assume c: "MaxCardinality r > 0"
    then have "matchesRule ts r \<Longrightarrow> LabelsHash (SortLabels ts) \<in> cardinalityMap e' (rule_Name r)"
      using assms(5) r by (simp add: charged_def)
    then show "series_against r (tss @ [ts']) \<subseteq> cardinalityMap e' (rule_Name r)"
      using a c by (auto simp: series_against_def m)
  }
qed

lemma process_foldl_accounted:
  assumes "foldl process_series (e, seen, filtered) tss = (e', seen', filtered')"
    and "limits_inv e" "\<not> dryRun e" "\<forall>r \<in> set (Rules e). Action r \<noteq> LimitActionLog"
    and "\<forall>ts \<in> set tss. distinct (map label_Name (ts_Labels ts))"
    and "accounted e0 e filtered" "Rules e = Rules e0"
  shows "accounted e0 e' filtered'"
  using assms
proof (induction tss arbitrary: e seen filtered)
  case (Cons ts tss)
  obtain e1 t1 v where l: "rule_loop e ts (Rules e) = (e1, t1, v)" by (metis prod_cases3)
  have c: "limits_inv e1" "grows e e1" "same_series ts t1"
    "v = None \<Longrightarrow> \<forall>r \<in> set (Rules e). matchesRule ts r \<longrightarrow> charged e e1 ts r"
    "\<And>r. v = Some r \<Longrightarrow> r \<in> set (Rules e)"
    using rule_loop_correct [OF l Cons.prems(2)] Cons.prems(5) by auto
  have e1: "Rules e1 = Rules e" "dryRun e1 = dryRun e" using c(2) by (simp_all add: grows_def)
  show ?case
  proof (cases v)
    case None
    have "accounted e0 e1 (filtered @ [t1])"
      using accounted_snoc [OF Cons.prems(6) c(2,3)] c(4) [OF None] Cons.prems(5,7) by simp
    then show ?thesis
      using Cons.prems c(1) e1 None l by (intro Cons.IH [of e1 "seen @ [t1]" "filtered @ [t1]"]) (auto simp: process_series_def)
  next
    case (Some r)
    let ?e = "e1\<lparr>totalDropped := totalDropped e1 + 1\<rparr>"
    have "grows e ?e" using c(2) by (simp add: grows_def)
    then have "accounted e0 ?e filtered" by (rule accounted_grows [OF Cons.prems(6)])
    moreover have "Action r \<noteq> LimitActionLog" using c(5) [OF Some] Cons.prems(4) by blast
    ultimately show ?thesis
      using Cons.prems c(1) e1 Some l by (intro Cons.IH [of ?e "seen @ [t1]" filtered]) (auto simp: process_series_def)
  qed
qed simp

lemma reset_window_inv: "limits_inv e \<Longrightarrow> limits_inv (reset_window e now)"
  by (simp add: limits_inv_def reset_window_def)

lemma reset_window_frame [simp]:
  "Rules (reset_window e now) = Rules e" "dryRun (reset_window e now) = dryRun e"
  "cardinalityMap (reset_window e now) = cardinalityMap e"
  by (simp_all add: reset_window_def)

lemma process_foldl_dry:
  assumes "foldl process_series (e, seen, filtered) tss = (e', seen', filtered')"
    and "dryRun e" "limits_inv e" "\<forall>ts \<in> set tss. distinct (map label_Name (ts_Labels ts))" "seen = filtered"
  shows "filtered' = seen' \<and> (\<exists>out. seen' = seen @ out \<and> list_all2 same_series tss out)"
  using assms
proof (induction tss arbitrary: e seen filtered)
  case (Cons ts tss)
  obtain e1 t1 v where l: "rule_loop e ts (Rules e) = (e1, t1, v)" by (metis prod_cases3)
  have c: "limits_inv e1" "same_series ts t1" "dryRun e1"
    using rule_loop_correct [OF l Cons.prems(3)] Cons.prems(2,4) by (auto simp: grows_def)
  have "process_series (e, seen, filtered) ts = (e1, seen @ [t1], filtered @ [t1])"
    by (simp add: process_series_def l c(3) split: option.split)
  with Cons.prems have "filtered' = seen' \<and> (\<exists>out. seen' = (seen @ [t1]) @ out \<and> list_all2 same_series tss out)"
    by (intro Cons.IH [of e1 "seen @ [t1]" "filtered @ [t1]"] c) simp_all
  then obtain out where "filtered' = seen'" "seen' = seen @ t1 # out" "list_all2 same_series tss out" by auto
  then show ?case using c(2) by (intro conjI exI [of _ "t1 # out"]) simp_all
qed simp

section \<open>Properties\<close>

text \<open>
  The enforcer never exceeds a budget. Whatever requests are processed and whenever, as long as rule
  names are distinct, each rule's datapoint counter stays at or below \<open>MaxDatapointsPerSecond\<close> and
  each rule's table of known series at or below \<open>MaxCardinality\<close> entries.
\<close>

theorem Process_keeps_budgets:
  assumes "limits_inv e"
  shows "limits_inv (snd (snd (Process e now req)))"
  using assms process_foldl_inv [OF reset_window_inv [OF assms(1)]]
  by (auto simp: Process_def Let_def split: option.splits if_splits prod.splits)

theorem Process_keeps_budgets_witness:
  "limits_inv (snd (snd (Process (NewLimitsEnforcer (\<lambda>p. Some (\<lambda>s. True))
      [\<lparr>rule_Name = [1], MetricPattern = [46], LabelPatterns = [], MaxDatapointsPerSecond = 1, MaxCardinality = 1,
        Action = LimitActionUnset, metricRegex = None, labelRegexes = []\<rparr>] False 0) 5
      (Some \<lparr>req_Timeseries = [\<lparr>ts_Labels = [], ts_Samples = [], ts_Exemplars = [], ts_Histograms = []\<rparr>],
        req_Metadata = []\<rparr>))))"
  by (rule Process_keeps_budgets) (simp add: limits_inv_def NewLimitsEnforcer_def)



text \<open>
  Dry run drops no series: with \<open>dryRun\<close> set, every series of a request (whose series name each label
  once) comes out again, in order, changed at most in the order of its labels, and
  the metadata is passed on, provided the request has a series at all.
\<close>

theorem Process_dry_run_keeps_all:
  assumes "limits_inv e" "dryRun e" "req_Timeseries req \<noteq> []"
    and "\<forall>ts \<in> set (req_Timeseries req). distinct (map label_Name (ts_Labels ts))"
  shows "\<exists>out req' e'. Process e now (Some req) = (Some out, req', e') \<and> req_Metadata out = req_Metadata req
    \<and> list_all2 same_series (req_Timeseries req) (req_Timeseries out)"
proof (cases "Rules e = []")
  case True
  then show ?thesis by (simp add: Process_def same_series_def list_all2_refl)
next
  case False
  let ?e = "reset_window e now"
  obtain e1 seen filtered where f: "foldl process_series (?e, [], []) (req_Timeseries req) = (e1, seen, filtered)"
    by (metis prod_cases3)
  have "filtered = seen" "list_all2 same_series (req_Timeseries req) filtered"
    using process_foldl_dry [OF f] assms reset_window_inv [OF assms(1), of now] by auto
  moreover from this have "filtered \<noteq> []" using assms(3) by auto
  ultimately show ?thesis using False by (simp add: Process_def f Let_def)
qed

theorem Process_dry_run_keeps_all_witness:
  "\<exists>out req' e'. Process (NewLimitsEnforcer (\<lambda>p. None) [] True 0) 5
      (Some \<lparr>req_Timeseries = [\<lparr>ts_Labels = [], ts_Samples = [], ts_Exemplars = [], ts_Histograms = []\<rparr>],
        req_Metadata = []\<rparr>) = (Some out, req', e')
    \<and> list_all2 same_series [\<lparr>ts_Labels = [], ts_Samples = [], ts_Exemplars = [], ts_Histograms = []\<rparr>] (req_Timeseries out)"
  using Process_dry_run_keeps_all [of "NewLimitsEnforcer (\<lambda>p. None) [] True 0"
      "\<lparr>req_Timeseries = [\<lparr>ts_Labels = [], ts_Samples = [], ts_Exemplars = [], ts_Histograms = []\<rparr>], req_Metadata = []\<rparr>" 5]
  by (auto simp: limits_inv_def NewLimitsEnforcer_def)

text \<open>
  A request that carries metadata only is discarded as soon as any rule is configured, in
  dry-run mode too: \<open>Process\<close> returns nil when no series is left.
\<close>

theorem Process_discards_metadata_only:
  assumes "Rules e \<noteq> []" "req_Timeseries req = []"
  shows "fst (Process e now (Some req)) = None"
  using assms by (simp add: Process_def Let_def)

theorem Process_discards_metadata_only_witness:
  "fst (Process (NewLimitsEnforcer (\<lambda>p. None)
      [\<lparr>rule_Name = [1], MetricPattern = [], LabelPatterns = [], MaxDatapointsPerSecond = 0, MaxCardinality = 0,
        Action = LimitActionUnset, metricRegex = None, labelRegexes = []\<rparr>] True 0) 5
      (Some \<lparr>req_Timeseries = [], req_Metadata = [\<lparr>md_Type = 1, md_MetricFamilyName = [97], md_Help = [], md_Unit = []\<rparr>]\<rparr>)) = None"
  by (rule Process_discards_metadata_only) (simp_all add: NewLimitsEnforcer_def)

end
