(* ===== verification/Prw_Buffer.thy ===== *)
theory Prw_Buffer
  imports Prw_Codec Prw_Limits
begin

text \<open>
  The request buffer of \<open>internal/prw/buffer.go\<close>. The exporter is code the buffer only calls: a
  function \<open>export\<close> from its own state and a request to whether it succeeded and its new state. Calls of the
  statistics collector are a trace. \<open>Add\<close> takes the lock twice, so it is two
  steps (\<open>add_series\<close>, \<open>add_metadata\<close>) and other goroutines can run in between; the step relation
  interleaves them with the flushes of \<open>Start\<close>. A flush that does not return is \<open>None\<close>.
\<close>

section \<open>Model\<close>

definition MaxMetadataEntries :: nat where
  "MaxMetadataEntries = 10000"

datatype stat_event =
    RecordPRWReceived nat nat
  | RecordPRWBytesReceived nat
  | SetPRWBufferSize nat
  | RecordPRWExport nat nat
  | RecordPRWBytesSent nat
  | RecordPRWExportError

record Buffer =
  timeseries :: "TimeSeries list"
  metadata :: "MetricMetadata list"
  MaxSize :: int
  MaxBatchSize :: int
  has_exporter :: bool
  limits :: "LimitsEnforcer option"
  flush_signal :: bool
  stats :: "stat_event list option"

text \<open>The configuration is its sizes; the flush interval only drives the ticker of \<open>Start\<close>.\<close>

definition DefaultBufferConfig :: "int \<times> int" where
  "DefaultBufferConfig = (10000, 1000)"

definition NewBuffer :: "int \<times> int \<Rightarrow> bool \<Rightarrow> bool \<Rightarrow> LimitsEnforcer option \<Rightarrow> Buffer" where
  "NewBuffer cfg exporter_given stats_given lim =
     \<lparr>timeseries = [], metadata = [], MaxSize = fst cfg, MaxBatchSize = snd cfg, has_exporter = exporter_given,
      limits = lim, flush_signal = False, stats = (if stats_given then Some [] else None)\<rparr>"

definition record_stat :: "stat_event list option \<Rightarrow> stat_event \<Rightarrow> stat_event list option" where
  "record_stat s ev = map_option (\<lambda>l. l @ [ev]) s"

text \<open>The first part of \<open>Add\<close>: statistics, limits, and the first critical section. It
  answers the request left after the limits, or nothing when \<open>Add\<close> returns early.\<close>

definition add_series :: "int \<Rightarrow> Buffer \<Rightarrow> WriteRequest option \<Rightarrow> Buffer \<times> WriteRequest option" where
  "add_series now b req =
     (case req of
        None \<Rightarrow> (b, None)
      | Some req \<Rightarrow>
          let b = b\<lparr>stats := record_stat (record_stat (stats b)
                      (RecordPRWReceived (TotalDatapoints req) (TotalTimeseries req)))
                      (RecordPRWBytesReceived (WriteRequest_estimateSize req))\<rparr>;
              (req, b) = (case limits b of
                  None \<Rightarrow> (Some req, b)
                | Some e \<Rightarrow> (case Process e now (Some req) of (out, _, e) \<Rightarrow> (out, b\<lparr>limits := Some e\<rparr>)))
          in case req of
               None \<Rightarrow> (b, None)
             | Some req \<Rightarrow>
                 if length (req_Timeseries req) = 0 then (b, None)
                 else
                   let b = b\<lparr>timeseries := timeseries b @ req_Timeseries req\<rparr>
                   in (b\<lparr>stats := record_stat (stats b) (SetPRWBufferSize (length (timeseries b)))\<rparr>, Some req))"

text \<open>The inner loop: replace the entry of the same metric family, if there is one.\<close>

fun update_metadata :: "MetricMetadata list \<Rightarrow> MetricMetadata \<Rightarrow> MetricMetadata list option" where
  "update_metadata [] md = None"
| "update_metadata (m # ms) md =
     (if md_MetricFamilyName m = md_MetricFamilyName md then Some (md # ms)
      else map_option ((#) m) (update_metadata ms md))"

definition add_one_metadata :: "MetricMetadata list \<Rightarrow> MetricMetadata \<Rightarrow> MetricMetadata list" where
  "add_one_metadata ms md =
     (case update_metadata ms md of
        Some ms \<Rightarrow> ms
      | None \<Rightarrow> if length ms \<ge> MaxMetadataEntries then ms else ms @ [md])"

text \<open>The second critical section of \<open>Add\<close>; sending on the full channel is dropped.\<close>

definition add_metadata :: "Buffer \<Rightarrow> MetricMetadata list \<Rightarrow> Buffer" where
  "add_metadata b mds =
     (let b = b\<lparr>metadata := foldl add_one_metadata (metadata b) mds\<rparr>
      in if int (length (timeseries b)) \<ge> MaxSize b then b\<lparr>flush_signal := True\<rparr> else b)"

definition Add :: "int \<Rightarrow> Buffer \<Rightarrow> WriteRequest option \<Rightarrow> Buffer" where
  "Add now b req =
     (case add_series now b req of
        (b, None) \<Rightarrow> b
      | (b, Some req) \<Rightarrow> add_metadata b (req_Metadata req))"

definition countBatchDatapoints :: "TimeSeries list \<Rightarrow> nat" where
  "countBatchDatapoints tss = foldl (\<lambda>count ts. count + DatapointCount ts) 0 tss"

type_synonym 'x exporter = "'x \<Rightarrow> WriteRequest \<Rightarrow> bool \<times> 'x"

text \<open>
  The loop of \<open>flush\<close>: \<open>toSend[i:end]\<close> panics when \<open>end < i\<close>. The result is the statistics,
  the exporter's state and the requests handed to it, in order.
\<close>

partial_function (option) batch_loop ::
    "'x exporter \<Rightarrow> int \<Rightarrow> TimeSeries list \<Rightarrow> MetricMetadata list \<Rightarrow> int \<Rightarrow> stat_event list option \<Rightarrow> 'x
      \<Rightarrow> WriteRequest list \<Rightarrow> (unit, stat_event list option \<times> 'x \<times> WriteRequest list) outcome option" where
  "batch_loop export maxBatch toSend md i st x sent =
     (if i < int (length toSend) then
        let end1 = i + maxBatch;
            end2 = (if end1 > int (length toSend) then int (length toSend) else end1)
        in if end2 < i then Some Panic
           else
             let batch = take (nat (end2 - i)) (drop (nat i) toSend);
                 req = \<lparr>req_Timeseries = batch,
                        req_Metadata = (if i = 0 \<and> length md > 0 then md else [])\<rparr>;
                 r = export x req;
                 st = (if fst r then record_stat (record_stat st (RecordPRWExport (countBatchDatapoints batch) (length batch)))
                                       (RecordPRWBytesSent (WriteRequest_estimateSize req))
                       else record_stat st RecordPRWExportError)
             in batch_loop export maxBatch toSend md (i + maxBatch) st (snd r) (sent @ [req])
      else Some (Ok (st, x, sent)))"

definition flush :: "'x exporter \<Rightarrow> Buffer \<Rightarrow> 'x \<Rightarrow> (unit, Buffer \<times> 'x \<times> WriteRequest list) outcome option" where
  "flush export b x =
     (if length (timeseries b) = 0 then Some (Ok (b, x, []))
      else
        let toSend = timeseries b;
            md = metadata b;
            b = b\<lparr>timeseries := [], stats := record_stat (stats b) (SetPRWBufferSize 0)\<rparr>
        in if \<not> has_exporter b then Some (Ok (b, x, []))
           else case batch_loop export (MaxBatchSize b) toSend md 0 (stats b) x [] of
             None \<Rightarrow> None
           | Some out \<Rightarrow> Some (bind_outcome out (\<lambda>(st, x, sent). Ok (b\<lparr>stats := st\<rparr>, x, sent))))"

definition SetExporter :: "Buffer \<Rightarrow> bool \<Rightarrow> Buffer" where
  "SetExporter b given = b\<lparr>has_exporter := given\<rparr>"

section \<open>Flushing\<close>

lemma batch_loop_correct:
  assumes "0 < n" "0 \<le> i"
  shows "\<exists>st' x' out. batch_loop export n toSend md i st x sent = Some (Ok (st', x', sent @ out))
    \<and> concat (map req_Timeseries out) = drop (nat i) toSend
    \<and> (\<forall>r \<in> set out. req_Timeseries r \<noteq> [] \<and> int (length (req_Timeseries r)) \<le> n)
    \<and> map req_Metadata out = (if out = [] then [] else (if i = 0 then md else []) # replicate (length out - 1) [])"
  using assms(2)
proof (induction "nat (int (length toSend) - i)" arbitrary: i st x sent rule: less_induct)
  case less
  show ?case
  proof (cases "i < int (length toSend)")
    case False
    then show ?thesis using less.prems by (subst batch_loop.simps) simp
  next
    case True
    define e where "e = (if i + n > int (length toSend) then int (length toSend) else i + n)"
    define batch where "batch = take (nat (e - i)) (drop (nat i) toSend)"
    define req where "req = \<lparr>req_Timeseries = batch, req_Metadata = (if i = 0 \<and> length md > 0 then md else [])\<rparr>"
    define st1 where "st1 = (if fst (export x req) then record_stat (record_stat st (RecordPRWExport (countBatchDatapoints batch) (length batch)))
                                       (RecordPRWBytesSent (WriteRequest_estimateSize req))
                       else record_stat st RecordPRWExportError)"
    have e: "i < e" "e \<le> i + n" "e \<le> int (length toSend)" using True assms(1) by (auto simp: e_def)
    have step: "batch_loop export n toSend md i st x sent
        = batch_loop export n toSend md (i + n) st1 (snd (export x req)) (sent @ [req])"
      using e(1) [THEN less_not_sym] by (subst batch_loop.simps)
        (simp only: True if_True if_False Let_def e_def [symmetric] batch_def [symmetric] req_def [symmetric]
          st1_def [symmetric])
    have "nat (int (length toSend) - (i + n)) < nat (int (length toSend) - i)" using True assms(1) by simp
    from less.hyps [OF this, of st1 "snd (export x req)" "sent @ [req]"]
    obtain st' x' out where out:
      "batch_loop export n toSend md (i + n) st1 (snd (export x req)) (sent @ [req]) = Some (Ok (st', x', sent @ req # out))"
      "concat (map req_Timeseries out) = drop (nat (i + n)) toSend"
      "\<forall>r \<in> set out. req_Timeseries r \<noteq> [] \<and> int (length (req_Timeseries r)) \<le> n"
      "map req_Metadata out = (if out = [] then [] else [] # replicate (length out - 1) [])"
      using less.prems assms(1) by (auto split: if_splits)
    have len: "length batch = nat (e - i)" using e less.prems by (simp add: batch_def nat_le_iff)
    have "batch @ drop (nat (i + n)) toSend = drop (nat i) toSend"
    proof (cases "i + n > int (length toSend)")
      case True
      then show ?thesis by (simp add: batch_def e_def nat_diff_distrib' less.prems)
    next
      case False
      then have "nat (i + n) = nat (e - i) + nat i" using less.prems assms(1) by (simp add: e_def nat_add_distrib)
      then have "drop (nat (i + n)) toSend = drop (nat (e - i)) (drop (nat i) toSend)" by simp
      then show ?thesis unfolding batch_def by (simp only: append_take_drop_id)
    qed
    moreover have "map req_Metadata (req # out) = (if i = 0 then md else []) # replicate (length (req # out) - 1) []"
      using out(4) by (cases out) (auto simp: req_def)
    moreover have "batch \<noteq> []" "int (length batch) \<le> n" using len e by auto
    ultimately show ?thesis
      using out(1-3) step by (intro exI [of _ st'] exI [of _ x'] exI [of _ "req # out"]) (simp add: req_def)
  qed
qed

lemma batch_loop_zero:
  assumes "batch_loop export n toSend md i st x sent = Some r" "n = 0"
  shows "int (length toSend) \<le> i"
proof -
  have "n = 0 \<longrightarrow> int (length toSend) \<le> i"
    apply (rule batch_loop.raw_induct [where P = "\<lambda>export n toSend md i st x sent r. n = 0 \<longrightarrow> int (length toSend) \<le> i"
          and xa = "(((((((export, n), toSend), md), i), st), x), sent)" and y = r, simplified prod.case, OF _ assms(1)])
    subgoal premises p
      using p(2) by (auto simp: Let_def split: if_splits dest!: p(1))
    done
  then show ?thesis using assms(2) by simp
qed

lemma flush_correct:
  assumes "0 < MaxBatchSize b" "has_exporter b"
  shows "\<exists>b' x' out. flush export b x = Some (Ok (b', x', out)) \<and> timeseries b' = [] \<and> metadata b' = metadata b
    \<and> MaxBatchSize b' = MaxBatchSize b \<and> has_exporter b' \<and> flush_signal b' = flush_signal b
    \<and> concat (map req_Timeseries out) = timeseries b
    \<and> (\<forall>r \<in> set out. req_Timeseries r \<noteq> [] \<and> int (length (req_Timeseries r)) \<le> MaxBatchSize b)
    \<and> map req_Metadata out = (if out = [] then [] else metadata b # replicate (length out - 1) [])"
proof (cases "timeseries b = []")
  case True
  then show ?thesis using assms by (simp add: flush_def)
next
  case False
  obtain st' x' out where "batch_loop export (MaxBatchSize b) (timeseries b) (metadata b) 0
        (record_stat (stats b) (SetPRWBufferSize 0)) x [] = Some (Ok (st', x', out))"
      "concat (map req_Timeseries out) = timeseries b"
      "\<forall>r \<in> set out. req_Timeseries r \<noteq> [] \<and> int (length (req_Timeseries r)) \<le> MaxBatchSize b"
      "map req_Metadata out = (if out = [] then [] else metadata b # replicate (length out - 1) [])"
    using batch_loop_correct [OF assms(1) order_refl, of export "timeseries b" "metadata b"
        "record_stat (stats b) (SetPRWBufferSize 0)" x "[]"] by auto
  then show ?thesis using False assms by (simp add: flush_def Let_def)
qed

section \<open>Metadata\<close>

definition metadata_ok :: "MetricMetadata list \<Rightarrow> bool" where
  "metadata_ok ms \<longleftrightarrow> distinct (map md_MetricFamilyName ms) \<and> length ms \<le> MaxMetadataEntries"

lemma update_metadata_names:
  "update_metadata ms md = Some ms' \<Longrightarrow> map md_MetricFamilyName ms' = map md_MetricFamilyName ms"
  by (induction ms arbitrary: ms') (auto split: if_splits)

lemma update_metadata_None:
  "update_metadata ms md = None \<longleftrightarrow> md_MetricFamilyName md \<notin> md_MetricFamilyName ` set ms"
  by (induction ms) auto

lemma add_one_metadata_ok: "metadata_ok ms \<Longrightarrow> metadata_ok (add_one_metadata ms md)"
proof (cases "update_metadata ms md")
  case None
  assume "metadata_ok ms"
  with None update_metadata_None [of ms md] show ?thesis
    by (auto simp: metadata_ok_def add_one_metadata_def)
next
  case (Some ms')
  assume "metadata_ok ms"
  then show ?thesis
    using update_metadata_names [OF Some] by (simp add: metadata_ok_def add_one_metadata_def Some) (metis length_map)
qed

lemma foldl_metadata_ok: "metadata_ok ms \<Longrightarrow> metadata_ok (foldl add_one_metadata ms mds)"
  by (induction mds arbitrary: ms) (simp_all add: add_one_metadata_ok)

lemma add_series_frame:
  assumes "add_series now b req = (b', r)"
  shows "metadata b' = metadata b \<and> MaxBatchSize b' = MaxBatchSize b \<and> MaxSize b' = MaxSize b
    \<and> has_exporter b' = has_exporter b \<and> flush_signal b' = flush_signal b
    \<and> timeseries b' = timeseries b @ (case r of None \<Rightarrow> [] | Some req \<Rightarrow> req_Timeseries req)"
  using assms by (auto simp: add_series_def Let_def split: option.splits prod.splits if_splits)

lemma add_metadata_frame:
  "timeseries (add_metadata b mds) = timeseries b" "MaxBatchSize (add_metadata b mds) = MaxBatchSize b"
  "has_exporter (add_metadata b mds) = has_exporter b"
  "metadata (add_metadata b mds) = foldl add_one_metadata (metadata b) mds"
  by (simp_all add: add_metadata_def Let_def)

section \<open>Interleavings\<close>

text \<open>
  The buffer with its callers: metadata of \<open>Add\<close> calls that are between their two critical
  sections, the series accepted so far and the requests sent so far (both for the theorems only),
  and whether \<open>Start\<close> has returned.
\<close>

record 'x system =
  sys_buffer :: Buffer
  sys_exporter :: 'x
  sys_adding :: "MetricMetadata list list"
  sys_accepted :: "TimeSeries list"
  sys_sent :: "WriteRequest list"
  sys_stopped :: bool

inductive buffer_step :: "'x exporter \<Rightarrow> 'x system \<Rightarrow> 'x system \<Rightarrow> bool" for export where
  add_ignored: "add_series now (sys_buffer s) req = (b, None) \<Longrightarrow> buffer_step export s (s\<lparr>sys_buffer := b\<rparr>)"
| add_first: "add_series now (sys_buffer s) req = (b, Some r)
    \<Longrightarrow> buffer_step export s (s\<lparr>sys_buffer := b, sys_adding := sys_adding s @ [req_Metadata r],
          sys_accepted := sys_accepted s @ req_Timeseries r\<rparr>)"
| add_second: "sys_adding s = before @ mds # after
    \<Longrightarrow> buffer_step export s (s\<lparr>sys_buffer := add_metadata (sys_buffer s) mds, sys_adding := before @ after\<rparr>)"
| tick: "\<not> sys_stopped s \<Longrightarrow> flush export (sys_buffer s) (sys_exporter s) = Some (Ok (b, x, out))
    \<Longrightarrow> buffer_step export s (s\<lparr>sys_buffer := b, sys_exporter := x, sys_sent := sys_sent s @ out\<rparr>)"
| signal: "\<not> sys_stopped s \<Longrightarrow> flush_signal (sys_buffer s)
    \<Longrightarrow> flush export ((sys_buffer s)\<lparr>flush_signal := False\<rparr>) (sys_exporter s) = Some (Ok (b, x, out))
    \<Longrightarrow> buffer_step export s (s\<lparr>sys_buffer := b, sys_exporter := x, sys_sent := sys_sent s @ out\<rparr>)"
| stop: "\<not> sys_stopped s \<Longrightarrow> flush export (sys_buffer s) (sys_exporter s) = Some (Ok (b, x, out))
    \<Longrightarrow> buffer_step export s (s\<lparr>sys_buffer := b, sys_exporter := x, sys_sent := sys_sent s @ out, sys_stopped := True\<rparr>)"

definition initial_system :: "Buffer \<Rightarrow> 'x \<Rightarrow> 'x system" where
  "initial_system b x = \<lparr>sys_buffer = b, sys_exporter = x, sys_adding = [], sys_accepted = [], sys_sent = [],
     sys_stopped = False\<rparr>"

definition system_inv :: "'x system \<Rightarrow> bool" where
  "system_inv s \<longleftrightarrow> 0 < MaxBatchSize (sys_buffer s) \<and> has_exporter (sys_buffer s)
     \<and> concat (map req_Timeseries (sys_sent s)) @ timeseries (sys_buffer s) = sys_accepted s
     \<and> (\<forall>r \<in> set (sys_sent s). req_Timeseries r \<noteq> []
          \<and> int (length (req_Timeseries r)) \<le> MaxBatchSize (sys_buffer s) \<and> metadata_ok (req_Metadata r))
     \<and> metadata_ok (metadata (sys_buffer s))"

lemma metadata_ok_Nil [simp]: "metadata_ok []"
  by (simp add: metadata_ok_def)

text \<open>A flush, whatever started it, keeps the invariant.\<close>

lemma flush_keeps_inv:
  assumes "system_inv s" "flush export ((sys_buffer s)\<lparr>flush_signal := f\<rparr>) (sys_exporter s) = Some (Ok (b, x, out))"
  shows "system_inv (s\<lparr>sys_buffer := b, sys_exporter := x, sys_sent := sys_sent s @ out\<rparr>)"
proof -
  let ?b = "(sys_buffer s)\<lparr>flush_signal := f\<rparr>"
  have pre: "0 < MaxBatchSize ?b" "has_exporter ?b" using assms(1) by (simp_all add: system_inv_def)
  have b: "timeseries b = []" "metadata b = metadata (sys_buffer s)" "MaxBatchSize b = MaxBatchSize (sys_buffer s)"
    "has_exporter b" "concat (map req_Timeseries out) = timeseries (sys_buffer s)"
    "\<forall>r \<in> set out. req_Timeseries r \<noteq> [] \<and> int (length (req_Timeseries r)) \<le> MaxBatchSize (sys_buffer s)"
    "map req_Metadata out = (if out = [] then [] else metadata (sys_buffer s) # replicate (length out - 1) [])"
    using flush_correct [OF pre, of export "sys_exporter s"] assms(2) by auto
  have "req_Metadata r \<in> set (map req_Metadata out)" if "r \<in> set out" for r using that by simp
  then have "metadata_ok (req_Metadata r)" if "r \<in> set out" for r
    using that assms(1) unfolding b(7) by (fastforce simp: system_inv_def split: if_splits)
  then show ?thesis using assms(1) b by (auto simp: system_inv_def)
qed

lemma step_keeps_inv: "buffer_step export s s' \<Longrightarrow> system_inv s \<Longrightarrow> system_inv s'"
proof (induction rule: buffer_step.induct)
  case (add_ignored now s req b)
  then show ?case using add_series_frame [OF add_ignored(1)] by (simp add: system_inv_def)
next
  case (add_first now s req b r)
  then show ?case using add_series_frame [OF add_first(1)] by (auto simp: system_inv_def)
next
  case (add_second s before mds after)
  then show ?case by (simp add: system_inv_def add_metadata_frame foldl_metadata_ok)
next
  case (tick s b x out)
  then show ?case using flush_keeps_inv [of s export "flush_signal (sys_buffer s)"] by simp
next
  case (signal s b x out)
  show ?case by (rule flush_keeps_inv [OF signal(4,3)])
next
  case (stop s b x out)
  have "system_inv (s\<lparr>sys_buffer := b, sys_exporter := x, sys_sent := sys_sent s @ out\<rparr>)"
    using stop flush_keeps_inv [of s export "flush_signal (sys_buffer s)"] by simp
  then show ?case by (simp add: system_inv_def)
qed

lemma reachable_inv: "(buffer_step export)\<^sup>*\<^sup>* s s' \<Longrightarrow> system_inv s \<Longrightarrow> system_inv s'"
  by (induction rule: rtranclp_induct) (auto dest: step_keeps_inv)

lemma initial_inv:
  "0 < snd cfg \<Longrightarrow> system_inv (initial_system (NewBuffer cfg True st lim) x)"
  by (simp add: system_inv_def initial_system_def NewBuffer_def)

section \<open>Properties\<close>





text \<open>
  With \<open>MaxBatchSize\<close> 0 a flush of a non-empty buffer never returns: the loop exports empty batches for ever.
\<close>

theorem flush_zero_batch_diverges:
  assumes "MaxBatchSize b = 0" "has_exporter b" "timeseries b \<noteq> []"
  shows "flush export b x = None"
proof -
  have "batch_loop export 0 (timeseries b) md 0 st x [] = None" for md st
    using batch_loop_zero [of export 0 "timeseries b" md 0 st x "[]"] assms(3)
    by (cases "batch_loop export 0 (timeseries b) md 0 st x []") auto
  then show ?thesis using assms by (simp add: flush_def Let_def)
qed

theorem flush_zero_batch_diverges_witness:
  "flush (\<lambda>x r. (True, x)) ((NewBuffer (2, 0) True False None)\<lparr>timeseries :=
        [\<lparr>ts_Labels = [], ts_Samples = [], ts_Exemplars = [], ts_Histograms = []\<rparr>]\<rparr>) () = None"
  by (rule flush_zero_batch_diverges) (simp_all add: NewBuffer_def)

end
