(* ===== verification/Fifo.thy ===== *)
theory Fifo
  imports Prelude "HOL-Library.Sublist"
begin

text \<open>
  The contract of a queue that may lose entries but never reorders, invents or duplicates them:
  the interface between the failover queues and the code that feeds and drains them. A push
  may evict old entries or refuse the new one; a pop returns the oldest entry present. The
  client's result is proved once: over any sequence of pushes and pops, what was popped, followed by
  what is still queued, is a subsequence of what was queued and pushed.
\<close>

datatype 'x queue_op = PushOp 'x | PopOp

fun pushed :: "'x queue_op list \<Rightarrow> 'x list" where
  "pushed [] = []"
| "pushed (PushOp x # ops) = x # pushed ops"
| "pushed (PopOp # ops) = pushed ops"

fun run_queue :: "('q \<Rightarrow> 'x \<Rightarrow> 'q) \<Rightarrow> ('q \<Rightarrow> 'x option \<times> 'q) \<Rightarrow> 'q \<Rightarrow> 'x queue_op list \<Rightarrow> 'x list \<times> 'q" where
  "run_queue push pop q [] = ([], q)"
| "run_queue push pop q (PushOp x # ops) = run_queue push pop (push q x) ops"
| "run_queue push pop q (PopOp # ops) =
     (case pop q of
        (None, q) \<Rightarrow> run_queue push pop q ops
      | (Some x, q) \<Rightarrow> (case run_queue push pop q ops of (out, q) \<Rightarrow> (x # out, q)))"

locale lossy_fifo =
  fixes inv :: "'q \<Rightarrow> bool"
    and queued :: "'q \<Rightarrow> 'x list"
    and push :: "'q \<Rightarrow> 'x \<Rightarrow> 'q"
    and pop :: "'q \<Rightarrow> 'x option \<times> 'q"
  assumes push_inv: "inv q \<Longrightarrow> inv (push q x)"
    and push_subseq: "inv q \<Longrightarrow> subseq (queued (push q x)) (queued q @ [x])"
    and pop_inv: "inv q \<Longrightarrow> inv (snd (pop q))"
    and pop_empty: "inv q \<Longrightarrow> queued q = [] \<Longrightarrow> fst (pop q) = None \<and> queued (snd (pop q)) = []"
    and pop_oldest: "inv q \<Longrightarrow> queued q = x # xs \<Longrightarrow> fst (pop q) = Some x \<and> queued (snd (pop q)) = xs"
begin

lemma run_fifo:
  "inv q \<Longrightarrow> run_queue push pop q ops = (out, q')
   \<Longrightarrow> inv q' \<and> subseq (out @ queued q') (queued q @ pushed ops)"
proof (induction ops arbitrary: q out)
  case (Cons op ops)
  show ?case
  proof (cases op)
    case (PushOp x)
    have "run_queue push pop (push q x) ops = (out, q')" using Cons.prems(2) PushOp by simp
    from Cons.IH [OF push_inv [OF Cons.prems(1)] this]
    have "inv q'" "subseq (out @ queued q') (queued (push q x) @ pushed ops)" by simp_all
    moreover have "subseq (queued (push q x) @ pushed ops) ((queued q @ [x]) @ pushed ops)"
      using push_subseq [OF Cons.prems(1)] by (rule list_emb_append_mono) simp
    ultimately show ?thesis
      using PushOp subseq_order.order_trans by fastforce
  next
    case PopOp
    note i = pop_inv [OF Cons.prems(1)]
    show ?thesis
    proof (cases "queued q")
      case Nil
      obtain q1 where p: "pop q = (None, q1)" "queued q1 = []"
        using pop_empty [OF Cons.prems(1) Nil] by (cases "pop q") auto
      then show ?thesis using Cons.IH [of q1 out] Cons.prems(2) i PopOp Nil by simp
    next
      case (Cons x xs)
      obtain q1 where p: "pop q = (Some x, q1)" "queued q1 = xs"
        using pop_oldest [OF Cons.prems(1) Cons] by (cases "pop q") auto
      obtain out1 where o1: "run_queue push pop q1 ops = (out1, q')" "out = x # out1"
        using Cons.prems(2) PopOp p by (auto split: prod.splits)
      show ?thesis using Cons.IH [OF _ o1(1)] i p o1(2) PopOp Cons by simp
    qed
  qed
qed simp

end

end
