(* ===== verification/Mem_Queue.thy ===== *)
theory Mem_Queue
  imports Fifo
begin

text \<open>
  The bounded in-memory failover queue of \<open>internal/buffer/memqueue.go\<close>. An entry is a pointer to
  a generated message of which the queue only uses \<open>SizeVT\<close>, so entries are of an abstract type
  and \<open>SizeVT\<close> is a parameter (a size, hence not negative). The eviction loops are partial
  functions: \<open>None\<close> would be a loop that does not end. Compacting the slice changes its capacity
  only and is not part of the state. Byte counts are integers; they stay below \<open>maxBytes\<close>.
\<close>

section \<open>Model\<close>

record 'r MemoryQueue =
  entries :: "'r list"
  mq_bytes :: int
  maxSize :: int
  maxBytes :: int

definition NewMemoryQueue :: "int \<Rightarrow> int \<Rightarrow> 'r MemoryQueue" where
  "NewMemoryQueue msize mbytes =
     (let msize = (if msize \<le> 0 then 1000 else msize);
          mbytes = (if mbytes \<le> 0 then 256 * 1024 * 1024 else mbytes)
      in \<lparr>entries = [], mq_bytes = 0, maxSize = msize, maxBytes = mbytes\<rparr>)"

definition evictOldest :: "('r \<Rightarrow> int) \<Rightarrow> 'r MemoryQueue \<Rightarrow> 'r MemoryQueue" where
  "evictOldest SizeVT q =
     (case entries q of
        [] \<Rightarrow> q
      | evicted # rest \<Rightarrow>
          let b = mq_bytes q - SizeVT evicted;
              b = (if b < 0 then 0 else b)
          in q\<lparr>entries := rest, mq_bytes := b\<rparr>)"

partial_function (option) evict_by_count :: "('r \<Rightarrow> int) \<Rightarrow> 'r MemoryQueue \<Rightarrow> 'r MemoryQueue option" where
  "evict_by_count SizeVT q =
     (if int (length (entries q)) \<ge> maxSize q then evict_by_count SizeVT (evictOldest SizeVT q) else Some q)"

partial_function (option) evict_by_bytes ::
    "('r \<Rightarrow> int) \<Rightarrow> int \<Rightarrow> 'r MemoryQueue \<Rightarrow> 'r MemoryQueue option" where
  "evict_by_bytes SizeVT entrySize q =
     (if mq_bytes q + entrySize > maxBytes q \<and> length (entries q) > 0
      then evict_by_bytes SizeVT entrySize (evictOldest SizeVT q) else Some q)"

text \<open>\<open>Push\<close> returns the error as \<open>Inl (size, limit)\<close>.\<close>

definition Push :: "('r \<Rightarrow> int) \<Rightarrow> 'r MemoryQueue \<Rightarrow> 'r \<Rightarrow> ((int \<times> int) + 'r MemoryQueue) option" where
  "Push SizeVT q req =
     (let entrySize = SizeVT req
      in if entrySize > maxBytes q then Some (Inl (entrySize, maxBytes q))
         else case evict_by_count SizeVT q of
           None \<Rightarrow> None
         | Some q \<Rightarrow>
             (case evict_by_bytes SizeVT entrySize q of
                None \<Rightarrow> None
              | Some q \<Rightarrow> Some (Inr (q\<lparr>entries := entries q @ [req], mq_bytes := mq_bytes q + entrySize\<rparr>))))"

definition Pop :: "('r \<Rightarrow> int) \<Rightarrow> 'r MemoryQueue \<Rightarrow> 'r option \<times> 'r MemoryQueue" where
  "Pop SizeVT q =
     (case entries q of
        [] \<Rightarrow> (None, q)
      | entry # rest \<Rightarrow>
          let b = mq_bytes q - SizeVT entry;
              b = (if b < 0 then 0 else b)
          in (Some entry, q\<lparr>entries := rest, mq_bytes := b\<rparr>))"

definition Len :: "'r MemoryQueue \<Rightarrow> nat" where
  "Len q = length (entries q)"

definition mq_Size :: "'r MemoryQueue \<Rightarrow> int" where
  "mq_Size q = mq_bytes q"

section \<open>Invariant\<close>

definition total_size :: "('r \<Rightarrow> int) \<Rightarrow> 'r list \<Rightarrow> int" where
  "total_size SizeVT es = sum_list (map SizeVT es)"

definition mq_inv :: "('r \<Rightarrow> int) \<Rightarrow> 'r MemoryQueue \<Rightarrow> bool" where
  "mq_inv SizeVT q \<longleftrightarrow> 0 < maxSize q \<and> 0 < maxBytes q \<and> int (length (entries q)) \<le> maxSize q
     \<and> mq_bytes q = total_size SizeVT (entries q) \<and> mq_bytes q \<le> maxBytes q"

lemma total_simps [simp]:
  "total_size SizeVT [] = 0" "total_size SizeVT (x # xs) = SizeVT x + total_size SizeVT xs"
  "total_size SizeVT (xs @ ys) = total_size SizeVT xs + total_size SizeVT ys"
  by (simp_all add: total_size_def)

lemma total_nonneg: "(\<And>x. 0 \<le> SizeVT x) \<Longrightarrow> 0 \<le> total_size SizeVT xs"
  by (induction xs) (simp_all add: add_nonneg_nonneg)

lemma NewMemoryQueue_inv [simp]: "mq_inv SizeVT (NewMemoryQueue n b)"
  by (simp add: mq_inv_def NewMemoryQueue_def Let_def)

lemma entries_NewMemoryQueue [simp]: "entries (NewMemoryQueue n b) = []"
  by (simp add: NewMemoryQueue_def Let_def)

lemma evictOldest_drop:
  assumes "\<And>x. 0 \<le> SizeVT x" "mq_bytes q = total_size SizeVT (entries q)"
  shows "evictOldest SizeVT q = q\<lparr>entries := drop 1 (entries q), mq_bytes := total_size SizeVT (drop 1 (entries q))\<rparr>"
  using total_nonneg [of SizeVT "drop 1 (entries q)", OF assms(1)] assms(2)
  by (cases "entries q") (auto simp: evictOldest_def Let_def)

text \<open>Both loops drop the oldest entries, as few as their condition asks for.\<close>

lemma evict_by_count_drop:
  assumes "\<And>x. 0 \<le> SizeVT x" "0 < maxSize q" "mq_bytes q = total_size SizeVT (entries q)"
  shows "\<exists>k. evict_by_count SizeVT q
      = Some (q\<lparr>entries := drop k (entries q), mq_bytes := total_size SizeVT (drop k (entries q))\<rparr>)
    \<and> int (length (drop k (entries q))) < maxSize q
    \<and> (\<forall>j < k. maxSize q \<le> int (length (drop j (entries q))))"
  using assms(2,3)
proof (induction "length (entries q)" arbitrary: q)
  case 0
  then show ?case by (auto simp: evict_by_count.simps [of SizeVT q])
next
  case (Suc n)
  show ?case
  proof (cases "maxSize q \<le> int (length (entries q))")
    case False
    then show ?thesis
      using Suc.prems by (intro exI [of _ 0]) (simp add: evict_by_count.simps [of SizeVT q])
  next
    case True
    let ?q = "evictOldest SizeVT q"
    have q1: "?q = q\<lparr>entries := drop 1 (entries q), mq_bytes := total_size SizeVT (drop 1 (entries q))\<rparr>"
      using evictOldest_drop [of SizeVT q] assms(1) Suc.prems(2) by blast
    have "\<exists>k. evict_by_count SizeVT ?q
          = Some (?q\<lparr>entries := drop k (entries ?q), mq_bytes := total_size SizeVT (drop k (entries ?q))\<rparr>)
        \<and> int (length (drop k (entries ?q))) < maxSize ?q
        \<and> (\<forall>j < k. maxSize ?q \<le> int (length (drop j (entries ?q))))"
      using Suc.hyps(2) Suc.prems by (intro Suc.hyps(1)) (simp_all add: q1)
    then obtain k where k: "evict_by_count SizeVT ?q
        = Some (q\<lparr>entries := drop (Suc k) (entries q), mq_bytes := total_size SizeVT (drop (Suc k) (entries q))\<rparr>)"
        "int (length (drop (Suc k) (entries q))) < maxSize q"
        "\<And>j. j < k \<Longrightarrow> maxSize q \<le> int (length (drop (Suc j) (entries q)))"
      by (auto simp: q1)
    have "maxSize q \<le> int (length (drop j (entries q)))" if "j < Suc k" for j
      using that k(3) True by (cases j) auto
    then show ?thesis using True k(1,2) by (intro exI [of _ "Suc k"]) (simp add: evict_by_count.simps [of SizeVT q])
  qed
qed

lemma evict_by_bytes_drop:
  assumes "\<And>x. 0 \<le> SizeVT x" "s \<le> maxBytes q" "mq_bytes q = total_size SizeVT (entries q)"
  shows "\<exists>k. evict_by_bytes SizeVT s q
      = Some (q\<lparr>entries := drop k (entries q), mq_bytes := total_size SizeVT (drop k (entries q))\<rparr>)
    \<and> total_size SizeVT (drop k (entries q)) + s \<le> maxBytes q
    \<and> (\<forall>j < k. maxBytes q < total_size SizeVT (drop j (entries q)) + s)"
  using assms(2,3)
proof (induction "length (entries q)" arbitrary: q)
  case 0
  then show ?case by (intro exI [of _ 0]) (simp add: evict_by_bytes.simps [of SizeVT s q])
next
  case (Suc n)
  show ?case
  proof (cases "mq_bytes q + s > maxBytes q")
    case False
    then show ?thesis
      using Suc.prems by (intro exI [of _ 0]) (simp add: evict_by_bytes.simps [of SizeVT s q])
  next
    case True
    let ?q = "evictOldest SizeVT q"
    have q1: "?q = q\<lparr>entries := drop 1 (entries q), mq_bytes := total_size SizeVT (drop 1 (entries q))\<rparr>"
      using evictOldest_drop [of SizeVT q] assms(1) Suc.prems(2) by blast
    have "\<exists>k. evict_by_bytes SizeVT s ?q
          = Some (?q\<lparr>entries := drop k (entries ?q), mq_bytes := total_size SizeVT (drop k (entries ?q))\<rparr>)
        \<and> total_size SizeVT (drop k (entries ?q)) + s \<le> maxBytes ?q
        \<and> (\<forall>j < k. maxBytes ?q < total_size SizeVT (drop j (entries ?q)) + s)"
      using Suc.hyps(2) Suc.prems by (intro Suc.hyps(1)) (simp_all add: q1)
    then obtain k where k: "evict_by_bytes SizeVT s ?q
        = Some (q\<lparr>entries := drop (Suc k) (entries q), mq_bytes := total_size SizeVT (drop (Suc k) (entries q))\<rparr>)"
        "total_size SizeVT (drop (Suc k) (entries q)) + s \<le> maxBytes q"
        "\<And>j. j < k \<Longrightarrow> maxBytes q < total_size SizeVT (drop (Suc j) (entries q)) + s"
      by (auto simp: q1)
    have "maxBytes q < total_size SizeVT (drop j (entries q)) + s" if "j < Suc k" for j
      using that k(3) True Suc.prems(2) by (cases j) auto
    moreover have "entries q \<noteq> []" using Suc.hyps(2) by auto
    ultimately show ?thesis
      using True k(1,2) by (intro exI [of _ "Suc k"]) (simp add: evict_by_bytes.simps [of SizeVT s q])
  qed
qed


text \<open>An entry fits behind \<open>es\<close> when neither limit is exceeded with it.\<close>

definition fits :: "('r \<Rightarrow> int) \<Rightarrow> 'r MemoryQueue \<Rightarrow> 'r list \<Rightarrow> 'r \<Rightarrow> bool" where
  "fits SizeVT q es req \<longleftrightarrow> int (length es) < maxSize q \<and> total_size SizeVT es + SizeVT req \<le> maxBytes q"

lemma Push_drop:
  assumes size: "\<And>x. 0 \<le> SizeVT x" and inv: "mq_inv SizeVT q" and small: "SizeVT req \<le> maxBytes q"
  shows "\<exists>k. Push SizeVT q req = Some (Inr (q\<lparr>entries := drop k (entries q) @ [req],
        mq_bytes := total_size SizeVT (drop k (entries q) @ [req])\<rparr>))
    \<and> fits SizeVT q (drop k (entries q)) req \<and> (\<forall>j < k. \<not> fits SizeVT q (drop j (entries q)) req)"
proof -
  obtain k where k: "evict_by_count SizeVT q
      = Some (q\<lparr>entries := drop k (entries q), mq_bytes := total_size SizeVT (drop k (entries q))\<rparr>)" (is "_ = Some ?q")
      "int (length (drop k (entries q))) < maxSize q" "\<And>j. j < k \<Longrightarrow> maxSize q \<le> int (length (drop j (entries q)))"
    using evict_by_count_drop [of SizeVT q, OF size] inv by (auto simp: mq_inv_def)
  obtain m where m: "evict_by_bytes SizeVT (SizeVT req) ?q = Some (?q\<lparr>entries := drop m (entries ?q),
        mq_bytes := total_size SizeVT (drop m (entries ?q))\<rparr>)"
      "total_size SizeVT (drop m (entries ?q)) + SizeVT req \<le> maxBytes q"
      "\<And>j. j < m \<Longrightarrow> maxBytes q < total_size SizeVT (drop j (entries ?q)) + SizeVT req"
    using evict_by_bytes_drop [of SizeVT "SizeVT req" ?q, OF size] small by auto
  have "\<not> fits SizeVT q (drop j (entries q)) req" if "j < m + k" for j
  proof (cases "j < k")
    case True
    then show ?thesis using k(3) by (auto simp: fits_def not_less)
  next
    case False
    then have "maxBytes q < total_size SizeVT (drop j (entries q)) + SizeVT req"
      using m(3) [of "j - k"] that by simp
    then show ?thesis by (simp add: fits_def)
  qed
  moreover have "fits SizeVT q (drop (m + k) (entries q)) req"
    using k(2) m(2) by (simp add: fits_def)
  moreover have "Push SizeVT q req = Some (Inr (q\<lparr>entries := drop (m + k) (entries q) @ [req],
        mq_bytes := total_size SizeVT (drop (m + k) (entries q) @ [req])\<rparr>))"
    using small k(1) m(1) by (simp add: Push_def Let_def)
  ultimately show ?thesis by blast
qed

lemma Push_inv:
  assumes "\<And>x. 0 \<le> SizeVT x" "mq_inv SizeVT q" "Push SizeVT q req = Some (Inr q')"
  shows "mq_inv SizeVT q'"
proof -
  have "SizeVT req \<le> maxBytes q" using assms(3) by (auto simp: Push_def Let_def split: if_splits)
  then obtain k where "q' = q\<lparr>entries := drop k (entries q) @ [req],
        mq_bytes := total_size SizeVT (drop k (entries q) @ [req])\<rparr>" "fits SizeVT q (drop k (entries q)) req"
    using Push_drop [OF assms(1,2)] assms(3) by fastforce
  then show ?thesis using assms(2) by (simp add: mq_inv_def fits_def)
qed

lemma Pop_cases:
  assumes "\<And>x. 0 \<le> SizeVT x" "mq_inv SizeVT q"
  shows "mq_inv SizeVT (snd (Pop SizeVT q)) \<and> fst (Pop SizeVT q) = (case entries q of [] \<Rightarrow> None | x # _ \<Rightarrow> Some x)
    \<and> entries (snd (Pop SizeVT q)) = tl (entries q)"
proof (cases "entries q")
  case (Cons x xs)
  have "0 \<le> total_size SizeVT xs" "0 \<le> SizeVT x" using assms(1) total_nonneg by blast+
  then show ?thesis using assms(2) by (auto simp: Pop_def Cons mq_inv_def Let_def)
qed (use assms in \<open>simp add: Pop_def\<close>)

text \<open>A caller that ignores the error of \<open>Push\<close>: the queue stays as it was.\<close>

definition push_or_keep :: "('r \<Rightarrow> int) \<Rightarrow> 'r MemoryQueue \<Rightarrow> 'r \<Rightarrow> 'r MemoryQueue" where
  "push_or_keep SizeVT q req = (case Push SizeVT q req of Some (Inr q') \<Rightarrow> q' | _ \<Rightarrow> q)"

lemma push_or_keep_cases:
  assumes "\<And>x. 0 \<le> SizeVT x" "mq_inv SizeVT q"
  obtains "push_or_keep SizeVT q req = q"
  | k q' where "Push SizeVT q req = Some (Inr q')" "push_or_keep SizeVT q req = q'" "mq_inv SizeVT q'"
      "entries q' = drop k (entries q) @ [req]"
proof (cases "SizeVT req \<le> maxBytes q")
  case True
  then obtain k q' where "Push SizeVT q req = Some (Inr q')" "entries q' = drop k (entries q) @ [req]"
    using Push_drop [OF assms True] by auto
  then show thesis using that(2) Push_inv [OF assms] by (auto simp: push_or_keep_def)
next
  case False
  then show thesis using that(1) by (simp add: push_or_keep_def Push_def)
qed

text \<open>Sizes are a parameter, so the contract is interpreted for sizes taken as naturals.\<close>

lemma subseq_drop_snoc: "subseq (drop k xs @ [x]) (xs @ [x])"
  by (rule list_emb_append_mono) (simp_all add: suffix_imp_subseq suffix_drop)

interpretation mem_queue: lossy_fifo "mq_inv (\<lambda>x. int (size_of x))" entries
    "push_or_keep (\<lambda>x. int (size_of x))" "Pop (\<lambda>x. int (size_of x))" for size_of :: "'r \<Rightarrow> nat"
proof unfold_locales
  let ?s = "\<lambda>x. int (size_of x)"
  have s: "\<And>x. 0 \<le> ?s x" by simp
  fix q :: "'r MemoryQueue" and x :: 'r assume i: "mq_inv ?s q"
  show "mq_inv ?s (push_or_keep ?s q x)"
    by (rule push_or_keep_cases [OF s i, of x]) (use i in auto)
  show "subseq (entries (push_or_keep ?s q x)) (entries q @ [x])"
    by (rule push_or_keep_cases [OF s i, of x]) (auto simp: subseq_drop_snoc)
  show "mq_inv ?s (snd (Pop ?s q))" using Pop_cases [OF s i] by simp
  show "fst (Pop ?s q) = None \<and> entries (snd (Pop ?s q)) = []" if "entries q = []"
    using Pop_cases [OF s i] that by simp
  show "fst (Pop ?s q) = Some x \<and> entries (snd (Pop ?s q)) = xs" if "entries q = x # xs" for xs
    using Pop_cases [OF s i] that by simp
qed

section \<open>Properties\<close>

text \<open>
  \<open>Push\<close> always returns and evicts as little as possible. For an entry no larger than \<open>maxBytes\<close> the
  eviction loops end, and the new content is the old one without its \<open>k\<close> oldest entries followed
  by the new entry, where \<open>k\<close> is the least number for which both the count and the byte limit hold;
  a larger entry is refused with an error.
\<close>

theorem Push_evicts_minimally:
  assumes "\<And>x. 0 \<le> SizeVT x" "mq_inv SizeVT q"
  shows "if maxBytes q < SizeVT req then Push SizeVT q req = Some (Inl (SizeVT req, maxBytes q))
    else \<exists>k q'. Push SizeVT q req = Some (Inr q') \<and> mq_inv SizeVT q' \<and> entries q' = drop k (entries q) @ [req]
      \<and> (\<forall>j < k. \<not> (int (length (drop j (entries q))) < maxSize q
            \<and> total_size SizeVT (drop j (entries q)) + SizeVT req \<le> maxBytes q))"
proof (cases "maxBytes q < SizeVT req")
  case False
  then obtain k where k: "Push SizeVT q req = Some (Inr (q\<lparr>entries := drop k (entries q) @ [req],
        mq_bytes := total_size SizeVT (drop k (entries q) @ [req])\<rparr>))"
      "\<forall>j < k. \<not> fits SizeVT q (drop j (entries q)) req"
    using Push_drop [OF assms, of req] by auto
  then show ?thesis
    using False Push_inv [OF assms k(1)] by (intro if_not_P [THEN iffD2]) (auto simp: fits_def intro!: exI [of _ k])
qed (simp add: Push_def)

theorem Push_evicts_minimally_witness:
  "\<exists>k q'. Push (\<lambda>x. 4) \<lparr>entries = [1, 2 :: nat], mq_bytes = 8, maxSize = 5, maxBytes = 10\<rparr> 3 = Some (Inr q')
     \<and> mq_inv (\<lambda>x. 4) q' \<and> entries q' = drop k [1, 2] @ [3]"
  using Push_evicts_minimally [of "\<lambda>x. 4" "\<lparr>entries = [1, 2 :: nat], mq_bytes = 8, maxSize = 5, maxBytes = 10\<rparr>" 3]
  by (auto simp: mq_inv_def)

text \<open>
  The failover queue is a bounded first-in-first-out queue: over any sequence of pushes and pops on a new
  queue, what is popped, followed by what is left, is a subsequence of what was pushed, in
  the same order; and the count and byte limits hold at the end.
\<close>

theorem mem_queue_fifo:
  assumes "run_queue (push_or_keep (\<lambda>x. int (size_of x))) (Pop (\<lambda>x. int (size_of x))) (NewMemoryQueue n b) ops = (out, q')"
  shows "subseq (out @ entries q') (pushed ops) \<and> int (Len q') \<le> maxSize q'
    \<and> mq_Size q' = total_size (\<lambda>x. int (size_of x)) (entries q') \<and> mq_Size q' \<le> maxBytes q'"
  using mem_queue.run_fifo [OF NewMemoryQueue_inv assms] by (simp add: mq_inv_def Len_def mq_Size_def)

theorem mem_queue_fifo_witness:
  "\<exists>out q'. run_queue (push_or_keep (\<lambda>x. int (id x))) (Pop (\<lambda>x. int (id x))) (NewMemoryQueue 2 10)
       [PushOp 4, PushOp 5, PopOp, PushOp 6] = (out, q')
     \<and> subseq (out @ entries q') [4, 5, 6]"
  using mem_queue_fifo [of id 2 10 "[PushOp 4, PushOp 5, PopOp, PushOp 6]"]
  by (metis pushed.simps surj_pair)

end
