(* ===== verification/Batch_Splitter.thy ===== *)
theory Batch_Splitter
  imports Prelude
begin

text \<open>
  Splitting a batch by its serialised size: \<open>internal/buffer/splitter.go\<close>. An element is a pointer to a
  generated message of which only \<open>SizeVT\<close> is used, so elements are abstract and \<open>SizeVT\<close> is a
  parameter. The result also counts the splits and the times the depth limit was hit, which
  the source reports as \<open>batchSplitsTotal\<close> and \<open>batchSplitDepthExceededTotal\<close>.
\<close>

section \<open>Model\<close>

definition defaultMaxSplitDepth :: nat where
  "defaultMaxSplitDepth = 4"

record split_counters =
  splits :: nat
  depth_exceeded :: nat

definition add_counters :: "split_counters \<Rightarrow> split_counters \<Rightarrow> split_counters" where
  "add_counters a b = \<lparr>splits = splits a + splits b, depth_exceeded = depth_exceeded a + depth_exceeded b\<rparr>"

definition no_counters :: split_counters where
  "no_counters = \<lparr>splits = 0, depth_exceeded = 0\<rparr>"

definition sum_sizes :: "int list \<Rightarrow> int" where
  "sum_sizes sizes = foldl (+) 0 sizes"

function splitWithCachedSizes ::
    "'r list \<Rightarrow> int list \<Rightarrow> int \<Rightarrow> nat \<Rightarrow> 'r list list \<times> split_counters" where
  "splitWithCachedSizes batch sizes maxBytes depth =
     (if length batch \<le> 1 then ([batch], no_counters)
      else if sum_sizes sizes \<le> maxBytes then ([batch], no_counters)
      else if depth \<ge> defaultMaxSplitDepth then ([batch], no_counters\<lparr>depth_exceeded := 1\<rparr>)
      else
        let mid = length batch div 2;
            (left, cl) = splitWithCachedSizes (take mid batch) (take mid sizes) maxBytes (depth + 1);
            (right, cr) = splitWithCachedSizes (drop mid batch) (drop mid sizes) maxBytes (depth + 1)
        in (left @ right, add_counters (no_counters\<lparr>splits := 1\<rparr>) (add_counters cl cr)))"
  by pat_completeness auto
termination
  by (relation "measure (\<lambda>(batch, sizes, maxBytes, depth). defaultMaxSplitDepth - depth)") auto

declare splitWithCachedSizes.simps [simp del]

definition splitByBytes :: "('r \<Rightarrow> int) \<Rightarrow> 'r list \<Rightarrow> int \<Rightarrow> 'r list list \<times> split_counters" where
  "splitByBytes SizeVT batch maxBytes =
     (if maxBytes \<le> 0 \<or> length batch \<le> 1 then ([batch], no_counters)
      else
        let sizes = map SizeVT batch
        in if sum_sizes sizes \<le> maxBytes then ([batch], no_counters)
           else splitWithCachedSizes batch sizes maxBytes 0)"

definition splitByBytesWithDepth ::
    "('r \<Rightarrow> int) \<Rightarrow> 'r list \<Rightarrow> int \<Rightarrow> nat \<Rightarrow> 'r list list \<times> split_counters" where
  "splitByBytesWithDepth SizeVT batch maxBytes depth =
     (if maxBytes \<le> 0 \<or> length batch \<le> 1 then ([batch], no_counters)
      else splitWithCachedSizes batch (map SizeVT batch) maxBytes depth)"

definition estimateBatchSize :: "('r \<Rightarrow> int) \<Rightarrow> 'r list \<Rightarrow> int" where
  "estimateBatchSize SizeVT batch = foldl (\<lambda>size rm. size + SizeVT rm) 0 batch"

section \<open>The recursion\<close>

lemma estimate_sum_sizes: "estimateBatchSize SizeVT batch = sum_sizes (map SizeVT batch)"
proof -
  have "foldl (\<lambda>size rm. size + SizeVT rm) n batch = foldl (+) n (map SizeVT batch)" for n
    by (induction batch arbitrary: n) simp_all
  then show ?thesis by (simp add: estimateBatchSize_def sum_sizes_def)
qed

lemma splitWithCachedSizes_induct_step:
  "splitWithCachedSizes batch sizes maxBytes depth =
     (if length batch \<le> 1 \<or> sum_sizes sizes \<le> maxBytes then ([batch], no_counters)
      else if depth \<ge> defaultMaxSplitDepth then ([batch], no_counters\<lparr>depth_exceeded := 1\<rparr>)
      else
        let mid = length batch div 2;
            l = splitWithCachedSizes (take mid batch) (take mid sizes) maxBytes (depth + 1);
            r = splitWithCachedSizes (drop mid batch) (drop mid sizes) maxBytes (depth + 1)
        in (fst l @ fst r, add_counters (no_counters\<lparr>splits := 1\<rparr>) (add_counters (snd l) (snd r))))"
  by (subst splitWithCachedSizes.simps) (simp add: Let_def split_beta)

text \<open>
  What holds of the parts made at a given depth: they partition the batch in order, there are at
  most \<open>2 ^ (4 - depth)\<close>, and each fits, or is a single element, or is what the depth limit leaves.
\<close>

definition good_split :: "('r \<Rightarrow> int) \<Rightarrow> int \<Rightarrow> nat \<Rightarrow> 'r list \<Rightarrow> 'r list list \<Rightarrow> bool" where
  "good_split SizeVT maxBytes depth batch parts \<longleftrightarrow>
     concat parts = batch \<and> length parts \<le> 2 ^ (defaultMaxSplitDepth - depth) \<and>
     (batch \<noteq> [] \<longrightarrow> (\<forall>p \<in> set parts. p \<noteq> [])) \<and>
     (\<forall>p \<in> set parts. estimateBatchSize SizeVT p \<le> maxBytes \<or> length p \<le> 1
        \<or> length p * 2 ^ (defaultMaxSplitDepth - depth) < length batch + 2 ^ (defaultMaxSplitDepth - depth))"

lemma split_half_bound:
  fixes n h :: nat
  assumes "len * 2 ^ m < h + 2 ^ m" "h \<le> (n + 1) div 2"
  shows "len * 2 ^ Suc m < n + 2 ^ Suc m"
proof -
  have "2 * h \<le> n + 1" using assms(2) by simp
  moreover have "len * 2 ^ m \<le> h + 2 ^ m - 1" using assms(1) by simp
  moreover have "(1 :: nat) \<le> 2 ^ m" by simp
  moreover have "len * 2 ^ Suc m = 2 * (len * 2 ^ m)" "(2 :: nat) ^ Suc m = 2 * 2 ^ m" by simp_all
  ultimately show ?thesis by linarith
qed

lemma splitWithCachedSizes_good:
  assumes "sizes = map SizeVT batch"
  shows "good_split SizeVT maxBytes depth batch (fst (splitWithCachedSizes batch sizes maxBytes depth))"
  using assms
proof (induction batch sizes maxBytes depth rule: splitWithCachedSizes.induct)
  case (1 batch sizes maxBytes depth)
  show ?case
  proof (cases "length batch \<le> 1 \<or> sum_sizes sizes \<le> maxBytes \<or> depth \<ge> defaultMaxSplitDepth")
    case True
    then have "fst (splitWithCachedSizes batch sizes maxBytes depth) = [batch]"
      by (subst splitWithCachedSizes_induct_step) auto
    then show ?thesis
      using True "1.prems" by (auto simp: good_split_def estimate_sum_sizes)
  next
    case False
    define mid where "mid = length batch div 2"
    define m where "m = defaultMaxSplitDepth - (depth + 1)"
    let ?l = "fst (splitWithCachedSizes (take mid batch) (take mid sizes) maxBytes (depth + 1))"
    let ?r = "fst (splitWithCachedSizes (drop mid batch) (drop mid sizes) maxBytes (depth + 1))"
    have m: "defaultMaxSplitDepth - depth = Suc m" using False by (simp add: m_def Suc_diff_Suc)
    have parts: "fst (splitWithCachedSizes batch sizes maxBytes depth) = ?l @ ?r"
      using False by (subst splitWithCachedSizes_induct_step) (simp add: Let_def mid_def)
    have l: "good_split SizeVT maxBytes (depth + 1) (take mid batch) ?l"
      by (rule "1.IH"(1) [OF _ _ _ mid_def]) (use False "1.prems" in \<open>auto simp: take_map\<close>)
    have r: "good_split SizeVT maxBytes (depth + 1) (drop mid batch) ?r"
      by (rule "1.IH"(2) [OF _ _ _ mid_def refl prod.collapse])
         (use False "1.prems" in \<open>auto simp: drop_map\<close>)
    have half: "length (take mid batch) \<le> (length batch + 1) div 2" "length (drop mid batch) \<le> (length batch + 1) div 2"
      "take mid batch \<noteq> []" "drop mid batch \<noteq> []"
      using False by (auto simp: mid_def)
    have bound: "length p * 2 ^ Suc m < length batch + 2 ^ Suc m"
      if "length p * 2 ^ m < length (take mid batch) + 2 ^ m \<or> length p * 2 ^ m < length (drop mid batch) + 2 ^ m" for p :: "'a list"
      using that split_half_bound half(1,2) by blast
    show ?thesis
      using l r half(3,4) bound unfolding good_split_def parts m m_def [symmetric] by auto
  qed
qed

lemma splitWithCachedSizes_count:
  "length (fst (splitWithCachedSizes batch sizes maxBytes depth))
     = splits (snd (splitWithCachedSizes batch sizes maxBytes depth)) + 1"
proof (induction batch sizes maxBytes depth rule: splitWithCachedSizes.induct)
  case (1 batch sizes maxBytes depth)
  show ?case
  proof (cases "length batch \<le> 1 \<or> sum_sizes sizes \<le> maxBytes \<or> depth \<ge> defaultMaxSplitDepth")
    case True
    then show ?thesis by (subst (1 2) splitWithCachedSizes_induct_step) (auto simp: no_counters_def)
  next
    case False
    define mid where "mid = length batch div 2"
    have "length (fst (splitWithCachedSizes (take mid batch) (take mid sizes) maxBytes (depth + 1)))
        = splits (snd (splitWithCachedSizes (take mid batch) (take mid sizes) maxBytes (depth + 1))) + 1"
      by (rule "1.IH"(1) [OF _ _ _ mid_def]) (use False in auto)
    moreover have "length (fst (splitWithCachedSizes (drop mid batch) (drop mid sizes) maxBytes (depth + 1)))
        = splits (snd (splitWithCachedSizes (drop mid batch) (drop mid sizes) maxBytes (depth + 1))) + 1"
      by (rule "1.IH"(2) [OF _ _ _ mid_def refl prod.collapse]) (use False in auto)
    ultimately show ?thesis
      using False by (subst (1 2) splitWithCachedSizes_induct_step)
        (simp add: Let_def mid_def [symmetric] add_counters_def no_counters_def)
  qed
qed

lemma splitByBytes_good:
  assumes "maxBytes > 0"
  shows "good_split SizeVT maxBytes 0 batch (fst (splitByBytes SizeVT batch maxBytes))"
proof (cases "length batch \<le> 1 \<or> sum_sizes (map SizeVT batch) \<le> maxBytes")
  case True
  then have "fst (splitByBytes SizeVT batch maxBytes) = [batch]"
    using assms by (auto simp: splitByBytes_def Let_def)
  then show ?thesis using True by (auto simp: good_split_def estimate_sum_sizes)
next
  case False
  then show ?thesis
    using assms splitWithCachedSizes_good [of "map SizeVT batch" SizeVT batch maxBytes 0]
    by (simp add: splitByBytes_def Let_def)
qed

section \<open>Properties\<close>

text \<open>
  Splitting by size loses nothing and is bounded. For every batch and limit, \<open>splitByBytes\<close> returns the batch
  cut into consecutive parts (their concatenation is the batch), at most 16 of them, one more
  than the splits it counts; with splitting enabled each part fits the limit, or is a
  single element, or is one of the at most \<open>\<lceil>n / 16\<rceil>\<close>-element parts left by the depth limit.
\<close>

theorem splitByBytes_correct:
  shows "concat (fst (splitByBytes SizeVT batch maxBytes)) = batch
    \<and> length (fst (splitByBytes SizeVT batch maxBytes)) \<le> 16
    \<and> length (fst (splitByBytes SizeVT batch maxBytes)) = splits (snd (splitByBytes SizeVT batch maxBytes)) + 1
    \<and> (maxBytes > 0 \<longrightarrow> (\<forall>p \<in> set (fst (splitByBytes SizeVT batch maxBytes)).
         estimateBatchSize SizeVT p \<le> maxBytes \<or> length p \<le> 1 \<or> length p * 16 < length batch + 16))"
proof -
  have "length (fst (splitByBytes SizeVT batch maxBytes)) = splits (snd (splitByBytes SizeVT batch maxBytes)) + 1"
    by (simp add: splitByBytes_def Let_def splitWithCachedSizes_count no_counters_def)
  moreover have "maxBytes \<le> 0 \<Longrightarrow> fst (splitByBytes SizeVT batch maxBytes) = [batch]"
    by (simp add: splitByBytes_def)
  ultimately show ?thesis
    using splitByBytes_good [of maxBytes SizeVT batch]
    by (cases "maxBytes > 0") (auto simp: good_split_def defaultMaxSplitDepth_def)
qed

theorem splitByBytes_correct_witness:
  "(0 :: int) < 6 \<and> concat (fst (splitByBytes (\<lambda>x. 3) [1, 2, 3, 4 :: nat] 6)) = [1, 2, 3, 4]
    \<and> list_all (\<lambda>p. estimateBatchSize (\<lambda>x. 3) p \<le> 6 \<or> length p \<le> 1 \<or> length p * 16 < 20)
         (fst (splitByBytes (\<lambda>x. 3) [1, 2, 3, 4 :: nat] 6))"
  using splitByBytes_correct [of "\<lambda>x. 3" "[1, 2, 3, 4 :: nat]" 6] by (simp add: list_all_iff)

text \<open>
  The retained \<open>splitByBytesWithDepth\<close> starting at depth 0 gives the same parts as \<open>splitByBytes\<close>.
\<close>

theorem splitByBytesWithDepth_eq: "splitByBytesWithDepth SizeVT batch maxBytes 0 = splitByBytes SizeVT batch maxBytes"
  by (simp add: splitByBytesWithDepth_def splitByBytes_def Let_def
      splitWithCachedSizes.simps [of batch "map SizeVT batch" maxBytes 0])

end
