(* ===== verification/Chunk_Files.thy ===== *)
theory Chunk_Files
  imports Prelude
begin

text \<open>
  The files the persistent queue works on, as the operating system presents them: a directory of
  chunk files (named by their start offset, which the hexadecimal file name encodes), their contents,
  and open files with a position and the append flag. Two users of one open file share its
  position, a write moves it, and a write in append mode goes to the end of the file first.
  A removed file stays readable through an open file. \<open>full\<close> says whether the disk has space:
  a write either stores all bytes or fails with \<open>ENOSPC\<close>; no other I/O error is modelled.
  On top of it \<open>bufio.Writer\<close> with its sticky error.
\<close>

section \<open>Files\<close>

type_synonym fd = nat

record ofile =
  of_inode :: nat
  of_pos :: nat
  of_append :: bool

record fsys =
  dir :: "(nat \<times> nat) list"
  inodes :: "nat \<Rightarrow> bytes"
  next_inode :: nat
  ofiles :: "fd \<Rightarrow> ofile option"
  next_fd :: nat

definition empty_fsys :: fsys where
  "empty_fsys = \<lparr>dir = [], inodes = (\<lambda>_. []), next_inode = 0, ofiles = (\<lambda>_. None), next_fd = 0\<rparr>"

text \<open>\<open>os.OpenFile\<close> with \<open>O_RDWR|O_CREATE\<close>, in append mode or not: an existing file needs no space.\<close>

definition os_open_create :: "bool \<Rightarrow> fsys \<Rightarrow> nat \<Rightarrow> bool \<Rightarrow> (fd \<times> fsys) option" where
  "os_open_create full fs name app =
     (case map_of (dir fs) name of
        Some ino \<Rightarrow>
          Some (next_fd fs, fs\<lparr>ofiles := (ofiles fs)(next_fd fs \<mapsto> \<lparr>of_inode = ino, of_pos = 0, of_append = app\<rparr>),
                              next_fd := next_fd fs + 1\<rparr>)
      | None \<Rightarrow>
          if full then None
          else Some (next_fd fs, fs\<lparr>dir := (name, next_inode fs) # dir fs, inodes := (inodes fs)(next_inode fs := []),
                 next_inode := next_inode fs + 1,
                 ofiles := (ofiles fs)(next_fd fs \<mapsto> \<lparr>of_inode = next_inode fs, of_pos = 0, of_append = app\<rparr>),
                 next_fd := next_fd fs + 1\<rparr>))"

text \<open>\<open>os.OpenFile\<close> with \<open>O_RDONLY\<close>; \<open>None\<close> is \<open>os.IsNotExist\<close>.\<close>

definition os_open_read :: "fsys \<Rightarrow> nat \<Rightarrow> (fd \<times> fsys) option" where
  "os_open_read fs name =
     (case map_of (dir fs) name of
        None \<Rightarrow> None
      | Some ino \<Rightarrow>
          Some (next_fd fs, fs\<lparr>ofiles := (ofiles fs)(next_fd fs \<mapsto> \<lparr>of_inode = ino, of_pos = 0, of_append = False\<rparr>),
                              next_fd := next_fd fs + 1\<rparr>))"

definition os_close :: "fsys \<Rightarrow> fd \<Rightarrow> fsys" where
  "os_close fs d = fs\<lparr>ofiles := (ofiles fs)(d := None)\<rparr>"

definition os_seek :: "fsys \<Rightarrow> fd \<Rightarrow> nat \<Rightarrow> fsys" where
  "os_seek fs d pos = fs\<lparr>ofiles := (ofiles fs)(d := map_option (\<lambda>f. f\<lparr>of_pos := pos\<rparr>) (ofiles fs d))\<rparr>"

text \<open>Overwriting part of a file; a hole before the position reads as zeros.\<close>

definition splice :: "bytes \<Rightarrow> nat \<Rightarrow> bytes \<Rightarrow> bytes" where
  "splice content pos p =
     take pos content @ replicate (pos - length content) 0 @ p @ drop (pos + length p) content"

definition os_write :: "bool \<Rightarrow> fsys \<Rightarrow> fd \<Rightarrow> bytes \<Rightarrow> fsys option" where
  "os_write full fs d p =
     (if full then None
      else case ofiles fs d of
        None \<Rightarrow> None
      | Some f \<Rightarrow>
          let content = inodes fs (of_inode f);
              pos = (if of_append f then length content else of_pos f)
          in Some (fs\<lparr>inodes := (inodes fs)(of_inode f := splice content pos p),
                      ofiles := (ofiles fs)(d \<mapsto> f\<lparr>of_pos := pos + length p\<rparr>)\<rparr>))"

datatype read_result = ReadOk bytes | ReadEOF | ReadUnexpectedEOF | ReadClosed

text \<open>\<open>io.ReadFull\<close> of \<open>n\<close> bytes.\<close>

definition os_read_full :: "fsys \<Rightarrow> fd \<Rightarrow> nat \<Rightarrow> read_result \<times> fsys" where
  "os_read_full fs d n =
     (case ofiles fs d of
        None \<Rightarrow> (ReadClosed, fs)
      | Some f \<Rightarrow>
          let avail = drop (of_pos f) (inodes fs (of_inode f))
          in if length avail \<ge> n then
               (ReadOk (take n avail), fs\<lparr>ofiles := (ofiles fs)(d \<mapsto> f\<lparr>of_pos := of_pos f + n\<rparr>)\<rparr>)
             else if avail = [] then (ReadEOF, fs)
             else (ReadUnexpectedEOF, fs\<lparr>ofiles := (ofiles fs)(d \<mapsto> f\<lparr>of_pos := of_pos f + length avail\<rparr>)\<rparr>))"

definition os_remove_if :: "(nat \<Rightarrow> bool) \<Rightarrow> fsys \<Rightarrow> fsys" where
  "os_remove_if P fs = fs\<lparr>dir := filter (\<lambda>(name, ino). \<not> P name) (dir fs)\<rparr>"

section \<open>Buffered writer\<close>

record bufw =
  wb_fd :: fd
  wb_buf :: bytes
  wb_size :: nat
  wb_err :: bool

definition bufio_NewWriterSize :: "fd \<Rightarrow> nat \<Rightarrow> bufw" where
  "bufio_NewWriterSize d n = \<lparr>wb_fd = d, wb_buf = [], wb_size = n, wb_err = False\<rparr>"

text \<open>Each operation answers whether it succeeded.\<close>

definition bufio_Flush :: "bool \<Rightarrow> fsys \<Rightarrow> bufw \<Rightarrow> bool \<times> fsys \<times> bufw" where
  "bufio_Flush full fs w =
     (if wb_err w then (False, fs, w)
      else if wb_buf w = [] then (True, fs, w)
      else case os_write full fs (wb_fd w) (wb_buf w) of
        None \<Rightarrow> (False, fs, w\<lparr>wb_err := True\<rparr>)
      | Some fs \<Rightarrow> (True, fs, w\<lparr>wb_buf := []\<rparr>))"

text \<open>
  What does not fit: with an empty buffer the bytes are written directly; otherwise the buffer is
  filled and flushed first, after which the rest fits or is written directly.
\<close>

definition bufio_rest :: "bool \<Rightarrow> fsys \<Rightarrow> bufw \<Rightarrow> bytes \<Rightarrow> bool \<times> fsys \<times> bufw" where
  "bufio_rest full fs w p =
     (if length p \<le> wb_size w then (True, fs, w\<lparr>wb_buf := p\<rparr>)
      else case os_write full fs (wb_fd w) p of
        None \<Rightarrow> (False, fs, w\<lparr>wb_err := True\<rparr>)
      | Some fs \<Rightarrow> (True, fs, w))"

definition bufio_Write :: "bool \<Rightarrow> fsys \<Rightarrow> bufw \<Rightarrow> bytes \<Rightarrow> bool \<times> fsys \<times> bufw" where
  "bufio_Write full fs w p =
     (if wb_err w then (False, fs, w)
      else
        let avail = wb_size w - length (wb_buf w)
        in if length p \<le> avail then (True, fs, w\<lparr>wb_buf := wb_buf w @ p\<rparr>)
           else if wb_buf w = [] then bufio_rest full fs w p
           else case bufio_Flush full fs (w\<lparr>wb_buf := wb_buf w @ take avail p\<rparr>) of
             (ok, fs, w) \<Rightarrow> if ok then bufio_rest full fs w (drop avail p) else (False, fs, w))"

section \<open>Reading and writing one append-only file\<close>

text \<open>
  The logical content behind a buffered writer: what is in the file, then what is still
  in the buffer. In append mode, or when the position is at the end, writing extends it.
\<close>

definition logical :: "fsys \<Rightarrow> bufw \<Rightarrow> nat \<Rightarrow> bytes" where
  "logical fs w ino = inodes fs ino @ wb_buf w"

definition appends_to :: "fsys \<Rightarrow> bufw \<Rightarrow> nat \<Rightarrow> bool" where
  "appends_to fs w ino \<longleftrightarrow> \<not> wb_err w \<and> 0 < wb_size w \<and> length (wb_buf w) \<le> wb_size w \<and>
     (\<exists>f. ofiles fs (wb_fd w) = Some f \<and> of_inode f = ino \<and> (of_append f \<or> of_pos f = length (inodes fs ino)))"

text \<open>What a write through this writer leaves alone.\<close>

definition same_but :: "fsys \<Rightarrow> fsys \<Rightarrow> fd \<Rightarrow> nat \<Rightarrow> bool" where
  "same_but fs fs' d ino \<longleftrightarrow> dir fs' = dir fs \<and> next_inode fs' = next_inode fs \<and> next_fd fs' = next_fd fs
     \<and> (\<forall>i. i \<noteq> ino \<longrightarrow> inodes fs' i = inodes fs i) \<and> (\<forall>e. e \<noteq> d \<longrightarrow> ofiles fs' e = ofiles fs e)
     \<and> map_option (\<lambda>f. (of_inode f, of_append f)) (ofiles fs' d) = map_option (\<lambda>f. (of_inode f, of_append f)) (ofiles fs d)"

lemma same_but_refl [simp]: "same_but fs fs d ino"
  by (simp add: same_but_def)

lemma same_but_trans: "same_but fs fs1 d ino \<Longrightarrow> same_but fs1 fs2 d ino \<Longrightarrow> same_but fs fs2 d ino"
  by (simp add: same_but_def)

lemma splice_end [simp]: "splice content (length content) p = content @ p"
  by (simp add: splice_def)

lemma os_write_append:
  assumes "ofiles fs d = Some f" "of_append f \<or> of_pos f = length (inodes fs (of_inode f))"
  shows "\<exists>fs' f'. os_write False fs d p = Some fs' \<and> same_but fs fs' d (of_inode f)
    \<and> inodes fs' (of_inode f) = inodes fs (of_inode f) @ p
    \<and> ofiles fs' d = Some f' \<and> of_inode f' = of_inode f \<and> of_append f' = of_append f
    \<and> of_pos f' = length (inodes fs' (of_inode f))"
  using assms by (auto simp: os_write_def Let_def same_but_def)

lemma bufio_Flush_appends:
  assumes "appends_to fs w ino"
  shows "\<exists>fs' w'. bufio_Flush False fs w = (True, fs', w') \<and> appends_to fs' w' ino \<and> wb_buf w' = []
    \<and> wb_fd w' = wb_fd w \<and> wb_size w' = wb_size w
    \<and> inodes fs' ino = logical fs w ino \<and> same_but fs fs' (wb_fd w) ino \<and> (wb_buf w = [] \<longrightarrow> fs' = fs)"
proof -
  obtain f where f: "ofiles fs (wb_fd w) = Some f" "of_inode f = ino"
      "of_append f \<or> of_pos f = length (inodes fs (of_inode f))"
    using assms by (auto simp: appends_to_def)
  show ?thesis
  proof (cases "wb_buf w = []")
    case True
    then show ?thesis using assms by (simp add: bufio_Flush_def appends_to_def logical_def)
  next
    case False
    obtain fs' f' where w: "os_write False fs (wb_fd w) (wb_buf w) = Some fs'" "same_but fs fs' (wb_fd w) ino"
        "inodes fs' ino = inodes fs ino @ wb_buf w" "ofiles fs' (wb_fd w) = Some f'" "of_inode f' = ino"
        "of_pos f' = length (inodes fs' ino)"
      using os_write_append [OF f(1,3), of "wb_buf w"] f(2) by auto
    then show ?thesis
      using assms False by (intro exI [of _ fs'] exI [of _ "w\<lparr>wb_buf := []\<rparr>"])
        (simp add: bufio_Flush_def appends_to_def logical_def)
  qed
qed

lemma bufio_rest_appends:
  assumes "appends_to fs w ino" "wb_buf w = []"
  shows "\<exists>fs' w'. bufio_rest False fs w p = (True, fs', w') \<and> appends_to fs' w' ino
    \<and> wb_fd w' = wb_fd w \<and> wb_size w' = wb_size w
    \<and> logical fs' w' ino = inodes fs ino @ p \<and> same_but fs fs' (wb_fd w) ino"
proof (cases "length p \<le> wb_size w")
  case True
  then show ?thesis using assms by (simp add: bufio_rest_def appends_to_def logical_def)
next
  case False
  obtain f where f: "ofiles fs (wb_fd w) = Some f" "of_inode f = ino"
      "of_append f \<or> of_pos f = length (inodes fs (of_inode f))"
    using assms by (auto simp: appends_to_def)
  obtain fs' f' where "os_write False fs (wb_fd w) p = Some fs'" "same_but fs fs' (wb_fd w) ino"
      "inodes fs' ino = inodes fs ino @ p" "ofiles fs' (wb_fd w) = Some f'" "of_inode f' = ino"
      "of_pos f' = length (inodes fs' ino)"
    using os_write_append [OF f(1,3), of p] f(2) by auto
  then show ?thesis using assms False by (simp add: bufio_rest_def appends_to_def logical_def)
qed

lemma bufio_Write_appends:
  assumes "appends_to fs w ino"
  shows "\<exists>fs' w'. bufio_Write False fs w p = (True, fs', w') \<and> appends_to fs' w' ino
    \<and> wb_fd w' = wb_fd w \<and> wb_size w' = wb_size w
    \<and> logical fs' w' ino = logical fs w ino @ p \<and> same_but fs fs' (wb_fd w) ino"
proof -
  let ?avail = "wb_size w - length (wb_buf w)"
  have err: "\<not> wb_err w" using assms by (simp add: appends_to_def)
  consider "length p \<le> ?avail" | "?avail < length p" "wb_buf w = []" | "?avail < length p" "wb_buf w \<noteq> []"
    by linarith
  then show ?thesis
  proof cases
    case 1
    then show ?thesis using assms by (simp add: bufio_Write_def appends_to_def logical_def le_diff_conv2)
  next
    case 2
    then show ?thesis
      using bufio_rest_appends [OF assms 2(2), of p] err by (simp add: bufio_Write_def logical_def)
  next
    case 3
    let ?w = "w\<lparr>wb_buf := wb_buf w @ take ?avail p\<rparr>"
    have "appends_to fs ?w ino" using assms by (auto simp: appends_to_def)
    from bufio_Flush_appends [OF this]
    obtain fs1 w1 where f: "bufio_Flush False fs ?w = (True, fs1, w1)" "appends_to fs1 w1 ino" "wb_buf w1 = []"
        "wb_fd w1 = wb_fd w" "wb_size w1 = wb_size w"
        "inodes fs1 ino = logical fs w ino @ take ?avail p" "same_but fs fs1 (wb_fd w) ino"
      by (auto simp: logical_def)
    from bufio_rest_appends [OF f(2,3), of "drop ?avail p"]
    obtain fs2 w2 where r: "bufio_rest False fs1 w1 (drop ?avail p) = (True, fs2, w2)" "appends_to fs2 w2 ino"
        "wb_fd w2 = wb_fd w" "wb_size w2 = wb_size w" "logical fs2 w2 ino = inodes fs1 ino @ drop ?avail p"
        "same_but fs1 fs2 (wb_fd w) ino"
      using f(4,5) by auto
    then show ?thesis
      using 3 err f same_but_trans [OF f(7) r(6)] by (simp add: bufio_Write_def Let_def)
  qed
qed

lemma os_read_full_at:
  assumes "ofiles fs d = Some f" "drop (of_pos f) (inodes fs (of_inode f)) = p @ rest"
  shows "os_read_full fs d (length p)
    = (ReadOk p, fs\<lparr>ofiles := (ofiles fs)(d \<mapsto> f\<lparr>of_pos := of_pos f + length p\<rparr>)\<rparr>)"
  using assms by (simp add: os_read_full_def)

end
