(* ===== verification/Fast_Queue.thy ===== *)
theory Fast_Queue
  imports Chunk_Files Wire
begin

text \<open>
  The persistent queue of \<open>internal/queue/fastqueue.go\<close>: a bounded channel of blocks in front of
  chunk files on disk. The model keeps what the code keeps: the channel, the offsets, the two
  open files (which may be one and the same, with one shared position), the buffered writer, the
  counters, and the metadata file. Block compression is third-party code: the parameters \<open>enc\<close>
  and \<open>dec\<close> (\<open>dec\<close> stands for \<open>s2.Decode\<close> on non-empty blocks, where the slice it
  returns is never nil). Each operation is one atomic step. Offsets are naturals; metrics are left out.
\<close>

section \<open>Data\<close>

definition blockHeaderSize :: nat where "blockHeaderSize = 8"
definition compressionFlagBit :: u64 where "compressionFlagBit = push_bit 63 1"
definition lengthMask :: u64 where "lengthMask = NOT (push_bit 62 3)"

definition defaultInmemoryBlocks :: int where "defaultInmemoryBlocks = 2048"
definition defaultChunkFileSize :: int where "defaultChunkFileSize = 512 * 1024 * 1024"
definition defaultWriteBufferSize :: int where "defaultWriteBufferSize = 262144"

datatype fq_error =
    ErrQueueClosed
  | ErrQueueFull
  | ErrDiskFull
  | ErrNoSpace
  | ErrEOF
  | ErrUnexpectedEOF
  | ErrFileClosed
  | ErrDecompress
  | ErrWrapped string fq_error

definition TypeSnappy :: string where "TypeSnappy = ''snappy''"

record FastQueueConfig =
  MaxInmemoryBlocks :: int
  ChunkFileSize :: int
  cfg_MaxSize :: int
  cfg_MaxBytes :: int
  WriteBufferSize :: int
  Compression :: string

abbreviation Compression_Snappy :: "FastQueueConfig \<Rightarrow> bool" where
  "Compression_Snappy c \<equiv> Compression c = TypeSnappy"

record fastqueueMeta =
  ReaderOffset :: nat
  WriterOffset :: nat
  EntryCount :: int
  TotalBytes :: int

record FastQueue =
  cfg :: FastQueueConfig
  ch :: "bytes list"
  inmemoryBytes :: int
  writerChunk :: "fd option"
  writerBuf :: "bufw option"
  writerOffset :: nat
  readerChunk :: "fd option"
  readerOffset :: nat
  pendingBytes :: int
  activeCount :: int
  totalBytes :: int
  diskBytes :: int
  metaDirty :: bool
  closed :: bool
  fs :: fsys
  meta_file :: "fastqueueMeta option"

abbreviation chunk_size :: "FastQueue \<Rightarrow> nat" where
  "chunk_size q \<equiv> nat (ChunkFileSize (cfg q))"

section \<open>Writing blocks\<close>

text \<open>The name of the chunk file an offset falls into, and the next chunk boundary.\<close>

definition chunkPath :: "FastQueue \<Rightarrow> nat \<Rightarrow> nat" where
  "chunkPath q offset = (offset div chunk_size q) * chunk_size q"

definition chunk_end :: "FastQueue \<Rightarrow> nat \<Rightarrow> nat" where
  "chunk_end q offset = ((offset div chunk_size q) + 1) * chunk_size q"

definition block_bytes :: "(bytes \<Rightarrow> bytes) \<Rightarrow> FastQueue \<Rightarrow> bytes \<Rightarrow> bytes" where
  "block_bytes enc q data = (if Compression_Snappy (cfg q) then enc data else data)"

definition lengthField :: "FastQueue \<Rightarrow> bytes \<Rightarrow> u64" where
  "lengthField q writeData =
     (if Compression_Snappy (cfg q) then word_of_nat (length writeData) OR compressionFlagBit
      else word_of_nat (length writeData))"

definition flush_writer :: "bool \<Rightarrow> FastQueue \<Rightarrow> bool \<times> FastQueue" where
  "flush_writer full q =
     (case writerBuf q of
        None \<Rightarrow> (True, q)
      | Some w \<Rightarrow> (case bufio_Flush full (fs q) w of (ok, f, w) \<Rightarrow> (ok, q\<lparr>fs := f, writerBuf := Some w\<rparr>)))"

text \<open>Rotation to a new chunk when the block does not fit in the current one.\<close>

definition rotate_chunk :: "bool \<Rightarrow> FastQueue \<Rightarrow> nat \<Rightarrow> fq_error option \<times> FastQueue" where
  "rotate_chunk full q len =
     (case writerChunk q of
        None \<Rightarrow> (None, q)
      | Some wfd \<Rightarrow>
          let chunkOffset = writerOffset q mod chunk_size q
          in if chunkOffset + (blockHeaderSize + len) > chunk_size q then
               (case flush_writer full q of
                  (False, q) \<Rightarrow> (Some ErrNoSpace, q)
                | (True, q) \<Rightarrow>
                    let q = (if readerChunk q \<noteq> writerChunk q then q\<lparr>fs := os_close (fs q) wfd\<rparr> else q)
                    in (None, q\<lparr>writerChunk := None, writerBuf := None, writerOffset := chunk_end q (writerOffset q)\<rparr>))
             else (None, q))"

definition open_writer :: "bool \<Rightarrow> FastQueue \<Rightarrow> fq_error option \<times> FastQueue" where
  "open_writer full q =
     (case writerChunk q of
        Some _ \<Rightarrow> (None, q)
      | None \<Rightarrow>
          (case os_open_create full (fs q) (chunkPath q (writerOffset q)) True of
             None \<Rightarrow> (Some ErrDiskFull, q)
           | Some (d, f) \<Rightarrow>
               (None, q\<lparr>fs := f, writerChunk := Some d,
                        writerBuf := Some (bufio_NewWriterSize d (nat (WriteBufferSize (cfg q))))\<rparr>)))"

definition buffered_write :: "bool \<Rightarrow> FastQueue \<Rightarrow> bytes \<Rightarrow> fq_error option \<times> FastQueue" where
  "buffered_write full q p =
     (case writerBuf q of
        None \<Rightarrow> (Some ErrFileClosed, q)
      | Some w \<Rightarrow>
          (case bufio_Write full (fs q) w p of
             (ok, f, w) \<Rightarrow> (if ok then None else Some ErrDiskFull, q\<lparr>fs := f, writerBuf := Some w\<rparr>)))"

definition writeBlockToDiskLocked ::
    "(bytes \<Rightarrow> bytes) \<Rightarrow> bool \<Rightarrow> FastQueue \<Rightarrow> bytes \<Rightarrow> fq_error option \<times> FastQueue" where
  "writeBlockToDiskLocked enc full q data =
     (let writeData = block_bytes enc q data;
          field = lengthField q writeData
      in case rotate_chunk full q (length writeData) of
           (Some e, q) \<Rightarrow> (Some e, q)
         | (None, q) \<Rightarrow>
       (case open_writer full q of
           (Some e, q) \<Rightarrow> (Some e, q)
         | (None, q) \<Rightarrow>
       (case buffered_write full q (le_bytes blockHeaderSize field) of
           (Some e, q) \<Rightarrow> (Some e, q)
         | (None, q) \<Rightarrow>
       (case buffered_write full q writeData of
           (Some e, q) \<Rightarrow> (Some e, q)
         | (None, q) \<Rightarrow>
             (None, q\<lparr>writerOffset := writerOffset q + (blockHeaderSize + length writeData),
                      pendingBytes := pendingBytes q + int (blockHeaderSize + length writeData),
                      diskBytes := diskBytes q + int (blockHeaderSize + length writeData),
                      metaDirty := True\<rparr>)))))"

text \<open>The channel is emptied first; if writing fails half-way the remaining blocks are gone.\<close>

fun write_blocks :: "(bytes \<Rightarrow> bytes) \<Rightarrow> bool \<Rightarrow> FastQueue \<Rightarrow> bytes list \<Rightarrow> fq_error option \<times> FastQueue" where
  "write_blocks enc full q [] = (None, q)"
| "write_blocks enc full q (b # bs) =
     (case writeBlockToDiskLocked enc full q b of
        (Some e, q) \<Rightarrow> (Some e, q)
      | (None, q) \<Rightarrow> write_blocks enc full q bs)"

definition drainChannelToDiskLocked :: "(bytes \<Rightarrow> bytes) \<Rightarrow> bool \<Rightarrow> FastQueue \<Rightarrow> fq_error option \<times> FastQueue" where
  "drainChannelToDiskLocked enc full q =
     (let blocks = ch q;
          q = q\<lparr>ch := [], inmemoryBytes := foldl (\<lambda>n b. n - int (length b)) (inmemoryBytes q) blocks\<rparr>
      in if length blocks = 0 then (None, q) else write_blocks enc full q blocks)"

definition flushInmemoryBlocksLocked :: "(bytes \<Rightarrow> bytes) \<Rightarrow> bool \<Rightarrow> FastQueue \<Rightarrow> fq_error option \<times> FastQueue" where
  "flushInmemoryBlocksLocked enc full q =
     (case drainChannelToDiskLocked enc full q of
        (Some e, q) \<Rightarrow> (Some e, q)
      | (None, q) \<Rightarrow> (case flush_writer full q of (ok, q) \<Rightarrow> (if ok then None else Some ErrNoSpace, q)))"

section \<open>Push\<close>

definition fq_Push :: "(bytes \<Rightarrow> bytes) \<Rightarrow> bool \<Rightarrow> FastQueue \<Rightarrow> bytes \<Rightarrow> fq_error option \<times> FastQueue" where
  "fq_Push enc full q data =
     (if closed q then (Some ErrQueueClosed, q)
      else if cfg_MaxSize (cfg q) > 0 \<and> activeCount q \<ge> cfg_MaxSize (cfg q) then (Some ErrQueueFull, q)
      else if cfg_MaxBytes (cfg q) > 0 \<and> totalBytes q + int (length data) > cfg_MaxBytes (cfg q) then (Some ErrQueueFull, q)
      else if int (length (ch q)) < MaxInmemoryBlocks (cfg q) then
        (None, q\<lparr>ch := ch q @ [data], inmemoryBytes := inmemoryBytes q + int (length data),
                 activeCount := activeCount q + 1, totalBytes := totalBytes q + int (length data)\<rparr>)
      else
        (case drainChannelToDiskLocked enc full q of
           (Some e, q) \<Rightarrow> (Some (ErrWrapped ''failed to drain in-memory blocks'' e), q)
         | (None, q) \<Rightarrow>
             (case writeBlockToDiskLocked enc full q data of
                (Some e, q) \<Rightarrow> (Some (ErrWrapped ''failed to write block to disk'' e), q)
              | (None, q) \<Rightarrow>
                  (None, q\<lparr>activeCount := activeCount q + 1, totalBytes := totalBytes q + int (length data)\<rparr>))))"

section \<open>Reading blocks\<close>

datatype 'a attempt = Done 'a | Retry

definition read_error :: "read_result \<Rightarrow> fq_error" where
  "read_error r = (case r of ReadEOF \<Rightarrow> ErrEOF | ReadUnexpectedEOF \<Rightarrow> ErrUnexpectedEOF | _ \<Rightarrow> ErrFileClosed)"

text \<open>Closing the reader's file unless the writer uses the same one.\<close>

definition drop_reader :: "FastQueue \<Rightarrow> FastQueue" where
  "drop_reader q =
     (case readerChunk q of
        None \<Rightarrow> q
      | Some d \<Rightarrow>
          (if readerChunk q \<noteq> writerChunk q then q\<lparr>fs := os_close (fs q) d\<rparr> else q)\<lparr>readerChunk := None\<rparr>)"

text \<open>Opening the reader's file, shared with the writer when both are in the same chunk.\<close>

definition open_reader :: "FastQueue \<Rightarrow> fd option \<times> FastQueue" where
  "open_reader q =
     (case readerChunk q of
        Some d \<Rightarrow> (Some d, q)
      | None \<Rightarrow>
          if writerChunk q \<noteq> None \<and> chunkPath q (readerOffset q) = chunkPath q (writerOffset q) then
            (writerChunk q, q\<lparr>readerChunk := writerChunk q,
               fs := os_seek (fs q) (the (writerChunk q)) (readerOffset q mod chunk_size q)\<rparr>)
          else case os_open_read (fs q) (chunkPath q (readerOffset q)) of
            None \<Rightarrow> (None, q)
          | Some (d, f) \<Rightarrow>
              (Some d, q\<lparr>readerChunk := Some d, fs := os_seek f d (readerOffset q mod chunk_size q)\<rparr>))"

definition decode_block :: "(bytes \<Rightarrow> bytes option) \<Rightarrow> u64 \<Rightarrow> bytes \<Rightarrow> fq_error + bytes" where
  "decode_block dec field data =
     (if field AND compressionFlagBit \<noteq> 0 then
        (case dec data of None \<Rightarrow> Inl ErrDecompress | Some d \<Rightarrow> Inr d)
      else Inr data)"

definition read_attempt :: "(bytes \<Rightarrow> bytes option) \<Rightarrow> bool \<Rightarrow> FastQueue \<Rightarrow> (fq_error + bytes) attempt \<times> FastQueue" where
  "read_attempt dec full q =
     (if readerOffset q \<ge> writerOffset q then (Done (Inl ErrEOF), q)
      else case flush_writer full q of
        (False, q) \<Rightarrow> (Done (Inl ErrNoSpace), q)
      | (True, q) \<Rightarrow>
      (let q = (if readerOffset q \<ge> chunk_end q (readerOffset q)
                then (drop_reader q)\<lparr>readerOffset := chunk_end q (readerOffset q)\<rparr> else q)
       in case open_reader q of
        (None, q) \<Rightarrow> (Done (Inl ErrEOF), q)
      | (Some d, q) \<Rightarrow>
      (case os_read_full (fs q) d blockHeaderSize of
        (ReadOk header, f) \<Rightarrow>
          let q = q\<lparr>fs := f\<rparr>;
              field = le_uint64 header;
              dataLen = unat (field AND lengthMask)
          in (case os_read_full (fs q) d dataLen of
                (ReadOk data, f) \<Rightarrow>
                  (Done (decode_block dec field data),
                   q\<lparr>fs := f, readerOffset := readerOffset q + (blockHeaderSize + dataLen),
                     pendingBytes := pendingBytes q - int (blockHeaderSize + dataLen), metaDirty := True\<rparr>)
              | (r, f) \<Rightarrow> (Done (Inl (read_error r)), q\<lparr>fs := f\<rparr>))
      | (ReadClosed, f) \<Rightarrow> (Done (Inl ErrFileClosed), q\<lparr>fs := f\<rparr>)
      | (_, f) \<Rightarrow>
          let q = q\<lparr>fs := f\<rparr>
          in if readerOffset q < writerOffset q \<and> readerOffset q < chunk_end q (readerOffset q) then
               (Retry, (drop_reader q)\<lparr>readerOffset := chunk_end q (readerOffset q)\<rparr>)
             else (Done (Inl ErrEOF), q))))"

lemma flush_writer_frame [simp]:
  "readerOffset (snd (flush_writer full q)) = readerOffset q"
  "writerOffset (snd (flush_writer full q)) = writerOffset q"
  "cfg (snd (flush_writer full q)) = cfg q"
  by (auto simp: flush_writer_def split: option.splits prod.splits)

lemma chunk_end_update [simp]:
  "chunk_end (q\<lparr>fs := f\<rparr>) n = chunk_end q n" "chunkPath (q\<lparr>fs := f\<rparr>) n = chunkPath q n"
  by (simp_all add: chunk_end_def chunkPath_def)

lemma drop_reader_frame [simp]:
  "readerOffset (drop_reader q) = readerOffset q" "writerOffset (drop_reader q) = writerOffset q"
  "cfg (drop_reader q) = cfg q"
  by (simp_all add: drop_reader_def split: option.splits)

lemma open_reader_frame:
  "open_reader q = (r, q') \<Longrightarrow> readerOffset q' = readerOffset q \<and> writerOffset q' = writerOffset q \<and> cfg q' = cfg q"
  by (auto simp: open_reader_def split: option.splits if_splits)

lemma read_attempt_Retry:
  assumes "read_attempt dec full q = (Retry, q')"
  shows "readerOffset q < readerOffset q' \<and> readerOffset q < writerOffset q \<and> writerOffset q' = writerOffset q"
proof -
  obtain q1 where f: "flush_writer full q = (True, q1)" and lt: "readerOffset q < writerOffset q"
    using assms by (auto simp: read_attempt_def split: if_splits prod.splits bool.splits)
  have q1: "readerOffset q1 = readerOffset q" "writerOffset q1 = writerOffset q"
    using flush_writer_frame [of full q] f by simp_all
  define q2 where "q2 = (if readerOffset q1 \<ge> chunk_end q1 (readerOffset q1)
      then (drop_reader q1)\<lparr>readerOffset := chunk_end q1 (readerOffset q1)\<rparr> else q1)"
  obtain r q3 where o3: "open_reader q2 = (r, q3)" by fastforce
  show ?thesis
  proof (cases "readerOffset q1 \<ge> chunk_end q1 (readerOffset q1)")
    case False
    then have "q2 = q1" by (simp add: q2_def)
    then have q3: "readerOffset q3 = readerOffset q" "writerOffset q3 = writerOffset q"
      using open_reader_frame [OF o3] q1 by simp_all
    show ?thesis
      using assms lt f o3 q3 unfolding read_attempt_def
      by (auto simp: q2_def [symmetric] Let_def split: option.splits prod.splits read_result.splits if_splits)
  next
    case True
    then have "chunk_size q1 = 0"
      using dividend_less_div_times [of "chunk_size q1" "readerOffset q1"]
      by (cases "chunk_size q1 = 0") (auto simp: chunk_end_def algebra_simps)
    have "cfg q3 = cfg q1" using open_reader_frame [OF o3] by (auto simp: q2_def)
    with \<open>chunk_size q1 = 0\<close> have "chunk_end q3 n = 0" for n by (simp add: chunk_end_def)
    then show ?thesis
      using assms lt f o3 unfolding read_attempt_def
      by (auto simp: q2_def [symmetric] Let_def split: option.splits prod.splits read_result.splits if_splits)
  qed
qed

function readBlockFromDiskLocked ::
    "(bytes \<Rightarrow> bytes option) \<Rightarrow> bool \<Rightarrow> FastQueue \<Rightarrow> (fq_error + bytes) \<times> FastQueue" where
  "readBlockFromDiskLocked dec full q =
     (case read_attempt dec full q of
        (Done r, q) \<Rightarrow> (r, q)
      | (Retry, q) \<Rightarrow> readBlockFromDiskLocked dec full q)"
  by pat_completeness auto
termination
  by (relation "measure (\<lambda>(dec, full, q). writerOffset q - readerOffset q)")
     (auto dest!: read_attempt_Retry [OF sym])

declare readBlockFromDiskLocked.simps [simp del]

text \<open>Removing the chunk files before the reader's chunk.\<close>

definition cleanupConsumedChunksLocked :: "FastQueue \<Rightarrow> FastQueue" where
  "cleanupConsumedChunksLocked q =
     (let readerChunkStart = chunkPath q (readerOffset q)
      in q\<lparr>fs := os_remove_if (\<lambda>chunkStart. chunkStart + chunk_size q \<le> readerChunkStart) (fs q)\<rparr>)"

definition pop_channel :: "FastQueue \<Rightarrow> (fq_error + bytes option) \<times> FastQueue" where
  "pop_channel q =
     (case ch q of
        [] \<Rightarrow> (Inr None, q)
      | b # bs \<Rightarrow>
          (Inr (Some b), q\<lparr>ch := bs, inmemoryBytes := inmemoryBytes q - int (length b),
             activeCount := activeCount q - 1, totalBytes := totalBytes q - int (length b)\<rparr>))"

definition fq_Pop :: "(bytes \<Rightarrow> bytes option) \<Rightarrow> bool \<Rightarrow> FastQueue \<Rightarrow> (fq_error + bytes option) \<times> FastQueue" where
  "fq_Pop dec full q =
     (if closed q then (Inl ErrQueueClosed, q)
      else if readerOffset q < writerOffset q then
        let offsetBefore = readerOffset q
        in case readBlockFromDiskLocked dec full q of
             (Inl e, q) \<Rightarrow> if e \<noteq> ErrEOF then (Inl e, q) else pop_channel q
           | (Inr data, q) \<Rightarrow>
               (Inr (Some data), cleanupConsumedChunksLocked
                  (q\<lparr>activeCount := activeCount q - 1, totalBytes := totalBytes q - int (length data),
                     diskBytes := diskBytes q - (int (readerOffset q) - int offsetBefore)\<rparr>))
      else pop_channel q)"

section \<open>Peek\<close>

text \<open>Peeking seeks and reads in the reader's own file when there is one; it does not flush the writer.\<close>

definition peek_file :: "FastQueue \<Rightarrow> fd option \<times> bool \<times> FastQueue" where
  "peek_file q =
     (case readerChunk q of
        Some d \<Rightarrow> (Some d, False, q)
      | None \<Rightarrow>
          (case os_open_read (fs q) (chunkPath q (readerOffset q)) of
             None \<Rightarrow> (None, False, q)
           | Some (d, f) \<Rightarrow> (Some d, True, q\<lparr>fs := f\<rparr>)))"

definition peekBlockFromDiskLocked :: "(bytes \<Rightarrow> bytes option) \<Rightarrow> FastQueue \<Rightarrow> (fq_error + bytes) \<times> FastQueue" where
  "peekBlockFromDiskLocked dec q =
     (if readerOffset q \<ge> writerOffset q then (Inl ErrEOF, q)
      else case peek_file q of
        (None, _, q) \<Rightarrow> (Inl ErrEOF, q)
      | (Some d, temporary, q) \<Rightarrow>
          (let q = q\<lparr>fs := os_seek (fs q) d (readerOffset q mod chunk_size q)\<rparr>;
               done_with = (\<lambda>f. if temporary then os_close f d else f)
           in case os_read_full (fs q) d blockHeaderSize of
                (ReadOk header, f) \<Rightarrow>
                  let field = le_uint64 header;
                      dataLen = unat (field AND lengthMask)
                  in (case os_read_full f d dataLen of
                        (ReadOk data, f) \<Rightarrow> (decode_block dec field data, q\<lparr>fs := done_with f\<rparr>)
                      | (r, f) \<Rightarrow> (Inl (read_error r), q\<lparr>fs := done_with f\<rparr>))
              | (ReadClosed, f) \<Rightarrow> (Inl ErrFileClosed, q\<lparr>fs := done_with f\<rparr>)
              | (_, f) \<Rightarrow> (Inl ErrEOF, q\<lparr>fs := done_with f\<rparr>)))"

definition peek_channel :: "(bytes \<Rightarrow> bytes) \<Rightarrow> bool \<Rightarrow> FastQueue \<Rightarrow> (fq_error + bytes option) \<times> FastQueue" where
  "peek_channel enc full q =
     (case ch q of
        [] \<Rightarrow> (Inr None, q)
      | b # bs \<Rightarrow>
          let q = q\<lparr>ch := bs\<rparr>
          in if int (length bs) < MaxInmemoryBlocks (cfg q) then (Inr (Some b), q\<lparr>ch := bs @ [b]\<rparr>)
             else case writeBlockToDiskLocked enc full q b of
               (Some e, q) \<Rightarrow> (Inl e, q)
             | (None, q) \<Rightarrow> (Inr (Some b), q\<lparr>inmemoryBytes := inmemoryBytes q - int (length b)\<rparr>))"

definition fq_Peek ::
    "(bytes \<Rightarrow> bytes) \<Rightarrow> (bytes \<Rightarrow> bytes option) \<Rightarrow> bool \<Rightarrow> FastQueue \<Rightarrow> (fq_error + bytes option) \<times> FastQueue" where
  "fq_Peek enc dec full q =
     (if closed q then (Inl ErrQueueClosed, q)
      else if readerOffset q < writerOffset q then
        (case peekBlockFromDiskLocked dec q of
           (Inl e, q) \<Rightarrow> if e \<noteq> ErrEOF then (Inl e, q) else peek_channel enc full q
         | (Inr data, q) \<Rightarrow> (Inr (Some data), q))
      else peek_channel enc full q)"

definition fq_Len :: "FastQueue \<Rightarrow> int" where
  "fq_Len q = activeCount q"

definition fq_Size :: "FastQueue \<Rightarrow> int" where
  "fq_Size q = totalBytes q"

section \<open>Metadata, closing, background work\<close>

definition syncMetadataLocked :: "bool \<Rightarrow> FastQueue \<Rightarrow> fq_error option \<times> FastQueue" where
  "syncMetadataLocked full q =
     (if full then (Some ErrNoSpace, q)
      else (None, q\<lparr>meta_file := Some \<lparr>ReaderOffset = readerOffset q, WriterOffset = writerOffset q,
                                     EntryCount = activeCount q, TotalBytes = totalBytes q\<rparr>\<rparr>))"

definition close_file :: "fd option \<Rightarrow> FastQueue \<Rightarrow> FastQueue" where
  "close_file d q = (case d of None \<Rightarrow> q | Some d \<Rightarrow> q\<lparr>fs := os_close (fs q) d\<rparr>)"

text \<open>\<open>Close\<close> answers the errors it collected.\<close>

definition fq_Close :: "(bytes \<Rightarrow> bytes) \<Rightarrow> bool \<Rightarrow> FastQueue \<Rightarrow> fq_error list \<times> FastQueue" where
  "fq_Close enc full q =
     (if closed q then ([], q)
      else
        let q = q\<lparr>closed := True\<rparr>;
            (e1, q) = flushInmemoryBlocksLocked enc full q;
            (e2, q) = syncMetadataLocked full q;
            (ok, q) = flush_writer full q;
            q = close_file (writerChunk q) q;
            q = (if readerChunk q \<noteq> writerChunk q then close_file (readerChunk q) q else q)
        in (List.map_filter id [e1, e2, if ok then None else Some ErrNoSpace], q))"

text \<open>One tick of each background loop; \<open>stale\<close> says whether the last block write is old enough.\<close>

definition metaSyncTick :: "bool \<Rightarrow> FastQueue \<Rightarrow> FastQueue" where
  "metaSyncTick full q =
     (if \<not> metaDirty q then q
      else if closed q then q
      else case syncMetadataLocked full q of
        (None, q) \<Rightarrow> q\<lparr>metaDirty := False\<rparr>
      | (Some _, q) \<Rightarrow> q)"

definition staleFlushTick :: "(bytes \<Rightarrow> bytes) \<Rightarrow> bool \<Rightarrow> bool \<Rightarrow> FastQueue \<Rightarrow> FastQueue" where
  "staleFlushTick enc full stale q =
     (if closed q then q
      else if length (ch q) > 0 \<and> stale then snd (flushInmemoryBlocksLocked enc full q)
      else snd (flush_writer full q))"

definition GetChunkFiles :: "FastQueue \<Rightarrow> nat list" where
  "GetChunkFiles q = sort (map fst (dir (fs q)))"

section \<open>Recovery\<close>

text \<open>
  The scan of legacy metadata: the inner loop over one chunk's content, then the outer loop, which
  starts over at the same offset when the inner loop stopped at the end of the file.
\<close>

function count_chunk :: "bytes \<Rightarrow> nat \<Rightarrow> nat \<Rightarrow> nat \<Rightarrow> nat \<Rightarrow> nat \<Rightarrow> fq_error + nat \<times> nat \<times> nat" where
  "count_chunk content pos offset chunkEnd cnt tot =
     (if offset < chunkEnd then
        let avail = drop pos content
        in if avail = [] then Inr (offset, cnt, tot)
           else if length avail < 8 then Inl ErrUnexpectedEOF
           else
             let dataLen = unat (le_uint64 (take 8 avail) AND lengthMask)
             in count_chunk content (pos + 8 + dataLen) (offset + blockHeaderSize + dataLen) chunkEnd
                  (cnt + 1) (tot + dataLen)
      else Inr (offset, cnt, tot))"
  by pat_completeness auto
termination
  by (relation "measure (\<lambda>(content, pos, offset, chunkEnd, cnt, tot). length content - pos)") auto

declare count_chunk.simps [simp del]

partial_function (option) count_entries ::
    "FastQueue \<Rightarrow> nat \<Rightarrow> nat \<Rightarrow> nat \<Rightarrow> (fq_error + nat \<times> nat) option" where
  "count_entries q offset cnt tot =
     (if offset < writerOffset q then
        (case map_of (dir (fs q)) (chunkPath q offset) of
           None \<Rightarrow> count_entries q (chunk_end q offset) cnt tot
         | Some ino \<Rightarrow>
             (case count_chunk (inodes (fs q) ino) (offset mod chunk_size q) offset
                     (min (chunk_end q offset) (writerOffset q)) cnt tot of
                Inl e \<Rightarrow> Some (Inl e)
              | Inr (offset, cnt, tot) \<Rightarrow> count_entries q offset cnt tot))
      else Some (Inr (cnt, tot)))"

definition countEntriesOnDisk :: "FastQueue \<Rightarrow> (fq_error + nat \<times> nat) option" where
  "countEntriesOnDisk q =
     (if readerOffset q \<ge> writerOffset q then Some (Inr (0, 0)) else count_entries q (readerOffset q) 0 0)"

definition cleanupAllChunks :: "FastQueue \<Rightarrow> FastQueue" where
  "cleanupAllChunks q = q\<lparr>fs := os_remove_if (\<lambda>_. True) (fs q), meta_file := None\<rparr>"

definition cleanupOrphanedChunks :: "FastQueue \<Rightarrow> FastQueue" where
  "cleanupOrphanedChunks q =
     (let readerChunkStart = chunkPath q (readerOffset q);
          writerChunkStart = chunkPath q (writerOffset q)
      in q\<lparr>fs := os_remove_if (\<lambda>chunkStart. chunkStart + chunk_size q \<le> readerChunkStart
                                  \<or> chunkStart > writerChunkStart) (fs q)\<rparr>)"

text \<open>The counts; \<open>timed_out\<close> says whether the scan took longer than the recovery timeout.\<close>

definition recover_counts :: "bool \<Rightarrow> FastQueue \<Rightarrow> fastqueueMeta \<Rightarrow> fq_error option \<times> FastQueue" where
  "recover_counts timed_out q meta =
     (if writerOffset q > readerOffset q then
        let pending = int (writerOffset q) - int (readerOffset q);
            q = q\<lparr>pendingBytes := pending, diskBytes := pending\<rparr>
        in if EntryCount meta > 0 \<and> TotalBytes meta > 0 then
             (None, q\<lparr>activeCount := EntryCount meta, totalBytes := TotalBytes meta\<rparr>)
           else
             (let scan = countEntriesOnDisk q
              in if timed_out \<or> scan = None then
                   (None, cleanupAllChunks (q\<lparr>readerOffset := 0, writerOffset := 0, pendingBytes := 0, diskBytes := 0,
                      activeCount := 0, totalBytes := 0\<rparr>))
                 else case the scan of
                   Inl e \<Rightarrow> (Some (ErrWrapped ''failed to count entries'' e), q)
                 | Inr (cnt, tot) \<Rightarrow> (None, q\<lparr>activeCount := int cnt, totalBytes := int tot\<rparr>))
      else (None, q))"

text \<open>The writer's chunk is opened without append mode and positioned; the reader may share it.\<close>

definition recover_files :: "bool \<Rightarrow> FastQueue \<Rightarrow> fq_error option \<times> FastQueue" where
  "recover_files full q =
     (let opened =
        (if writerOffset q > 0 then
           (case os_open_create full (fs q) (chunkPath q (writerOffset q)) False of
              None \<Rightarrow> Inl (ErrWrapped ''failed to open writer chunk'' ErrNoSpace)
            | Some (d, f) \<Rightarrow>
                Inr (q\<lparr>writerChunk := Some d,
                       writerBuf := Some (bufio_NewWriterSize d (nat (WriteBufferSize (cfg q)))),
                       fs := os_seek f d (writerOffset q mod chunk_size q)\<rparr>))
         else Inr q)
      in case opened of
           Inl e \<Rightarrow> (Some e, q)
         | Inr q \<Rightarrow>
             if readerOffset q < writerOffset q then
               (if chunkPath q (readerOffset q) = chunkPath q (writerOffset q) then
                  (None, q\<lparr>readerChunk := writerChunk q,
                           fs := (case writerChunk q of None \<Rightarrow> fs q
                                  | Some d \<Rightarrow> os_seek (fs q) d (readerOffset q mod chunk_size q))\<rparr>)
                else case os_open_read (fs q) (chunkPath q (readerOffset q)) of
                  None \<Rightarrow> (Some (ErrWrapped ''failed to open reader chunk'' ErrFileClosed), q)
                | Some (d, f) \<Rightarrow>
                    (None, q\<lparr>readerChunk := Some d, fs := os_seek f d (readerOffset q mod chunk_size q)\<rparr>))
             else (None, q))"

definition recover_queue :: "bool \<Rightarrow> bool \<Rightarrow> FastQueue \<Rightarrow> fq_error option \<times> FastQueue" where
  "recover_queue timed_out full q =
     (case meta_file q of
        None \<Rightarrow> (None, q)
      | Some meta \<Rightarrow>
          (case recover_counts timed_out (q\<lparr>readerOffset := ReaderOffset meta, writerOffset := WriterOffset meta\<rparr>) meta of
             (Some e, q) \<Rightarrow> (Some e, q)
           | (None, q) \<Rightarrow>
               (case recover_files full q of
                  (Some e, q) \<Rightarrow> (Some e, q)
                | (None, q) \<Rightarrow> (None, cleanupOrphanedChunks q))))"

text \<open>\<open>NewFastQueue\<close> on a directory: its chunk files and its metadata file. No file is open yet.\<close>

definition apply_defaults :: "FastQueueConfig \<Rightarrow> FastQueueConfig" where
  "apply_defaults c =
     c\<lparr>MaxInmemoryBlocks := (if MaxInmemoryBlocks c \<le> 0 then defaultInmemoryBlocks else MaxInmemoryBlocks c),
       ChunkFileSize := (if ChunkFileSize c \<le> 0 then defaultChunkFileSize else ChunkFileSize c),
       WriteBufferSize := (if WriteBufferSize c \<le> 0 then defaultWriteBufferSize else WriteBufferSize c),
       Compression := (if Compression c = [] then TypeSnappy else Compression c)\<rparr>"

definition NewFastQueue :: "bool \<Rightarrow> bool \<Rightarrow> FastQueueConfig \<Rightarrow> fsys \<Rightarrow> fastqueueMeta option \<Rightarrow> fq_error + FastQueue" where
  "NewFastQueue timed_out full c files meta =
     (let q = \<lparr>cfg = apply_defaults c, ch = [], inmemoryBytes = 0, writerChunk = None, writerBuf = None, writerOffset = 0,
               readerChunk = None, readerOffset = 0, pendingBytes = 0, activeCount = 0, totalBytes = 0, diskBytes = 0,
               metaDirty = False, closed = False, fs = files\<lparr>ofiles := (\<lambda>_. None)\<rparr>, meta_file = meta\<rparr>
      in case recover_queue timed_out full q of
           (Some e, _) \<Rightarrow> Inl (ErrWrapped ''failed to recover queue'' e)
         | (None, q) \<Rightarrow> Inr q)"

end
