(* ===== verification/Fast_Queue_Correct.thy ===== *)
theory Fast_Queue_Correct
  imports Fast_Queue
begin

text \<open>
  What the persistent queue guarantees, and where it does not. The disk is described by the stream of
  framed blocks in the first chunk file. While nothing has been read from disk (\<open>disk_holds\<close>) a push extends the
  stream; while nothing is written (\<open>reading\<close>) each pop takes the next block of it. Together: what is
  pushed within one chunk comes out in order, also across \<open>Close\<close> and a restart.
  Interleaving disk writes with disk reads breaks this, because the reader and the writer
  share one open file: the last section shows it on concrete runs.
\<close>

section \<open>Block headers\<close>

lemma header_roundtrip:
  assumes "n < 2 ^ 62"
  shows "unat (word_of_nat n AND lengthMask) = n" "word_of_nat n AND compressionFlagBit = 0"
    "unat ((word_of_nat n OR compressionFlagBit) AND lengthMask) = n"
    "(word_of_nat n OR compressionFlagBit) AND compressionFlagBit \<noteq> (0 :: u64)"
proof -
  let ?w = "word_of_nat n :: u64"
  have "?w < 2 ^ 62" using assms by (simp add: word_less_nat_alt unat_word_of_nat)
  then have hi: "bit ?w k \<Longrightarrow> k < 62" for k by (rule bit_word_less_exp)
  have m: "bit lengthMask k \<longleftrightarrow> k < 62" for k
  proof -
    have "(3 :: u64) = mask 2" by (simp add: mask_eq_exp_minus_1)
    then have l: "lengthMask = NOT (push_bit 62 (mask 2))" by (simp only: lengthMask_def)
    show ?thesis unfolding l by (auto simp: bit_simps)
  qed
  have f: "bit compressionFlagBit k \<longleftrightarrow> k = 63" for k
    unfolding compressionFlagBit_def by (simp only: bit_push_bit_iff bit_1_iff) auto
  have "?w AND lengthMask = ?w" "(?w OR compressionFlagBit) AND lengthMask = ?w"
    by (intro bit_eqI; auto simp: bit_and_iff bit_or_iff m f dest: hi)+
  then show "unat (?w AND lengthMask) = n" "unat ((?w OR compressionFlagBit) AND lengthMask) = n"
    using assms by (simp_all add: unat_word_of_nat)
  show "?w AND compressionFlagBit = 0"
    by (rule bit_eqI) (auto simp: bit_and_iff f dest: hi)
  have "bit ((?w OR compressionFlagBit) AND compressionFlagBit) 63" by (simp add: bit_and_iff bit_or_iff f)
  then show "(?w OR compressionFlagBit) AND compressionFlagBit \<noteq> 0" by auto
qed

text \<open>A block as it is on disk.\<close>

definition frame :: "(bytes \<Rightarrow> bytes) \<Rightarrow> bool \<Rightarrow> bytes \<Rightarrow> bytes" where
  "frame enc snappy d =
     (let w = (if snappy then enc d else d)
      in le_bytes 8 (if snappy then word_of_nat (length w) OR compressionFlagBit else word_of_nat (length w)) @ w)"

definition stream :: "(bytes \<Rightarrow> bytes) \<Rightarrow> FastQueue \<Rightarrow> bytes list \<Rightarrow> bytes" where
  "stream enc q ds = concat (map (frame enc (Compression_Snappy (cfg q))) ds)"

lemma stream_simps [simp]:
  "stream enc q [] = []" "stream enc q (d # ds) = frame enc (Compression_Snappy (cfg q)) d @ stream enc q ds"
  "stream enc q (ds @ ds') = stream enc q ds @ stream enc q ds'"
  by (simp_all add: stream_def)

lemma stream_cong: "cfg q = cfg q' \<Longrightarrow> stream enc q ds = stream enc q' ds"
  by (simp add: stream_def)

lemma length_frame: "length (frame enc b d) = 8 + length (if b then enc d else d)"
  by (simp add: frame_def Let_def)

text \<open>Non-empty blocks the header can describe, and a decompressor that undoes the compressor.\<close>

definition codec_ok :: "(bytes \<Rightarrow> bytes) \<Rightarrow> (bytes \<Rightarrow> bytes option) \<Rightarrow> bytes \<Rightarrow> bool" where
  "codec_ok enc dec d \<longleftrightarrow> d \<noteq> [] \<and> dec (enc d) = Some d \<and> length (enc d) < 2 ^ 62 \<and> length d < 2 ^ 62"

lemma frame_parts:
  assumes "codec_ok enc dec d"
  obtains header w where "frame enc b d = header @ w" "length header = 8"
    "unat (le_uint64 header AND lengthMask) = length w" "decode_block dec (le_uint64 header) w = Inr d"
proof -
  let ?w = "if b then enc d else d"
  let ?f = "if b then word_of_nat (length ?w) OR compressionFlagBit else word_of_nat (length ?w) :: u64"
  have len: "length (enc d) < 2 ^ 62" "length d < 2 ^ 62" using assms by (simp_all add: codec_ok_def)
  show thesis
  proof (rule that [of "le_bytes 8 ?f" ?w])
    show "frame enc b d = le_bytes 8 ?f @ ?w" by (simp add: frame_def Let_def)
    show "unat (le_uint64 (le_bytes 8 ?f) AND lengthMask) = length ?w"
      using header_roundtrip(1) [OF len(2)] header_roundtrip(3) [OF len(1)] by simp
    show "decode_block dec (le_uint64 (le_bytes 8 ?f)) ?w = Inr d"
      using header_roundtrip(2) [OF len(2)] header_roundtrip(4) [OF len(1)] assms
      by (simp add: decode_block_def codec_ok_def)
  qed simp
qed

section \<open>Filling\<close>

text \<open>The first chunk file holds, with the writer's buffer, the frames of \<open>D\<close>; nothing was read yet.\<close>

definition disk_holds :: "(bytes \<Rightarrow> bytes) \<Rightarrow> FastQueue \<Rightarrow> bytes list \<Rightarrow> bool" where
  "disk_holds enc q D \<longleftrightarrow> 0 < chunk_size q \<and> 0 < WriteBufferSize (cfg q)
     \<and> readerOffset q = 0 \<and> readerChunk q = None \<and> writerOffset q = length (stream enc q D) \<and>
     (if D = [] then writerChunk q = None \<and> writerBuf q = None \<and> map_of (dir (fs q)) 0 = None
      else \<exists>d w ino. writerChunk q = Some d \<and> writerBuf q = Some w \<and> wb_fd w = d \<and> appends_to (fs q) w ino
             \<and> logical (fs q) w ino = stream enc q D \<and> map_of (dir (fs q)) 0 = Some ino)"

lemma disk_holds_cong:
  assumes "disk_holds enc q D" "cfg q' = cfg q" "readerOffset q' = readerOffset q" "readerChunk q' = readerChunk q"
    "writerOffset q' = writerOffset q" "writerChunk q' = writerChunk q" "writerBuf q' = writerBuf q" "fs q' = fs q"
  shows "disk_holds enc q' D"
  using assms(1) unfolding disk_holds_def stream_def assms(2-) .

lemma buffered_write_appends:
  assumes "writerBuf q = Some w" "appends_to (fs q) w ino"
  shows "\<exists>f w'. buffered_write False q p = (None, q\<lparr>fs := f, writerBuf := Some w'\<rparr>) \<and> appends_to f w' ino
    \<and> wb_fd w' = wb_fd w \<and> logical f w' ino = logical (fs q) w ino @ p \<and> dir f = dir (fs q)"
proof -
  obtain f w' where "bufio_Write False (fs q) w p = (True, f, w')" "appends_to f w' ino" "wb_fd w' = wb_fd w"
      "logical f w' ino = logical (fs q) w ino @ p" "dir f = dir (fs q)"
    using bufio_Write_appends [OF assms(2), of p] by (auto simp: same_but_def)
  then show ?thesis
    using assms(1) by (intro exI [of _ f] exI [of _ w']) (simp add: buffered_write_def)
qed

lemma open_writer_holds:
  assumes "disk_holds enc q D" "length (stream enc q D) < chunk_size q"
  shows "\<exists>f d w ino. open_writer False q = (None, q\<lparr>fs := f, writerChunk := Some d, writerBuf := Some w\<rparr>)
    \<and> wb_fd w = d \<and> appends_to f w ino \<and> logical f w ino = stream enc q D \<and> map_of (dir f) 0 = Some ino"
proof (cases "D = []")
  case True
  then have "writerChunk q = None" "map_of (dir (fs q)) 0 = None" "writerOffset q = 0" "0 < nat (WriteBufferSize (cfg q))"
    using assms(1) by (simp_all add: disk_holds_def)
  moreover define f where "f = (fs q)\<lparr>dir := (0, next_inode (fs q)) # dir (fs q),
      inodes := (inodes (fs q))(next_inode (fs q) := []), next_inode := next_inode (fs q) + 1,
      ofiles := (ofiles (fs q))(next_fd (fs q) \<mapsto> \<lparr>of_inode = next_inode (fs q), of_pos = 0, of_append = True\<rparr>),
      next_fd := next_fd (fs q) + 1\<rparr>"
  moreover define w where "w = bufio_NewWriterSize (next_fd (fs q)) (nat (WriteBufferSize (cfg q)))"
  ultimately have "open_writer False q = (None, q\<lparr>fs := f, writerChunk := Some (next_fd (fs q)), writerBuf := Some w\<rparr>)"
      "wb_fd w = next_fd (fs q)" "appends_to f w (next_inode (fs q))" "logical f w (next_inode (fs q)) = []"
      "map_of (dir f) 0 = Some (next_inode (fs q))"
    by (simp_all add: open_writer_def os_open_create_def chunkPath_def bufio_NewWriterSize_def appends_to_def logical_def)
  then show ?thesis using True by (metis stream_simps(1))
next
  case False
  then obtain d w ino where "writerChunk q = Some d" "writerBuf q = Some w" "wb_fd w = d" "appends_to (fs q) w ino"
      "logical (fs q) w ino = stream enc q D" "map_of (dir (fs q)) 0 = Some ino"
    using assms(1) by (auto simp: disk_holds_def)
  then show ?thesis by (intro exI [of _ "fs q"] exI [of _ d] exI [of _ w] exI [of _ ino]) (simp add: open_writer_def)
qed

lemma rotate_chunk_none:
  assumes "writerOffset q < chunk_size q" "writerOffset q + (8 + n) \<le> chunk_size q"
  shows "rotate_chunk full q n = (None, q)"
  using assms by (auto simp: rotate_chunk_def blockHeaderSize_def split: option.splits)

text \<open>What writing a block to disk does not touch.\<close>

definition same_front :: "FastQueue \<Rightarrow> FastQueue \<Rightarrow> bool" where
  "same_front q q' \<longleftrightarrow> cfg q' = cfg q \<and> ch q' = ch q \<and> inmemoryBytes q' = inmemoryBytes q \<and> activeCount q' = activeCount q
     \<and> totalBytes q' = totalBytes q \<and> closed q' = closed q \<and> meta_file q' = meta_file q"

lemma same_front_trans: "same_front q q1 \<Longrightarrow> same_front q1 q2 \<Longrightarrow> same_front q q2"
  by (simp add: same_front_def)

lemma writeBlock_holds:
  assumes "disk_holds enc q D" "length (stream enc q (D @ [d])) < chunk_size q"
  shows "\<exists>q'. writeBlockToDiskLocked enc False q d = (None, q') \<and> disk_holds enc q' (D @ [d]) \<and> same_front q q'"
proof -
  let ?w = "block_bytes enc q d"
  have fr: "frame enc (Compression_Snappy (cfg q)) d = le_bytes 8 (lengthField q ?w) @ ?w"
    by (simp add: frame_def block_bytes_def lengthField_def Let_def)
  have off: "writerOffset q = length (stream enc q D)" using assms(1) by (simp add: disk_holds_def)
  have len: "length (frame enc (Compression_Snappy (cfg q)) d) = 8 + length ?w" by (simp add: fr)
  have rot: "rotate_chunk False q (length ?w) = (None, q)"
    using assms(2) len off by (intro rotate_chunk_none) simp_all
  have "length (stream enc q D) < chunk_size q" using assms(2) by simp
  then obtain f1 wfd w1 ino where o1: "open_writer False q = (None, q\<lparr>fs := f1, writerChunk := Some wfd, writerBuf := Some w1\<rparr>)"
      "wb_fd w1 = wfd" "appends_to f1 w1 ino" "logical f1 w1 ino = stream enc q D" "map_of (dir f1) 0 = Some ino"
    using open_writer_holds [OF assms(1)] by blast
  let ?q1 = "q\<lparr>fs := f1, writerChunk := Some wfd, writerBuf := Some w1\<rparr>"
  obtain f2 w2 where b2: "buffered_write False ?q1 (le_bytes 8 (lengthField q ?w)) = (None, ?q1\<lparr>fs := f2, writerBuf := Some w2\<rparr>)"
      "appends_to f2 w2 ino" "wb_fd w2 = wfd" "logical f2 w2 ino = stream enc q D @ le_bytes 8 (lengthField q ?w)" "dir f2 = dir f1"
    using buffered_write_appends [of ?q1 w1 ino "le_bytes 8 (lengthField q ?w)"] o1(2-4) by auto
  let ?q2 = "?q1\<lparr>fs := f2, writerBuf := Some w2\<rparr>"
  obtain f3 w3 where b3: "buffered_write False ?q2 ?w = (None, ?q2\<lparr>fs := f3, writerBuf := Some w3\<rparr>)"
      "appends_to f3 w3 ino" "wb_fd w3 = wfd" "logical f3 w3 ino = stream enc q D @ le_bytes 8 (lengthField q ?w) @ ?w" "dir f3 = dir f1"
    using buffered_write_appends [of ?q2 w2 ino ?w] b2(2-5) by auto
  define q3 where "q3 = ?q2\<lparr>fs := f3, writerBuf := Some w3, writerOffset := writerOffset q + (8 + length ?w),
      pendingBytes := pendingBytes q + int (8 + length ?w), diskBytes := diskBytes q + int (8 + length ?w), metaDirty := True\<rparr>"
  have c: "cfg q3 = cfg q" by (simp add: q3_def)
  have "writeBlockToDiskLocked enc False q d = (None, q3)"
    using rot o1(1) b2(1) b3(1) by (simp add: writeBlockToDiskLocked_def blockHeaderSize_def Let_def q3_def)
  moreover have "disk_holds enc q3 (D @ [d])"
    using assms(1) b3(2-5) o1(5) off len fr stream_cong [OF c, of enc]
    by (auto simp: disk_holds_def q3_def)
  moreover have "same_front q q3" by (simp add: same_front_def q3_def)
  ultimately show ?thesis by blast
qed

lemma write_blocks_holds:
  "disk_holds enc q D \<Longrightarrow> length (stream enc q (D @ bs)) < chunk_size q
   \<Longrightarrow> \<exists>q'. write_blocks enc False q bs = (None, q') \<and> disk_holds enc q' (D @ bs) \<and> same_front q q'"
proof (induction bs arbitrary: q D)
  case Nil
  then show ?case by (simp add: same_front_def)
next
  case (Cons b bs)
  obtain q1 where q1: "writeBlockToDiskLocked enc False q b = (None, q1)" "disk_holds enc q1 (D @ [b])" "same_front q q1"
    using writeBlock_holds [OF Cons.prems(1), of b] Cons.prems(2) by auto
  have "cfg q1 = cfg q" using q1(3) by (simp add: same_front_def)
  then have "length (stream enc q1 ((D @ [b]) @ bs)) < chunk_size q1"
    using Cons.prems(2) stream_cong [of q1 q enc] by simp
  from Cons.IH [OF q1(2) this] show ?case using q1 same_front_trans by auto
qed


section \<open>Pushing\<close>

definition limits_allow :: "FastQueue \<Rightarrow> bytes list \<Rightarrow> bool" where
  "limits_allow q ds \<longleftrightarrow>
     (cfg_MaxSize (cfg q) > 0 \<longrightarrow> activeCount q + int (length ds) \<le> cfg_MaxSize (cfg q)) \<and>
     (cfg_MaxBytes (cfg q) > 0 \<longrightarrow> totalBytes q + int (length (concat ds)) \<le> cfg_MaxBytes (cfg q))"

text \<open>Everything queued, oldest first: the blocks on disk, then the channel.\<close>

definition filled :: "(bytes \<Rightarrow> bytes) \<Rightarrow> FastQueue \<Rightarrow> bytes list \<Rightarrow> bool" where
  "filled enc q ds \<longleftrightarrow> \<not> closed q \<and> activeCount q = int (length ds) \<and> totalBytes q = int (length (concat ds))
     \<and> (\<exists>D. ds = D @ ch q \<and> disk_holds enc q D)"

lemma drain_holds:
  assumes "disk_holds enc q D" "length (stream enc q (D @ ch q)) < chunk_size q"
  shows "\<exists>q'. drainChannelToDiskLocked enc False q = (None, q') \<and> disk_holds enc q' (D @ ch q) \<and> ch q' = []
    \<and> cfg q' = cfg q \<and> activeCount q' = activeCount q \<and> totalBytes q' = totalBytes q \<and> closed q' = closed q"
proof -
  define q1 where "q1 = q\<lparr>ch := [], inmemoryBytes := foldl (\<lambda>n b. n - int (length b)) (inmemoryBytes q) (ch q)\<rparr>"
  have c: "cfg q1 = cfg q" by (simp add: q1_def)
  have h: "disk_holds enc q1 D"
    by (rule disk_holds_cong [OF assms(1)]) (simp_all add: q1_def)
  have d: "drainChannelToDiskLocked enc False q = write_blocks enc False q1 (ch q)"
    by (simp add: drainChannelToDiskLocked_def q1_def Let_def)
  have "length (stream enc q1 (D @ ch q)) < chunk_size q1"
    using assms(2) stream_cong [OF c, of enc] c by simp
  from write_blocks_holds [OF h this] show ?thesis
    by (auto simp: d same_front_def q1_def)
qed

lemma Push_filled:
  assumes "filled enc q ds" "limits_allow q [d]" "length (stream enc q (ds @ [d])) < chunk_size q"
  shows "\<exists>q'. fq_Push enc False q d = (None, q') \<and> filled enc q' (ds @ [d]) \<and> cfg q' = cfg q"
proof -
  obtain D where D: "ds = D @ ch q" "disk_holds enc q D" using assms(1) by (auto simp: filled_def)
  have ok: "\<not> closed q" "\<not> (cfg_MaxSize (cfg q) > 0 \<and> activeCount q \<ge> cfg_MaxSize (cfg q))"
      "\<not> (cfg_MaxBytes (cfg q) > 0 \<and> totalBytes q + int (length d) > cfg_MaxBytes (cfg q))"
    using assms(1,2) by (auto simp: filled_def limits_allow_def)
  show ?thesis
  proof (cases "int (length (ch q)) < MaxInmemoryBlocks (cfg q)")
    case True
    define q' where "q' = q\<lparr>ch := ch q @ [d], inmemoryBytes := inmemoryBytes q + int (length d),
                 activeCount := activeCount q + 1, totalBytes := totalBytes q + int (length d)\<rparr>"
    have c: "cfg q' = cfg q" by (simp add: q'_def)
    have "disk_holds enc q' D" by (rule disk_holds_cong [OF D(2)]) (simp_all add: q'_def)
    then have "filled enc q' (ds @ [d])"
      using assms(1) D(1) by (auto simp: filled_def q'_def)
    moreover have "fq_Push enc False q d = (None, q')" using ok True by (simp add: fq_Push_def q'_def)
    ultimately show ?thesis using c by blast
  next
    case False
    have "length (stream enc q (D @ ch q)) < chunk_size q" using assms(3) D(1) by simp
    then obtain q1 where q1: "drainChannelToDiskLocked enc False q = (None, q1)" "disk_holds enc q1 ds" "ch q1 = []"
        "cfg q1 = cfg q" "activeCount q1 = activeCount q" "totalBytes q1 = totalBytes q" "closed q1 = closed q"
      using drain_holds [OF D(2)] D(1) by auto
    have "length (stream enc q1 (ds @ [d])) < chunk_size q1"
      using assms(3) stream_cong [OF q1(4), of enc] q1(4) by simp
    then obtain q2 where q2: "writeBlockToDiskLocked enc False q1 d = (None, q2)" "disk_holds enc q2 (ds @ [d])" "same_front q1 q2"
      using writeBlock_holds [OF q1(2)] by blast
    define q' where "q' = q2\<lparr>activeCount := activeCount q2 + 1, totalBytes := totalBytes q2 + int (length d)\<rparr>"
    have c: "cfg q' = cfg q2" by (simp add: q'_def)
    have "disk_holds enc q' (ds @ [d])"
      by (rule disk_holds_cong [OF q2(2)]) (simp_all add: q'_def)
    then have "filled enc q' (ds @ [d])"
      using assms(1) q1 q2(3) by (auto simp: filled_def q'_def same_front_def)
    moreover have "fq_Push enc False q d = (None, q')"
      using ok False q1(1) q2(1) by (simp add: fq_Push_def q'_def)
    moreover have "cfg q' = cfg q" using c q2(3) q1(4) by (simp add: same_front_def)
    ultimately show ?thesis by blast
  qed
qed

lemma pushes_filled:
  assumes "filled enc q ds" "limits_allow q es" "length (stream enc q (ds @ es)) < chunk_size q"
  shows "\<exists>q'. thread (fq_Push enc False) q es = (replicate (length es) None, q') \<and> filled enc q' (ds @ es) \<and> cfg q' = cfg q"
  using assms
proof (induction es arbitrary: q ds)
  case (Cons e es)
  have "limits_allow q [e]" using Cons.prems(2) by (auto simp: limits_allow_def)
  then obtain q1 where q1: "fq_Push enc False q e = (None, q1)" "filled enc q1 (ds @ [e])" "cfg q1 = cfg q"
    using Push_filled [OF Cons.prems(1), of e] Cons.prems(3) by auto
  have "activeCount q1 = activeCount q + 1" "totalBytes q1 = totalBytes q + int (length e)"
    using q1(2) Cons.prems(1) by (simp_all add: filled_def)
  then have "limits_allow q1 es" using Cons.prems(2) q1(3) by (auto simp: limits_allow_def)
  moreover have "length (stream enc q1 ((ds @ [e]) @ es)) < chunk_size q1"
    using Cons.prems(3) stream_cong [OF q1(3), of enc] q1(3) by simp
  ultimately obtain q2 where "thread (fq_Push enc False) q1 es = (replicate (length es) None, q2)"
      "filled enc q2 ((ds @ [e]) @ es)" "cfg q2 = cfg q1"
    using Cons.IH [OF q1(2)] by blast
  then show ?case using q1 by auto
qed simp

section \<open>Reading\<close>

text \<open>The reader is in the file the writer also uses, behind \<open>Dn\<close> and before \<open>R\<close>; nothing is buffered.\<close>

definition reading :: "(bytes \<Rightarrow> bytes) \<Rightarrow> FastQueue \<Rightarrow> bytes list \<Rightarrow> bytes list \<Rightarrow> bool" where
  "reading enc q Dn R \<longleftrightarrow> \<not> closed q \<and> writerOffset q = length (stream enc q (Dn @ R)) \<and> writerOffset q < chunk_size q
     \<and> readerOffset q = length (stream enc q Dn)
     \<and> (\<exists>d w f. writerChunk q = Some d \<and> readerChunk q = Some d \<and> writerBuf q = Some w \<and> \<not> wb_err w \<and> wb_buf w = []
          \<and> ofiles (fs q) d = Some f \<and> of_pos f = readerOffset q
          \<and> inodes (fs q) (of_inode f) = stream enc q (Dn @ R))"

lemma reading_cong:
  assumes "reading enc q Dn R" "cfg q' = cfg q" "closed q' = closed q" "readerOffset q' = readerOffset q"
    "readerChunk q' = readerChunk q" "writerOffset q' = writerOffset q" "writerChunk q' = writerChunk q"
    "writerBuf q' = writerBuf q" "ofiles (fs q') = ofiles (fs q)" "inodes (fs q') = inodes (fs q)"
  shows "reading enc q' Dn R"
  using assms(1) unfolding reading_def stream_def assms(2-) .

lemma cleanup_frame [simp]:
  "ch (cleanupConsumedChunksLocked q) = ch q" "cfg (cleanupConsumedChunksLocked q) = cfg q"
  "closed (cleanupConsumedChunksLocked q) = closed q"
  by (simp_all add: cleanupConsumedChunksLocked_def Let_def)

lemma reading_cleanup: "reading enc q Dn R \<Longrightarrow> reading enc (cleanupConsumedChunksLocked q) Dn R"
  by (rule reading_cong) (simp_all add: cleanupConsumedChunksLocked_def os_remove_if_def Let_def)

text \<open>One disk read, from the point where the reader's file is open and positioned.\<close>

lemma read_framed:
  assumes "codec_ok enc dec r" "ofiles f d = Some h"
    and "drop (of_pos h) (inodes f (of_inode h)) = frame enc b r @ rest"
  shows "\<exists>header f1 data f2. os_read_full f d blockHeaderSize = (ReadOk header, f1)
    \<and> os_read_full f1 d (unat (le_uint64 header AND lengthMask)) = (ReadOk data, f2)
    \<and> decode_block dec (le_uint64 header) data = Inr r
    \<and> blockHeaderSize + unat (le_uint64 header AND lengthMask) = length (frame enc b r)
    \<and> f2 = f\<lparr>ofiles := (ofiles f)(d \<mapsto> h\<lparr>of_pos := of_pos h + length (frame enc b r)\<rparr>)\<rparr>"
proof -
  obtain header w where fr: "frame enc b r = header @ w" "length header = 8"
      "unat (le_uint64 header AND lengthMask) = length w" "decode_block dec (le_uint64 header) w = Inr r"
    using frame_parts [OF assms(1)] by blast
  let ?h1 = "h\<lparr>of_pos := of_pos h + length header\<rparr>"
  let ?f1 = "f\<lparr>ofiles := (ofiles f)(d \<mapsto> ?h1)\<rparr>"
  have r1: "os_read_full f d (length header) = (ReadOk header, ?f1)"
    by (rule os_read_full_at [OF assms(2)]) (simp add: assms(3) fr(1))
  have "drop (of_pos ?h1) (inodes ?f1 (of_inode ?h1)) = drop (length header) (drop (of_pos h) (inodes f (of_inode h)))"
    by (simp add: add.commute)
  then have "drop (of_pos ?h1) (inodes ?f1 (of_inode ?h1)) = w @ rest" by (simp add: assms(3) fr(1))
  then have "os_read_full ?f1 d (length w) = (ReadOk w, ?f1\<lparr>ofiles := (ofiles ?f1)(d \<mapsto> ?h1\<lparr>of_pos := of_pos ?h1 + length w\<rparr>)\<rparr>)"
    by (intro os_read_full_at) simp_all
  then show ?thesis
    using r1 fr by (simp add: blockHeaderSize_def add.assoc)
qed

lemma read_attempt_reading:
  assumes "reading enc q Dn (r # R)" "codec_ok enc dec r"
  shows "\<exists>q'. read_attempt dec full q = (Done (Inr r), q') \<and> reading enc q' (Dn @ [r]) R
    \<and> ch q' = ch q \<and> cfg q' = cfg q \<and> activeCount q' = activeCount q"
proof -
  let ?fr = "frame enc (Compression_Snappy (cfg q)) r"
  obtain d w f where q: "writerChunk q = Some d" "readerChunk q = Some d" "writerBuf q = Some w" "\<not> wb_err w" "wb_buf w = []"
      "ofiles (fs q) d = Some f" "of_pos f = readerOffset q" "inodes (fs q) (of_inode f) = stream enc q (Dn @ r # R)"
    using assms(1) by (auto simp: reading_def)
  have off: "readerOffset q = length (stream enc q Dn)" "writerOffset q = length (stream enc q (Dn @ r # R))"
      "writerOffset q < chunk_size q" "\<not> closed q"
    using assms(1) by (simp_all add: reading_def)
  have lt: "readerOffset q < writerOffset q" using off by (simp add: length_frame)
  have fl: "flush_writer full q = (True, q)" using q(3-5) by (simp add: flush_writer_def bufio_Flush_def)
  have ce: "readerOffset q < chunk_end q (readerOffset q)"
    using lt off(3) by (simp add: chunk_end_def)
  have op: "open_reader q = (Some d, q)" using q(2) by (simp add: open_reader_def)
  have "drop (of_pos f) (inodes (fs q) (of_inode f)) = ?fr @ stream enc q R" by (simp add: q(7,8) off(1))
  from read_framed [OF assms(2) q(6) this]
  obtain header f1 data f2 where rd: "os_read_full (fs q) d blockHeaderSize = (ReadOk header, f1)"
      "os_read_full f1 d (unat (le_uint64 header AND lengthMask)) = (ReadOk data, f2)"
      "decode_block dec (le_uint64 header) data = Inr r"
      "blockHeaderSize + unat (le_uint64 header AND lengthMask) = length ?fr"
      "f2 = (fs q)\<lparr>ofiles := (ofiles (fs q))(d \<mapsto> f\<lparr>of_pos := of_pos f + length ?fr\<rparr>)\<rparr>"
    by blast
  define q' where "q' = q\<lparr>fs := f2, readerOffset := readerOffset q + length ?fr,
      pendingBytes := pendingBytes q - int (length ?fr), metaDirty := True\<rparr>"
  have "read_attempt dec full q = (Done (Inr r), q')"
    using lt fl ce op rd(1-4) by (simp add: read_attempt_def Let_def q'_def not_le)
  moreover have c: "cfg q' = cfg q" by (simp add: q'_def)
  moreover have "reading enc q' (Dn @ [r]) R"
    using q off stream_cong [OF c, of enc] rd(5) by (simp add: reading_def q'_def)
  ultimately show ?thesis by (auto simp: q'_def)
qed

text \<open>A pop whose disk read succeeds at once.\<close>

lemma Pop_of_attempt:
  assumes "read_attempt dec full q = (Done (Inr r), q1)" "reading enc q1 Dn R" "readerOffset q < writerOffset q" "\<not> closed q"
  shows "\<exists>q'. fq_Pop dec full q = (Inr (Some r), q') \<and> reading enc q' Dn R \<and> ch q' = ch q1
    \<and> activeCount q' = activeCount q1 - 1"
proof -
  have b: "readBlockFromDiskLocked dec full q = (Inr r, q1)"
    by (subst readBlockFromDiskLocked.simps) (simp add: assms(1))
  define q2 where "q2 = q1\<lparr>activeCount := activeCount q1 - 1, totalBytes := totalBytes q1 - int (length r),
      diskBytes := diskBytes q1 - (int (readerOffset q1) - int (readerOffset q))\<rparr>"
  have "reading enc q2 Dn R" by (rule reading_cong [OF assms(2)]) (simp_all add: q2_def)
  moreover have "fq_Pop dec full q = (Inr (Some r), cleanupConsumedChunksLocked q2)"
    using assms(3,4) b by (simp add: fq_Pop_def Let_def q2_def)
  moreover have "ch q2 = ch q1" "activeCount q2 = activeCount q1 - 1" by (simp_all add: q2_def)
  ultimately show ?thesis
    using reading_cleanup [of enc q2 Dn R] by (simp add: cleanupConsumedChunksLocked_def Let_def)
qed

lemma Pop_reading:
  assumes "reading enc q Dn (r # R)" "codec_ok enc dec r"
  shows "\<exists>q'. fq_Pop dec full q = (Inr (Some r), q') \<and> reading enc q' (Dn @ [r]) R \<and> ch q' = ch q
    \<and> activeCount q' = activeCount q - 1"
proof -
  obtain q1 where q1: "read_attempt dec full q = (Done (Inr r), q1)" "reading enc q1 (Dn @ [r]) R" "ch q1 = ch q"
      "activeCount q1 = activeCount q"
    using read_attempt_reading [OF assms] by blast
  have "readerOffset q < writerOffset q" "\<not> closed q" using assms(1) by (simp_all add: reading_def length_frame)
  then show ?thesis using Pop_of_attempt [OF q1(1,2)] q1(3,4) by auto
qed

text \<open>The first disk read: flushing, opening and positioning lead to a state that is \<open>reading\<close>.\<close>

lemma read_attempt_via:
  assumes "readerOffset q < writerOffset q" "flush_writer full q = (True, q1)"
    and "readerOffset q1 < chunk_end q1 (readerOffset q1)" "open_reader q1 = (Some d, q2)"
    and "reading enc q2 Dn R" "readerOffset q2 < writerOffset q2" "readerChunk q2 = Some d"
  shows "read_attempt dec full q = read_attempt dec full q2"
proof -
  have "flush_writer full q2 = (True, q2)"
    using assms(5) by (auto simp: reading_def flush_writer_def bufio_Flush_def)
  moreover have "open_reader q2 = (Some d, q2)" using assms(7) by (simp add: open_reader_def)
  moreover have "readerOffset q2 < chunk_end q2 (readerOffset q2)"
    using assms(5,6) by (simp add: reading_def chunk_end_def)
  ultimately show ?thesis
    using assms(1-4,6) unfolding read_attempt_def by (simp add: not_le [symmetric] Let_def del: not_le)
qed

lemma disk_holds_reading:
  assumes "disk_holds enc q D" "D \<noteq> []" "writerOffset q < chunk_size q" "\<not> closed q"
  shows "\<exists>q2. read_attempt dec False q = read_attempt dec False q2 \<and> reading enc q2 [] D \<and> ch q2 = ch q
    \<and> activeCount q2 = activeCount q \<and> readerOffset q < writerOffset q"
proof -
  obtain d w ino where q: "writerChunk q = Some d" "writerBuf q = Some w" "wb_fd w = d" "appends_to (fs q) w ino"
      "logical (fs q) w ino = stream enc q D" "readerOffset q = 0" "readerChunk q = None" "writerOffset q = length (stream enc q D)"
    using assms(1,2) by (auto simp: disk_holds_def)
  have lt: "readerOffset q < writerOffset q" using q(6,8) assms(2) by (cases D) (simp_all add: length_frame)
  obtain f1 w1 where f1: "bufio_Flush False (fs q) w = (True, f1, w1)" "appends_to f1 w1 ino" "wb_buf w1 = []"
      "wb_fd w1 = d" "inodes f1 ino = stream enc q D"
    using bufio_Flush_appends [OF q(4)] q(3,5) by auto
  obtain h where h: "ofiles f1 d = Some h" "of_inode h = ino" "\<not> wb_err w1"
    using f1(2,4) by (auto simp: appends_to_def)
  define q1 where "q1 = q\<lparr>fs := f1, writerBuf := Some w1\<rparr>"
  define q2 where "q2 = q1\<lparr>readerChunk := Some d, fs := os_seek f1 d 0\<rparr>"
  have fl: "flush_writer False q = (True, q1)" using f1(1) q(2) by (simp add: flush_writer_def q1_def)
  have C: "0 < chunk_size q" using assms(3) by simp
  have op: "open_reader q1 = (Some d, q2)"
    using q(1,6,7) assms(3) by (simp add: open_reader_def q1_def q2_def chunkPath_def)
  have c: "cfg q2 = cfg q" by (simp add: q1_def q2_def)
  have rd: "reading enc q2 [] D"
    using q f1(3,5) h assms(3,4) stream_cong [OF c, of enc] by (simp add: reading_def q1_def q2_def os_seek_def)
  have "read_attempt dec False q = read_attempt dec False q2"
    by (rule read_attempt_via [OF lt fl _ op rd]) (use lt C q(6) in \<open>simp_all add: q1_def q2_def chunk_end_def\<close>)
  then show ?thesis using rd lt by (auto simp: q1_def q2_def)
qed

lemma first_Pop:
  assumes "disk_holds enc q (r # R)" "writerOffset q < chunk_size q" "\<not> closed q" "codec_ok enc dec r"
  shows "\<exists>q'. fq_Pop dec False q = (Inr (Some r), q') \<and> reading enc q' [r] R \<and> ch q' = ch q
    \<and> activeCount q' = activeCount q - 1"
proof -
  obtain q2 where q2: "read_attempt dec False q = read_attempt dec False q2" "reading enc q2 [] (r # R)" "ch q2 = ch q"
      "activeCount q2 = activeCount q" "readerOffset q < writerOffset q"
    using disk_holds_reading [OF assms(1) _ assms(2,3)] by blast
  obtain q3 where "read_attempt dec False q2 = (Done (Inr r), q3)" "reading enc q3 [r] R" "ch q3 = ch q2"
      "activeCount q3 = activeCount q2"
    using read_attempt_reading [OF q2(2) assms(4)] by auto
  then show ?thesis using Pop_of_attempt [of dec False q r q3 enc] q2 assms(3) by auto
qed

section \<open>Draining\<close>

definition pops :: "(bytes \<Rightarrow> bytes option) \<Rightarrow> bool \<Rightarrow> FastQueue \<Rightarrow> nat \<Rightarrow> (fq_error + bytes option) list \<times> FastQueue" where
  "pops dec full q n = thread (\<lambda>q (_ :: unit). fq_Pop dec full q) q (replicate n ())"

lemma pops_add: "pops dec full q (m + n)
    = (fst (pops dec full q m) @ fst (pops dec full (snd (pops dec full q m)) n), snd (pops dec full (snd (pops dec full q m)) n))"
  by (simp add: pops_def replicate_add thread_append)

lemma pops_Suc: "fq_Pop dec full q = (x, q1) \<Longrightarrow> pops dec full q (Suc n)
    = (x # fst (pops dec full q1 n), snd (pops dec full q1 n))"
  by (simp add: pops_def split_beta)

lemma pops_0 [simp]: "pops dec full q 0 = ([], q)"
  by (simp add: pops_def)

lemma pops_reading:
  "reading enc q Dn R \<Longrightarrow> \<forall>d \<in> set R. codec_ok enc dec d
   \<Longrightarrow> \<exists>q'. pops dec full q (length R) = (map (\<lambda>d. Inr (Some d)) R, q') \<and> reading enc q' (Dn @ R) [] \<and> ch q' = ch q
     \<and> activeCount q' = activeCount q - int (length R)"
proof (induction R arbitrary: q Dn)
  case (Cons r R)
  obtain q1 where q1: "fq_Pop dec full q = (Inr (Some r), q1)" "reading enc q1 (Dn @ [r]) R" "ch q1 = ch q"
      "activeCount q1 = activeCount q - 1"
    using Pop_reading [OF Cons.prems(1)] Cons.prems(2) by fastforce
  obtain q2 where "pops dec full q1 (length R) = (map (\<lambda>d. Inr (Some d)) R, q2)" "reading enc q2 ((Dn @ [r]) @ R) []"
      "ch q2 = ch q1" "activeCount q2 = activeCount q1 - int (length R)"
    using Cons.IH [OF q1(2)] Cons.prems(2) by fastforce
  then show ?case using q1 by (simp add: pops_Suc)
qed simp

lemma pops_channel:
  "\<not> closed q \<Longrightarrow> writerOffset q \<le> readerOffset q
   \<Longrightarrow> \<exists>q'. pops dec full q (length (ch q)) = (map (\<lambda>d. Inr (Some d)) (ch q), q') \<and> ch q' = [] \<and> \<not> closed q'
     \<and> writerOffset q' \<le> readerOffset q' \<and> activeCount q' = activeCount q - int (length (ch q))"
proof (induction "ch q" arbitrary: q)
  case Nil
  from Nil.hyps [symmetric] Nil.prems show ?case by simp
next
  case (Cons b bs)
  define q1 where "q1 = q\<lparr>ch := bs, inmemoryBytes := inmemoryBytes q - int (length b),
             activeCount := activeCount q - 1, totalBytes := totalBytes q - int (length b)\<rparr>"
  have p: "fq_Pop dec full q = (Inr (Some b), q1)"
    using Cons.prems by (simp add: fq_Pop_def pop_channel_def q1_def Cons.hyps(2) [symmetric])
  have "\<exists>q'. pops dec full q1 (length (ch q1)) = (map (\<lambda>d. Inr (Some d)) (ch q1), q') \<and> ch q' = [] \<and> \<not> closed q'
     \<and> writerOffset q' \<le> readerOffset q' \<and> activeCount q' = activeCount q1 - int (length (ch q1))"
    using Cons.prems by (intro Cons.hyps(1)) (simp_all add: q1_def)
  then show ?case using p by (auto simp: Cons.hyps(2) [symmetric] pops_Suc q1_def)
qed

lemma empty_Pop: "\<not> closed q \<Longrightarrow> writerOffset q \<le> readerOffset q \<Longrightarrow> ch q = [] \<Longrightarrow> fst (fq_Pop dec full q) = Inr None"
  by (simp add: fq_Pop_def pop_channel_def)

text \<open>Drained: every entry came out, in order, and the queue is empty.\<close>

definition drains_to :: "(bytes \<Rightarrow> bytes option) \<Rightarrow> bool \<Rightarrow> FastQueue \<Rightarrow> bytes list \<Rightarrow> bool" where
  "drains_to dec full q ds \<longleftrightarrow> (\<exists>q'. pops dec full q (length ds) = (map (\<lambda>d. Inr (Some d)) ds, q')
     \<and> fst (fq_Pop dec full q') = Inr None \<and> fq_Len q' = fq_Len q - int (length ds))"

lemma drain_channel: "\<not> closed q \<Longrightarrow> writerOffset q \<le> readerOffset q \<Longrightarrow> drains_to dec full q (ch q)"
  using pops_channel [of q dec full] by (auto simp: drains_to_def fq_Len_def empty_Pop)

lemma drains_to_append:
  assumes "pops dec full q (length R) = (map (\<lambda>d. Inr (Some d)) R, q1)" "activeCount q1 = activeCount q - int (length R)"
    and "drains_to dec full q1 M"
  shows "drains_to dec full q (R @ M)"
  using assms by (auto simp: drains_to_def pops_add fq_Len_def)

lemma drain_reading:
  assumes "reading enc q Dn R" "\<forall>d \<in> set R. codec_ok enc dec d"
  shows "drains_to dec full q (R @ ch q)"
proof -
  obtain q1 where q1: "pops dec full q (length R) = (map (\<lambda>d. Inr (Some d)) R, q1)" "reading enc q1 (Dn @ R) []" "ch q1 = ch q"
      "activeCount q1 = activeCount q - int (length R)"
    using pops_reading [OF assms] by blast
  have "\<not> closed q1" "writerOffset q1 \<le> readerOffset q1" using q1(2) by (simp_all add: reading_def)
  then show ?thesis using drains_to_append [OF q1(1,4)] drain_channel [of q1 dec full] q1(3) by simp
qed

lemma drain_filled:
  assumes "filled enc q ds" "length (stream enc q ds) < chunk_size q" "\<forall>d \<in> set ds. codec_ok enc dec d"
  shows "drains_to dec False q ds"
proof -
  obtain D where D: "ds = D @ ch q" "disk_holds enc q D" "\<not> closed q" using assms(1) by (auto simp: filled_def)
  have off: "writerOffset q = length (stream enc q D)" "readerOffset q = 0" using D(2) by (simp_all add: disk_holds_def)
  show ?thesis
  proof (cases D)
    case Nil
    then show ?thesis using drain_channel [OF D(3), of dec False] off D(1) by simp
  next
    case (Cons r R)
    have "writerOffset q < chunk_size q" using off(1) assms(2) D(1) by simp
    then obtain q1 where q1: "fq_Pop dec False q = (Inr (Some r), q1)" "reading enc q1 [r] R" "ch q1 = ch q"
        "activeCount q1 = activeCount q - 1"
      using first_Pop [of enc q r R dec] D Cons assms(3) by auto
    have "drains_to dec False q1 (R @ ch q1)"
      using drain_reading [OF q1(2)] assms(3) D(1) Cons by simp
    then have "drains_to dec False q ([r] @ (R @ ch q1))"
      using q1 by (intro drains_to_append [of dec False q "[r]" q1]) (simp_all add: pops_Suc [OF q1(1), of 0, simplified])
    then show ?thesis using D(1) Cons q1(3) by simp
  qed
qed

section \<open>Closing and restarting\<close>

text \<open>What is on disk after \<open>Close\<close>: the stream in the first chunk file, and metadata describing it.\<close>

definition stored :: "(bytes \<Rightarrow> bytes) \<Rightarrow> FastQueue \<Rightarrow> bytes list \<Rightarrow> bool" where
  "stored enc q ds \<longleftrightarrow> (\<exists>ino. map_of (dir (fs q)) 0 = Some ino \<and> inodes (fs q) ino = stream enc q ds)
     \<and> meta_file q = Some \<lparr>ReaderOffset = 0, WriterOffset = length (stream enc q ds),
         EntryCount = int (length ds), TotalBytes = int (length (concat ds))\<rparr>"

lemma flush_holds:
  assumes "disk_holds enc q D" "D \<noteq> []"
  shows "\<exists>f w ino. flush_writer False q = (True, q\<lparr>fs := f, writerBuf := Some w\<rparr>) \<and> \<not> wb_err w \<and> wb_buf w = []
    \<and> inodes f ino = stream enc q D \<and> map_of (dir f) 0 = Some ino"
proof -
  obtain w ino where q: "writerBuf q = Some w" "appends_to (fs q) w ino" "logical (fs q) w ino = stream enc q D"
      "map_of (dir (fs q)) 0 = Some ino"
    using assms by (auto simp: disk_holds_def)
  obtain f w1 where "bufio_Flush False (fs q) w = (True, f, w1)" "appends_to f w1 ino" "wb_buf w1 = []"
      "inodes f ino = logical (fs q) w ino" "dir f = dir (fs q)"
    using bufio_Flush_appends [OF q(2)] by (auto simp: same_but_def)
  then show ?thesis
    using q by (intro exI [of _ f] exI [of _ w1] exI [of _ ino]) (simp add: flush_writer_def appends_to_def)
qed

lemma Close_stored:
  assumes "filled enc q ds" "ds \<noteq> []" "length (stream enc q ds) < chunk_size q"
  shows "\<exists>q'. fq_Close enc False q = ([], q') \<and> stored enc q' ds \<and> cfg q' = cfg q"
proof -
  obtain D where D: "ds = D @ ch q" "disk_holds enc q D" "\<not> closed q" "activeCount q = int (length ds)"
      "totalBytes q = int (length (concat ds))"
    using assms(1) by (auto simp: filled_def)
  let ?q0 = "q\<lparr>closed := True\<rparr>"
  have "disk_holds enc ?q0 D" by (rule disk_holds_cong [OF D(2)]) simp_all
  moreover have "length (stream enc ?q0 (D @ ch ?q0)) < chunk_size ?q0"
    using assms(3) D(1) stream_cong [of ?q0 q enc] by simp
  ultimately obtain q1 where q1: "drainChannelToDiskLocked enc False ?q0 = (None, q1)" "disk_holds enc q1 ds"
      "cfg q1 = cfg q" "activeCount q1 = activeCount q" "totalBytes q1 = totalBytes q" "closed q1"
    using drain_holds [of enc ?q0 D] D(1) by auto
  obtain f w ino where fl: "flush_writer False q1 = (True, q1\<lparr>fs := f, writerBuf := Some w\<rparr>)" "\<not> wb_err w" "wb_buf w = []"
      "inodes f ino = stream enc q1 ds" "map_of (dir f) 0 = Some ino"
    using flush_holds [OF q1(2) assms(2)] by blast
  define q2 where "q2 = q1\<lparr>fs := f, writerBuf := Some w\<rparr>"
  define q3 where "q3 = q2\<lparr>meta_file := Some \<lparr>ReaderOffset = readerOffset q2, WriterOffset = writerOffset q2,
                                     EntryCount = activeCount q2, TotalBytes = totalBytes q2\<rparr>\<rparr>"
  have a: "flushInmemoryBlocksLocked enc False ?q0 = (None, q2)" "syncMetadataLocked False q2 = (None, q3)"
      "flush_writer False q3 = (True, q3)"
    using q1(1) fl(1-3) by (simp_all add: flushInmemoryBlocksLocked_def syncMetadataLocked_def flush_writer_def bufio_Flush_def q2_def q3_def)
  obtain d where wr: "writerChunk q3 = Some d" "readerChunk q3 = None" "readerOffset q2 = 0" "writerOffset q2 = length (stream enc q1 ds)"
    using q1(2) assms(2) by (auto simp: disk_holds_def q2_def q3_def)
  have cl: "fq_Close enc False q = ([], close_file (Some d) q3)"
    using D(3) a wr(1,2) by (simp add: fq_Close_def Let_def close_file_def List.map_filter_def)
  have "stored enc (close_file (Some d) q3) ds"
    using fl(4,5) wr(3,4) q1(4,5) D(4,5)
    by (simp add: stored_def close_file_def os_close_def q3_def q2_def stream_def)
  then show ?thesis using cl q1(3) by (simp add: close_file_def q3_def q2_def)
qed

lemma restart_reading:
  assumes "stored enc q ds" "ds \<noteq> []" "concat ds \<noteq> []" "apply_defaults c = cfg q" "length (stream enc q ds) < chunk_size q"
  shows "\<exists>q'. NewFastQueue timed_out False c (fs q) (meta_file q) = Inr q' \<and> reading enc q' [] ds \<and> ch q' = []
    \<and> fq_Len q' = int (length ds) \<and> fq_Size q' = int (length (concat ds))"
proof -
  obtain ino where d: "map_of (dir (fs q)) 0 = Some ino" "inodes (fs q) ino = stream enc q ds"
      and m: "meta_file q = Some \<lparr>ReaderOffset = 0, WriterOffset = length (stream enc q ds),
         EntryCount = int (length ds), TotalBytes = int (length (concat ds))\<rparr>"
    using assms(1) by (auto simp: stored_def)
  have pos: "0 < length (stream enc q ds)" using assms(2) by (cases ds) (simp_all add: length_frame)
  have tb: "0 < int (length (concat ds))" "0 < int (length ds)" using assms(2,3) by simp_all
  let ?n = "next_fd (fs q)"
  define h where "h = \<lparr>of_inode = ino, of_pos = 0, of_append = False\<rparr>"
  define f where "f = (fs q)\<lparr>ofiles := (\<lambda>_. None)(?n \<mapsto> h), next_fd := ?n + 1\<rparr>"
  define q1 where "q1 = \<lparr>cfg = cfg q, ch = [], inmemoryBytes = 0, writerChunk = Some ?n,
      writerBuf = Some (bufio_NewWriterSize ?n (nat (WriteBufferSize (cfg q)))), writerOffset = length (stream enc q ds),
      readerChunk = Some ?n, readerOffset = 0, pendingBytes = int (length (stream enc q ds)), activeCount = int (length ds),
      totalBytes = int (length (concat ds)), diskBytes = int (length (stream enc q ds)),
      metaDirty = False, closed = False, fs = f, meta_file = meta_file q\<rparr>"
  have f': "os_seek (os_seek f ?n k) ?n 0 = f" for k by (simp add: os_seek_def f_def h_def)
  have "NewFastQueue timed_out False c (fs q) (meta_file q) = Inr (cleanupOrphanedChunks q1)"
    using pos tb assms(4,5) d(1) f'
    by (simp add: NewFastQueue_def recover_queue_def m recover_counts_def recover_files_def os_open_create_def
        chunkPath_def Let_def q1_def f_def h_def)
  moreover have "reading enc q1 [] ds"
    using d(2) assms(5) by (simp add: reading_def q1_def f_def h_def bufio_NewWriterSize_def stream_def)
  then have "reading enc (cleanupOrphanedChunks q1) [] ds"
    by (rule reading_cong) (simp_all add: cleanupOrphanedChunks_def os_remove_if_def Let_def)
  ultimately show ?thesis
    by (simp add: cleanupOrphanedChunks_def Let_def q1_def fq_Len_def fq_Size_def)
qed

lemma filled_new:
  assumes "NewFastQueue timed_out full c empty_fsys None = Inr q"
  shows "filled enc q []" "cfg q = apply_defaults c"
proof -
  have q: "q = \<lparr>cfg = apply_defaults c, ch = [], inmemoryBytes = 0, writerChunk = None, writerBuf = None, writerOffset = 0,
               readerChunk = None, readerOffset = 0, pendingBytes = 0, activeCount = 0, totalBytes = 0, diskBytes = 0,
               metaDirty = False, closed = False, fs = empty_fsys, meta_file = None\<rparr>"
    using assms by (simp add: NewFastQueue_def recover_queue_def empty_fsys_def Let_def)
  then show "cfg q = apply_defaults c" by simp
  have "0 < chunk_size q" "0 < WriteBufferSize (cfg q)"
    by (simp_all add: q apply_defaults_def defaultChunkFileSize_def defaultWriteBufferSize_def)
  then show "filled enc q []" by (simp add: filled_def disk_holds_def q empty_fsys_def)
qed

section \<open>Properties\<close>

text \<open>
  The block header is lossless: for every block shorter than 2^62 bytes, reading back the 8-byte length
  field gives the block's length and whether it is compressed, so the compression flag
  never disturbs the length.
\<close>

theorem lengthField_roundtrip:
  assumes "length w < 2 ^ 62"
  shows "unat (le_uint64 (le_bytes blockHeaderSize (lengthField q w)) AND lengthMask) = length w
    \<and> (le_uint64 (le_bytes blockHeaderSize (lengthField q w)) AND compressionFlagBit \<noteq> 0) = Compression_Snappy (cfg q)"
  using header_roundtrip [OF assms] by (simp add: lengthField_def blockHeaderSize_def)

theorem lengthField_roundtrip_witness:
  "\<exists>q. unat (le_uint64 (le_bytes blockHeaderSize (lengthField q [1, 2, 3])) AND lengthMask) = 3"
  using lengthField_roundtrip [of "[1, 2, 3]"] by auto

text \<open>
  C6: The queue delivers in order. Whatever is pushed to a new queue, spilling to disk as the channel fills, is
  accepted, counted, and popped again in exactly the same order, after which the queue is
  empty; for non-empty entries and any buffer and channel size, as long as the configured limits
  allow the data and it fits in one chunk file.
\<close>

theorem fastqueue_fill_then_drain:
  assumes "NewFastQueue timed_out full c empty_fsys None = Inr q" "\<forall>d \<in> set ds. codec_ok enc dec d"
    and "limits_allow q ds" "length (stream enc q ds) < chunk_size q"
  shows "\<exists>q'. thread (fq_Push enc False) q ds = (replicate (length ds) None, q')
    \<and> fq_Len q' = int (length ds) \<and> fq_Size q' = int (length (concat ds)) \<and> drains_to dec False q' ds"
proof -
  obtain q' where q': "thread (fq_Push enc False) q ds = (replicate (length ds) None, q')" "filled enc q' ds" "cfg q' = cfg q"
    using pushes_filled [OF filled_new(1) [OF assms(1)] assms(3)] assms(4) by auto
  moreover have "drains_to dec False q' ds"
    using drain_filled [OF q'(2) _ assms(2)] assms(4) stream_cong [OF q'(3), of enc] q'(3) by simp
  ultimately show ?thesis by (auto simp: filled_def fq_Len_def fq_Size_def)
qed

theorem fastqueue_fill_then_drain_witness:
  "\<exists>q q'. NewFastQueue False False \<lparr>MaxInmemoryBlocks = 1, ChunkFileSize = 1000, cfg_MaxSize = 0, cfg_MaxBytes = 0,
      WriteBufferSize = 16, Compression = ''none''\<rparr> empty_fsys None = Inr q
    \<and> thread (fq_Push id False) q [[1], [2], [3]] = (replicate 3 None, q') \<and> drains_to Some False q' [[1], [2], [3]]"
proof -
  let ?c = "\<lparr>MaxInmemoryBlocks = 1, ChunkFileSize = 1000, cfg_MaxSize = 0, cfg_MaxBytes = 0,
      WriteBufferSize = 16, Compression = ''none''\<rparr>"
  obtain q where q: "NewFastQueue False False ?c empty_fsys None = Inr q"
    by (simp add: NewFastQueue_def recover_queue_def Let_def)
  have c: "cfg q = ?c" using filled_new(2) [OF q] by (simp add: apply_defaults_def)
  from fastqueue_fill_then_drain [OF q, of "[[1], [2], [3]]" id Some] show ?thesis
    using q by (auto simp: c limits_allow_def codec_ok_def length_frame numeral_3_eq_3 TypeSnappy_def)
qed

text \<open>
  C12: The queue survives a restart. After the pushes, \<open>Close\<close> reports no error, and a queue newly opened on the
  same directory with the same configuration has the same length and size and
  delivers exactly the pushed entries, in order.
\<close>

theorem fastqueue_survives_restart:
  assumes "NewFastQueue timed_out full c empty_fsys None = Inr q" "\<forall>d \<in> set ds. codec_ok enc dec d"
    and "limits_allow q ds" "length (stream enc q ds) < chunk_size q" "ds \<noteq> []"
  shows "\<exists>q1 q2 q3. thread (fq_Push enc False) q ds = (replicate (length ds) None, q1)
    \<and> fq_Close enc False q1 = ([], q2) \<and> NewFastQueue timed_out False c (fs q2) (meta_file q2) = Inr q3
    \<and> fq_Len q3 = int (length ds) \<and> fq_Size q3 = int (length (concat ds)) \<and> drains_to dec False q3 ds"
proof -
  have ne: "concat ds \<noteq> []" using assms(2,5) by (cases ds) (auto simp: codec_ok_def)
  obtain q1 where q1: "thread (fq_Push enc False) q ds = (replicate (length ds) None, q1)" "filled enc q1 ds" "cfg q1 = cfg q"
    using pushes_filled [OF filled_new(1) [OF assms(1)] assms(3)] assms(4) by auto
  obtain q2 where q2: "fq_Close enc False q1 = ([], q2)" "stored enc q2 ds" "cfg q2 = cfg q1"
    using Close_stored [OF q1(2) assms(5)] assms(4) stream_cong [OF q1(3), of enc] q1(3) by auto
  have "apply_defaults c = cfg q2" "length (stream enc q2 ds) < chunk_size q2"
    using filled_new(2) [OF assms(1)] q1(3) q2(3) assms(4) stream_cong [of q2 q enc] by simp_all
  then obtain q3 where q3: "NewFastQueue timed_out False c (fs q2) (meta_file q2) = Inr q3" "reading enc q3 [] ds" "ch q3 = []"
      "fq_Len q3 = int (length ds)" "fq_Size q3 = int (length (concat ds))"
    using restart_reading [OF q2(2) assms(5) ne] by blast
  have "drains_to dec False q3 ds" using drain_reading [OF q3(2) assms(2), of False] q3(3) by simp
  then show ?thesis using q1(1) q2(1) q3 by blast
qed

theorem fastqueue_survives_restart_witness:
  "\<exists>q q1 q2 q3. NewFastQueue False False \<lparr>MaxInmemoryBlocks = 1, ChunkFileSize = 1000, cfg_MaxSize = 0, cfg_MaxBytes = 0,
      WriteBufferSize = 16, Compression = ''none''\<rparr> empty_fsys None = Inr q
    \<and> thread (fq_Push id False) q [[1], [2], [3]] = (replicate 3 None, q1) \<and> fq_Close id False q1 = ([], q2)
    \<and> NewFastQueue False False \<lparr>MaxInmemoryBlocks = 1, ChunkFileSize = 1000, cfg_MaxSize = 0, cfg_MaxBytes = 0,
      WriteBufferSize = 16, Compression = ''none''\<rparr> (fs q2) (meta_file q2) = Inr q3 \<and> drains_to Some False q3 [[1], [2], [3]]"
proof -
  let ?c = "\<lparr>MaxInmemoryBlocks = 1, ChunkFileSize = 1000, cfg_MaxSize = 0, cfg_MaxBytes = 0,
      WriteBufferSize = 16, Compression = ''none''\<rparr>"
  obtain q where q: "NewFastQueue False False ?c empty_fsys None = Inr q"
    by (simp add: NewFastQueue_def recover_queue_def Let_def)
  have c: "cfg q = ?c" using filled_new(2) [OF q] by (simp add: apply_defaults_def)
  from fastqueue_survives_restart [OF q, of "[[1], [2], [3]]" id Some] show ?thesis
    using q by (auto simp: c limits_allow_def codec_ok_def length_frame numeral_3_eq_3 TypeSnappy_def)
qed

text \<open>A small queue: one block in memory, everything else on disk, no compression.\<close>

definition tiny_config :: FastQueueConfig where
  "tiny_config = \<lparr>MaxInmemoryBlocks = 1, ChunkFileSize = 1000, cfg_MaxSize = 0, cfg_MaxBytes = 0,
     WriteBufferSize = 100, Compression = ''none''\<rparr>"

definition tiny_queue :: FastQueue where
  "tiny_queue = (case NewFastQueue False False tiny_config empty_fsys None of Inr q \<Rightarrow> q | Inl _ \<Rightarrow> undefined)"

definition push_all :: "FastQueue \<Rightarrow> bytes list \<Rightarrow> FastQueue" where
  "push_all q ds = snd (thread (fq_Push id False) q ds)"


text \<open>
  Peeking loses blocks. With four blocks on disk and the first popped, \<open>Peek\<close> shows the second block but the
  next \<open>Pop\<close> returns the third: peeking moves the position of the file that \<open>Pop\<close> reads from.
\<close>

theorem fastqueue_peek_skips_block:
  "(let q1 = push_all tiny_queue [[1], [2], [3], [4]];
        (r1, q2) = fq_Pop Some False q1;
        (r2, q3) = fq_Peek id Some False q2;
        (r3, q4) = fq_Pop Some False q3
    in (r1, r2, r3)) = (Inr (Some [1]), Inr (Some [2]), Inr (Some [3]))"
  by code_simp

text \<open>
  Blocks are overwritten after a restart. When blocks 1 and 2 are stored, the queue is closed and opened again, and 3 and 4
  spill to disk, the next \<open>Pop\<close> finds nothing: the writer's file is not in append mode after
  recovery and the reader has moved its position to the start, so the new blocks overwrite the stored ones.
\<close>

theorem fastqueue_restart_overwrites_blocks:
  "(let q1 = snd (fq_Close id False (push_all tiny_queue [[1], [2]]))
    in case NewFastQueue False False tiny_config (fs q1) (meta_file q1) of
         Inr q2 \<Rightarrow>
           (let q3 = push_all q2 [[3], [4]];
                (r, q4) = fq_Pop Some False q3
            in (fq_Len q2, r, fq_Len q4, inodes (fs q4) 0 = frame id False [3] @ frame id False [4]))
       | Inl _ \<Rightarrow> (0, Inr None, 0, False)) = (2, Inr None, 4, True)"
  by code_simp

end
