(* ===== verification/Send_Queue.thy ===== *)
theory Send_Queue
  imports Fast_Queue_Correct Fifo "HOL-Library.AList"
begin

text \<open>
  The send queue of \<open>internal/queue/queue.go\<close>: what happens when the queue on disk is full, and the
  retry counters. It owns a \<open>FastQueue\<close>; its behaviour on a full queue drops the oldest
  entries, drops the new one, or waits. Waiting releases the lock: each wake-up carries what
  other goroutines did to the queue meanwhile and whether the timer has fired by then. The labels of
  \<open>queueDroppedTotal\<close> are kept in the state in the order they are counted. Configuration fields that no operation
  of this file reads, paths and timestamps are left out; durations are in nanoseconds.
\<close>

section \<open>Model\<close>

definition DropOldest :: string where "DropOldest = ''drop_oldest''"
definition DropNewest :: string where "DropNewest = ''drop_newest''"
definition Block :: string where "Block = ''block''"

datatype sq_error =
    SqText string
  | SqWrap string fq_error
  | SqFast fq_error
  | SqCodec string
  | SqOuter string sq_error

record SendConfig =
  sc_MaxSize :: int
  sc_MaxBytes :: int
  sc_RetryInterval :: int
  sc_MaxRetryDelay :: int
  sc_FullBehavior :: string
  sc_BlockTimeout :: int
  sc_InmemoryBlocks :: int
  sc_ChunkSize :: int
  sc_WriteBufferSize :: int
  sc_Compression :: string

record QueueEntry =
  ID :: string
  Data :: bytes
  Retries :: int

record SendQueue =
  sq_config :: SendConfig
  fq :: FastQueue
  sq_closed :: bool
  retries :: "(string \<times> int) list"
  dropped :: "string list"

definition DefaultConfig :: SendConfig where
  "DefaultConfig = \<lparr>sc_MaxSize = 10000, sc_MaxBytes = 1073741824, sc_RetryInterval = 5 * 10 ^ 9, sc_MaxRetryDelay = 300 * 10 ^ 9,
     sc_FullBehavior = DropOldest, sc_BlockTimeout = 30 * 10 ^ 9, sc_InmemoryBlocks = 2048, sc_ChunkSize = 512 * 1024 * 1024,
     sc_WriteBufferSize = 262144, sc_Compression = ''snappy''\<rparr>"

text \<open>\<open>compression.ParseType\<close>, on ASCII strings; its error is ignored by the caller.\<close>

definition is_space :: "char \<Rightarrow> bool" where
  "is_space c \<longleftrightarrow> c \<in> {CHR '' '', CHR 0x09, CHR 0x0A, CHR 0x0B, CHR 0x0C, CHR 0x0D}"

definition to_lower :: "char \<Rightarrow> char" where
  "to_lower c = (if 65 \<le> (of_char c :: nat) \<and> (of_char c :: nat) \<le> 90 then char_of ((of_char c :: nat) + 32) else c)"

definition ParseType :: "string \<Rightarrow> string" where
  "ParseType s =
     (let t = map to_lower (rev (dropWhile is_space (rev (dropWhile is_space s))))
      in if t \<in> {''gzip'', ''zstd'', ''snappy'', ''zlib'', ''deflate''} then t else ''none'')"

definition send_defaults :: "SendConfig \<Rightarrow> SendConfig" where
  "send_defaults c =
     c\<lparr>sc_MaxSize := (if sc_MaxSize c = 0 then 10000 else sc_MaxSize c),
       sc_RetryInterval := (if sc_RetryInterval c = 0 then 5 * 10 ^ 9 else sc_RetryInterval c),
       sc_MaxRetryDelay := (if sc_MaxRetryDelay c = 0 then 300 * 10 ^ 9 else sc_MaxRetryDelay c),
       sc_FullBehavior := (if sc_FullBehavior c = [] then DropOldest else sc_FullBehavior c),
       sc_BlockTimeout := (if sc_BlockTimeout c = 0 then 30 * 10 ^ 9 else sc_BlockTimeout c),
       sc_InmemoryBlocks := (if sc_InmemoryBlocks c \<le> 0 then 2048 else sc_InmemoryBlocks c),
       sc_ChunkSize := (if sc_ChunkSize c \<le> 0 then 512 * 1024 * 1024 else sc_ChunkSize c),
       sc_WriteBufferSize := (if sc_WriteBufferSize c \<le> 0 then 262144 else sc_WriteBufferSize c),
       sc_Compression := (if sc_Compression c = [] then ''snappy'' else sc_Compression c)\<rparr>"

definition fast_config :: "SendConfig \<Rightarrow> FastQueueConfig" where
  "fast_config c = \<lparr>MaxInmemoryBlocks = sc_InmemoryBlocks c, ChunkFileSize = sc_ChunkSize c, cfg_MaxSize = sc_MaxSize c,
     cfg_MaxBytes = sc_MaxBytes c, WriteBufferSize = sc_WriteBufferSize c, Compression = ParseType (sc_Compression c)\<rparr>"

definition NewSendQueue :: "bool \<Rightarrow> bool \<Rightarrow> SendConfig \<Rightarrow> fsys \<Rightarrow> fastqueueMeta option \<Rightarrow> sq_error + SendQueue" where
  "NewSendQueue timed_out full c files meta =
     (let c = send_defaults c
      in case NewFastQueue timed_out full (fast_config c) files meta of
           Inl e \<Rightarrow> Inl (SqWrap ''failed to create FastQueue'' e)
         | Inr f \<Rightarrow> Inr \<lparr>sq_config = c, fq = f, sq_closed = False, retries = [], dropped = []\<rparr>)"

definition count_drop :: "string \<Rightarrow> SendQueue \<Rightarrow> SendQueue" where
  "count_drop label q = q\<lparr>dropped := dropped q @ [label]\<rparr>"

type_synonym wakeup = "(SendQueue \<Rightarrow> SendQueue) \<times> bool"

text \<open>The waiting loop; \<open>None\<close> is a goroutine that has not been woken again.\<close>

fun block_wait ::
    "(bytes \<Rightarrow> bytes) \<Rightarrow> bool \<Rightarrow> string \<Rightarrow> sq_error \<Rightarrow> bool \<Rightarrow> wakeup list \<Rightarrow> SendQueue \<Rightarrow> bytes
      \<Rightarrow> (sq_error option \<times> SendQueue) option" where
  "block_wait enc full label e timedOut wakes q data =
     (if timedOut then Some (Some e, count_drop label q)
      else case wakes of
        [] \<Rightarrow> None
      | (others, timedOut) # wakes \<Rightarrow>
          let q = others q
          in if sq_closed q then Some (Some (SqText ''queue is closed''), q)
             else case fq_Push enc full (fq q) data of
               (None, f) \<Rightarrow> Some (None, q\<lparr>fq := f\<rparr>)
             | (Some _, f) \<Rightarrow> block_wait enc full label e timedOut wakes (q\<lparr>fq := f\<rparr>) data)"

declare block_wait.simps [simp del]

partial_function (option) push_loop ::
    "(bytes \<Rightarrow> bytes) \<Rightarrow> (bytes \<Rightarrow> bytes option) \<Rightarrow> bool \<Rightarrow> wakeup list \<Rightarrow> SendQueue \<Rightarrow> bytes
      \<Rightarrow> (sq_error option \<times> SendQueue) option" where
  "push_loop enc dec full wakes q data =
     (case fq_Push enc full (fq q) data of
        (None, f) \<Rightarrow> Some (None, q\<lparr>fq := f\<rparr>)
      | (Some err, f) \<Rightarrow>
          let q = q\<lparr>fq := f\<rparr>;
              behavior = sc_FullBehavior (sq_config q)
          in if err = ErrDiskFull \<and> behavior = DropOldest then
               (case fq_Pop dec full (fq q) of
                  (Inl _, f) \<Rightarrow> Some (Some (SqWrap ''disk full and failed to drop oldest'' err),
                                    count_drop ''disk_full_drop_failed'' (q\<lparr>fq := f\<rparr>))
                | (Inr _, f) \<Rightarrow> push_loop enc dec full wakes (count_drop ''disk_full'' (q\<lparr>fq := f\<rparr>)) data)
             else if err = ErrDiskFull \<and> behavior = DropNewest then Some (None, count_drop ''disk_full_newest'' q)
             else if err = ErrDiskFull \<and> behavior = Block then
               block_wait enc full ''disk_full_timeout'' (SqWrap ''timeout waiting for disk space'' err) False wakes q data
             else if err = ErrQueueFull \<and> behavior = DropOldest then
               (case fq_Pop dec full (fq q) of
                  (Inl _, f) \<Rightarrow> Some (Some (SqWrap ''queue full and failed to drop oldest'' err),
                                    count_drop ''oldest_drop_failed'' (q\<lparr>fq := f\<rparr>))
                | (Inr _, f) \<Rightarrow> push_loop enc dec full wakes (count_drop ''oldest'' (q\<lparr>fq := f\<rparr>)) data)
             else if err = ErrQueueFull \<and> behavior = DropNewest then Some (None, count_drop ''newest'' q)
             else if err = ErrQueueFull \<and> behavior = Block then
               block_wait enc full ''block_timeout'' (SqText ''timeout waiting for queue space'') False wakes q data
             else Some (Some (SqWrap ''failed to push to queue'' err), count_drop ''error'' q))"

declare push_loop.simps [code]

definition pushData ::
    "(bytes \<Rightarrow> bytes) \<Rightarrow> (bytes \<Rightarrow> bytes option) \<Rightarrow> bool \<Rightarrow> wakeup list \<Rightarrow> SendQueue \<Rightarrow> bytes
      \<Rightarrow> (sq_error option \<times> SendQueue) option" where
  "pushData enc dec full wakes q data =
     (if sq_closed q then Some (Some (SqText ''queue is closed''), q) else push_loop enc dec full wakes q data)"

definition PushData ::
    "(bytes \<Rightarrow> bytes) \<Rightarrow> (bytes \<Rightarrow> bytes option) \<Rightarrow> bool \<Rightarrow> wakeup list \<Rightarrow> SendQueue \<Rightarrow> bytes
      \<Rightarrow> (sq_error option \<times> SendQueue) option" where
  "PushData = pushData"

text \<open>\<open>Push\<close> of an OTLP request, whose generated encoder is a parameter.\<close>

definition sq_Push ::
    "('r \<Rightarrow> bytes option) \<Rightarrow> (bytes \<Rightarrow> bytes) \<Rightarrow> (bytes \<Rightarrow> bytes option) \<Rightarrow> bool \<Rightarrow> wakeup list \<Rightarrow> SendQueue \<Rightarrow> 'r
      \<Rightarrow> (sq_error option \<times> SendQueue) option" where
  "sq_Push MarshalVT enc dec full wakes q req =
     (case MarshalVT req of
        None \<Rightarrow> Some (Some (SqCodec ''failed to marshal request''), q)
      | Some data \<Rightarrow> pushData enc dec full wakes q data)"

definition maxRetryEntries :: nat where "maxRetryEntries = 10000"

definition cleanRetries :: "SendQueue \<Rightarrow> SendQueue" where
  "cleanRetries q = (if length (retries q) > maxRetryEntries then q\<lparr>retries := []\<rparr> else q)"

definition getRetries :: "SendQueue \<Rightarrow> string \<Rightarrow> int" where
  "getRetries q i = (case map_of (retries q) i of None \<Rightarrow> 0 | Some n \<Rightarrow> n)"

definition UpdateRetries :: "SendQueue \<Rightarrow> string \<Rightarrow> int \<Rightarrow> SendQueue" where
  "UpdateRetries q i n = q\<lparr>retries := AList.update i n (retries q)\<rparr>"

text \<open>\<open>Pop\<close>; the argument \<open>i\<close> is what \<open>randomID\<close> returns.\<close>

definition sq_Pop :: "(bytes \<Rightarrow> bytes option) \<Rightarrow> bool \<Rightarrow> string \<Rightarrow> SendQueue \<Rightarrow> (sq_error + QueueEntry option) \<times> SendQueue" where
  "sq_Pop dec full i q =
     (if sq_closed q then (Inl (SqFast ErrQueueClosed), q)
      else case fq_Pop dec full (fq q) of
        (Inl e, f) \<Rightarrow> (Inl (SqFast e), q\<lparr>fq := f\<rparr>)
      | (Inr None, f) \<Rightarrow> (Inr None, q\<lparr>fq := f\<rparr>)
      | (Inr (Some data), f) \<Rightarrow>
          (Inr (Some \<lparr>ID = i, Data = data, Retries = 0\<rparr>), cleanRetries (q\<lparr>fq := f\<rparr>)))"

definition sq_Peek ::
    "(bytes \<Rightarrow> bytes) \<Rightarrow> (bytes \<Rightarrow> bytes option) \<Rightarrow> bool \<Rightarrow> SendQueue \<Rightarrow> (sq_error + QueueEntry option) \<times> SendQueue" where
  "sq_Peek enc dec full q =
     (if sq_closed q then (Inl (SqFast ErrQueueClosed), q)
      else case fq_Peek enc dec full (fq q) of
        (Inl e, f) \<Rightarrow> (Inl (SqFast e), q\<lparr>fq := f\<rparr>)
      | (Inr None, f) \<Rightarrow> (Inr None, q\<lparr>fq := f\<rparr>)
      | (Inr (Some data), f) \<Rightarrow>
          (Inr (Some \<lparr>ID = ''peek-head'', Data = data, Retries = getRetries q ''peek-head''\<rparr>), q\<lparr>fq := f\<rparr>))"

definition Remove :: "SendQueue \<Rightarrow> string \<Rightarrow> sq_error option \<times> SendQueue" where
  "Remove q i =
     (if sq_closed q then (Some (SqFast ErrQueueClosed), q)
      else (None, q\<lparr>retries := AList.delete i (retries q)\<rparr>))"

definition sq_Len :: "SendQueue \<Rightarrow> int" where "sq_Len q = fq_Len (fq q)"
definition sq_Size :: "SendQueue \<Rightarrow> int" where "sq_Size q = fq_Size (fq q)"
definition EffectiveMaxSize :: "SendQueue \<Rightarrow> int" where "EffectiveMaxSize q = sc_MaxSize (sq_config q)"
definition EffectiveMaxBytes :: "SendQueue \<Rightarrow> int" where "EffectiveMaxBytes q = sc_MaxBytes (sq_config q)"

definition sq_Close :: "(bytes \<Rightarrow> bytes) \<Rightarrow> bool \<Rightarrow> SendQueue \<Rightarrow> fq_error list \<times> SendQueue" where
  "sq_Close enc full q =
     (let q = q\<lparr>sq_closed := True\<rparr>
      in case fq_Close enc full (fq q) of (errs, f) \<Rightarrow> (errs, q\<lparr>fq := f\<rparr>))"

definition GetRequest :: "(bytes \<Rightarrow> 'r option) \<Rightarrow> QueueEntry \<Rightarrow> sq_error + 'r" where
  "GetRequest UnmarshalVT e =
     (case UnmarshalVT (Data e) of None \<Rightarrow> Inl (SqCodec ''failed to unmarshal request'') | Some r \<Rightarrow> Inr r)"

section \<open>Queues that stay in memory\<close>

text \<open>
  When \<open>MaxSize\<close> is at most the capacity of the channel nothing spills to disk. \<open>queue_fits\<close> says that
  an entry may join the entries \<open>ds\<close> under the two limits.
\<close>

definition fast_mem :: "FastQueue \<Rightarrow> bool" where
  "fast_mem f \<longleftrightarrow> \<not> closed f \<and> writerOffset f \<le> readerOffset f \<and> activeCount f = int (length (ch f))
     \<and> totalBytes f = int (length (concat (ch f))) \<and> 0 < cfg_MaxSize (cfg f)
     \<and> int (length (ch f)) \<le> cfg_MaxSize (cfg f) \<and> cfg_MaxSize (cfg f) \<le> MaxInmemoryBlocks (cfg f)"

definition mem_only :: "SendQueue \<Rightarrow> bool" where
  "mem_only q \<longleftrightarrow> \<not> sq_closed q \<and> fast_mem (fq q)"

definition queue_fits :: "FastQueueConfig \<Rightarrow> bytes list \<Rightarrow> bytes \<Rightarrow> bool" where
  "queue_fits c ds data \<longleftrightarrow> int (length ds) < cfg_MaxSize c
     \<and> (cfg_MaxBytes c > 0 \<longrightarrow> int (length (concat ds)) + int (length data) \<le> cfg_MaxBytes c)"

lemma Push_mem:
  assumes "fast_mem f"
  shows "fq_Push enc full f data =
    (if queue_fits (cfg f) (ch f) data then
       (None, f\<lparr>ch := ch f @ [data], inmemoryBytes := inmemoryBytes f + int (length data),
                activeCount := activeCount f + 1, totalBytes := totalBytes f + int (length data)\<rparr>)
     else (Some ErrQueueFull, f))"
  using assms by (auto simp: fq_Push_def fast_mem_def queue_fits_def)

lemma Push_mem_keeps:
  "fast_mem f \<Longrightarrow> fast_mem (snd (fq_Push enc full f data)) \<and> cfg (snd (fq_Push enc full f data)) = cfg f"
  by (simp add: Push_mem) (simp add: fast_mem_def queue_fits_def)

lemma Pop_mem:
  assumes "fast_mem f"
  shows "ch f = [] \<Longrightarrow> fq_Pop dec full f = (Inr None, f)"
    and "ch f = d # ds \<Longrightarrow> \<exists>f'. fq_Pop dec full f = (Inr (Some d), f') \<and> fast_mem f' \<and> ch f' = ds \<and> cfg f' = cfg f"
  using assms by (auto simp: fq_Pop_def pop_channel_def fast_mem_def)

lemma Pop_mem_keeps:
  assumes "fast_mem f"
  obtains r f' where "fq_Pop dec full f = (Inr r, f')" "fast_mem f'" "ch f' = tl (ch f)" "cfg f' = cfg f"
  using Pop_mem [OF assms, where dec = dec and full = full] assms by (cases "ch f") auto

lemma queue_fits_Nil:
  "fast_mem f \<Longrightarrow> (cfg_MaxBytes (cfg f) > 0 \<longrightarrow> int (length data) \<le> cfg_MaxBytes (cfg f)) \<Longrightarrow> queue_fits (cfg f) [] data"
  by (simp add: queue_fits_def fast_mem_def)

lemma push_loop_accepts:
  assumes "fast_mem (fq q)" "queue_fits (cfg (fq q)) (ch (fq q)) data"
  shows "\<exists>q'. push_loop enc dec full wakes q data = Some (None, q') \<and> fast_mem (fq q') \<and> ch (fq q') = ch (fq q) @ [data]
    \<and> cfg (fq q') = cfg (fq q) \<and> sq_config q' = sq_config q \<and> sq_closed q' = sq_closed q \<and> dropped q' = dropped q"
proof -
  let ?p = "fq_Push enc full (fq q) data"
  have p: "fst ?p = None" "ch (snd ?p) = ch (fq q) @ [data]" using assms by (simp_all add: Push_mem)
  then have "push_loop enc dec full wakes q data = Some (None, q\<lparr>fq := snd ?p\<rparr>)"
    by (subst push_loop.simps) (simp add: split_beta)
  with p(2) Push_mem_keeps [OF assms(1), of enc full data] show ?thesis by simp
qed

text \<open>The loop when the entry does not fit: one entry is dropped, if there is one, and the loop goes on.\<close>

lemma push_loop_drops:
  assumes "fast_mem (fq q)" "\<not> queue_fits (cfg (fq q)) (ch (fq q)) data" "sc_FullBehavior (sq_config q) = DropOldest"
  obtains f where "push_loop enc dec full wakes q data = push_loop enc dec full wakes (count_drop ''oldest'' (q\<lparr>fq := f\<rparr>)) data"
    "fast_mem f" "ch f = tl (ch (fq q))" "cfg f = cfg (fq q)"
proof -
  obtain r f where r: "fq_Pop dec full (fq q) = (Inr r, f)" "fast_mem f" "ch f = tl (ch (fq q))" "cfg f = cfg (fq q)"
    using Pop_mem_keeps [OF assms(1)] .
  then have "push_loop enc dec full wakes q data = push_loop enc dec full wakes (count_drop ''oldest'' (q\<lparr>fq := f\<rparr>)) data"
    using assms by (subst push_loop.simps) (simp add: Push_mem Let_def)
  with r show thesis using that by blast
qed

lemma push_loop_drop_oldest:
  assumes "fast_mem (fq q)" "sc_FullBehavior (sq_config q) = DropOldest"
    and "cfg_MaxBytes (cfg (fq q)) > 0 \<longrightarrow> int (length data) \<le> cfg_MaxBytes (cfg (fq q))"
  shows "\<exists>q' k. push_loop enc dec full wakes q data = Some (None, q') \<and> fast_mem (fq q')
    \<and> ch (fq q') = drop k (ch (fq q)) @ [data] \<and> queue_fits (cfg (fq q)) (drop k (ch (fq q))) data
    \<and> (\<forall>j < k. \<not> queue_fits (cfg (fq q)) (drop j (ch (fq q))) data) \<and> cfg (fq q') = cfg (fq q)
    \<and> sq_config q' = sq_config q \<and> sq_closed q' = sq_closed q \<and> dropped q' = dropped q @ replicate k ''oldest''"
  using assms
proof (induction "ch (fq q)" arbitrary: q)
  case Nil
  then have "queue_fits (cfg (fq q)) (ch (fq q)) data" using queue_fits_Nil by metis
  then obtain q' where "push_loop enc dec full wakes q data = Some (None, q') \<and> fast_mem (fq q') \<and> ch (fq q') = ch (fq q) @ [data]
    \<and> cfg (fq q') = cfg (fq q) \<and> sq_config q' = sq_config q \<and> sq_closed q' = sq_closed q \<and> dropped q' = dropped q"
    using push_loop_accepts [OF Nil.prems(1)] by blast
  then show ?case using \<open>queue_fits _ _ _\<close> by (intro exI [of _ q'] exI [of _ 0]) simp
next
  case (Cons d ds)
  show ?case
  proof (cases "queue_fits (cfg (fq q)) (ch (fq q)) data")
    case True
    then obtain q' where "push_loop enc dec full wakes q data = Some (None, q') \<and> fast_mem (fq q') \<and> ch (fq q') = ch (fq q) @ [data]
      \<and> cfg (fq q') = cfg (fq q) \<and> sq_config q' = sq_config q \<and> sq_closed q' = sq_closed q \<and> dropped q' = dropped q"
      using push_loop_accepts [OF Cons.prems(1)] by blast
    then show ?thesis using True by (intro exI [of _ q'] exI [of _ 0]) simp
  next
    case False
    obtain f where f: "push_loop enc dec full wakes q data = push_loop enc dec full wakes (count_drop ''oldest'' (q\<lparr>fq := f\<rparr>)) data"
        "fast_mem f" "ch f = tl (ch (fq q))" "cfg f = cfg (fq q)"
      using push_loop_drops [OF Cons.prems(1) False Cons.prems(2)] by blast
    let ?q = "count_drop ''oldest'' (q\<lparr>fq := f\<rparr>)"
    have q: "fq ?q = f" "sq_config ?q = sq_config q" "sq_closed ?q = sq_closed q" "dropped ?q = dropped q @ [''oldest'']"
      by (simp_all add: count_drop_def)
    have ds: "ch (fq q) = d # ds" using Cons.hyps(2) by (rule sym)
    then have ds': "ds = ch (fq ?q)" using f(3) q(1) by simp
    obtain q' k where q': "push_loop enc dec full wakes ?q data = Some (None, q')" "fast_mem (fq q')"
        "ch (fq q') = drop k ds @ [data]" "queue_fits (cfg (fq q)) (drop k ds) data"
        "\<forall>j < k. \<not> queue_fits (cfg (fq q)) (drop j ds) data" "cfg (fq q') = cfg (fq q)" "sq_config q' = sq_config q"
        "sq_closed q' = sq_closed q" "dropped q' = dropped q @ ''oldest'' # replicate k ''oldest''"
      using Cons.hyps(1) [OF ds'] f(2,4) q Cons.prems(2,3) f(3) ds by auto
    have "\<not> queue_fits (cfg (fq q)) (drop j (ch (fq q))) data" if "j < Suc k" for j
      using that q'(5) False ds by (cases j) auto
    then show ?thesis using q' f(1) ds by (intro exI [of _ q'] exI [of _ "Suc k"]) simp
  qed
qed

lemma push_loop_oversize:
  assumes "push_loop enc dec full wakes q data = Some r"
    and "fast_mem (fq q)" "sc_FullBehavior (sq_config q) = DropOldest" "cfg_MaxBytes (cfg (fq q)) > 0"
  shows "int (length data) \<le> cfg_MaxBytes (cfg (fq q))"
proof -
  have "fast_mem (fq q) \<longrightarrow> sc_FullBehavior (sq_config q) = DropOldest \<longrightarrow> cfg_MaxBytes (cfg (fq q)) > 0
    \<longrightarrow> int (length data) \<le> cfg_MaxBytes (cfg (fq q))"
  proof (rule push_loop.raw_induct [where P = "\<lambda>enc dec full wakes q data r. fast_mem (fq q)
      \<longrightarrow> sc_FullBehavior (sq_config q) = DropOldest \<longrightarrow> cfg_MaxBytes (cfg (fq q)) > 0
      \<longrightarrow> int (length data) \<le> cfg_MaxBytes (cfg (fq q))",
      OF _ assms(1)], intro impI, goal_cases)
    case (1 loop enc dec full wakes q data r)
    obtain x f where f: "fq_Pop dec full (fq q) = (Inr x, f)" "fast_mem f" "cfg f = cfg (fq q)"
      using Pop_mem_keeps [OF 1(3)] by metis
    show ?case
    proof (cases "queue_fits (cfg (fq q)) (ch (fq q)) data")
      case True
      then show ?thesis using 1(5) by (simp add: queue_fits_def)
    next
      case False
      then have "loop enc dec full wakes (count_drop ''oldest'' (q\<lparr>fq := f\<rparr>)) data = Some r"
        using 1(2-4) f by (simp add: Push_mem Let_def)
      from 1(1) [OF this] show ?thesis using 1(4,5) f by (simp add: count_drop_def)
    qed
  qed
  then show ?thesis using assms by simp
qed

section \<open>First in, first out\<close>

text \<open>A push whose caller goes on whatever the answer; nobody wakes it when it has to wait.\<close>

definition send_or_keep :: "(bytes \<Rightarrow> bytes) \<Rightarrow> (bytes \<Rightarrow> bytes option) \<Rightarrow> bool \<Rightarrow> SendQueue \<Rightarrow> bytes \<Rightarrow> SendQueue" where
  "send_or_keep enc dec full q data = (case pushData enc dec full [] q data of None \<Rightarrow> q | Some (_, q') \<Rightarrow> q')"

definition pop_data :: "(bytes \<Rightarrow> bytes option) \<Rightarrow> bool \<Rightarrow> string \<Rightarrow> SendQueue \<Rightarrow> bytes option \<times> SendQueue" where
  "pop_data dec full i q =
     (case sq_Pop dec full i q of (r, q) \<Rightarrow> (case r of Inr (Some e) \<Rightarrow> Some (Data e) | _ \<Rightarrow> None, q))"

lemma push_loop_refuses:
  assumes "fast_mem (fq q)" "\<not> queue_fits (cfg (fq q)) (ch (fq q)) data" "sc_FullBehavior (sq_config q) \<noteq> DropOldest"
  shows "case push_loop enc dec full [] q data of None \<Rightarrow> True
    | Some (_, q') \<Rightarrow> fq q' = fq q \<and> sq_closed q' = sq_closed q"
  using assms by (subst push_loop.simps) (simp add: Push_mem Let_def block_wait.simps count_drop_def)

lemma send_or_keep_mem:
  assumes "mem_only q"
  shows "mem_only (send_or_keep enc dec full q data)
    \<and> subseq (ch (fq (send_or_keep enc dec full q data))) (ch (fq q) @ [data])"
proof -
  have m: "fast_mem (fq q)" "\<not> sq_closed q" using assms by (simp_all add: mem_only_def)
  have p: "pushData enc dec full [] q data = push_loop enc dec full [] q data" using m by (simp add: pushData_def)
  consider "queue_fits (cfg (fq q)) (ch (fq q)) data"
    | "\<not> queue_fits (cfg (fq q)) (ch (fq q)) data" "sc_FullBehavior (sq_config q) \<noteq> DropOldest"
    | "sc_FullBehavior (sq_config q) = DropOldest" by blast
  then show ?thesis
  proof cases
    case 1
    then show ?thesis
      using push_loop_accepts [OF m(1) 1, where enc = enc and dec = dec and full = full and wakes = "[]"] m
      by (auto simp: send_or_keep_def p mem_only_def)
  next
    case 2
    then show ?thesis
      using push_loop_refuses [OF m(1) 2, where enc = enc and dec = dec and full = full] m
      by (auto simp: send_or_keep_def p mem_only_def intro: prefix_imp_subseq split: option.splits)
  next
    case 3
    show ?thesis
    proof (cases "push_loop enc dec full [] q data")
      case None
      then show ?thesis using assms by (simp add: send_or_keep_def p prefix_imp_subseq)
    next
      case (Some r)
      then have "cfg_MaxBytes (cfg (fq q)) > 0 \<longrightarrow> int (length data) \<le> cfg_MaxBytes (cfg (fq q))"
        using push_loop_oversize [OF Some m(1) 3] by blast
      then obtain q' k where "push_loop enc dec full [] q data = Some (None, q')" "fast_mem (fq q')" "sq_closed q' = sq_closed q"
          "ch (fq q') = drop k (ch (fq q)) @ [data]"
        using push_loop_drop_oldest [OF m(1) 3] by blast
      then show ?thesis
        using m by (simp add: send_or_keep_def p mem_only_def suffix_drop suffix_imp_subseq)
    qed
  qed
qed

lemma pop_data_mem:
  assumes "mem_only q"
  shows "ch (fq q) = [] \<Longrightarrow> pop_data dec full i q = (None, q)"
    and "ch (fq q) = d # ds \<Longrightarrow> fst (pop_data dec full i q) = Some d \<and> mem_only (snd (pop_data dec full i q))
      \<and> ch (fq (snd (pop_data dec full i q))) = ds"
  using assms Pop_mem [of "fq q", where dec = dec and full = full]
  by (auto simp: pop_data_def sq_Pop_def mem_only_def cleanRetries_def split: if_splits)

interpretation send_fifo: lossy_fifo mem_only "\<lambda>q. ch (fq q)" "send_or_keep enc dec full" "pop_data dec full i"
proof unfold_locales
  fix q :: SendQueue assume m: "mem_only q"
  show "mem_only (snd (pop_data dec full i q))"
    using pop_data_mem [OF m, where dec = dec and full = full and i = i] m by (cases "ch (fq q)") auto
qed (use send_or_keep_mem pop_data_mem in auto)

section \<open>Properties\<close>

text \<open>
  A concrete queue for the witnesses: at most three entries and four bytes, all in memory.
\<close>

definition small_config :: "string \<Rightarrow> SendConfig" where
  "small_config behavior = DefaultConfig\<lparr>sc_MaxSize := 3, sc_MaxBytes := 4, sc_FullBehavior := behavior\<rparr>"

definition small_queue :: "string \<Rightarrow> SendQueue" where
  "small_queue behavior =
     (case NewSendQueue False False (small_config behavior) empty_fsys None of
        Inr q \<Rightarrow> send_or_keep id Some False (send_or_keep id Some False q [1]) [2, 3])"

definition spill_queue :: SendQueue where
  "spill_queue =
     (case NewSendQueue False False (DefaultConfig\<lparr>sc_FullBehavior := DropNewest, sc_InmemoryBlocks := 1, sc_ChunkSize := 100,
         sc_WriteBufferSize := 16\<rparr>) empty_fsys None of
        Inr q \<Rightarrow> send_or_keep id Some False q [0])"

lemma small_queue_mem:
  "mem_only (small_queue DropOldest)" "ch (fq (small_queue DropOldest)) = [[1], [2, 3]]"
  "cfg_MaxBytes (cfg (fq (small_queue DropOldest))) = 4" "sc_FullBehavior (sq_config (small_queue DropOldest)) = DropOldest"
  "mem_only (small_queue DropNewest)" "ch (fq (small_queue DropNewest)) = [[1], [2, 3]]"
  by code_simp+

text \<open>
  Dropping the oldest makes just enough room. On an open queue that stays in memory, with \<open>drop_oldest\<close>, pushing an
  entry no larger than \<open>MaxBytes\<close> returns no error; the entry is then last, behind the old
  entries less the first \<open>k\<close>; the limits hold; with fewer dropped they would not have; and
  exactly \<open>k\<close> drops are counted.
\<close>

theorem pushData_drop_oldest:
  assumes "mem_only q" "sc_FullBehavior (sq_config q) = DropOldest"
    and "cfg_MaxBytes (cfg (fq q)) > 0 \<longrightarrow> int (length data) \<le> cfg_MaxBytes (cfg (fq q))"
  shows "\<exists>q' k. pushData enc dec full wakes q data = Some (None, q') \<and> mem_only q'
    \<and> ch (fq q') = drop k (ch (fq q)) @ [data] \<and> queue_fits (cfg (fq q)) (drop k (ch (fq q))) data
    \<and> (\<forall>j < k. \<not> queue_fits (cfg (fq q)) (drop j (ch (fq q))) data) \<and> dropped q' = dropped q @ replicate k ''oldest''"
proof -
  have m: "fast_mem (fq q)" "\<not> sq_closed q" using assms(1) by (simp_all add: mem_only_def)
  then show ?thesis
    using push_loop_drop_oldest [OF m(1) assms(2,3), where enc = enc and dec = dec and full = full and wakes = wakes]
    by (auto simp: pushData_def mem_only_def)
qed

theorem pushData_drop_oldest_witness:
  "\<exists>q' k. pushData id Some False [] (small_queue DropOldest) [4, 5] = Some (None, q')
    \<and> ch (fq q') = drop k [[1], [2, 3]] @ [[4, 5]] \<and> dropped q' = dropped (small_queue DropOldest) @ replicate k ''oldest''"
  using pushData_drop_oldest [OF small_queue_mem(1,4), of "[4, 5]" id Some False "[]"]
  by (auto simp: small_queue_mem)

text \<open>
  An entry larger than \<open>MaxBytes\<close> makes \<open>drop_oldest\<close> run forever: on an open queue that stays in memory the push
  never returns, after dropping every entry, and it holds the queue's lock all that time.
\<close>

theorem pushData_oversize_diverges:
  assumes "mem_only q" "sc_FullBehavior (sq_config q) = DropOldest"
    and "0 < cfg_MaxBytes (cfg (fq q))" "cfg_MaxBytes (cfg (fq q)) < int (length data)"
  shows "pushData enc dec full wakes q data = None"
  using assms push_loop_oversize [of enc dec full wakes q data]
  by (cases "push_loop enc dec full wakes q data") (auto simp: pushData_def mem_only_def)

theorem pushData_oversize_diverges_witness:
  "pushData id Some False [] (small_queue DropOldest) [1, 2, 3, 4, 5] = None"
  using pushData_oversize_diverges [OF small_queue_mem(1,4), of "[1, 2, 3, 4, 5]" id Some False "[]"]
  by (simp add: small_queue_mem)

text \<open>
  The queue delivers in order. However pushes and pops alternate on a queue that stays in memory, with any
  behaviour on a full queue, what was popped, followed by what is still queued, is a subsequence of what was queued and pushed:
  nothing is reordered, duplicated or invented.
\<close>

theorem send_queue_fifo:
  assumes "mem_only q" "run_queue (send_or_keep enc dec full) (pop_data dec full i) q ops = (out, q')"
  shows "mem_only q' \<and> subseq (out @ ch (fq q')) (ch (fq q) @ pushed ops)"
  by (rule send_fifo.run_fifo [OF assms])

theorem send_queue_fifo_witness:
  "\<exists>out q'. run_queue (send_or_keep id Some False) (pop_data Some False ''a'') (small_queue DropNewest)
      [PopOp, PushOp [7], PushOp [8, 9], PopOp] = (out, q') \<and> subseq (out @ ch (fq q')) [[1], [2, 3], [7], [8, 9]]"
proof -
  obtain out q' where r: "run_queue (send_or_keep id Some False) (pop_data Some False ''a'') (small_queue DropNewest)
      [PopOp, PushOp [7], PushOp [8, 9], PopOp] = (out, q')" by fastforce
  from send_queue_fifo [OF small_queue_mem(5) r] r show ?thesis by (auto simp: small_queue_mem)
qed

text \<open>
  A full disk is always an error for the caller. When the limits admit an entry but the channel is full, the
  push spills to disk, and if that fails the push answers \<open>failed to push to queue\<close>
  and counts a drop as \<open>error\<close>, for every behaviour: the branches for a full disk
  are never reached, since \<open>FastQueue.Push\<close> wraps the error they compare with.
\<close>

theorem pushData_disk_full_is_error:
  assumes "\<not> sq_closed q" "\<not> closed (fq q)" "limits_allow (fq q) [data]"
    and "MaxInmemoryBlocks (cfg (fq q)) \<le> int (length (ch (fq q)))" "fst (fq_Push enc full (fq q) data) \<noteq> None"
  shows "\<exists>e q'. pushData enc dec full wakes q data = Some (Some (SqWrap ''failed to push to queue'' e), q')
    \<and> dropped q' = dropped q @ [''error'']"
proof -
  obtain m e f where "fq_Push enc full (fq q) data = (Some (ErrWrapped m e), f)"
    using assms by (auto simp: fq_Push_def limits_allow_def split: option.splits prod.splits if_splits)
  then show ?thesis
    using assms(1) unfolding pushData_def by (subst push_loop.simps) (simp add: Let_def count_drop_def)
qed

theorem pushData_disk_full_is_error_witness:
  "\<exists>e q'. pushData id Some True [] spill_queue [1] = Some (Some (SqWrap ''failed to push to queue'' e), q')
    \<and> dropped q' = [''error'']"
proof -
  have "\<not> sq_closed spill_queue" "\<not> closed (fq spill_queue)" "limits_allow (fq spill_queue) [[1]]"
    "MaxInmemoryBlocks (cfg (fq spill_queue)) \<le> int (length (ch (fq spill_queue)))"
    "fst (fq_Push id True (fq spill_queue) [1]) \<noteq> None" "dropped spill_queue = []"
    by code_simp+
  then show ?thesis using pushData_disk_full_is_error [of spill_queue "[1]" id True Some "[]"] by simp
qed

end
