(* ===== verification/Prw_Queue.thy ===== *)
theory Prw_Queue
  imports Send_Queue Prw_Buffer
begin

text \<open>
  The PRW retry queue of \<open>internal/prw/queue.go\<close>: requests that could not be exported are encoded into
  a send queue, a background loop retries them with exponential backoff, and closing drains
  the queue. The exporter is a function on a state of its own, which answers whether it succeeded; its
  deadline is part of that answer. Durations are in nanoseconds.
\<close>

section \<open>Model\<close>

record QueueConfig =
  qc_MaxSize :: int
  qc_MaxBytes :: int
  qc_RetryInterval :: int
  qc_MaxRetryDelay :: int
  qc_FullBehavior :: string

record Queue =
  sendQueue :: SendQueue
  q_has_exporter :: bool
  q_config :: QueueConfig
  q_closed :: bool

definition DefaultQueueConfig :: QueueConfig where
  "DefaultQueueConfig = \<lparr>qc_MaxSize = 10000, qc_MaxBytes = 1073741824, qc_RetryInterval = 5 * 10 ^ 9,
     qc_MaxRetryDelay = 300 * 10 ^ 9, qc_FullBehavior = DropOldest\<rparr>"

definition queue_defaults :: "QueueConfig \<Rightarrow> QueueConfig" where
  "queue_defaults c =
     c\<lparr>qc_MaxSize := (if qc_MaxSize c = 0 then 10000 else qc_MaxSize c),
       qc_RetryInterval := (if qc_RetryInterval c = 0 then 5 * 10 ^ 9 else qc_RetryInterval c),
       qc_MaxRetryDelay := (if qc_MaxRetryDelay c = 0 then 300 * 10 ^ 9 else qc_MaxRetryDelay c),
       qc_FullBehavior := (if qc_FullBehavior c = [] then DropOldest else qc_FullBehavior c)\<rparr>"

text \<open>The configuration of the send queue; the fields that are not given are zero.\<close>

definition send_config :: "QueueConfig \<Rightarrow> SendConfig" where
  "send_config c = \<lparr>sc_MaxSize = qc_MaxSize c, sc_MaxBytes = qc_MaxBytes c, sc_RetryInterval = qc_RetryInterval c,
     sc_MaxRetryDelay = qc_MaxRetryDelay c, sc_FullBehavior = qc_FullBehavior c, sc_BlockTimeout = 0, sc_InmemoryBlocks = 0,
     sc_ChunkSize = 0, sc_WriteBufferSize = 0, sc_Compression = []\<rparr>"

definition NewQueue :: "bool \<Rightarrow> bool \<Rightarrow> QueueConfig \<Rightarrow> bool \<Rightarrow> fsys \<Rightarrow> fastqueueMeta option \<Rightarrow> sq_error + Queue" where
  "NewQueue timed_out full c given files meta =
     (let c = queue_defaults c
      in case NewSendQueue timed_out full (send_config c) files meta of
           Inl e \<Rightarrow> Inl (SqOuter ''failed to create send queue'' e)
         | Inr s \<Rightarrow> Inr \<lparr>sendQueue = s, q_has_exporter = given, q_config = c, q_closed = False\<rparr>)"

definition queue_Push ::
    "(bytes \<Rightarrow> bytes) \<Rightarrow> (bytes \<Rightarrow> bytes option) \<Rightarrow> bool \<Rightarrow> wakeup list \<Rightarrow> Queue \<Rightarrow> WriteRequest option
      \<Rightarrow> (sq_error option \<times> Queue) option" where
  "queue_Push enc dec full wakes q req =
     (case req of
        None \<Rightarrow> Some (None, q)
      | Some req \<Rightarrow>
          if length (req_Timeseries req) = 0 then Some (None, q)
          else map_option (\<lambda>(e, s). (e, q\<lparr>sendQueue := s\<rparr>))
                 (PushData enc dec full wakes (sendQueue q) (WriteRequest_Marshal req)))"

text \<open>\<open>Export\<close> answers whether it returned without an error; calling a nil exporter panics.\<close>

definition queue_Export ::
    "(bytes \<Rightarrow> bytes) \<Rightarrow> (bytes \<Rightarrow> bytes option) \<Rightarrow> bool \<Rightarrow> wakeup list \<Rightarrow> 'x exporter \<Rightarrow> Queue \<Rightarrow> 'x \<Rightarrow> WriteRequest option
      \<Rightarrow> (unit, bool \<times> Queue \<times> 'x) outcome option" where
  "queue_Export enc dec full wakes export q x req =
     (case req of
        None \<Rightarrow> Some (Ok (True, q, x))
      | Some r \<Rightarrow>
          if length (req_Timeseries r) = 0 then Some (Ok (True, q, x))
          else if \<not> q_has_exporter q then Some Panic
          else case export x r of
            (True, x) \<Rightarrow> Some (Ok (True, q, x))
          | (False, x) \<Rightarrow>
              map_option (\<lambda>(e, q). Ok (e = None, q, x)) (queue_Push enc dec full wakes q req))"

definition processQueue ::
    "(bytes \<Rightarrow> bytes) \<Rightarrow> (bytes \<Rightarrow> bytes option) \<Rightarrow> bool \<Rightarrow> 'x exporter \<Rightarrow> Queue \<Rightarrow> 'x \<Rightarrow> (unit, bool \<times> Queue \<times> 'x) outcome" where
  "processQueue enc dec full export q x =
     (case sq_Peek enc dec full (sendQueue q) of
        (Inl e, s) \<Rightarrow> Ok (False, q\<lparr>sendQueue := s\<rparr>, x)
      | (Inr None, s) \<Rightarrow> Ok (True, q\<lparr>sendQueue := s\<rparr>, x)
      | (Inr (Some entry), s) \<Rightarrow>
          (case WriteRequest_Unmarshal (Data entry) of
             Panic \<Rightarrow> Panic
           | Err _ \<Rightarrow> Ok (False, q\<lparr>sendQueue := snd (Remove s (ID entry))\<rparr>, x)
           | Ok req \<Rightarrow>
               if \<not> q_has_exporter q then Ok (False, q\<lparr>sendQueue := s\<rparr>, x)
               else case export x req of
                 (False, x) \<Rightarrow> Ok (False, q\<lparr>sendQueue := UpdateRetries s (ID entry) (Retries entry + 1)\<rparr>, x)
               | (True, x) \<Rightarrow> Ok (True, q\<lparr>sendQueue := snd (Remove s (ID entry))\<rparr>, x)))"

definition minDuration :: "int \<Rightarrow> int \<Rightarrow> int" where
  "minDuration a b = (if a < b then a else b)"

text \<open>One firing of the timer of \<open>retryLoop\<close>: the queue is processed and the next delay chosen.\<close>

definition retry_tick ::
    "(bytes \<Rightarrow> bytes) \<Rightarrow> (bytes \<Rightarrow> bytes option) \<Rightarrow> bool \<Rightarrow> 'x exporter \<Rightarrow> int \<times> Queue \<times> 'x \<Rightarrow> (unit, int \<times> Queue \<times> 'x) outcome" where
  "retry_tick enc dec full export = (\<lambda>(delay, q, x).
     bind_outcome (processQueue enc dec full export q x) (\<lambda>(ok, q, x).
       Ok (if ok then qc_RetryInterval (q_config q) else minDuration (delay * 2) (qc_MaxRetryDelay (q_config q)), q, x)))"

text \<open>\<open>drainQueue\<close> captures the exporter once; the argument \<open>i\<close> is the identifier \<open>Pop\<close> makes up.\<close>

partial_function (option) drain_loop ::
    "(bytes \<Rightarrow> bytes option) \<Rightarrow> bool \<Rightarrow> string \<Rightarrow> 'x exporter \<Rightarrow> SendQueue \<Rightarrow> 'x \<Rightarrow> (unit, SendQueue \<times> 'x) outcome option" where
  "drain_loop dec full i export s x =
     (case sq_Pop dec full i s of
        (Inl e, s) \<Rightarrow> Some (Ok (s, x))
      | (Inr r, s) \<Rightarrow>
          (case r of
             None \<Rightarrow> Some (Ok (s, x))
           | Some entry \<Rightarrow>
               (case WriteRequest_Unmarshal (Data entry) of
                  Panic \<Rightarrow> Some Panic
                | Err _ \<Rightarrow> drain_loop dec full i export s x
                | Ok req \<Rightarrow> drain_loop dec full i export s (snd (export x req)))))"

definition drainQueue ::
    "(bytes \<Rightarrow> bytes option) \<Rightarrow> bool \<Rightarrow> string \<Rightarrow> 'x exporter \<Rightarrow> Queue \<Rightarrow> 'x \<Rightarrow> (unit, Queue \<times> 'x) outcome option" where
  "drainQueue dec full i export q x =
     (if \<not> q_has_exporter q then Some (Ok (q, x))
      else map_option (\<lambda>out. bind_outcome out (\<lambda>(s, x). Ok (q\<lparr>sendQueue := s\<rparr>, x)))
             (drain_loop dec full i export (sendQueue q) x))"

text \<open>The whole retry loop: \<open>n\<close> firings of the timer, then the stop signal.\<close>

fun retryLoop ::
    "(bytes \<Rightarrow> bytes) \<Rightarrow> (bytes \<Rightarrow> bytes option) \<Rightarrow> bool \<Rightarrow> string \<Rightarrow> 'x exporter \<Rightarrow> nat \<Rightarrow> int \<times> Queue \<times> 'x
      \<Rightarrow> (unit, Queue \<times> 'x) outcome option" where
  "retryLoop enc dec full i export 0 st = (case st of (delay, q, x) \<Rightarrow> drainQueue dec full i export q x)"
| "retryLoop enc dec full i export (Suc n) st =
     (case retry_tick enc dec full export st of
        Ok st \<Rightarrow> retryLoop enc dec full i export n st
      | _ \<Rightarrow> Some Panic)"

definition queue_Len :: "Queue \<Rightarrow> int" where "queue_Len q = sq_Len (sendQueue q)"
definition queue_Size :: "Queue \<Rightarrow> int" where "queue_Size q = sq_Size (sendQueue q)"

text \<open>\<open>Close\<close> stops the retry loop, which drains the queue, and closes the send queue.\<close>

definition queue_Close ::
    "(bytes \<Rightarrow> bytes) \<Rightarrow> (bytes \<Rightarrow> bytes option) \<Rightarrow> bool \<Rightarrow> string \<Rightarrow> 'x exporter \<Rightarrow> Queue \<Rightarrow> 'x
      \<Rightarrow> (unit, fq_error list \<times> Queue \<times> 'x) outcome option" where
  "queue_Close enc dec full i export q x =
     (if q_closed q then Some (Ok ([], q, x))
      else map_option (\<lambda>out. bind_outcome out (\<lambda>(q, x).
             case sq_Close enc full (sendQueue q) of (errs, s) \<Rightarrow> Ok (errs, q\<lparr>sendQueue := s\<rparr>, x)))
             (drainQueue dec full i export (q\<lparr>q_closed := True\<rparr>) x))"

definition queue_SetExporter :: "Queue \<Rightarrow> bool \<Rightarrow> Queue" where
  "queue_SetExporter q given = q\<lparr>q_has_exporter := given\<rparr>"

section \<open>Retrying never removes\<close>

lemma writeBlock_count:
  assumes "writeBlockToDiskLocked enc full f d = (e, f')"
  shows "activeCount f' = activeCount f"
proof -
  have 1: "rotate_chunk full f n = (e, f') \<Longrightarrow> activeCount f' = activeCount f" for f n e f'
    by (auto simp: rotate_chunk_def flush_writer_def Let_def split: option.splits prod.splits if_splits bool.splits)
  have 2: "open_writer full f = (e, f') \<Longrightarrow> activeCount f' = activeCount f" for f e f'
    by (auto simp: open_writer_def split: option.splits prod.splits)
  have 3: "buffered_write full f p = (e, f') \<Longrightarrow> activeCount f' = activeCount f" for f p e f'
    by (auto simp: buffered_write_def split: option.splits prod.splits)
  show ?thesis
    using assms unfolding writeBlockToDiskLocked_def Let_def
    by (auto split: prod.splits option.splits dest!: 1 2 3)
qed

lemma Peek_count: "activeCount (snd (fq_Peek enc dec full f)) = activeCount f"
proof -
  have 1: "activeCount (snd (peekBlockFromDiskLocked dec f)) = activeCount f"
    by (auto simp: peekBlockFromDiskLocked_def peek_file_def Let_def split: option.splits prod.splits read_result.splits)
  have 2: "activeCount (snd (peek_channel enc full f)) = activeCount f" for f
    by (auto simp: peek_channel_def Let_def split: list.splits prod.splits option.splits dest!: writeBlock_count)
  show ?thesis
    using 1 2 [of f] 2 [of "snd (peekBlockFromDiskLocked dec f)"]
    by (auto simp: fq_Peek_def split: prod.splits sum.splits)
qed

lemma sq_Peek_Len: "sq_Peek enc dec full s = (r, s') \<Longrightarrow> sq_Len s' = sq_Len s"
  using Peek_count [of enc dec full "fq s"]
  by (auto simp: sq_Peek_def sq_Len_def fq_Len_def split: if_splits prod.splits sum.splits option.splits)

lemma processQueue_frame:
  assumes "processQueue enc dec full export q x = Ok (ok, q', x')"
  shows "queue_Len q' = queue_Len q" "q_config q' = q_config q" "q_has_exporter q' = q_has_exporter q"
proof -
  have "sq_Len (snd (Remove s i)) = sq_Len s" "sq_Len (UpdateRetries s i n) = sq_Len s" for s i n
    by (simp_all add: Remove_def UpdateRetries_def sq_Len_def)
  with assms show "queue_Len q' = queue_Len q" "q_config q' = q_config q" "q_has_exporter q' = q_has_exporter q"
    by (auto simp: processQueue_def queue_Len_def split: prod.splits sum.splits option.splits outcome.splits if_splits bool.splits
        dest!: sq_Peek_Len)
qed

text \<open>\<open>n\<close> firings of the timer.\<close>

fun ticks ::
    "(bytes \<Rightarrow> bytes) \<Rightarrow> (bytes \<Rightarrow> bytes option) \<Rightarrow> bool \<Rightarrow> 'x exporter \<Rightarrow> nat \<Rightarrow> int \<times> Queue \<times> 'x
      \<Rightarrow> (unit, int \<times> Queue \<times> 'x) outcome" where
  "ticks enc dec full export 0 st = Ok st"
| "ticks enc dec full export (Suc n) st = bind_outcome (retry_tick enc dec full export st) (ticks enc dec full export n)"

lemma ticks_add:
  "ticks enc dec full export (m + n) st = bind_outcome (ticks enc dec full export m st) (ticks enc dec full export n)"
proof (induction m arbitrary: st)
  case (Suc m)
  then show ?case by (cases "retry_tick enc dec full export st") simp_all
qed simp

lemma retryLoop_ticks:
  "ticks enc dec full export n st = Ok (delay, q, x)
   \<Longrightarrow> retryLoop enc dec full i export n st = drainQueue dec full i export q x"
  by (induction n arbitrary: st) auto

lemma ticks_frame:
  "ticks enc dec full export n (delay, q, x) = Ok (delay', q', x') \<Longrightarrow> queue_Len q' = queue_Len q"
proof (induction n arbitrary: delay q x)
  case (Suc n)
  then show ?case by (fastforce simp: retry_tick_def dest: processQueue_frame(1))
qed simp

section \<open>Rounds over a queue in memory\<close>

lemma Peek_mem:
  assumes "fast_mem f" "ch f = d # ds"
  shows "\<exists>f'. fq_Peek enc dec full f = (Inr (Some d), f') \<and> fast_mem f' \<and> ch f' = ds @ [d] \<and> cfg f' = cfg f"
  using assms by (auto simp: fq_Peek_def peek_channel_def fast_mem_def Let_def)

lemma processQueue_mem:
  assumes "mem_only (sendQueue q)" "ch (fq (sendQueue q)) = d # ds" "WriteRequest_Unmarshal d = Ok req" "q_has_exporter q"
  shows "\<exists>q'. processQueue enc dec full export q x = Ok (fst (export x req), q', snd (export x req))
    \<and> mem_only (sendQueue q') \<and> ch (fq (sendQueue q')) = ds @ [d] \<and> q_has_exporter q' \<and> q_config q' = q_config q"
proof -
  obtain f where f: "fq_Peek enc dec full (fq (sendQueue q)) = (Inr (Some d), f)" "fast_mem f" "ch f = ds @ [d]"
    using Peek_mem [OF _ assms(2), where enc = enc and dec = dec and full = full] assms(1) by (auto simp: mem_only_def)
  obtain ok x' where e: "export x req = (ok, x')" by fastforce
  show ?thesis
    using assms f e
    by (cases ok) (auto simp: processQueue_def sq_Peek_def mem_only_def Remove_def UpdateRetries_def)
qed

text \<open>An exporter that accepts everything and keeps a log, and one that refuses everything.\<close>

definition log_export :: "WriteRequest list exporter" where
  "log_export log req = (True, log @ [req])"

definition refuse :: "'x exporter" where
  "refuse x req = (False, x)"

lemma ticks_pass:
  assumes "mem_only (sendQueue q)" "ch (fq (sendQueue q)) = xs @ ys" "\<forall>d \<in> set xs. WriteRequest_Unmarshal d = Ok (g d)"
    and "q_has_exporter q"
  shows "\<exists>delay' q'. ticks enc dec full log_export (length xs) (delay, q, log) = Ok (delay', q', log @ map g xs)
    \<and> mem_only (sendQueue q') \<and> ch (fq (sendQueue q')) = ys @ xs \<and> q_has_exporter q'"
  using assms
proof (induction xs arbitrary: q ys delay log)
  case (Cons d xs)
  obtain q1 where q1: "processQueue enc dec full log_export q log = Ok (True, q1, log @ [g d])" "mem_only (sendQueue q1)"
      "ch (fq (sendQueue q1)) = xs @ (ys @ [d])" "q_has_exporter q1"
    using processQueue_mem [OF Cons.prems(1), of d "xs @ ys" "g d" enc dec full log_export log] Cons.prems
    by (auto simp: log_export_def)
  from Cons.IH [OF q1(2,3) _ q1(4), of _ "log @ [g d]"] Cons.prems(3) q1(1) show ?case
    by (simp add: retry_tick_def)
qed simp

lemma ticks_rounds:
  assumes "mem_only (sendQueue q)" "\<forall>d \<in> set (ch (fq (sendQueue q))). WriteRequest_Unmarshal d = Ok (g d)" "q_has_exporter q"
  shows "\<exists>delay' q'. ticks enc dec full log_export (k * length (ch (fq (sendQueue q)))) (delay, q, log)
      = Ok (delay', q', log @ concat (replicate k (map g (ch (fq (sendQueue q))))))
    \<and> mem_only (sendQueue q') \<and> ch (fq (sendQueue q')) = ch (fq (sendQueue q)) \<and> q_has_exporter q'"
  using assms
proof (induction k arbitrary: q delay log)
  case (Suc k)
  obtain d1 q1 where q1: "ticks enc dec full log_export (length (ch (fq (sendQueue q)))) (delay, q, log)
        = Ok (d1, q1, log @ map g (ch (fq (sendQueue q))))"
      "mem_only (sendQueue q1)" "ch (fq (sendQueue q1)) = ch (fq (sendQueue q))" "q_has_exporter q1"
    using ticks_pass [OF Suc.prems(1) _ Suc.prems(2,3), of "[]" enc dec full delay log] by auto
  from Suc.IH [OF q1(2) _ q1(4), of d1 "log @ map g (ch (fq (sendQueue q)))"] Suc.prems(2) q1 show ?case
    by (simp add: ticks_add)
qed simp

lemma minDuration_double:
  fixes r m :: int
  assumes "0 \<le> r" "0 \<le> m"
  shows "minDuration (min (r * 2 ^ n) m * 2) m = min (r * 2 ^ Suc n) m"
proof -
  define a where "a = r * 2 ^ n"
  have "0 \<le> a" "r * 2 ^ Suc n = 2 * a" using assms by (simp_all add: a_def)
  then show ?thesis using assms(2) unfolding a_def [symmetric] by (auto simp: minDuration_def min_def)
qed

section \<open>Draining\<close>

lemma sq_Pop_open:
  "\<not> sq_closed s \<Longrightarrow> fq_Pop dec full (fq s) = (Inr (Some d), f)
   \<Longrightarrow> \<exists>s'. sq_Pop dec full i s = (Inr (Some \<lparr>ID = i, Data = d, Retries = 0\<rparr>), s') \<and> fq s' = f \<and> \<not> sq_closed s'"
  by (simp add: sq_Pop_def cleanRetries_def)

lemma drain_loop_pops:
  assumes "\<not> sq_closed s" "pops dec full (fq s) (length ds) = (map (\<lambda>d. Inr (Some d)) ds, f')" "fst (fq_Pop dec full f') = Inr None"
    and "\<forall>d \<in> set ds. WriteRequest_Unmarshal d = Ok (g d)"
  shows "\<exists>s'. drain_loop dec full i export s x = Some (Ok (s', foldl (\<lambda>x d. snd (export x (g d))) x ds))"
  using assms
proof (induction ds arbitrary: s x)
  case Nil
  then obtain f'' where "fq_Pop dec full (fq s) = (Inr None, f'')" by (cases "fq_Pop dec full (fq s)") auto
  with Nil.prems(1) show ?case by (subst drain_loop.simps) (simp add: sq_Pop_def)
next
  case (Cons d ds)
  obtain r f1 where p: "fq_Pop dec full (fq s) = (r, f1)" by fastforce
  then have r: "r = Inr (Some d)" "pops dec full f1 (length ds) = (map (\<lambda>d. Inr (Some d)) ds, f')"
    using Cons.prems(2) by (cases "pops dec full f1 (length ds)"; simp add: pops_Suc [OF p])+
  obtain s1 where s1: "sq_Pop dec full i s = (Inr (Some \<lparr>ID = i, Data = d, Retries = 0\<rparr>), s1)" "fq s1 = f1" "\<not> sq_closed s1"
    using sq_Pop_open [OF Cons.prems(1)] p r(1) by blast
  have "drain_loop dec full i export s x = drain_loop dec full i export s1 (snd (export x (g d)))"
    using s1(1) Cons.prems(4) by (subst drain_loop.simps) simp
  moreover obtain s' where "drain_loop dec full i export s1 (snd (export x (g d)))
      = Some (Ok (s', foldl (\<lambda>x d. snd (export x (g d))) (snd (export x (g d))) ds))"
    using Cons.IH [OF s1(3) _ Cons.prems(3)] r(2) s1(2) Cons.prems(4) by fastforce
  ultimately show ?case by simp
qed

lemma Close_drains:
  assumes "\<not> q_closed q" "q_has_exporter q" "\<not> sq_closed (sendQueue q)" "drains_to dec full (fq (sendQueue q)) ds"
    and "\<forall>d \<in> set ds. WriteRequest_Unmarshal d = Ok (g d)"
  shows "\<exists>errs q'. queue_Close enc dec full i export q x = Some (Ok (errs, q', foldl (\<lambda>x d. snd (export x (g d))) x ds))"
proof -
  obtain f' where "pops dec full (fq (sendQueue q)) (length ds) = (map (\<lambda>d. Inr (Some d)) ds, f')" "fst (fq_Pop dec full f') = Inr None"
    using assms(4) by (auto simp: drains_to_def)
  from drain_loop_pops [OF assms(3) this assms(5), of i export x] obtain s' where
    d: "drain_loop dec full i export (sendQueue q) x = Some (Ok (s', foldl (\<lambda>x d. snd (export x (g d))) x ds))" by blast
  obtain errs s2 where "sq_Close enc full s' = (errs, s2)" by fastforce
  with d assms(1,2) show ?thesis by (simp add: queue_Close_def drainQueue_def)
qed

lemma foldl_log: "foldl (\<lambda>x d. snd (log_export x (g d))) log ds = log @ map g ds"
  by (induction ds arbitrary: log) (simp_all add: log_export_def)

lemma ticks_refused:
  assumes "mem_only (sendQueue q)" "ch (fq (sendQueue q)) \<noteq> []" "\<forall>d \<in> set (ch (fq (sendQueue q))). WriteRequest_Unmarshal d = Ok (g d)"
    and "q_has_exporter q" "q_config q = c" "0 \<le> r" "0 \<le> qc_MaxRetryDelay c"
  shows "\<exists>q'. ticks enc dec full refuse n (min (r * 2 ^ m) (qc_MaxRetryDelay c), q, x)
    = Ok (min (r * 2 ^ (m + n)) (qc_MaxRetryDelay c), q', x)"
  using assms(1-5)
proof (induction n arbitrary: q m)
  case (Suc n)
  obtain d ds where d: "ch (fq (sendQueue q)) = d # ds" using Suc.prems(2) by (cases "ch (fq (sendQueue q))") auto
  obtain q1 where q1: "processQueue enc dec full refuse q x = Ok (False, q1, x)" "mem_only (sendQueue q1)"
      "ch (fq (sendQueue q1)) = ds @ [d]" "q_has_exporter q1" "q_config q1 = c"
    using processQueue_mem [OF Suc.prems(1) d, of "g d" enc dec full refuse x] Suc.prems d by (auto simp: refuse_def)
  then have "retry_tick enc dec full refuse (min (r * 2 ^ m) (qc_MaxRetryDelay c), q, x)
      = Ok (min (r * 2 ^ Suc m) (qc_MaxRetryDelay c), q1, x)"
    using minDuration_double [OF assms(6,7), of m] by (simp add: retry_tick_def del: power_Suc)
  moreover obtain q' where "ticks enc dec full refuse n (min (r * 2 ^ Suc m) (qc_MaxRetryDelay c), q1, x)
      = Ok (min (r * 2 ^ (Suc m + n)) (qc_MaxRetryDelay c), q', x)"
    using Suc.IH [OF q1(2) _ _ q1(4,5), of "Suc m"] q1(3) Suc.prems(3) d by fastforce
  ultimately show ?case by (simp del: power_Suc)
qed simp

section \<open>Properties\<close>

text \<open>A concrete queue for the witnesses: two requests in memory.\<close>

definition request :: "byte \<Rightarrow> WriteRequest" where
  "request b = \<lparr>req_Timeseries = [\<lparr>ts_Labels = [\<lparr>label_Name = [97], label_Value = [b]\<rparr>], ts_Samples = [], ts_Exemplars = [],
     ts_Histograms = []\<rparr>], req_Metadata = []\<rparr>"

definition memory_queue :: "bytes list \<Rightarrow> Queue" where
  "memory_queue ds = \<lparr>sendQueue = \<lparr>sq_config = send_defaults (send_config DefaultQueueConfig),
     fq = \<lparr>cfg = (fast_config (send_defaults (send_config DefaultQueueConfig)))\<lparr>cfg_MaxSize := 100\<rparr>,
       ch = ds, inmemoryBytes = int (length (concat ds)), writerChunk = None, writerBuf = None, writerOffset = 0,
       readerChunk = None, readerOffset = 0, pendingBytes = 0, activeCount = int (length ds),
       totalBytes = int (length (concat ds)), diskBytes = 0, metaDirty = False, closed = False, fs = empty_fsys, meta_file = None\<rparr>,
     sq_closed = False, retries = [], dropped = []\<rparr>,
     q_has_exporter = True, q_config = DefaultQueueConfig, q_closed = False\<rparr>"

definition two_requests :: Queue where
  "two_requests = memory_queue (map WriteRequest_Marshal [request 1, request 2])"

lemma request_length: "length (WriteRequest_Marshal (request b)) < 2 ^ 64"
  by (simp add: request_def WriteRequest_Marshal_def TimeSeries_marshal_def Label_marshal_def field_nums encode_simps
      enc_bytes_def enc_varint_def wire_tag_def wireLengthDelim_def wireVarint_def varint_small)

lemma request_roundtrip: "WriteRequest_Unmarshal (WriteRequest_Marshal (request b)) = Ok (request b)"
  using WriteRequest_roundtrip [OF request_length [of b]]
  by (simp add: request_def canon_WriteRequest_def canon_TimeSeries_def)

lemma two_requests_mem:
  "mem_only (sendQueue two_requests)" "q_has_exporter two_requests"
  "ch (fq (sendQueue two_requests)) = map WriteRequest_Marshal [request 1, request 2]"
  by (simp_all add: two_requests_def memory_queue_def mem_only_def fast_mem_def fast_config_def send_defaults_def send_config_def)

lemma two_requests_config:
  "qc_RetryInterval (q_config two_requests) = 5 * 10 ^ 9" "qc_MaxRetryDelay (q_config two_requests) = 300 * 10 ^ 9"
  by (simp_all add: two_requests_def memory_queue_def DefaultQueueConfig_def)

text \<open>
  Retrying never shortens the queue. Whatever is queued, in memory or on disk, and whatever the exporter
  answers, \<open>processQueue\<close> on the retry timer leaves the length of the queue as it was: an entry that was
  exported successfully stays queued, because \<open>Peek\<close> does not take it out and \<open>Remove\<close> removes only its retry counter.
\<close>

theorem retrying_never_removes:
  assumes "ticks enc dec full export n (delay, q, x) = Ok (delay', q', x')"
  shows "queue_Len q' = queue_Len q"
  by (rule ticks_frame [OF assms])

theorem retrying_never_removes_witness:
  "\<exists>delay' q' x'. ticks id Some False log_export 2 (0, two_requests, []) = Ok (delay', q', x') \<and> queue_Len q' = queue_Len two_requests"
proof -
  let ?g = "\<lambda>d. case WriteRequest_Unmarshal d of Ok r \<Rightarrow> r"
  have "\<exists>delay' q'. ticks id Some False log_export 2 (0, two_requests, []) = Ok (delay', q', map ?g (ch (fq (sendQueue two_requests))))"
    using ticks_pass [OF two_requests_mem(1), of "ch (fq (sendQueue two_requests))" "[]" ?g id Some False 0 "[]"]
    by (auto simp: two_requests_mem request_roundtrip numeral_2_eq_2 simp del: ticks.simps)
  then obtain delay' q' x' where t: "ticks id Some False log_export 2 (0, two_requests, []) = Ok (delay', q', x')" by blast
  with retrying_never_removes [OF t] show ?thesis by blast
qed

text \<open>
  Queued requests are sent again and again. On a queue that stays in memory, with an exporter that accepts
  everything, \<open>k\<close> rounds of the retry timer send every queued request \<open>k\<close> times, in order.
\<close>

theorem retrying_resends:
  assumes "mem_only (sendQueue q)" "ch (fq (sendQueue q)) = map WriteRequest_Marshal reqs" "q_has_exporter q"
    and "\<forall>r \<in> set reqs. length (WriteRequest_Marshal r) < 2 ^ 64"
  shows "\<exists>delay' q'. ticks enc dec full log_export (k * length reqs) (delay, q, [])
    = Ok (delay', q', concat (replicate k (map canon_WriteRequest reqs)))"
proof -
  define g where "g d = (case WriteRequest_Unmarshal d of Ok r \<Rightarrow> r)" for d
  have g: "WriteRequest_Unmarshal (WriteRequest_Marshal r) = Ok (g (WriteRequest_Marshal r))"
      "g (WriteRequest_Marshal r) = canon_WriteRequest r" if "r \<in> set reqs" for r
    using WriteRequest_roundtrip assms(4) that by (simp_all add: g_def)
  have "map g (ch (fq (sendQueue q))) = map canon_WriteRequest reqs" "length (ch (fq (sendQueue q))) = length reqs"
    using g(2) assms(2) by simp_all
  moreover have "\<forall>d \<in> set (ch (fq (sendQueue q))). WriteRequest_Unmarshal d = Ok (g d)" using g(1) assms(2) by simp
  ultimately show ?thesis
    using ticks_rounds [OF assms(1) _ assms(3), of g enc dec full k delay "[]"] by auto
qed

theorem retrying_resends_witness:
  "\<exists>delay' q'. ticks id Some False log_export (3 * 2) (0, two_requests, [])
    = Ok (delay', q', concat (replicate 3 [canon_WriteRequest (request 1), canon_WriteRequest (request 2)]))"
  using retrying_resends [OF two_requests_mem(1) _ two_requests_mem(2), of "[request 1, request 2]" id Some False 3 0] request_length
  by (simp add: two_requests_mem)

text \<open>
  The retry delay doubles up to its maximum: while the exporter refuses everything, the delay after \<open>n\<close> firings of the timer is
  \<open>RetryInterval * 2 ^ n\<close>, capped by \<open>MaxRetryDelay\<close> (for entries that decode, on a queue that stays in memory).
\<close>

theorem retry_backoff:
  assumes "mem_only (sendQueue q)" "ch (fq (sendQueue q)) = map WriteRequest_Marshal reqs" "reqs \<noteq> []" "q_has_exporter q"
    and "\<forall>r \<in> set reqs. length (WriteRequest_Marshal r) < 2 ^ 64"
    and "0 \<le> qc_RetryInterval (q_config q)" "qc_RetryInterval (q_config q) \<le> qc_MaxRetryDelay (q_config q)"
  shows "\<exists>q'. ticks enc dec full refuse n (qc_RetryInterval (q_config q), q, x)
    = Ok (min (qc_RetryInterval (q_config q) * 2 ^ n) (qc_MaxRetryDelay (q_config q)), q', x)"
proof -
  define g where "g d = (case WriteRequest_Unmarshal d of Ok r \<Rightarrow> r)" for d
  have "\<forall>d \<in> set (ch (fq (sendQueue q))). WriteRequest_Unmarshal d = Ok (g d)"
    using WriteRequest_roundtrip assms(2,5) by (auto simp: g_def)
  from ticks_refused [OF assms(1) _ this assms(4) refl assms(6), of enc dec full n 0 x] assms(2,3,6,7)
  show ?thesis by simp
qed

theorem retry_backoff_witness:
  "\<exists>q'. ticks id Some False refuse 3 (5 * 10 ^ 9, two_requests, ()) = Ok (40 * 10 ^ 9, q', ())"
  using retry_backoff [OF two_requests_mem(1) _ _ two_requests_mem(2), of "[request 1, request 2]" id Some False 3 "()"] request_length
  by (simp add: two_requests_mem two_requests_config)

end
