(* ===== verification/Rule_Cache.thy ===== *)
theory Rule_Cache
  imports Prelude
begin

text \<open>
  The bounded LRU cache of \<open>internal/limits/rulecache.go\<close>. The linked list is a list of entries, most
  recently used first; the map from keys to list elements is lookup in that list. A nil cache
  (caching disabled) is \<open>None\<close>. A cached value may itself say that no rule matches.
\<close>

section \<open>Model\<close>

record 'v ruleCache =
  rc_order :: "(gostring \<times> 'v) list"
  rc_maxSize :: int
  rc_hits :: int
  rc_misses :: int
  rc_evictions :: int

definition newRuleCache :: "int \<Rightarrow> 'v ruleCache option" where
  "newRuleCache maxSize =
     (if maxSize \<le> 0 then None
      else Some \<lparr>rc_order = [], rc_maxSize = maxSize, rc_hits = 0, rc_misses = 0, rc_evictions = 0\<rparr>)"

definition remove_key :: "gostring \<Rightarrow> (gostring \<times> 'v) list \<Rightarrow> (gostring \<times> 'v) list" where
  "remove_key k xs = filter (\<lambda>(k', _). k' \<noteq> k) xs"

definition cache_Get :: "'v ruleCache option \<Rightarrow> gostring \<Rightarrow> 'v option \<times> 'v ruleCache option" where
  "cache_Get c metricName =
     (case c of
        None \<Rightarrow> (None, None)
      | Some c \<Rightarrow>
          (case map_of (rc_order c) metricName of
             None \<Rightarrow> (None, Some (c\<lparr>rc_misses := rc_misses c + 1\<rparr>))
           | Some rule \<Rightarrow>
               (Some rule, Some (c\<lparr>rc_order := (metricName, rule) # remove_key metricName (rc_order c),
                                  rc_hits := rc_hits c + 1\<rparr>))))"

fun evict_back :: "int \<Rightarrow> (gostring \<times> 'v) list \<Rightarrow> int \<Rightarrow> (gostring \<times> 'v) list \<times> int" where
  "evict_back maxSize order evictions =
     (if int (length order) \<ge> maxSize \<and> order \<noteq> [] then evict_back maxSize (butlast order) (evictions + 1)
      else (order, evictions))"

declare evict_back.simps [simp del]

definition cache_Put :: "'v ruleCache option \<Rightarrow> gostring \<Rightarrow> 'v \<Rightarrow> 'v ruleCache option" where
  "cache_Put c metricName rule =
     (case c of
        None \<Rightarrow> None
      | Some c \<Rightarrow>
          if map_of (rc_order c) metricName \<noteq> None then
            Some (c\<lparr>rc_order := (metricName, rule) # remove_key metricName (rc_order c)\<rparr>)
          else
            (case evict_back (rc_maxSize c) (rc_order c) (rc_evictions c) of
               (order, evictions) \<Rightarrow> Some (c\<lparr>rc_order := (metricName, rule) # order, rc_evictions := evictions\<rparr>)))"

definition cache_Size :: "'v ruleCache option \<Rightarrow> nat" where
  "cache_Size c = (case c of None \<Rightarrow> 0 | Some c \<Rightarrow> length (rc_order c))"

definition NegativeEntries :: "'v option ruleCache option \<Rightarrow> nat" where
  "NegativeEntries c = (case c of None \<Rightarrow> 0 | Some c \<Rightarrow> length (filter (\<lambda>(_, r). r = None) (rc_order c)))"

definition cache_EstimatedMemoryBytes :: "'v ruleCache option \<Rightarrow> nat" where
  "cache_EstimatedMemoryBytes c =
     (case c of None \<Rightarrow> 0 | Some c \<Rightarrow> foldl (\<lambda>n (k, _). n + (192 + length k)) 0 (rc_order c))"

definition ClearCache :: "'v ruleCache option \<Rightarrow> 'v ruleCache option" where
  "ClearCache c = (case c of None \<Rightarrow> None | Some c \<Rightarrow> Some (c\<lparr>rc_order := []\<rparr>))"

section \<open>Laws\<close>

text \<open>What is cached under a key, the invariant, and the entries a cache holds.\<close>

definition cached :: "'v ruleCache option \<Rightarrow> gostring \<rightharpoonup> 'v" where
  "cached c = (case c of None \<Rightarrow> Map.empty | Some c \<Rightarrow> map_of (rc_order c))"

definition cache_inv :: "'v ruleCache option \<Rightarrow> bool" where
  "cache_inv c = (case c of None \<Rightarrow> True | Some c \<Rightarrow>
     distinct (map fst (rc_order c)) \<and> int (length (rc_order c)) \<le> rc_maxSize c \<and> 0 < rc_maxSize c)"

lemma remove_key_keys: "map fst (remove_key k xs) = filter (\<lambda>k'. k' \<noteq> k) (map fst xs)"
  by (simp add: remove_key_def filter_map o_def case_prod_unfold)

lemma map_of_remove_key [simp]: "map_of (remove_key k xs) = (map_of xs)(k := None)"
  by (induction xs) (auto simp: remove_key_def)

lemma length_remove_key:
  "distinct (map fst xs) \<Longrightarrow> map_of xs k \<noteq> None \<Longrightarrow> length (remove_key k xs) = length xs - 1"
proof (induction xs)
  case (Cons x xs)
  show ?case
  proof (cases "fst x = k")
    case True
    then have "remove_key k xs = xs"
      using Cons.prems(1) by (auto simp: remove_key_def filter_id_conv rev_image_eqI)
    then show ?thesis using True by (simp add: remove_key_def split_beta)
  next
    case False
    then have "map_of xs k \<noteq> None" using Cons.prems(2) by (cases x) simp
    then have "xs \<noteq> []" by auto
    then show ?thesis
      using Cons False \<open>map_of xs k \<noteq> None\<close> by (simp add: remove_key_def split_beta)
  qed
qed simp

lemma evict_back_take:
  "0 < maxSize \<Longrightarrow> fst (evict_back maxSize order n) = take (nat maxSize - 1) order"
proof (induction maxSize order n rule: evict_back.induct)
  case (1 maxSize order n)
  show ?case
  proof (cases "int (length order) \<ge> maxSize \<and> order \<noteq> []")
    case True
    then have "nat maxSize - 1 \<le> length order - 1" by linarith
    moreover have "fst (evict_back maxSize order n) = take (nat maxSize - 1) (butlast order)"
      using 1 True by (subst evict_back.simps) simp
    ultimately show ?thesis by (simp add: butlast_conv_take min_absorb1)
  next
    case False
    then have "length order \<le> nat maxSize - 1" using "1.prems" by auto
    moreover have "evict_back maxSize order n = (order, n)"
      by (subst evict_back.simps) (rule if_not_P [OF False])
    ultimately show ?thesis by simp
  qed
qed

text \<open>
  \<open>Put\<close> of a new key keeps the most recently used entries and drops the rest; in every case the
  key is then the most recent one.
\<close>

lemma cache_Put_order:
  assumes "cache_inv (Some c)"
  shows "\<exists>c'. cache_Put (Some c) k v = Some c' \<and> rc_maxSize c' = rc_maxSize c
    \<and> rc_order c' = (k, v) # take (nat (rc_maxSize c) - 1) (remove_key k (rc_order c))"
proof (cases "map_of (rc_order c) k")
  case None
  then have "remove_key k (rc_order c) = rc_order c"
    by (auto simp: remove_key_def filter_id_conv map_of_eq_None_iff rev_image_eqI)
  then show ?thesis
    using None assms evict_back_take [of "rc_maxSize c" "rc_order c" "rc_evictions c"]
    by (simp add: cache_Put_def cache_inv_def split_beta)
next
  case (Some r)
  then have "length (remove_key k (rc_order c)) = length (rc_order c) - 1"
    using assms by (intro length_remove_key) (simp_all add: cache_inv_def)
  moreover have "length (rc_order c) - 1 \<le> nat (rc_maxSize c) - 1"
    using assms unfolding cache_inv_def option.case by linarith
  ultimately have "take (nat (rc_maxSize c) - 1) (remove_key k (rc_order c)) = remove_key k (rc_order c)"
    by simp
  then show ?thesis
    using Some by (simp add: cache_Put_def)
qed

lemma remove_key_distinct:
  "distinct (map fst xs) \<Longrightarrow> distinct (map fst ((k, v) # take n (remove_key k xs)))"
  by (auto simp: take_map [symmetric] remove_key_keys simp del: list.set_map dest: in_set_takeD)

lemma cache_Put_inv: "cache_inv c \<Longrightarrow> cache_inv (cache_Put c k v)"
proof (cases c)
  case (Some d)
  assume i: "cache_inv c"
  then have d: "cache_inv (Some d)" using Some by simp
  obtain d' where d': "cache_Put (Some d) k v = Some d'" "rc_maxSize d' = rc_maxSize d"
      "rc_order d' = (k, v) # take (nat (rc_maxSize d) - 1) (remove_key k (rc_order d))"
    using cache_Put_order [OF d, of k v] by auto
  have "distinct (map fst (rc_order d'))"
    unfolding d' by (rule remove_key_distinct) (use d in \<open>simp add: cache_inv_def\<close>)
  moreover have "int (length (rc_order d')) \<le> rc_maxSize d"
    using d unfolding d' cache_inv_def option.case by auto
  ultimately show ?thesis using d d' Some by (simp add: cache_inv_def)
qed (simp add: cache_Put_def)

lemma cache_Get_inv: "cache_inv c \<Longrightarrow> cache_inv (snd (cache_Get c k))"
proof (cases c)
  case (Some d)
  assume i: "cache_inv c"
  then have d: "distinct (map fst (rc_order d))" using Some by (simp add: cache_inv_def)
  show ?thesis
  proof (cases "map_of (rc_order d) k")
    case (Some v)
    then have l: "length (remove_key k (rc_order d)) = length (rc_order d) - 1"
      by (intro length_remove_key d) simp
    have "rc_order d \<noteq> []" using Some by auto
    then have "Suc (length (remove_key k (rc_order d))) = length (rc_order d)"
      using l by (cases "rc_order d") simp_all
    moreover have "distinct (map fst ((k, v) # remove_key k (rc_order d)))"
      using remove_key_distinct [OF d, of k v "length (remove_key k (rc_order d))"] by simp
    ultimately show ?thesis
      using i \<open>c = Some d\<close> Some by (simp add: cache_Get_def cache_inv_def)
  qed (use i \<open>c = Some d\<close> in \<open>simp add: cache_Get_def cache_inv_def\<close>)
qed (simp add: cache_Get_def cache_inv_def)

lemma cache_Get_value: "fst (cache_Get c k) = cached c k"
  by (simp add: cache_Get_def cached_def split: option.splits)

lemma cache_Get_cached [simp]: "cached (snd (cache_Get c k)) = cached c"
  by (auto simp: cache_Get_def cached_def split: option.splits)

lemma cache_Put_cached:
  "cached (cache_Put c k v) k' = Some w \<Longrightarrow> cache_inv c \<Longrightarrow> (k' = k \<and> w = v) \<or> cached c k' = Some w"
proof (cases c)
  case (Some d)
  assume c: "cached (cache_Put c k v) k' = Some w" and i: "cache_inv c"
  then have d: "cache_inv (Some d)" using Some by simp
  obtain d' where d': "cache_Put (Some d) k v = Some d'"
      "rc_order d' = (k, v) # take (nat (rc_maxSize d) - 1) (remove_key k (rc_order d))"
    using cache_Put_order [OF d, of k v] by auto
  have "map_of (rc_order d') k' = Some w" using c d'(1) Some by (simp add: cached_def)
  then have "(k', w) \<in> set (rc_order d')" by (rule map_of_SomeD)
  then have "k' = k \<and> w = v \<or> (k', w) \<in> set (remove_key k (rc_order d))"
    unfolding d'(2) by (auto dest: in_set_takeD)
  then have "k' = k \<and> w = v \<or> (k', w) \<in> set (rc_order d)"
    by (auto simp: remove_key_def)
  then show ?thesis
    using d Some by (simp add: cached_def cache_inv_def)
qed (simp add: cache_Put_def cached_def)

end
