(* ===== verification/Card_Trackers.thy ===== *)
theory Card_Trackers
  imports Prelude
begin

text \<open>
  Cardinality trackers: \<open>internal/cardinality\<close> (\<open>tracker.go\<close>, \<open>exact.go\<close>, \<open>hll.go\<close>, \<open>hybrid.go\<close>,
  \<open>config.go\<close>). The Bloom filter and the HyperLogLog sketch are third-party code: a record of their
  operations is a parameter of every definition that uses them. The interface \<open>Tracker\<close> is a datatype
  with one constructor per implementation, and its contract is the locale \<open>membership_tracker\<close>.
\<close>

section \<open>Library sketches\<close>

record ('b, 'h) sketch_lib =
  bloom_New :: 'b
  bloom_Test :: "'b \<Rightarrow> bytes \<Rightarrow> bool"
  bloom_AddKey :: "'b \<Rightarrow> bytes \<Rightarrow> 'b"
  bloom_Cap :: "'b \<Rightarrow> nat"
  hll_New :: 'h
  hll_Insert :: "'h \<Rightarrow> bytes \<Rightarrow> 'h"
  hll_Estimate :: "'h \<Rightarrow> nat"

text \<open>A Bloom filter has no false negatives and never forgets.\<close>

definition bloom_laws :: "('b, 'h) sketch_lib \<Rightarrow> bool" where
  "bloom_laws lib \<longleftrightarrow> (\<forall>f k. bloom_Test lib (bloom_AddKey lib f k) k)
     \<and> (\<forall>f k k'. bloom_Test lib f k \<longrightarrow> bloom_Test lib (bloom_AddKey lib f k') k)"

section \<open>Configuration\<close>

datatype Mode = ModeBloom | ModeExact | ModeHybrid

definition Mode_String :: "Mode \<Rightarrow> string" where
  "Mode_String m = (case m of ModeBloom \<Rightarrow> ''bloom'' | ModeExact \<Rightarrow> ''exact'' | ModeHybrid \<Rightarrow> ''hybrid'')"

definition ParseMode :: "string \<Rightarrow> Mode" where
  "ParseMode s = (if s = ''exact'' then ModeExact else if s = ''hybrid'' then ModeHybrid else ModeBloom)"

text \<open>The sizes of the Bloom filter are part of the parameter \<open>bloom_New\<close>.\<close>

record CardConfig =
  cc_Mode :: Mode
  cc_HLLThreshold :: int

definition card_DefaultConfig :: CardConfig where
  "card_DefaultConfig = \<lparr>cc_Mode = ModeBloom, cc_HLLThreshold = 10000\<rparr>"

section \<open>Exact tracker\<close>

type_synonym ExactTracker = "bytes list"

definition NewExactTracker :: ExactTracker where
  "NewExactTracker = []"

definition exact_Add :: "ExactTracker \<Rightarrow> bytes \<Rightarrow> bool \<times> ExactTracker" where
  "exact_Add t k = (if k \<in> set t then (False, t) else (True, t @ [k]))"

definition exact_TestOnly :: "ExactTracker \<Rightarrow> bytes \<Rightarrow> bool" where
  "exact_TestOnly t k \<longleftrightarrow> k \<in> set t"

definition exact_Count :: "ExactTracker \<Rightarrow> int" where
  "exact_Count t = int (length t)"

definition exact_Reset :: "ExactTracker \<Rightarrow> ExactTracker" where
  "exact_Reset t = []"

definition exact_MemoryUsage :: "ExactTracker \<Rightarrow> nat" where
  "exact_MemoryUsage t = length t * 75"

section \<open>Bloom tracker\<close>

record 'b BloomTracker =
  bt_filter :: 'b
  bt_count :: int

definition NewBloomTracker :: "('b, 'h) sketch_lib \<Rightarrow> 'b BloomTracker" where
  "NewBloomTracker lib = \<lparr>bt_filter = bloom_New lib, bt_count = 0\<rparr>"

definition bloom_Add :: "('b, 'h) sketch_lib \<Rightarrow> 'b BloomTracker \<Rightarrow> bytes \<Rightarrow> bool \<times> 'b BloomTracker" where
  "bloom_Add lib t k =
     (if bloom_Test lib (bt_filter t) k then (False, t)
      else (True, t\<lparr>bt_filter := bloom_AddKey lib (bt_filter t) k, bt_count := bt_count t + 1\<rparr>))"

definition bloom_TestOnly :: "('b, 'h) sketch_lib \<Rightarrow> 'b BloomTracker \<Rightarrow> bytes \<Rightarrow> bool" where
  "bloom_TestOnly lib t k = bloom_Test lib (bt_filter t) k"

definition bloom_Count :: "'b BloomTracker \<Rightarrow> int" where
  "bloom_Count t = bt_count t"

definition bloom_Reset :: "('b, 'h) sketch_lib \<Rightarrow> 'b BloomTracker \<Rightarrow> 'b BloomTracker" where
  "bloom_Reset lib t = \<lparr>bt_filter = bloom_New lib, bt_count = 0\<rparr>"

definition bloom_MemoryUsage :: "('b, 'h) sketch_lib \<Rightarrow> 'b BloomTracker \<Rightarrow> nat" where
  "bloom_MemoryUsage lib t = bloom_Cap lib (bt_filter t) div 8"

section \<open>HyperLogLog tracker\<close>

definition hll_Add :: "('b, 'h) sketch_lib \<Rightarrow> 'h \<Rightarrow> bytes \<Rightarrow> bool \<times> 'h" where
  "hll_Add lib t k = (True, hll_Insert lib t k)"

definition hll_TestOnly :: "'h \<Rightarrow> bytes \<Rightarrow> bool" where
  "hll_TestOnly t k = False"

definition hll_Count :: "('b, 'h) sketch_lib \<Rightarrow> 'h \<Rightarrow> int" where
  "hll_Count lib t = int (hll_Estimate lib t)"

definition hll_MemoryUsage :: nat where
  "hll_MemoryUsage = 12288"

section \<open>Hybrid tracker\<close>

datatype TrackerMode = TrackerModeBloom | TrackerModeHLL

definition TrackerMode_String :: "TrackerMode \<Rightarrow> string" where
  "TrackerMode_String m = (case m of TrackerModeBloom \<Rightarrow> ''bloom'' | TrackerModeHLL \<Rightarrow> ''hll'')"

record ('b, 'h) HybridTracker =
  bloomTracker :: "'b BloomTracker"
  hllTracker :: 'h
  ht_mode :: TrackerMode
  ht_threshold :: int
  ht_switchCount :: int

definition NewHybridTracker :: "('b, 'h) sketch_lib \<Rightarrow> int \<Rightarrow> ('b, 'h) HybridTracker" where
  "NewHybridTracker lib threshold = \<lparr>bloomTracker = NewBloomTracker lib, hllTracker = hll_New lib, ht_mode = TrackerModeBloom,
     ht_threshold = threshold, ht_switchCount = 0\<rparr>"

text \<open>
  \<open>switchToHLL\<close>; the second result is the cardinality it passes to the callback \<open>OnModeSwitch\<close>,
  which runs before the call returns.
\<close>

definition switchToHLL :: "('b, 'h) HybridTracker \<Rightarrow> int option \<times> ('b, 'h) HybridTracker" where
  "switchToHLL t =
     (if ht_mode t = TrackerModeHLL then (None, t)
      else (Some (bloom_Count (bloomTracker t)), t\<lparr>ht_mode := TrackerModeHLL, ht_switchCount := ht_switchCount t + 1\<rparr>))"

definition hybrid_Add :: "('b, 'h) sketch_lib \<Rightarrow> ('b, 'h) HybridTracker \<Rightarrow> bytes \<Rightarrow> (bool \<times> int option) \<times> ('b, 'h) HybridTracker" where
  "hybrid_Add lib t k =
     (if ht_mode t = TrackerModeHLL then ((True, None), t\<lparr>hllTracker := snd (hll_Add lib (hllTracker t) k)\<rparr>)
      else
        let (result, b) = bloom_Add lib (bloomTracker t) k;
            t = t\<lparr>bloomTracker := b\<rparr>
        in if ht_threshold t > 0 \<and> bloom_Count b \<ge> ht_threshold t then
             (case switchToHLL t of (sw, t) \<Rightarrow> ((result, sw), t))
           else ((result, None), t))"

definition hybrid_TestOnly :: "('b, 'h) sketch_lib \<Rightarrow> ('b, 'h) HybridTracker \<Rightarrow> bytes \<Rightarrow> bool" where
  "hybrid_TestOnly lib t k = (if ht_mode t = TrackerModeHLL then False else bloom_TestOnly lib (bloomTracker t) k)"

definition hybrid_Count :: "('b, 'h) sketch_lib \<Rightarrow> ('b, 'h) HybridTracker \<Rightarrow> int" where
  "hybrid_Count lib t = (if ht_mode t = TrackerModeHLL then hll_Count lib (hllTracker t) else bloom_Count (bloomTracker t))"

definition hybrid_Reset :: "('b, 'h) sketch_lib \<Rightarrow> ('b, 'h) HybridTracker \<Rightarrow> ('b, 'h) HybridTracker" where
  "hybrid_Reset lib t = t\<lparr>bloomTracker := bloom_Reset lib (bloomTracker t), hllTracker := hll_New lib, ht_mode := TrackerModeBloom\<rparr>"

definition hybrid_MemoryUsage :: "('b, 'h) sketch_lib \<Rightarrow> ('b, 'h) HybridTracker \<Rightarrow> nat" where
  "hybrid_MemoryUsage lib t =
     (if ht_mode t = TrackerModeHLL then hll_MemoryUsage else bloom_MemoryUsage lib (bloomTracker t) + hll_MemoryUsage)"

text \<open>The 32-bit FNV-1a hash of \<open>hash/fnv\<close>.\<close>

definition fnv32a :: "bytes \<Rightarrow> u32" where
  "fnv32a data = foldl (\<lambda>h b. (h XOR ucast b) * 16777619) 2166136261 data"

text \<open>
  Sampling rates are floats: the type \<open>'f\<close> with the operations the code applies to rates, \<open>r >= 1.0\<close>, \<open>r > 1\<close>,
  \<open>r > 0\<close>, \<open>r <= 0.0\<close>, \<open>uint32(r * 10000)\<close>, the constant 1.0, and \<open>float64(a) / float64(b)\<close>.
\<close>

record 'f rate_ops =
  rate_ge_1 :: "'f \<Rightarrow> bool"
  rate_gt_1 :: "'f \<Rightarrow> bool"
  rate_gt_0 :: "'f \<Rightarrow> bool"
  rate_le_0 :: "'f \<Rightarrow> bool"
  rate_threshold :: "'f \<Rightarrow> nat"
  rate_one :: 'f
  rate_div :: "int \<Rightarrow> int \<Rightarrow> 'f"

definition ShouldSample :: "'f rate_ops \<Rightarrow> bytes \<Rightarrow> 'f \<Rightarrow> bool" where
  "ShouldSample ops seriesKey sampleRate =
     (if rate_ge_1 ops sampleRate then True
      else if rate_le_0 ops sampleRate then False
      else unat (fnv32a seriesKey) mod 10000 < rate_threshold ops sampleRate)"

section \<open>The interface\<close>

datatype ('b, 'h) Tracker = Exact ExactTracker | Bloom "'b BloomTracker" | Hybrid "('b, 'h) HybridTracker"

definition NewTracker :: "('b, 'h) sketch_lib \<Rightarrow> CardConfig \<Rightarrow> ('b, 'h) Tracker" where
  "NewTracker lib c =
     (case cc_Mode c of
        ModeExact \<Rightarrow> Exact NewExactTracker
      | ModeHybrid \<Rightarrow> Hybrid (NewHybridTracker lib (cc_HLLThreshold c))
      | ModeBloom \<Rightarrow> Bloom (NewBloomTracker lib))"

fun tracker_Add :: "('b, 'h) sketch_lib \<Rightarrow> ('b, 'h) Tracker \<Rightarrow> bytes \<Rightarrow> (bool \<times> int option) \<times> ('b, 'h) Tracker" where
  "tracker_Add lib (Exact t) k = (case exact_Add t k of (r, t) \<Rightarrow> ((r, None), Exact t))"
| "tracker_Add lib (Bloom t) k = (case bloom_Add lib t k of (r, t) \<Rightarrow> ((r, None), Bloom t))"
| "tracker_Add lib (Hybrid t) k = (case hybrid_Add lib t k of (r, t) \<Rightarrow> (r, Hybrid t))"

fun tracker_TestOnly :: "('b, 'h) sketch_lib \<Rightarrow> ('b, 'h) Tracker \<Rightarrow> bytes \<Rightarrow> bool" where
  "tracker_TestOnly lib (Exact t) k = exact_TestOnly t k"
| "tracker_TestOnly lib (Bloom t) k = bloom_TestOnly lib t k"
| "tracker_TestOnly lib (Hybrid t) k = hybrid_TestOnly lib t k"

fun tracker_Count :: "('b, 'h) sketch_lib \<Rightarrow> ('b, 'h) Tracker \<Rightarrow> int" where
  "tracker_Count lib (Exact t) = exact_Count t"
| "tracker_Count lib (Bloom t) = bloom_Count t"
| "tracker_Count lib (Hybrid t) = hybrid_Count lib t"

section \<open>The contract of a tracker that tests membership\<close>

locale membership_tracker =
  fixes inv :: "'t \<Rightarrow> bool"
    and add :: "'t \<Rightarrow> bytes \<Rightarrow> bool \<times> 't"
    and test :: "'t \<Rightarrow> bytes \<Rightarrow> bool"
    and cnt :: "'t \<Rightarrow> int"
  assumes add_inv: "inv t \<Longrightarrow> inv (snd (add t k))"
    and add_new: "inv t \<Longrightarrow> fst (add t k) \<longleftrightarrow> \<not> test t k"
    and add_test: "inv t \<Longrightarrow> test (snd (add t k)) k"
    and add_keeps: "inv t \<Longrightarrow> test t k' \<Longrightarrow> test (snd (add t k)) k'"
    and add_count: "inv t \<Longrightarrow> cnt (snd (add t k)) = cnt t + (if fst (add t k) then 1 else 0)"
begin

lemma adds_inv: "inv t \<Longrightarrow> inv (snd (thread add t ks))"
  by (induction ks arbitrary: t) (simp_all add: split_beta Let_def add_inv)

lemma adds_keep: "inv t \<Longrightarrow> test t k \<Longrightarrow> test (snd (thread add t ks)) k"
  by (induction ks arbitrary: t) (simp_all add: split_beta Let_def add_inv add_keeps)

lemma adds_tested: "inv t \<Longrightarrow> k \<in> set ks \<Longrightarrow> test (snd (thread add t ks)) k"
proof (induction ks arbitrary: t)
  case (Cons x ks)
  then show ?case
    using adds_keep [OF add_inv [OF Cons.prems(1)] add_test [OF Cons.prems(1)]]
    by (auto simp: split_beta Let_def add_inv)
qed simp

lemma adds_count:
  "inv t \<Longrightarrow> cnt (snd (thread add t ks)) = cnt t + int (length (filter id (fst (thread add t ks))))"
  by (induction ks arbitrary: t) (simp_all add: split_beta Let_def add_inv add_count)

text \<open>Adding keys finds at most as many new ones as testing them beforehand did.\<close>

lemma adds_new:
  "inv t \<Longrightarrow> length (filter id (fst (thread add t ks))) \<le> length (filter (\<lambda>k. \<not> test t k) ks)"
proof (induction ks arbitrary: t)
  case (Cons x ks)
  let ?t = "snd (add t x)"
  have i: "inv ?t" by (rule add_inv [OF Cons.prems])
  have "length (filter (\<lambda>k. \<not> test ?t k) ks) \<le> length (filter (\<lambda>k. \<not> test t k) ks)"
    by (rule length_filter_mono) (use add_keeps [OF Cons.prems] in blast)
  then show ?case
    using Cons.IH [OF i] add_new [OF Cons.prems, of x] by (auto simp: split_beta Let_def)
qed simp

end

interpretation exact: membership_tracker "\<lambda>t. distinct t" exact_Add exact_TestOnly exact_Count
  by unfold_locales (auto simp: exact_Add_def exact_TestOnly_def exact_Count_def)

interpretation bloom: membership_tracker "\<lambda>_. bloom_laws lib" "bloom_Add lib" "bloom_TestOnly lib" bloom_Count
  by unfold_locales (auto simp: bloom_Add_def bloom_TestOnly_def bloom_Count_def bloom_laws_def)

text \<open>The trackers that \<open>NewTracker\<close> makes in the modes other than hybrid.\<close>

fun plain_tracker :: "('b, 'h) sketch_lib \<Rightarrow> ('b, 'h) Tracker \<Rightarrow> bool" where
  "plain_tracker lib (Exact t) = distinct t"
| "plain_tracker lib (Bloom t) = bloom_laws lib"
| "plain_tracker lib (Hybrid t) = False"

definition add_key :: "('b, 'h) sketch_lib \<Rightarrow> ('b, 'h) Tracker \<Rightarrow> bytes \<Rightarrow> bool \<times> ('b, 'h) Tracker" where
  "add_key lib t k = (case tracker_Add lib t k of ((r, _), t) \<Rightarrow> (r, t))"

lemma tracker_Add_plain: "plain_tracker lib t \<Longrightarrow> snd (fst (tracker_Add lib t k)) = None"
  by (cases t) (simp_all add: split_beta)

interpretation tracker: membership_tracker "plain_tracker lib" "add_key lib" "tracker_TestOnly lib" "tracker_Count lib"
proof unfold_locales
  fix t :: "('a, 'b) Tracker" and k k' assume p: "plain_tracker lib t"
  show "plain_tracker lib (snd (add_key lib t k))"
    using p exact.add_inv bloom.add_inv [of lib] by (cases t) (auto simp: add_key_def split_beta)
  show "fst (add_key lib t k) = (\<not> tracker_TestOnly lib t k)"
    using p exact.add_new bloom.add_new [of lib] by (cases t) (auto simp: add_key_def split_beta)
  show "tracker_TestOnly lib (snd (add_key lib t k)) k"
    using p exact.add_test bloom.add_test [of lib] by (cases t) (auto simp: add_key_def split_beta)
  show "tracker_TestOnly lib t k' \<Longrightarrow> tracker_TestOnly lib (snd (add_key lib t k)) k'"
    using p exact.add_keeps bloom.add_keeps [of lib] by (cases t) (auto simp: add_key_def split_beta)
  show "tracker_Count lib (snd (add_key lib t k)) = tracker_Count lib t + (if fst (add_key lib t k) then 1 else 0)"
    using p exact.add_count bloom.add_count [of lib] by (cases t) (auto simp: add_key_def split_beta)
qed

lemma NewTracker_plain:
  "cc_Mode c \<noteq> ModeHybrid \<Longrightarrow> bloom_laws lib \<Longrightarrow> plain_tracker lib (NewTracker lib c)"
  by (cases "cc_Mode c") (simp_all add: NewTracker_def NewExactTracker_def)

end
