(* ===== verification/Limits_Config.thy ===== *)
theory Limits_Config
  imports Card_Trackers
begin

text \<open>
  The configuration of the OTLP limits: \<open>internal/limits/config.go\<close>. A YAML map is an association list
  in the order the code happens to range over it. Reading the file, the YAML decoder, \<open>time.ParseDuration\<close>
  and \<open>regexp.Compile\<close> are the parameter \<open>config_lib\<close>; a compiled regular expression is the predicate
  of the strings it matches. \<open>'f\<close> is the type of sampling rates, as in \<open>Card_Trackers\<close>.
\<close>

section \<open>Model\<close>

datatype Action = ActionUnset | ActionLog | ActionAdaptive | ActionDrop | ActionSample | ActionStripLabels
  | ActionOther gostring

record 'f Tier =
  t_AtPercent :: int
  t_Action :: Action
  t_SampleRate :: 'f
  t_StripLabels :: "gostring list"

record AdaptivePriorityConfig =
  ap_Label :: gostring
  ap_Order :: "gostring list"
  ap_DefaultPriority :: int

record RuleMatch =
  match_MetricName :: gostring
  match_Labels :: "(gostring \<times> gostring) list"

record 'f Rule =
  lr_Name :: gostring
  lr_Match :: RuleMatch
  lr_MaxDatapointsRate :: int
  lr_MaxCardinality :: int
  lr_Action :: Action
  lr_Labels :: "(gostring \<times> gostring) list"
  lr_GroupBy :: "gostring list"
  lr_SampleRate :: 'f
  lr_StripLabels :: "gostring list"
  lr_Tiers :: "'f Tier list"
  lr_LabelLimits :: "(gostring \<times> int) list"
  lr_LabelLimitAction :: gostring
  lr_AdaptivePriority :: "AdaptivePriorityConfig option"
  lr_metricRegex :: "(gostring \<Rightarrow> bool) option"

record DefaultLimits =
  dl_MaxDatapointsRate :: int
  dl_MaxCardinality :: int
  dl_Action :: Action

record 'f LimitsConfig =
  lc_Defaults :: "DefaultLimits option"
  lc_DeadRuleInterval :: gostring
  lc_RequiredLabels :: "gostring list"
  lc_Rules :: "'f Rule list"
  lc_parsedDeadRuleIntvl :: int

record 'f config_lib =
  cl_ReadFile :: "gostring \<Rightarrow> bytes option"
  cl_Unmarshal :: "bytes \<Rightarrow> 'f LimitsConfig option"
  cl_ParseDuration :: "gostring \<Rightarrow> int option"
  cl_Compile :: "gostring \<Rightarrow> (gostring \<Rightarrow> bool) option"

datatype config_error =
    CannotRead
  | CannotParse
  | InvalidInterval gostring
  | NegativeInterval
  | ReservedLabel gostring gostring
  | MissingLabel gostring gostring
  | BadSampleRate gostring
  | NoStripLabels gostring
  | BadTierPercent gostring nat
  | TiersNotAscending gostring
  | BadTierSampleRate gostring nat
  | NoTierStripLabels gostring nat
  | EmptyLimitLabel gostring
  | BadLabelLimitAction gostring gostring
  | NoPriorityLabel gostring
  | NoPriorityOrder gostring
  | InvalidRegex gostring

definition reservedLimitsLabelNames :: "gostring list" where
  "reservedLimitsLabelNames = [gostr ''rule'', gostr ''__name__'']"

definition containsRegexChars :: "gostring \<Rightarrow> bool" where
  "containsRegexChars s = list_ex (\<lambda>c. c \<in> set (gostr ''.*+?^${}()|[]'' @ [0x5C])) s"

text \<open>\<open>SampleRate <= 0 || SampleRate > 1\<close>.\<close>

definition bad_rate :: "'f rate_ops \<Rightarrow> 'f \<Rightarrow> bool" where
  "bad_rate ops r = (rate_le_0 ops r \<or> rate_gt_1 ops r)"

text \<open>The loop over the tiers, with the percentage of the tier before.\<close>

fun validate_tiers :: "'f rate_ops \<Rightarrow> gostring \<Rightarrow> nat \<Rightarrow> int option \<Rightarrow> 'f Tier list \<Rightarrow> (config_error, unit) outcome" where
  "validate_tiers ops name j prev [] = Ok ()"
| "validate_tiers ops name j prev (tier # tiers) =
     (if t_AtPercent tier < 1 \<or> t_AtPercent tier > 100 then Err (BadTierPercent name j)
      else if (case prev of Some p \<Rightarrow> t_AtPercent tier \<le> p | None \<Rightarrow> False) then Err (TiersNotAscending name)
      else if t_Action tier = ActionSample \<and> bad_rate ops (t_SampleRate tier) then Err (BadTierSampleRate name j)
      else if t_Action tier = ActionStripLabels \<and> length (t_StripLabels tier) = 0 then Err (NoTierStripLabels name j)
      else validate_tiers ops name (j + 1) (Some (t_AtPercent tier)) tiers)"

definition validate_labels :: "gostring list \<Rightarrow> 'f Rule \<Rightarrow> (config_error, unit) outcome" where
  "validate_labels required rule =
     (case List.find (\<lambda>(k, _). k \<in> set reservedLimitsLabelNames) (lr_Labels rule) of
        Some (k, _) \<Rightarrow> Err (ReservedLabel (lr_Name rule) k)
      | None \<Rightarrow>
          (case List.find (\<lambda>req. map_of (lr_Labels rule) req = None) required of
             Some req \<Rightarrow> Err (MissingLabel (lr_Name rule) req)
           | None \<Rightarrow> Ok ()))"

definition validate_label_limits :: "'f Rule \<Rightarrow> (config_error, 'f Rule) outcome" where
  "validate_label_limits rule =
     (if length (lr_LabelLimits rule) > 0 then
        if list_ex (\<lambda>(k, _). k = []) (lr_LabelLimits rule) then Err (EmptyLimitLabel (lr_Name rule))
        else
          let rule = (if lr_LabelLimitAction rule = [] then rule\<lparr>lr_LabelLimitAction := gostr ''strip''\<rparr> else rule)
          in if lr_LabelLimitAction rule \<noteq> gostr ''strip'' \<and> lr_LabelLimitAction rule \<noteq> gostr ''drop'' then
               Err (BadLabelLimitAction (lr_Name rule) (lr_LabelLimitAction rule))
             else Ok rule
      else Ok rule)"

definition validate_priority :: "'f Rule \<Rightarrow> (config_error, unit) outcome" where
  "validate_priority rule =
     (case lr_AdaptivePriority rule of
        None \<Rightarrow> Ok ()
      | Some p \<Rightarrow>
          if ap_Label p = [] then Err (NoPriorityLabel (lr_Name rule))
          else if length (ap_Order p) = 0 then Err (NoPriorityOrder (lr_Name rule))
          else Ok ())"

definition compile_metric :: "'f config_lib \<Rightarrow> 'f Rule \<Rightarrow> (config_error, 'f Rule) outcome" where
  "compile_metric lib rule =
     (if match_MetricName (lr_Match rule) \<noteq> [] \<and> containsRegexChars (match_MetricName (lr_Match rule)) then
        (case cl_Compile lib (match_MetricName (lr_Match rule)) of
           None \<Rightarrow> Err (InvalidRegex (lr_Name rule))
         | Some regex \<Rightarrow> Ok (rule\<lparr>lr_metricRegex := Some regex\<rparr>))
      else Ok rule)"

definition validate_rule ::
    "'f rate_ops \<Rightarrow> 'f config_lib \<Rightarrow> Action \<Rightarrow> gostring list \<Rightarrow> 'f Rule \<Rightarrow> (config_error, 'f Rule) outcome" where
  "validate_rule ops lib default_action required rule =
     (let rule = (if lr_Action rule = ActionUnset then rule\<lparr>lr_Action := default_action\<rparr> else rule) in
      bind_outcome (validate_labels required rule) (\<lambda>_.
      if lr_Action rule = ActionSample \<and> bad_rate ops (lr_SampleRate rule) then Err (BadSampleRate (lr_Name rule))
      else if lr_Action rule = ActionStripLabels \<and> length (lr_StripLabels rule) = 0 then Err (NoStripLabels (lr_Name rule))
      else
        bind_outcome (validate_tiers ops (lr_Name rule) 0 None (lr_Tiers rule)) (\<lambda>_.
        bind_outcome (validate_label_limits rule) (\<lambda>rule.
        bind_outcome (validate_priority rule) (\<lambda>_.
        compile_metric lib rule)))))"

fun validate_rules ::
    "'f rate_ops \<Rightarrow> 'f config_lib \<Rightarrow> Action \<Rightarrow> gostring list \<Rightarrow> 'f Rule list \<Rightarrow> (config_error, 'f Rule list) outcome" where
  "validate_rules ops lib a required [] = Ok []"
| "validate_rules ops lib a required (rule # rules) =
     bind_outcome (validate_rule ops lib a required rule) (\<lambda>rule.
     bind_outcome (validate_rules ops lib a required rules) (\<lambda>rules. Ok (rule # rules)))"

definition set_defaults :: "'f LimitsConfig \<Rightarrow> DefaultLimits" where
  "set_defaults cfg =
     (let d = (case lc_Defaults cfg of
                 None \<Rightarrow> \<lparr>dl_MaxDatapointsRate = 0, dl_MaxCardinality = 0, dl_Action = ActionLog\<rparr>
               | Some d \<Rightarrow> d)
      in if dl_Action d = ActionUnset then d\<lparr>dl_Action := ActionLog\<rparr> else d)"

definition parse_interval :: "'f config_lib \<Rightarrow> 'f LimitsConfig \<Rightarrow> (config_error, int) outcome" where
  "parse_interval lib cfg =
     (if lc_DeadRuleInterval cfg \<noteq> [] then
        (case cl_ParseDuration lib (lc_DeadRuleInterval cfg) of
           None \<Rightarrow> Err (InvalidInterval (lc_DeadRuleInterval cfg))
         | Some d \<Rightarrow> if d < 0 then Err NegativeInterval else Ok d)
      else Ok (lc_parsedDeadRuleIntvl cfg))"

text \<open>The decoder leaves the unexported fields of the zero \<open>Config\<close> alone.\<close>

definition zero_unexported :: "'f LimitsConfig \<Rightarrow> 'f LimitsConfig" where
  "zero_unexported cfg = cfg\<lparr>lc_parsedDeadRuleIntvl := 0, lc_Rules := map (\<lambda>r. r\<lparr>lr_metricRegex := None\<rparr>) (lc_Rules cfg)\<rparr>"

definition LoadConfig :: "'f rate_ops \<Rightarrow> 'f config_lib \<Rightarrow> gostring \<Rightarrow> (config_error, 'f LimitsConfig) outcome" where
  "LoadConfig ops lib path =
     (case cl_ReadFile lib path of
        None \<Rightarrow> Err CannotRead
      | Some data \<Rightarrow>
          (case cl_Unmarshal lib data of
             None \<Rightarrow> Err CannotParse
           | Some cfg \<Rightarrow>
               let cfg = zero_unexported cfg; d = set_defaults cfg in
               bind_outcome (parse_interval lib cfg) (\<lambda>intvl.
               bind_outcome (validate_rules ops lib (dl_Action d) (lc_RequiredLabels cfg) (lc_Rules cfg)) (\<lambda>rules.
               Ok (cfg\<lparr>lc_Defaults := Some d, lc_parsedDeadRuleIntvl := intvl, lc_Rules := rules\<rparr>)))))"

section \<open>Matching\<close>

definition MatchesMetric :: "'f Rule \<Rightarrow> gostring \<Rightarrow> bool" where
  "MatchesMetric r metricName =
     (if match_MetricName (lr_Match r) = [] then True
      else case lr_metricRegex r of
        Some re \<Rightarrow> re metricName
      | None \<Rightarrow> match_MetricName (lr_Match r) = metricName)"

definition MatchesLabels :: "'f Rule \<Rightarrow> (gostring \<rightharpoonup> gostring) \<Rightarrow> bool" where
  "MatchesLabels r labels =
     (if length (match_Labels (lr_Match r)) = 0 then True
      else list_all (\<lambda>(key, pattern). case labels key of
               None \<Rightarrow> False
             | Some value \<Rightarrow> \<not> (pattern \<noteq> gostr ''*'' \<and> pattern \<noteq> value)) (match_Labels (lr_Match r)))"

definition HasLabelMatchers :: "'f Rule \<Rightarrow> bool" where
  "HasLabelMatchers r = (length (match_Labels (lr_Match r)) > 0)"

definition Matches :: "'f Rule \<Rightarrow> gostring \<Rightarrow> (gostring \<rightharpoonup> gostring) \<Rightarrow> bool" where
  "Matches r metricName labels = (MatchesMetric r metricName \<and> MatchesLabels r labels)"

definition HasAnyLabelMatchers :: "'f LimitsConfig \<Rightarrow> bool" where
  "HasAnyLabelMatchers c = list_ex HasLabelMatchers (lc_Rules c)"

lemma MatchesLabels_none [simp]: "\<not> HasLabelMatchers r \<Longrightarrow> MatchesLabels r labels"
  by (simp add: HasLabelMatchers_def MatchesLabels_def)

section \<open>What an accepted configuration satisfies\<close>

text \<open>The conditions on one rule, and the rule as the code completes it.\<close>

definition tiers_ok :: "'f rate_ops \<Rightarrow> 'f Tier list \<Rightarrow> bool" where
  "tiers_ok ops ts \<longleftrightarrow> sorted_wrt (<) (map t_AtPercent ts)
     \<and> list_all (\<lambda>t. 1 \<le> t_AtPercent t \<and> t_AtPercent t \<le> 100
          \<and> (t_Action t = ActionSample \<longrightarrow> \<not> bad_rate ops (t_SampleRate t))
          \<and> (t_Action t = ActionStripLabels \<longrightarrow> t_StripLabels t \<noteq> [])) ts"

definition rule_ok :: "'f rate_ops \<Rightarrow> gostring list \<Rightarrow> 'f Rule \<Rightarrow> bool" where
  "rule_ok ops required r \<longleftrightarrow>
     lr_Action r \<noteq> ActionUnset
     \<and> set reservedLimitsLabelNames \<inter> fst ` set (lr_Labels r) = {}
     \<and> set required \<subseteq> fst ` set (lr_Labels r)
     \<and> (lr_Action r = ActionSample \<longrightarrow> \<not> bad_rate ops (lr_SampleRate r))
     \<and> (lr_Action r = ActionStripLabels \<longrightarrow> lr_StripLabels r \<noteq> [])
     \<and> tiers_ok ops (lr_Tiers r)
     \<and> (lr_LabelLimits r \<noteq> [] \<longrightarrow>
          [] \<notin> fst ` set (lr_LabelLimits r) \<and> lr_LabelLimitAction r \<in> {gostr ''strip'', gostr ''drop''})
     \<and> (\<forall>p. lr_AdaptivePriority r = Some p \<longrightarrow> ap_Label p \<noteq> [] \<and> ap_Order p \<noteq> [])"

lemma validate_tiers_Ok:
  "validate_tiers ops name j prev ts = Ok () \<longleftrightarrow>
     tiers_ok ops ts \<and> (\<forall>p. prev = Some p \<longrightarrow> list_all (\<lambda>t. p < t_AtPercent t) ts)"
proof (induction ts arbitrary: j prev)
  case (Cons t ts)
  show ?case
    by (cases prev) (auto simp: Cons.IH tiers_ok_def list_all_iff)
qed (simp add: tiers_ok_def)

lemma validate_labels_Ok:
  "validate_labels required r = Ok () \<longleftrightarrow>
     set reservedLimitsLabelNames \<inter> fst ` set (lr_Labels r) = {} \<and> set required \<subseteq> fst ` set (lr_Labels r)"
proof -
  have "List.find (\<lambda>(k, _). k \<in> set reservedLimitsLabelNames) (lr_Labels r) = None
      \<longleftrightarrow> set reservedLimitsLabelNames \<inter> fst ` set (lr_Labels r) = {}"
    by (force simp: find_None_iff)
  moreover have "List.find (\<lambda>req. map_of (lr_Labels r) req = None) required = None
      \<longleftrightarrow> set required \<subseteq> fst ` set (lr_Labels r)"
    by (auto simp: find_None_iff map_of_eq_None_iff)
  ultimately show ?thesis
    by (auto simp: validate_labels_def split: option.split)
qed

lemma validate_label_limits_Ok:
  "validate_label_limits r = Ok r' \<Longrightarrow> \<exists>x. r' = r\<lparr>lr_LabelLimitAction := x\<rparr>
     \<and> (lr_LabelLimits r \<noteq> [] \<longrightarrow> [] \<notin> fst ` set (lr_LabelLimits r) \<and> x \<in> {gostr ''strip'', gostr ''drop''})"
  by (rule exI [of _ "lr_LabelLimitAction r'"])
    (auto simp: validate_label_limits_def Let_def list_ex_iff split: if_splits)

lemma compile_metric_Ok: "compile_metric lib r = Ok r' \<Longrightarrow> \<exists>y. r' = r\<lparr>lr_metricRegex := y\<rparr>"
  by (rule exI [of _ "lr_metricRegex r'"]) (auto simp: compile_metric_def split: if_splits option.splits)

text \<open>
  A validated rule is well-formed, and differs from the configured one only in the two fields
  the code completes and in the compiled expression.
\<close>

lemma validate_rule_Ok:
  assumes "validate_rule ops lib a required r = Ok r'" "a \<noteq> ActionUnset"
  shows "rule_ok ops required r' \<and> lr_Name r' = lr_Name r \<and> lr_Match r' = lr_Match r
    \<and> lr_Action r' = (if lr_Action r = ActionUnset then a else lr_Action r)"
proof -
  let ?r = "if lr_Action r = ActionUnset then r\<lparr>lr_Action := a\<rparr> else r"
  obtain r1 where r1: "validate_label_limits ?r = Ok r1" "compile_metric lib r1 = Ok r'"
    and v: "validate_labels required ?r = Ok ()" "validate_tiers ops (lr_Name ?r) 0 None (lr_Tiers ?r) = Ok ()"
      "validate_priority r1 = Ok ()" "lr_Action ?r = ActionSample \<Longrightarrow> \<not> bad_rate ops (lr_SampleRate ?r)"
      "lr_Action ?r = ActionStripLabels \<Longrightarrow> lr_StripLabels ?r \<noteq> []"
    using assms(1) unfolding validate_rule_def Let_def by (auto split: if_splits)
  have f: "lr_Action ?r \<noteq> ActionUnset" "lr_Name ?r = lr_Name r" "lr_Match ?r = lr_Match r"
    "lr_Action ?r = (if lr_Action r = ActionUnset then a else lr_Action r)"
    using assms(2) by simp_all
  obtain x where l: "r1 = ?r\<lparr>lr_LabelLimitAction := x\<rparr>"
    "lr_LabelLimits ?r \<noteq> [] \<Longrightarrow> [] \<notin> fst ` set (lr_LabelLimits ?r) \<and> x \<in> {gostr ''strip'', gostr ''drop''}"
    using validate_label_limits_Ok [OF r1(1)] by blast
  obtain y where c: "r' = r1\<lparr>lr_metricRegex := y\<rparr>"
    using compile_metric_Ok [OF r1(2)] by blast
  have p: "\<And>p. lr_AdaptivePriority ?r = Some p \<Longrightarrow> ap_Label p \<noteq> [] \<and> ap_Order p \<noteq> []"
    using v(3) unfolding l(1) by (auto simp: validate_priority_def split: if_splits option.splits)
  show ?thesis
    unfolding c l(1) rule_ok_def using v f l(2) p by (simp add: validate_labels_Ok validate_tiers_Ok)
qed

lemma validate_rules_Ok:
  "validate_rules ops lib a required rs = Ok rs' \<Longrightarrow> list_all2 (\<lambda>r r'. validate_rule ops lib a required r = Ok r') rs rs'"
  by (induction rs arbitrary: rs') auto

lemma validate_rule_metric:
  assumes "validate_rule ops lib a required r = Ok r'" "lr_metricRegex r = None"
  shows "lr_metricRegex r' = (if containsRegexChars (match_MetricName (lr_Match r)) then cl_Compile lib (match_MetricName (lr_Match r)) else None)
    \<and> (containsRegexChars (match_MetricName (lr_Match r)) \<longrightarrow> lr_metricRegex r' \<noteq> None) \<and> lr_Match r' = lr_Match r"
proof -
  let ?r = "if lr_Action r = ActionUnset then r\<lparr>lr_Action := a\<rparr> else r"
  obtain r1 where r1: "validate_label_limits ?r = Ok r1" "compile_metric lib r1 = Ok r'"
    using assms(1) unfolding validate_rule_def Let_def by (auto split: if_splits)
  obtain x where l: "r1 = ?r\<lparr>lr_LabelLimitAction := x\<rparr>"
    using validate_label_limits_Ok [OF r1(1)] by blast
  have r: "lr_Match r1 = lr_Match r" "lr_metricRegex r1 = None"
    unfolding l(1) using assms(2) by simp_all
  have "containsRegexChars [] = False" by (simp add: containsRegexChars_def)
  then show ?thesis
    using r1(2) r by (auto simp: compile_metric_def split: if_splits option.splits)
qed

text \<open>How the metric name of a rule is meant: empty for every metric, a regular expression, or a name.\<close>

definition metric_selected :: "'f config_lib \<Rightarrow> gostring \<Rightarrow> gostring \<Rightarrow> bool" where
  "metric_selected lib pattern n =
     (pattern = [] \<or> (if containsRegexChars pattern then case cl_Compile lib pattern of Some re \<Rightarrow> re n | None \<Rightarrow> False
                       else pattern = n))"

text \<open>
  C28: A configuration that \<open>LoadConfig\<close> accepts is well-formed: the default action is set, the dead-rule
  interval is not negative, and in every rule the action is set, no ownership label is reserved and no required one
  is missing, sampling rates and label lists are there where the action needs them, the tiers ascend
  strictly within 1 to 100, label limits and priorities are complete. A rule's metric name then
  selects every metric, the matches of its regular expression, or exactly one name.
\<close>

theorem LoadConfig_wellformed:
  assumes "LoadConfig ops lib path = Ok cfg"
  shows "(\<exists>d. lc_Defaults cfg = Some d \<and> dl_Action d \<noteq> ActionUnset) \<and> 0 \<le> lc_parsedDeadRuleIntvl cfg
    \<and> (\<forall>r \<in> set (lc_Rules cfg). rule_ok ops (lc_RequiredLabels cfg) r
         \<and> MatchesMetric r = metric_selected lib (match_MetricName (lr_Match r)))"
proof -
  obtain data cfg0 intvl rules where d: "cl_Unmarshal lib data = Some cfg0"
    and i: "parse_interval lib (zero_unexported cfg0) = Ok intvl"
    and v: "validate_rules ops lib (dl_Action (set_defaults (zero_unexported cfg0))) (lc_RequiredLabels cfg0)
        (map (\<lambda>r. r\<lparr>lr_metricRegex := None\<rparr>) (lc_Rules cfg0)) = Ok rules"
    and cfg: "cfg = (zero_unexported cfg0)\<lparr>lc_Defaults := Some (set_defaults (zero_unexported cfg0)),
        lc_parsedDeadRuleIntvl := intvl, lc_Rules := rules\<rparr>"
    using assms unfolding LoadConfig_def by (auto simp: Let_def zero_unexported_def split: option.splits)
  have a: "dl_Action (set_defaults c) \<noteq> ActionUnset" for c :: "'a LimitsConfig"
    by (simp add: set_defaults_def Let_def)
  have "0 \<le> intvl" using i by (auto simp: parse_interval_def zero_unexported_def split: if_splits option.splits)
  moreover {
    fix r assume "r \<in> set rules"
    then obtain r0 where "validate_rule ops lib (dl_Action (set_defaults (zero_unexported cfg0))) (lc_RequiredLabels cfg0) r0 = Ok r"
      "lr_metricRegex r0 = None"
      using validate_rules_Ok [OF v] by (auto simp: list_all2_conv_all_nth in_set_conv_nth)
    note r = validate_rule_Ok [OF this(1) a] validate_rule_metric [OF this]
    then have "MatchesMetric r n = metric_selected lib (match_MetricName (lr_Match r)) n" for n
      by (auto simp: MatchesMetric_def metric_selected_def split: option.splits)
    with r(1) have "rule_ok ops (lc_RequiredLabels cfg0) r \<and> MatchesMetric r = metric_selected lib (match_MetricName (lr_Match r))"
      by blast
  }
  ultimately show ?thesis using a by (simp add: cfg zero_unexported_def)
qed

definition sample_rates :: "nat rate_ops" where
  "sample_rates = \<lparr>rate_ge_1 = (\<lambda>r. 10000 \<le> r), rate_gt_1 = (\<lambda>r. 10000 < r), rate_gt_0 = (\<lambda>r. 0 < r),
     rate_le_0 = (\<lambda>r. r = 0), rate_threshold = id, rate_one = 10000, rate_div = (\<lambda>a b. nat (10000 * a div b))\<rparr>"

definition blank_rule :: "nat Rule" where
  "blank_rule = \<lparr>lr_Name = [], lr_Match = \<lparr>match_MetricName = [], match_Labels = []\<rparr>, lr_MaxDatapointsRate = 0,
     lr_MaxCardinality = 0, lr_Action = ActionUnset, lr_Labels = [], lr_GroupBy = [], lr_SampleRate = 0, lr_StripLabels = [],
     lr_Tiers = [], lr_LabelLimits = [], lr_LabelLimitAction = [], lr_AdaptivePriority = None, lr_metricRegex = None\<rparr>"

definition sample_tier :: "nat Tier" where
  "sample_tier = \<lparr>t_AtPercent = 80, t_Action = ActionSample, t_SampleRate = 5000, t_StripLabels = []\<rparr>"

definition sample_config :: "nat LimitsConfig" where
  "sample_config = \<lparr>lc_Defaults = None, lc_DeadRuleInterval = [], lc_RequiredLabels = [],
     lc_Rules = [blank_rule\<lparr>lr_Match := \<lparr>match_MetricName = gostr ''http.*'', match_Labels = []\<rparr>, lr_Tiers := [sample_tier]\<rparr>],
     lc_parsedDeadRuleIntvl = 0\<rparr>"

definition sample_lib :: "nat config_lib" where
  "sample_lib = \<lparr>cl_ReadFile = (\<lambda>_. Some []), cl_Unmarshal = (\<lambda>_. Some sample_config), cl_ParseDuration = (\<lambda>_. None),
     cl_Compile = (\<lambda>p. Some (\<lambda>s. take 4 s = take 4 p))\<rparr>"

theorem LoadConfig_wellformed_witness:
  "case LoadConfig sample_rates sample_lib [] of
     Ok cfg \<Rightarrow> list_all (rule_ok sample_rates []) (lc_Rules cfg)
       \<and> MatchesMetric (hd (lc_Rules cfg)) (gostr ''http_total'') \<and> \<not> MatchesMetric (hd (lc_Rules cfg)) (gostr ''htt'')
   | _ \<Rightarrow> False"
proof -
  let ?r = "blank_rule\<lparr>lr_Match := \<lparr>match_MetricName = gostr ''http.*'', match_Labels = []\<rparr>, lr_Tiers := [sample_tier],
    lr_Action := ActionLog, lr_metricRegex := Some (\<lambda>s. take 4 s = take 4 (gostr ''http.*''))\<rparr>"
  let ?d = "\<lparr>dl_MaxDatapointsRate = 0, dl_MaxCardinality = 0, dl_Action = ActionLog\<rparr>"
  have "LoadConfig sample_rates sample_lib [] = Ok (sample_config\<lparr>lc_Rules := [?r], lc_Defaults := Some ?d\<rparr>)"
    by (simp add: LoadConfig_def sample_lib_def sample_config_def zero_unexported_def set_defaults_def parse_interval_def
        blank_rule_def validate_rule_def validate_labels_def sample_tier_def bad_rate_def sample_rates_def
        validate_label_limits_def validate_priority_def compile_metric_def containsRegexChars_def gostr_def)
  note l = this and w = LoadConfig_wellformed [OF this]
  have "rule_ok sample_rates [] ?r" "MatchesMetric ?r = metric_selected sample_lib (gostr ''http.*'')"
    using w by (simp_all add: sample_config_def)
  moreover have "metric_selected sample_lib (gostr ''http.*'') (gostr ''http_total'')"
    "\<not> metric_selected sample_lib (gostr ''http.*'') (gostr ''htt'')"
    by (simp_all add: metric_selected_def sample_lib_def containsRegexChars_def gostr_def)
  ultimately show ?thesis unfolding l by (simp only: outcome.case) simp
qed

end
