(* ===== verification/Rule_Activity.thy ===== *)
theory Rule_Activity
  imports Limits_Config "HOL-Library.AList"
begin

text \<open>
  Dead-rule detection: \<open>internal/ruleactivity/activity.go\<close> and the part of \<open>internal/limits/dead_rules.go\<close>
  that works on the activity map of the enforcer. Times are nanoseconds; the Prometheus gauges the
  code sets are the results of the definitions, with durations in nanoseconds.
\<close>

section \<open>Model\<close>

record Activity =
  LastMatchTime :: int
  LoadedTime :: int
  WasDead :: bool

definition NewActivity :: "int \<Rightarrow> Activity" where
  "NewActivity now = \<lparr>LastMatchTime = 0, LoadedTime = now, WasDead = False\<rparr>"

definition RecordMatch :: "Activity \<Rightarrow> int \<Rightarrow> Activity" where
  "RecordMatch a now = a\<lparr>LastMatchTime := now\<rparr>"

definition IsDead :: "Activity \<Rightarrow> int \<Rightarrow> int \<Rightarrow> bool" where
  "IsDead a now thresholdNanos =
     (if LastMatchTime a = 0 then now - LoadedTime a > thresholdNanos else now - LastMatchTime a > thresholdNanos)"

text \<open>\<open>EvaluateAndTransition\<close>: whether the rule is dead, whether that is a change, and the direction of the change.\<close>

definition EvaluateAndTransition :: "Activity \<Rightarrow> int \<Rightarrow> int \<Rightarrow> (bool \<times> bool \<times> string) \<times> Activity" where
  "EvaluateAndTransition a now thresholdNanos =
     (let isDead = IsDead a now thresholdNanos; was = WasDead a in
      if isDead then
        (if \<not> was then (True, True, ''dead'') else (True, False, ''''), a\<lparr>WasDead := True\<rparr>)
      else
        (if was then (False, True, ''alive'') else (False, False, ''''), a\<lparr>WasDead := False\<rparr>))"

type_synonym activity_map = "(gostring \<times> Activity) list"

definition initRuleActivity :: "'f Rule list \<Rightarrow> int \<Rightarrow> activity_map" where
  "initRuleActivity rules now = foldl (\<lambda>acts r. AList.update (lr_Name r) (NewActivity now) acts) [] rules"

definition recordRuleMatch :: "activity_map \<Rightarrow> gostring \<Rightarrow> int \<Rightarrow> activity_map" where
  "recordRuleMatch acts ruleName now =
     (case map_of acts ruleName of Some a \<Rightarrow> AList.update ruleName (RecordMatch a now) acts | None \<Rightarrow> acts)"

text \<open>
  The always-on gauges of a rule: time since the last match (\<open>None\<close> for \<open>+Inf\<close>), never matched, time since loading.
\<close>

definition updateLimitsDeadRuleMetrics :: "activity_map \<Rightarrow> int \<Rightarrow> (gostring \<times> int option \<times> bool \<times> int) list" where
  "updateLimitsDeadRuleMetrics acts now =
     map (\<lambda>(name, a). (name,
            if LastMatchTime a = 0 then None else Some (now - LastMatchTime a),
            LastMatchTime a = 0,
            now - LoadedTime a)) acts"

text \<open>
  One pass of the scanner: the dead gauges, the transitions it logs, the dead count, and the new map.
\<close>

fun scan :: "activity_map \<Rightarrow> int \<Rightarrow> int \<Rightarrow> (gostring \<times> bool) list \<times> (gostring \<times> bool) list \<times> nat \<times> activity_map" where
  "scan [] now threshold = ([], [], 0, [])"
| "scan ((name, a) # acts) now threshold =
     (let ((isDead, transitioned, _), a) = EvaluateAndTransition a now threshold;
          (gauges, logged, deadCount, acts) = scan acts now threshold
      in ((name, isDead) # gauges, (if transitioned then (name, isDead) # logged else logged),
          (if isDead then deadCount + 1 else deadCount), (name, a) # acts))"

section \<open>Laws\<close>

lemma map_of_recordRuleMatch:
  "map_of (recordRuleMatch acts n now) = (\<lambda>k. if k = n then map_option (\<lambda>a. RecordMatch a now) (map_of acts n) else map_of acts k)"
  by (auto simp: recordRuleMatch_def update_conv' split: option.splits)

lemma IsDead_cong:
  "LastMatchTime a = LastMatchTime b \<Longrightarrow> LoadedTime a = LoadedTime b \<Longrightarrow> IsDead a now th = IsDead b now th"
  by (simp add: IsDead_def)

text \<open>The events of a rule: matches, and passes of the scanner, each at a time.\<close>

datatype rule_event = Matched int | Scanned int

fun rule_run :: "int \<Rightarrow> Activity \<Rightarrow> rule_event list \<Rightarrow> bool list \<times> Activity" where
  "rule_run th a [] = ([], a)"
| "rule_run th a (Matched now # es) = rule_run th (RecordMatch a now) es"
| "rule_run th a (Scanned now # es) =
     (let ((isDead, transitioned, _), a) = EvaluateAndTransition a now th;
          (logged, a) = rule_run th a es
      in (if transitioned then isDead # logged else logged, a))"

fun alternating :: "bool \<Rightarrow> bool list \<Rightarrow> bool" where
  "alternating b [] = True"
| "alternating b (x # xs) = (x = (\<not> b) \<and> alternating x xs)"

lemma rule_run_alternates:
  "alternating (WasDead a) (fst (rule_run th a es))
   \<and> WasDead (snd (rule_run th a es)) = (if fst (rule_run th a es) = [] then WasDead a else last (fst (rule_run th a es)))"
proof (induction es arbitrary: a)
  case (Cons e es)
  show ?case
  proof (cases e)
    case (Matched now)
    then show ?thesis using Cons.IH [of "RecordMatch a now"] by (simp add: RecordMatch_def)
  next
    case (Scanned now)
    let ?a = "snd (EvaluateAndTransition a now th)"
    show ?thesis
      using Cons.IH [of ?a]
      by (auto simp: Scanned split_beta Let_def EvaluateAndTransition_def split: if_splits)
  qed
qed simp

lemma rule_run_snoc: "snd (rule_run th a (es @ [e])) = snd (rule_run th (snd (rule_run th a es)) [e])"
proof (induction es arbitrary: a)
  case (Cons x es)
  then show ?case by (cases x) (simp_all add: split_beta Let_def)
qed simp

text \<open>
  the scanner's log of a rule alternates between "appears dead" and "is alive again", beginning
  with the former, whatever matches and passes happen in between; and after a pass at time
  \<open>now\<close> the rule is marked dead exactly if it has not matched (or was not loaded) within
  the threshold.
\<close>

theorem dead_rule_log:
  "alternating False (fst (rule_run th (NewActivity t0) es))
   \<and> WasDead (snd (rule_run th (NewActivity t0) (es @ [Scanned now]))) =
       IsDead (snd (rule_run th (NewActivity t0) es)) now th"
proof -
  have "WasDead (snd (rule_run th a [Scanned now])) = IsDead a now th" for a
    by (simp add: split_beta Let_def EvaluateAndTransition_def)
  moreover have "WasDead (NewActivity t0) = False" by (simp add: NewActivity_def)
  ultimately show ?thesis
    using rule_run_alternates [of "NewActivity t0" th es] by (simp add: rule_run_snoc)
qed

end
