(* ===== verification/Log_Aggregator.thy ===== *)
theory Log_Aggregator
  imports Prelude "HOL-Library.AList"
begin

text \<open>
  The log aggregator of \<open>internal/limits/log_aggregator.go\<close>: messages with the same key are counted
  and written once per flush. The fields of a message are the type parameter \<open>'d\<close>; the lines handed to
  the logger are a result of \<open>flush\<close>. The ticker of \<open>flushLoop\<close> calls \<open>flush\<close>.
\<close>

section \<open>Model\<close>

definition maxLogAggregatorEntries :: nat where
  "maxLogAggregatorEntries = 10000"

datatype log_level = LogWarn | LogInfo | LogError

record 'd aggregatedEntry =
  ae_level :: log_level
  ae_message :: string
  ae_fields :: 'd
  ae_count :: int
  ae_firstSeen :: int
  ae_lastSeen :: int
  ae_totalDPs :: int

record 'd LogAggregator =
  la_entries :: "(gostring \<times> 'd aggregatedEntry) list"
  la_dropped :: int
  la_flushInterval :: int

definition NewLogAggregator :: "int \<Rightarrow> 'd LogAggregator" where
  "NewLogAggregator flushInterval = \<lparr>la_entries = [], la_dropped = 0,
     la_flushInterval = (if flushInterval \<le> 0 then 10 * 1000000000 else flushInterval)\<rparr>"

definition la_add ::
    "'d LogAggregator \<Rightarrow> int \<Rightarrow> log_level \<Rightarrow> gostring \<Rightarrow> string \<Rightarrow> 'd \<Rightarrow> int \<Rightarrow> 'd LogAggregator" where
  "la_add la now level key message flds datapoints =
     (case map_of (la_entries la) key of
        Some entry \<Rightarrow>
          la\<lparr>la_entries := AList.update key (entry\<lparr>ae_count := ae_count entry + 1, ae_lastSeen := now,
               ae_totalDPs := ae_totalDPs entry + datapoints\<rparr>) (la_entries la)\<rparr>
      | None \<Rightarrow>
          if length (la_entries la) \<ge> maxLogAggregatorEntries then la\<lparr>la_dropped := la_dropped la + 1\<rparr>
          else la\<lparr>la_entries := AList.update key \<lparr>ae_level = level, ae_message = message, ae_fields = flds, ae_count = 1,
                 ae_firstSeen = now, ae_lastSeen = now, ae_totalDPs = datapoints\<rparr> (la_entries la)\<rparr>)"

definition la_Warn :: "'d LogAggregator \<Rightarrow> int \<Rightarrow> gostring \<Rightarrow> string \<Rightarrow> 'd \<Rightarrow> int \<Rightarrow> 'd LogAggregator" where
  "la_Warn la now key message flds datapoints = la_add la now LogWarn key message flds datapoints"

definition la_Info :: "'d LogAggregator \<Rightarrow> int \<Rightarrow> gostring \<Rightarrow> string \<Rightarrow> 'd \<Rightarrow> int \<Rightarrow> 'd LogAggregator" where
  "la_Info la now key message flds datapoints = la_add la now LogInfo key message flds datapoints"

definition la_Error :: "'d LogAggregator \<Rightarrow> int \<Rightarrow> gostring \<Rightarrow> string \<Rightarrow> 'd \<Rightarrow> int \<Rightarrow> 'd LogAggregator" where
  "la_Error la now key message flds datapoints = la_add la now LogError key message flds datapoints"

text \<open>The number of messages the size cap dropped (logged when positive), and the entries written.\<close>

definition la_flush :: "'d LogAggregator \<Rightarrow> (int option \<times> 'd aggregatedEntry list) \<times> 'd LogAggregator" where
  "la_flush la =
     ((if la_dropped la > 0 then Some (la_dropped la) else None, map snd (la_entries la)),
      la\<lparr>la_entries := [], la_dropped := 0\<rparr>)"

definition la_Stop :: "'d LogAggregator \<Rightarrow> (int option \<times> 'd aggregatedEntry list) \<times> 'd LogAggregator" where
  "la_Stop la = la_flush la"

section \<open>Every message is counted\<close>

definition la_inv :: "'d LogAggregator \<Rightarrow> bool" where
  "la_inv la \<longleftrightarrow> distinct (map fst (la_entries la)) \<and> length (la_entries la) \<le> maxLogAggregatorEntries \<and> 0 \<le> la_dropped la"

definition la_occurrences :: "'d LogAggregator \<Rightarrow> int" where
  "la_occurrences la = sum_list (map (\<lambda>(_, e). ae_count e) (la_entries la)) + la_dropped la"

lemma sum_list_update:
  "distinct (map fst al) \<Longrightarrow> sum_list (map (\<lambda>(_, e). f e) (AList.update k v al)) =
     sum_list (map (\<lambda>(_, e). f e) al) - (case map_of al k of Some w \<Rightarrow> f w | None \<Rightarrow> 0) + (f v :: int)"
  by (induction al) (auto split: option.splits dest: map_of_SomeD)

lemma length_alist_update:
  "length (AList.update k v al) = (if map_of al k = None then Suc (length al) else length al)"
  by (induction al) auto

lemma la_add_inv: "la_inv la \<Longrightarrow> la_inv (la_add la now level key msg flds dps)"
  by (auto simp: la_inv_def la_add_def length_alist_update distinct_update split: option.splits)

lemma la_add_occurrences:
  "la_inv la \<Longrightarrow> la_occurrences (la_add la now level key msg flds dps) = la_occurrences la + 1"
  by (auto simp: la_occurrences_def la_add_def la_inv_def sum_list_update split: option.splits)

end
