(* ===== verification/Limits_Enforcer.thy ===== *)
theory Limits_Enforcer
  imports Otlp_Types Rule_Cache Rule_Activity Log_Aggregator "HOL-Library.Product_Lexorder"
begin

text \<open>
  The OTLP limits enforcer: \<open>internal/limits/enforcer.go\<close>. The state is the record \<open>Enforcer\<close>; Go maps are
  association lists with distinct keys. The clock is read as \<open>now\<close>, one reading for a call of \<open>Process\<close>.
  The mutex \<open>e.mu\<close> is not reentrant: where the code takes it a second time, which blocks forever,
  the model returns \<open>None\<close>. Counters are integers; the totals checked against a limit stay within it.
  Where the code ranges over the groups of a rule and sorts them with \<open>sort.Slice\<close>, which is not
  stable, the order among equals is the parameter \<open>le_shuffle\<close>. \<open>Process\<close> changes the
  metrics of its argument in place; the model returns the changed metrics.
\<close>

section \<open>State\<close>

record ('b, 'h) groupStats =
  gs_datapoints :: int
  gs_cardinality :: "('b, 'h) Tracker"
  gs_windowEnd :: int

record 'f trackerModeInfo =
  tm_mode :: TrackerMode
  tm_switchCount :: int
  tm_sampleRate :: 'f

record ('b, 'h) ruleStats =
  rs_groups :: "(gostring \<times> ('b, 'h) groupStats) list"
  rs_totalDPs :: int
  rs_totalCard :: int
  rs_windowEnd :: int

datatype 'f log_value = LogString gostring | LogBool bool | LogFloat 'f | LogInt int

type_synonym 'f log_fields = "(string \<times> 'f log_value) list"

type_synonym counters = "(gostring \<times> int) list"

record ViolationMetrics =
  vm_datapointsExceeded :: counters
  vm_cardinalityExceeded :: counters
  vm_datapointsDropped :: counters
  vm_datapointsPassed :: counters
  vm_groupsDropped :: counters

record ('b, 'h, 'f) Enforcer =
  e_config :: "'f LimitsConfig option"
  e_ruleStats :: "(gostring \<times> ('b, 'h) ruleStats) list"
  e_droppedGroups :: "(gostring \<times> (gostring \<times> int) list) list"
  e_violations :: ViolationMetrics
  e_dryRun :: bool
  e_logAggregator :: "'f log_fields LogAggregator"
  e_ruleMatchCache :: "'f Rule option ruleCache option"
  e_trackerModes :: "(gostring \<times> (gostring \<times> 'f trackerModeInfo) list) list"
  e_totalSwitches :: int
  e_reloadCount :: int
  e_lastReloadUTC :: int
  e_statsThreshold :: int
  e_labelCardTrackers :: "(gostring \<times> (gostring \<times> gostring list) list) list"
  e_ruleActivityMap :: activity_map

text \<open>One group as \<open>handleAdaptive\<close> lists it.\<close>

record groupContrib =
  gc_key :: gostring
  gc_datapoints :: int
  gc_cardinality :: int
  gc_priority :: int

text \<open>What the enforcer is built with: the sketches, the arithmetic of rates, the global tracker configuration.\<close>

record ('b, 'h, 'f) limits_env =
  le_lib :: "('b, 'h) sketch_lib"
  le_ops :: "'f rate_ops"
  le_card :: CardConfig
  le_shuffle :: "groupContrib list \<Rightarrow> groupContrib list"

datatype reason = ReasonCardinality | ReasonDatapointsRate

definition minute :: int where
  "minute = 60 * 1000000000"

section \<open>Construction and configuration\<close>

definition NewEnforcer :: "'f LimitsConfig option \<Rightarrow> bool \<Rightarrow> int \<Rightarrow> int \<Rightarrow> ('b, 'h, 'f) Enforcer" where
  "NewEnforcer config dryRun ruleCacheMaxSize now =
     \<lparr>e_config = config, e_ruleStats = [], e_droppedGroups = [],
      e_violations = \<lparr>vm_datapointsExceeded = [], vm_cardinalityExceeded = [], vm_datapointsDropped = [],
        vm_datapointsPassed = [], vm_groupsDropped = []\<rparr>,
      e_dryRun = dryRun, e_logAggregator = NewLogAggregator (10 * 1000000000),
      e_ruleMatchCache = newRuleCache ruleCacheMaxSize, e_trackerModes = [], e_totalSwitches = 0,
      e_reloadCount = 0, e_lastReloadUTC = now div 1000000000, e_statsThreshold = 0, e_labelCardTrackers = [],
      e_ruleActivityMap = (case config of Some c \<Rightarrow> initRuleActivity (lc_Rules c) now | None \<Rightarrow> [])\<rparr>"

definition keep_names :: "gostring list \<Rightarrow> (gostring \<times> 'x) list \<Rightarrow> (gostring \<times> 'x) list" where
  "keep_names names al = filter (\<lambda>(name, _). name \<in> set names) al"

definition preserve_activity :: "activity_map \<Rightarrow> activity_map \<Rightarrow> activity_map" where
  "preserve_activity old new = map (\<lambda>(name, newAct). (name,
     case map_of old name of
       Some oldAct \<Rightarrow> newAct\<lparr>LastMatchTime := LastMatchTime oldAct, LoadedTime := LoadedTime oldAct, WasDead := WasDead oldAct\<rparr>
     | None \<Rightarrow> newAct)) new"

definition ReloadConfig :: "('b, 'h, 'f) Enforcer \<Rightarrow> 'f LimitsConfig \<Rightarrow> int \<Rightarrow> ('b, 'h, 'f) Enforcer" where
  "ReloadConfig e newConfig now =
     (let newRules = map lr_Name (lc_Rules newConfig) in
      e\<lparr>e_config := Some newConfig,
        e_ruleStats := keep_names newRules (e_ruleStats e),
        e_droppedGroups := keep_names newRules (e_droppedGroups e),
        e_ruleMatchCache := (case e_ruleMatchCache e of Some c \<Rightarrow> newRuleCache (rc_maxSize c) | None \<Rightarrow> None),
        e_labelCardTrackers := keep_names newRules (e_labelCardTrackers e),
        e_ruleActivityMap := preserve_activity (e_ruleActivityMap e) (initRuleActivity (lc_Rules newConfig) now),
        e_reloadCount := e_reloadCount e + 1,
        e_lastReloadUTC := now div 1000000000\<rparr>)"

definition SetDryRun :: "('b, 'h, 'f) Enforcer \<Rightarrow> bool \<Rightarrow> ('b, 'h, 'f) Enforcer" where
  "SetDryRun e b = e\<lparr>e_dryRun := b\<rparr>"

definition SetStatsThreshold :: "('b, 'h, 'f) Enforcer \<Rightarrow> int \<Rightarrow> ('b, 'h, 'f) Enforcer" where
  "SetStatsThreshold e threshold = e\<lparr>e_statsThreshold := threshold\<rparr>"

definition TotalDropped :: "('b, 'h, 'f) Enforcer \<Rightarrow> int" where
  "TotalDropped e = sum_list (map snd (vm_datapointsDropped (e_violations e)))"

definition ClearRuleCache :: "('b, 'h, 'f) Enforcer \<Rightarrow> ('b, 'h, 'f) Enforcer" where
  "ClearRuleCache e = e\<lparr>e_ruleMatchCache := ClearCache (e_ruleMatchCache e)\<rparr>"

section \<open>Attributes and series keys\<close>

type_synonym attrs = "(gostring \<times> gostring) list"

definition extractAttributes :: "KeyValue list \<Rightarrow> attrs" where
  "extractAttributes kvs =
     foldl (\<lambda>result kv. case kv_Value kv of
              None \<Rightarrow> result
            | Some v \<Rightarrow> (let sv = GetStringValue (Some v) in if sv \<noteq> [] then AList.update (kv_Key kv) sv result else result)) [] kvs"

definition extractDatapointAttributes :: "'v Metric \<Rightarrow> attrs list" where
  "extractDatapointAttributes m = map (\<lambda>dp. extractAttributes (dp_Attributes dp)) (metric_points m)"

definition countDatapoints :: "'v Metric \<Rightarrow> nat" where
  "countDatapoints m = length (metric_points m)"

definition mergeAttrs :: "attrs \<Rightarrow> attrs \<Rightarrow> attrs" where
  "mergeAttrs a b = foldl (\<lambda>result (k, v). AList.update k v result) (foldl (\<lambda>result (k, v). AList.update k v result) [] a) b"

definition buildSeriesKey :: "attrs \<Rightarrow> gostring" where
  "buildSeriesKey attrs =
     join_strings (gostr '','') (map (\<lambda>k. k @ gostr ''='' @ (case map_of attrs k of Some v \<Rightarrow> v | None \<Rightarrow> [])) (sort (map fst attrs)))"

definition governor_labels :: "string \<Rightarrow> gostring \<Rightarrow> KeyValue list" where
  "governor_labels action ruleName =
     [\<lparr>kv_Key = gostr ''metrics.governor.action'', kv_Value = Some (StringValue (gostr action))\<rparr>,
      \<lparr>kv_Key = gostr ''metrics.governor.rule'', kv_Value = Some (StringValue ruleName)\<rparr>]"

definition injectDatapointLabels :: "'v Metric \<Rightarrow> string \<Rightarrow> gostring \<Rightarrow> 'v Metric" where
  "injectDatapointLabels m action ruleName = map_attributes (\<lambda>attrs. attrs @ governor_labels action ruleName) m"

section \<open>Counters\<close>

definition bump :: "gostring \<Rightarrow> int \<Rightarrow> counters \<Rightarrow> counters" where
  "bump k n cs = AList.update k ((case map_of cs k of Some c \<Rightarrow> c | None \<Rightarrow> 0) + n) cs"

definition on_violations :: "(ViolationMetrics \<Rightarrow> ViolationMetrics) \<Rightarrow> ('b, 'h, 'f) Enforcer \<Rightarrow> ('b, 'h, 'f) Enforcer" where
  "on_violations f e = e\<lparr>e_violations := f (e_violations e)\<rparr>"

definition recordViolation :: "('b, 'h, 'f) Enforcer \<Rightarrow> gostring \<Rightarrow> reason \<Rightarrow> ('b, 'h, 'f) Enforcer" where
  "recordViolation e ruleName r = on_violations (\<lambda>v.
     v\<lparr>vm_datapointsExceeded := bump ruleName (if r = ReasonDatapointsRate then 1 else 0) (vm_datapointsExceeded v),
       vm_cardinalityExceeded := bump ruleName (if r = ReasonCardinality then 1 else 0) (vm_cardinalityExceeded v)\<rparr>) e"

definition recordDrop :: "('b, 'h, 'f) Enforcer \<Rightarrow> gostring \<Rightarrow> nat \<Rightarrow> ('b, 'h, 'f) Enforcer" where
  "recordDrop e ruleName n = on_violations (\<lambda>v. v\<lparr>vm_datapointsDropped := bump ruleName (int n) (vm_datapointsDropped v)\<rparr>) e"

definition recordPass :: "('b, 'h, 'f) Enforcer \<Rightarrow> gostring \<Rightarrow> nat \<Rightarrow> ('b, 'h, 'f) Enforcer" where
  "recordPass e ruleName n = on_violations (\<lambda>v. v\<lparr>vm_datapointsPassed := bump ruleName (int n) (vm_datapointsPassed v)\<rparr>) e"

definition recordGroupsDropped :: "('b, 'h, 'f) Enforcer \<Rightarrow> gostring \<Rightarrow> nat \<Rightarrow> ('b, 'h, 'f) Enforcer" where
  "recordGroupsDropped e ruleName n = on_violations (\<lambda>v. v\<lparr>vm_groupsDropped := bump ruleName (int n) (vm_groupsDropped v)\<rparr>) e"

section \<open>Finding the rule and the group\<close>

definition first_match :: "'f Rule list \<Rightarrow> gostring \<Rightarrow> attrs \<Rightarrow> 'f Rule option" where
  "first_match rules metricName labels = List.find (\<lambda>rule. Matches rule metricName (map_of labels)) rules"

text \<open>The rules are those of the configuration, which the caller has checked to be there.\<close>

definition findMatchingRule :: "('b, 'h, 'f) Enforcer \<Rightarrow> 'f LimitsConfig \<Rightarrow> gostring \<Rightarrow> attrs
    \<Rightarrow> 'f Rule option \<times> ('b, 'h, 'f) Enforcer" where
  "findMatchingRule e config metricName labels =
     (case cache_Get (e_ruleMatchCache e) metricName of (hit, cache) \<Rightarrow>
      let e = e\<lparr>e_ruleMatchCache := cache\<rparr>;
          full_scan = (case first_match (lc_Rules config) metricName labels of
             Some rule \<Rightarrow>
               (Some rule, if \<not> HasLabelMatchers rule then e\<lparr>e_ruleMatchCache := cache_Put cache metricName (Some rule)\<rparr> else e)
           | None \<Rightarrow>
               (None, if \<not> HasAnyLabelMatchers config then e\<lparr>e_ruleMatchCache := cache_Put cache metricName None\<rparr> else e))
      in case hit of
           Some None \<Rightarrow> (None, e)
         | Some (Some rule) \<Rightarrow> if MatchesLabels rule (map_of labels) then (Some rule, e) else full_scan
         | None \<Rightarrow> full_scan)"

definition buildGroupKey :: "'f Rule \<Rightarrow> attrs \<Rightarrow> 'v Metric \<Rightarrow> gostring" where
  "buildGroupKey rule resourceAttrs m =
     (if length (lr_GroupBy rule) > 0 then
        let dpAttrs = extractDatapointAttributes m;
            allAttrs = (case dpAttrs of a # _ \<Rightarrow> mergeAttrs resourceAttrs a | [] \<Rightarrow> resourceAttrs)
        in join_strings (gostr '','') (List.map_filter (\<lambda>label.
             map_option (\<lambda>v. label @ gostr ''='' @ v) (map_of allAttrs label)) (lr_GroupBy rule))
      else m_Name m)"

definition isGroupDropped :: "('b, 'h, 'f) Enforcer \<Rightarrow> gostring \<Rightarrow> gostring \<Rightarrow> int \<Rightarrow> bool" where
  "isGroupDropped e ruleName groupKey now =
     (case map_of (e_droppedGroups e) ruleName of
        None \<Rightarrow> False
      | Some ruleDropped \<Rightarrow> (case map_of ruleDropped groupKey of None \<Rightarrow> False | Some expiry \<Rightarrow> now < expiry))"

definition cleanupExpiredDroppedGroups :: "('b, 'h, 'f) Enforcer \<Rightarrow> int \<Rightarrow> ('b, 'h, 'f) Enforcer" where
  "cleanupExpiredDroppedGroups e now =
     e\<lparr>e_droppedGroups := filter (\<lambda>(_, groups). length groups \<noteq> 0)
        (map (\<lambda>(ruleName, groups). (ruleName, filter (\<lambda>(_, expiry). \<not> expiry < now) groups)) (e_droppedGroups e))\<rparr>"

section \<open>Checking the limits\<close>

definition maxGroupsPerRule :: nat where
  "maxGroupsPerRule = 100000"

text \<open>The statistics of the rule: made when missing, reset when the window is over.\<close>

definition rule_window :: "('b, 'h, 'f) Enforcer \<Rightarrow> gostring \<Rightarrow> int \<Rightarrow> ('b, 'h) ruleStats \<times> ('b, 'h, 'f) Enforcer" where
  "rule_window e ruleName now =
     (let rs = (case map_of (e_ruleStats e) ruleName of
                  Some rs \<Rightarrow> rs
                | None \<Rightarrow> \<lparr>rs_groups = [], rs_totalDPs = 0, rs_totalCard = 0, rs_windowEnd = now + minute\<rparr>);
          (rs, e) = (if now > rs_windowEnd rs then
              (\<lparr>rs_groups = [], rs_totalDPs = 0, rs_totalCard = 0, rs_windowEnd = now + minute\<rparr>,
               cleanupExpiredDroppedGroups
                 (e\<lparr>e_droppedGroups := AList.delete ruleName (e_droppedGroups e),
                    e_labelCardTrackers := AList.delete ruleName (e_labelCardTrackers e)\<rparr>) now)
            else (rs, e))
      in (rs, e\<lparr>e_ruleStats := AList.update ruleName rs (e_ruleStats e)\<rparr>))"

text \<open>
  Adding the keys to a tracker, counting the new ones. A mode switch calls back into the enforcer,
  which takes \<open>e.mu\<close> again: \<open>None\<close>.
\<close>

fun track_series :: "('b, 'h) sketch_lib \<Rightarrow> ('b, 'h) Tracker \<Rightarrow> int \<Rightarrow> bytes list \<Rightarrow> (('b, 'h) Tracker \<times> int) option" where
  "track_series lib t n [] = Some (t, n)"
| "track_series lib t n (k # ks) =
     (case tracker_Add lib t k of ((new, switched), t) \<Rightarrow>
        if switched \<noteq> None then None else track_series lib t (if new then n + 1 else n) ks)"

definition series_keys :: "attrs \<Rightarrow> 'v Metric \<Rightarrow> gostring list" where
  "series_keys resourceAttrs m = map (\<lambda>attrs. buildSeriesKey (mergeAttrs resourceAttrs attrs)) (extractDatapointAttributes m)"

text \<open>The statistics of a group, made when missing.\<close>

definition group_for :: "('b, 'h, 'f) limits_env \<Rightarrow> ('b, 'h) ruleStats \<Rightarrow> gostring \<Rightarrow> ('b, 'h) groupStats" where
  "group_for env rs groupKey =
     (case map_of (rs_groups rs) groupKey of
        Some gs \<Rightarrow> gs
      | None \<Rightarrow> \<lparr>gs_datapoints = 0, gs_cardinality = NewTracker (le_lib env) (le_card env), gs_windowEnd = rs_windowEnd rs\<rparr>)"

text \<open>
  \<open>updateAndCheckLimits\<close>: the reason when a limit is exceeded, and the enforcer; \<open>None\<close> is the deadlock.
\<close>

definition updateAndCheckLimits :: "('b, 'h, 'f) limits_env \<Rightarrow> ('b, 'h, 'f) Enforcer \<Rightarrow> int \<Rightarrow> 'f Rule \<Rightarrow> gostring \<Rightarrow> 'v Metric \<Rightarrow> attrs
    \<Rightarrow> (reason option \<times> ('b, 'h, 'f) Enforcer) option" where
  "updateAndCheckLimits env e now rule groupKey m resourceAttrs =
     (let datapointsCount = int (countDatapoints m);
          (rs, e) = rule_window e (lr_Name rule) now
      in if map_of (rs_groups rs) groupKey = None \<and> length (rs_groups rs) \<ge> maxGroupsPerRule then Some (None, e)
         else
           let gs = group_for env rs groupKey;
               keys = series_keys resourceAttrs m;
               newSeries = int (length (filter (\<lambda>k. \<not> tracker_TestOnly (le_lib env) (gs_cardinality gs) k) keys));
               newTotalDPs = rs_totalDPs rs + datapointsCount;
               newTotalCard = rs_totalCard rs + newSeries;
               exceededDP = (lr_MaxDatapointsRate rule > 0 \<and> newTotalDPs > lr_MaxDatapointsRate rule);
               exceededCard = (lr_MaxCardinality rule > 0 \<and> newTotalCard > lr_MaxCardinality rule);
               store = (\<lambda>rs gs. e\<lparr>e_ruleStats := AList.update (lr_Name rule)
                          (rs\<lparr>rs_groups := AList.update groupKey gs (rs_groups rs)\<rparr>) (e_ruleStats e)\<rparr>)
           in if \<not> exceededDP \<and> \<not> exceededCard then
                (case track_series (le_lib env) (gs_cardinality gs) (rs_totalCard rs) keys of
                   None \<Rightarrow> None
                 | Some (t, totalCard) \<Rightarrow>
                     Some (None, store (rs\<lparr>rs_totalCard := totalCard, rs_totalDPs := rs_totalDPs rs + datapointsCount\<rparr>)
                        (gs\<lparr>gs_datapoints := gs_datapoints gs + datapointsCount, gs_cardinality := t\<rparr>)))
              else Some (Some (if exceededCard then ReasonCardinality else ReasonDatapointsRate), store rs gs))"

text \<open>The callback a hybrid tracker is given.\<close>

definition recordTrackerModeSwitch ::
    "'f \<Rightarrow> ('b, 'h, 'f) Enforcer \<Rightarrow> int \<Rightarrow> gostring \<Rightarrow> gostring \<Rightarrow> TrackerMode \<Rightarrow> TrackerMode \<Rightarrow> int \<Rightarrow> ('b, 'h, 'f) Enforcer" where
  "recordTrackerModeSwitch zero e now ruleName groupKey previous current cardinalityAtSwitch =
     (let modes = (case map_of (e_trackerModes e) ruleName of Some gs \<Rightarrow> gs | None \<Rightarrow> []) in
      e\<lparr>e_totalSwitches := e_totalSwitches e + 1,
        e_trackerModes := AList.update ruleName
          (AList.update groupKey \<lparr>tm_mode = current, tm_switchCount = 1, tm_sampleRate = zero\<rparr> modes) (e_trackerModes e),
        e_logAggregator := la_Info (e_logAggregator e) now (gostr ''mode_switch:'' @ ruleName @ gostr '':'' @ groupKey)
          ''tracker mode switched''
          [(''rule'', LogString ruleName), (''group'', LogString groupKey),
           (''previous_mode'', LogString (gostr (TrackerMode_String previous))),
           (''current_mode'', LogString (gostr (TrackerMode_String current))),
           (''cardinality_at_switch'', LogInt cardinalityAtSwitch)] cardinalityAtSwitch\<rparr>)"

section \<open>Violations\<close>

definition group_stats :: "('b, 'h, 'f) Enforcer \<Rightarrow> gostring \<Rightarrow> gostring \<Rightarrow> ('b, 'h) groupStats option" where
  "group_stats e ruleName groupKey =
     (case map_of (e_ruleStats e) ruleName of None \<Rightarrow> None | Some rs \<Rightarrow> map_of (rs_groups rs) groupKey)"

definition getTrackerMode :: "('b, 'h, 'f) Enforcer \<Rightarrow> gostring \<Rightarrow> gostring \<Rightarrow> TrackerMode" where
  "getTrackerMode e ruleName groupKey =
     (case group_stats e ruleName groupKey of
        Some gs \<Rightarrow> (case gs_cardinality gs of Hybrid ht \<Rightarrow> ht_mode ht | _ \<Rightarrow> TrackerModeBloom)
      | None \<Rightarrow> TrackerModeBloom)"

definition calculateSampleRate :: "('b, 'h, 'f) limits_env \<Rightarrow> ('b, 'h, 'f) Enforcer \<Rightarrow> 'f Rule \<Rightarrow> gostring \<Rightarrow> 'f" where
  "calculateSampleRate env e rule groupKey =
     (case group_stats e (lr_Name rule) groupKey of
        None \<Rightarrow> rate_one (le_ops env)
      | Some gs \<Rightarrow>
          let cnt = tracker_Count (le_lib env) (gs_cardinality gs); limit = lr_MaxCardinality rule
          in if cnt \<le> 0 \<or> limit \<le> 0 then rate_one (le_ops env)
             else let rate = rate_div (le_ops env) limit cnt
                  in if rate_ge_1 (le_ops env) rate then rate_one (le_ops env) else rate)"

text \<open>Totals and limits are not negative here, so Go's division is \<open>div\<close>.\<close>

definition calculateUtilizationPercent :: "('b, 'h, 'f) Enforcer \<Rightarrow> 'f Rule \<Rightarrow> reason \<Rightarrow> int" where
  "calculateUtilizationPercent e rule r =
     (case map_of (e_ruleStats e) (lr_Name rule) of
        None \<Rightarrow> 100
      | Some rs \<Rightarrow>
          (case r of
             ReasonCardinality \<Rightarrow> if lr_MaxCardinality rule \<le> 0 then 100 else rs_totalCard rs * 100 div lr_MaxCardinality rule
           | ReasonDatapointsRate \<Rightarrow> if lr_MaxDatapointsRate rule \<le> 0 then 100 else rs_totalDPs rs * 100 div lr_MaxDatapointsRate rule))"

definition updateTrackerModeInfo :: "('b, 'h, 'f) Enforcer \<Rightarrow> gostring \<Rightarrow> gostring \<Rightarrow> TrackerMode \<Rightarrow> 'f \<Rightarrow> ('b, 'h, 'f) Enforcer" where
  "updateTrackerModeInfo e ruleName groupKey mode sampleRate =
     (let modes = (case map_of (e_trackerModes e) ruleName of Some gs \<Rightarrow> gs | None \<Rightarrow> []);
          switches = (case map_of modes groupKey of Some i \<Rightarrow> tm_switchCount i | None \<Rightarrow> 0)
      in e\<lparr>e_trackerModes := AList.update ruleName
             (AList.update groupKey \<lparr>tm_mode = mode, tm_switchCount = switches, tm_sampleRate = sampleRate\<rparr> modes) (e_trackerModes e)\<rparr>)"

text \<open>\<open>strings.Split\<close> at a single byte.\<close>

fun split_at :: "byte \<Rightarrow> gostring \<Rightarrow> gostring list" where
  "split_at c [] = [[]]"
| "split_at c (x # xs) =
     (case split_at c xs of
        p # ps \<Rightarrow> if x = c then [] # p # ps else (x # p) # ps
      | [] \<Rightarrow> [])"

definition extractPriorityFromGroupKey :: "gostring \<Rightarrow> gostring \<Rightarrow> (gostring \<times> int) list \<Rightarrow> int \<Rightarrow> int" where
  "extractPriorityFromGroupKey groupKey priorityLabel priorityMap defaultPriority =
     (let prefix = priorityLabel @ gostr ''='' in
      case List.find (\<lambda>part. take (length prefix) part = prefix) (split_at 0x2C groupKey) of
        None \<Rightarrow> defaultPriority
      | Some part \<Rightarrow> (case map_of priorityMap (drop (length prefix) part) of Some p \<Rightarrow> p | None \<Rightarrow> defaultPriority))"

definition priority_map :: "gostring list \<Rightarrow> (gostring \<times> int) list" where
  "priority_map order =
     foldl (\<lambda>pm (i, val). AList.update val (int (length order) - int i) pm) [] (zip [0..<length order] order)"

definition group_priority :: "'f Rule \<Rightarrow> gostring \<Rightarrow> int" where
  "group_priority rule k =
     (case lr_AdaptivePriority rule of
        None \<Rightarrow> 0
      | Some p \<Rightarrow> extractPriorityFromGroupKey k (ap_Label p) (priority_map (ap_Order p)) (ap_DefaultPriority p))"

definition contribution :: "reason \<Rightarrow> groupContrib \<Rightarrow> int" where
  "contribution r c = (if r = ReasonCardinality then gc_cardinality c else gc_datapoints c)"

definition offenders :: "('b, 'h, 'f) limits_env \<Rightarrow> 'f Rule \<Rightarrow> ('b, 'h) ruleStats \<Rightarrow> reason \<Rightarrow> groupContrib list" where
  "offenders env rule rs r =
     sort_key (\<lambda>c. (gc_priority c, - contribution r c)) (le_shuffle env (map (\<lambda>(k, gs).
        \<lparr>gc_key = k, gc_datapoints = gs_datapoints gs, gc_cardinality = tracker_Count (le_lib env) (gs_cardinality gs),
         gc_priority = group_priority rule k\<rparr>) (rs_groups rs)))"

text \<open>The groups marked: offenders until their contributions make up the excess.\<close>

fun mark_groups :: "reason \<Rightarrow> int \<Rightarrow> int \<Rightarrow> groupContrib list \<Rightarrow> groupContrib list" where
  "mark_groups r excess reduced [] = []"
| "mark_groups r excess reduced (c # cs) =
     (if reduced \<ge> excess then [] else c # mark_groups r excess (reduced + contribution r c) cs)"

definition reason_string :: "reason \<Rightarrow> string" where
  "reason_string r = (case r of ReasonCardinality \<Rightarrow> ''cardinality'' | ReasonDatapointsRate \<Rightarrow> ''datapoints_rate'')"

definition log_marked :: "int \<Rightarrow> gostring \<Rightarrow> reason \<Rightarrow> 'f log_fields LogAggregator \<Rightarrow> groupContrib \<Rightarrow> 'f log_fields LogAggregator" where
  "log_marked now ruleName r la c =
     la_Info la now (gostr ''adaptive_drop:'' @ ruleName @ gostr '':'' @ gc_key c @ gostr '':'' @ gostr (reason_string r))
       ''adaptive: marked group for dropping''
       [(''rule'', LogString ruleName), (''group'', LogString (gc_key c)), (''reason'', LogString (gostr (reason_string r))),
        (''contribution_datapoints'', LogInt (gc_datapoints c)), (''contribution_cardinality'', LogInt (gc_cardinality c))]
       (gc_datapoints c)"

definition handleAdaptive :: "('b, 'h, 'f) limits_env \<Rightarrow> ('b, 'h, 'f) Enforcer \<Rightarrow> int \<Rightarrow> 'f Rule \<Rightarrow> gostring \<Rightarrow> 'v Metric \<Rightarrow> reason \<Rightarrow> nat
    \<Rightarrow> 'v Metric option \<times> ('b, 'h, 'f) Enforcer" where
  "handleAdaptive env e now rule groupKey m r datapointsCount =
     (case map_of (e_ruleStats e) (lr_Name rule) of
        None \<Rightarrow> (Some m, e)
      | Some rs \<Rightarrow>
          let excess = (if r = ReasonCardinality \<and> lr_MaxCardinality rule > 0 then rs_totalCard rs - lr_MaxCardinality rule
                        else if lr_MaxDatapointsRate rule > 0 then rs_totalDPs rs - lr_MaxDatapointsRate rule
                        else 0)
          in if excess \<le> 0 then (Some (injectDatapointLabels m ''adaptive'' (lr_Name rule)), e)
             else
               let marked = mark_groups r excess 0 (offenders env rule rs r);
                   dropped = foldl (\<lambda>d c. AList.update (gc_key c) (rs_windowEnd rs) d)
                     (case map_of (e_droppedGroups e) (lr_Name rule) of Some d \<Rightarrow> d | None \<Rightarrow> []) marked;
                   e = e\<lparr>e_droppedGroups := AList.update (lr_Name rule) dropped (e_droppedGroups e),
                         e_logAggregator := foldl (log_marked now (lr_Name rule) r) (e_logAggregator e) marked\<rparr>;
                   e = recordGroupsDropped e (lr_Name rule) (length marked)
               in if map_of dropped groupKey \<noteq> None then
                    let e = recordDrop e (lr_Name rule) datapointsCount
                    in if e_dryRun e then (Some (injectDatapointLabels m ''adaptive'' (lr_Name rule)), e) else (None, e)
                  else (Some (injectDatapointLabels m ''adaptive'' (lr_Name rule)), recordPass e (lr_Name rule) datapointsCount))"

definition shouldSampleSeriesKey :: "'f rate_ops \<Rightarrow> gostring \<Rightarrow> 'f \<Rightarrow> bool" where
  "shouldSampleSeriesKey ops seriesKey sampleRate =
     (if rate_ge_1 ops sampleRate then True
      else if rate_le_0 ops sampleRate then False
      else unat (fnv32a seriesKey) mod 10000 < rate_threshold ops sampleRate)"

text \<open>The end of several handlers: count the metric as dropped, and keep it in a dry run only.\<close>

definition drop_metric :: "('b, 'h, 'f) Enforcer \<Rightarrow> 'f Rule \<Rightarrow> 'v Metric \<Rightarrow> string \<Rightarrow> nat \<Rightarrow> 'v Metric option \<times> ('b, 'h, 'f) Enforcer" where
  "drop_metric e rule m label n =
     (let e = recordDrop e (lr_Name rule) n
      in if e_dryRun e then (Some (injectDatapointLabels m label (lr_Name rule)), e) else (None, e))"

definition pass_metric :: "('b, 'h, 'f) Enforcer \<Rightarrow> 'f Rule \<Rightarrow> 'v Metric \<Rightarrow> string \<Rightarrow> nat \<Rightarrow> 'v Metric option \<times> ('b, 'h, 'f) Enforcer" where
  "pass_metric e rule m label n = (Some (injectDatapointLabels m label (lr_Name rule)), recordPass e (lr_Name rule) n)"

text \<open>The sampling decision on the series key of the first datapoint.\<close>

definition sampled_in :: "('b, 'h, 'f) limits_env \<Rightarrow> 'v Metric \<Rightarrow> attrs \<Rightarrow> 'f \<Rightarrow> bool" where
  "sampled_in env m resourceAttrs sampleRate =
     (case series_keys resourceAttrs m of k # _ \<Rightarrow> ShouldSample (le_ops env) k sampleRate | [] \<Rightarrow> False)"

definition handleHLLSampling :: "('b, 'h, 'f) limits_env \<Rightarrow> ('b, 'h, 'f) Enforcer \<Rightarrow> 'f Rule \<Rightarrow> gostring \<Rightarrow> 'v Metric \<Rightarrow> attrs \<Rightarrow> 'f \<Rightarrow> nat
    \<Rightarrow> 'v Metric option \<times> ('b, 'h, 'f) Enforcer" where
  "handleHLLSampling env e rule groupKey m resourceAttrs sampleRate datapointsCount =
     (case group_stats e (lr_Name rule) groupKey of
        None \<Rightarrow> (Some m, e)
      | Some gs \<Rightarrow>
          (case gs_cardinality gs of
             Hybrid ht \<Rightarrow>
               if sampled_in env m resourceAttrs sampleRate then pass_metric e rule m ''sampled_keep'' datapointsCount
               else drop_metric e rule m ''sampled_drop'' datapointsCount
           | _ \<Rightarrow> drop_metric e rule m ''drop'' datapointsCount))"

definition handleAdaptiveHLL :: "('b, 'h, 'f) limits_env \<Rightarrow> ('b, 'h, 'f) Enforcer \<Rightarrow> int \<Rightarrow> 'f Rule \<Rightarrow> gostring \<Rightarrow> 'v Metric \<Rightarrow> attrs \<Rightarrow> reason \<Rightarrow> 'f \<Rightarrow> nat
    \<Rightarrow> 'v Metric option \<times> ('b, 'h, 'f) Enforcer" where
  "handleAdaptiveHLL env e now rule groupKey m resourceAttrs r sampleRate datapointsCount =
     (case group_stats e (lr_Name rule) groupKey of
        None \<Rightarrow> (Some m, e)
      | Some gs \<Rightarrow>
          (case gs_cardinality gs of
             Hybrid ht \<Rightarrow>
               if sampled_in env m resourceAttrs sampleRate then pass_metric e rule m ''adaptive_keep'' datapointsCount
               else drop_metric e rule m ''adaptive_drop'' datapointsCount
           | _ \<Rightarrow> handleAdaptive env e now rule groupKey m r datapointsCount))"

definition handleSampleAction :: "('b, 'h, 'f) limits_env \<Rightarrow> ('b, 'h, 'f) Enforcer \<Rightarrow> 'f Rule \<Rightarrow> 'v Metric \<Rightarrow> attrs \<Rightarrow> nat
    \<Rightarrow> 'v Metric option \<times> ('b, 'h, 'f) Enforcer" where
  "handleSampleAction env e rule m resourceAttrs datapointsCount =
     (case series_keys resourceAttrs m of
        [] \<Rightarrow> drop_metric e rule m ''sampled_drop'' datapointsCount
      | seriesKey # _ \<Rightarrow>
          if shouldSampleSeriesKey (le_ops env) seriesKey (lr_SampleRate rule) then pass_metric e rule m ''sampled_keep'' datapointsCount
          else drop_metric e rule m ''sampled_drop'' datapointsCount)"

definition strip_attributes :: "gostring list \<Rightarrow> KeyValue list \<Rightarrow> KeyValue list" where
  "strip_attributes names attrs = filter (\<lambda>kv. kv_Key kv \<notin> set names) attrs"

definition handleStripLabels :: "('b, 'h, 'f) Enforcer \<Rightarrow> 'f Rule \<Rightarrow> 'v Metric \<Rightarrow> nat \<Rightarrow> 'v Metric option \<times> ('b, 'h, 'f) Enforcer" where
  "handleStripLabels e rule m datapointsCount =
     pass_metric e rule (map_attributes (strip_attributes (lr_StripLabels rule)) m) ''stripped'' datapointsCount"

section \<open>Limits on single labels\<close>

text \<open>
  The loop over the limited labels of one datapoint: whether the metric is dropped, the value sets
  per label, and the labels to strip.
\<close>

fun check_labels :: "gostring \<Rightarrow> attrs \<Rightarrow> (gostring \<times> gostring list) list \<Rightarrow> gostring list \<Rightarrow> (gostring \<times> int) list
    \<Rightarrow> bool \<times> (gostring \<times> gostring list) list \<times> gostring list" where
  "check_labels action merged trackers strip [] = (False, trackers, strip)"
| "check_labels action merged trackers strip ((label, limit) # limits) =
     (case map_of merged label of
        None \<Rightarrow> check_labels action merged trackers strip limits
      | Some val \<Rightarrow>
          if limit = 0 then check_labels action merged trackers (strip @ [label]) limits
          else
            let tracker = (case map_of trackers label of Some t \<Rightarrow> t | None \<Rightarrow> []);
                trackers = AList.update label tracker trackers
            in if val \<in> set tracker then check_labels action merged trackers strip limits
               else if int (length tracker) \<ge> limit then
                 (if action = gostr ''drop'' then (True, trackers, strip)
                  else check_labels action merged trackers (strip @ [label]) limits)
               else check_labels action merged (AList.update label (tracker @ [val]) trackers) strip limits)"

fun check_points :: "'f Rule \<Rightarrow> (gostring \<times> gostring list) list \<Rightarrow> gostring list \<Rightarrow> attrs list
    \<Rightarrow> bool \<times> (gostring \<times> gostring list) list \<times> gostring list" where
  "check_points rule trackers strip [] = (False, trackers, strip)"
| "check_points rule trackers strip (merged # rest) =
     (case check_labels (lr_LabelLimitAction rule) merged trackers strip (lr_LabelLimits rule) of
        (True, trackers, strip) \<Rightarrow> (True, trackers, strip)
      | (False, trackers, strip) \<Rightarrow> check_points rule trackers strip rest)"

definition checkLabelLimits :: "('b, 'h, 'f) Enforcer \<Rightarrow> 'f Rule \<Rightarrow> 'v Metric \<Rightarrow> attrs \<Rightarrow> 'v Metric option \<times> ('b, 'h, 'f) Enforcer" where
  "checkLabelLimits e rule m resourceAttrs =
     (let trackers = (case map_of (e_labelCardTrackers e) (lr_Name rule) of Some t \<Rightarrow> t | None \<Rightarrow> []);
          (dropped, trackers, labelsToStrip) = check_points rule trackers []
             (map (mergeAttrs resourceAttrs) (extractDatapointAttributes m));
          e = e\<lparr>e_labelCardTrackers := AList.update (lr_Name rule) trackers (e_labelCardTrackers e)\<rparr>
      in if dropped then (None, e)
         else if length labelsToStrip = 0 then (Some m, e)
         else (Some (map_attributes (strip_attributes labelsToStrip) m), e))"

section \<open>The effective action\<close>

definition Action_string :: "Action \<Rightarrow> gostring" where
  "Action_string a = (case a of ActionUnset \<Rightarrow> [] | ActionLog \<Rightarrow> gostr ''log'' | ActionAdaptive \<Rightarrow> gostr ''adaptive''
     | ActionDrop \<Rightarrow> gostr ''drop'' | ActionSample \<Rightarrow> gostr ''sample'' | ActionStripLabels \<Rightarrow> gostr ''strip_labels'' | ActionOther s \<Rightarrow> s)"

text \<open>The last tier whose percentage is reached overrides the rule.\<close>

definition effective :: "('b, 'h, 'f) Enforcer \<Rightarrow> 'f Rule \<Rightarrow> reason \<Rightarrow> Action \<times> 'f \<times> gostring list" where
  "effective e rule r =
     (if length (lr_Tiers rule) > 0 then
        let utilPct = calculateUtilizationPercent e rule r
        in case List.find (\<lambda>t. utilPct \<ge> t_AtPercent t) (rev (lr_Tiers rule)) of
             Some t \<Rightarrow> (t_Action t, t_SampleRate t, t_StripLabels t)
           | None \<Rightarrow> (lr_Action rule, lr_SampleRate rule, lr_StripLabels rule)
      else (lr_Action rule, lr_SampleRate rule, lr_StripLabels rule))"

definition log_violation :: "('b, 'h, 'f) Enforcer \<Rightarrow> int \<Rightarrow> 'f Rule \<Rightarrow> gostring \<Rightarrow> 'v Metric \<Rightarrow> reason \<Rightarrow> Action \<Rightarrow> TrackerMode \<Rightarrow> 'f \<Rightarrow> nat
    \<Rightarrow> ('b, 'h, 'f) Enforcer" where
  "log_violation e now rule groupKey m r action trackerMode sampleRate n =
     (if e_statsThreshold e = 0 \<or> int n \<ge> e_statsThreshold e then
        e\<lparr>e_logAggregator := la_Warn (e_logAggregator e) now
            (gostr ''violation:'' @ lr_Name rule @ gostr '':'' @ groupKey @ gostr '':'' @ gostr (reason_string r) @ gostr '':'' @ Action_string action)
            ''limit exceeded''
            ([(''rule'', LogString (lr_Name rule)), (''metric'', LogString (m_Name m)), (''group'', LogString groupKey),
              (''reason'', LogString (gostr (reason_string r))), (''action'', LogString (Action_string action)), (''dry_run'', LogBool (e_dryRun e))]
             @ (if trackerMode = TrackerModeHLL then [(''tracker_mode'', LogString (gostr ''hll'')), (''sample_rate'', LogFloat sampleRate)] else []))
            (int n)\<rparr>
      else e)"

definition handleViolation :: "('b, 'h, 'f) limits_env \<Rightarrow> ('b, 'h, 'f) Enforcer \<Rightarrow> int \<Rightarrow> 'f Rule \<Rightarrow> gostring \<Rightarrow> 'v Metric \<Rightarrow> attrs \<Rightarrow> reason
    \<Rightarrow> 'v Metric option \<times> ('b, 'h, 'f) Enforcer" where
  "handleViolation env e now rule groupKey m resourceAttrs r =
     (let datapointsCount = countDatapoints m;
          trackerMode = getTrackerMode e (lr_Name rule) groupKey;
          sampleRate = calculateSampleRate env e rule groupKey;
          (effectiveAction, effectiveSampleRate, effectiveStripLabels) = effective e rule r;
          e = log_violation e now rule groupKey m r effectiveAction trackerMode sampleRate datapointsCount;
          e = recordViolation e (lr_Name rule) r;
          e = updateTrackerModeInfo e (lr_Name rule) groupKey trackerMode sampleRate
      in case effectiveAction of
           ActionLog \<Rightarrow> pass_metric e rule m ''log'' datapointsCount
         | ActionDrop \<Rightarrow>
             if trackerMode = TrackerModeHLL then handleHLLSampling env e rule groupKey m resourceAttrs sampleRate datapointsCount
             else drop_metric e rule m ''drop'' datapointsCount
         | ActionAdaptive \<Rightarrow>
             if trackerMode = TrackerModeHLL then handleAdaptiveHLL env e now rule groupKey m resourceAttrs r sampleRate datapointsCount
             else handleAdaptive env e now rule groupKey m r datapointsCount
         | ActionSample \<Rightarrow>
             handleSampleAction env e
               (if rate_gt_0 (le_ops env) effectiveSampleRate then rule\<lparr>lr_SampleRate := effectiveSampleRate\<rparr> else rule)
               m resourceAttrs datapointsCount
         | ActionStripLabels \<Rightarrow>
             handleStripLabels e
               (if length effectiveStripLabels > 0 then rule\<lparr>lr_StripLabels := effectiveStripLabels\<rparr> else rule) m datapointsCount
         | _ \<Rightarrow> (Some m, e))"

section \<open>Processing\<close>

text \<open>\<open>processMetric\<close>; the outer option is the deadlock, the inner one a dropped metric.\<close>

definition processMetric :: "('b, 'h, 'f) limits_env \<Rightarrow> 'f LimitsConfig \<Rightarrow> int \<Rightarrow> attrs \<Rightarrow> ('b, 'h, 'f) Enforcer \<Rightarrow> 'v Metric
    \<Rightarrow> ('v Metric option \<times> ('b, 'h, 'f) Enforcer) option" where
  "processMetric env config now resourceAttrs e m =
     (case findMatchingRule e config (m_Name m) resourceAttrs of
        (None, e) \<Rightarrow> Some (Some m, recordPass e (gostr ''no_rule'') (countDatapoints m))
      | (Some rule, e) \<Rightarrow>
          let e = e\<lparr>e_ruleActivityMap := recordRuleMatch (e_ruleActivityMap e) (lr_Name rule) now\<rparr>;
              groupKey = buildGroupKey rule resourceAttrs m
          in if isGroupDropped e (lr_Name rule) groupKey now then Some (drop_metric e rule m ''drop'' (countDatapoints m))
             else
               (case (if length (lr_LabelLimits rule) > 0 then checkLabelLimits e rule m resourceAttrs else (Some m, e)) of
                  (None, e) \<Rightarrow> Some (drop_metric e rule m ''label_limit_drop'' (countDatapoints m))
                | (Some m, e) \<Rightarrow>
                    (case updateAndCheckLimits env e now rule groupKey m resourceAttrs of
                       None \<Rightarrow> None
                     | Some (None, e) \<Rightarrow> Some (pass_metric e rule m ''passed'' (countDatapoints m))
                     | Some (Some r, e) \<Rightarrow> Some (handleViolation env e now rule groupKey m resourceAttrs r))))"

text \<open>A loop that keeps the results that are there.\<close>

fun process_all :: "('s \<Rightarrow> 'a \<Rightarrow> ('b option \<times> 's) option) \<Rightarrow> 's \<Rightarrow> 'a list \<Rightarrow> ('b list \<times> 's) option" where
  "process_all f s [] = Some ([], s)"
| "process_all f s (x # xs) =
     (case f s x of
        None \<Rightarrow> None
      | Some (y, s) \<Rightarrow>
          (case process_all f s xs of
             None \<Rightarrow> None
           | Some (ys, s) \<Rightarrow> Some (case y of Some y \<Rightarrow> y # ys | None \<Rightarrow> ys, s)))"

text \<open>The new scope and resource messages have no schema URL.\<close>

definition processScope :: "('b, 'h, 'f) limits_env \<Rightarrow> 'f LimitsConfig \<Rightarrow> int \<Rightarrow> attrs \<Rightarrow> ('b, 'h, 'f) Enforcer \<Rightarrow> 'v ScopeMetrics
    \<Rightarrow> ('v ScopeMetrics option \<times> ('b, 'h, 'f) Enforcer) option" where
  "processScope env config now resourceAttrs e sm =
     map_option (\<lambda>(ms, e). (if length ms > 0 then Some \<lparr>sm_Scope = sm_Scope sm, sm_Metrics = ms, sm_SchemaUrl = []\<rparr> else None, e))
       (process_all (processMetric env config now resourceAttrs) e (sm_Metrics sm))"

definition processResourceMetrics :: "('b, 'h, 'f) limits_env \<Rightarrow> 'f LimitsConfig \<Rightarrow> int \<Rightarrow> ('b, 'h, 'f) Enforcer \<Rightarrow> 'v ResourceMetrics
    \<Rightarrow> ('v ResourceMetrics option \<times> ('b, 'h, 'f) Enforcer) option" where
  "processResourceMetrics env config now e rm =
     (let resourceAttrs = extractAttributes (case rm_Resource rm of Some r \<Rightarrow> res_Attributes r | None \<Rightarrow> []) in
      map_option (\<lambda>(sms, e). (if length sms = 0 then None
          else Some \<lparr>rm_Resource = rm_Resource rm, rm_ScopeMetrics = sms, rm_SchemaUrl = []\<rparr>, e))
        (process_all (processScope env config now resourceAttrs) e (rm_ScopeMetrics rm)))"

definition limits_Process :: "('b, 'h, 'f) limits_env \<Rightarrow> int \<Rightarrow> ('b, 'h, 'f) Enforcer \<Rightarrow> 'v ResourceMetrics list
    \<Rightarrow> ('v ResourceMetrics list \<times> ('b, 'h, 'f) Enforcer) option" where
  "limits_Process env now e rms =
     (case e_config e of
        None \<Rightarrow> Some (rms, e)
      | Some config \<Rightarrow> process_all (processResourceMetrics env config now) e rms)"

end
