(* ===== verification/Limits_Enforcer_Correct.thy ===== *)
theory Limits_Enforcer_Correct
  imports Limits_Enforcer "HOL-Library.Sublist"
begin

text \<open>
  What the OTLP limits enforcer guarantees: the totals of a window stay within the limits, \<open>Process\<close>
  always returns and only removes whole metrics or changes attributes, a dry run removes nothing, the
  rule cache is transparent without label matchers. The cases where the code does not do what it is
  meant to are theorems too.
\<close>

section \<open>What the record keeping leaves alone\<close>

text \<open>The fields that decide what happens to a metric, apart from the counters and logs.\<close>

definition core where
  "core e = (e_config e, e_ruleStats e, e_droppedGroups e, e_dryRun e, e_ruleMatchCache e, e_labelCardTrackers e)"

lemma core_record [simp]:
  "core (recordViolation e n r) = core e" "core (recordDrop e n k) = core e" "core (recordPass e n k) = core e"
  "core (recordGroupsDropped e n k) = core e" "core (updateTrackerModeInfo e n g mode rate) = core e"
  "core (log_violation e now rule g m r a mode rate k) = core e"
  "core (e\<lparr>e_ruleActivityMap := acts\<rparr>) = core e"
  by (simp_all add: core_def recordViolation_def recordDrop_def recordPass_def recordGroupsDropped_def
      on_violations_def updateTrackerModeInfo_def log_violation_def Let_def)

lemma core_drop_pass [simp]:
  "core (snd (drop_metric e rule m label k)) = core e" "core (snd (pass_metric e rule m label k)) = core e"
  by (simp_all add: drop_metric_def pass_metric_def Let_def)

lemma core_fields:
  "core e = core e' \<Longrightarrow> e_config e = e_config e' \<and> e_ruleStats e = e_ruleStats e' \<and> e_droppedGroups e = e_droppedGroups e'
     \<and> e_dryRun e = e_dryRun e' \<and> e_ruleMatchCache e = e_ruleMatchCache e' \<and> e_labelCardTrackers e = e_labelCardTrackers e'"
  by (simp add: core_def)

lemma dryRun_recordDrop [simp]: "e_dryRun (recordDrop e n k) = e_dryRun e"
  by (simp add: recordDrop_def on_violations_def)

section \<open>The rule cache\<close>

definition cache_ok :: "'f LimitsConfig \<Rightarrow> 'f Rule option ruleCache option \<Rightarrow> bool" where
  "cache_ok config c \<longleftrightarrow> cache_inv c \<and> (\<forall>n v. cached c n = Some v \<longrightarrow>
     (\<exists>labels. first_match (lc_Rules config) n labels = v)
     \<and> (case v of Some r \<Rightarrow> \<not> HasLabelMatchers r | None \<Rightarrow> \<not> HasAnyLabelMatchers config))"

lemma cache_ok_Get: "cache_ok config c \<Longrightarrow> cache_ok config (snd (cache_Get c n))"
  by (simp add: cache_ok_def cache_Get_inv)

lemma cache_ok_Put:
  assumes "cache_ok config c" "first_match (lc_Rules config) n labels = v"
    "case v of Some r \<Rightarrow> \<not> HasLabelMatchers r | None \<Rightarrow> \<not> HasAnyLabelMatchers config"
  shows "cache_ok config (cache_Put c n v)"
  unfolding cache_ok_def
proof (intro conjI allI impI)
  show "cache_inv (cache_Put c n v)" using assms(1) by (simp add: cache_ok_def cache_Put_inv)
next
  fix n' w assume "cached (cache_Put c n v) n' = Some w"
  then have "n' = n \<and> w = v \<or> cached c n' = Some w"
    using assms(1) cache_Put_cached by (metis cache_ok_def)
  then show "\<exists>labels. first_match (lc_Rules config) n' labels = w"
    and "case w of Some r \<Rightarrow> \<not> HasLabelMatchers r | None \<Rightarrow> \<not> HasAnyLabelMatchers config"
    using assms by (auto simp: cache_ok_def)
qed

lemma first_match_no_labels:
  "\<not> HasAnyLabelMatchers config \<Longrightarrow> first_match (lc_Rules config) n labels = first_match (lc_Rules config) n labels'"
  unfolding first_match_def by (rule find_cong) (simp_all add: HasAnyLabelMatchers_def list_ex_iff Matches_def)

lemma first_match_in: "first_match rules n labels = Some r \<Longrightarrow> r \<in> set rules"
  by (auto simp: first_match_def find_Some_iff)

lemma findMatchingRule_spec:
  assumes "cache_ok config (e_ruleMatchCache e)" "findMatchingRule e config n labels = (v, e')"
  shows "cache_ok config (e_ruleMatchCache e')" "core (e'\<lparr>e_ruleMatchCache := e_ruleMatchCache e\<rparr>) = core e"
    "v = Some r \<Longrightarrow> r \<in> set (lc_Rules config)"
    "\<not> HasAnyLabelMatchers config \<Longrightarrow> v = first_match (lc_Rules config) n labels"
proof -
  let ?c = "snd (cache_Get (e_ruleMatchCache e) n)"
  let ?e = "e\<lparr>e_ruleMatchCache := ?c\<rparr>"
  let ?fm = "first_match (lc_Rules config) n labels"
  have c: "cache_ok config ?c" by (rule cache_ok_Get [OF assms(1)])
  have hit: "cached (e_ruleMatchCache e) n = Some w \<Longrightarrow> \<exists>labels. first_match (lc_Rules config) n labels = w" for w
    using assms(1) unfolding cache_ok_def by blast
  have cases: "v = ?fm \<and> (e' = ?e \<or>
        (e' = e\<lparr>e_ruleMatchCache := cache_Put ?c n ?fm\<rparr> \<and> (case ?fm of Some r \<Rightarrow> \<not> HasLabelMatchers r | None \<Rightarrow> \<not> HasAnyLabelMatchers config)))
    \<or> cached (e_ruleMatchCache e) n = Some v \<and> e' = ?e"
    using assms(2) unfolding findMatchingRule_def cache_Get_value [symmetric]
    by (auto simp: split_beta Let_def split: option.splits if_splits)
  show "cache_ok config (e_ruleMatchCache e')"
    using cases c cache_ok_Put [OF c refl] by auto
  show "core (e'\<lparr>e_ruleMatchCache := e_ruleMatchCache e\<rparr>) = core e"
    using cases by (auto simp: core_def)
  show "v = Some r \<Longrightarrow> r \<in> set (lc_Rules config)"
    using cases hit first_match_in by metis
  show "\<not> HasAnyLabelMatchers config \<Longrightarrow> v = ?fm"
    using cases hit first_match_no_labels by metis
qed

section \<open>Totals\<close>

definition within :: "'f Rule \<Rightarrow> ('b, 'h) ruleStats \<Rightarrow> bool" where
  "within r rs \<longleftrightarrow> (lr_MaxDatapointsRate r > 0 \<longrightarrow> rs_totalDPs rs \<le> lr_MaxDatapointsRate r)
     \<and> (lr_MaxCardinality r > 0 \<longrightarrow> rs_totalCard rs \<le> lr_MaxCardinality r)"

definition groups_ok :: "('b, 'h, 'f) limits_env \<Rightarrow> ('b, 'h) ruleStats \<Rightarrow> bool" where
  "groups_ok env rs \<longleftrightarrow> (\<forall>k gs. map_of (rs_groups rs) k = Some gs \<longrightarrow> plain_tracker (le_lib env) (gs_cardinality gs))"

definition stats_ok :: "('b, 'h, 'f) limits_env \<Rightarrow> 'f LimitsConfig \<Rightarrow> (gostring \<times> ('b, 'h) ruleStats) list \<Rightarrow> bool" where
  "stats_ok env config stats \<longleftrightarrow> (\<forall>n rs. map_of stats n = Some rs \<longrightarrow> groups_ok env rs
     \<and> (\<forall>r \<in> set (lc_Rules config). lr_Name r = n \<longrightarrow> within r rs))"

definition enf_inv :: "('b, 'h, 'f) limits_env \<Rightarrow> 'f LimitsConfig \<Rightarrow> ('b, 'h, 'f) Enforcer \<Rightarrow> bool" where
  "enf_inv env config e \<longleftrightarrow> e_config e = Some config \<and> stats_ok env config (e_ruleStats e) \<and> cache_ok config (e_ruleMatchCache e)"

text \<open>Bloom or exact trackers, rule names that identify the rule.\<close>

definition plain_setup :: "('b, 'h, 'f) limits_env \<Rightarrow> 'f LimitsConfig \<Rightarrow> bool" where
  "plain_setup env config \<longleftrightarrow> cc_Mode (le_card env) \<noteq> ModeHybrid \<and> bloom_laws (le_lib env) \<and> distinct (map lr_Name (lc_Rules config))"

lemma enf_inv_core: "core e = core e' \<Longrightarrow> enf_inv env config e = enf_inv env config e'"
  by (simp add: enf_inv_def core_def)

lemma same_name:
  "plain_setup env config \<Longrightarrow> r \<in> set (lc_Rules config) \<Longrightarrow> r' \<in> set (lc_Rules config) \<Longrightarrow> lr_Name r = lr_Name r' \<Longrightarrow> r = r'"
  by (auto simp: plain_setup_def distinct_map inj_on_def)

lemma track_series_plain:
  "plain_tracker lib t \<Longrightarrow> track_series lib t n ks =
     Some (snd (thread (add_key lib) t ks), n + int (length (filter id (fst (thread (add_key lib) t ks)))))"
proof (induction ks arbitrary: t n)
  case (Cons k ks)
  have "track_series lib t n (k # ks) = track_series lib (snd (add_key lib t k)) (if fst (add_key lib t k) then n + 1 else n) ks"
    using tracker_Add_plain [OF Cons.prems, of k] by (simp add: add_key_def split_beta)
  also have "\<dots> = Some (snd (thread (add_key lib) t (k # ks)),
      n + int (length (filter id (fst (thread (add_key lib) t (k # ks))))))"
    using Cons.IH [OF tracker.add_inv [OF Cons.prems]] by (simp add: split_beta Let_def id_def)
  finally show ?case .
qed simp

lemma rule_window_facts:
  assumes "stats_ok env config (e_ruleStats e)" "r \<in> set (lc_Rules config)" "rule_window e (lr_Name r) now = (rs, e')"
  shows "groups_ok env rs" "within r rs" "map_of (e_ruleStats e') = (map_of (e_ruleStats e))(lr_Name r \<mapsto> rs)"
    "e_config e' = e_config e" "e_dryRun e' = e_dryRun e" "e_ruleMatchCache e' = e_ruleMatchCache e"
    "e_droppedGroups e = [] \<Longrightarrow> e_droppedGroups e' = []"
proof -
  have "map_of (e_ruleStats e) (lr_Name r) = Some rs0 \<Longrightarrow> groups_ok env rs0 \<and> within r rs0" for rs0
    using assms(1,2) by (simp add: stats_ok_def)
  then show "groups_ok env rs" "within r rs"
    using assms(3) by (auto simp: rule_window_def Let_def groups_ok_def within_def split: if_splits option.splits)
  show "map_of (e_ruleStats e') = (map_of (e_ruleStats e))(lr_Name r \<mapsto> rs)" "e_config e' = e_config e"
    "e_dryRun e' = e_dryRun e" "e_ruleMatchCache e' = e_ruleMatchCache e"
    "e_droppedGroups e = [] \<Longrightarrow> e_droppedGroups e' = []"
    using assms(3) by (auto simp: rule_window_def Let_def cleanupExpiredDroppedGroups_def update_conv' split: if_splits)
qed

lemma stats_ok_update:
  assumes "plain_setup env config" "r \<in> set (lc_Rules config)"
    and "\<And>n. n \<noteq> lr_Name r \<Longrightarrow> map_of stats' n = map_of stats n" "map_of stats' (lr_Name r) = Some rs"
    and "stats_ok env config stats" "groups_ok env rs" "within r rs"
  shows "stats_ok env config stats'"
  unfolding stats_ok_def
proof (intro allI impI)
  fix n rs0 assume n: "map_of stats' n = Some rs0"
  show "groups_ok env rs0 \<and> (\<forall>r \<in> set (lc_Rules config). lr_Name r = n \<longrightarrow> within r rs0)"
  proof (cases "n = lr_Name r")
    case True
    then show ?thesis using n assms same_name [OF assms(1) _ assms(2)] by auto
  next
    case False
    then show ?thesis using n assms(3) [OF False] assms(5) by (simp add: stats_ok_def)
  qed
qed

text \<open>The check charges a metric that fits, and leaves the totals alone otherwise.\<close>

definition store_group :: "('b, 'h, 'f) Enforcer \<Rightarrow> 'f Rule \<Rightarrow> gostring \<Rightarrow> ('b, 'h) ruleStats \<Rightarrow> ('b, 'h) groupStats \<Rightarrow> ('b, 'h, 'f) Enforcer" where
  "store_group e r g rs gs = e\<lparr>e_ruleStats := AList.update (lr_Name r) (rs\<lparr>rs_groups := AList.update g gs (rs_groups rs)\<rparr>) (e_ruleStats e)\<rparr>"

lemma updateAndCheckLimits_cases:
  assumes w: "rule_window e (lr_Name r) now = (rs, e1)" and wi: "within r rs"
    and t: "plain_tracker (le_lib env) (gs_cardinality (group_for env rs g))"
  obtains "updateAndCheckLimits env e now r g m attrs = Some (None, e1)" "maxGroupsPerRule \<le> length (rs_groups rs)"
  | rsn where "updateAndCheckLimits env e now r g m attrs = Some (Some rsn, store_group e1 r g rs (group_for env rs g))"
  | rs' gs' where "updateAndCheckLimits env e now r g m attrs = Some (None, store_group e1 r g rs' gs')"
      "within r rs'" "plain_tracker (le_lib env) (gs_cardinality gs')" "rs_groups rs' = rs_groups rs"
      "rs_totalDPs rs' = rs_totalDPs rs + int (countDatapoints m)" "rs_windowEnd rs' = rs_windowEnd rs"
proof -
  let ?lib = "le_lib env"
  define gs where "gs = group_for env rs g"
  define keys where "keys = series_keys attrs m"
  let ?t = "gs_cardinality gs"
  let ?news = "fst (thread (add_key ?lib) ?t keys)"
  have t: "plain_tracker ?lib ?t" using t by (simp add: gs_def)
  define exDP where "exDP \<longleftrightarrow> lr_MaxDatapointsRate r > 0 \<and> rs_totalDPs rs + int (countDatapoints m) > lr_MaxDatapointsRate r"
  define exCard where "exCard \<longleftrightarrow> lr_MaxCardinality r > 0
    \<and> rs_totalCard rs + int (length (filter (\<lambda>k. \<not> tracker_TestOnly ?lib ?t k) keys)) > lr_MaxCardinality r"
  define cap where "cap \<longleftrightarrow> map_of (rs_groups rs) g = None \<and> length (rs_groups rs) \<ge> maxGroupsPerRule"
  define rs' where "rs' = rs\<lparr>rs_totalCard := rs_totalCard rs + int (length (filter id ?news)),
      rs_totalDPs := rs_totalDPs rs + int (countDatapoints m)\<rparr>"
  define gs' where "gs' = gs\<lparr>gs_datapoints := gs_datapoints gs + int (countDatapoints m), gs_cardinality := snd (thread (add_key ?lib) ?t keys)\<rparr>"
  have eq: "updateAndCheckLimits env e now r g m attrs =
      (if cap then Some (None, e1)
       else if \<not> exDP \<and> \<not> exCard then
         (case track_series ?lib ?t (rs_totalCard rs) keys of None \<Rightarrow> None
          | Some (t, totalCard) \<Rightarrow>
              Some (None, store_group e1 r g (rs\<lparr>rs_totalCard := totalCard, rs_totalDPs := rs_totalDPs rs + int (countDatapoints m)\<rparr>)
                (gs\<lparr>gs_datapoints := gs_datapoints gs + int (countDatapoints m), gs_cardinality := t\<rparr>)))
       else Some (Some (if exCard then ReasonCardinality else ReasonDatapointsRate), store_group e1 r g rs gs))"
    by (simp only: updateAndCheckLimits_def w Let_def prod.case gs_def keys_def exDP_def exCard_def store_group_def cap_def)
  consider cap | "\<not> cap" "exDP \<or> exCard" | "\<not> cap" "\<not> exDP" "\<not> exCard" by blast
  then show thesis
  proof cases
    case 1
    then show thesis using that(1) by (simp add: eq cap_def)
  next
    case 2
    then show thesis using that(2) eq gs_def by (metis (full_types))
  next
    case 3
    have "length (filter id ?news) \<le> length (filter (\<lambda>k. \<not> tracker_TestOnly ?lib ?t k) keys)"
      by (rule tracker.adds_new [OF t])
    then have "within r rs'" using 3 by (auto simp: within_def exDP_def exCard_def rs'_def)
    moreover have "plain_tracker ?lib (gs_cardinality gs')" using tracker.adds_inv [OF t] by (simp add: gs'_def)
    moreover have "updateAndCheckLimits env e now r g m attrs = Some (None, store_group e1 r g rs' gs')"
      using 3 by (simp add: eq track_series_plain [OF t] rs'_def gs'_def)
    ultimately show thesis using that(3) [of rs' gs'] by (simp add: rs'_def)
  qed
qed

lemma store_group_inv:
  assumes "plain_setup env config" "r \<in> set (lc_Rules config)" "enf_inv env config e"
    and "groups_ok env rs" "within r rs" "plain_tracker (le_lib env) (gs_cardinality gs)"
  shows "enf_inv env config (store_group e r g rs gs)"
proof -
  let ?rs = "rs\<lparr>rs_groups := AList.update g gs (rs_groups rs)\<rparr>"
  have g: "groups_ok env ?rs" using assms(4,6) by (auto simp: groups_ok_def update_conv')
  have w: "within r ?rs" using assms(5) by (simp add: within_def)
  have st: "stats_ok env config (e_ruleStats e)" using assms(3) by (simp add: enf_inv_def)
  have "stats_ok env config (AList.update (lr_Name r) ?rs (e_ruleStats e))"
    by (rule stats_ok_update [OF assms(1,2) _ _ st g w]) (simp_all add: update_conv')
  then show ?thesis using assms(3) by (simp add: enf_inv_def store_group_def)
qed

lemma group_for_plain:
  "plain_setup env config \<Longrightarrow> groups_ok env rs \<Longrightarrow> plain_tracker (le_lib env) (gs_cardinality (group_for env rs g))"
  by (auto simp: group_for_def groups_ok_def plain_setup_def NewTracker_plain split: option.split)

lemma rule_window_inv:
  assumes "plain_setup env config" "enf_inv env config e" "r \<in> set (lc_Rules config)" "rule_window e (lr_Name r) now = (rs, e1)"
  shows "enf_inv env config e1"
proof -
  have st: "stats_ok env config (e_ruleStats e)" using assms(2) by (simp add: enf_inv_def)
  note f = rule_window_facts [OF st assms(3,4)]
  have "stats_ok env config (e_ruleStats e1)"
    by (rule stats_ok_update [OF assms(1,3) _ _ st f(1,2)]) (simp_all add: f(3))
  then show ?thesis using assms(2) f by (simp add: enf_inv_def)
qed

lemma updateAndCheckLimits_spec:
  assumes s: "plain_setup env config" and i: "enf_inv env config e" and r: "r \<in> set (lc_Rules config)"
  shows "\<exists>v e'. updateAndCheckLimits env e now r g m attrs = Some (v, e') \<and> enf_inv env config e'
     \<and> e_dryRun e' = e_dryRun e \<and> (e_droppedGroups e = [] \<longrightarrow> e_droppedGroups e' = [])"
proof -
  obtain rs e1 where w: "rule_window e (lr_Name r) now = (rs, e1)" by fastforce
  have "stats_ok env config (e_ruleStats e)" using i by (simp add: enf_inv_def)
  note f = rule_window_facts [OF this r w]
  note inv1 = rule_window_inv [OF s i r w] and t = group_for_plain [OF s f(1), of g]
  have frame: "e_dryRun (store_group e1 r g rs' gs') = e_dryRun e" "e_droppedGroups (store_group e1 r g rs' gs') = e_droppedGroups e1" for rs' gs'
    by (simp_all add: store_group_def f)
  show ?thesis
  proof (cases rule: updateAndCheckLimits_cases [OF w f(2) t, of m attrs])
    case 1
    then show ?thesis using inv1 f by simp
  next
    case (2 rsn)
    then show ?thesis using store_group_inv [OF s r inv1 f(1,2) t] frame f by simp
  next
    case (3 rs' gs')
    have "groups_ok env rs'" using f(1) 3(4) by (simp add: groups_ok_def)
    from store_group_inv [OF s r inv1 this 3(2,3)] show ?thesis using 3(1) frame f by simp
  qed
qed

section \<open>One metric\<close>

text \<open>
  A metric as the enforcer lets it through: some attributes of its data points removed, labels of the
  enforcer appended, everything else as it was.
\<close>

definition governed :: "'v Metric \<Rightarrow> 'v Metric \<Rightarrow> bool" where
  "governed m m' \<longleftrightarrow> (\<exists>keep extra. m' = map_attributes (\<lambda>attrs. filter keep attrs @ extra) m
     \<and> set (map kv_Key extra) \<subseteq> {gostr ''metrics.governor.action'', gostr ''metrics.governor.rule''})"

lemma map_attributes_compose: "map_attributes g (map_attributes f m) = map_attributes (\<lambda>as. g (f as)) m"
  by (cases "m_Data m") (simp_all add: map_attributes_def)

lemma map_attributes_id [simp]: "map_attributes (\<lambda>as. as) m = m"
  by (simp add: map_attributes_def)

lemma governed_refl [simp]: "governed m m"
  unfolding governed_def by (rule exI [of _ "\<lambda>_. True"], rule exI [of _ "[]"]) simp

lemma governed_strip [simp]: "governed m (map_attributes (strip_attributes names) m)"
  unfolding governed_def strip_attributes_def
  by (rule exI [of _ "\<lambda>kv. kv_Key kv \<notin> set names"], rule exI [of _ "[]"]) simp

lemma governed_inject [simp]: "governed m (injectDatapointLabels m action n)"
  unfolding governed_def injectDatapointLabels_def
  by (rule exI [of _ "\<lambda>_. True"], rule exI [of _ "governor_labels action n"]) (simp add: governor_labels_def)

lemma governed_trans: "governed a b \<Longrightarrow> governed b c \<Longrightarrow> governed a c"
proof -
  assume "governed a b" "governed b c"
  then obtain k1 x1 k2 x2 where b: "b = map_attributes (\<lambda>as. filter k1 as @ x1) a" "set (map kv_Key x1) \<subseteq> {gostr ''metrics.governor.action'', gostr ''metrics.governor.rule''}"
    and c: "c = map_attributes (\<lambda>as. filter k2 as @ x2) b" "set (map kv_Key x2) \<subseteq> {gostr ''metrics.governor.action'', gostr ''metrics.governor.rule''}"
    unfolding governed_def by blast
  have "c = map_attributes (\<lambda>as. filter (\<lambda>kv. k1 kv \<and> k2 kv) as @ (filter k2 x1 @ x2)) a"
    by (simp add: c(1) b(1) map_attributes_compose)
  moreover have "set (map kv_Key (filter k2 x1 @ x2)) \<subseteq> {gostr ''metrics.governor.action'', gostr ''metrics.governor.rule''}"
    using b(2) c(2) by auto
  ultimately show ?thesis unfolding governed_def by blast
qed

lemma governed_points: "governed m m' \<Longrightarrow> map dp_rest (metric_points m') = map dp_rest (metric_points m)"
  by (auto simp: governed_def)

definition ok_result where
  "ok_result env config e m res \<longleftrightarrow> (case res of (y, e') \<Rightarrow>
     enf_inv env config e' \<and> e_dryRun e' = e_dryRun e \<and> (e_droppedGroups e = [] \<longrightarrow> e_droppedGroups e' = [])
     \<and> (\<forall>m'. y = Some m' \<longrightarrow> governed m m') \<and> (e_dryRun e \<longrightarrow> y \<noteq> None))"

lemma ok_result_core:
  assumes "ok_result env config e m res" "core e = core e'"
  shows "ok_result env config e' m res"
  using assms by (simp add: ok_result_def core_def split_beta)

lemma ok_result_governed: "ok_result env config e m' res \<Longrightarrow> governed m m' \<Longrightarrow> ok_result env config e m res"
  by (auto simp: ok_result_def intro: governed_trans)

lemma ok_drop: "enf_inv env config e \<Longrightarrow> ok_result env config e m (drop_metric e rule m label k)"
  using core_drop_pass(1) [of e rule m label k] enf_inv_core [of "recordDrop e (lr_Name rule) k" e env config]
  by (auto simp: ok_result_def drop_metric_def Let_def core_def)

lemma ok_pass: "enf_inv env config e \<Longrightarrow> ok_result env config e m (pass_metric e rule m label k)"
  using core_drop_pass(2) [of e rule m label k] enf_inv_core [of "recordPass e (lr_Name rule) k" e env config]
  by (auto simp: ok_result_def pass_metric_def core_def)

text \<open>The totals never exceed a limit, so the adaptive handler never finds an excess.\<close>

lemma handleAdaptive_passes:
  assumes "enf_inv env config e" "r \<in> set (lc_Rules config)"
  shows "\<exists>m'. handleAdaptive env e now r g m rsn k = (Some m', e) \<and> governed m m'"
proof (cases "map_of (e_ruleStats e) (lr_Name r)")
  case (Some rs)
  then have "within r rs" using assms by (simp add: enf_inv_def stats_ok_def)
  then have "(if rsn = ReasonCardinality \<and> lr_MaxCardinality r > 0 then rs_totalCard rs - lr_MaxCardinality r
      else if lr_MaxDatapointsRate r > 0 then rs_totalDPs rs - lr_MaxDatapointsRate r else 0) \<le> 0"
    by (auto simp: within_def)
  then show ?thesis by (simp add: handleAdaptive_def Some)
qed (simp add: handleAdaptive_def)

lemma ok_adaptive:
  assumes "enf_inv env config e" "r \<in> set (lc_Rules config)"
  shows "ok_result env config e m (handleAdaptive env e now r g m rsn k)"
  using handleAdaptive_passes [OF assms, of now g m rsn k] assms(1) by (auto simp: ok_result_def)

lemma ok_same: "enf_inv env config e \<Longrightarrow> ok_result env config e m (Some m, e)"
  by (simp add: ok_result_def)

lemma ok_sample: "enf_inv env config e \<Longrightarrow> ok_result env config e m (handleSampleAction env e r m attrs k)"
  by (simp add: handleSampleAction_def ok_drop ok_pass split: list.split)

lemma ok_strip: "enf_inv env config e \<Longrightarrow> ok_result env config e m (handleStripLabels e r m k)"
  unfolding handleStripLabels_def by (rule ok_result_governed [OF ok_pass governed_strip])

lemma ok_HLL: "enf_inv env config e \<Longrightarrow> ok_result env config e m (handleHLLSampling env e r g m attrs rate k)"
  by (simp add: handleHLLSampling_def ok_drop ok_pass ok_same split: option.split Tracker.split)

lemma ok_adaptiveHLL:
  "enf_inv env config e \<Longrightarrow> r \<in> set (lc_Rules config) \<Longrightarrow> ok_result env config e m (handleAdaptiveHLL env e now r g m attrs rsn rate k)"
  by (simp add: handleAdaptiveHLL_def ok_drop ok_pass ok_same ok_adaptive split: option.split Tracker.split)

lemma ok_violation:
  assumes "enf_inv env config e" "r \<in> set (lc_Rules config)"
  shows "ok_result env config e m (handleViolation env e now r g m attrs rsn)"
proof -
  obtain a rate labels where eff: "effective e r rsn = (a, rate, labels)" by (metis prod_cases3)
  let ?mode = "getTrackerMode e (lr_Name r) g"
  let ?rate = "calculateSampleRate env e r g"
  define e1 where "e1 = updateTrackerModeInfo (recordViolation (log_violation e now r g m rsn a ?mode ?rate (countDatapoints m)) (lr_Name r) rsn) (lr_Name r) g ?mode ?rate"
  have c: "core e1 = core e" by (simp add: e1_def)
  have i: "enf_inv env config e1" using assms(1) enf_inv_core [OF c] by blast
  note oks = ok_drop [OF i] ok_pass [OF i] ok_same [OF i] ok_adaptive [OF i assms(2)] ok_sample [OF i] ok_strip [OF i]
    ok_HLL [OF i] ok_adaptiveHLL [OF i assms(2)]
  have "ok_result env config e1 m (handleViolation env e now r g m attrs rsn)"
    unfolding handleViolation_def eff Let_def prod.case e1_def [symmetric]
    by (cases a) (simp_all only: Action.case oks split: if_split, simp_all add: oks)
  then show ?thesis using c by (rule ok_result_core)
qed

lemma ok_result_chain:
  assumes "ok_result env config e1 m res" "e_dryRun e1 = e_dryRun e" "e_droppedGroups e = [] \<Longrightarrow> e_droppedGroups e1 = []"
  shows "ok_result env config e m res"
  using assms by (auto simp: ok_result_def split_beta)

lemma label_stage_frame:
  assumes "(if length (lr_LabelLimits r) > 0 then checkLabelLimits e r m attrs else (Some m, e)) = (y, e')" "enf_inv env config e"
  shows "enf_inv env config e'" "e_dryRun e' = e_dryRun e" "e_droppedGroups e' = e_droppedGroups e"
    "y = Some m' \<Longrightarrow> governed m m'"
  using assms by (auto simp: checkLabelLimits_def split_beta Let_def enf_inv_def split: if_splits)

text \<open>The part of \<open>processMetric\<close> after the rule has been found.\<close>

lemma ok_after_labels:
  assumes s: "plain_setup env config" and i: "enf_inv env config e" and r: "r \<in> set (lc_Rules config)"
  shows "\<exists>res. (case updateAndCheckLimits env e now r g m attrs of
       None \<Rightarrow> None
     | Some (None, e) \<Rightarrow> Some (pass_metric e r m ''passed'' (countDatapoints m))
     | Some (Some rsn, e) \<Rightarrow> Some (handleViolation env e now r g m attrs rsn)) = Some res \<and> ok_result env config e m res"
proof -
  obtain v e' where u: "updateAndCheckLimits env e now r g m attrs = Some (v, e')" and i': "enf_inv env config e'"
    and f: "e_dryRun e' = e_dryRun e" "e_droppedGroups e = [] \<Longrightarrow> e_droppedGroups e' = []"
    using updateAndCheckLimits_spec [OF assms] by blast
  show ?thesis
    using ok_result_chain [OF ok_pass [OF i'] f] ok_result_chain [OF ok_violation [OF i' r] f]
    by (cases v) (simp_all add: u)
qed

lemma ok_processMetric:
  assumes s: "plain_setup env config" and i: "enf_inv env config e"
  shows "\<exists>res. processMetric env config now attrs e m = Some res \<and> ok_result env config e m res"
proof -
  obtain v e1 where fm: "findMatchingRule e config (m_Name m) attrs = (v, e1)" by fastforce
  have "cache_ok config (e_ruleMatchCache e)" using i by (simp add: enf_inv_def)
  note fs = findMatchingRule_spec [OF this fm]
  have i1: "enf_inv env config e1" and f1: "e_dryRun e1 = e_dryRun e" "e_droppedGroups e1 = e_droppedGroups e"
    using i fs(1,2) by (simp_all add: enf_inv_def core_def)
  show ?thesis
  proof (cases v)
    case None
    have "enf_inv env config (recordPass e1 n k)" for n k using i1 enf_inv_core [OF core_record(3)] by blast
    then show ?thesis
      using fm None f1 by (auto simp: processMetric_def ok_result_def recordPass_def on_violations_def)
  next
    case (Some r)
    then have r: "r \<in> set (lc_Rules config)" using fs(3) by blast
    let ?e = "e1\<lparr>e_ruleActivityMap := recordRuleMatch (e_ruleActivityMap e1) (lr_Name r) now\<rparr>"
    let ?g = "buildGroupKey r attrs m"
    have i2: "enf_inv env config ?e" using i1 by (simp add: enf_inv_def)
    obtain y e2 where l: "(if length (lr_LabelLimits r) > 0 then checkLabelLimits ?e r m attrs else (Some m, ?e)) = (y, e2)"
      by fastforce
    have i3: "enf_inv env config e2" and f3: "e_dryRun e2 = e_dryRun e" "e_droppedGroups e2 = e_droppedGroups e"
      and y: "\<And>m'. y = Some m' \<Longrightarrow> governed m m'"
      using label_stage_frame [OF l i2] f1 by simp_all
    have "\<exists>res. (case (y, e2) of
          (None, e) \<Rightarrow> Some (drop_metric e r m ''label_limit_drop'' (countDatapoints m))
        | (Some m, e) \<Rightarrow>
            (case updateAndCheckLimits env e now r ?g m attrs of
               None \<Rightarrow> None
             | Some (None, e) \<Rightarrow> Some (pass_metric e r m ''passed'' (countDatapoints m))
             | Some (Some rsn, e) \<Rightarrow> Some (handleViolation env e now r ?g m attrs rsn))) = Some res \<and> ok_result env config e m res"
    proof (cases y)
      case None
      have "ok_result env config e m (drop_metric e2 r m ''label_limit_drop'' (countDatapoints m))"
        by (rule ok_result_chain [OF ok_drop [OF i3]]) (simp_all add: f3)
      then show ?thesis using None by simp
    next
      case (Some m')
      obtain res where "(case updateAndCheckLimits env e2 now r ?g m' attrs of
               None \<Rightarrow> None
             | Some (None, e) \<Rightarrow> Some (pass_metric e r m' ''passed'' (countDatapoints m'))
             | Some (Some rsn, e) \<Rightarrow> Some (handleViolation env e now r ?g m' attrs rsn)) = Some res" "ok_result env config e2 m' res"
        using ok_after_labels [OF s i3 r, where now = now and g = ?g and m = m' and attrs = attrs] by blast
      moreover from this(2) have "ok_result env config e m res"
        by (rule ok_result_chain [OF ok_result_governed [OF _ y [OF Some]]]) (simp_all add: f3)
      ultimately show ?thesis using Some by simp
    qed
    moreover have "ok_result env config e m (drop_metric ?e r m ''drop'' (countDatapoints m))"
      by (rule ok_result_chain [OF ok_drop [OF i2]]) (simp_all add: f1)
    ultimately show ?thesis
      unfolding processMetric_def fm Some prod.case option.case Let_def l
      by (cases "isGroupDropped ?e (lr_Name r) ?g now") (simp_all only: if_True if_False, blast)
  qed
qed

text \<open>
  A configuration none of whose rules can reach the actions that remove a metric directly: what is left
  is logging, stripping, adaptive dropping and unknown actions.
\<close>

definition no_direct_drops :: "'f LimitsConfig \<Rightarrow> bool" where
  "no_direct_drops config \<longleftrightarrow> list_all (\<lambda>r. lr_LabelLimitAction r \<noteq> gostr ''drop''
     \<and> list_all (\<lambda>a. a \<noteq> ActionDrop \<and> a \<noteq> ActionSample) (lr_Action r # map t_Action (lr_Tiers r))) (lc_Rules config)"

lemma effective_action: "fst (effective e r rsn) \<in> set (lr_Action r # map t_Action (lr_Tiers r))"
  by (auto simp: effective_def Let_def dest!: find_Some_set split: option.splits)

lemma getTrackerMode_plain: "enf_inv env config e \<Longrightarrow> getTrackerMode e n g = TrackerModeBloom"
proof -
  assume "enf_inv env config e"
  then have "plain_tracker (le_lib env) (gs_cardinality gs)" if "group_stats e n g = Some gs" for gs
    using that unfolding enf_inv_def stats_ok_def groups_ok_def group_stats_def by (auto split: option.splits)
  then show ?thesis
    by (cases "group_stats e n g") (auto simp: getTrackerMode_def split: Tracker.split)
qed

lemma handleViolation_keeps:
  assumes "enf_inv env config e" "r \<in> set (lc_Rules config)" "no_direct_drops config"
  shows "fst (handleViolation env e now r g m attrs rsn) \<noteq> None"
proof -
  obtain a rate labels where eff: "effective e r rsn = (a, rate, labels)" by (metis prod_cases3)
  let ?rate = "calculateSampleRate env e r g"
  define e1 where "e1 = updateTrackerModeInfo (recordViolation (log_violation e now r g m rsn a TrackerModeBloom ?rate (countDatapoints m)) (lr_Name r) rsn) (lr_Name r) g TrackerModeBloom ?rate"
  have "core e1 = core e" by (simp add: e1_def)
  then have "enf_inv env config e1" using assms(1) enf_inv_core by blast
  note ad = handleAdaptive_passes [OF this assms(2), of now g m rsn "countDatapoints m"]
  have "list_all (\<lambda>a. a \<noteq> ActionDrop \<and> a \<noteq> ActionSample) (lr_Action r # map t_Action (lr_Tiers r))"
    using assms(2,3) by (simp add: no_direct_drops_def list_all_iff)
  then have "a \<noteq> ActionDrop" "a \<noteq> ActionSample"
    using effective_action [of e r rsn] unfolding eff fst_conv list_all_iff by blast+
  then show ?thesis
    using ad unfolding handleViolation_def eff Let_def prod.case getTrackerMode_plain [OF assms(1)] e1_def [symmetric]
    by (cases a) (auto simp: pass_metric_def handleStripLabels_def)
qed

lemma check_labels_strip: "action \<noteq> gostr ''drop'' \<Longrightarrow> \<not> fst (check_labels action merged trackers strip limits)"
proof (induction action merged trackers strip limits rule: check_labels.induct)
  case (2 action merged trackers strip label limit limits)
  show ?case
    by (cases "map_of merged label") (use 2 in \<open>simp_all add: Let_def\<close>)
qed simp

lemma check_points_strip: "lr_LabelLimitAction r \<noteq> gostr ''drop'' \<Longrightarrow> \<not> fst (check_points r trackers strip ps)"
proof (induction ps arbitrary: trackers strip)
  case (Cons p ps)
  then show ?case
    using check_labels_strip [of "lr_LabelLimitAction r" p trackers strip "lr_LabelLimits r"]
    by (auto split: prod.split bool.split)
qed simp

lemma processMetric_keeps:
  assumes s: "plain_setup env config" and i: "enf_inv env config e" and n: "no_direct_drops config"
    and d: "e_droppedGroups e = []" and p: "processMetric env config now attrs e m = Some (y, e')"
  shows "y \<noteq> None"
proof -
  obtain v e1 where fm: "findMatchingRule e config (m_Name m) attrs = (v, e1)" by fastforce
  have "cache_ok config (e_ruleMatchCache e)" using i by (simp add: enf_inv_def)
  note fs = findMatchingRule_spec [OF this fm]
  have i1: "enf_inv env config e1" and d1: "e_droppedGroups e1 = []"
    using i d fs(1,2) by (simp_all add: enf_inv_def core_def)
  show ?thesis
  proof (cases v)
    case None
    then show ?thesis using p by (auto simp: processMetric_def fm)
  next
    case (Some r)
    then have r: "r \<in> set (lc_Rules config)" using fs(3) by blast
    let ?e = "e1\<lparr>e_ruleActivityMap := recordRuleMatch (e_ruleActivityMap e1) (lr_Name r) now\<rparr>"
    let ?g = "buildGroupKey r attrs m"
    have i2: "enf_inv env config ?e" using i1 by (simp add: enf_inv_def)
    have nd: "\<not> isGroupDropped ?e (lr_Name r) ?g now" using d1 by (simp add: isGroupDropped_def)
    obtain z e2 where l: "(if length (lr_LabelLimits r) > 0 then checkLabelLimits ?e r m attrs else (Some m, ?e)) = (z, e2)"
      by fastforce
    have "lr_LabelLimitAction r \<noteq> gostr ''drop''" using n r by (simp add: no_direct_drops_def list_all_iff)
    from check_points_strip [OF this] obtain m' where z: "z = Some m'"
      using l by (auto simp: checkLabelLimits_def split_beta Let_def split: if_splits)
    have i3: "enf_inv env config e2" by (rule label_stage_frame(1) [OF l i2])
    obtain w e3 where u: "updateAndCheckLimits env e2 now r ?g m' attrs = Some (w, e3)" "enf_inv env config e3"
      using updateAndCheckLimits_spec [OF s i3 r] by blast
    have "(case w of None \<Rightarrow> pass_metric e3 r m' ''passed'' (countDatapoints m')
        | Some rsn \<Rightarrow> handleViolation env e3 now r ?g m' attrs rsn) = (y, e')"
      using p nd unfolding processMetric_def fm Some prod.case option.case Let_def l z by (simp add: u split: option.splits)
    then have "y = fst (case w of None \<Rightarrow> pass_metric e3 r m' ''passed'' (countDatapoints m')
        | Some rsn \<Rightarrow> handleViolation env e3 now r ?g m' attrs rsn)" by simp
    also have "\<dots> \<noteq> None"
      using handleViolation_keeps [OF u(2) r n] by (cases w) (simp_all add: pass_metric_def del: not_None_eq)
    finally show ?thesis .
  qed
qed

section \<open>The loops\<close>

text \<open>
  A loop whose body keeps an invariant and relates each element to its result: it ends, and its results
  are those of the elements that have one, in order.
\<close>

locale filter_loop =
  fixes step :: "'s \<Rightarrow> 'a \<Rightarrow> ('b option \<times> 's) option"
    and inv :: "'s \<Rightarrow> bool"
    and rel :: "'a \<Rightarrow> 'b option \<Rightarrow> bool"
  assumes step_ok: "inv s \<Longrightarrow> \<exists>y s'. step s x = Some (y, s') \<and> inv s' \<and> rel x y"
begin

lemma process_all_ok:
  "inv s \<Longrightarrow> \<exists>ys s'. process_all step s xs = Some (List.map_filter id ys, s') \<and> inv s' \<and> list_all2 rel xs ys"
proof (induction xs arbitrary: s)
  case (Cons x xs)
  obtain y s1 where y: "step s x = Some (y, s1)" "inv s1" "rel x y" using step_ok [OF Cons.prems] by blast
  obtain ys s2 where ys: "process_all step s1 xs = Some (List.map_filter id ys, s2)" "inv s2" "list_all2 rel xs ys"
    using Cons.IH [OF y(2)] by blast
  have "process_all step s (x # xs) = Some (List.map_filter id (y # ys), s2)"
    using y ys by (simp add: List.map_filter_def split: option.split)
  then show ?case using y ys by blast
qed (simp add: List.map_filter_def)

end

text \<open>
  The same for loops that may only drop values: what the results hold is a subsequence of what the elements
  hold, and all of it when nothing may be dropped.
\<close>

definition optional :: "('b \<Rightarrow> 'c list) \<Rightarrow> 'b option \<Rightarrow> 'c list" where
  "optional f y = (case y of Some y \<Rightarrow> f y | None \<Rightarrow> [])"

definition keeps :: "bool \<Rightarrow> 'c list \<Rightarrow> 'c list \<Rightarrow> bool" where
  "keeps everything xs ys \<longleftrightarrow> subseq ys xs \<and> (everything \<longrightarrow> ys = xs)"

lemma keeps_append: "keeps b xs ys \<Longrightarrow> keeps b xs' ys' \<Longrightarrow> keeps b (xs @ xs') (ys @ ys')"
  by (auto simp: keeps_def list_emb_append_mono)

lemma keeps_Nil [simp]: "keeps b [] []"
  by (simp add: keeps_def)

locale value_loop =
  fixes step :: "'s \<Rightarrow> 'a \<Rightarrow> ('b option \<times> 's) option"
    and inv :: "'s \<Rightarrow> bool"
    and everything :: bool
    and vals :: "'a \<Rightarrow> 'c list"
    and vals' :: "'b \<Rightarrow> 'c list"
  assumes value_step: "inv s \<Longrightarrow> \<exists>y s'. step s x = Some (y, s') \<and> inv s' \<and> keeps everything (vals x) (optional vals' y)"

sublocale value_loop \<subseteq> filter_loop step inv "\<lambda>x y. keeps everything (vals x) (optional vals' y)"
  by unfold_locales (rule value_step)

context value_loop
begin

lemma values_ok:
  assumes "inv s"
  shows "\<exists>ys s'. process_all step s xs = Some (ys, s') \<and> inv s' \<and> keeps everything (concat (map vals xs)) (concat (map vals' ys))"
proof -
  have "keeps everything (concat (map vals xs)) (concat (map vals' (List.map_filter id ys)))"
    if "list_all2 (\<lambda>x y. keeps everything (vals x) (optional vals' y)) xs ys" for ys
    using that
  proof (induction rule: list_all2_induct)
    case (Cons x xs y ys)
    then show ?case using keeps_append [OF Cons(1,3)] by (cases y) (simp_all add: optional_def List.map_filter_def)
  qed (simp add: List.map_filter_def)
  then show ?thesis using process_all_ok [OF assms, of xs] by blast
qed

end

text \<open>The state between two metrics, and when nothing may be dropped.\<close>

definition run_inv :: "('b, 'h, 'f) limits_env \<Rightarrow> 'f LimitsConfig \<Rightarrow> bool \<Rightarrow> bool \<Rightarrow> ('b, 'h, 'f) Enforcer \<Rightarrow> bool" where
  "run_inv env config dry undropped e \<longleftrightarrow> plain_setup env config \<and> enf_inv env config e \<and> e_dryRun e = dry
     \<and> (undropped \<longrightarrow> e_droppedGroups e = [])"

definition nothing_dropped :: "'f LimitsConfig \<Rightarrow> bool \<Rightarrow> bool \<Rightarrow> bool" where
  "nothing_dropped config dry undropped \<longleftrightarrow> dry \<or> (undropped \<and> no_direct_drops config)"

interpretation metrics: value_loop "processMetric env config now attrs" "run_inv env config dry undropped"
    "nothing_dropped config dry undropped" metric_values metric_values
proof unfold_locales
  fix e and m :: "'d Metric"
  assume "run_inv env config dry undropped e"
  then have s: "plain_setup env config" and i: "enf_inv env config e" and d: "e_dryRun e = dry"
    and u: "undropped \<longrightarrow> e_droppedGroups e = []" by (simp_all add: run_inv_def)
  obtain y e' where p: "processMetric env config now attrs e m = Some (y, e')" and ok: "ok_result env config e m (y, e')"
    using ok_processMetric [OF s i] by (metis surj_pair)
  have "y \<noteq> None" if "nothing_dropped config dry undropped"
    using that ok d u processMetric_keeps [OF s i _ _ p] by (auto simp: nothing_dropped_def ok_result_def)
  then have "keeps (nothing_dropped config dry undropped) (metric_values m) (optional metric_values y)"
    using ok governed_points by (cases y) (auto simp: keeps_def optional_def metric_values_def ok_result_def)
  moreover have "run_inv env config dry undropped e'"
    using ok s d u by (auto simp: run_inv_def ok_result_def)
  ultimately show "\<exists>y s'. processMetric env config now attrs e m = Some (y, s') \<and> run_inv env config dry undropped s'
      \<and> keeps (nothing_dropped config dry undropped) (metric_values m) (optional metric_values y)"
    using p by blast
qed

interpretation scopes: value_loop "processScope env config now attrs" "run_inv env config dry undropped"
    "nothing_dropped config dry undropped" scope_values scope_values
proof unfold_locales
  fix e and sm :: "'d ScopeMetrics"
  assume "run_inv env config dry undropped e"
  from metrics.values_ok [OF this] obtain ms e' where
    p: "process_all (processMetric env config now attrs) e (sm_Metrics sm) = Some (ms, e')" "run_inv env config dry undropped e'"
    and k: "keeps (nothing_dropped config dry undropped) (scope_values sm) (concat (map metric_values ms))"
    unfolding scope_values_def by blast
  let ?y = "if length ms > 0 then Some \<lparr>sm_Scope = sm_Scope sm, sm_Metrics = ms, sm_SchemaUrl = []\<rparr> else None"
  have "optional scope_values ?y = concat (map metric_values ms)" by (simp add: optional_def scope_values_def)
  then show "\<exists>y s'. processScope env config now attrs e sm = Some (y, s') \<and> run_inv env config dry undropped s'
      \<and> keeps (nothing_dropped config dry undropped) (scope_values sm) (optional scope_values y)"
    using p k by (intro exI [of _ ?y] exI [of _ e']) (simp add: processScope_def)
qed

interpretation resources: value_loop "processResourceMetrics env config now" "run_inv env config dry undropped"
    "nothing_dropped config dry undropped" resource_values resource_values
proof unfold_locales
  fix e and rm :: "'d ResourceMetrics"
  let ?attrs = "extractAttributes (case rm_Resource rm of Some r \<Rightarrow> res_Attributes r | None \<Rightarrow> [])"
  assume "run_inv env config dry undropped e"
  from scopes.values_ok [OF this] obtain sms e' where
    p: "process_all (processScope env config now ?attrs) e (rm_ScopeMetrics rm) = Some (sms, e')" "run_inv env config dry undropped e'"
    and k: "keeps (nothing_dropped config dry undropped) (resource_values rm) (concat (map scope_values sms))"
    unfolding resource_values_def by blast
  let ?y = "if length sms = 0 then None else Some \<lparr>rm_Resource = rm_Resource rm, rm_ScopeMetrics = sms, rm_SchemaUrl = []\<rparr>"
  have "optional resource_values ?y = concat (map scope_values sms)" by (simp add: optional_def resource_values_def)
  then show "\<exists>y s'. processResourceMetrics env config now e rm = Some (y, s') \<and> run_inv env config dry undropped s'
      \<and> keeps (nothing_dropped config dry undropped) (resource_values rm) (optional resource_values y)"
    using p k by (intro exI [of _ ?y] exI [of _ e']) (simp add: processResourceMetrics_def)
qed

lemma limits_Process_run:
  assumes "run_inv env config dry undropped e"
  shows "\<exists>out e'. limits_Process env now e rms = Some (out, e') \<and> run_inv env config dry undropped e'
     \<and> keeps (nothing_dropped config dry undropped) (concat (map resource_values rms)) (concat (map resource_values out))"
  using resources.values_ok [OF assms, of now rms] assms by (simp add: limits_Process_def run_inv_def enf_inv_def)

lemma NewEnforcer_run: "plain_setup env config \<Longrightarrow> run_inv env config dry True (NewEnforcer (Some config) dry cacheSize t0)"
  by (simp add: run_inv_def enf_inv_def stats_ok_def cache_ok_def NewEnforcer_def newRuleCache_def cached_def cache_inv_def)

text \<open>A sequence of calls, each at a time of its own.\<close>

fun process_calls :: "('b, 'h, 'f) limits_env \<Rightarrow> ('b, 'h, 'f) Enforcer \<Rightarrow> (int \<times> 'v ResourceMetrics list) list
    \<Rightarrow> ('v ResourceMetrics list \<times> ('b, 'h, 'f) Enforcer) option" where
  "process_calls env e [] = Some ([], e)"
| "process_calls env e ((now, rms) # calls) =
     (case limits_Process env now e rms of
        None \<Rightarrow> None
      | Some (out, e) \<Rightarrow> map_option (\<lambda>(outs, e). (out @ outs, e)) (process_calls env e calls))"

lemma process_calls_run:
  "run_inv env config dry undropped e \<Longrightarrow>
     \<exists>out e'. process_calls env e calls = Some (out, e') \<and> run_inv env config dry undropped e'
       \<and> keeps (nothing_dropped config dry undropped)
            (concat (map (\<lambda>(_, rms). concat (map resource_values rms)) calls)) (concat (map resource_values out))"
proof (induction calls arbitrary: e)
  case (Cons c calls)
  obtain now rms where c: "c = (now, rms)" by fastforce
  obtain out e1 where p: "limits_Process env now e rms = Some (out, e1)" "run_inv env config dry undropped e1"
    "keeps (nothing_dropped config dry undropped) (concat (map resource_values rms)) (concat (map resource_values out))"
    using limits_Process_run [OF Cons.prems] by blast
  obtain outs e2 where q: "process_calls env e1 calls = Some (outs, e2)" "run_inv env config dry undropped e2"
    "keeps (nothing_dropped config dry undropped) (concat (map (\<lambda>(_, rms). concat (map resource_values rms)) calls)) (concat (map resource_values outs))"
    using Cons.IH [OF p(2)] by blast
  show ?case
    using p(1) q(1,2) keeps_append [OF p(3) q(3)] by (intro exI [of _ "out @ outs"] exI [of _ e2]) (simp add: c)
qed simp

end
