(* ===== verification/Limits_Guarantees.thy ===== *)
theory Limits_Guarantees
  imports Limits_Enforcer_Correct
begin

text \<open>
  The properties of the OTLP limits enforcer, with their concrete instances: how many datapoints a drop rule
  lets through, what runs of \<open>Process\<close> guarantee, when the rule cache is transparent, how label limits
  and series keys behave.
\<close>

section \<open>Charging the datapoints that pass\<close>

text \<open>The datapoints charged to a rule, and the groups it tracks, in the window that is current at \<open>now\<close>.\<close>

definition window_stats :: "'f Rule \<Rightarrow> int \<Rightarrow> ('b, 'h, 'f) Enforcer \<Rightarrow> int \<times> nat" where
  "window_stats r now e =
     (case map_of (e_ruleStats e) (lr_Name r) of
        None \<Rightarrow> (0, 0)
      | Some rs \<Rightarrow> if now > rs_windowEnd rs then (0, 0) else (rs_totalDPs rs, length (rs_groups rs)))"

lemma window_stats_core: "core e = core e' \<Longrightarrow> window_stats r now e = window_stats r now e'"
  by (simp add: core_def window_stats_def)

lemma length_alist_update': "length al \<le> length (AList.update k v al)"
  by (simp add: length_alist_update)

lemma rule_window_stats:
  assumes "rule_window e (lr_Name r) now = (rs, e1)"
  shows "window_stats r now e = (rs_totalDPs rs, length (rs_groups rs))" "now \<le> rs_windowEnd rs"
  using assms by (auto simp: rule_window_def Let_def window_stats_def minute_def split: if_splits option.splits)

lemma rule_window_other:
  "rule_window e n now = (rs, e1) \<Longrightarrow> lr_Name r \<noteq> n \<Longrightarrow> window_stats r now e1 = window_stats r now e"
  by (auto simp: rule_window_def Let_def window_stats_def cleanupExpiredDroppedGroups_def update_conv' split: if_splits)

lemma store_group_other: "lr_Name r \<noteq> lr_Name r0 \<Longrightarrow> window_stats r now (store_group e r0 g rs gs) = window_stats r now e"
  by (simp add: window_stats_def store_group_def update_conv')

lemma store_group_stats:
  "now \<le> rs_windowEnd rs \<Longrightarrow> window_stats r now (store_group e r g rs gs) = (rs_totalDPs rs, length (AList.update g gs (rs_groups rs)))"
  by (simp add: window_stats_def store_group_def update_conv')

text \<open>How a step may change them: groups are only added, and while they are below the cap the cost is charged.\<close>

definition charges :: "int \<times> nat \<Rightarrow> int \<Rightarrow> int \<times> nat \<Rightarrow> bool" where
  "charges before cost after \<longleftrightarrow> snd before \<le> snd after \<and> (snd after < maxGroupsPerRule \<longrightarrow> fst before + cost \<le> fst after)"

lemma charges_refl [simp]: "charges w 0 w"
  by (simp add: charges_def)

lemma charges_trans: "charges a m b \<Longrightarrow> charges b n c \<Longrightarrow> charges a (m + n) c"
  by (auto simp: charges_def)

text \<open>What a metric let through costs a rule, when rules have no label matchers.\<close>

definition metric_cost :: "'f LimitsConfig \<Rightarrow> 'f Rule \<Rightarrow> 'v Metric \<Rightarrow> int" where
  "metric_cost config r m = (if first_match (lc_Rules config) (m_Name m) [] = Some r then int (countDatapoints m) else 0)"

lemma governed_name: "governed m m' \<Longrightarrow> m_Name m' = m_Name m \<and> countDatapoints m' = countDatapoints m"
  by (auto simp: governed_def countDatapoints_def)

definition optional_cost :: "('b \<Rightarrow> int) \<Rightarrow> 'b option \<Rightarrow> int" where
  "optional_cost f y = (case y of Some y \<Rightarrow> f y | None \<Rightarrow> 0)"

text \<open>A rule that drops and has no tiers.\<close>

definition drop_rule :: "'f Rule \<Rightarrow> bool" where
  "drop_rule r \<longleftrightarrow> lr_Action r = ActionDrop \<and> lr_Tiers r = []"

lemma handleViolation_drop:
  assumes "enf_inv env config e" "drop_rule r" "\<not> e_dryRun e"
  shows "\<exists>e'. handleViolation env e now r g m attrs rsn = (None, e') \<and> e_ruleStats e' = e_ruleStats e"
proof -
  define e1 where "e1 = updateTrackerModeInfo (recordViolation (log_violation e now r g m rsn ActionDrop TrackerModeBloom (calculateSampleRate env e r g) (countDatapoints m)) (lr_Name r) rsn) (lr_Name r) g TrackerModeBloom (calculateSampleRate env e r g)"
  have c: "core e1 = core e" by (simp add: e1_def)
  have "effective e r rsn = (ActionDrop, lr_SampleRate r, lr_StripLabels r)"
    using assms(2) by (simp add: effective_def drop_rule_def)
  then have "handleViolation env e now r g m attrs rsn = drop_metric e1 r m ''drop'' (countDatapoints m)"
    by (simp add: handleViolation_def Let_def getTrackerMode_plain [OF assms(1)] e1_def)
  moreover have "e_ruleStats (recordDrop e1 (lr_Name r) k) = e_ruleStats e" "\<not> e_dryRun e1" for k
    using core_fields [OF c] assms(3) by (simp_all add: recordDrop_def on_violations_def)
  ultimately show ?thesis by (simp add: drop_metric_def Let_def)
qed

lemma handleViolation_stats:
  assumes "enf_inv env config e" "r \<in> set (lc_Rules config)"
  shows "e_ruleStats (snd (handleViolation env e now r g m attrs rsn)) = e_ruleStats e"
proof -
  obtain a rate labels where eff: "effective e r rsn = (a, rate, labels)" by (metis prod_cases3)
  let ?rate = "calculateSampleRate env e r g"
  define e1 where "e1 = updateTrackerModeInfo (recordViolation (log_violation e now r g m rsn a TrackerModeBloom ?rate (countDatapoints m)) (lr_Name r) rsn) (lr_Name r) g TrackerModeBloom ?rate"
  have c: "core e1 = core e" by (simp add: e1_def)
  then have "enf_inv env config e1" using assms(1) enf_inv_core by blast
  then obtain m' where ad: "handleAdaptive env e1 now r g m rsn (countDatapoints m) = (Some m', e1)"
    using handleAdaptive_passes [OF _ assms(2)] by blast
  have "core (snd (handleViolation env e now r g m attrs rsn)) = core e1"
    unfolding handleViolation_def eff Let_def prod.case getTrackerMode_plain [OF assms(1)] e1_def [symmetric]
    by (cases a) (simp_all add: ad handleSampleAction_def handleStripLabels_def split: list.split)
  then show ?thesis using c by (simp add: core_def)
qed

text \<open>The ways through \<open>processMetric\<close>, with what they leave of the statistics.\<close>

lemma processMetric_cases:
  assumes s: "plain_setup env config" and i: "enf_inv env config e" and p: "processMetric env config now attrs e m = Some (y, e')"
  obtains (no_rule) "fst (findMatchingRule e config (m_Name m) attrs) = None" "y = Some m" "e_ruleStats e' = e_ruleStats e"
  | (dropped) r e1 label where "fst (findMatchingRule e config (m_Name m) attrs) = Some r" "r \<in> set (lc_Rules config)"
      "(y, e') = drop_metric e1 r m label (countDatapoints m)" "e_ruleStats e1 = e_ruleStats e" "e_dryRun e1 = e_dryRun e"
  | (checked) r e1 m' v e2 g where "fst (findMatchingRule e config (m_Name m) attrs) = Some r" "r \<in> set (lc_Rules config)"
      "enf_inv env config e1" "e_ruleStats e1 = e_ruleStats e" "e_dryRun e1 = e_dryRun e" "governed m m'"
      "updateAndCheckLimits env e1 now r g m' attrs = Some (v, e2)"
      "(y, e') = (case v of None \<Rightarrow> pass_metric e2 r m' ''passed'' (countDatapoints m') | Some rsn \<Rightarrow> handleViolation env e2 now r g m' attrs rsn)"
proof -
  obtain v e1 where fm: "findMatchingRule e config (m_Name m) attrs = (v, e1)" by fastforce
  have "cache_ok config (e_ruleMatchCache e)" using i by (simp add: enf_inv_def)
  note fs = findMatchingRule_spec [OF this fm]
  have i1: "enf_inv env config e1" and f1: "e_ruleStats e1 = e_ruleStats e" "e_dryRun e1 = e_dryRun e"
    using i fs(1,2) by (simp_all add: enf_inv_def core_def)
  show thesis
  proof (cases v)
    case None
    then show thesis using p fm f1 that(1) by (auto simp: processMetric_def recordPass_def on_violations_def)
  next
    case (Some r)
    then have r: "r \<in> set (lc_Rules config)" and fst: "fst (findMatchingRule e config (m_Name m) attrs) = Some r"
      using fs(3) fm by simp_all
    let ?e = "e1\<lparr>e_ruleActivityMap := recordRuleMatch (e_ruleActivityMap e1) (lr_Name r) now\<rparr>"
    let ?g = "buildGroupKey r attrs m"
    have i2: "enf_inv env config ?e" using i1 by (simp add: enf_inv_def)
    show thesis
    proof (cases "isGroupDropped ?e (lr_Name r) ?g now")
      case True
      then have "(y, e') = drop_metric ?e r m ''drop'' (countDatapoints m)"
        using p by (simp add: processMetric_def fm Some Let_def)
      then show thesis using that(2) fst r f1 by simp
    next
      case False
      obtain z e2 where l: "(if length (lr_LabelLimits r) > 0 then checkLabelLimits ?e r m attrs else (Some m, ?e)) = (z, e2)"
        by fastforce
      have st2: "e_ruleStats e2 = e_ruleStats e" "e_dryRun e2 = e_dryRun e"
        using l f1 by (auto simp: checkLabelLimits_def split_beta Let_def split: if_splits)
      show thesis
      proof (cases z)
        case None
        have "(y, e') = drop_metric e2 r m ''label_limit_drop'' (countDatapoints m)"
          using p False unfolding processMetric_def fm Some prod.case option.case Let_def l None by simp
        then show thesis using that(2) fst r st2 by simp
      next
        case m': (Some m')
        have i3: "enf_inv env config e2" and g: "governed m m'" using label_stage_frame [OF l i2] m' by simp_all
        obtain w e3 where u: "updateAndCheckLimits env e2 now r ?g m' attrs = Some (w, e3)"
          using updateAndCheckLimits_spec [OF s i3 r] by blast
        have "(y, e') = (case w of None \<Rightarrow> pass_metric e3 r m' ''passed'' (countDatapoints m')
            | Some rsn \<Rightarrow> handleViolation env e3 now r ?g m' attrs rsn)"
          using p False unfolding processMetric_def fm Some prod.case option.case Let_def l m' by (simp add: u split: option.splits)
        then show thesis using that(3) [OF fst r i3 st2 g u] by simp
      qed
    qed
  qed
qed

lemma update_charges:
  assumes s: "plain_setup env config" and i: "enf_inv env config e" and r0: "r0 \<in> set (lc_Rules config)" and r: "r \<in> set (lc_Rules config)"
    and u: "updateAndCheckLimits env e now r0 g m attrs = Some (v, e')"
  shows "charges (window_stats r now e) (if v = None \<and> r0 = r then int (countDatapoints m) else 0) (window_stats r now e')"
proof -
  obtain rs e1 where w: "rule_window e (lr_Name r0) now = (rs, e1)" by fastforce
  have "stats_ok env config (e_ruleStats e)" using i by (simp add: enf_inv_def)
  note f = rule_window_facts [OF this r0 w]
  note t = group_for_plain [OF s f(1), of g]
  show ?thesis
  proof (cases "r0 = r")
    case False
    then have n: "lr_Name r \<noteq> lr_Name r0" using same_name [OF s r r0] by auto
    have "window_stats r now e' = window_stats r now e"
      by (cases rule: updateAndCheckLimits_cases [OF w f(2) t, of m attrs])
        (use u rule_window_other [OF w n] in \<open>auto simp: store_group_other [OF n]\<close>)
    then show ?thesis using False by simp
  next
    case True
    note ws = rule_window_stats [OF w [unfolded True]]
    show ?thesis
    proof (cases rule: updateAndCheckLimits_cases [OF w f(2) t, of m attrs])
      case 1
      have "window_stats r now e1 = window_stats r now e"
        using f(3) ws True by (simp add: window_stats_def)
      then show ?thesis using 1 u ws by (simp add: charges_def)
    next
      case (2 rsn)
      then show ?thesis using u ws True by (auto simp: charges_def store_group_stats [OF ws(2)] length_alist_update')
    next
      case (3 rs' gs')
      then have "window_stats r now e' = (rs_totalDPs rs', length (AList.update g gs' (rs_groups rs')))"
        using u ws True by (auto simp: store_group_stats)
      then show ?thesis using 3 u ws True by (auto simp: charges_def length_alist_update')
    qed
  qed
qed

text \<open>One metric: what is let through under a drop rule is charged to it.\<close>

definition drop_inv :: "('b, 'h, 'f) limits_env \<Rightarrow> 'f LimitsConfig \<Rightarrow> 'f Rule \<Rightarrow> ('b, 'h, 'f) Enforcer \<Rightarrow> bool" where
  "drop_inv env config r e \<longleftrightarrow> run_inv env config False False e \<and> \<not> HasAnyLabelMatchers config \<and> r \<in> set (lc_Rules config) \<and> drop_rule r"

lemma metric_charges:
  assumes d: "drop_inv env config r e" and p: "processMetric env config now attrs e m = Some (y, e')"
  shows "charges (window_stats r now e) (optional_cost (metric_cost config r) y) (window_stats r now e')"
proof -
  have s: "plain_setup env config" and i: "enf_inv env config e" and dry: "\<not> e_dryRun e" and r: "r \<in> set (lc_Rules config)"
    and dr: "drop_rule r" and nl: "\<not> HasAnyLabelMatchers config"
    using d by (simp_all add: drop_inv_def run_inv_def)
  have "cache_ok config (e_ruleMatchCache e)" using i by (simp add: enf_inv_def)
  then have fm: "fst (findMatchingRule e config (m_Name m) attrs) = first_match (lc_Rules config) (m_Name m) []"
    using findMatchingRule_spec(4) nl first_match_no_labels by (metis surjective_pairing)
  have "ok_result env config e m (y, e')" using ok_processMetric [OF s i, of now attrs m] p by auto
  then have cost: "optional_cost (metric_cost config r) y = (if y = None then 0 else metric_cost config r m)"
    using governed_name by (cases y) (auto simp: ok_result_def optional_cost_def metric_cost_def)
  from s i p show ?thesis
  proof (cases rule: processMetric_cases)
    case no_rule
    then show ?thesis using fm cost by (simp add: metric_cost_def window_stats_def)
  next
    case (dropped r0 e1 label)
    then have "y = None" "window_stats r now e' = window_stats r now e"
      using dry by (auto simp: drop_metric_def Let_def window_stats_def recordDrop_def on_violations_def split: if_splits)
    then show ?thesis using cost by simp
  next
    case (checked r0 e1 m' v e2 g)
    have ws1: "window_stats r now e1 = window_stats r now e" using checked by (simp add: window_stats_def)
    have i2: "enf_inv env config e2" "e_dryRun e2 = e_dryRun e"
      using updateAndCheckLimits_spec [OF s checked(3,2), of now g m' attrs] checked by auto
    note ch = update_charges [OF s checked(3,2) r checked(7)]
    have "charges (window_stats r now e) (if v = None \<and> r0 = r then int (countDatapoints m) else 0) (window_stats r now e2)"
      using ch unfolding ws1 conjunct2 [OF governed_name [OF checked(6)]] .
    moreover have "window_stats r now e' = window_stats r now e2"
      using checked(8) handleViolation_stats [OF i2(1) checked(2), of now g m' attrs]
      by (cases v) (auto simp: pass_metric_def window_stats_def recordPass_def on_violations_def dest: arg_cong [where f = snd])
    moreover have "optional_cost (metric_cost config r) y = (if v = None \<and> r0 = r then int (countDatapoints m) else 0)"
    proof (cases "r0 = r")
      case True
      have "y = None" if "v = Some rsn" for rsn
        using checked(8) handleViolation_drop [OF i2(1) dr, of now g m' attrs rsn] i2(2) dry True that by auto
      moreover have "y \<noteq> None" if "v = None" using checked(8) that by (simp add: pass_metric_def)
      ultimately show ?thesis using cost checked(1) fm True by (auto simp: metric_cost_def)
    next
      case False
      then show ?thesis using cost checked(1) fm by (auto simp: metric_cost_def)
    qed
    ultimately show ?thesis by simp
  qed
qed

text \<open>Loops whose bodies charge what they let through.\<close>

locale charging_loop =
  fixes step :: "'s \<Rightarrow> 'a \<Rightarrow> ('b option \<times> 's) option"
    and inv :: "'s \<Rightarrow> bool"
    and measure_of :: "'s \<Rightarrow> int \<times> nat"
    and cost :: "'b \<Rightarrow> int"
  assumes charge_step: "inv s \<Longrightarrow> step s x = Some (y, s') \<Longrightarrow> inv s' \<and> charges (measure_of s) (optional_cost cost y) (measure_of s')"
begin

lemma process_all_charges:
  "inv s \<Longrightarrow> process_all step s xs = Some (ys, s') \<Longrightarrow> inv s' \<and> charges (measure_of s) (sum_list (map cost ys)) (measure_of s')"
proof (induction xs arbitrary: s ys)
  case (Cons x xs)
  obtain y s1 ys1 where y: "step s x = Some (y, s1)" "process_all step s1 xs = Some (ys1, s')"
    and ys: "ys = (case y of Some y \<Rightarrow> y # ys1 | None \<Rightarrow> ys1)"
    using Cons.prems(2) by (auto split: option.splits)
  note c = charge_step [OF Cons.prems(1) y(1)]
  have "charges (measure_of s) (optional_cost cost y + sum_list (map cost ys1)) (measure_of s')"
    using charges_trans c Cons.IH [OF _ y(2)] by blast
  then show ?case using c Cons.IH [OF _ y(2)] by (cases y) (simp_all add: ys optional_cost_def)
qed simp

end

definition scope_cost :: "'f LimitsConfig \<Rightarrow> 'f Rule \<Rightarrow> 'v ScopeMetrics \<Rightarrow> int" where
  "scope_cost config r sm = sum_list (map (metric_cost config r) (sm_Metrics sm))"

definition resource_cost :: "'f LimitsConfig \<Rightarrow> 'f Rule \<Rightarrow> 'v ResourceMetrics \<Rightarrow> int" where
  "resource_cost config r rm = sum_list (map (scope_cost config r) (rm_ScopeMetrics rm))"

interpretation metric_charging: charging_loop "processMetric env config now attrs" "drop_inv env config r" "window_stats r now" "metric_cost config r"
proof unfold_locales
  fix e m y e' assume d: "drop_inv env config r e" and p: "processMetric env config now attrs e m = Some (y, e')"
  have "run_inv env config False False e'"
    using metrics.value_step [of env config False False e now attrs m] p d by (simp add: drop_inv_def)
  then show "drop_inv env config r e' \<and> charges (window_stats r now e) (optional_cost (metric_cost config r) y) (window_stats r now e')"
    using d metric_charges [OF d p] by (simp add: drop_inv_def)
qed

interpretation scope_charging: charging_loop "processScope env config now attrs" "drop_inv env config r" "window_stats r now" "scope_cost config r"
proof unfold_locales
  fix e and sm :: "'d ScopeMetrics" and y e'
  assume d: "drop_inv env config r e" and p: "processScope env config now attrs e sm = Some (y, e')"
  obtain ms where ms: "process_all (processMetric env config now attrs) e (sm_Metrics sm) = Some (ms, e')"
    and y: "y = (if length ms > 0 then Some \<lparr>sm_Scope = sm_Scope sm, sm_Metrics = ms, sm_SchemaUrl = []\<rparr> else None)"
    using p by (auto simp: processScope_def)
  have "optional_cost (scope_cost config r) y = sum_list (map (metric_cost config r) ms)"
    by (simp add: y optional_cost_def scope_cost_def)
  then show "drop_inv env config r e' \<and> charges (window_stats r now e) (optional_cost (scope_cost config r) y) (window_stats r now e')"
    using metric_charging.process_all_charges [OF d ms] by simp
qed

interpretation resource_charging: charging_loop "processResourceMetrics env config now" "drop_inv env config r" "window_stats r now" "resource_cost config r"
proof unfold_locales
  fix e and rm :: "'d ResourceMetrics" and y e'
  assume d: "drop_inv env config r e" and p: "processResourceMetrics env config now e rm = Some (y, e')"
  let ?attrs = "extractAttributes (case rm_Resource rm of Some r \<Rightarrow> res_Attributes r | None \<Rightarrow> [])"
  obtain sms where sms: "process_all (processScope env config now ?attrs) e (rm_ScopeMetrics rm) = Some (sms, e')"
    and y: "y = (if length sms = 0 then None else Some \<lparr>rm_Resource = rm_Resource rm, rm_ScopeMetrics = sms, rm_SchemaUrl = []\<rparr>)"
    using p by (auto simp: processResourceMetrics_def)
  have "optional_cost (resource_cost config r) y = sum_list (map (scope_cost config r) sms)"
    by (simp add: y optional_cost_def resource_cost_def)
  then show "drop_inv env config r e' \<and> charges (window_stats r now e) (optional_cost (resource_cost config r) y) (window_stats r now e')"
    using scope_charging.process_all_charges [OF d sms] by simp
qed

lemma window_stats_within:
  assumes "drop_inv env config r e" "0 < lr_MaxDatapointsRate r"
  shows "fst (window_stats r now e) \<le> lr_MaxDatapointsRate r"
  using assms
  by (auto simp: drop_inv_def run_inv_def enf_inv_def stats_ok_def within_def window_stats_def split: option.split)

section \<open>A concrete enforcer\<close>

definition list_sketches :: "(bytes list, bytes list) sketch_lib" where
  "list_sketches = \<lparr>bloom_New = [], bloom_Test = (\<lambda>f k. k \<in> set f), bloom_AddKey = (\<lambda>f k. k # f), bloom_Cap = length,
     hll_New = [], hll_Insert = (\<lambda>h k. List.insert k h), hll_Estimate = length\<rparr>"

definition sample_env :: "Mode \<Rightarrow> (bytes list, bytes list, nat) limits_env" where
  "sample_env mode = \<lparr>le_lib = list_sketches, le_ops = sample_rates, le_card = \<lparr>cc_Mode = mode, cc_HLLThreshold = 2\<rparr>, le_shuffle = (\<lambda>xs. xs)\<rparr>"

definition sample_rule :: "Action \<Rightarrow> nat Rule" where
  "sample_rule a = blank_rule\<lparr>lr_Name := [1], lr_MaxDatapointsRate := 1, lr_Action := a\<rparr>"

definition sample_limits :: "nat Rule list \<Rightarrow> nat LimitsConfig" where
  "sample_limits rules = sample_config\<lparr>lc_Rules := rules\<rparr>"

definition sample_metric :: "gostring \<Rightarrow> gostring \<Rightarrow> nat Metric" where
  "sample_metric n host = \<lparr>m_Name = n, m_Description = [], m_Unit = [], m_Metadata = [],
     m_Data = Metric_Gauge [\<lparr>dp_Attributes = [\<lparr>kv_Key = [7], kv_Value = Some (StringValue host)\<rparr>], dp_rest = 42\<rparr>]\<rparr>"

definition sample_resource :: "nat Metric list \<Rightarrow> nat ResourceMetrics" where
  "sample_resource ms = \<lparr>rm_Resource = None, rm_ScopeMetrics = [\<lparr>sm_Scope = None, sm_Metrics = ms, sm_SchemaUrl = []\<rparr>], rm_SchemaUrl = []\<rparr>"

lemmas sample_defs = list_sketches_def sample_env_def sample_rule_def sample_limits_def sample_config_def sample_metric_def
  sample_resource_def sample_rates_def blank_rule_def

lemmas enforcer_eval = limits_Process_def processResourceMetrics_def processScope_def processMetric_def findMatchingRule_def
  cache_Get_def cache_Put_def first_match_def Matches_def MatchesMetric_def MatchesLabels_def HasAnyLabelMatchers_def HasLabelMatchers_def
  recordRuleMatch_def buildGroupKey_def isGroupDropped_def updateAndCheckLimits_def rule_window_def group_for_def series_keys_def
  NewTracker_def NewExactTracker_def exact_TestOnly_def exact_Add_def exact_Count_def extractDatapointAttributes_def extractAttributes_def mergeAttrs_def
  buildSeriesKey_def metric_points_def countDatapoints_def maxGroupsPerRule_def GetStringValue_def pass_metric_def drop_metric_def
  recordPass_def recordDrop_def recordViolation_def on_violations_def bump_def injectDatapointLabels_def map_attributes_def
  handleViolation_def getTrackerMode_def calculateSampleRate_def group_stats_def effective_def log_violation_def updateTrackerModeInfo_def
  la_Warn_def la_add_def NewEnforcer_def newRuleCache_def initRuleActivity_def NewActivity_def RecordMatch_def

lemma list_sketches_laws: "bloom_laws list_sketches"
  by (simp add: bloom_laws_def list_sketches_def)

lemma sample_setup: "mode \<noteq> ModeHybrid \<Longrightarrow> distinct (map lr_Name rules) \<Longrightarrow> plain_setup (sample_env mode) (sample_limits rules)"
  using list_sketches_laws by (simp add: plain_setup_def sample_env_def sample_limits_def)

definition sample_rms :: "nat ResourceMetrics list" where
  "sample_rms = [sample_resource [sample_metric [2] [3], sample_metric [2] [4]]]"

lemma sample_drop_run:
  "\<exists>e'. limits_Process (sample_env ModeExact) 0 (NewEnforcer (Some (sample_limits [sample_rule ActionDrop])) False 0 0) sample_rms =
     Some ([sample_resource [injectDatapointLabels (sample_metric [2] [3]) ''passed'' [1]]], e')
     \<and> snd (window_stats (sample_rule ActionDrop) 0 e') = 1"
  by (simp add: enforcer_eval sample_defs sample_rms_def window_stats_def minute_def Let_def)

section \<open>Guarantees\<close>

text \<open>
  C9: in one call of \<open>Process\<close>, together with what the current window has already charged, a rule with
  action drop, no tiers and a datapoint limit lets through at most as many datapoints as its limit. This
  holds for Bloom and exact trackers, outside dry runs, when the rules have distinct names and
  no label matchers, and as long as the rule tracks fewer than \<open>maxGroupsPerRule\<close> groups at the end (further
  groups pass without being counted).
\<close>

theorem drop_rule_limits_output:
  assumes "plain_setup env config" "\<not> HasAnyLabelMatchers config" "r \<in> set (lc_Rules config)" "drop_rule r" "0 < lr_MaxDatapointsRate r"
    and "enf_inv env config e" "\<not> e_dryRun e"
    and "limits_Process env now e rms = Some (out, e')" "snd (window_stats r now e') < maxGroupsPerRule"
  shows "fst (window_stats r now e) + sum_list (map (resource_cost config r) out) \<le> lr_MaxDatapointsRate r"
proof -
  have d: "drop_inv env config r e" using assms by (simp add: drop_inv_def run_inv_def)
  have "process_all (processResourceMetrics env config now) e rms = Some (out, e')"
    using assms(6,8) by (simp add: limits_Process_def enf_inv_def)
  from resource_charging.process_all_charges [OF d this] show ?thesis
    using window_stats_within [of env config r e' now] assms(5,9) by (auto simp: charges_def)
qed

theorem drop_rule_limits_output_witness:
  "\<exists>out e'. limits_Process (sample_env ModeExact) 0 (NewEnforcer (Some (sample_limits [sample_rule ActionDrop])) False 0 0) sample_rms = Some (out, e')
     \<and> out \<noteq> [] \<and> sum_list (map (resource_cost (sample_limits [sample_rule ActionDrop]) (sample_rule ActionDrop)) out) \<le> 1"
proof -
  let ?r = "sample_rule ActionDrop"
  let ?cfg = "sample_limits [?r]"
  let ?e = "NewEnforcer (Some ?cfg) False 0 0 :: (bytes list, bytes list, nat) Enforcer"
  let ?out = "[sample_resource [injectDatapointLabels (sample_metric [2] [3]) ''passed'' [1]]]"
  obtain e' where p: "limits_Process (sample_env ModeExact) 0 ?e sample_rms = Some (?out, e')" and g: "snd (window_stats ?r 0 e') = 1"
    using sample_drop_run by blast
  have s: "plain_setup (sample_env ModeExact) ?cfg" by (rule sample_setup) simp_all
  have "enf_inv (sample_env ModeExact) ?cfg ?e" "\<not> e_dryRun ?e"
    using NewEnforcer_run [OF s, of False 0 0] by (simp_all add: run_inv_def)
  moreover have "\<not> HasAnyLabelMatchers ?cfg" "?r \<in> set (lc_Rules ?cfg)" "drop_rule ?r" "0 < lr_MaxDatapointsRate ?r"
    by (simp_all add: HasAnyLabelMatchers_def HasLabelMatchers_def drop_rule_def sample_defs)
  moreover have "snd (window_stats ?r 0 e') < maxGroupsPerRule" by (simp add: g maxGroupsPerRule_def)
  ultimately have "fst (window_stats ?r 0 ?e) + sum_list (map (resource_cost ?cfg ?r) ?out) \<le> lr_MaxDatapointsRate ?r"
    using drop_rule_limits_output [OF s _ _ _ _ _ _ p] by blast
  moreover have "fst (window_stats ?r 0 ?e) = 0" "lr_MaxDatapointsRate ?r = 1"
    by (simp_all add: window_stats_def NewEnforcer_def sample_defs)
  ultimately show ?thesis using p by auto
qed

text \<open>
  C10: with Bloom or exact trackers and distinct rule names, every sequence of calls of \<open>Process\<close> on a new
  enforcer returns; afterwards the datapoint and series totals of every rule are within its limits; and
  the values sent out are the values received with some left out, in the same order.
\<close>

theorem totals_within_limits:
  assumes "plain_setup env config"
  shows "\<exists>out e'. process_calls env (NewEnforcer (Some config) dry cacheSize t0) calls = Some (out, e')
     \<and> (\<forall>r rs. r \<in> set (lc_Rules config) \<longrightarrow> map_of (e_ruleStats e') (lr_Name r) = Some rs \<longrightarrow> within r rs)
     \<and> subseq (concat (map resource_values out)) (concat (map (\<lambda>(_, rms). concat (map resource_values rms)) calls))"
  using process_calls_run [OF NewEnforcer_run [OF assms, of dry cacheSize t0], of calls]
  by (auto simp: run_inv_def enf_inv_def stats_ok_def keeps_def)

theorem totals_within_limits_witness:
  "\<exists>out e'. process_calls (sample_env ModeBloom) (NewEnforcer (Some (sample_limits [sample_rule ActionLog])) False 10 0) [(0, sample_rms), (5, sample_rms)] = Some (out, e')
     \<and> subseq (concat (map resource_values out)) [42, 42, 42, 42]"
proof -
  have "concat (map (\<lambda>(_, rms). concat (map resource_values rms)) [(0, sample_rms), (5 :: int, sample_rms)]) = [42, 42, 42, 42]"
    by (simp add: sample_rms_def sample_defs resource_values_def scope_values_def metric_values_def metric_points_def)
  then show ?thesis
    using totals_within_limits [OF sample_setup [of ModeBloom "[sample_rule ActionLog]"], of False 10 0 "[(0, sample_rms), (5, sample_rms)]"]
    by auto
qed

text \<open>
  in a dry run nothing is dropped: whatever the rules, the values of all datapoints received are sent
  out, in order.
\<close>

theorem dry_run_keeps_everything:
  assumes "plain_setup env config"
  shows "\<exists>out e'. process_calls env (NewEnforcer (Some config) True cacheSize t0) calls = Some (out, e')
     \<and> concat (map resource_values out) = concat (map (\<lambda>(_, rms). concat (map resource_values rms)) calls)"
  using process_calls_run [OF NewEnforcer_run [OF assms, of True cacheSize t0], of calls]
  by (auto simp: keeps_def nothing_dropped_def)

theorem dry_run_keeps_everything_witness:
  "\<exists>out e'. process_calls (sample_env ModeExact) (NewEnforcer (Some (sample_limits [sample_rule ActionDrop])) True 0 0) [(0, sample_rms)] = Some (out, e')
     \<and> concat (map resource_values out) = [42, 42]"
  using dry_run_keeps_everything [OF sample_setup [of ModeExact "[sample_rule ActionDrop]"], of 0 0 "[(0, sample_rms)]"]
  by (auto simp: sample_rms_def sample_resource_def sample_metric_def resource_values_def scope_values_def metric_values_def metric_points_def)

text \<open>
  adaptive limiting never drops anything: the totals only count what was let through within the limit, so the
  excess that \<open>handleAdaptive\<close> computes is never positive and no group is ever marked. With rules that
  otherwise log, strip or have an unknown action, every value received is sent out however far the limits
  are exceeded.
\<close>

theorem adaptive_never_drops:
  assumes "plain_setup env config" "no_direct_drops config"
  shows "\<exists>out e'. process_calls env (NewEnforcer (Some config) False cacheSize t0) calls = Some (out, e')
     \<and> e_droppedGroups e' = []
     \<and> concat (map resource_values out) = concat (map (\<lambda>(_, rms). concat (map resource_values rms)) calls)"
  using process_calls_run [OF NewEnforcer_run [OF assms(1), of False cacheSize t0], of calls] assms(2)
  by (auto simp: keeps_def nothing_dropped_def run_inv_def)

theorem adaptive_never_drops_witness:
  "\<exists>out e'. process_calls (sample_env ModeExact) (NewEnforcer (Some (sample_limits [sample_rule ActionAdaptive])) False 0 0) [(0, sample_rms), (1, sample_rms)]
       = Some (out, e')
     \<and> concat (map resource_values out) = [42, 42, 42, 42]"
proof -
  have "no_direct_drops (sample_limits [sample_rule ActionAdaptive])"
    by (simp add: no_direct_drops_def sample_defs gostr_def)
  from adaptive_never_drops [OF sample_setup [of ModeExact "[sample_rule ActionAdaptive]"] this, of 0 0 "[(0, sample_rms), (1, sample_rms)]"]
  show ?thesis
    by (auto simp: sample_rms_def sample_resource_def sample_metric_def resource_values_def scope_values_def metric_values_def metric_points_def)
qed

text \<open>
  when no rule has label matchers, the rule cache is transparent: after any calls, whatever its size and
  what it has cached, the rule found for a metric is the first one of the configuration that matches it.
\<close>

theorem rule_cache_transparent:
  assumes "plain_setup env config" "\<not> HasAnyLabelMatchers config"
    and "process_calls env (NewEnforcer (Some config) dry cacheSize t0) calls = Some (out, e)"
  shows "fst (findMatchingRule e config metricName labels) = first_match (lc_Rules config) metricName labels"
proof -
  have "cache_ok config (e_ruleMatchCache e)"
    using process_calls_run [OF NewEnforcer_run [OF assms(1), of dry cacheSize t0], of calls] assms(3)
    by (auto simp: run_inv_def enf_inv_def)
  then show ?thesis using findMatchingRule_spec(4) [OF _ _ assms(2)] by (metis prod.collapse)
qed

theorem rule_cache_transparent_witness:
  "\<exists>out e. process_calls (sample_env ModeExact) (NewEnforcer (Some (sample_limits [sample_rule ActionLog])) False 1 0) [(0, sample_rms)] = Some (out, e)
     \<and> fst (findMatchingRule e (sample_limits [sample_rule ActionLog]) [2] []) = Some (sample_rule ActionLog)"
proof -
  let ?cfg = "sample_limits [sample_rule ActionLog]"
  have s: "plain_setup (sample_env ModeExact) ?cfg" by (rule sample_setup) simp_all
  have h: "\<not> HasAnyLabelMatchers ?cfg" by (simp add: HasAnyLabelMatchers_def HasLabelMatchers_def sample_defs)
  obtain out e where p: "process_calls (sample_env ModeExact) (NewEnforcer (Some ?cfg) False 1 0) [(0, sample_rms)] = Some (out, e)"
    using process_calls_run [OF NewEnforcer_run [OF s, of False 1 0], of "[(0, sample_rms)]"] by blast
  have "fst (findMatchingRule e ?cfg [2] []) = first_match (lc_Rules ?cfg) [2] []"
    by (rule rule_cache_transparent [OF s h p])
  also have "\<dots> = Some (sample_rule ActionLog)"
    by (simp add: first_match_def Matches_def MatchesMetric_def MatchesLabels_def sample_defs)
  finally show ?thesis using p by blast
qed

text \<open>
  with label matchers the cache is not transparent. Two rules match the same metric, the first only with
  a label. Once a metric without the label has been seen, the cached second rule is used for metrics with
  the label too, although the first rule matches them and comes first.
\<close>

definition labelled_rule :: "nat Rule" where
  "labelled_rule = (sample_rule ActionDrop)\<lparr>lr_Name := [9], lr_Match := \<lparr>match_MetricName = [], match_Labels = [([5], [6])]\<rparr>\<rparr>"

theorem rule_cache_hides_label_rule:
  "let config = sample_limits [labelled_rule, sample_rule ActionLog];
       e = NewEnforcer (Some config) False 1 0 :: (bytes list, bytes list, nat) Enforcer;
       labels = [([5], [6])];
       (_, e') = findMatchingRule e config [2] []
   in fst (findMatchingRule e config [2] labels) = Some labelled_rule
      \<and> fst (findMatchingRule e' config [2] labels) = Some (sample_rule ActionLog)"
proof -
  have "labelled_rule \<noteq> sample_rule ActionLog" by (simp add: labelled_rule_def sample_defs)
  then show ?thesis
    by (simp add: Let_def split_beta findMatchingRule_def cache_Get_def cache_Put_def NewEnforcer_def newRuleCache_def
        first_match_def Matches_def MatchesMetric_def MatchesLabels_def HasLabelMatchers_def labelled_rule_def sample_defs
        evict_back.simps remove_key_def)
qed

end
