(* ===== verification/Limits_Labels.thy ===== *)
theory Limits_Labels
  imports Limits_Guarantees
begin

text \<open>
  Label limits, series keys and the mode switch of hybrid trackers in the OTLP limits enforcer:
  how many values of a limited label get through, when two label sets have the same series key, and what
  happens when a hybrid tracker reaches its threshold.
\<close>

section \<open>Attributes as maps\<close>

lemma map_of_foldl_update:
  "map_of (foldl (\<lambda>result (k, v). AList.update k v result) acc b) = map_of acc ++ map_of (rev b)"
  by (induction b arbitrary: acc) (auto simp: update_conv' map_add_def fun_eq_iff split: option.splits)

lemma distinct_map_of_rev: "distinct (map fst xs) \<Longrightarrow> map_of (rev xs) = map_of xs"
  by (rule map_of_eqI) (auto simp: rev_map [symmetric] map_of_eq_Some_iff)

lemma distinct_extract: "distinct (map fst (extractAttributes kvs))"
proof (induction kvs rule: rev_induct)
  case (snoc kv kvs)
  then show ?case by (simp add: extractAttributes_def Let_def distinct_update split: option.split)
qed (simp add: extractAttributes_def)

lemma map_of_mergeAttrs:
  "distinct (map fst a) \<Longrightarrow> distinct (map fst b) \<Longrightarrow> map_of (mergeAttrs a b) = map_of a ++ map_of b"
  by (simp add: mergeAttrs_def map_of_foldl_update distinct_map_of_rev)

lemma map_of_extract_snoc:
  "map_of (extractAttributes (kvs @ [kv])) =
     (if GetStringValue (kv_Value kv) \<noteq> [] then (map_of (extractAttributes kvs))(kv_Key kv \<mapsto> GetStringValue (kv_Value kv))
      else map_of (extractAttributes kvs))"
  by (auto simp: extractAttributes_def Let_def update_conv' GetStringValue_def split: option.split)

lemma extract_strip:
  "map_of (extractAttributes (strip_attributes names kvs)) =
     (\<lambda>k. if k \<in> set names then None else map_of (extractAttributes kvs) k)"
proof (induction kvs rule: rev_induct)
  case Nil
  show ?case by (simp add: extractAttributes_def strip_attributes_def fun_eq_iff)
next
  case (snoc kv kvs)
  have "strip_attributes names (kvs @ [kv]) =
      (if kv_Key kv \<in> set names then strip_attributes names kvs else strip_attributes names kvs @ [kv])"
    by (simp add: strip_attributes_def)
  then show ?case using snoc by (auto simp: map_of_extract_snoc fun_eq_iff)
qed

lemma strip_none: "strip_attributes [] = (\<lambda>attrs. attrs)"
  by (simp add: strip_attributes_def fun_eq_iff)

section \<open>Label limits\<close>

definition seen_values :: "(gostring \<times> gostring list) list \<Rightarrow> gostring \<Rightarrow> gostring list" where
  "seen_values trackers label = (case map_of trackers label of Some t \<Rightarrow> t | None \<Rightarrow> [])"

lemma seen_values_update: "seen_values (AList.update l t trackers) l' = (if l' = l then t else seen_values trackers l')"
  by (simp add: seen_values_def update_conv')

text \<open>The value sets respect the limits.\<close>

definition label_inv :: "(gostring \<times> int) list \<Rightarrow> (gostring \<times> gostring list) list \<Rightarrow> bool" where
  "label_inv limits trackers \<longleftrightarrow> (\<forall>label limit. (label, limit) \<in> set limits \<longrightarrow> 0 < limit \<longrightarrow> int (length (seen_values trackers label)) \<le> limit)"

text \<open>What one datapoint leaves: each of its limited labels is stripped or has an admitted value.\<close>

definition label_checked :: "(gostring \<times> int) list \<Rightarrow> (gostring \<times> gostring list) list \<Rightarrow> gostring list \<Rightarrow> attrs \<Rightarrow> bool" where
  "label_checked limits trackers strip merged \<longleftrightarrow> (\<forall>label limit v. (label, limit) \<in> set limits \<longrightarrow> map_of merged label = Some v \<longrightarrow>
     label \<in> set strip \<or> (limit \<noteq> 0 \<and> v \<in> set (seen_values trackers label)))"

definition label_grows where
  "label_grows trackers strip trackers' strip' \<longleftrightarrow> set strip \<subseteq> set strip' \<and> (\<forall>l. set (seen_values trackers l) \<subseteq> set (seen_values trackers' l))"

lemma label_grows_refl [simp]: "label_grows t s t s"
  by (simp add: label_grows_def)

lemma label_grows_trans: "label_grows t s t' s' \<Longrightarrow> label_grows t' s' t'' s'' \<Longrightarrow> label_grows t s t'' s''"
  unfolding label_grows_def by blast

lemma label_checked_mono: "label_checked limits t s merged \<Longrightarrow> label_grows t s t' s' \<Longrightarrow> label_checked limits t' s' merged"
  unfolding label_checked_def label_grows_def by blast

lemma check_labels_spec:
  assumes "check_labels action merged trackers strip limits = (False, trackers', strip')"
    and "label_inv limits0 trackers" "set limits \<subseteq> set limits0" "distinct (map fst limits0)"
  shows "label_inv limits0 trackers' \<and> label_grows trackers strip trackers' strip' \<and> label_checked limits trackers' strip' merged"
  using assms
proof (induction limits arbitrary: trackers strip)
  case Nil
  then show ?case by (simp add: label_checked_def)
next
  case (Cons ll limits)
  obtain label limit where ll: "ll = (label, limit)" by fastforce
  have sub: "set limits \<subseteq> set limits0" and mem: "(label, limit) \<in> set limits0" using Cons.prems(3) ll by auto
  have uniq: "(label, l) \<in> set limits0 \<Longrightarrow> l = limit" for l
    using mem Cons.prems(4) by (meson eq_key_imp_eq_value)
  note IH = Cons.IH [OF _ _ sub Cons.prems(4)]
  show ?case
  proof (cases "map_of merged label")
    case None
    then show ?thesis using IH [OF _ Cons.prems(2)] Cons.prems(1) by (auto simp: ll label_checked_def)
  next
    case (Some v)
    let ?tr = "seen_values trackers label"
    let ?t1 = "AList.update label ?tr trackers"
    have run: "check_labels action merged trackers strip (ll # limits) =
        (if limit = 0 then check_labels action merged trackers (strip @ [label]) limits
         else if v \<in> set ?tr then check_labels action merged ?t1 strip limits
         else if int (length ?tr) \<ge> limit then
           (if action = gostr ''drop'' then (True, ?t1, strip) else check_labels action merged ?t1 (strip @ [label]) limits)
         else check_labels action merged (AList.update label (?tr @ [v]) ?t1) strip limits)"
      by (simp only: ll check_labels.simps Some option.case seen_values_def Let_def)
    have seen1: "seen_values ?t1 = seen_values trackers" by (auto simp: seen_values_update fun_eq_iff)
    have inv1: "label_inv limits0 ?t1" using Cons.prems(2) by (simp add: label_inv_def seen1)
    have extend: "label_checked (ll # limits) t s merged"
      if "label_checked limits t s merged" "label \<in> set s \<or> limit \<noteq> 0 \<and> v \<in> set (seen_values t label)" for t s
      using that Some ll by (auto simp: label_checked_def)
    consider "limit = 0" | "limit \<noteq> 0" "v \<in> set ?tr" | "limit \<noteq> 0" "v \<notin> set ?tr" "int (length ?tr) \<ge> limit"
      | "limit \<noteq> 0" "v \<notin> set ?tr" "int (length ?tr) < limit" by linarith
    then show ?thesis
    proof cases
      case 1
      then show ?thesis
        using IH [of trackers "strip @ [label]"] Cons.prems(1,2) extend run by (auto simp: label_grows_def)
    next
      case 2
      then show ?thesis
        using IH [of ?t1 strip] Cons.prems(1) inv1 run by (auto simp: label_grows_def seen1 intro!: extend)
    next
      case 3
      then have "action \<noteq> gostr ''drop''" using Cons.prems(1) run by auto
      then show ?thesis
        using 3 IH [of ?t1 "strip @ [label]"] Cons.prems(1) inv1 extend run by (auto simp: label_grows_def seen1)
    next
      case 4
      let ?t2 = "AList.update label (?tr @ [v]) ?t1"
      have "label_inv limits0 ?t2"
        using Cons.prems(2) uniq 4(3) by (auto simp: label_inv_def seen_values_update)
      moreover have "check_labels action merged ?t2 strip limits = (False, trackers', strip')"
        using 4 Cons.prems(1) run by simp
      ultimately have g: "label_inv limits0 trackers'" "label_grows ?t2 strip trackers' strip'" "label_checked limits trackers' strip' merged"
        using IH by blast+
      have g0: "label_grows trackers strip ?t2 strip" and "v \<in> set (seen_values ?t2 label)"
        by (auto simp: label_grows_def seen_values_update)
      then have "v \<in> set (seen_values trackers' label)" using g(2) unfolding label_grows_def by blast
      then show ?thesis using g label_grows_trans [OF g0 g(2)] extend 4(1) by blast
    qed
  qed
qed

lemma check_points_spec:
  assumes "check_points r trackers strip ps = (False, trackers', strip')"
    and "label_inv (lr_LabelLimits r) trackers" "distinct (map fst (lr_LabelLimits r))"
  shows "label_inv (lr_LabelLimits r) trackers' \<and> label_grows trackers strip trackers' strip'
    \<and> list_all (label_checked (lr_LabelLimits r) trackers' strip') ps"
  using assms
proof (induction ps arbitrary: trackers strip)
  case (Cons p ps)
  obtain t s where c: "check_labels (lr_LabelLimitAction r) p trackers strip (lr_LabelLimits r) = (False, t, s)"
    and rest: "check_points r t s ps = (False, trackers', strip')"
    using Cons.prems(1) by (auto split: prod.splits bool.splits)
  note h = check_labels_spec [OF c Cons.prems(2) order_refl Cons.prems(3)]
  note g = Cons.IH [OF rest conjunct1 [OF h] Cons.prems(3)]
  show ?case using h g label_grows_trans label_checked_mono by auto
qed simp

lemma check_labels_strips:
  "check_labels action merged t s limits = (d, t', s') \<Longrightarrow> set s' \<subseteq> set s \<union> fst ` set limits"
proof (induction limits arbitrary: t s)
  case (Cons ll limits)
  obtain label limit where ll: "ll = (label, limit)" by fastforce
  show ?case
  proof (cases "map_of merged label")
    case None
    then show ?thesis using Cons.IH [of t s] Cons.prems by (auto simp: ll)
  next
    case (Some v)
    then show ?thesis using Cons.prems by (auto simp: ll Let_def split: if_splits dest!: Cons.IH)
  qed
qed simp

lemma check_points_strips:
  "check_points r t s ps = (d, t', s') \<Longrightarrow> set s' \<subseteq> set s \<union> fst ` set (lr_LabelLimits r)"
proof (induction ps arbitrary: t s)
  case (Cons p ps)
  obtain b t1 s1 where c: "check_labels (lr_LabelLimitAction r) p t s (lr_LabelLimits r) = (b, t1, s1)" by (metis prod_cases3)
  show ?case
    using Cons.prems Cons.IH [of t1 s1] check_labels_strips [OF c] by (cases b) (auto simp: c)
qed simp


definition limited_rule :: "gostring \<Rightarrow> nat Rule" where
  "limited_rule action = (sample_rule ActionLog)\<lparr>lr_LabelLimits := [([7], 1)], lr_LabelLimitAction := action\<rparr>"

definition fresh_enforcer :: "nat Rule \<Rightarrow> (bytes list, bytes list, nat) Enforcer" where
  "fresh_enforcer r = NewEnforcer (Some (sample_limits [r])) False 0 0"


text \<open>
  with the action drop, a limit of zero does not drop the metric: the label is stripped as with
  the action strip, although a value over any positive limit drops the metric.
\<close>

theorem label_limit_zero_never_drops:
  assumes "list_all (\<lambda>(_, limit). limit = 0) (lr_LabelLimits r)"
  shows "fst (checkLabelLimits e r m resourceAttrs) \<noteq> None"
proof -
  have "\<not> fst (check_labels action merged trackers strip limits)"
    if "list_all (\<lambda>(_, limit). limit = 0) limits" for action merged trackers strip and limits :: "(gostring \<times> int) list"
    using that
  proof (induction limits arbitrary: strip)
    case (Cons ll limits)
    then show ?case by (cases ll) (auto split: option.split)
  qed simp
  note one = this [OF assms]
  have "\<not> fst (check_points r trackers strip ps)" for trackers strip ps
  proof (induction ps arbitrary: trackers strip)
    case (Cons p ps)
    then show ?case using one [of "lr_LabelLimitAction r" p trackers strip] by (auto split: prod.split bool.split)
  qed simp
  then show ?thesis by (auto simp: checkLabelLimits_def split_beta Let_def)
qed

theorem label_limit_zero_never_drops_witness:
  "fst (checkLabelLimits (fresh_enforcer (limited_rule (gostr ''drop''))) ((limited_rule (gostr ''drop''))\<lparr>lr_LabelLimits := [([7], 0)]\<rparr>)
     (sample_metric [2] [3]) []) \<noteq> None"
  by (rule label_limit_zero_never_drops) simp

section \<open>Series keys\<close>

text \<open>
  the series key of a set of labels does not depend on the order they are listed in; but it does not
  determine them: the separators are not escaped, so the single label \<open>a\<close> with value \<open>1,b=2\<close> and the two
  labels \<open>a=1\<close> and \<open>b=2\<close> have the same key and are counted as one series.
\<close>

theorem buildSeriesKey_order_and_collision:
  "(distinct (map fst a) \<longrightarrow> distinct (map fst b) \<longrightarrow> map_of a = map_of b \<longrightarrow> buildSeriesKey a = buildSeriesKey b)
   \<and> buildSeriesKey [(gostr ''a'', gostr ''1,b=2'')] = buildSeriesKey [(gostr ''b'', gostr ''2''), (gostr ''a'', gostr ''1'')]"
proof
  have "sort (map fst a) = sort (map fst b)" if d: "distinct (map fst a)" "distinct (map fst b)" and m: "map_of a = map_of b"
  proof -
    have "set (map fst a) = set (map fst b)" using m by (metis dom_map_of_conv_image_fst list.set_map)
    then have "mset (map fst a) = mset (map fst b)" using d set_eq_iff_mset_eq_distinct by blast
    then show ?thesis using properties_for_sort [of "sort (map fst a)" "map fst b"] by simp
  qed
  then show "distinct (map fst a) \<longrightarrow> distinct (map fst b) \<longrightarrow> map_of a = map_of b \<longrightarrow> buildSeriesKey a = buildSeriesKey b"
    by (simp add: buildSeriesKey_def)
  show "buildSeriesKey [(gostr ''a'', gostr ''1,b=2'')] = buildSeriesKey [(gostr ''b'', gostr ''2''), (gostr ''a'', gostr ''1'')]"
    by (simp add: buildSeriesKey_def gostr_def)
qed

theorem buildSeriesKey_order_and_collision_witness:
  "buildSeriesKey [([1], [2]), ([3], [4])] = buildSeriesKey [([3], [4]), ([1], [2])]"
proof -
  have "map_of [([1 :: byte], [2 :: byte]), ([3], [4])] = map_of [([3], [4]), ([1], [2])]" by (auto simp: fun_eq_iff)
  then show ?thesis using buildSeriesKey_order_and_collision [of "[([1], [2]), ([3], [4])]" "[([3], [4]), ([1], [2])]"] by simp
qed

section \<open>Hybrid trackers\<close>

text \<open>
  with hybrid trackers the enforcer deadlocks. When a series within the limits takes a tracker to its
  threshold, the tracker switches mode and calls the enforcer back, which locks the mutex that
  \<open>updateAndCheckLimits\<close> holds: the call never returns.
\<close>

theorem hybrid_switch_deadlocks:
  assumes "rule_window e (lr_Name r) now = (rs, e1)" "map_of (rs_groups rs) g \<noteq> None \<or> length (rs_groups rs) < maxGroupsPerRule"
    and "gs_cardinality (group_for env rs g) = Hybrid t" "ht_mode t = TrackerModeBloom" "0 < ht_threshold t"
    and "bloom_Count (bloomTracker t) + 1 = ht_threshold t"
    and "series_keys resourceAttrs m = k # ks" "\<not> bloom_TestOnly (le_lib env) (bloomTracker t) k"
    and "lr_MaxDatapointsRate r \<le> 0" "lr_MaxCardinality r \<le> 0"
  shows "updateAndCheckLimits env e now r g m resourceAttrs = None"
proof -
  have "snd (fst (tracker_Add (le_lib env) (Hybrid t) k)) \<noteq> None"
    using assms by (simp add: hybrid_Add_def Let_def bloom_Add_def bloom_Count_def bloom_TestOnly_def switchToHLL_def)
  then have "track_series (le_lib env) (Hybrid t) n (k # ks) = None" for n
    by (simp only: track_series.simps split_beta) simp
  then show ?thesis
    using assms by (auto simp: updateAndCheckLimits_def Let_def)
qed

definition unlimited_rule :: "nat Rule" where
  "unlimited_rule = (sample_rule ActionLog)\<lparr>lr_MaxDatapointsRate := 0\<rparr>"

definition series_key_3 :: gostring where
  "series_key_3 = buildSeriesKey [([7], [3])]"

definition hybrid_group :: "(bytes list, bytes list) groupStats" where
  "hybrid_group = \<lparr>gs_datapoints = 1, gs_cardinality = Hybrid \<lparr>bloomTracker = \<lparr>bt_filter = [series_key_3], bt_count = 1\<rparr>,
     hllTracker = [], ht_mode = TrackerModeBloom, ht_threshold = 2, ht_switchCount = 0\<rparr>, gs_windowEnd = minute\<rparr>"

definition hybrid_stats :: "(bytes list, bytes list) ruleStats" where
  "hybrid_stats = \<lparr>rs_groups = [([2], hybrid_group)], rs_totalDPs = 1, rs_totalCard = 1, rs_windowEnd = minute\<rparr>"

lemma sample_hybrid_run:
  "\<exists>out e. limits_Process (sample_env ModeHybrid) 0 (fresh_enforcer unlimited_rule) [sample_resource [sample_metric [2] [3]]] = Some (out, e)
     \<and> e_ruleStats e = [([1], hybrid_stats)]"
  by (simp add: enforcer_eval sample_defs fresh_enforcer_def unlimited_rule_def Let_def hybrid_stats_def hybrid_group_def series_key_3_def minute_def
      NewHybridTracker_def NewBloomTracker_def hybrid_Add_def hybrid_TestOnly_def bloom_Add_def bloom_TestOnly_def bloom_Count_def)

theorem hybrid_switch_deadlocks_witness:
  "\<exists>out e. limits_Process (sample_env ModeHybrid) 0 (fresh_enforcer unlimited_rule) [sample_resource [sample_metric [2] [3]]] = Some (out, e)
     \<and> updateAndCheckLimits (sample_env ModeHybrid) e 0 unlimited_rule [2] (sample_metric [2] [4]) [] = None"
proof -
  obtain out e where p: "limits_Process (sample_env ModeHybrid) 0 (fresh_enforcer unlimited_rule) [sample_resource [sample_metric [2] [3]]] = Some (out, e)"
    and st: "e_ruleStats e = [([1], hybrid_stats)]"
    using sample_hybrid_run by blast
  obtain e1 where w: "rule_window e (lr_Name unlimited_rule) 0 = (hybrid_stats, e1)"
    by (simp add: rule_window_def st unlimited_rule_def sample_defs hybrid_stats_def minute_def Let_def)
  let ?t = "\<lparr>bloomTracker = \<lparr>bt_filter = [series_key_3], bt_count = 1\<rparr>,
     hllTracker = [], ht_mode = TrackerModeBloom, ht_threshold = 2, ht_switchCount = 0\<rparr> :: (bytes list, bytes list) HybridTracker"
  have t: "gs_cardinality (group_for (sample_env ModeHybrid) hybrid_stats [2]) = Hybrid ?t"
    by (simp add: group_for_def hybrid_stats_def hybrid_group_def)
  have k: "series_keys [] (sample_metric [2] [4]) = [buildSeriesKey [([7], [4])]]"
    by (simp add: series_keys_def extractDatapointAttributes_def extractAttributes_def sample_metric_def metric_points_def
        GetStringValue_def mergeAttrs_def)
  have "updateAndCheckLimits (sample_env ModeHybrid) e 0 unlimited_rule [2] (sample_metric [2] [4]) [] = None"
    by (rule hybrid_switch_deadlocks [OF w _ t _ _ _ k])
      (simp_all add: hybrid_stats_def maxGroupsPerRule_def bloom_Count_def bloom_TestOnly_def sample_env_def list_sketches_def
        series_key_3_def buildSeriesKey_def unlimited_rule_def sample_rule_def blank_rule_def)
  then show ?thesis using p by blast
qed

section \<open>Unknown actions and schema URLs\<close>

text \<open>
  \<open>LoadConfig\<close> accepts an action it does not know, and a rule with such an action enforces
  nothing: a metric over the limit passes unchanged and is counted neither as passed nor as dropped.
\<close>

theorem unknown_action_enforces_nothing:
  assumes "lr_Action r = ActionOther a" "lr_Tiers r = []"
  shows "\<exists>e'. handleViolation env e now r g m resourceAttrs rsn = (Some m, e')
     \<and> vm_datapointsPassed (e_violations e') = vm_datapointsPassed (e_violations e)
     \<and> vm_datapointsDropped (e_violations e') = vm_datapointsDropped (e_violations e)"
  using assms
  by (simp add: handleViolation_def effective_def Let_def log_violation_def recordViolation_def on_violations_def updateTrackerModeInfo_def)

theorem unknown_action_enforces_nothing_witness:
  "\<exists>e'. handleViolation (sample_env ModeExact) (fresh_enforcer (sample_rule (ActionOther [5]))) 0 (sample_rule (ActionOther [5])) [2]
     (sample_metric [2] [3]) [] ReasonDatapointsRate = (Some (sample_metric [2] [3]), e')"
  using unknown_action_enforces_nothing [of "sample_rule (ActionOther [5])" "[5]" "sample_env ModeExact"
      "fresh_enforcer (sample_rule (ActionOther [5]))" 0 "[2]" "sample_metric [2] [3]" "[]" ReasonDatapointsRate]
  by (auto simp: sample_defs)

lemma process_all_results:
  "process_all f s xs = Some (ys, s') \<Longrightarrow> (\<And>s x y s'. f s x = Some (Some y, s') \<Longrightarrow> P y) \<Longrightarrow> list_all P ys"
proof (induction xs arbitrary: s ys)
  case (Cons x xs)
  obtain y s1 ys1 where "f s x = Some (y, s1)" "process_all f s1 xs = Some (ys1, s')" "ys = (case y of Some y \<Rightarrow> y # ys1 | None \<Rightarrow> ys1)"
    using Cons.prems(1) by (auto split: option.splits)
  then show ?case using Cons.IH [of s1 ys1] Cons.prems(2) by (cases y) auto
qed simp

lemma processScope_schema: "processScope env config now attrs e sm0 = Some (Some sm, e') \<Longrightarrow> sm_SchemaUrl sm = []"
  by (auto simp: processScope_def split: if_splits)

lemma processResourceMetrics_schema:
  assumes "processResourceMetrics env config now e rm0 = Some (Some rm, e')"
  shows "rm_SchemaUrl rm = [] \<and> list_all (\<lambda>sm. sm_SchemaUrl sm = []) (rm_ScopeMetrics rm)"
proof -
  let ?attrs = "extractAttributes (case rm_Resource rm0 of Some r \<Rightarrow> res_Attributes r | None \<Rightarrow> [])"
  obtain sms where "process_all (processScope env config now ?attrs) e (rm_ScopeMetrics rm0) = Some (sms, e')"
    and rm: "rm = \<lparr>rm_Resource = rm_Resource rm0, rm_ScopeMetrics = sms, rm_SchemaUrl = []\<rparr>"
    using assms by (auto simp: processResourceMetrics_def split: if_splits)
  from process_all_results [OF this(1), of "\<lambda>sm. sm_SchemaUrl sm = []"] show ?thesis
    by (auto simp: rm processScope_schema)
qed

text \<open>
  every message \<open>Process\<close> sends out has lost its schema URLs, whatever the rules.
\<close>

theorem schema_urls_erased:
  assumes "e_config e \<noteq> None" "limits_Process env now e rms = Some (out, e')"
  shows "list_all (\<lambda>rm. rm_SchemaUrl rm = [] \<and> list_all (\<lambda>sm. sm_SchemaUrl sm = []) (rm_ScopeMetrics rm)) out"
proof -
  obtain config where "process_all (processResourceMetrics env config now) e rms = Some (out, e')"
    using assms by (auto simp: limits_Process_def)
  then show ?thesis by (rule process_all_results) (rule processResourceMetrics_schema)
qed

theorem schema_urls_erased_witness:
  "\<exists>out e'. limits_Process (sample_env ModeExact) 0 (NewEnforcer (Some (sample_limits [])) False 0 0)
       [(sample_resource [sample_metric [2] [3]])\<lparr>rm_SchemaUrl := [8]\<rparr>] = Some (out, e')
     \<and> list_all (\<lambda>rm. rm_SchemaUrl rm = []) out \<and> length out = 1"
proof -
  let ?e = "NewEnforcer (Some (sample_limits [])) False 0 0 :: (bytes list, bytes list, nat) Enforcer"
  let ?rms = "[(sample_resource [sample_metric [2] [3]])\<lparr>rm_SchemaUrl := [8]\<rparr>]"
  have "\<exists>out e'. limits_Process (sample_env ModeExact) 0 ?e ?rms = Some (out, e') \<and> length out = 1"
    by (simp add: enforcer_eval sample_defs Let_def)
  then obtain out e' where p: "limits_Process (sample_env ModeExact) 0 ?e ?rms = Some (out, e')" "length out = 1" by blast
  have "e_config ?e \<noteq> None" by (simp add: NewEnforcer_def)
  from schema_urls_erased [OF this p(1)] show ?thesis using p by (auto simp: list_all_iff)
qed

end
