(* ===== verification/Go_Maps.thy ===== *)
theory Go_Maps
  imports Prelude "HOL-Library.AList"
begin

text \<open>
  Go maps with string keys as association lists: appending to the slices they hold, what they hold, and their keys;
  and the decimal form of \<open>fmt.Sprintf\<close>.
\<close>

section \<open>Operations\<close>

text \<open>Appending to the slice a map holds under a key.\<close>

definition append_at :: "gostring \<Rightarrow> 'x \<Rightarrow> (gostring \<times> 'x list) list \<Rightarrow> (gostring \<times> 'x list) list" where
  "append_at k x al = AList.update k ((case map_of al k of Some xs \<Rightarrow> xs | None \<Rightarrow> []) @ [x]) al"

text \<open>\<open>fmt.Sprintf("%d")\<close> of an unsigned number.\<close>

fun decimal :: "nat \<Rightarrow> gostring" where
  "decimal n = (if n < 10 then [word_of_int (48 + int n)] else decimal (n div 10) @ [word_of_int (48 + int n mod 10)])"

declare decimal.simps [simp del]

section \<open>Contents\<close>

text \<open>What an association list holds, tagged with the keys; updating an entry exchanges its part.\<close>

definition tagged :: "('x \<Rightarrow> 'y multiset) \<Rightarrow> (gostring \<times> 'x) list \<Rightarrow> (gostring \<times> 'y) multiset" where
  "tagged f al = sum_list (map (\<lambda>(k, x). image_mset (Pair k) (f x)) al)"

lemma tagged_Nil [simp]: "tagged f [] = {#}"
  by (simp add: tagged_def)

lemma tagged_update_grow:
  assumes "f x = (case map_of al k of Some y \<Rightarrow> f y | None \<Rightarrow> {#}) + d"
  shows "tagged f (AList.update k x al) = tagged f al + image_mset (Pair k) d"
  using assms by (induction al) (auto simp: tagged_def ac_simps split: if_splits)

lemma tagged_append_at: "tagged (\<lambda>xs. sum_list (map f xs)) (append_at k x al) = tagged (\<lambda>xs. sum_list (map f xs)) al + image_mset (Pair k) (f x)"
  unfolding append_at_def by (rule tagged_update_grow) (simp split: option.split)

lemma tagged_at:
  "distinct (map fst al) \<Longrightarrow> image_mset snd (filter_mset (\<lambda>(k, _). k = e) (tagged f al)) = (case map_of al e of Some x \<Rightarrow> f x | None \<Rightarrow> {#})"
proof (induction al)
  case (Cons y al)
  obtain k x where y: "y = (k, x)" by fastforce
  have other: "map_of al e = None" if "k = e" using Cons.prems y that by (auto simp: map_of_eq_None_iff)
  have "filter_mset (\<lambda>(k, _). k = e) (image_mset (Pair k) (f x)) = (if k = e then image_mset (Pair k) (f x) else {#})"
    by (auto simp: filter_mset_image_mset)
  then show ?case using Cons other by (auto simp: y tagged_def image_mset.compositionality o_def)
qed simp

lemma size_tagged: "size (tagged f al) = sum_list (map (\<lambda>(_, x). size (f x)) al)"
  by (induction al) (auto simp: tagged_def)

text \<open>Grouping the elements of a list by a key gives, under each key, the elements that have it, in order.\<close>

lemma map_of_append_at:
  "map_of (append_at k x al) e = (if e = k then Some ((case map_of al k of Some xs \<Rightarrow> xs | None \<Rightarrow> []) @ [x]) else map_of al e)"
  by (simp add: append_at_def update_conv')

lemma map_of_grouping_from:
  "map_of (foldl (\<lambda>al x. append_at (k x) (f x) al) al xs) e =
     (case (map_of al e, map f (filter (\<lambda>x. k x = e) xs)) of
        (None, []) \<Rightarrow> None | (None, ys) \<Rightarrow> Some ys | (Some zs, ys) \<Rightarrow> Some (zs @ ys))"
  by (induction xs arbitrary: al) (auto simp: map_of_append_at split: option.split list.split)

lemma map_of_grouping:
  "map_of (foldl (\<lambda>al x. append_at (k x) (f x) al) [] xs) e =
     (if \<exists>x \<in> set xs. k x = e then Some (map f (filter (\<lambda>x. k x = e) xs)) else None)"
  by (auto simp: map_of_grouping_from filter_empty_conv split: list.split)

lemma mset_append_at: "mset (concat (map snd (append_at k x al))) = add_mset x (mset (concat (map snd al)))"
proof -
  have "mset (concat (map snd (AList.update k ((case map_of al k of Some xs \<Rightarrow> xs | None \<Rightarrow> []) @ [x]) al))) = add_mset x (mset (concat (map snd al)))"
    by (induction al) auto
  then show ?thesis by (simp add: append_at_def)
qed

lemma mset_grouping: "mset (concat (map snd (foldl (\<lambda>al x. append_at (k x) (f x) al) al xs))) = mset (concat (map snd al)) + mset (map f xs)"
  by (induction xs arbitrary: al) (simp_all add: mset_append_at)

section \<open>Keys\<close>

definition keys_in :: "gostring set \<Rightarrow> (gostring \<times> 'x) list \<Rightarrow> bool" where
  "keys_in E al \<longleftrightarrow> distinct (map fst al) \<and> set (map fst al) \<subseteq> E"

lemma keys_in_Nil [simp]: "keys_in E []"
  by (simp add: keys_in_def)

lemma keys_in_update: "keys_in E al \<Longrightarrow> k \<in> E \<Longrightarrow> keys_in E (AList.update k v al)"
  by (auto simp: keys_in_def distinct_update update_keys)

lemma keys_in_foldl:
  "keys_in E al \<Longrightarrow> (\<And>al x. keys_in E al \<Longrightarrow> x \<in> set xs \<Longrightarrow> keys_in E (f al x)) \<Longrightarrow> keys_in E (foldl f al xs)"
  by (induction xs arbitrary: al) auto

lemma keys_in_mem: "keys_in E al \<Longrightarrow> (k, v) \<in> set al \<Longrightarrow> k \<in> E"
  by (force simp: keys_in_def)

end
