(* ===== verification/Relabel.thy ===== *)
theory Relabel
  imports Otlp_Types Shard_Key Go_Maps
begin

text \<open>
  Relabelling: \<open>internal/relabel/relabel.go\<close>. A label set is an association list with distinct keys; its order
  stands for the order in which Go happens to range over the map. A compiled regular expression is
  the predicate of the strings it matches with its \<open>ReplaceAllString\<close>; compiling, YAML, file access and SHA-256 are the
  parameter \<open>relabel_lib\<close>. \<open>actionLabelMap\<close> inserts into the map it ranges over, so which of the new keys it
  visits is up to the run time: the visited keys are the parameter \<open>rl_visit\<close>. The Prometheus counters
  are left out; the counter \<open>ops\<close> is the state of the relabeller.
\<close>

section \<open>Model\<close>

datatype RelabelAction = RelabelUnset | ActionReplace | ActionKeep | RelabelDrop | ActionLabelMap | ActionLabelDrop
  | ActionLabelKeep | ActionHashMod | RelabelOther gostring

record regexp =
  rx_MatchString :: "gostring \<Rightarrow> bool"
  rx_ReplaceAllString :: "gostring \<Rightarrow> gostring \<Rightarrow> gostring"

record RelabelConfig =
  SourceLabels :: "gostring list"
  Separator :: gostring
  Regex :: gostring
  TargetLabel :: gostring
  Replacement :: gostring
  rl_Action :: RelabelAction
  Modulus :: u64
  compiledRegex :: "regexp option"

record relabel_lib =
  rl_Compile :: "gostring \<Rightarrow> regexp option"
  rl_Unmarshal :: "bytes \<Rightarrow> RelabelConfig list option"
  rl_ReadFile :: "gostring \<Rightarrow> bytes option"
  rl_sha256 :: "bytes \<Rightarrow> bytes"
  rl_visit :: "gostring list \<Rightarrow> gostring list"

record Relabeler =
  configs :: "RelabelConfig list"
  ops :: int

datatype relabel_error = RelabelRead | RelabelParse | RelabelRegex nat gostring

definition compile_defaults :: "RelabelConfig \<Rightarrow> RelabelConfig" where
  "compile_defaults c =
     (let c = (if Separator c = [] then c\<lparr>Separator := gostr '';''\<rparr> else c);
          c = (if Regex c = [] then c\<lparr>Regex := gostr ''(.*)''\<rparr> else c);
          c = (if Replacement c = [] then c\<lparr>Replacement := gostr ''$1''\<rparr> else c)
      in if rl_Action c = RelabelUnset then c\<lparr>rl_Action := ActionReplace\<rparr> else c)"

fun compile_from :: "relabel_lib \<Rightarrow> nat \<Rightarrow> RelabelConfig list \<Rightarrow> (relabel_error, RelabelConfig list) outcome" where
  "compile_from lib i [] = Ok []"
| "compile_from lib i (c # cs) =
     (let c = compile_defaults c in
      case rl_Compile lib (gostr ''^(?:'' @ Regex c @ gostr '')$'') of
        None \<Rightarrow> Err (RelabelRegex i (Regex c))
      | Some re \<Rightarrow> bind_outcome (compile_from lib (i + 1) cs) (\<lambda>out. Ok (c\<lparr>compiledRegex := Some re\<rparr> # out)))"

definition compile :: "relabel_lib \<Rightarrow> RelabelConfig list \<Rightarrow> (relabel_error, RelabelConfig list) outcome" where
  "compile lib cs = compile_from lib 0 cs"

definition NewRelabeler :: "relabel_lib \<Rightarrow> RelabelConfig list \<Rightarrow> (relabel_error, Relabeler) outcome" where
  "NewRelabeler lib cs = bind_outcome (compile lib cs) (\<lambda>compiled. Ok \<lparr>configs = compiled, ops = 0\<rparr>)"

definition Parse :: "relabel_lib \<Rightarrow> bytes \<Rightarrow> (relabel_error, RelabelConfig list) outcome" where
  "Parse lib data = (case rl_Unmarshal lib data of None \<Rightarrow> Err RelabelParse | Some cs \<Rightarrow> compile lib cs)"

definition LoadFile :: "relabel_lib \<Rightarrow> gostring \<Rightarrow> (relabel_error, RelabelConfig list) outcome" where
  "LoadFile lib path = (case rl_ReadFile lib path of None \<Rightarrow> Err RelabelRead | Some data \<Rightarrow> Parse lib data)"

definition relabel_ReloadConfig :: "relabel_lib \<Rightarrow> Relabeler \<Rightarrow> RelabelConfig list \<Rightarrow> relabel_error option \<times> Relabeler" where
  "relabel_ReloadConfig lib r cs =
     (case compile lib cs of
        Ok compiled \<Rightarrow> (None, r\<lparr>configs := compiled\<rparr>)
      | Err e \<Rightarrow> (Some e, r)
      | Panic \<Rightarrow> (None, r))"

type_synonym labels = "(gostring \<times> gostring) list"

definition name_label :: gostring where
  "name_label = gostr ''__name__''"

definition attrsToLabels :: "gostring \<Rightarrow> KeyValue list \<Rightarrow> labels" where
  "attrsToLabels metricName attrs =
     foldl (\<lambda>m kv. AList.update (kv_Key kv) (GetStringValue (kv_Value kv)) m) [(name_label, metricName)] attrs"

definition labelsToAttrs :: "labels \<Rightarrow> KeyValue list" where
  "labelsToAttrs l = map (\<lambda>(k, v). \<lparr>kv_Key = k, kv_Value = Some (StringValue v)\<rparr>) l"

text \<open>A missing label reads as the empty string.\<close>

definition label_value :: "labels \<Rightarrow> gostring \<Rightarrow> gostring" where
  "label_value l n = (case map_of l n of Some v \<Rightarrow> v | None \<Rightarrow> [])"

definition sourceValue :: "RelabelConfig \<Rightarrow> labels \<Rightarrow> gostring" where
  "sourceValue c l = join_strings (Separator c) (map (label_value l) (SourceLabels c))"

text \<open>Rules that were not compiled have no expression; calling it panics, which compiled rules exclude.\<close>

definition matches :: "RelabelConfig \<Rightarrow> gostring \<Rightarrow> bool" where
  "matches c s = (case compiledRegex c of Some re \<Rightarrow> rx_MatchString re s | None \<Rightarrow> False)"

definition replaced :: "RelabelConfig \<Rightarrow> gostring \<Rightarrow> gostring" where
  "replaced c s = (case compiledRegex c of Some re \<Rightarrow> rx_ReplaceAllString re s (Replacement c) | None \<Rightarrow> s)"

definition actionReplace :: "RelabelConfig \<Rightarrow> labels \<Rightarrow> labels" where
  "actionReplace c l =
     (let val = sourceValue c l in
      if \<not> matches c val then l
      else if TargetLabel c \<noteq> [] then AList.update (TargetLabel c) (replaced c val) l
      else l)"

definition actionLabelMap :: "relabel_lib \<Rightarrow> RelabelConfig \<Rightarrow> labels \<Rightarrow> labels" where
  "actionLabelMap lib c l =
     foldl (\<lambda>l k. case map_of l k of
              None \<Rightarrow> l
            | Some v \<Rightarrow> if matches c k then AList.update (replaced c k) v l else l) l (rl_visit lib (map fst l))"

definition actionLabelDrop :: "RelabelConfig \<Rightarrow> labels \<Rightarrow> labels" where
  "actionLabelDrop c l = filter (\<lambda>(k, _). \<not> matches c k) l"

definition actionLabelKeep :: "RelabelConfig \<Rightarrow> labels \<Rightarrow> labels" where
  "actionLabelKeep c l = filter (\<lambda>(k, _). k = name_label \<or> matches c k) l"

definition hash_prefix :: "bytes \<Rightarrow> u64" where
  "hash_prefix hash = foldl (\<lambda>h b. (push_bit 8 h) OR ucast b) 0 (take 8 hash)"

definition actionHashMod :: "relabel_lib \<Rightarrow> RelabelConfig \<Rightarrow> labels \<Rightarrow> labels" where
  "actionHashMod lib c l =
     (if Modulus c = 0 then l
      else AList.update (TargetLabel c) (decimal (unat (hash_prefix (rl_sha256 lib (sourceValue c l)) mod Modulus c))) l)"

definition applyConfig :: "relabel_lib \<Rightarrow> RelabelConfig \<Rightarrow> labels \<Rightarrow> labels \<times> bool" where
  "applyConfig lib c l =
     (case rl_Action c of
        ActionReplace \<Rightarrow> (actionReplace c l, True)
      | ActionKeep \<Rightarrow> (l, matches c (sourceValue c l))
      | RelabelDrop \<Rightarrow> (l, \<not> matches c (sourceValue c l))
      | ActionLabelMap \<Rightarrow> (actionLabelMap lib c l, True)
      | ActionLabelDrop \<Rightarrow> (actionLabelDrop c l, True)
      | ActionLabelKeep \<Rightarrow> (actionLabelKeep c l, True)
      | ActionHashMod \<Rightarrow> (actionHashMod lib c l, True)
      | _ \<Rightarrow> (l, True))"

fun applyConfigs :: "relabel_lib \<Rightarrow> RelabelConfig list \<Rightarrow> labels \<Rightarrow> labels option" where
  "applyConfigs lib [] l = Some l"
| "applyConfigs lib (c # cs) l =
     (case applyConfig lib c l of (l, keep) \<Rightarrow> if \<not> keep then None else applyConfigs lib cs l)"

text \<open>The four copies of the loop over data points, with the counter of operations.\<close>

fun relabel_points :: "relabel_lib \<Rightarrow> RelabelConfig list \<Rightarrow> gostring \<Rightarrow> int \<Rightarrow> 'v DataPoint list \<Rightarrow> 'v DataPoint list \<times> int" where
  "relabel_points lib cs metricName n [] = ([], n)"
| "relabel_points lib cs metricName n (dp # dps) =
     (case relabel_points lib cs metricName (n + 1) dps of (result, n) \<Rightarrow>
        (case applyConfigs lib cs (attrsToLabels metricName (dp_Attributes dp)) of
           Some l \<Rightarrow> (dp\<lparr>dp_Attributes := labelsToAttrs l\<rparr> # result, n)
         | None \<Rightarrow> (result, n)))"

text \<open>
  The slice of a message without datapoints is nil, as the decoder leaves it; returned as it is, it is nil and the
  caller takes that for a metric whose datapoints were all dropped.
\<close>

definition relabelDataPoints :: "relabel_lib \<Rightarrow> RelabelConfig list \<Rightarrow> gostring \<Rightarrow> int \<Rightarrow> 'v DataPoint list \<Rightarrow> 'v DataPoint list option \<times> int" where
  "relabelDataPoints lib cs metricName n dps =
     (if length dps = 0 then (None, n)
      else case relabel_points lib cs metricName n dps of (result, n) \<Rightarrow> (if length result = 0 then None else Some result, n))"

definition extractName :: "gostring \<Rightarrow> KeyValue list \<Rightarrow> gostring" where
  "extractName originalName attrs =
     (case List.find (\<lambda>kv. kv_Key kv = name_label) attrs of
        Some kv \<Rightarrow> if GetStringValue (kv_Value kv) \<noteq> [] then GetStringValue (kv_Value kv) else originalName
      | None \<Rightarrow> originalName)"

definition relabelMetric :: "relabel_lib \<Rightarrow> RelabelConfig list \<Rightarrow> int \<Rightarrow> 'v Metric \<Rightarrow> 'v Metric option \<times> int" where
  "relabelMetric lib cs n m =
     (case m_Data m of
        Metric_NoData \<Rightarrow> (Some m, n)
      | _ \<Rightarrow>
          (case relabelDataPoints lib cs (m_Name m) n (data_points (m_Data m)) of
             (None, n) \<Rightarrow> (None, n)
           | (Some filtered, n) \<Rightarrow>
               let m = m\<lparr>m_Data := with_data_points (m_Data m) filtered\<rparr>
               in (Some (case filtered of dp # _ \<Rightarrow> m\<lparr>m_Name := extractName (m_Name m) (dp_Attributes dp)\<rparr> | [] \<Rightarrow> m), n)))"

text \<open>A loop that keeps the results that are there.\<close>

fun relabel_all :: "(int \<Rightarrow> 'a \<Rightarrow> 'b option \<times> int) \<Rightarrow> int \<Rightarrow> 'a list \<Rightarrow> 'b list \<times> int" where
  "relabel_all f n [] = ([], n)"
| "relabel_all f n (x # xs) =
     (case f n x of (y, n) \<Rightarrow> case relabel_all f n xs of (ys, n) \<Rightarrow> (case y of Some y \<Rightarrow> y # ys | None \<Rightarrow> ys, n))"

definition relabelScopeMetrics :: "relabel_lib \<Rightarrow> RelabelConfig list \<Rightarrow> int \<Rightarrow> 'v ScopeMetrics \<Rightarrow> 'v ScopeMetrics option \<times> int" where
  "relabelScopeMetrics lib cs n sm =
     (case relabel_all (relabelMetric lib cs) n (sm_Metrics sm) of (ms, n) \<Rightarrow>
        (if length ms = 0 then None else Some (sm\<lparr>sm_Metrics := ms\<rparr>), n))"

definition relabelResourceMetrics :: "relabel_lib \<Rightarrow> RelabelConfig list \<Rightarrow> int \<Rightarrow> 'v ResourceMetrics \<Rightarrow> 'v ResourceMetrics option \<times> int" where
  "relabelResourceMetrics lib cs n rm =
     (case relabel_all (relabelScopeMetrics lib cs) n (rm_ScopeMetrics rm) of (sms, n) \<Rightarrow>
        (if length sms = 0 then None else Some (rm\<lparr>rm_ScopeMetrics := sms\<rparr>), n))"

definition Relabel :: "relabel_lib \<Rightarrow> Relabeler \<Rightarrow> 'v ResourceMetrics list \<Rightarrow> 'v ResourceMetrics list \<times> Relabeler" where
  "Relabel lib r rms =
     (if length (configs r) = 0 \<or> length rms = 0 then (rms, r)
      else case relabel_all (relabelResourceMetrics lib (configs r)) (ops r) rms of (result, n) \<Rightarrow> (result, r\<lparr>ops := n\<rparr>))"

section \<open>Sharding with hashmod\<close>

lemma decimal_value: "dec_value (decimal n) = int n"
proof (induction n rule: decimal.induct)
  case (1 n)
  show ?case
  proof (cases "n < 10")
    case True
    then show ?thesis using digit_byte(1) [of "int n"] by (simp add: decimal.simps [of n] dec_value_def del: of_int_add)
  next
    case False
    have "dec_value (decimal n) = 10 * dec_value (decimal (n div 10)) + (int (unat (word_of_int (48 + int n mod 10) :: byte)) - 48)"
      using False by (subst decimal.simps) (simp add: dec_value_snoc del: of_int_add)
    also have "\<dots> = 10 * int (n div 10) + int n mod 10"
      using 1 False digit_byte(1) [of "int n mod 10"] by (simp del: of_int_add)
    finally show ?thesis by (simp add: zdiv_int)
  qed
qed

lemma decimal_inj: "decimal m = decimal n \<longleftrightarrow> m = n"
  using decimal_value by (metis of_nat_eq_iff)

lemma label_value_update: "label_value (AList.update k v l) n = (if n = k then v else label_value l n)"
  by (simp add: label_value_def update_conv')

text \<open>The rules of one shard: number the series, keep those with the number of the shard.\<close>

definition shard_rules :: "RelabelConfig \<Rightarrow> (nat \<Rightarrow> regexp) \<Rightarrow> nat \<Rightarrow> RelabelConfig list" where
  "shard_rules c re i =
     [c\<lparr>rl_Action := ActionHashMod\<rparr>,
      c\<lparr>rl_Action := ActionKeep, SourceLabels := [TargetLabel c], compiledRegex := Some (re i)\<rparr>]"

text \<open>
  hashmod shards series without loss or overlap. Let every shard number the series with the same hashmod
  rule and keep those whose number is its own, the expression of shard \<open>i\<close> matching the decimal of
  \<open>i\<close> only. Then every label set is kept by exactly one of the shards.
\<close>

theorem hashmod_partitions:
  assumes "Modulus c \<noteq> 0" "\<And>i s. rx_MatchString (re i) s = (s = decimal i)"
  shows "\<exists>!i. i < unat (Modulus c) \<and> applyConfigs lib (shard_rules c re i) l \<noteq> None"
proof -
  let ?h = "unat (hash_prefix (rl_sha256 lib (sourceValue c l)) mod Modulus c)"
  have source: "sourceValue (c\<lparr>rl_Action := a, compiledRegex := x\<rparr>) l = sourceValue c l" for a x by (simp add: sourceValue_def)
  have keep: "applyConfigs lib (shard_rules c re i) l \<noteq> None \<longleftrightarrow> ?h = i" for i
    using assms source [where a = ActionHashMod and x = "compiledRegex c"]
    by (simp add: shard_rules_def applyConfig_def actionHashMod_def matches_def sourceValue_def label_value_update decimal_inj)
  have "?h < unat (Modulus c)"
    using assms(1) by (simp add: unat_mod unat_gt_0)
  then show ?thesis unfolding keep by auto
qed

definition sample_relabel_lib :: relabel_lib where
  "sample_relabel_lib = \<lparr>rl_Compile = (\<lambda>_. Some \<lparr>rx_MatchString = (\<lambda>_. True), rx_ReplaceAllString = (\<lambda>s _. s)\<rparr>), rl_Unmarshal = (\<lambda>_. None),
     rl_ReadFile = (\<lambda>_. None), rl_sha256 = (\<lambda>s. replicate 32 (of_nat (length s))), rl_visit = (\<lambda>ks. ks)\<rparr>"

definition sample_relabel :: RelabelConfig where
  "sample_relabel = \<lparr>SourceLabels = [[1]], Separator = [59], Regex = [2], TargetLabel = [3], Replacement = [4], rl_Action = ActionKeep,
     Modulus = 3, compiledRegex = Some \<lparr>rx_MatchString = (\<lambda>_. True), rx_ReplaceAllString = (\<lambda>s _. s)\<rparr>\<rparr>"

theorem hashmod_partitions_witness:
  "\<exists>!i. i < 3 \<and> applyConfigs sample_relabel_lib
     (shard_rules sample_relabel (\<lambda>i. \<lparr>rx_MatchString = (\<lambda>s. s = decimal i), rx_ReplaceAllString = (\<lambda>s _. s)\<rparr>) i) [([1], [9, 9])] \<noteq> None"
  using hashmod_partitions [of sample_relabel "\<lambda>i. \<lparr>rx_MatchString = (\<lambda>s. s = decimal i), rx_ReplaceAllString = (\<lambda>s _. s)\<rparr>" sample_relabel_lib "[([1], [9, 9])]"]
  by (simp add: sample_relabel_def)

section \<open>What relabelling keeps\<close>

lemma relabel_points_eq:
  "relabel_points lib cs name n dps =
     (List.map_filter (\<lambda>dp. map_option (\<lambda>l. dp\<lparr>dp_Attributes := labelsToAttrs l\<rparr>)
        (applyConfigs lib cs (attrsToLabels name (dp_Attributes dp)))) dps, n + int (length dps))"
  by (induction dps arbitrary: n) (simp_all add: List.map_filter_def split: option.split)

definition kept_values :: "relabel_lib \<Rightarrow> RelabelConfig list \<Rightarrow> 'v Metric \<Rightarrow> 'v list" where
  "kept_values lib cs m =
     map dp_rest (filter (\<lambda>dp. applyConfigs lib cs (attrsToLabels (m_Name m) (dp_Attributes dp)) \<noteq> None) (metric_points m))"

definition optional_values :: "('b \<Rightarrow> 'c list) \<Rightarrow> 'b option \<Rightarrow> 'c list" where
  "optional_values f y = (case y of Some y \<Rightarrow> f y | None \<Rightarrow> [])"

lemma map_filter_values:
  "map dp_rest (List.map_filter (\<lambda>dp. map_option (\<lambda>l. dp\<lparr>dp_Attributes := f l\<rparr>) (g dp)) dps) = map dp_rest (filter (\<lambda>dp. g dp \<noteq> None) dps)"
  by (induction dps) (auto simp: List.map_filter_def)

lemma relabelMetric_spec:
  "optional_values metric_values (fst (relabelMetric lib cs n m)) = kept_values lib cs m
   \<and> snd (relabelMetric lib cs n m) = n + int (length (metric_points m))"
proof (cases "m_Data m = Metric_NoData")
  case True
  then show ?thesis by (simp add: relabelMetric_def optional_values_def metric_values_def kept_values_def metric_points_def)
next
  case False
  let ?dps = "metric_points m"
  define kept where "kept = List.map_filter (\<lambda>dp. map_option (\<lambda>l. dp\<lparr>dp_Attributes := labelsToAttrs l\<rparr>)
        (applyConfigs lib cs (attrsToLabels (m_Name m) (dp_Attributes dp)))) ?dps"
  have r: "relabelDataPoints lib cs (m_Name m) n ?dps =
      (if ?dps = [] then (None, n) else (if kept = [] then None else Some kept, n + int (length ?dps)))"
    by (simp add: relabelDataPoints_def relabel_points_eq kept_def)
  have eq: "relabelMetric lib cs n m =
      (case relabelDataPoints lib cs (m_Name m) n ?dps of
             (None, n) \<Rightarrow> (None, n)
           | (Some filtered, n) \<Rightarrow>
               let m = m\<lparr>m_Data := with_data_points (m_Data m) filtered\<rparr>
               in (Some (case filtered of dp # _ \<Rightarrow> m\<lparr>m_Name := extractName (m_Name m) (dp_Attributes dp)\<rparr> | [] \<Rightarrow> m), n))"
    using False by (cases "m_Data m") (simp_all add: relabelMetric_def metric_points_def)
  have kv: "kept_values lib cs m = map dp_rest kept" by (simp add: kept_values_def kept_def map_filter_values)
  have v: "metric_values (m\<lparr>m_Data := with_data_points (m_Data m) xs\<rparr>) = map dp_rest xs"
    "metric_values (m\<lparr>m_Data := with_data_points (m_Data m) xs, m_Name := x\<rparr>) = map dp_rest xs" for xs x
    using False by (simp_all add: metric_values_def metric_points_def)
  have e: "?dps = [] \<Longrightarrow> kept = []" by (simp add: kept_def List.map_filter_def)
  show ?thesis
    unfolding eq r kv by (cases "?dps = []"; cases kept) (simp_all add: optional_values_def v e)
qed

text \<open>The loops hand on what their bodies do.\<close>

lemma relabel_all_spec:
  assumes "\<And>n x. optional_values vals' (fst (f n x)) = vals x \<and> snd (f n x) = n + cnt x"
  shows "concat (map vals' (fst (relabel_all f n xs))) = concat (map vals xs) \<and> snd (relabel_all f n xs) = n + sum_list (map cnt xs)"
proof (induction xs arbitrary: n)
  case (Cons x xs)
  show ?case
    using assms [of n x] Cons.IH [of "n + cnt x"]
    by (cases "fst (f n x)") (auto simp: split_beta optional_values_def)
qed simp

lemma relabelScopeMetrics_spec:
  "optional_values scope_values (fst (relabelScopeMetrics lib cs n sm)) = concat (map (kept_values lib cs) (sm_Metrics sm))
   \<and> snd (relabelScopeMetrics lib cs n sm) = n + sum_list (map (\<lambda>m. int (length (metric_points m))) (sm_Metrics sm))"
  using relabel_all_spec [where f = "relabelMetric lib cs", OF relabelMetric_spec, where n = n and xs = "sm_Metrics sm"]
  by (auto simp: relabelScopeMetrics_def split_beta optional_values_def scope_values_def)

lemma relabelResourceMetrics_spec:
  "optional_values resource_values (fst (relabelResourceMetrics lib cs n rm))
     = concat (map (\<lambda>sm. concat (map (kept_values lib cs) (sm_Metrics sm))) (rm_ScopeMetrics rm))
   \<and> snd (relabelResourceMetrics lib cs n rm)
     = n + sum_list (map (\<lambda>sm. sum_list (map (\<lambda>m. int (length (metric_points m))) (sm_Metrics sm))) (rm_ScopeMetrics rm))"
  using relabel_all_spec [where f = "relabelScopeMetrics lib cs", OF relabelScopeMetrics_spec, where n = n and xs = "rm_ScopeMetrics rm"]
  by (auto simp: relabelResourceMetrics_def split_beta optional_values_def resource_values_def)

definition all_metrics :: "'v ResourceMetrics list \<Rightarrow> 'v Metric list" where
  "all_metrics rms = concat (map (\<lambda>rm. concat (map sm_Metrics (rm_ScopeMetrics rm))) rms)"

lemma concat_scopes: "concat (map (\<lambda>sm. concat (map f (sm_Metrics sm))) sms) = concat (map f (concat (map sm_Metrics sms)))"
  by (induction sms) simp_all

lemma sum_scopes: "sum_list (map (\<lambda>sm. sum_list (map g (sm_Metrics sm))) sms) = sum_list (map g (concat (map sm_Metrics sms)))"
  for g :: "'v Metric \<Rightarrow> int"
  by (induction sms) simp_all


definition relabel_point :: "AnyValue \<Rightarrow> nat DataPoint" where
  "relabel_point v = \<lparr>dp_Attributes = [\<lparr>kv_Key = [1], kv_Value = Some v\<rparr>], dp_rest = 42\<rparr>"

definition relabel_sample :: "AnyValue \<Rightarrow> nat ResourceMetrics list" where
  "relabel_sample v = [\<lparr>rm_Resource = None, rm_ScopeMetrics = [\<lparr>sm_Scope = None, sm_Metrics = [\<lparr>m_Name = [8], m_Description = [], m_Unit = [], m_Metadata = [],
     m_Data = Metric_Gauge [relabel_point v]\<rparr>], sm_SchemaUrl = []\<rparr>], rm_SchemaUrl = []\<rparr>]"


section \<open>Compiled rules\<close>

lemma compile_defaults_idem: "compile_defaults (compile_defaults c) = compile_defaults c"
  by (auto simp: compile_defaults_def Let_def gostr_def)

lemma compile_defaults_regex: "compile_defaults (c\<lparr>compiledRegex := x\<rparr>) = (compile_defaults c)\<lparr>compiledRegex := x\<rparr>"
  by (auto simp: compile_defaults_def Let_def)

lemma compile_from_Ok:
  "compile_from lib i cs = Ok cs' \<Longrightarrow> compile_from lib j cs' = Ok cs' \<and> list_all (\<lambda>c. compiledRegex c \<noteq> None \<and> rl_Action c \<noteq> RelabelUnset) cs'"
proof (induction cs arbitrary: i j cs')
  case (Cons c cs)
  obtain re out where re: "rl_Compile lib (gostr ''^(?:'' @ Regex (compile_defaults c) @ gostr '')$'') = Some re"
    and out: "compile_from lib (i + 1) cs = Ok out" and cs': "cs' = (compile_defaults c)\<lparr>compiledRegex := Some re\<rparr> # out"
    using Cons.prems by (auto simp: Let_def split: option.splits)
  have "compile_defaults ((compile_defaults c)\<lparr>compiledRegex := Some re\<rparr>) = (compile_defaults c)\<lparr>compiledRegex := Some re\<rparr>"
    by (simp add: compile_defaults_regex compile_defaults_idem)
  moreover have "rl_Action (compile_defaults c) \<noteq> RelabelUnset" by (simp add: compile_defaults_def Let_def)
  ultimately show ?case using re Cons.IH [OF out, of "j + 1"] by (simp add: cs')
qed simp

text \<open>
  compiling is idempotent: the rules that \<open>LoadFile\<close> compiled go through \<open>New\<close>, which compiles them
  again, unchanged; and every rule of a relabeller has an action and an expression.
\<close>

theorem compile_idempotent:
  assumes "LoadFile lib path = Ok cs"
  shows "NewRelabeler lib cs = Ok \<lparr>configs = cs, ops = 0\<rparr> \<and> list_all (\<lambda>c. compiledRegex c \<noteq> None \<and> rl_Action c \<noteq> RelabelUnset) cs"
proof -
  obtain cs0 where "compile_from lib 0 cs0 = Ok cs"
    using assms by (auto simp: LoadFile_def Parse_def compile_def split: option.splits)
  from compile_from_Ok [OF this, of 0] show ?thesis by (simp add: NewRelabeler_def compile_def)
qed

theorem compile_idempotent_witness:
  "case LoadFile (sample_relabel_lib\<lparr>rl_ReadFile := (\<lambda>_. Some []), rl_Unmarshal := (\<lambda>_. Some [sample_relabel\<lparr>Separator := [], compiledRegex := None\<rparr>])\<rparr>) [] of
     Ok cs \<Rightarrow> NewRelabeler (sample_relabel_lib\<lparr>rl_ReadFile := (\<lambda>_. Some []), rl_Unmarshal := (\<lambda>_. Some [sample_relabel\<lparr>Separator := [], compiledRegex := None\<rparr>])\<rparr>) cs
       = Ok \<lparr>configs = cs, ops = 0\<rparr>
   | _ \<Rightarrow> False"
proof -
  let ?lib = "sample_relabel_lib\<lparr>rl_ReadFile := (\<lambda>_. Some []), rl_Unmarshal := (\<lambda>_. Some [sample_relabel\<lparr>Separator := [], compiledRegex := None\<rparr>])\<rparr>"
  have "\<exists>cs. LoadFile ?lib [] = Ok cs"
    by (simp add: LoadFile_def Parse_def compile_def sample_relabel_lib_def)
  then obtain cs where "LoadFile ?lib [] = Ok cs" by blast
  with compile_idempotent [OF this] show ?thesis by simp
qed

section \<open>What relabelling does to attributes\<close>

lemma map_of_attrsToLabels_snoc:
  "map_of (attrsToLabels name (attrs @ [kv])) = (map_of (attrsToLabels name attrs))(kv_Key kv \<mapsto> GetStringValue (kv_Value kv))"
  by (simp add: attrsToLabels_def update_conv')

lemma map_of_attrsToLabels:
  assumes "distinct (map kv_Key attrs)" "kv \<in> set attrs"
  shows "map_of (attrsToLabels name attrs) (kv_Key kv) = Some (GetStringValue (kv_Value kv))"
  using assms
proof (induction attrs rule: rev_induct)
  case (snoc x attrs)
  then show ?case by (cases "kv = x") (auto simp: map_of_attrsToLabels_snoc rev_image_eqI)
qed simp

lemma attrsToLabels_name: "name_label \<notin> set (map kv_Key attrs) \<Longrightarrow> map_of (attrsToLabels name attrs) name_label = Some name"
  by (induction attrs rule: rev_induct) (simp_all add: map_of_attrsToLabels_snoc, simp add: attrsToLabels_def)

definition filter_rules :: "RelabelConfig list \<Rightarrow> bool" where
  "filter_rules cs = list_all (\<lambda>c. rl_Action c = ActionKeep \<or> rl_Action c = RelabelDrop) cs"

lemma applyConfigs_filter: "filter_rules cs \<Longrightarrow> applyConfigs lib cs l = Some l' \<Longrightarrow> l' = l"
  by (induction cs) (auto simp: filter_rules_def applyConfig_def split: if_splits)

text \<open>
  relabelling with rules that only keep or drop still rewrites the attributes of every datapoint it keeps:
  the metric name is added as the attribute \<open>__name__\<close>, and every value that is not a string, such
  as a number or a boolean, becomes the empty string.
\<close>

theorem relabel_rewrites_attributes:
  assumes "filter_rules cs" "distinct (map kv_Key (dp_Attributes dp))" "name_label \<notin> set (map kv_Key (dp_Attributes dp))"
    and "fst (relabel_points lib cs name n [dp]) = [dp']"
  shows "\<lparr>kv_Key = name_label, kv_Value = Some (StringValue name)\<rparr> \<in> set (dp_Attributes dp')
    \<and> (\<forall>kv \<in> set (dp_Attributes dp). \<lparr>kv_Key = kv_Key kv, kv_Value = Some (StringValue (GetStringValue (kv_Value kv)))\<rparr> \<in> set (dp_Attributes dp'))
    \<and> dp_rest dp' = dp_rest dp"
proof -
  let ?l = "attrsToLabels name (dp_Attributes dp)"
  obtain l where "applyConfigs lib cs ?l = Some l" "dp' = dp\<lparr>dp_Attributes := labelsToAttrs l\<rparr>"
    using assms(4) by (auto split: option.splits)
  then have dp': "dp' = dp\<lparr>dp_Attributes := labelsToAttrs ?l\<rparr>" using applyConfigs_filter [OF assms(1)] by metis
  have mem: "\<lparr>kv_Key = k, kv_Value = Some (StringValue v)\<rparr> \<in> set (labelsToAttrs ?l)" if "map_of ?l k = Some v" for k v
    using map_of_SomeD [OF that] by (auto simp: labelsToAttrs_def)
  show ?thesis
    using mem [OF attrsToLabels_name [OF assms(3)]] mem [OF map_of_attrsToLabels [OF assms(2)]] by (simp add: dp')
qed

theorem relabel_rewrites_attributes_witness:
  "\<lparr>kv_Key = [1], kv_Value = Some (StringValue [])\<rparr> \<in> set (dp_Attributes (hd (fst (relabel_points sample_relabel_lib [sample_relabel] [8] 0 [relabel_point (IntValue 5)]))))"
proof -
  let ?dp = "relabel_point (IntValue 5)"
  have "\<exists>dp'. fst (relabel_points sample_relabel_lib [sample_relabel] [8] 0 [?dp]) = [dp']"
    by (simp add: applyConfig_def sample_relabel_def matches_def)
  then obtain dp' where dp': "fst (relabel_points sample_relabel_lib [sample_relabel] [8] 0 [?dp]) = [dp']" by blast
  have f: "filter_rules [sample_relabel]" "distinct (map kv_Key (dp_Attributes ?dp))" "name_label \<notin> set (map kv_Key (dp_Attributes ?dp))"
    by (simp_all add: filter_rules_def sample_relabel_def relabel_point_def name_label_def gostr_def)
  have "\<lparr>kv_Key = [1], kv_Value = Some (IntValue 5)\<rparr> \<in> set (dp_Attributes ?dp)" by (simp add: relabel_point_def)
  with relabel_rewrites_attributes [OF f dp'] have "\<lparr>kv_Key = [1], kv_Value = Some (StringValue [])\<rparr> \<in> set (dp_Attributes dp')"
    by (fastforce simp: GetStringValue_def)
  then show ?thesis unfolding dp' by simp
qed

end
