(* ===== verification/Otlp_Splitter.thy ===== *)
theory Otlp_Splitter
  imports Otlp_Types Shard_Key Hash_Ring Go_Maps
begin

text \<open>
  The OTLP splitter: \<open>internal/sharding/splitter.go\<close>. Every datapoint goes to the endpoint of its own shard
  key; resources, scopes and metrics are rebuilt per endpoint. Go maps are association lists; the code
  ranges over them in some order, and what an endpoint gets does not depend on it. The buffer inside the key builder is reset
  by every call, so it is not threaded through. \<open>floatToString\<close> and the hash are parameters.
\<close>

section \<open>Model\<close>

record MetricsSplitter =
  ms_keyBuilder :: ShardKeyBuilder
  ms_hashRing :: HashRing

definition NewMetricsSplitter :: "ShardKeyBuilder \<Rightarrow> HashRing \<Rightarrow> MetricsSplitter" where
  "NewMetricsSplitter kb r = \<lparr>ms_keyBuilder = kb, ms_hashRing = r\<rparr>"

text \<open>\<open>ExtractAttributes\<close> always returns (\<open>extract_ok\<close> below).\<close>

definition attrs_of :: "(f64 \<Rightarrow> gostring) \<Rightarrow> KeyValue list \<Rightarrow> gostring \<rightharpoonup> gostring" where
  "attrs_of fts kvs = (case ExtractAttributes fts (map Some kvs) :: (unit, _) outcome of Ok a \<Rightarrow> a | _ \<Rightarrow> Map.empty)"

definition point_endpoint :: "(gostring \<Rightarrow> u64) \<Rightarrow> (f64 \<Rightarrow> gostring) \<Rightarrow> MetricsSplitter \<Rightarrow> gostring \<Rightarrow> (gostring \<rightharpoonup> gostring) \<Rightarrow> 'v DataPoint \<Rightarrow> gostring" where
  "point_endpoint hash fts s metricName resourceAttrs dp =
     (let dpAttrs = attrs_of fts (dp_Attributes dp);
          merged = MergeAttributes [resourceAttrs, dpAttrs];
          shardKey = fst (BuildKey (ms_keyBuilder s) metricName merged)
      in GetEndpoint hash (ms_hashRing s) shardKey)"

definition group_points :: "('v DataPoint \<Rightarrow> gostring) \<Rightarrow> 'v DataPoint list \<Rightarrow> (gostring \<times> 'v DataPoint list) list" where
  "group_points route dps = foldl (\<lambda>groups dp. append_at (route dp) dp groups) [] dps"

definition copyResource :: "Resource option \<Rightarrow> Resource option" where
  "copyResource r = map_option (\<lambda>r. \<lparr>res_Attributes = res_Attributes r, res_DroppedAttributesCount = res_DroppedAttributesCount r\<rparr>) r"

definition copyScope :: "InstrumentationScope option \<Rightarrow> InstrumentationScope option" where
  "copyScope s = map_option (\<lambda>s. \<lparr>scope_Name = scope_Name s, scope_Version = scope_Version s, scope_Attributes = scope_Attributes s,
     scope_DroppedAttributesCount = scope_DroppedAttributesCount s\<rparr>) s"

fun scopesMatch :: "InstrumentationScope option \<Rightarrow> InstrumentationScope option \<Rightarrow> bool" where
  "scopesMatch None None = True"
| "scopesMatch (Some a) (Some b) = (scope_Name a = scope_Name b \<and> scope_Version a = scope_Version b)"
| "scopesMatch _ _ = False"

text \<open>
  \<open>getOrCreateScopeMetrics\<close>, which returns a pointer into the resource, with the append through it: the
  metric goes to the first scope that matches, or to a new one at the end.
\<close>

fun add_to_scope :: "InstrumentationScope option \<Rightarrow> gostring \<Rightarrow> 'v Metric \<Rightarrow> 'v ScopeMetrics list \<Rightarrow> 'v ScopeMetrics list" where
  "add_to_scope scope schemaUrl m [] = [\<lparr>sm_Scope = copyScope scope, sm_Metrics = [m], sm_SchemaUrl = schemaUrl\<rparr>]"
| "add_to_scope scope schemaUrl m (sm # sms) =
     (if scopesMatch (sm_Scope sm) scope \<and> sm_SchemaUrl sm = schemaUrl then sm\<lparr>sm_Metrics := sm_Metrics sm @ [m]\<rparr> # sms
      else sm # add_to_scope scope schemaUrl m sms)"

definition getOrCreateScopeMetrics :: "gostring \<Rightarrow> Resource option \<Rightarrow> InstrumentationScope option \<Rightarrow> gostring \<Rightarrow> 'v Metric
    \<Rightarrow> (gostring \<times> 'v ResourceMetrics) list \<Rightarrow> (gostring \<times> 'v ResourceMetrics) list" where
  "getOrCreateScopeMetrics endpoint resource scope schemaUrl m endpointToRM =
     (let rm = (case map_of endpointToRM endpoint of
                  Some rm \<Rightarrow> rm
                | None \<Rightarrow> \<lparr>rm_Resource = copyResource resource, rm_ScopeMetrics = [], rm_SchemaUrl = []\<rparr>)
      in AList.update endpoint (rm\<lparr>rm_ScopeMetrics := add_to_scope scope schemaUrl m (rm_ScopeMetrics rm)\<rparr>) endpointToRM)"

text \<open>The five functions \<open>splitGauge\<close> to \<open>splitSummary\<close>, which differ in the kind of the data only.\<close>

definition splitMetric :: "(gostring \<Rightarrow> u64) \<Rightarrow> (f64 \<Rightarrow> gostring) \<Rightarrow> MetricsSplitter \<Rightarrow> 'v Metric \<Rightarrow> (gostring \<rightharpoonup> gostring) \<Rightarrow> Resource option
    \<Rightarrow> InstrumentationScope option \<Rightarrow> gostring \<Rightarrow> (gostring \<times> 'v ResourceMetrics) list \<Rightarrow> (gostring \<times> 'v ResourceMetrics) list" where
  "splitMetric hash fts s metric resourceAttrs resource scope schemaUrl endpointToRM =
     foldl (\<lambda>endpointToRM (endpoint, datapoints).
              getOrCreateScopeMetrics endpoint resource scope schemaUrl
                \<lparr>m_Name = m_Name metric, m_Description = m_Description metric, m_Unit = m_Unit metric, m_Metadata = m_Metadata metric,
                 m_Data = with_data_points (m_Data metric) datapoints\<rparr> endpointToRM)
       endpointToRM (group_points (point_endpoint hash fts s (m_Name metric) resourceAttrs) (data_points (m_Data metric)))"

definition split_resource :: "(gostring \<Rightarrow> u64) \<Rightarrow> (f64 \<Rightarrow> gostring) \<Rightarrow> MetricsSplitter \<Rightarrow> 'v ResourceMetrics \<Rightarrow> (gostring \<times> 'v ResourceMetrics) list" where
  "split_resource hash fts s rm =
     (let resourceAttrs = attrs_of fts (case rm_Resource rm of Some r \<Rightarrow> res_Attributes r | None \<Rightarrow> [])
      in foldl (\<lambda>endpointToRM sm.
           foldl (\<lambda>endpointToRM metric. splitMetric hash fts s metric resourceAttrs (rm_Resource rm) (sm_Scope sm) (sm_SchemaUrl sm) endpointToRM)
             endpointToRM (sm_Metrics sm)) [] (rm_ScopeMetrics rm))"

definition otlp_Split :: "(gostring \<Rightarrow> u64) \<Rightarrow> (f64 \<Rightarrow> gostring) \<Rightarrow> MetricsSplitter \<Rightarrow> 'v ResourceMetrics list \<Rightarrow> (gostring \<times> 'v ResourceMetrics list) list option" where
  "otlp_Split hash fts s rms =
     (if length rms = 0 \<or> IsEmpty (ms_hashRing s) then None
      else Some (foldl (\<lambda>result rm. foldl (\<lambda>result (endpoint, splitRM). append_at endpoint splitRM result) result (split_resource hash fts s rm)) [] rms))"

definition CountDatapoints :: "'v ResourceMetrics list \<Rightarrow> nat" where
  "CountDatapoints rms = sum_list (map (\<lambda>rm. sum_list (map (\<lambda>sm. sum_list (map (\<lambda>m. length (data_points (m_Data m))) (sm_Metrics sm))) (rm_ScopeMetrics rm))) rms)"

section \<open>Shard keys exist\<close>

lemma attr_value_ok: "\<exists>v. attr_value fts kv = Ok v"
proof -
  have "\<exists>s. intToString i = Ok s" for i using intToString_parse by blast
  then show ?thesis by (auto simp: attr_value_def split: option.split AnyValue.split)
qed

lemma extract_ok: "\<exists>a. ExtractAttributes fts attrs = (Ok a :: ('e, _) outcome)"
proof -
  have "\<exists>a. foldl (\<lambda>acc attr. bind_outcome acc (\<lambda>result.
             case attr of
               None \<Rightarrow> Ok result
             | Some a \<Rightarrow>
                 if kv_Key a = [] then Ok result
                 else bind_outcome (attr_value fts a) (\<lambda>value.
                   Ok (if value \<noteq> [] then result(kv_Key a \<mapsto> value) else result)))) (Ok m) attrs = (Ok a :: ('e, _) outcome)" for m
  proof (induction attrs arbitrary: m)
    case (Cons x attrs)
    show ?case
    proof (cases x)
      case (Some kv)
      obtain v where v: "attr_value fts kv = (Ok v :: ('e, _) outcome)" using attr_value_ok by blast
      show ?thesis using Cons.IH by (simp add: Some v)
    qed (use Cons.IH in simp)
  qed simp
  then show ?thesis by (simp add: ExtractAttributes_def)
qed

section \<open>Conservation\<close>

lemma mset_as_sum: "mset xs = sum_list (map (\<lambda>x. {#x#}) xs)"
  by (induction xs) simp_all

lemma tagged_group_points: "tagged mset (group_points route dps) = mset (map (\<lambda>dp. (route dp, dp)) dps)"
proof -
  have "tagged mset (foldl (\<lambda>groups dp. append_at (route dp) dp groups) al dps) = tagged mset al + mset (map (\<lambda>dp. (route dp, dp)) dps)" for al
  proof (induction dps arbitrary: al)
    case (Cons dp dps)
    have "tagged mset (append_at (route dp) dp al) = tagged mset al + {#(route dp, dp)#}"
      using tagged_append_at [of "\<lambda>x. {#x#}" "route dp" dp al] by (simp flip: mset_as_sum)
    then show ?case by (simp add: Cons.IH)
  qed simp
  then show ?thesis by (simp add: group_points_def)
qed

text \<open>The datapoints of a message with the names of their metrics and their resource.\<close>

definition metric_entries :: "'v Metric \<Rightarrow> (gostring \<times> 'v DataPoint) multiset" where
  "metric_entries m = image_mset (Pair (m_Name m)) (mset (data_points (m_Data m)))"

definition scopes_entries :: "'v ScopeMetrics list \<Rightarrow> (gostring \<times> 'v DataPoint) multiset" where
  "scopes_entries sms = sum_list (map (\<lambda>sm. sum_list (map metric_entries (sm_Metrics sm))) sms)"

definition resource_entries :: "'v ResourceMetrics \<Rightarrow> (Resource option \<times> gostring \<times> 'v DataPoint) multiset" where
  "resource_entries rm = image_mset (Pair (rm_Resource rm)) (scopes_entries (rm_ScopeMetrics rm))"

lemma add_to_scope_entries: "scopes_entries (add_to_scope scope url m sms) = scopes_entries sms + metric_entries m"
  by (induction sms) (auto simp: scopes_entries_def ac_simps)

lemma copyResource_id [simp]: "copyResource r = r"
  by (cases r) (simp_all add: copyResource_def)

definition same_resource :: "Resource option \<Rightarrow> (gostring \<times> 'v ResourceMetrics) list \<Rightarrow> bool" where
  "same_resource res al \<longleftrightarrow> (\<forall>k rm. map_of al k = Some rm \<longrightarrow> rm_Resource rm = res)"

lemma getOrCreate_entries:
  assumes "same_resource res al"
  shows "tagged resource_entries (getOrCreateScopeMetrics e res scope url m al)
       = tagged resource_entries al + image_mset (Pair e) (image_mset (Pair res) (metric_entries m))"
    "same_resource res (getOrCreateScopeMetrics e res scope url m al)"
proof -
  let ?rm = "case map_of al e of Some rm \<Rightarrow> rm | None \<Rightarrow> \<lparr>rm_Resource = copyResource res, rm_ScopeMetrics = [], rm_SchemaUrl = []\<rparr>"
  have r: "rm_Resource ?rm = res" using assms by (auto simp: same_resource_def split: option.split)
  have "resource_entries (?rm\<lparr>rm_ScopeMetrics := add_to_scope scope url m (rm_ScopeMetrics ?rm)\<rparr>)
      = resource_entries ?rm + image_mset (Pair res) (metric_entries m)"
    using r by (simp add: resource_entries_def add_to_scope_entries)
  moreover have "resource_entries ?rm = (case map_of al e of Some rm \<Rightarrow> resource_entries rm | None \<Rightarrow> {#})"
    by (auto simp: resource_entries_def scopes_entries_def split: option.split)
  ultimately show "tagged resource_entries (getOrCreateScopeMetrics e res scope url m al)
       = tagged resource_entries al + image_mset (Pair e) (image_mset (Pair res) (metric_entries m))"
    unfolding getOrCreateScopeMetrics_def Let_def by (intro tagged_update_grow) simp
  show "same_resource res (getOrCreateScopeMetrics e res scope url m al)"
    using assms r by (auto simp: same_resource_def getOrCreateScopeMetrics_def Let_def update_conv')
qed

text \<open>Where a datapoint of a resource goes.\<close>

definition entry_endpoint :: "(gostring \<Rightarrow> u64) \<Rightarrow> (f64 \<Rightarrow> gostring) \<Rightarrow> MetricsSplitter \<Rightarrow> Resource option \<times> gostring \<times> 'v DataPoint \<Rightarrow> gostring" where
  "entry_endpoint hash fts s = (\<lambda>(res, name, dp).
     point_endpoint hash fts s name (attrs_of fts (case res of Some r \<Rightarrow> res_Attributes r | None \<Rightarrow> [])) dp)"

abbreviation sent :: "(gostring \<Rightarrow> u64) \<Rightarrow> (f64 \<Rightarrow> gostring) \<Rightarrow> MetricsSplitter \<Rightarrow> (Resource option \<times> gostring \<times> 'v DataPoint) multiset
    \<Rightarrow> (gostring \<times> Resource option \<times> gostring \<times> 'v DataPoint) multiset" where
  "sent hash fts s M \<equiv> image_mset (\<lambda>x. (entry_endpoint hash fts s x, x)) M"

lemma splitMetric_entries:
  assumes "same_resource res al" "ra = attrs_of fts (case res of Some r \<Rightarrow> res_Attributes r | None \<Rightarrow> [])"
  shows "tagged resource_entries (splitMetric hash fts s m ra res scope url al)
       = tagged resource_entries al + sent hash fts s (image_mset (Pair res) (metric_entries m))"
    "same_resource res (splitMetric hash fts s m ra res scope url al)"
proof -
  let ?route = "point_endpoint hash fts s (m_Name m) ra"
  let ?mk = "\<lambda>dps. \<lparr>m_Name = m_Name m, m_Description = m_Description m, m_Unit = m_Unit m, m_Metadata = m_Metadata m,
                 m_Data = with_data_points (m_Data m) dps\<rparr>"
  let ?add = "\<lambda>al (e, dps). getOrCreateScopeMetrics e res scope url (?mk dps) al"
  have mk: "metric_entries (?mk dps) = image_mset (Pair (m_Name m)) (mset dps)" if "m_Data m \<noteq> Metric_NoData" for dps
    using that by (simp add: metric_entries_def)
  have step: "tagged resource_entries (foldl ?add al gs)
      = tagged resource_entries al + image_mset (\<lambda>(e, dp). (e, res, m_Name m, dp)) (tagged mset gs) \<and> same_resource res (foldl ?add al gs)"
    if "same_resource res al" "gs = [] \<or> m_Data m \<noteq> Metric_NoData" for gs al
    using that
  proof (induction gs arbitrary: al)
    case (Cons g gs)
    obtain e dps where g: "g = (e, dps)" by fastforce
    note add = getOrCreate_entries [OF Cons.prems(1), of e scope url "?mk dps"]
    have "image_mset (\<lambda>(e, dp). (e, res, m_Name m, dp)) (tagged mset (g # gs))
        = image_mset (Pair e) (image_mset (Pair res) (metric_entries (?mk dps))) + image_mset (\<lambda>(e, dp). (e, res, m_Name m, dp)) (tagged mset gs)"
      using Cons.prems(2) by (simp add: g tagged_def mk image_mset.compositionality o_def)
    then show ?case using Cons.IH [OF add(2)] Cons.prems(2) add(1) by (simp add: g ac_simps)
  qed (simp)
  have gs: "group_points ?route (data_points (m_Data m)) = [] \<or> m_Data m \<noteq> Metric_NoData"
    by (cases "m_Data m") (simp_all add: group_points_def)
  have "image_mset (\<lambda>(e, dp). (e, res, m_Name m, dp)) (tagged mset (group_points ?route (data_points (m_Data m))))
      = sent hash fts s (image_mset (Pair res) (metric_entries m))"
    by (simp add: tagged_group_points metric_entries_def entry_endpoint_def assms(2) image_mset.compositionality o_def flip: mset_map)
  then show "tagged resource_entries (splitMetric hash fts s m ra res scope url al)
       = tagged resource_entries al + sent hash fts s (image_mset (Pair res) (metric_entries m))"
    "same_resource res (splitMetric hash fts s m ra res scope url al)"
    using step [OF assms(1) gs] by (simp_all add: splitMetric_def)
qed

lemma split_metrics_entries:
  assumes "same_resource res al" "ra = attrs_of fts (case res of Some r \<Rightarrow> res_Attributes r | None \<Rightarrow> [])"
  shows "tagged resource_entries (foldl (\<lambda>al m. splitMetric hash fts s m ra res scope url al) al ms)
       = tagged resource_entries al + sent hash fts s (image_mset (Pair res) (sum_list (map metric_entries ms)))
     \<and> same_resource res (foldl (\<lambda>al m. splitMetric hash fts s m ra res scope url al) al ms)"
  using assms(1)
proof (induction ms arbitrary: al)
  case (Cons m ms)
  note h = splitMetric_entries [OF Cons.prems assms(2), where hash = hash and s = s and m = m and scope = scope and url = url]
  show ?case using Cons.IH [OF h(2)] h(1) by (simp add: ac_simps)
qed simp

lemma split_resource_entries: "tagged resource_entries (split_resource hash fts s rm) = sent hash fts s (resource_entries rm)"
proof -
  let ?res = "rm_Resource rm"
  let ?ra = "attrs_of fts (case ?res of Some r \<Rightarrow> res_Attributes r | None \<Rightarrow> [])"
  let ?step = "\<lambda>al sm. foldl (\<lambda>al m. splitMetric hash fts s m ?ra ?res (sm_Scope sm) (sm_SchemaUrl sm) al) al (sm_Metrics sm)"
  have "tagged resource_entries (foldl ?step al sms) = tagged resource_entries al + sent hash fts s (image_mset (Pair ?res) (scopes_entries sms))"
    if "same_resource ?res al" for al sms
    using that
  proof (induction sms arbitrary: al)
    case (Cons sm sms)
    note h = split_metrics_entries [OF Cons.prems refl, where hash = hash and s = s and scope = "sm_Scope sm" and url = "sm_SchemaUrl sm" and ms = "sm_Metrics sm"]
    show ?case using Cons.IH [OF conjunct2 [OF h]] conjunct1 [OF h] by (simp add: scopes_entries_def ac_simps)
  qed (simp add: scopes_entries_def)
  from this [of "[]" "rm_ScopeMetrics rm"] show ?thesis
    by (simp add: split_resource_def Let_def resource_entries_def same_resource_def)
qed

lemma merge_results_entries:
  "tagged (\<lambda>rms. sum_list (map resource_entries rms)) (foldl (\<lambda>result (endpoint, rm). append_at endpoint rm result) al new)
     = tagged (\<lambda>rms. sum_list (map resource_entries rms)) al + tagged resource_entries new"
proof (induction new arbitrary: al)
  case (Cons x new)
  then show ?case by (cases x) (simp add: tagged_append_at, simp add: tagged_def ac_simps)
qed simp

definition all_entries :: "'v ResourceMetrics list \<Rightarrow> (Resource option \<times> gostring \<times> 'v DataPoint) multiset" where
  "all_entries rms = sum_list (map resource_entries rms)"

definition split_all :: "(gostring \<Rightarrow> u64) \<Rightarrow> (f64 \<Rightarrow> gostring) \<Rightarrow> MetricsSplitter \<Rightarrow> (gostring \<times> 'v ResourceMetrics list) list \<Rightarrow> 'v ResourceMetrics list
    \<Rightarrow> (gostring \<times> 'v ResourceMetrics list) list" where
  "split_all hash fts s al rms =
     foldl (\<lambda>result rm. foldl (\<lambda>result (endpoint, splitRM). append_at endpoint splitRM result) result (split_resource hash fts s rm)) al rms"

lemma split_all_entries: "tagged all_entries (split_all hash fts s al rms) = tagged all_entries al + sent hash fts s (all_entries rms)"
proof (induction rms arbitrary: al)
  case (Cons rm rms)
  then show ?case
    using merge_results_entries [of al "split_resource hash fts s rm"]
    by (simp add: split_all_def split_resource_entries all_entries_def ac_simps)
qed (simp add: split_all_def all_entries_def)

text \<open>The keys: distinct, and endpoints of the ring.\<close>

lemma split_resource_keys:
  fixes rm :: "'v ResourceMetrics"
  assumes "\<And>key. GetEndpoint hash (ms_hashRing s) key \<in> E"
  shows "keys_in E (split_resource hash fts s rm)"
proof -
  have groups: "keys_in E (group_points (point_endpoint hash fts s n ra) dps)" for n ra and dps :: "'v DataPoint list"
    unfolding group_points_def append_at_def point_endpoint_def Let_def
    by (intro keys_in_foldl keys_in_update keys_in_Nil assms)
  have "keys_in E (splitMetric hash fts s m ra res scope url al)" if "keys_in E al"
    for m ra res scope url and al :: "(gostring \<times> 'v ResourceMetrics) list"
    unfolding splitMetric_def using that
    by (rule keys_in_foldl) (auto simp: getOrCreateScopeMetrics_def Let_def intro: keys_in_update dest: keys_in_mem [OF groups])
  then show ?thesis
    unfolding split_resource_def Let_def by (intro keys_in_foldl keys_in_Nil) auto
qed

lemma split_all_keys:
  assumes "\<And>key. GetEndpoint hash (ms_hashRing s) key \<in> E" "keys_in E al"
  shows "keys_in E (split_all hash fts s al rms)"
  unfolding split_all_def
  by (intro keys_in_foldl assms(2))
    (auto simp: append_at_def intro: keys_in_update dest: keys_in_mem [OF split_resource_keys [OF assms(1)]])

lemma size_sum_list: "size (sum_list Ms) = sum_list (map size Ms)" for Ms :: "'z multiset list"
  by (induction Ms) simp_all

lemma CountDatapoints_entries: "size (all_entries rms) = CountDatapoints rms"
  by (simp add: all_entries_def resource_entries_def scopes_entries_def metric_entries_def CountDatapoints_def size_sum_list o_def)

lemma otlp_Split_result:
  fixes rms :: "'v ResourceMetrics list"
  assumes "rms \<noteq> []" "ring_ok hash (ms_hashRing s)" "\<not> IsEmpty (ms_hashRing s)"
  shows "\<exists>result. otlp_Split hash fts s rms = Some result \<and> distinct (map fst result)
    \<and> set (map fst result) \<subseteq> set (GetEndpoints (ms_hashRing s))
    \<and> sum_list (map (\<lambda>(_, out). CountDatapoints out) result) = CountDatapoints rms
    \<and> (\<forall>e. (case map_of result e of Some out \<Rightarrow> all_entries out | None \<Rightarrow> {#})
            = filter_mset (\<lambda>x. entry_endpoint hash fts s x = e) (all_entries rms))"
proof -
  let ?result = "split_all hash fts s [] rms"
  have "keys_in (set (GetEndpoints (ms_hashRing s))) ?result"
    by (rule split_all_keys) (simp_all add: hash_router.route_in [OF assms(2,3)])
  then have k: "distinct (map fst ?result)" "set (map fst ?result) \<subseteq> set (GetEndpoints (ms_hashRing s))"
    by (simp_all add: keys_in_def)
  have "image_mset snd (filter_mset (\<lambda>(k, _). k = e) (sent hash fts s M)) = filter_mset (\<lambda>x. entry_endpoint hash fts s x = e) M"
    for e and M :: "(Resource option \<times> gostring \<times> 'v DataPoint) multiset"
    by (induction M) auto
  then have "(case map_of ?result e of Some out \<Rightarrow> all_entries out | None \<Rightarrow> {#})
      = filter_mset (\<lambda>x. entry_endpoint hash fts s x = e) (all_entries rms)" for e
    using tagged_at [OF k(1), of e all_entries] by (simp add: split_all_entries)
  moreover have "otlp_Split hash fts s rms = Some ?result"
    using assms by (simp add: otlp_Split_def split_all_def)
  moreover have "sum_list (map (\<lambda>(_, out). CountDatapoints out) ?result) = CountDatapoints rms"
    using arg_cong [OF split_all_entries [of hash fts s "[]" rms], of size] by (simp add: size_tagged CountDatapoints_entries)
  ultimately show ?thesis using k by blast
qed

text \<open>
  the OTLP splitter loses and duplicates no datapoint. With a usable ring, what an endpoint gets are exactly the
  datapoints, with their metric names and resources, whose shard key the ring maps to it; the endpoints that
  get something are endpoints of the ring, and the datapoint counts add up.
\<close>

theorem otlp_Split_partitions:
  fixes rms :: "'v ResourceMetrics list"
  assumes "rms \<noteq> []" "ring_ok hash (ms_hashRing s)" "\<not> IsEmpty (ms_hashRing s)"
  shows "\<exists>result. otlp_Split hash fts s rms = Some result
    \<and> set (map fst result) \<subseteq> set (GetEndpoints (ms_hashRing s))
    \<and> sum_list (map (\<lambda>(_, out). CountDatapoints out) result) = CountDatapoints rms
    \<and> (\<forall>e. (case map_of result e of Some out \<Rightarrow> all_entries out | None \<Rightarrow> {#})
            = filter_mset (\<lambda>x. entry_endpoint hash fts s x = e) (all_entries rms))"
  using otlp_Split_result [OF assms, of fts] by blast

theorem otlp_Split_partitions_witness:
  "\<exists>result. otlp_Split (\<lambda>s. word_of_nat (length s)) (\<lambda>_. [])
      \<lparr>ms_keyBuilder = NewShardKeyBuilder [], ms_hashRing = UpdateEndpoints (\<lambda>s. word_of_nat (length s)) (NewHashRing 1) [[97], [98]]\<rparr>
      [\<lparr>rm_Resource = None, rm_ScopeMetrics = [\<lparr>sm_Scope = None, sm_Metrics = [\<lparr>m_Name = [8], m_Description = [], m_Unit = [], m_Metadata = [],
         m_Data = Metric_Gauge [\<lparr>dp_Attributes = [], dp_rest = 42 :: nat\<rparr>]\<rparr>], sm_SchemaUrl = []\<rparr>], rm_SchemaUrl = []\<rparr>] = Some result
    \<and> sum_list (map (\<lambda>(_, out). CountDatapoints out) result) = 1"
proof -
  let ?s = "\<lparr>ms_keyBuilder = NewShardKeyBuilder [], ms_hashRing = UpdateEndpoints (\<lambda>s. word_of_nat (length s)) (NewHashRing 1) [[97], [98]]\<rparr>"
  let ?rms = "[\<lparr>rm_Resource = None, rm_ScopeMetrics = [\<lparr>sm_Scope = None, sm_Metrics = [\<lparr>m_Name = [8], m_Description = [], m_Unit = [], m_Metadata = [],
         m_Data = Metric_Gauge [\<lparr>dp_Attributes = [], dp_rest = 42 :: nat\<rparr>]\<rparr>], sm_SchemaUrl = []\<rparr>], rm_SchemaUrl = []\<rparr>]"
  have "?rms \<noteq> []" "ring_ok (\<lambda>s. word_of_nat (length s)) (ms_hashRing ?s)" "\<not> IsEmpty (ms_hashRing ?s)"
    by (simp_all add: IsEmpty_def UpdateEndpoints_fields)
  from otlp_Split_partitions [OF this, of "\<lambda>_. []"] show ?thesis by (auto simp: CountDatapoints_def)
qed

end
