(* ===== verification/Tenant.thy ===== *)
theory Tenant
  imports Otlp_Types Go_Maps
begin

text \<open>
  Tenant detection: \<open>internal/tenant/tenant.go\<close>. The code changes the messages in place; here the annotated messages are
  returned beside the buckets, which share them. The Prometheus counters are left out.
\<close>

section \<open>Model\<close>

datatype DetectionMode = ModeHeader | ModeLabel | ModeAttribute | ModeOther gostring

record TenantConfig =
  tc_Enabled :: bool
  tc_Mode :: DetectionMode
  tc_HeaderName :: gostring
  tc_LabelName :: gostring
  tc_AttributeKey :: gostring
  tc_DefaultTenant :: gostring
  tc_InjectLabel :: bool
  tc_InjectLabelName :: gostring
  tc_StripSourceLabel :: bool

definition tenant_DefaultConfig :: TenantConfig where
  "tenant_DefaultConfig = \<lparr>tc_Enabled = False, tc_Mode = ModeHeader, tc_HeaderName = gostr ''X-Scope-OrgID'', tc_LabelName = gostr ''tenant'',
     tc_AttributeKey = gostr ''service.namespace'', tc_DefaultTenant = gostr ''default'', tc_InjectLabel = True,
     tc_InjectLabelName = gostr ''__tenant__'', tc_StripSourceLabel = False\<rparr>"

datatype tenant_error = HeaderNameRequired | LabelNameRequired | AttributeKeyRequired | UnknownMode gostring
  | DefaultTenantEmpty | InjectLabelNameRequired

definition validate_mode :: "TenantConfig \<Rightarrow> tenant_error option" where
  "validate_mode c =
     (case tc_Mode c of
        ModeHeader \<Rightarrow> if tc_HeaderName c = [] then Some HeaderNameRequired else None
      | ModeLabel \<Rightarrow> if tc_LabelName c = [] then Some LabelNameRequired else None
      | ModeAttribute \<Rightarrow> if tc_AttributeKey c = [] then Some AttributeKeyRequired else None
      | ModeOther s \<Rightarrow> Some (UnknownMode s))"

definition tenant_Validate :: "TenantConfig \<Rightarrow> tenant_error option" where
  "tenant_Validate c =
     (if \<not> tc_Enabled c then None
      else case validate_mode c of
          Some e \<Rightarrow> Some e
        | None \<Rightarrow>
            if tc_DefaultTenant c = [] then Some DefaultTenantEmpty
            else if tc_InjectLabel c \<and> tc_InjectLabelName c = [] then Some InjectLabelNameRequired
            else None)"

record Detector =
  det_config :: TenantConfig

definition NewDetector :: "TenantConfig \<Rightarrow> tenant_error + Detector" where
  "NewDetector cfg = (case tenant_Validate cfg of Some e \<Rightarrow> Inl e | None \<Rightarrow> Inr \<lparr>det_config = cfg\<rparr>)"

definition detector_ReloadConfig :: "Detector \<Rightarrow> TenantConfig \<Rightarrow> tenant_error option \<times> Detector" where
  "detector_ReloadConfig d cfg = (case tenant_Validate cfg of Some e \<Rightarrow> (Some e, d) | None \<Rightarrow> (None, d\<lparr>det_config := cfg\<rparr>))"

definition detector_Enabled :: "Detector \<Rightarrow> bool" where
  "detector_Enabled d = tc_Enabled (det_config d)"

subsection \<open>Looking up\<close>

fun findAttributeValue :: "KeyValue list \<Rightarrow> gostring \<Rightarrow> gostring" where
  "findAttributeValue [] key = []"
| "findAttributeValue (kv # attrs) key =
     (if kv_Key kv = key then (case kv_Value kv of Some (StringValue s) \<Rightarrow> s | _ \<Rightarrow> findAttributeValue attrs key)
      else findAttributeValue attrs key)"

definition findResourceAttribute :: "'v ResourceMetrics \<Rightarrow> gostring \<Rightarrow> gostring" where
  "findResourceAttribute rm key = (case rm_Resource rm of None \<Rightarrow> [] | Some r \<Rightarrow> findAttributeValue (res_Attributes r) key)"

text \<open>The loops that return the first value that is not empty.\<close>

fun first_nonempty :: "('a \<Rightarrow> gostring) \<Rightarrow> 'a list \<Rightarrow> gostring" where
  "first_nonempty f [] = []"
| "first_nonempty f (x # xs) = (if f x \<noteq> [] then f x else first_nonempty f xs)"

definition findLabelInMetric :: "'v Metric \<Rightarrow> gostring \<Rightarrow> gostring" where
  "findLabelInMetric m labelName = first_nonempty (\<lambda>dp. findAttributeValue (dp_Attributes dp) labelName) (metric_points m)"

definition findLabelValue :: "'v ResourceMetrics \<Rightarrow> gostring \<Rightarrow> gostring" where
  "findLabelValue rm labelName =
     first_nonempty (\<lambda>sm. first_nonempty (\<lambda>m. findLabelInMetric m labelName) (sm_Metrics sm)) (rm_ScopeMetrics rm)"

definition detectTenant :: "'v ResourceMetrics \<Rightarrow> gostring \<Rightarrow> TenantConfig \<Rightarrow> gostring" where
  "detectTenant rm headerTenant cfg =
     (let t = (case tc_Mode cfg of
                 ModeHeader \<Rightarrow> headerTenant
               | ModeLabel \<Rightarrow> findLabelValue rm (tc_LabelName cfg)
               | ModeAttribute \<Rightarrow> findResourceAttribute rm (tc_AttributeKey cfg)
               | ModeOther _ \<Rightarrow> [])
      in if t \<noteq> [] then t else tc_DefaultTenant cfg)"

definition Detect :: "Detector \<Rightarrow> 'v ResourceMetrics \<Rightarrow> gostring \<Rightarrow> gostring" where
  "Detect d rm headerTenant = detectTenant rm headerTenant (det_config d)"

subsection \<open>Annotating\<close>

fun appendOrReplace :: "KeyValue list \<Rightarrow> KeyValue \<Rightarrow> KeyValue list" where
  "appendOrReplace [] kv = [kv]"
| "appendOrReplace (existing # attrs) kv = (if kv_Key existing = kv_Key kv then kv # attrs else existing # appendOrReplace attrs kv)"

fun removeAttribute :: "KeyValue list \<Rightarrow> gostring \<Rightarrow> KeyValue list" where
  "removeAttribute [] key = []"
| "removeAttribute (kv # attrs) key = (if kv_Key kv = key then attrs else kv # removeAttribute attrs key)"

text \<open>The loops over scopes and metrics.\<close>

definition map_metrics :: "('v Metric \<Rightarrow> 'v Metric) \<Rightarrow> 'v ResourceMetrics \<Rightarrow> 'v ResourceMetrics" where
  "map_metrics f rm = rm\<lparr>rm_ScopeMetrics := map (\<lambda>sm. sm\<lparr>sm_Metrics := map f (sm_Metrics sm)\<rparr>) (rm_ScopeMetrics rm)\<rparr>"

definition injectLabelInMetric :: "'v Metric \<Rightarrow> KeyValue \<Rightarrow> 'v Metric" where
  "injectLabelInMetric m kv = map_attributes (\<lambda>attrs. appendOrReplace attrs kv) m"

definition injectTenantLabel :: "'v ResourceMetrics \<Rightarrow> gostring \<Rightarrow> gostring \<Rightarrow> 'v ResourceMetrics" where
  "injectTenantLabel rm labelName tenant =
     map_metrics (\<lambda>m. injectLabelInMetric m \<lparr>kv_Key = labelName, kv_Value = Some (StringValue tenant)\<rparr>) rm"

definition stripLabelInMetric :: "'v Metric \<Rightarrow> gostring \<Rightarrow> 'v Metric" where
  "stripLabelInMetric m labelName = map_attributes (\<lambda>attrs. removeAttribute attrs labelName) m"

definition stripLabel :: "'v ResourceMetrics \<Rightarrow> gostring \<Rightarrow> 'v ResourceMetrics" where
  "stripLabel rm labelName = map_metrics (\<lambda>m. stripLabelInMetric m labelName) rm"

definition annotate :: "TenantConfig \<Rightarrow> gostring \<Rightarrow> 'v ResourceMetrics \<Rightarrow> 'v ResourceMetrics" where
  "annotate cfg tenant rm =
     (let rm = (if tc_InjectLabel cfg then injectTenantLabel rm (tc_InjectLabelName cfg) tenant else rm)
      in if tc_StripSourceLabel cfg \<and> tc_Mode cfg = ModeLabel then stripLabel rm (tc_LabelName cfg) else rm)"

definition DetectAndAnnotate :: "Detector \<Rightarrow> 'v ResourceMetrics list \<Rightarrow> gostring
    \<Rightarrow> 'v ResourceMetrics list \<times> (gostring \<times> 'v ResourceMetrics list) list" where
  "DetectAndAnnotate d rms headerTenant =
     (let cfg = det_config d
      in (map (\<lambda>rm. annotate cfg (detectTenant rm headerTenant cfg) rm) rms,
          foldl (\<lambda>result rm. append_at (detectTenant rm headerTenant cfg) (annotate cfg (detectTenant rm headerTenant cfg) rm) result) [] rms))"

subsection \<open>The header\<close>

definition has_attribute :: "gostring \<Rightarrow> 'v ResourceMetrics \<Rightarrow> bool" where
  "has_attribute key rm \<longleftrightarrow> (\<exists>kv \<in> set (case rm_Resource rm of Some r \<Rightarrow> res_Attributes r | None \<Rightarrow> []). kv_Key kv = key)"

definition set_attribute :: "gostring \<Rightarrow> gostring \<Rightarrow> 'v ResourceMetrics \<Rightarrow> 'v ResourceMetrics" where
  "set_attribute key tenant rm =
     (let r = (case rm_Resource rm of Some r \<Rightarrow> r | None \<Rightarrow> \<lparr>res_Attributes = [], res_DroppedAttributesCount = 0\<rparr>)
      in rm\<lparr>rm_Resource := Some (r\<lparr>res_Attributes :=
           appendOrReplace (res_Attributes r) \<lparr>kv_Key = key, kv_Value = Some (StringValue tenant)\<rparr>\<rparr>)\<rparr>)"

text \<open>The loop returns, not only from the search, when a resource already has the attribute.\<close>

fun InjectHeaderTenant :: "'v ResourceMetrics list \<Rightarrow> gostring \<Rightarrow> gostring \<Rightarrow> 'v ResourceMetrics list" where
  "InjectHeaderTenant [] key tenant = []"
| "InjectHeaderTenant (rm # rms) key tenant =
     (if tenant = [] then rm # rms
      else set_attribute key tenant rm # (if has_attribute key rm then rms else InjectHeaderTenant rms key tenant))"

section \<open>Annotation\<close>

lemma find_appendOrReplace [simp]:
  "findAttributeValue (appendOrReplace attrs \<lparr>kv_Key = key, kv_Value = Some (StringValue s)\<rparr>) key = s"
  by (induction attrs) auto

lemma find_removeAttribute: "key' \<noteq> key \<Longrightarrow> findAttributeValue (removeAttribute attrs key') key = findAttributeValue attrs key"
  by (induction attrs) (auto split: option.split AnyValue.split)

lemma map_metrics_points:
  assumes "\<And>m. metric_points (f m) = map (\<lambda>dp. dp\<lparr>dp_Attributes := g (dp_Attributes dp)\<rparr>) (metric_points m)"
  shows "resource_points (map_metrics f rm) = map (\<lambda>dp. dp\<lparr>dp_Attributes := g (dp_Attributes dp)\<rparr>) (resource_points rm)"
  by (simp add: resource_points_def map_metrics_def map_concat o_def assms)

lemma inject_points: "resource_points (injectTenantLabel rm n t) =
    map (\<lambda>dp. dp\<lparr>dp_Attributes := appendOrReplace (dp_Attributes dp) \<lparr>kv_Key = n, kv_Value = Some (StringValue t)\<rparr>\<rparr>) (resource_points rm)"
  unfolding injectTenantLabel_def by (rule map_metrics_points) (simp add: injectLabelInMetric_def)

lemma strip_points: "resource_points (stripLabel rm n) = map (\<lambda>dp. dp\<lparr>dp_Attributes := removeAttribute (dp_Attributes dp) n\<rparr>) (resource_points rm)"
  unfolding stripLabel_def by (rule map_metrics_points) (simp add: stripLabelInMetric_def)

lemma resource_values_points: "resource_values rm = map dp_rest (resource_points rm)"
  by (simp add: resource_values_def scope_values_def [abs_def] metric_values_def [abs_def] resource_points_def map_concat o_def)

lemma annotate_values [simp]: "resource_values (annotate cfg t rm) = resource_values rm"
  by (simp add: annotate_def resource_values_points inject_points strip_points Let_def o_def)

lemma annotate_label:
  assumes "tc_InjectLabel cfg" "tc_StripSourceLabel cfg \<Longrightarrow> tc_LabelName cfg \<noteq> tc_InjectLabelName cfg"
    and "dp \<in> set (resource_points (annotate cfg t rm))"
  shows "findAttributeValue (dp_Attributes dp) (tc_InjectLabelName cfg) = t"
  using assms by (auto simp: annotate_def inject_points strip_points find_removeAttribute Let_def split: if_splits)

text \<open>
  detection sorts the resources of a batch by tenant and marks them. No datapoint value is lost or changed; the bucket of a tenant holds
  exactly the resources detected as its own, in their order; and with label injection every datapoint in the bucket
  reads as that tenant under the injected label, unless the configuration strips that very label.
\<close>

theorem DetectAndAnnotate_correct:
  assumes "DetectAndAnnotate d rms headerTenant = (annotated, buckets)"
    and "tc_InjectLabel (det_config d)"
    and "tc_StripSourceLabel (det_config d) \<Longrightarrow> tc_LabelName (det_config d) \<noteq> tc_InjectLabelName (det_config d)"
  shows "map resource_values annotated = map resource_values rms
    \<and> (\<forall>t. map_of buckets t = (if \<exists>rm \<in> set rms. Detect d rm headerTenant = t
          then Some (map (annotate (det_config d) t) (filter (\<lambda>rm. Detect d rm headerTenant = t) rms)) else None))
    \<and> (\<forall>t b rm dp. map_of buckets t = Some b \<longrightarrow> rm \<in> set b \<longrightarrow> dp \<in> set (resource_points rm)
          \<longrightarrow> findAttributeValue (dp_Attributes dp) (tc_InjectLabelName (det_config d)) = t)"
proof -
  have b: "buckets = foldl (\<lambda>al rm. append_at (Detect d rm headerTenant) (annotate (det_config d) (Detect d rm headerTenant) rm) al) [] rms"
    and a: "annotated = map (\<lambda>rm. annotate (det_config d) (Detect d rm headerTenant) rm) rms"
    using assms(1) by (simp_all add: DetectAndAnnotate_def Detect_def Let_def)
  have m: "map_of buckets t = (if \<exists>rm \<in> set rms. Detect d rm headerTenant = t
       then Some (map (annotate (det_config d) t) (filter (\<lambda>rm. Detect d rm headerTenant = t) rms)) else None)" for t
    unfolding b map_of_grouping [of "\<lambda>rm. Detect d rm headerTenant" "\<lambda>rm. annotate (det_config d) (Detect d rm headerTenant) rm"]
    by (auto intro: map_cong)
  moreover have "findAttributeValue (dp_Attributes dp) (tc_InjectLabelName (det_config d)) = t"
    if "map_of buckets t = Some b" "rm \<in> set b" "dp \<in> set (resource_points rm)" for t b rm dp
    using that by (auto simp: m annotate_label [OF assms(2,3)] split: if_splits)
  ultimately show ?thesis by (simp add: a)
qed

definition gauge_resource :: "KeyValue list \<Rightarrow> KeyValue list \<Rightarrow> nat ResourceMetrics" where
  "gauge_resource res attrs = \<lparr>rm_Resource = Some \<lparr>res_Attributes = res, res_DroppedAttributesCount = 0\<rparr>,
     rm_ScopeMetrics = [\<lparr>sm_Scope = None, sm_Metrics = [\<lparr>m_Name = [109], m_Description = [], m_Unit = [], m_Metadata = [],
       m_Data = Metric_Gauge [\<lparr>dp_Attributes = attrs, dp_rest = 7\<rparr>]\<rparr>], sm_SchemaUrl = []\<rparr>], rm_SchemaUrl = []\<rparr>"

definition label_detector :: Detector where
  "label_detector = \<lparr>det_config = tenant_DefaultConfig\<lparr>tc_Mode := ModeLabel, tc_LabelName := [1], tc_InjectLabelName := [2]\<rparr>\<rparr>"

theorem DetectAndAnnotate_correct_witness:
  "map_of (snd (DetectAndAnnotate label_detector
     [gauge_resource [] [\<lparr>kv_Key = [1], kv_Value = Some (StringValue [65])\<rparr>], gauge_resource [] []] [])) [65]
   = Some [annotate (det_config label_detector) [65] (gauge_resource [] [\<lparr>kv_Key = [1], kv_Value = Some (StringValue [65])\<rparr>])]"
proof -
  let ?rms = "[gauge_resource [] [\<lparr>kv_Key = [1], kv_Value = Some (StringValue [65])\<rparr>], gauge_resource [] []]"
  obtain annotated buckets where e: "DetectAndAnnotate label_detector ?rms [] = (annotated, buckets)" by fastforce
  have d: "Detect label_detector (?rms ! 0) [] = [65]" "Detect label_detector (?rms ! 1) [] \<noteq> [65]"
    by (simp_all add: Detect_def detectTenant_def label_detector_def tenant_DefaultConfig_def findLabelValue_def findLabelInMetric_def
      gauge_resource_def metric_points_def gostr_def)
  have "tc_InjectLabel (det_config label_detector)" "\<not> tc_StripSourceLabel (det_config label_detector)"
    by (simp_all add: label_detector_def tenant_DefaultConfig_def)
  then show ?thesis using DetectAndAnnotate_correct [OF e] d by (simp add: e)
qed

section \<open>The tenant of the header\<close>

lemma find_set_attribute [simp]: "tenant \<noteq> [] \<Longrightarrow> findResourceAttribute (set_attribute key tenant rm) key = tenant"
  by (simp add: findResourceAttribute_def set_attribute_def Let_def)

lemma find_missing: "\<not> has_attribute key rm \<Longrightarrow> findResourceAttribute rm key = []"
proof -
  have "\<forall>kv \<in> set attrs. kv_Key kv \<noteq> key \<Longrightarrow> findAttributeValue attrs key = []" for attrs by (induction attrs) auto
  then show "\<not> has_attribute key rm \<Longrightarrow> findResourceAttribute rm key = []"
    by (auto simp: has_attribute_def findResourceAttribute_def split: option.splits)
qed

text \<open>
  a tenant from the request header reaches detection by attribute as long as no resource but the last carries the
  attribute already: every resource of the request is then detected as that tenant.
\<close>

theorem header_tenant_detected:
  assumes "tenant \<noteq> []" "tc_Mode cfg = ModeAttribute" "\<forall>rm \<in> set (butlast rms). \<not> has_attribute (tc_AttributeKey cfg) rm"
  shows "\<forall>rm \<in> set (InjectHeaderTenant rms (tc_AttributeKey cfg) tenant). detectTenant rm headerTenant cfg = tenant"
  using assms by (induction rms) (auto simp: detectTenant_def split: if_splits)

theorem header_tenant_detected_witness:
  "\<forall>rm \<in> set (InjectHeaderTenant [gauge_resource [] [], gauge_resource [] []] [1] [65]).
     detectTenant rm [] (tenant_DefaultConfig\<lparr>tc_Mode := ModeAttribute, tc_AttributeKey := [1]\<rparr>) = [65]"
  using header_tenant_detected [of "[65]" "tenant_DefaultConfig\<lparr>tc_Mode := ModeAttribute, tc_AttributeKey := [1]\<rparr>"
    "[gauge_resource [] [], gauge_resource [] []]" "[]"]
  by (simp add: has_attribute_def gauge_resource_def)

text \<open>
  the injection of the header's tenant stops at the first resource that has the attribute already. The resources after
  it are left as they are, and those without the attribute are detected as the default tenant.
\<close>

theorem header_tenant_stops:
  assumes "tenant \<noteq> []" "has_attribute (tc_AttributeKey cfg) rm" "tc_Mode cfg = ModeAttribute"
    and "\<forall>rm \<in> set before. \<not> has_attribute (tc_AttributeKey cfg) rm"
  shows "(\<exists>annotated. InjectHeaderTenant (before @ rm # rms) (tc_AttributeKey cfg) tenant = annotated @ rms \<and> length annotated = length before + 1)
    \<and> (\<forall>rm' \<in> set rms. \<not> has_attribute (tc_AttributeKey cfg) rm' \<longrightarrow> detectTenant rm' tenant cfg = tc_DefaultTenant cfg)"
proof -
  have "InjectHeaderTenant (before @ rm # rms) (tc_AttributeKey cfg) tenant
      = (map (set_attribute (tc_AttributeKey cfg) tenant) before @ [set_attribute (tc_AttributeKey cfg) tenant rm]) @ rms"
    using assms(1,2,4) by (induction before) auto
  then show ?thesis using assms(3) by (auto simp: detectTenant_def find_missing)
qed

theorem header_tenant_stops_witness:
  "\<exists>annotated. InjectHeaderTenant [gauge_resource [\<lparr>kv_Key = [1], kv_Value = None\<rparr>] [], gauge_resource [] []] [1] [65] = annotated @ [gauge_resource [] []]"
  using header_tenant_stops [of "[65]" "tenant_DefaultConfig\<lparr>tc_Mode := ModeAttribute, tc_AttributeKey := [1]\<rparr>"
    "gauge_resource [\<lparr>kv_Key = [1], kv_Value = None\<rparr>] []" "[]" "[gauge_resource [] []]"]
  by (auto simp: has_attribute_def gauge_resource_def)

end
