(* ===== verification/Tenant_Quotas.thy ===== *)
theory Tenant_Quotas
  imports Tenant
begin

text \<open>
  Tenant quotas: \<open>internal/tenant/quotas.go\<close> and \<open>internal/tenant/pipeline.go\<close>. Reading the file, the YAML decoder,
  \<open>time.ParseDuration\<close> and \<open>fmt.Sprintf("%g")\<close> are the parameter \<open>quota_lib\<close>. Times and durations are nanoseconds, times counted from Go's
  zero time. The clock is an argument: \<open>Process\<close> reads it once, and \<open>getOrCreateWindow\<close> once more. A set of
  series keys is a list without repetitions. A YAML map may hold a nil quota.
\<close>

section \<open>Configuration\<close>

datatype QuotaAction = QuotaUnset | QuotaActionDrop | QuotaActionLog | QuotaActionAdaptive | QuotaOther gostring

record GlobalQuota =
  gq_MaxDatapoints :: int
  gq_MaxCardinality :: int
  gq_Action :: QuotaAction
  gq_Window :: gostring
  gq_parsedWindow :: int

record TenantQuota =
  tq_MaxDatapoints :: int
  tq_MaxCardinality :: int
  tq_Action :: QuotaAction
  tq_Window :: gostring
  tq_Priority :: int
  tq_parsedWindow :: int

record QuotasConfig =
  qc_Global :: "GlobalQuota option"
  qc_Default :: "TenantQuota option"
  qc_Tenants :: "(gostring \<times> TenantQuota option) list"

record quota_lib =
  ql_ReadFile :: "gostring \<Rightarrow> bytes option"
  ql_Unmarshal :: "bytes \<Rightarrow> QuotasConfig option"
  ql_ParseDuration :: "gostring \<Rightarrow> int option"
  ql_g :: "f64 \<Rightarrow> gostring"

datatype quota_error = QuotaRead | QuotaParse | QuotaWindow gostring gostring | QuotaUnknownAction gostring gostring

definition validateAction :: "QuotaAction \<Rightarrow> gostring option" where
  "validateAction a = (case a of QuotaOther s \<Rightarrow> Some s | _ \<Rightarrow> None)"

definition default_window :: gostring where
  "default_window = gostr ''1m''"

text \<open>A nil quota is dereferenced.\<close>

definition parseAndValidate :: "quota_lib \<Rightarrow> gostring \<Rightarrow> TenantQuota option \<Rightarrow> (quota_error, TenantQuota) outcome" where
  "parseAndValidate lib name tq =
     (case tq of
        None \<Rightarrow> Panic
      | Some tq \<Rightarrow>
          let tq = (if tq_Window tq = [] then tq\<lparr>tq_Window := default_window\<rparr> else tq)
          in case ql_ParseDuration lib (tq_Window tq) of
               None \<Rightarrow> Err (QuotaWindow name (tq_Window tq))
             | Some d \<Rightarrow>
                 (case validateAction (tq_Action tq) of
                    Some a \<Rightarrow> Err (QuotaUnknownAction name a)
                  | None \<Rightarrow> Ok (tq\<lparr>tq_parsedWindow := d\<rparr>)))"

definition validate_global :: "quota_lib \<Rightarrow> GlobalQuota \<Rightarrow> (quota_error, GlobalQuota) outcome" where
  "validate_global lib g =
     (let g = (if gq_Window g = [] then g\<lparr>gq_Window := default_window\<rparr> else g)
      in case ql_ParseDuration lib (gq_Window g) of
           None \<Rightarrow> Err (QuotaWindow (gostr ''global'') (gq_Window g))
         | Some d \<Rightarrow>
             (case validateAction (gq_Action g) of
                Some a \<Rightarrow> Err (QuotaUnknownAction (gostr ''global'') a)
              | None \<Rightarrow> Ok (g\<lparr>gq_parsedWindow := d\<rparr>)))"

fun validate_tenants :: "quota_lib \<Rightarrow> (gostring \<times> TenantQuota option) list \<Rightarrow> (quota_error, (gostring \<times> TenantQuota option) list) outcome" where
  "validate_tenants lib [] = Ok []"
| "validate_tenants lib ((name, tq) # ts) =
     bind_outcome (parseAndValidate lib name tq) (\<lambda>tq. bind_outcome (validate_tenants lib ts) (\<lambda>ts. Ok ((name, Some tq) # ts)))"

definition quotas_validate :: "quota_lib \<Rightarrow> QuotasConfig \<Rightarrow> (quota_error, QuotasConfig) outcome" where
  "quotas_validate lib c =
     bind_outcome (case qc_Global c of None \<Rightarrow> Ok c | Some g \<Rightarrow> bind_outcome (validate_global lib g) (\<lambda>g. Ok (c\<lparr>qc_Global := Some g\<rparr>))) (\<lambda>c.
     bind_outcome (case qc_Default c of None \<Rightarrow> Ok c
                   | Some tq \<Rightarrow> bind_outcome (parseAndValidate lib (gostr ''default'') (Some tq)) (\<lambda>tq. Ok (c\<lparr>qc_Default := Some tq\<rparr>))) (\<lambda>c.
     bind_outcome (validate_tenants lib (qc_Tenants c)) (\<lambda>ts. Ok (c\<lparr>qc_Tenants := ts\<rparr>))))"

definition ParseQuotasConfig :: "quota_lib \<Rightarrow> bytes \<Rightarrow> (quota_error, QuotasConfig) outcome" where
  "ParseQuotasConfig lib data = (case ql_Unmarshal lib data of None \<Rightarrow> Err QuotaParse | Some cfg \<Rightarrow> quotas_validate lib cfg)"

definition LoadQuotasConfig :: "quota_lib \<Rightarrow> gostring \<Rightarrow> (quota_error, QuotasConfig) outcome" where
  "LoadQuotasConfig lib path = (case ql_ReadFile lib path of None \<Rightarrow> Err QuotaRead | Some data \<Rightarrow> ParseQuotasConfig lib data)"

section \<open>The enforcer\<close>

record tenantWindow =
  tw_datapoints :: int
  tw_cardinality :: "gostring list"
  tw_windowEnd :: int

record QuotaEnforcer =
  qe_config :: QuotasConfig
  qe_tenants :: "gostring \<rightharpoonup> tenantWindow"
  qe_global :: tenantWindow
  qe_reloadCount :: int
  qe_lastReloadUTC :: int

definition zero_window :: tenantWindow where
  "zero_window = \<lparr>tw_datapoints = 0, tw_cardinality = [], tw_windowEnd = 0\<rparr>"

definition NewQuotaEnforcer :: "int \<Rightarrow> QuotasConfig \<Rightarrow> QuotaEnforcer" where
  "NewQuotaEnforcer now cfg = \<lparr>qe_config = cfg, qe_tenants = Map.empty, qe_global = zero_window, qe_reloadCount = 0, qe_lastReloadUTC = now\<rparr>"

definition quota_ReloadConfig :: "int \<Rightarrow> QuotaEnforcer \<Rightarrow> QuotasConfig \<Rightarrow> QuotaEnforcer" where
  "quota_ReloadConfig now qe cfg =
     qe\<lparr>qe_config := cfg, qe_tenants := Map.empty, qe_global := zero_window, qe_reloadCount := qe_reloadCount qe + 1, qe_lastReloadUTC := now\<rparr>"

definition getTenantQuota :: "QuotaEnforcer \<Rightarrow> gostring \<Rightarrow> TenantQuota option" where
  "getTenantQuota qe tenantID =
     (case map_of (qc_Tenants (qe_config qe)) tenantID of Some tq \<Rightarrow> tq | None \<Rightarrow> qc_Default (qe_config qe))"

definition getOrCreateWindow :: "int \<Rightarrow> QuotaEnforcer \<Rightarrow> gostring \<Rightarrow> TenantQuota \<Rightarrow> tenantWindow" where
  "getOrCreateWindow now qe tenantID tq =
     (case qe_tenants qe tenantID of
        Some tw \<Rightarrow> tw
      | None \<Rightarrow> \<lparr>tw_datapoints = 0, tw_cardinality = [], tw_windowEnd = now + tq_parsedWindow tq\<rparr>)"

subsection \<open>Counting\<close>

definition getStringValue :: "quota_lib \<Rightarrow> AnyValue option \<Rightarrow> gostring" where
  "getStringValue lib v =
     (case v of
        Some (StringValue s) \<Rightarrow> s
      | Some (IntValue i) \<Rightarrow> if sint i < 0 then gostr ''-'' @ decimal (nat (- sint i)) else decimal (nat (sint i))
      | Some (DoubleValue d) \<Rightarrow> ql_g lib d
      | Some (BoolValue b) \<Rightarrow> gostr (if b then ''true'' else ''false'')
      | _ \<Rightarrow> [])"

definition tenant_series_key :: "quota_lib \<Rightarrow> gostring \<Rightarrow> KeyValue list \<Rightarrow> gostring" where
  "tenant_series_key lib name attrs =
     (if length attrs = 0 then name
      else name @ gostr ''{'' @ join_strings (gostr '','') (map (\<lambda>kv. kv_Key kv @ gostr ''='' @ getStringValue lib (kv_Value kv)) attrs) @ gostr ''}'')"

definition countMetricDatapoints :: "'v Metric \<Rightarrow> nat" where
  "countMetricDatapoints m = length (metric_points m)"

definition countMetricDatapointsAndKeys :: "quota_lib \<Rightarrow> 'v Metric \<Rightarrow> nat \<times> gostring list" where
  "countMetricDatapointsAndKeys lib m =
     (length (metric_points m), map (\<lambda>dp. tenant_series_key lib (m_Name m) (dp_Attributes dp)) (metric_points m))"

definition countRMDatapoints :: "'v ResourceMetrics \<Rightarrow> nat" where
  "countRMDatapoints rm = sum_list (map (\<lambda>sm. sum_list (map countMetricDatapoints (sm_Metrics sm))) (rm_ScopeMetrics rm))"

definition countDatapointsAndSeries :: "quota_lib \<Rightarrow> 'v ResourceMetrics list \<Rightarrow> nat \<times> gostring list" where
  "countDatapointsAndSeries lib rms =
     foldl (\<lambda>acc rm. foldl (\<lambda>acc sm. foldl (\<lambda>(count, keys) m.
         case countMetricDatapointsAndKeys lib m of (dpCount, dpKeys) \<Rightarrow> (count + dpCount, keys @ dpKeys))
       acc (sm_Metrics sm)) acc (rm_ScopeMetrics rm)) (0, []) rms"

definition countNewSeries :: "gostring list \<Rightarrow> gostring list \<Rightarrow> nat" where
  "countNewSeries existing keys = length (filter (\<lambda>k. k \<notin> set existing) keys)"

subsection \<open>Processing\<close>

definition time_Minute :: int where
  "time_Minute = 60 * 1000000000"

definition window_at :: "int \<Rightarrow> int \<Rightarrow> tenantWindow \<Rightarrow> tenantWindow" where
  "window_at now parsedWindow w =
     (let windowDur = (if parsedWindow = 0 then time_Minute else parsedWindow)
      in if now > tw_windowEnd w then \<lparr>tw_datapoints = 0, tw_cardinality = [], tw_windowEnd = now + windowDur\<rparr> else w)"

definition quota_exceeded :: "int \<Rightarrow> int \<Rightarrow> tenantWindow \<Rightarrow> nat \<Rightarrow> gostring list \<Rightarrow> bool" where
  "quota_exceeded maxDatapoints maxCardinality w dpCount seriesKeys \<longleftrightarrow>
     maxDatapoints > 0 \<and> tw_datapoints w + int dpCount > maxDatapoints
   \<or> maxCardinality > 0 \<and> int (length (tw_cardinality w) + countNewSeries (tw_cardinality w) seriesKeys) > maxCardinality"

definition track :: "tenantWindow \<Rightarrow> nat \<Rightarrow> gostring list \<Rightarrow> tenantWindow" where
  "track w dpCount keys = w\<lparr>tw_datapoints := tw_datapoints w + int dpCount, tw_cardinality := foldl (\<lambda>s k. List.insert k s) (tw_cardinality w) keys\<rparr>"

fun adaptive_prefix :: "int \<Rightarrow> int \<Rightarrow> 'v ResourceMetrics list \<Rightarrow> 'v ResourceMetrics list" where
  "adaptive_prefix remaining kept [] = []"
| "adaptive_prefix remaining kept (rm # rms) =
     (if kept + int (countRMDatapoints rm) \<le> remaining then rm # adaptive_prefix remaining (kept + int (countRMDatapoints rm)) rms else [])"

definition adaptiveFilter :: "'v ResourceMetrics list \<Rightarrow> tenantWindow \<Rightarrow> TenantQuota \<Rightarrow> 'v ResourceMetrics list" where
  "adaptiveFilter rms tw quota =
     (let remaining = tq_MaxDatapoints quota - tw_datapoints tw in if remaining \<le> 0 then [] else adaptive_prefix remaining 0 rms)"

text \<open>Level 1. The first component says whether processing goes on.\<close>

definition global_level :: "int \<Rightarrow> QuotaEnforcer \<Rightarrow> TenantQuota option \<Rightarrow> nat \<Rightarrow> gostring list \<Rightarrow> bool \<times> QuotaEnforcer" where
  "global_level now qe tenantQuota dpCount seriesKeys =
     (case qc_Global (qe_config qe) of
        None \<Rightarrow> (True, qe)
      | Some gq \<Rightarrow>
          if \<not> (gq_MaxDatapoints gq > 0 \<or> gq_MaxCardinality gq > 0) then (True, qe)
          else let g = window_at now (gq_parsedWindow gq) (qe_global qe);
                   action = (if gq_Action gq = QuotaUnset then QuotaActionDrop else gq_Action gq)
               in if quota_exceeded (gq_MaxDatapoints gq) (gq_MaxCardinality gq) g dpCount seriesKeys
                     \<and> (action = QuotaActionDrop
                        \<or> action = QuotaActionAdaptive \<and> (case tenantQuota of Some tq \<Rightarrow> tq_Priority tq \<le> 0 | None \<Rightarrow> False))
                  then (False, qe\<lparr>qe_global := g\<rparr>)
                  else (True, qe\<lparr>qe_global := track g dpCount seriesKeys\<rparr>))"

text \<open>Level 2. Dropping is the empty result, with the window as it was reset.\<close>

definition tenant_level :: "quota_lib \<Rightarrow> int \<Rightarrow> int \<Rightarrow> QuotaEnforcer \<Rightarrow> gostring \<Rightarrow> TenantQuota option \<Rightarrow> nat \<Rightarrow> gostring list \<Rightarrow> 'v ResourceMetrics list
    \<Rightarrow> 'v ResourceMetrics list \<times> QuotaEnforcer" where
  "tenant_level lib now now2 qe tenantID tenantQuota dpCount seriesKeys rms =
     (case tenantQuota of
        None \<Rightarrow> (rms, qe)
      | Some tq \<Rightarrow>
          if \<not> (tq_MaxDatapoints tq > 0 \<or> tq_MaxCardinality tq > 0) then (rms, qe)
          else let tw = window_at now (tq_parsedWindow tq) (getOrCreateWindow now2 qe tenantID tq);
                   exceeded = quota_exceeded (tq_MaxDatapoints tq) (tq_MaxCardinality tq) tw dpCount seriesKeys;
                   action = (if tq_Action tq = QuotaUnset then QuotaActionAdaptive else tq_Action tq);
                   rms = (if exceeded \<and> action = QuotaActionAdaptive then adaptiveFilter rms tw tq else rms)
               in if exceeded \<and> (action = QuotaActionDrop \<or> action = QuotaActionAdaptive \<and> length rms = 0)
                  then ([], qe\<lparr>qe_tenants := (qe_tenants qe)(tenantID \<mapsto> tw)\<rparr>)
                  else (rms, qe\<lparr>qe_tenants := (qe_tenants qe)(tenantID \<mapsto>
                         (case countDatapointsAndSeries lib rms of (newDPCount, newSeriesKeys) \<Rightarrow> track tw newDPCount newSeriesKeys))\<rparr>))"

definition quota_Process :: "quota_lib \<Rightarrow> int \<Rightarrow> int \<Rightarrow> QuotaEnforcer \<Rightarrow> gostring \<Rightarrow> 'v ResourceMetrics list \<Rightarrow> 'v ResourceMetrics list \<times> QuotaEnforcer" where
  "quota_Process lib now now2 qe tenantID rms =
     (let tenantQuota = getTenantQuota qe tenantID;
          (dpCount, seriesKeys) = countDatapointsAndSeries lib rms;
          (go_on, qe) = global_level now qe tenantQuota dpCount seriesKeys
      in if go_on then tenant_level lib now now2 qe tenantID tenantQuota dpCount seriesKeys rms else ([], qe))"

subsection \<open>The pipeline\<close>

record Pipeline =
  pl_detector :: "Detector option"
  pl_quotas :: "QuotaEnforcer option"

definition NewPipeline :: "Detector option \<Rightarrow> QuotaEnforcer option \<Rightarrow> Pipeline" where
  "NewPipeline d q = \<lparr>pl_detector = d, pl_quotas = q\<rparr>"

text \<open>The buckets one after the other; each has its own clock readings.\<close>

fun process_buckets :: "quota_lib \<Rightarrow> (gostring \<Rightarrow> int \<times> int) \<Rightarrow> QuotaEnforcer \<Rightarrow> (gostring \<times> 'v ResourceMetrics list) list
    \<Rightarrow> 'v ResourceMetrics list \<times> QuotaEnforcer" where
  "process_buckets lib clock qe [] = ([], qe)"
| "process_buckets lib clock qe ((tenantID, tenantRMs) # buckets) =
     (case quota_Process lib (fst (clock tenantID)) (snd (clock tenantID)) qe tenantID tenantRMs of
        (surviving, qe) \<Rightarrow> case process_buckets lib clock qe buckets of (result, qe) \<Rightarrow> (surviving @ result, qe))"

definition ProcessBatch :: "quota_lib \<Rightarrow> (gostring \<Rightarrow> int \<times> int) \<Rightarrow> Pipeline \<Rightarrow> 'v ResourceMetrics list \<Rightarrow> gostring
    \<Rightarrow> 'v ResourceMetrics list \<times> Pipeline" where
  "ProcessBatch lib clock p rms headerTenant =
     (case pl_detector p of
        None \<Rightarrow> (rms, p)
      | Some d \<Rightarrow>
          if \<not> detector_Enabled d then (rms, p)
          else case DetectAndAnnotate d rms headerTenant of (annotated, tenantBuckets) \<Rightarrow>
            (case pl_quotas p of
               None \<Rightarrow> (annotated, p)
             | Some qe \<Rightarrow> (case process_buckets lib clock qe tenantBuckets of (result, qe) \<Rightarrow> (result, p\<lparr>pl_quotas := Some qe\<rparr>))))"

definition SetQuotaEnforcer :: "Pipeline \<Rightarrow> QuotaEnforcer option \<Rightarrow> Pipeline" where
  "SetQuotaEnforcer p qe = p\<lparr>pl_quotas := qe\<rparr>"

text \<open>Without a detector the reload dereferences nil once the configuration is valid.\<close>

definition ReloadDetector :: "Pipeline \<Rightarrow> TenantConfig \<Rightarrow> (tenant_error, Pipeline) outcome" where
  "ReloadDetector p cfg =
     (case pl_detector p of
        None \<Rightarrow> (case tenant_Validate cfg of Some e \<Rightarrow> Err e | None \<Rightarrow> Panic)
      | Some d \<Rightarrow> (case detector_ReloadConfig d cfg of (Some e, _) \<Rightarrow> Err e | (None, d) \<Rightarrow> Ok (p\<lparr>pl_detector := Some d\<rparr>)))"

section \<open>Counting lemmas\<close>

definition count_total :: "'v ResourceMetrics list \<Rightarrow> int" where
  "count_total rms = sum_list (map (\<lambda>rm. int (countRMDatapoints rm)) rms)"

lemma count_total_simps [simp]:
  "count_total [] = 0" "count_total (rm # rms) = int (countRMDatapoints rm) + count_total rms"
  by (simp_all add: count_total_def)

lemma count_total_nonneg [simp]: "0 \<le> count_total rms"
  by (induction rms) simp_all

lemma countDatapointsAndSeries_fst: "int (fst (countDatapointsAndSeries lib rms)) = count_total rms"
proof -
  have m: "fst (foldl (\<lambda>(count, keys) m. case countMetricDatapointsAndKeys lib m of (dpCount, dpKeys) \<Rightarrow> (count + dpCount, keys @ dpKeys)) acc ms)
      = fst acc + sum_list (map countMetricDatapoints ms)" for acc and ms :: "'v Metric list"
    by (induction ms arbitrary: acc) (auto simp: countMetricDatapointsAndKeys_def countMetricDatapoints_def split_beta)
  have s: "fst (foldl (\<lambda>acc sm. foldl (\<lambda>(count, keys) m. case countMetricDatapointsAndKeys lib m of (dpCount, dpKeys) \<Rightarrow> (count + dpCount, keys @ dpKeys))
       acc (sm_Metrics sm)) acc sms) = fst acc + sum_list (map (\<lambda>sm. sum_list (map countMetricDatapoints (sm_Metrics sm))) sms)"
    for acc and sms :: "'v ScopeMetrics list"
    by (induction sms arbitrary: acc) (simp_all add: m)
  have "int (fst (foldl (\<lambda>acc rm. foldl (\<lambda>acc sm. foldl (\<lambda>(count, keys) m.
         case countMetricDatapointsAndKeys lib m of (dpCount, dpKeys) \<Rightarrow> (count + dpCount, keys @ dpKeys))
       acc (sm_Metrics sm)) acc (rm_ScopeMetrics rm)) acc rms)) = int (fst acc) + count_total rms" for acc
    by (induction rms arbitrary: acc) (simp_all add: s countRMDatapoints_def)
  then show ?thesis by (simp add: countDatapointsAndSeries_def)
qed

lemma adaptive_prefix_count: "kept \<le> remaining \<Longrightarrow> kept + count_total (adaptive_prefix remaining kept rms) \<le> remaining"
proof (induction rms arbitrary: kept)
  case (Cons rm rms)
  then show ?case using Cons.IH [of "kept + int (countRMDatapoints rm)"] by (auto simp: algebra_simps)
qed simp

lemma adaptive_prefix_le: "count_total (adaptive_prefix remaining kept rms) \<le> count_total rms"
  by (induction rms arbitrary: kept) simp_all

lemma adaptiveFilter_bounds:
  "tw_datapoints tw \<le> tq_MaxDatapoints tq \<Longrightarrow> tw_datapoints tw + count_total (adaptiveFilter rms tw tq) \<le> tq_MaxDatapoints tq"
  "count_total (adaptiveFilter rms tw tq) \<le> count_total rms"
  using adaptive_prefix_count [of 0 "tq_MaxDatapoints tq - tw_datapoints tw" rms] adaptive_prefix_le
  by (auto simp: adaptiveFilter_def Let_def)

lemma track_datapoints [simp]: "tw_datapoints (track w n ks) = tw_datapoints w + int n" "tw_windowEnd (track w n ks) = tw_windowEnd w"
  by (simp_all add: track_def)

section \<open>Runs\<close>

type_synonym 'v quota_call = "int \<times> int \<times> gostring \<times> 'v ResourceMetrics list"

text \<open>Calls of \<open>Process\<close> one after the other, with the outputs of each.\<close>

fun quota_run :: "quota_lib \<Rightarrow> QuotaEnforcer \<Rightarrow> 'v quota_call list \<Rightarrow> (gostring \<times> 'v ResourceMetrics list) list" where
  "quota_run lib qe [] = []"
| "quota_run lib qe ((now, now2, tenantID, rms) # calls) =
     (case quota_Process lib now now2 qe tenantID rms of (out, qe) \<Rightarrow> (tenantID, out) # quota_run lib qe calls)"

definition let_through :: "(gostring \<Rightarrow> bool) \<Rightarrow> (gostring \<times> 'v ResourceMetrics list) list \<Rightarrow> int" where
  "let_through P outs = sum_list (map (\<lambda>(_, out). count_total out) (filter (\<lambda>(t, _). P t) outs))"

lemma let_through_simps [simp]:
  "let_through P [] = 0" "let_through P ((t, out) # outs) = (if P t then count_total out else 0) + let_through P outs"
  by (simp_all add: let_through_def)

text \<open>
  A budget: a measure of the state that grows at least by what every call lets through and never exceeds a limit. Calls for
  other tenants may be exempt.
\<close>

locale quota_budget =
  fixes lib :: quota_lib and P :: "gostring \<Rightarrow> bool" and good :: "QuotaEnforcer \<Rightarrow> bool" and used :: "QuotaEnforcer \<Rightarrow> int"
    and allowed :: "'v quota_call \<Rightarrow> bool" and limit :: int
  assumes step: "good qe \<Longrightarrow> allowed (now, now2, t, rms) \<Longrightarrow> quota_Process lib now now2 qe t rms = (out, qe')
      \<Longrightarrow> good qe' \<and> used qe + (if P t then count_total out else 0) \<le> used qe'"
    and within: "good qe \<Longrightarrow> used qe \<le> limit"
begin

lemma run_within: "good qe \<Longrightarrow> list_all allowed calls \<Longrightarrow> used qe + let_through P (quota_run lib qe calls) \<le> limit"
proof (induction calls arbitrary: qe)
  case (Cons c calls)
  obtain now now2 t rms where c: "c = (now, now2, t, rms)" by (cases c)
  obtain out qe' where r: "quota_Process lib now now2 qe t rms = (out, qe')" by fastforce
  have "good qe' \<and> used qe + (if P t then count_total out else 0) \<le> used qe'"
    using step [OF Cons.prems(1) _ r] Cons.prems(2) c by simp
  then show ?case using Cons.IH [of qe'] Cons.prems(2) by (simp add: c r)
qed (simp add: within)

end

subsection \<open>What one call does\<close>

lemma global_level_keeps [simp]:
  "qe_config (snd (global_level now qe tq n ks)) = qe_config qe" "qe_tenants (snd (global_level now qe tq n ks)) = qe_tenants qe"
  by (simp_all add: global_level_def Let_def split: option.split)

lemma tenant_level_keeps [simp]:
  "qe_config (snd (tenant_level lib now now2 qe t tq n ks rms)) = qe_config qe"
  "qe_global (snd (tenant_level lib now now2 qe t tq n ks rms)) = qe_global qe"
  by (simp_all add: tenant_level_def Let_def split: option.split)

lemma tenant_level_other: "t' \<noteq> t \<Longrightarrow> qe_tenants (snd (tenant_level lib now now2 qe t tq n ks rms)) t' = qe_tenants qe t'"
  by (simp add: tenant_level_def Let_def split: option.split)

lemma tenant_level_le: "count_total (fst (tenant_level lib now now2 qe t tq n ks rms)) \<le> count_total rms"
  using adaptiveFilter_bounds(2) by (auto simp: tenant_level_def Let_def split: option.split)

lemma Process_unfold:
  "quota_Process lib now now2 qe t rms =
     (if fst (global_level now qe (getTenantQuota qe t) (fst (countDatapointsAndSeries lib rms)) (snd (countDatapointsAndSeries lib rms)))
      then tenant_level lib now now2 (snd (global_level now qe (getTenantQuota qe t) (fst (countDatapointsAndSeries lib rms)) (snd (countDatapointsAndSeries lib rms))))
        t (getTenantQuota qe t) (fst (countDatapointsAndSeries lib rms)) (snd (countDatapointsAndSeries lib rms)) rms
      else ([], snd (global_level now qe (getTenantQuota qe t) (fst (countDatapointsAndSeries lib rms)) (snd (countDatapointsAndSeries lib rms)))))"
  by (simp add: quota_Process_def Let_def split_beta)

lemma Process_keeps [simp]:
  "qe_config (snd (quota_Process lib now now2 qe t rms)) = qe_config qe"
  "t' \<noteq> t \<Longrightarrow> qe_tenants (snd (quota_Process lib now now2 qe t rms)) t' = qe_tenants qe t'"
  by (simp_all add: Process_unfold tenant_level_other)

lemma getTenantQuota_cong: "qe_config qe' = qe_config qe \<Longrightarrow> getTenantQuota qe' t = getTenantQuota qe t"
  by (simp add: getTenantQuota_def split: option.split)

subsection \<open>The budget of a tenant\<close>

definition enforced :: "TenantQuota \<Rightarrow> bool" where
  "enforced tq \<longleftrightarrow> tq_MaxDatapoints tq > 0 \<and> tq_Action tq \<in> {QuotaUnset, QuotaActionDrop, QuotaActionAdaptive} \<and> tq_parsedWindow tq > 0"

text \<open>From \<open>start\<close> on the window of the tenant is over, or it is one that lasts as long as the window that starts then.\<close>

definition window_over :: "int \<Rightarrow> gostring \<Rightarrow> QuotaEnforcer \<Rightarrow> bool" where
  "window_over start t qe \<longleftrightarrow> (case qe_tenants qe t of None \<Rightarrow> True | Some tw \<Rightarrow> tw_windowEnd tw < start)"

definition tenant_good :: "TenantQuota \<Rightarrow> int \<Rightarrow> gostring \<Rightarrow> QuotaEnforcer \<Rightarrow> bool" where
  "tenant_good tq start t qe \<longleftrightarrow> getTenantQuota qe t = Some tq \<and>
     (window_over start t qe \<or> (\<exists>tw. qe_tenants qe t = Some tw \<and> start + tq_parsedWindow tq \<le> tw_windowEnd tw \<and> tw_datapoints tw \<le> tq_MaxDatapoints tq))"

definition tenant_used :: "int \<Rightarrow> gostring \<Rightarrow> QuotaEnforcer \<Rightarrow> int" where
  "tenant_used start t qe = (if window_over start t qe then 0 else case qe_tenants qe t of None \<Rightarrow> 0 | Some tw \<Rightarrow> tw_datapoints tw)"

definition during :: "int \<Rightarrow> int \<Rightarrow> gostring \<Rightarrow> 'v quota_call \<Rightarrow> bool" where
  "during start len t c = (case c of (now, now2, t', _) \<Rightarrow> t' = t \<longrightarrow> start \<le> now \<and> now \<le> now2 \<and> now \<le> start + len)"

lemma tenant_good_cong:
  "qe_config qe' = qe_config qe \<Longrightarrow> qe_tenants qe' t = qe_tenants qe t
    \<Longrightarrow> tenant_good tq start t qe' = tenant_good tq start t qe \<and> tenant_used start t qe' = tenant_used start t qe"
  using getTenantQuota_cong [of qe' qe t] by (simp add: tenant_good_def tenant_used_def window_over_def)

lemma window_at_good:
  assumes "enforced tq" "tenant_good tq start t qe" "start \<le> now" "now \<le> now2" "now \<le> start + tq_parsedWindow tq"
    and "tw = window_at now (tq_parsedWindow tq) (getOrCreateWindow now2 qe t tq)"
  shows "start + tq_parsedWindow tq \<le> tw_windowEnd tw" "tw_datapoints tw = tenant_used start t qe" "tw_datapoints tw \<le> tq_MaxDatapoints tq"
proof -
  let ?w = "getOrCreateWindow now2 qe t tq"
  have d: "tq_parsedWindow tq > 0" "tq_MaxDatapoints tq > 0" using assms(1) by (simp_all add: enforced_def)
  have "start + tq_parsedWindow tq \<le> tw_windowEnd tw \<and> tw_datapoints tw = tenant_used start t qe \<and> tw_datapoints tw \<le> tq_MaxDatapoints tq"
  proof (cases "window_over start t qe")
    case True
    show ?thesis
    proof (cases "qe_tenants qe t")
      case None
      then show ?thesis using assms(3-6) d True by (simp add: window_at_def getOrCreateWindow_def tenant_used_def)
    next
      case (Some w)
      then show ?thesis using assms(3-6) d True by (simp add: window_over_def window_at_def getOrCreateWindow_def tenant_used_def)
    qed
  next
    case False
    then obtain w where "qe_tenants qe t = Some w" "start + tq_parsedWindow tq \<le> tw_windowEnd w" "tw_datapoints w \<le> tq_MaxDatapoints tq"
      using assms(2) by (auto simp: tenant_good_def)
    then show ?thesis using assms(5,6) False by (simp add: window_at_def getOrCreateWindow_def tenant_used_def)
  qed
  then show "start + tq_parsedWindow tq \<le> tw_windowEnd tw" "tw_datapoints tw = tenant_used start t qe" "tw_datapoints tw \<le> tq_MaxDatapoints tq"
    by simp_all
qed

lemma tenant_level_step:
  assumes "enforced tq" "tenant_good tq start t qe" "start \<le> now" "now \<le> now2" "now \<le> start + tq_parsedWindow tq"
    and "tenant_level lib now now2 qe t (Some tq) (fst (countDatapointsAndSeries lib rms)) ks rms = (out, qe')"
  shows "tenant_good tq start t qe' \<and> tenant_used start t qe' = tenant_used start t qe + count_total out"
proof -
  define tw where "tw = window_at now (tq_parsedWindow tq) (getOrCreateWindow now2 qe t tq)"
  note w = window_at_good [OF assms(1-5) tw_def]
  have c: "qe_config qe' = qe_config qe" using tenant_level_keeps(1) assms(6) by (metis snd_conv)
  have "\<exists>tw'. qe_tenants qe' t = Some tw' \<and> tw_windowEnd tw' = tw_windowEnd tw \<and> tw_datapoints tw' = tw_datapoints tw + count_total out
      \<and> tw_datapoints tw' \<le> tq_MaxDatapoints tq"
    using assms(1,6) w(3) adaptiveFilter_bounds(1) [of tw tq rms]
    by (auto simp: tenant_level_def Let_def enforced_def split_beta countDatapointsAndSeries_fst quota_exceeded_def simp flip: tw_def split: if_splits)
  then show ?thesis
    using w assms(1,2) by (auto simp: tenant_good_def tenant_used_def window_over_def enforced_def getTenantQuota_cong [OF c])
qed

lemma Process_tenant_step:
  assumes "enforced tq" "tenant_good tq start t qe" "during start (tq_parsedWindow tq) t (now, now2, t', rms)"
    and "quota_Process lib now now2 qe t' rms = (out, qe')"
  shows "tenant_good tq start t qe' \<and> tenant_used start t qe + (if t' = t then count_total out else 0) \<le> tenant_used start t qe'"
proof (cases "t' = t")
  case False
  have "qe_config qe' = qe_config qe" "qe_tenants qe' t = qe_tenants qe t"
    using Process_keeps(1) [of lib now now2 qe t' rms] Process_keeps(2) [of t t' lib now now2 qe rms] False assms(4) by auto
  then show ?thesis using tenant_good_cong [of qe' qe t tq start] assms(2) False by simp
next
  case True
  let ?n = "fst (countDatapointsAndSeries lib rms)" and ?ks = "snd (countDatapointsAndSeries lib rms)"
  let ?g = "snd (global_level now qe (getTenantQuota qe t) ?n ?ks)"
  have g: "tenant_good tq start t ?g" "tenant_used start t ?g = tenant_used start t qe"
    using tenant_good_cong [of ?g qe t tq start] assms(2) by simp_all
  have q: "getTenantQuota qe t = Some tq" using assms(2) by (simp add: tenant_good_def)
  consider (dropped) "out = []" "qe' = ?g" | (passed) "tenant_level lib now now2 ?g t (Some tq) ?n ?ks rms = (out, qe')"
    using assms(4) by (auto simp: Process_unfold True q split: if_splits)
  then show ?thesis
  proof cases
    case passed
    show ?thesis using tenant_level_step [OF assms(1) g(1) _ _ _ passed] assms(3) g(2) True by (auto simp: during_def)
  qed (use g True in simp)
qed

interpretation tenant_budget: quota_budget lib "\<lambda>t'. t' = t" "\<lambda>qe. enforced tq \<and> tenant_good tq start t qe" "tenant_used start t"
  "during start (tq_parsedWindow tq) t" "tq_MaxDatapoints tq" for lib t tq start
proof unfold_locales
  show "enforced tq \<and> tenant_good tq start t qe \<Longrightarrow> tenant_used start t qe \<le> tq_MaxDatapoints tq" for qe
    by (auto simp: tenant_good_def tenant_used_def enforced_def window_over_def split: option.splits)
qed (use Process_tenant_step in blast)

text \<open>
  C11: a tenant gets no more through than its quota. Take any state in which the tenant's window is over at some time, and any interleaving
  of calls for any tenants after it. If the quota drops or is adaptive, the tenant's calls within one window's length
  from that time let through at most \<open>MaxDatapoints\<close> datapoints together.
\<close>

theorem tenant_quota_bounds_output:
  assumes "getTenantQuota qe t = Some tq" "enforced tq" "window_over start t qe"
    and "list_all (during start (tq_parsedWindow tq) t) calls"
  shows "let_through (\<lambda>t'. t' = t) (quota_run lib qe calls) \<le> tq_MaxDatapoints tq"
  using tenant_budget.run_within [where tq = tq and start = start and t = t and qe = qe and calls = calls and lib = lib] assms by (simp add: tenant_good_def tenant_used_def)

definition sample_quota :: TenantQuota where
  "sample_quota = \<lparr>tq_MaxDatapoints = 1, tq_MaxCardinality = 0, tq_Action = QuotaUnset, tq_Window = [], tq_Priority = 0, tq_parsedWindow = 100\<rparr>"

definition sample_quota_lib :: quota_lib where
  "sample_quota_lib = \<lparr>ql_ReadFile = (\<lambda>_. None), ql_Unmarshal = (\<lambda>_. None), ql_ParseDuration = (\<lambda>_. None), ql_g = (\<lambda>_. [])\<rparr>"

definition sample_enforcer :: QuotaEnforcer where
  "sample_enforcer = NewQuotaEnforcer 1 \<lparr>qc_Global = None, qc_Default = Some sample_quota, qc_Tenants = []\<rparr>"

lemmas sample_quota_defs = sample_quota_def sample_quota_lib_def sample_enforcer_def NewQuotaEnforcer_def getTenantQuota_def

theorem tenant_quota_bounds_output_witness:
  "let_through (\<lambda>t'. t' = [65]) (quota_run sample_quota_lib sample_enforcer
     [(1, 1, [65], [gauge_resource [] []]), (2, 2, [66], [gauge_resource [] []]), (3, 4, [65], [gauge_resource [] []])]) \<le> 1"
  using tenant_quota_bounds_output [of sample_enforcer "[65]" sample_quota 1
    "[(1, 1, [65], [gauge_resource [] []]), (2, 2, [66], [gauge_resource [] []]), (3, 4, [65], [gauge_resource [] []])]" sample_quota_lib]
  by (simp add: sample_quota_defs enforced_def window_over_def during_def)

subsection \<open>The global budget\<close>

definition global_enforced :: "GlobalQuota \<Rightarrow> bool" where
  "global_enforced gq \<longleftrightarrow> gq_MaxDatapoints gq > 0 \<and> gq_Action gq \<in> {QuotaUnset, QuotaActionDrop} \<and> gq_parsedWindow gq > 0"

definition global_good :: "GlobalQuota \<Rightarrow> int \<Rightarrow> QuotaEnforcer \<Rightarrow> bool" where
  "global_good gq start qe \<longleftrightarrow> qc_Global (qe_config qe) = Some gq \<and>
     (tw_windowEnd (qe_global qe) < start \<or> start + gq_parsedWindow gq \<le> tw_windowEnd (qe_global qe) \<and> tw_datapoints (qe_global qe) \<le> gq_MaxDatapoints gq)"

definition global_used :: "int \<Rightarrow> QuotaEnforcer \<Rightarrow> int" where
  "global_used start qe = (if tw_windowEnd (qe_global qe) < start then 0 else tw_datapoints (qe_global qe))"

lemma global_level_step:
  assumes "global_enforced gq" "global_good gq start qe" "start \<le> now" "now \<le> start + gq_parsedWindow gq"
    and "global_level now qe tq n ks = (go_on, qe')"
  shows "global_good gq start qe' \<and> global_used start qe + (if go_on then int n else 0) \<le> global_used start qe'"
proof -
  define g where "g = window_at now (gq_parsedWindow gq) (qe_global qe)"
  have d: "gq_parsedWindow gq > 0" "gq_MaxDatapoints gq > 0" using assms(1) by (simp_all add: global_enforced_def)
  have g: "start + gq_parsedWindow gq \<le> tw_windowEnd g" "tw_datapoints g = global_used start qe" "tw_datapoints g \<le> gq_MaxDatapoints gq"
    using assms(2-4) d by (auto simp: g_def window_at_def global_good_def global_used_def)
  have gq: "qc_Global (qe_config qe) = Some gq" using assms(2) by (simp add: global_good_def)
  have c: "qe_config qe' = qe_config qe" using assms(5) global_level_keeps(1) by (metis snd_conv)
  consider "\<not> go_on" "qe_global qe' = g" | "go_on" "qe_global qe' = track g n ks" "tw_datapoints g + int n \<le> gq_MaxDatapoints gq"
    using assms(1,5) d gq by (auto simp: global_level_def Let_def quota_exceeded_def global_enforced_def simp flip: g_def split: if_splits)
  then show ?thesis using g d by cases (auto simp: global_good_def global_used_def c gq)
qed

lemma Process_global_step:
  assumes "global_enforced gq" "global_good gq start qe" "start \<le> now" "now \<le> start + gq_parsedWindow gq"
    and "quota_Process lib now now2 qe t rms = (out, qe')"
  shows "global_good gq start qe' \<and> global_used start qe + count_total out \<le> global_used start qe'"
proof -
  let ?n = "fst (countDatapointsAndSeries lib rms)" and ?ks = "snd (countDatapointsAndSeries lib rms)"
  obtain go_on qe1 where g: "global_level now qe (getTenantQuota qe t) ?n ?ks = (go_on, qe1)" by fastforce
  note s = global_level_step [OF assms(1-4) g]
  show ?thesis
  proof (cases go_on)
    case True
    then have r: "tenant_level lib now now2 qe1 t (getTenantQuota qe t) ?n ?ks rms = (out, qe')"
      using assms(5) g by (simp add: Process_unfold)
    have "count_total out \<le> int ?n" using tenant_level_le [of lib now now2 qe1 t _ ?n ?ks rms] r by (metis countDatapointsAndSeries_fst fst_conv)
    moreover have "qe_config qe' = qe_config qe1" "qe_global qe' = qe_global qe1"
      using tenant_level_keeps [of lib now now2 qe1 t "getTenantQuota qe t" ?n ?ks rms] r by simp_all
    ultimately show ?thesis using s True by (auto simp: global_good_def global_used_def)
  next
    case False
    then show ?thesis using s assms(5) g by (simp add: Process_unfold)
  qed
qed

interpretation global_budget: quota_budget lib "\<lambda>_. True" "\<lambda>qe. global_enforced gq \<and> global_good gq start qe" "global_used start"
  "\<lambda>(now, _). start \<le> now \<and> now \<le> start + gq_parsedWindow gq" "gq_MaxDatapoints gq" for lib gq start
proof unfold_locales
  show "global_enforced gq \<and> global_good gq start qe \<Longrightarrow> global_used start qe \<le> gq_MaxDatapoints gq" for qe
    by (auto simp: global_good_def global_used_def global_enforced_def)
qed (auto dest: Process_global_step)

text \<open>
  the global quota protects the backend. When its window is over at some time and it drops, the calls for all tenants within
  one window's length from that time let through at most the global \<open>MaxDatapoints\<close> together, whatever the quotas of the tenants.
\<close>

theorem global_quota_bounds_output:
  assumes "qc_Global (qe_config qe) = Some gq" "global_enforced gq" "tw_windowEnd (qe_global qe) < start"
    and "list_all (\<lambda>(now, _). start \<le> now \<and> now \<le> start + gq_parsedWindow gq) calls"
  shows "let_through (\<lambda>_. True) (quota_run lib qe calls) \<le> gq_MaxDatapoints gq"
  using global_budget.run_within [where gq = gq and start = start and qe = qe and calls = calls and lib = lib] assms by (simp add: global_good_def global_used_def)

theorem global_quota_bounds_output_witness:
  "let_through (\<lambda>_. True) (quota_run sample_quota_lib (NewQuotaEnforcer 1 \<lparr>qc_Global = Some \<lparr>gq_MaxDatapoints = 1, gq_MaxCardinality = 0,
       gq_Action = QuotaActionDrop, gq_Window = [], gq_parsedWindow = 100\<rparr>, qc_Default = None, qc_Tenants = []\<rparr>)
     [(1, 1, [65], [gauge_resource [] []]), (2, 2, [66], [gauge_resource [] []])]) \<le> 1"
  using global_quota_bounds_output [of "NewQuotaEnforcer 1 \<lparr>qc_Global = Some \<lparr>gq_MaxDatapoints = 1, gq_MaxCardinality = 0,
       gq_Action = QuotaActionDrop, gq_Window = [], gq_parsedWindow = 100\<rparr>, qc_Default = None, qc_Tenants = []\<rparr>" _ 1
     "[(1, 1, [65], [gauge_resource [] []]), (2, 2, [66], [gauge_resource [] []])]" sample_quota_lib]
  by (simp add: NewQuotaEnforcer_def global_enforced_def zero_window_def)

section \<open>Isolation\<close>

definition no_global :: "QuotaEnforcer \<Rightarrow> bool" where
  "no_global qe \<longleftrightarrow> (case qc_Global (qe_config qe) of None \<Rightarrow> True | Some gq \<Rightarrow> gq_MaxDatapoints gq \<le> 0 \<and> gq_MaxCardinality gq \<le> 0)"

lemma no_global_level: "no_global qe \<Longrightarrow> global_level now qe tq n ks = (True, qe)"
  by (auto simp: no_global_def global_level_def split: option.splits)

lemma tenant_level_cong:
  assumes "qe_tenants qe' t = qe_tenants qe t"
  shows "fst (tenant_level lib now now2 qe' t tq n ks rms) = fst (tenant_level lib now now2 qe t tq n ks rms)
    \<and> (qe_tenants (snd (tenant_level lib now now2 qe' t tq n ks rms)) t = qe_tenants (snd (tenant_level lib now now2 qe t tq n ks rms)) t)"
proof -
  have "getOrCreateWindow now2 qe' t q = getOrCreateWindow now2 qe t q" for q by (simp add: getOrCreateWindow_def assms)
  then show ?thesis by (simp add: tenant_level_def Let_def assms split: option.split)
qed

lemma Process_cong:
  assumes "no_global qe" "qe_config qe' = qe_config qe" "qe_tenants qe' t = qe_tenants qe t"
  shows "fst (quota_Process lib now now2 qe' t rms) = fst (quota_Process lib now now2 qe t rms)
    \<and> qe_tenants (snd (quota_Process lib now now2 qe' t rms)) t = qe_tenants (snd (quota_Process lib now now2 qe t rms)) t"
proof -
  have "no_global qe'" using assms(1,2) by (simp add: no_global_def)
  then show ?thesis
    using assms tenant_level_cong [OF assms(3)] getTenantQuota_cong [OF assms(2), of t] by (simp add: Process_unfold no_global_level)
qed

text \<open>
  C22: without a global quota tenants do not influence each other. In any interleaving of calls the outputs for a tenant are
  those of an enforcer that gets the calls of this tenant only.
\<close>

theorem tenants_isolated:
  assumes "no_global qe"
  shows "filter (\<lambda>(t', _). t' = t) (quota_run lib qe calls) = quota_run lib qe (filter (\<lambda>(_, _, t', _). t' = t) calls)"
proof -
  have "filter (\<lambda>(t', _). t' = t) (quota_run lib qe1 calls) = quota_run lib qe2 (filter (\<lambda>(_, _, t', _). t' = t) calls)"
    if "no_global qe1" "qe_config qe2 = qe_config qe1" "qe_tenants qe2 t = qe_tenants qe1 t" for qe1 qe2
    using that
  proof (induction calls arbitrary: qe1 qe2)
    case (Cons c calls)
    obtain now now2 t' rms where c: "c = (now, now2, t', rms)" by (cases c)
    let ?p = "\<lambda>qe. quota_Process lib now now2 qe t' rms"
    have n: "no_global (snd (?p qe1))" using Cons.prems(1) by (simp add: no_global_def)
    show ?case
    proof (cases "t' = t")
      case True
      then show ?thesis
        using Cons.IH [OF n, of "snd (?p qe2)"] Process_cong [OF Cons.prems, of lib now now2 rms] Cons.prems(2) by (simp add: c split_beta)
    next
      case False
      then show ?thesis using Cons.IH [OF n, of qe2] Cons.prems by (simp add: c split_beta)
    qed
  qed simp
  from this [OF assms] show ?thesis by simp
qed

theorem tenants_isolated_witness:
  "filter (\<lambda>(t', _). t' = [65]) (quota_run sample_quota_lib sample_enforcer [(1, 1, [65], [gauge_resource [] []]), (2, 2, [66], [gauge_resource [] []])])
   = quota_run sample_quota_lib sample_enforcer [(1, 1, [65], [gauge_resource [] []])]"
  using tenants_isolated [of sample_enforcer "[65]" sample_quota_lib "[(1, 1, [65], [gauge_resource [] []]), (2, 2, [66], [gauge_resource [] []])]"]
  by (simp add: sample_quota_defs no_global_def)

section \<open>Adaptive quotas and cardinality\<close>

lemma adaptive_prefix_all: "kept + count_total rms \<le> remaining \<Longrightarrow> adaptive_prefix remaining kept rms = rms"
proof (induction rms arbitrary: kept)
  case (Cons rm rms)
  have "kept + int (countRMDatapoints rm) \<le> remaining" using Cons.prems count_total_nonneg [of rms] by (simp del: count_total_nonneg)
  then show ?case using Cons by (simp add: add.assoc)
qed simp

text \<open>
  adaptive quotas, which are the default, do not limit cardinality. When a batch has more new series than \<open>MaxCardinality\<close> allows, then it
  passes as a whole as long as its datapoints fit; and if the quota limits only the cardinality, nothing of it passes, not even the
  resources whose series are known already.
\<close>

theorem adaptive_ignores_cardinality:
  assumes "no_global qe" "getTenantQuota qe t = Some tq" "tq_Action tq \<in> {QuotaUnset, QuotaActionAdaptive}" "tq_MaxCardinality tq > 0"
    and "tw = window_at now (tq_parsedWindow tq) (getOrCreateWindow now2 qe t tq)" "tw_datapoints tw \<ge> 0" "rms \<noteq> []"
    and "int (length (tw_cardinality tw) + countNewSeries (tw_cardinality tw) (snd (countDatapointsAndSeries lib rms))) > tq_MaxCardinality tq"
  shows "(tw_datapoints tw < tq_MaxDatapoints tq \<and> tw_datapoints tw + count_total rms \<le> tq_MaxDatapoints tq
      \<longrightarrow> fst (quota_Process lib now now2 qe t rms) = rms)
    \<and> (tq_MaxDatapoints tq = 0 \<longrightarrow> fst (quota_Process lib now now2 qe t rms) = [])"
proof -
  have "quota_exceeded (tq_MaxDatapoints tq) (tq_MaxCardinality tq) tw n (snd (countDatapointsAndSeries lib rms))" for n
    using assms(4,8) by (simp add: quota_exceeded_def)
  moreover have "tw_datapoints tw < tq_MaxDatapoints tq \<and> tw_datapoints tw + count_total rms \<le> tq_MaxDatapoints tq \<longrightarrow> adaptiveFilter rms tw tq = rms"
    "tq_MaxDatapoints tq = 0 \<longrightarrow> adaptiveFilter rms tw tq = []"
    using assms(6) adaptive_prefix_all [of 0 rms "tq_MaxDatapoints tq - tw_datapoints tw"] by (auto simp: adaptiveFilter_def Let_def)
  ultimately show ?thesis
    using assms(1-4,7) by (auto simp: Process_unfold no_global_level tenant_level_def Let_def simp flip: assms(5))
qed

theorem adaptive_ignores_cardinality_witness:
  "let qe = NewQuotaEnforcer 1 \<lparr>qc_Global = None, qc_Default = Some (sample_quota\<lparr>tq_MaxDatapoints := 10, tq_MaxCardinality := 1\<rparr>), qc_Tenants = []\<rparr>;
       rms = [gauge_resource [] [], gauge_resource [] [\<lparr>kv_Key = [1], kv_Value = None\<rparr>]]
   in fst (quota_Process sample_quota_lib 1 1 qe [65] rms) = rms"
proof -
  let ?qe = "NewQuotaEnforcer 1 \<lparr>qc_Global = None, qc_Default = Some (sample_quota\<lparr>tq_MaxDatapoints := 10, tq_MaxCardinality := 1\<rparr>), qc_Tenants = []\<rparr>"
  let ?rms = "[gauge_resource [] [], gauge_resource [] [\<lparr>kv_Key = [1], kv_Value = None\<rparr>]]"
  have "fst (quota_Process sample_quota_lib 1 1 ?qe [65] ?rms) = ?rms"
    using adaptive_ignores_cardinality [of ?qe "[65]" "sample_quota\<lparr>tq_MaxDatapoints := 10, tq_MaxCardinality := 1\<rparr>" _ 1 1 ?rms sample_quota_lib, OF _ _ _ _ refl]
    by (simp add: sample_quota_defs no_global_def window_at_def getOrCreateWindow_def countNewSeries_def countDatapointsAndSeries_def
      countMetricDatapointsAndKeys_def countRMDatapoints_def countMetricDatapoints_def metric_points_def gauge_resource_def)
  then show ?thesis by (simp add: Let_def)
qed

section \<open>The pipeline\<close>

lemma adaptive_prefix_take: "\<exists>n. adaptive_prefix remaining kept rms = take n rms"
proof (induction rms arbitrary: kept)
  case (Cons rm rms)
  obtain n where "adaptive_prefix remaining (kept + int (countRMDatapoints rm)) rms = take n rms" using Cons.IH by blast
  then show ?case by (intro exI [of _ "if kept + int (countRMDatapoints rm) \<le> remaining then Suc n else 0"]) simp
qed simp

lemma Process_takes_prefix: "\<exists>n. fst (quota_Process lib now now2 qe t rms) = take n rms"
proof -
  have "\<exists>n. fst (tenant_level lib now now2 qe t tq c ks rms) = take n rms" for qe tq c ks
  proof -
    have id: "\<exists>n. rms = take n rms" "\<exists>n. [] = take n rms" by (metis take_all_iff order_refl, metis take0)
    have "\<exists>n. adaptiveFilter rms tw q = take n rms" for tw q
      using adaptive_prefix_take id by (auto simp: adaptiveFilter_def Let_def)
    then show ?thesis using id by (auto simp: tenant_level_def Let_def split: option.split)
  qed
  then show ?thesis by (auto simp: Process_unfold intro: exI [of _ 0])
qed

lemma process_buckets_subset: "mset (fst (process_buckets lib clock qe buckets)) \<subseteq># mset (concat (map snd buckets))"
proof (induction buckets arbitrary: qe)
  case (Cons b buckets)
  obtain t rms where b: "b = (t, rms)" by fastforce
  let ?p = "quota_Process lib (fst (clock t)) (snd (clock t)) qe t rms"
  have "mset (fst ?p) \<subseteq># mset rms"
    using Process_takes_prefix [of lib "fst (clock t)" "snd (clock t)" qe t rms] by (metis mset_subset_eq_add_left mset_append append_take_drop_id)
  then show ?case using Cons.IH [of "snd ?p"] by (simp add: b split_beta subset_mset.add_mono)
qed simp

text \<open>
  the tenant pipeline only removes. Whatever the quotas, the resources it returns are among those that detection annotated, each at most as
  often as it came in, and without quotas they are all of them in order.
\<close>

theorem ProcessBatch_only_removes:
  assumes "pl_detector p = Some d" "detector_Enabled d"
  shows "mset (fst (ProcessBatch lib clock p rms headerTenant)) \<subseteq># mset (fst (DetectAndAnnotate d rms headerTenant))
    \<and> (pl_quotas p = None \<longrightarrow> fst (ProcessBatch lib clock p rms headerTenant) = fst (DetectAndAnnotate d rms headerTenant))"
proof -
  let ?k = "\<lambda>rm. detectTenant rm headerTenant (det_config d)"
  have "mset (concat (map snd (snd (DetectAndAnnotate d rms headerTenant)))) = mset (fst (DetectAndAnnotate d rms headerTenant))"
    using mset_grouping [of ?k "\<lambda>rm. annotate (det_config d) (?k rm) rm" "[]" rms] by (simp add: DetectAndAnnotate_def Let_def)
  then show ?thesis
    using assms process_buckets_subset [of lib clock _ "snd (DetectAndAnnotate d rms headerTenant)"]
    by (auto simp: ProcessBatch_def split_beta split: option.split)
qed

theorem ProcessBatch_only_removes_witness:
  "mset (fst (ProcessBatch sample_quota_lib (\<lambda>_. (1, 1)) \<lparr>pl_detector = Some \<lparr>det_config = tenant_DefaultConfig\<lparr>tc_Enabled := True\<rparr>\<rparr>, pl_quotas = Some sample_enforcer\<rparr>
       [gauge_resource [] [], gauge_resource [] []] [65]))
   \<subseteq># mset (fst (DetectAndAnnotate \<lparr>det_config = tenant_DefaultConfig\<lparr>tc_Enabled := True\<rparr>\<rparr> [gauge_resource [] [], gauge_resource [] []] [65]))"
  using ProcessBatch_only_removes [of "\<lparr>pl_detector = Some \<lparr>det_config = tenant_DefaultConfig\<lparr>tc_Enabled := True\<rparr>\<rparr>, pl_quotas = Some sample_enforcer\<rparr>"
    "\<lparr>det_config = tenant_DefaultConfig\<lparr>tc_Enabled := True\<rparr>\<rparr>"]
  by (simp add: detector_Enabled_def)

end
