(* ===== verification/Batch_Queue.thy ===== *)
theory Batch_Queue
  imports Send_Queue
begin

text \<open>
  The queue of typed batches and the spillover states: \<open>internal/queue/batchqueue.go\<close>. The channel is a list with the capacity \<open>MaxSize\<close>; its
  counters are updated in the same step. A push that blocks waits in a \<open>select\<close>: an explicit list gives, for every
  time it wakes, what other goroutines did to the queue meanwhile and which case is taken. \<open>'r\<close> is the
  type of requests, whose \<open>SizeVT\<close> is a parameter. Ratios and percentages are floats: an ordered type \<open>'f\<close> with the operations \<open>spill_lib\<close>.
  Prometheus counters are left out.
\<close>

section \<open>The queue of batches\<close>

record 'r ExportBatch =
  eb_request :: 'r
  eb_Timestamp :: int
  eb_EstimatedBytes :: nat

definition NewExportBatch :: "('r \<Rightarrow> nat) \<Rightarrow> int \<Rightarrow> 'r \<Rightarrow> 'r ExportBatch" where
  "NewExportBatch SizeVT now req = \<lparr>eb_request = req, eb_Timestamp = now, eb_EstimatedBytes = SizeVT req\<rparr>"

definition ToRequest :: "'r ExportBatch \<Rightarrow> 'r" where
  "ToRequest b = eb_request b"

record MemoryBatchQueueConfig =
  bc_MaxSize :: int
  bc_MaxBytes :: int
  bc_FullBehavior :: string
  bc_BlockTimeout :: int

datatype batch_error = ErrBatchQueueClosed | ErrBatchQueueFull

record 'r MemoryBatchQueue =
  bq_ch :: "'r ExportBatch list"
  bq_config :: MemoryBatchQueueConfig
  bq_activeCount :: int
  bq_activeBytes :: int
  bq_totalPushed :: int
  bq_totalPopped :: int
  bq_totalDropped :: int
  bq_totalBytes :: int
  bq_closed :: bool

definition batch_defaults :: "MemoryBatchQueueConfig \<Rightarrow> MemoryBatchQueueConfig" where
  "batch_defaults c =
     c\<lparr>bc_MaxSize := (if bc_MaxSize c \<le> 0 then 1024 else bc_MaxSize c),
       bc_FullBehavior := (if bc_FullBehavior c = [] then DropOldest else bc_FullBehavior c),
       bc_BlockTimeout := (if bc_BlockTimeout c \<le> 0 then 30 * 10 ^ 9 else bc_BlockTimeout c)\<rparr>"

definition NewMemoryBatchQueue :: "MemoryBatchQueueConfig \<Rightarrow> 'r MemoryBatchQueue" where
  "NewMemoryBatchQueue c = \<lparr>bq_ch = [], bq_config = batch_defaults c, bq_activeCount = 0, bq_activeBytes = 0, bq_totalPushed = 0,
     bq_totalPopped = 0, bq_totalDropped = 0, bq_totalBytes = 0, bq_closed = False\<rparr>"

definition ch_space :: "'r MemoryBatchQueue \<Rightarrow> bool" where
  "ch_space q \<longleftrightarrow> int (length (bq_ch q)) < bc_MaxSize (bq_config q)"

definition bq_send :: "'r MemoryBatchQueue \<Rightarrow> 'r ExportBatch \<Rightarrow> 'r MemoryBatchQueue" where
  "bq_send q b =
     q\<lparr>bq_ch := bq_ch q @ [b], bq_activeCount := bq_activeCount q + 1, bq_activeBytes := bq_activeBytes q + int (eb_EstimatedBytes b),
       bq_totalPushed := bq_totalPushed q + 1, bq_totalBytes := bq_totalBytes q + int (eb_EstimatedBytes b)\<rparr>"

definition bq_drop :: "'r MemoryBatchQueue \<Rightarrow> 'r MemoryBatchQueue" where
  "bq_drop q = q\<lparr>bq_totalDropped := bq_totalDropped q + 1\<rparr>"

definition bq_evict :: "'r MemoryBatchQueue \<Rightarrow> 'r MemoryBatchQueue" where
  "bq_evict q =
     (case bq_ch q of
        [] \<Rightarrow> q
      | b # bs \<Rightarrow> q\<lparr>bq_ch := bs, bq_activeCount := bq_activeCount q - 1, bq_activeBytes := bq_activeBytes q - int (eb_EstimatedBytes b),
                    bq_totalDropped := bq_totalDropped q + 1\<rparr>)"

datatype select_case = CaseSend | CaseTimer | CaseTick

type_synonym 'r select_wakeup = "('r MemoryBatchQueue \<Rightarrow> 'r MemoryBatchQueue) \<times> select_case"

text \<open>Sending on a closed channel panics. A case that is not ready is not taken; \<open>None\<close> is a goroutine that still waits.\<close>

fun block_push :: "'r select_wakeup list \<Rightarrow> 'r MemoryBatchQueue \<Rightarrow> 'r ExportBatch \<Rightarrow> (unit, batch_error option \<times> 'r MemoryBatchQueue) outcome option" where
  "block_push [] q b = None"
| "block_push ((others, c) # wakes) q b =
     (let q = others q
      in case c of
           CaseSend \<Rightarrow> if bq_closed q then Some Panic else if ch_space q then Some (Ok (None, bq_send q b)) else block_push wakes q b
         | CaseTimer \<Rightarrow> Some (Ok (Some ErrBatchQueueFull, bq_drop q))
         | CaseTick \<Rightarrow> if bq_closed q then Some (Ok (Some ErrBatchQueueClosed, q)) else block_push wakes q b)"

definition handleFullLocked :: "'r select_wakeup list \<Rightarrow> 'r MemoryBatchQueue \<Rightarrow> 'r ExportBatch
    \<Rightarrow> (unit, batch_error option \<times> 'r MemoryBatchQueue) outcome option" where
  "handleFullLocked wakes q b =
     (let behavior = bc_FullBehavior (bq_config q)
      in if behavior = DropOldest then
           (let q = bq_evict q
            in if ch_space q then Some (Ok (None, bq_send q b)) else Some (Ok (Some ErrBatchQueueFull, bq_drop q)))
         else if behavior = DropNewest then Some (Ok (Some ErrBatchQueueFull, bq_drop q))
         else if behavior = Block then block_push wakes q b
         else Some (Ok (Some ErrBatchQueueFull, bq_drop q)))"

definition PushBatch :: "'r select_wakeup list \<Rightarrow> 'r MemoryBatchQueue \<Rightarrow> 'r ExportBatch
    \<Rightarrow> (unit, batch_error option \<times> 'r MemoryBatchQueue) outcome option" where
  "PushBatch wakes q b =
     (if bq_closed q then Some (Ok (Some ErrBatchQueueClosed, q))
      else if bc_MaxBytes (bq_config q) > 0 \<and> bq_activeBytes q + int (eb_EstimatedBytes b) > bc_MaxBytes (bq_config q) then handleFullLocked wakes q b
      else if ch_space q then Some (Ok (None, bq_send q b))
      else handleFullLocked wakes q b)"

definition bq_receive :: "'r ExportBatch \<Rightarrow> 'r ExportBatch list \<Rightarrow> 'r MemoryBatchQueue \<Rightarrow> 'r MemoryBatchQueue" where
  "bq_receive b bs q =
     q\<lparr>bq_ch := bs, bq_activeCount := bq_activeCount q - 1, bq_activeBytes := bq_activeBytes q - int (eb_EstimatedBytes b),
       bq_totalPopped := bq_totalPopped q + 1\<rparr>"

definition PopBatch :: "'r MemoryBatchQueue \<Rightarrow> (batch_error + 'r ExportBatch option) \<times> 'r MemoryBatchQueue" where
  "PopBatch q =
     (case bq_ch q of
        b # bs \<Rightarrow> (Inr (Some b), bq_receive b bs q)
      | [] \<Rightarrow> (if bq_closed q then Inl ErrBatchQueueClosed else Inr None, q))"

text \<open>\<open>is_done\<close>: the channel \<open>done\<close> is closed; \<open>prefer_done\<close>: the choice when both cases are ready. \<open>None\<close>: it still waits.\<close>

definition PopBatchBlocking :: "bool \<Rightarrow> bool \<Rightarrow> 'r MemoryBatchQueue \<Rightarrow> ((batch_error + 'r ExportBatch option) \<times> 'r MemoryBatchQueue) option" where
  "PopBatchBlocking is_done prefer_done q =
     (let ready = (bq_ch q \<noteq> [] \<or> bq_closed q)
      in if is_done \<and> (prefer_done \<or> \<not> ready) then Some (Inr None, q)
         else if ready then Some (PopBatch q)
         else None)"

definition bq_Close :: "'r MemoryBatchQueue \<Rightarrow> 'r MemoryBatchQueue" where
  "bq_Close q = (if bq_closed q then q else q\<lparr>bq_closed := True\<rparr>)"

definition bq_Len :: "'r MemoryBatchQueue \<Rightarrow> int" where "bq_Len q = bq_activeCount q"
definition bq_Size :: "'r MemoryBatchQueue \<Rightarrow> int" where "bq_Size q = bq_activeBytes q"

definition bq_IsFull :: "'r MemoryBatchQueue \<Rightarrow> bool" where
  "bq_IsFull q \<longleftrightarrow> bq_activeCount q \<ge> bc_MaxSize (bq_config q)
     \<or> bc_MaxBytes (bq_config q) > 0 \<and> bq_activeBytes q \<ge> bc_MaxBytes (bq_config q)"

section \<open>Spillover states\<close>

record 'f spill_lib =
  sl_ratio :: "int \<Rightarrow> int \<Rightarrow> 'f"
  sl_add10 :: "'f \<Rightarrow> 'f"
  sl_add15 :: "'f \<Rightarrow> 'f"

definition Utilization :: "('f :: linorder) spill_lib \<Rightarrow> 'r MemoryBatchQueue \<Rightarrow> 'f" where
  "Utilization lib q =
     (let countUtil = sl_ratio lib (bq_activeCount q) (bc_MaxSize (bq_config q));
          byteUtil = sl_ratio lib (bq_activeBytes q) (bc_MaxBytes (bq_config q))
      in if bc_MaxBytes (bq_config q) > 0 \<and> byteUtil > countUtil then byteUtil else countUtil)"

datatype SpilloverMode = SpilloverMemoryOnly | SpilloverPartialDisk | SpilloverAllDisk | SpilloverLoadShedding

fun spill_level :: "SpilloverMode \<Rightarrow> nat" where
  "spill_level SpilloverMemoryOnly = 0"
| "spill_level SpilloverPartialDisk = 1"
| "spill_level SpilloverAllDisk = 2"
| "spill_level SpilloverLoadShedding = 3"

text \<open>The modes are compared as the integers they are.\<close>

instantiation SpilloverMode :: linorder
begin

definition less_eq_SpilloverMode :: "SpilloverMode \<Rightarrow> SpilloverMode \<Rightarrow> bool" where
  "less_eq_SpilloverMode a b \<longleftrightarrow> spill_level a \<le> spill_level b"

definition less_SpilloverMode :: "SpilloverMode \<Rightarrow> SpilloverMode \<Rightarrow> bool" where
  "less_SpilloverMode a b \<longleftrightarrow> spill_level a < spill_level b"

instance
proof
  fix a b :: SpilloverMode
  show "a \<le> b \<Longrightarrow> b \<le> a \<Longrightarrow> a = b" by (cases a; cases b) (simp_all add: less_eq_SpilloverMode_def)
qed (auto simp: less_eq_SpilloverMode_def less_SpilloverMode_def)

end

fun step_down :: "SpilloverMode \<Rightarrow> SpilloverMode" where
  "step_down SpilloverLoadShedding = SpilloverAllDisk"
| "step_down SpilloverAllDisk = SpilloverPartialDisk"
| "step_down _ = SpilloverMemoryOnly"

record SpilloverState =
  ss_mode :: SpilloverMode
  ss_counter :: u64
  ss_startTime :: int

definition NewSpilloverState :: SpilloverState where
  "NewSpilloverState = \<lparr>ss_mode = SpilloverMemoryOnly, ss_counter = 0, ss_startTime = 0\<rparr>"

definition target_mode :: "('f :: linorder) spill_lib \<Rightarrow> SpilloverMode \<Rightarrow> 'f \<Rightarrow> int \<Rightarrow> int \<Rightarrow> SpilloverMode" where
  "target_mode lib mode utilization spillPct hysteresisPct =
     (let spillThresh = sl_ratio lib spillPct 100;
          partialThresh = spillThresh;
          allDiskThresh = sl_add10 lib spillThresh;
          loadShedThresh = sl_add15 lib spillThresh;
          recoveryThresh = sl_ratio lib hysteresisPct 100
      in if utilization \<ge> loadShedThresh then SpilloverLoadShedding
         else if utilization \<ge> allDiskThresh then SpilloverAllDisk
         else if utilization \<ge> partialThresh then SpilloverPartialDisk
         else if utilization < recoveryThresh then SpilloverMemoryOnly
         else mode)"

definition next_mode :: "SpilloverMode \<Rightarrow> SpilloverMode \<Rightarrow> SpilloverMode" where
  "next_mode target mode =
     (if target > mode then target
      else if target < mode then (if target = SpilloverMemoryOnly then SpilloverMemoryOnly else step_down mode)
      else mode)"

definition Evaluate :: "('f :: linorder) spill_lib \<Rightarrow> int \<Rightarrow> SpilloverState \<Rightarrow> 'f \<Rightarrow> int \<Rightarrow> int \<Rightarrow> SpilloverMode \<times> SpilloverState" where
  "Evaluate lib now s utilization spillPct hysteresisPct =
     (let mode = next_mode (target_mode lib (ss_mode s) utilization spillPct hysteresisPct) (ss_mode s);
          startTime = (if ss_mode s = SpilloverMemoryOnly \<and> mode \<noteq> SpilloverMemoryOnly then now else ss_startTime s)
      in (mode, s\<lparr>ss_mode := mode, ss_startTime := startTime\<rparr>))"

definition ShouldSpillThisBatch :: "SpilloverState \<Rightarrow> bool \<times> SpilloverState" where
  "ShouldSpillThisBatch s =
     (if ss_mode s \<noteq> SpilloverPartialDisk then (ss_mode s \<ge> SpilloverAllDisk, s)
      else let counter = ss_counter s + 1 in (counter mod 2 = 0, s\<lparr>ss_counter := counter\<rparr>))"

section \<open>Queue modes\<close>

datatype QueueMode = QueueModeMemory | QueueModeDisk | QueueModeHybrid | QueueModeOther string

definition ValidQueueModes :: "(QueueMode \<times> string) list" where
  "ValidQueueModes = [(QueueModeMemory, ''memory''), (QueueModeDisk, ''disk''), (QueueModeHybrid, ''hybrid'')]"

definition IsValidQueueMode :: "string \<Rightarrow> bool" where
  "IsValidQueueMode mode \<longleftrightarrow> mode \<in> snd ` set ValidQueueModes"

section \<open>Order and counters\<close>

definition batch_bytes :: "'r ExportBatch list \<Rightarrow> int" where
  "batch_bytes bs = sum_list (map (\<lambda>b. int (eb_EstimatedBytes b)) bs)"

lemma batch_bytes_simps [simp]:
  "batch_bytes [] = 0" "batch_bytes (b # bs) = int (eb_EstimatedBytes b) + batch_bytes bs" "batch_bytes (bs @ bs') = batch_bytes bs + batch_bytes bs'"
  by (simp_all add: batch_bytes_def)

lemma batch_bytes_nonneg: "0 \<le> batch_bytes bs"
  by (induction bs) simp_all

definition bq_ok :: "'r MemoryBatchQueue \<Rightarrow> bool" where
  "bq_ok q \<longleftrightarrow> \<not> bq_closed q \<and> bc_MaxSize (bq_config q) > 0 \<and> int (length (bq_ch q)) \<le> bc_MaxSize (bq_config q)
     \<and> bq_activeCount q = int (length (bq_ch q)) \<and> bq_activeBytes q = batch_bytes (bq_ch q)"

text \<open>A push that does not return leaves the queue as it is.\<close>

definition bq_push :: "'r MemoryBatchQueue \<Rightarrow> 'r ExportBatch \<Rightarrow> 'r MemoryBatchQueue" where
  "bq_push q b = (case PushBatch [] q b of Some (Ok (_, q)) \<Rightarrow> q | _ \<Rightarrow> q)"

definition bq_pop :: "'r MemoryBatchQueue \<Rightarrow> 'r ExportBatch option \<times> 'r MemoryBatchQueue" where
  "bq_pop q = (case PopBatch q of (Inr r, q) \<Rightarrow> (r, q) | (Inl _, q) \<Rightarrow> (None, q))"

lemma push_cases:
  assumes "bq_ok q"
  obtains "bq_push q b = bq_send q b" "ch_space q" "bc_MaxBytes (bq_config q) > 0 \<longrightarrow> bq_activeBytes q + int (eb_EstimatedBytes b) \<le> bc_MaxBytes (bq_config q)"
  | "bq_push q b = bq_send (bq_evict q) b" "ch_space (bq_evict q)" "bc_FullBehavior (bq_config q) = DropOldest"
  | "bq_push q b = bq_drop q" | "bq_push q b = q"
proof -
  have space: "ch_space (bq_evict q)"
    using assms by (auto simp: bq_ok_def ch_space_def bq_evict_def split: list.split)
  let ?fits = "bc_MaxBytes (bq_config q) > 0 \<longrightarrow> bq_activeBytes q + int (eb_EstimatedBytes b) \<le> bc_MaxBytes (bq_config q)"
  have full: "handleFullLocked [] q b = Some (Ok (None, bq_send (bq_evict q) b)) \<and> bc_FullBehavior (bq_config q) = DropOldest
      \<or> handleFullLocked [] q b = Some (Ok (Some ErrBatchQueueFull, bq_drop q)) \<or> handleFullLocked [] q b = None"
    using space by (simp add: handleFullLocked_def Let_def)
  have "PushBatch [] q b = (if ?fits \<and> ch_space q then Some (Ok (None, bq_send q b)) else handleFullLocked [] q b)"
    using assms by (auto simp: PushBatch_def bq_ok_def)
  then show thesis using that full space by (cases "?fits \<and> ch_space q") (auto simp: bq_push_def)
qed

lemma bq_frames [simp]:
  "bq_config (bq_send q b) = bq_config q" "bq_config (bq_evict q) = bq_config q" "bq_config (bq_drop q) = bq_config q" "bq_config (bq_receive b bs q) = bq_config q"
  "bq_ch (bq_send q b) = bq_ch q @ [b]" "bq_ch (bq_evict q) = tl (bq_ch q)" "bq_ch (bq_drop q) = bq_ch q" "bq_ch (bq_receive b bs q) = bs"
  "bq_activeBytes (bq_drop q) = bq_activeBytes q" "bq_activeBytes (bq_send q b) = bq_activeBytes q + int (eb_EstimatedBytes b)"
  by (simp_all add: bq_send_def bq_evict_def bq_drop_def bq_receive_def split: list.split)

lemma bq_ok_steps:
  "bq_ok q \<Longrightarrow> bq_ok (bq_evict q)" "bq_ok q \<Longrightarrow> bq_ok (bq_drop q)" "bq_ok q \<Longrightarrow> ch_space q \<Longrightarrow> bq_ok (bq_send q b)"
  "bq_ok q \<Longrightarrow> bq_ch q = b # bs \<Longrightarrow> bq_ok (bq_receive b bs q)"
  by (auto simp: bq_ok_def bq_evict_def bq_drop_def bq_send_def bq_receive_def ch_space_def split: list.split)

lemma bq_push_ok: "bq_ok q \<Longrightarrow> bq_ok (bq_push q b)"
  by (rule push_cases [where b = b], assumption) (simp_all add: bq_ok_steps)

lemma bq_push_subseq: "bq_ok q \<Longrightarrow> subseq (bq_ch (bq_push q b)) (bq_ch q @ [b])"
proof (rule push_cases [where b = b], assumption)
  assume "bq_push q b = bq_send (bq_evict q) b"
  moreover have "subseq (tl (bq_ch q)) (bq_ch q)" by (cases "bq_ch q") auto
  ultimately show ?thesis by (simp add: list_emb_append_mono)
qed (auto intro: list_emb_append2)

interpretation batch_fifo: lossy_fifo bq_ok bq_ch bq_push bq_pop
proof unfold_locales
  fix q :: "'r MemoryBatchQueue" assume q: "bq_ok q"
  show "bq_ok (snd (bq_pop q))"
    using q bq_ok_steps(4) [OF q] by (cases "bq_ch q") (simp_all add: bq_pop_def PopBatch_def bq_ok_def)
  show "bq_ch q = [] \<Longrightarrow> fst (bq_pop q) = None \<and> bq_ch (snd (bq_pop q)) = []"
    using q by (simp add: bq_pop_def PopBatch_def bq_ok_def)
qed (simp_all add: bq_push_ok bq_push_subseq bq_pop_def PopBatch_def)

lemma new_bq_ok [simp]: "bq_ok (NewMemoryBatchQueue c)" "bq_ch (NewMemoryBatchQueue c) = []"
  by (simp_all add: bq_ok_def NewMemoryBatchQueue_def batch_defaults_def)

text \<open>
  the memory queue is first-in first-out, with losses only at a full queue: whatever batches are pushed and popped, the popped ones followed by those
  still queued are a subsequence of the pushed ones, in order; and the counters agree with the channel, which never holds more than \<open>MaxSize\<close> batches.
\<close>

theorem batch_queue_fifo:
  assumes "run_queue bq_push bq_pop (NewMemoryBatchQueue c) ops = (out, q)"
  shows "subseq (out @ bq_ch q) (pushed ops) \<and> bq_Len q = int (length (bq_ch q)) \<and> bq_Size q = batch_bytes (bq_ch q)
    \<and> bq_Len q \<le> bc_MaxSize (bq_config q)"
  using batch_fifo.run_fifo [OF new_bq_ok(1) assms] by (simp add: bq_ok_def bq_Len_def bq_Size_def)

definition sample_batch :: "nat \<Rightarrow> nat ExportBatch" where
  "sample_batch n = \<lparr>eb_request = n, eb_Timestamp = 0, eb_EstimatedBytes = n\<rparr>"

definition sample_batch_config :: "string \<Rightarrow> MemoryBatchQueueConfig" where
  "sample_batch_config behavior = \<lparr>bc_MaxSize = 1, bc_MaxBytes = 5, bc_FullBehavior = behavior, bc_BlockTimeout = 0\<rparr>"

theorem batch_queue_fifo_witness:
  "subseq (fst (run_queue bq_push bq_pop (NewMemoryBatchQueue (sample_batch_config DropOldest)) [PushOp (sample_batch 1), PushOp (sample_batch 2), PopOp]))
     [sample_batch 1, sample_batch 2]"
  using batch_queue_fifo [OF prod.collapse [symmetric], of "sample_batch_config DropOldest" "[PushOp (sample_batch 1), PushOp (sample_batch 2), PopOp]"]
    list_emb_append_mono [of "(=)"] by (auto intro: subseq_order.order_trans [rotated] simp: list_emb_append2)

section \<open>Limits\<close>

lemma run_bytes:
  assumes "bq_ok q" "bc_FullBehavior (bq_config q) \<noteq> DropOldest" "bc_MaxBytes (bq_config q) > 0" "bq_activeBytes q \<le> bc_MaxBytes (bq_config q)"
    and "run_queue bq_push bq_pop q ops = (out, q')"
  shows "bq_activeBytes q' \<le> bc_MaxBytes (bq_config q) \<and> bq_config q' = bq_config q"
  using assms
proof (induction ops arbitrary: q out)
  case (Cons op ops)
  show ?case
  proof (cases op)
    case (PushOp b)
    have "bq_config (bq_push q b) = bq_config q \<and> bq_activeBytes (bq_push q b) \<le> bc_MaxBytes (bq_config q)"
      using Cons.prems(2-4) by (rule_tac push_cases [OF Cons.prems(1), of b]) auto
    then show ?thesis using Cons.IH [of "bq_push q b" out] bq_push_ok [OF Cons.prems(1), of b] Cons.prems PushOp by simp
  next
    case PopOp
    have "bq_ok (snd (bq_pop q))" using batch_fifo.pop_inv Cons.prems(1) .
    moreover have "bq_config (snd (bq_pop q)) = bq_config q \<and> bq_activeBytes (snd (bq_pop q)) \<le> bq_activeBytes q"
      by (auto simp: bq_pop_def PopBatch_def bq_receive_def split: list.split)
    ultimately show ?thesis
      using Cons.IH [of "snd (bq_pop q)"] Cons.prems PopOp by (auto split: prod.splits option.splits)
  qed
qed simp

text \<open>
  a queue that refuses new batches keeps its byte limit. With \<open>drop_newest\<close>, and any behaviour but \<open>drop_oldest\<close> and \<open>block\<close>, the
  estimated size of what is queued never exceeds \<open>MaxBytes\<close>.
\<close>

theorem batch_bytes_bounded:
  assumes "bc_FullBehavior c \<notin> {[], DropOldest, Block}" "bc_MaxBytes c > 0"
    and "run_queue bq_push bq_pop (NewMemoryBatchQueue c) ops = (out, q)"
  shows "bq_Size q \<le> bc_MaxBytes c"
proof -
  have "bc_FullBehavior (batch_defaults c) = bc_FullBehavior c" "bc_MaxBytes (batch_defaults c) = bc_MaxBytes c"
    using assms(1) by (simp_all add: batch_defaults_def)
  then show ?thesis
    using run_bytes [OF new_bq_ok(1) _ _ _ assms(3)] assms(1,2) by (simp add: NewMemoryBatchQueue_def bq_Size_def)
qed

theorem batch_bytes_bounded_witness:
  "bq_Size (snd (run_queue bq_push bq_pop (NewMemoryBatchQueue (sample_batch_config DropNewest)) [PushOp (sample_batch 4), PushOp (sample_batch 9)])) \<le> 5"
  using batch_bytes_bounded [OF _ _ prod.collapse [symmetric], of "sample_batch_config DropNewest" "[PushOp (sample_batch 4), PushOp (sample_batch 9)]"]
  by (simp add: sample_batch_config_def DropNewest_def DropOldest_def Block_def)

text \<open>
  with \<open>drop_oldest\<close>, the default, and with \<open>block\<close> the byte limit is not kept. A batch is accepted whatever its size: \<open>drop_oldest\<close> makes room for it by removing
  a single batch, and \<open>block\<close> only waits for a slot of the channel.
\<close>

theorem byte_limit_not_kept:
  assumes "bq_ok q" "int (eb_EstimatedBytes b) > bc_MaxBytes (bq_config q)" "bc_MaxBytes (bq_config q) > 0"
  shows "(bc_FullBehavior (bq_config q) = DropOldest
        \<longrightarrow> (\<exists>q'. PushBatch wakes q b = Some (Ok (None, q')) \<and> bq_ch q' = tl (bq_ch q) @ [b] \<and> bq_Size q' > bc_MaxBytes (bq_config q)))
    \<and> (bc_FullBehavior (bq_config q) = Block \<and> ch_space q
        \<longrightarrow> (\<exists>q'. PushBatch ((id, CaseSend) # wakes) q b = Some (Ok (None, q')) \<and> bq_ch q' = bq_ch q @ [b] \<and> bq_Size q' > bc_MaxBytes (bq_config q)))"
proof -
  have n: "0 \<le> bq_activeBytes q" "0 \<le> bq_activeBytes (bq_evict q)" "ch_space (bq_evict q)" "\<not> bq_closed q"
    using assms(1) batch_bytes_nonneg [of "bq_ch q"] bq_ok_steps(1) [OF assms(1)] batch_bytes_nonneg [of "tl (bq_ch q)"]
    by (auto simp: bq_ok_def ch_space_def simp flip: of_nat_diff split: if_splits)
  then have "bq_activeBytes q + int (eb_EstimatedBytes b) > bc_MaxBytes (bq_config q)" using assms(2) by simp
  then show ?thesis
    using n assms(2,3) by (simp add: PushBatch_def handleFullLocked_def Let_def bq_Size_def DropOldest_def DropNewest_def Block_def)
qed

theorem byte_limit_not_kept_witness:
  "\<exists>q'. PushBatch [] (NewMemoryBatchQueue (sample_batch_config DropOldest)) (sample_batch 9) = Some (Ok (None, q')) \<and> bq_Size q' > 5"
  using byte_limit_not_kept [OF new_bq_ok(1), of "sample_batch_config DropOldest" "sample_batch 9" "[]"]
  by (auto simp: NewMemoryBatchQueue_def batch_defaults_def sample_batch_config_def sample_batch_def DropOldest_def)

text \<open>
  closing the queue crashes a blocked producer. With \<open>block\<close> a push releases the lock while it waits; when the queue is closed
  meanwhile, its send on the closed channel panics.
\<close>

theorem close_panics_producer:
  assumes "\<not> bq_closed q" "\<not> ch_space q" "bc_FullBehavior (bq_config q) = Block"
  shows "PushBatch [(bq_Close, CaseSend)] q b = Some Panic"
  using assms by (simp add: PushBatch_def handleFullLocked_def Let_def bq_Close_def Block_def DropOldest_def DropNewest_def)

theorem close_panics_producer_witness:
  "PushBatch [(bq_Close, CaseSend)] (bq_send (NewMemoryBatchQueue (sample_batch_config Block)) (sample_batch 1)) (sample_batch 2) = Some Panic"
  by (rule close_panics_producer)
    (simp_all add: NewMemoryBatchQueue_def batch_defaults_def sample_batch_config_def bq_send_def ch_space_def Block_def)

section \<open>Spillover\<close>

text \<open>The mode the utilization asks for, without hysteresis.\<close>

definition demand :: "('f :: linorder) spill_lib \<Rightarrow> 'f \<Rightarrow> int \<Rightarrow> SpilloverMode" where
  "demand lib u spillPct =
     (if u \<ge> sl_add15 lib (sl_ratio lib spillPct 100) then SpilloverLoadShedding
      else if u \<ge> sl_add10 lib (sl_ratio lib spillPct 100) then SpilloverAllDisk
      else if u \<ge> sl_ratio lib spillPct 100 then SpilloverPartialDisk
      else SpilloverMemoryOnly)"

lemma target_demand:
  "target_mode lib m u sp hp = (if demand lib u sp \<noteq> SpilloverMemoryOnly then demand lib u sp
     else if u < sl_ratio lib hp 100 then SpilloverMemoryOnly else m)"
  by (simp add: target_mode_def demand_def Let_def)

lemmas spill_order = less_eq_SpilloverMode_def less_SpilloverMode_def

lemma next_mode_cases:
  "next_mode m m = m" "next_mode SpilloverMemoryOnly m = SpilloverMemoryOnly"
  "d \<noteq> SpilloverMemoryOnly \<Longrightarrow> d \<le> next_mode d m \<and> next_mode d m \<le> max m d"
  "d \<noteq> SpilloverMemoryOnly \<Longrightarrow> next_mode d (next_mode d m) = d"
proof -
  show "next_mode m m = m" by (simp add: next_mode_def)
  show "next_mode SpilloverMemoryOnly m = SpilloverMemoryOnly" by (cases m) (simp_all add: next_mode_def spill_order)
  show "d \<noteq> SpilloverMemoryOnly \<Longrightarrow> d \<le> next_mode d m \<and> next_mode d m \<le> max m d"
    by (cases m; cases d) (simp_all add: next_mode_def spill_order max_def)
  show "d \<noteq> SpilloverMemoryOnly \<Longrightarrow> next_mode d (next_mode d m) = d"
    by (cases m; cases d) (simp_all add: next_mode_def spill_order)
qed

text \<open>
  the spillover mode never protects less than the utilization asks for and goes up at once; below the recovery threshold it returns
  to memory only, and between the two thresholds it stays as it is.
\<close>

theorem spillover_hysteresis:
  assumes "Evaluate lib now s u spillPct hysteresisPct = (mode, s')"
  shows "ss_mode s' = mode
    \<and> (u \<ge> sl_ratio lib spillPct 100 \<longrightarrow> demand lib u spillPct \<le> mode \<and> mode \<le> max (ss_mode s) (demand lib u spillPct))
    \<and> (demand lib u spillPct = SpilloverMemoryOnly \<longrightarrow>
         mode = (if u < sl_ratio lib hysteresisPct 100 then SpilloverMemoryOnly else ss_mode s))"
proof -
  have "mode = next_mode (target_mode lib (ss_mode s) u spillPct hysteresisPct) (ss_mode s)" "ss_mode s' = mode"
    using assms by (auto simp: Evaluate_def Let_def)
  moreover have "u \<ge> sl_ratio lib spillPct 100 \<Longrightarrow> demand lib u spillPct \<noteq> SpilloverMemoryOnly" by (simp add: demand_def)
  ultimately show ?thesis using next_mode_cases by (auto simp: target_demand)
qed

definition sample_spill_lib :: "int spill_lib" where
  "sample_spill_lib = \<lparr>sl_ratio = (\<lambda>a b. a * 100 div b), sl_add10 = (\<lambda>x. x + 10), sl_add15 = (\<lambda>x. x + 15)\<rparr>"

theorem spillover_hysteresis_witness:
  "fst (Evaluate sample_spill_lib 1 \<lparr>ss_mode = SpilloverAllDisk, ss_counter = 0, ss_startTime = 0\<rparr> 75 80 70) = SpilloverAllDisk"
  using spillover_hysteresis [of sample_spill_lib 1 "\<lparr>ss_mode = SpilloverAllDisk, ss_counter = 0, ss_startTime = 0\<rparr>" 75 80 70, OF prod.collapse [symmetric]]
  by (simp add: demand_def sample_spill_lib_def)

text \<open>Evaluating again and again at the same utilization.\<close>

definition evaluations :: "('f :: linorder) spill_lib \<Rightarrow> int \<Rightarrow> int \<Rightarrow> 'f \<Rightarrow> int list \<Rightarrow> SpilloverState \<Rightarrow> SpilloverState" where
  "evaluations lib spillPct hysteresisPct u ts s = fold (\<lambda>now s. snd (Evaluate lib now s u spillPct hysteresisPct)) ts s"



end
