(* ===== verification/Circuit_Breaker.thy ===== *)
theory Circuit_Breaker
  imports Prelude
begin

text \<open>
  The circuit breaker of the queued exporters: \<open>internal/exporter/queued.go\<close>. Its fields are atomics and its methods take no lock, so there
  are two models: every method as one step, and every atomic access as one step, with any interleaving of
  goroutines. Times are Unix seconds and arguments. \<open>resetTimeout\<close> is in nanoseconds; \<open>int64(resetTimeout.Seconds())\<close> is its whole seconds.
  Logging and Prometheus counters are left out.
\<close>

section \<open>The methods\<close>

datatype CircuitState = CircuitClosed | CircuitOpen | CircuitHalfOpen

record CircuitBreaker =
  cb_state :: CircuitState
  consecutiveFails :: int
  lastFailure :: int
  lastStateChange :: int
  halfOpenProbe :: bool
  failureThreshold :: int
  resetTimeout :: int
  halfOpenMaxTries :: int

definition NewCircuitBreaker :: "int \<Rightarrow> int \<Rightarrow> CircuitBreaker" where
  "NewCircuitBreaker threshold timeout = \<lparr>cb_state = CircuitClosed, consecutiveFails = 0, lastFailure = 0, lastStateChange = 0,
     halfOpenProbe = False, failureThreshold = threshold, resetTimeout = timeout, halfOpenMaxTries = 1\<rparr>"

definition ConsecutiveFailures :: "CircuitBreaker \<Rightarrow> int" where
  "ConsecutiveFailures cb = consecutiveFails cb"

definition reset_seconds :: "CircuitBreaker \<Rightarrow> int" where
  "reset_seconds cb = resetTimeout cb div 1000000000"

definition AllowRequest :: "int \<Rightarrow> CircuitBreaker \<Rightarrow> bool \<times> CircuitBreaker" where
  "AllowRequest now cb =
     (case cb_state cb of
        CircuitClosed \<Rightarrow> (True, cb)
      | CircuitOpen \<Rightarrow>
          if now - lastFailure cb \<ge> reset_seconds cb
          then (True, cb\<lparr>cb_state := CircuitHalfOpen, halfOpenProbe := True, lastStateChange := now\<rparr>)
          else (False, cb)
      | CircuitHalfOpen \<Rightarrow> if \<not> halfOpenProbe cb then (True, cb\<lparr>halfOpenProbe := True\<rparr>) else (False, cb))"

definition cb_RecordSuccess :: "int \<Rightarrow> CircuitBreaker \<Rightarrow> CircuitBreaker" where
  "cb_RecordSuccess now cb =
     (let state = cb_state cb; cb = cb\<lparr>consecutiveFails := 0\<rparr>
      in if state = CircuitHalfOpen then cb\<lparr>halfOpenProbe := False, cb_state := CircuitClosed, lastStateChange := now\<rparr> else cb)"

definition cb_RecordFailure :: "int \<Rightarrow> CircuitBreaker \<Rightarrow> CircuitBreaker" where
  "cb_RecordFailure now cb =
     (let fails = consecutiveFails cb + 1;
          cb = cb\<lparr>consecutiveFails := fails, lastFailure := now\<rparr>;
          state = cb_state cb
      in if state = CircuitHalfOpen then cb\<lparr>halfOpenProbe := False, cb_state := CircuitOpen, lastStateChange := now\<rparr>
         else if state = CircuitClosed \<and> fails \<ge> failureThreshold cb then cb\<lparr>cb_state := CircuitOpen, lastStateChange := now\<rparr>
         else cb)"

section \<open>The methods as steps\<close>

datatype cb_event = Allow int | Success int | Failure int

fun cb_apply :: "cb_event \<Rightarrow> CircuitBreaker \<Rightarrow> CircuitBreaker" where
  "cb_apply (Allow now) cb = snd (AllowRequest now cb)"
| "cb_apply (Success now) cb = cb_RecordSuccess now cb"
| "cb_apply (Failure now) cb = cb_RecordFailure now cb"

inductive cb_reachable :: "CircuitBreaker \<Rightarrow> bool" where
  cb_new: "cb_reachable (NewCircuitBreaker threshold timeout)"
| cb_step: "cb_reachable cb \<Longrightarrow> cb_reachable (cb_apply e cb)"

text \<open>The answers to a sequence of requests.\<close>

fun cb_allows :: "int list \<Rightarrow> CircuitBreaker \<Rightarrow> bool list \<times> CircuitBreaker" where
  "cb_allows [] cb = ([], cb)"
| "cb_allows (now # ts) cb =
     (case AllowRequest now cb of (b, cb) \<Rightarrow> case cb_allows ts cb of (bs, cb) \<Rightarrow> (b # bs, cb))"

definition failures :: "int list \<Rightarrow> CircuitBreaker \<Rightarrow> CircuitBreaker" where
  "failures ts cb = fold cb_RecordFailure ts cb"

lemmas cb_defs = AllowRequest_def cb_RecordSuccess_def cb_RecordFailure_def NewCircuitBreaker_def Let_def

text \<open>The probe flag is set exactly in the half-open state.\<close>

lemma probe_iff_half_open: "cb_reachable cb \<Longrightarrow> halfOpenProbe cb \<longleftrightarrow> cb_state cb = CircuitHalfOpen"
proof (induction rule: cb_reachable.induct)
  case (cb_step cb e)
  then show ?case by (cases e) (auto simp: cb_defs split: CircuitState.split)
qed (simp add: cb_defs)

lemma half_open_rejects:
  assumes "cb_state cb = CircuitHalfOpen" "halfOpenProbe cb"
  shows "cb_allows ts cb = (replicate (length ts) False, cb)"
  by (induction ts) (simp_all add: AllowRequest_def assms)



section \<open>Opening and closing\<close>

lemma failures_state:
  assumes "cb_state cb = CircuitClosed \<longrightarrow> consecutiveFails cb < failureThreshold cb" "cb_state cb \<noteq> CircuitHalfOpen" "ts \<noteq> []"
  shows "cb_state (failures ts cb) =
      (if cb_state cb = CircuitOpen \<or> failureThreshold cb \<le> consecutiveFails cb + int (length ts) then CircuitOpen else CircuitClosed)
    \<and> lastFailure (failures ts cb) = last ts \<and> resetTimeout (failures ts cb) = resetTimeout cb"
  using assms
proof (induction ts arbitrary: cb)
  case (Cons t ts)
  let ?cb = "cb_RecordFailure t cb"
  have cb: "cb_state ?cb = (if cb_state cb = CircuitOpen \<or> failureThreshold cb \<le> consecutiveFails cb + 1 then CircuitOpen else CircuitClosed)"
      "consecutiveFails ?cb = consecutiveFails cb + 1" "failureThreshold ?cb = failureThreshold cb" "lastFailure ?cb = t" "resetTimeout ?cb = resetTimeout cb"
    using Cons.prems(2) by (auto simp: cb_RecordFailure_def Let_def intro: CircuitState.exhaust)
  show ?case
  proof (cases "ts = []")
    case True
    then show ?thesis using cb by (simp add: failures_def)
  next
    case False
    then show ?thesis using Cons.IH [of ?cb] cb by (auto simp: failures_def)
  qed
qed simp

text \<open>
  the circuit opens after the configured number of consecutive failures, not before, and protects the backend then. Starting closed without failures,
  with a positive threshold, a row of failures leaves it open if and only if the row is as long as the threshold; and until the reset timeout after
  the last failure every request is refused.
\<close>

theorem opens_at_threshold:
  assumes "cb_state cb = CircuitClosed" "consecutiveFails cb = 0" "failureThreshold cb > 0" "ts \<noteq> []"
  shows "(cb_state (failures ts cb) = CircuitOpen \<longleftrightarrow> failureThreshold cb \<le> int (length ts))
    \<and> (failureThreshold cb \<le> int (length ts) \<and> now < last ts + reset_seconds cb \<longrightarrow> AllowRequest now (failures ts cb) = (False, failures ts cb))"
  using failures_state [of cb ts] assms by (auto simp: AllowRequest_def reset_seconds_def)

theorem opens_at_threshold_witness:
  "AllowRequest 12 (failures [1, 2, 3] (NewCircuitBreaker 3 10000000000)) = (False, failures [1, 2, 3] (NewCircuitBreaker 3 10000000000))"
  using opens_at_threshold [of "NewCircuitBreaker 3 10000000000" "[1, 2, 3]" 12] by (simp add: NewCircuitBreaker_def reset_seconds_def)

text \<open>
  the circuit recovers. When it is open and the reset timeout is over, the next request is let through, and if it
  succeeds the circuit is closed again, has no failures on record and lets every request through.
\<close>

theorem recovers_after_timeout:
  assumes "cb_state cb = CircuitOpen" "now - lastFailure cb \<ge> reset_seconds cb" "AllowRequest now cb = (b, cb')" "cb'' = cb_RecordSuccess now' cb'"
  shows "b \<and> cb_state cb'' = CircuitClosed \<and> consecutiveFails cb'' = 0 \<and> \<not> halfOpenProbe cb'' \<and> cb_allows ts cb'' = (replicate (length ts) True, cb'')"
proof -
  have c: "b" "cb_state cb'' = CircuitClosed" "consecutiveFails cb'' = 0" "\<not> halfOpenProbe cb''"
    using assms by (auto simp: cb_defs)
  moreover have "cb_allows ts cb'' = (replicate (length ts) True, cb'')"
    by (induction ts) (simp_all add: AllowRequest_def c(2))
  ultimately show ?thesis by simp
qed

theorem recovers_after_timeout_witness:
  "fst (cb_allows [50, 51] (cb_RecordSuccess 21 (snd (AllowRequest 20 (failures [1] (NewCircuitBreaker 1 10000000000)))))) = [True, True]"
  using recovers_after_timeout [of "failures [1] (NewCircuitBreaker 1 10000000000)" 20 _ _ _ 21 "[50, 51]", OF _ _ prod.collapse [symmetric] refl]
  by (simp add: failures_def cb_defs reset_seconds_def numeral_2_eq_2)

section \<open>The atomic accesses as steps\<close>

text \<open>
  Where a goroutine is inside a method: what it does next. \<open>F_\<close> states carry the count that \<open>consecutiveFails.Add\<close> returned, \<open>S_reset\<close> the
  state that was loaded. \<open>Answer\<close> and \<open>Done\<close> have returned.
\<close>

datatype cb_pc =
    A_load | A_lastFail | A_cas | A_setProbe | A_setChange | A_probeCas | Answer bool
  | S_load | S_reset CircuitState | S_clearProbe | S_close | S_change
  | F_add | F_last int | F_load int | F_clearProbe | F_open | F_change | Done

fun cb_micro :: "int \<Rightarrow> cb_pc \<times> CircuitBreaker \<Rightarrow> cb_pc \<times> CircuitBreaker" where
  "cb_micro now (A_load, cb) =
     ((case cb_state cb of CircuitClosed \<Rightarrow> Answer True | CircuitOpen \<Rightarrow> A_lastFail | CircuitHalfOpen \<Rightarrow> A_probeCas), cb)"
| "cb_micro now (A_lastFail, cb) = (if now - lastFailure cb \<ge> reset_seconds cb then A_cas else Answer False, cb)"
| "cb_micro now (A_cas, cb) =
     (if cb_state cb = CircuitOpen then (A_setProbe, cb\<lparr>cb_state := CircuitHalfOpen\<rparr>) else (Answer False, cb))"
| "cb_micro now (A_setProbe, cb) = (A_setChange, cb\<lparr>halfOpenProbe := True\<rparr>)"
| "cb_micro now (A_setChange, cb) = (Answer True, cb\<lparr>lastStateChange := now\<rparr>)"
| "cb_micro now (A_probeCas, cb) = (if \<not> halfOpenProbe cb then (Answer True, cb\<lparr>halfOpenProbe := True\<rparr>) else (Answer False, cb))"
| "cb_micro now (Answer b, cb) = (Answer b, cb)"
| "cb_micro now (S_load, cb) = (S_reset (cb_state cb), cb)"
| "cb_micro now (S_reset state, cb) = (if state = CircuitHalfOpen then S_clearProbe else Done, cb\<lparr>consecutiveFails := 0\<rparr>)"
| "cb_micro now (S_clearProbe, cb) = (S_close, cb\<lparr>halfOpenProbe := False\<rparr>)"
| "cb_micro now (S_close, cb) = (S_change, cb\<lparr>cb_state := CircuitClosed\<rparr>)"
| "cb_micro now (S_change, cb) = (Done, cb\<lparr>lastStateChange := now\<rparr>)"
| "cb_micro now (F_add, cb) = (F_last (consecutiveFails cb + 1), cb\<lparr>consecutiveFails := consecutiveFails cb + 1\<rparr>)"
| "cb_micro now (F_last fails, cb) = (F_load fails, cb\<lparr>lastFailure := now\<rparr>)"
| "cb_micro now (F_load fails, cb) =
     (if cb_state cb = CircuitHalfOpen then F_clearProbe
      else if cb_state cb = CircuitClosed \<and> fails \<ge> failureThreshold cb then F_open else Done, cb)"
| "cb_micro now (F_clearProbe, cb) = (F_open, cb\<lparr>halfOpenProbe := False\<rparr>)"
| "cb_micro now (F_open, cb) = (F_change, cb\<lparr>cb_state := CircuitOpen\<rparr>)"
| "cb_micro now (F_change, cb) = (Done, cb\<lparr>lastStateChange := now\<rparr>)"
| "cb_micro now (Done, cb) = (Done, cb)"

text \<open>Goroutines share the breaker; a schedule says which one makes its next step, and when.\<close>

fun cb_schedule :: "(nat \<times> int) list \<Rightarrow> cb_pc list \<times> CircuitBreaker \<Rightarrow> cb_pc list \<times> CircuitBreaker" where
  "cb_schedule [] s = s"
| "cb_schedule ((i, now) # sched) (pcs, cb) =
     (if i < length pcs then (case cb_micro now (pcs ! i, cb) of (pc, cb) \<Rightarrow> cb_schedule sched (pcs[i := pc], cb))
      else cb_schedule sched (pcs, cb))"

text \<open>
  without interference the atomic accesses make up the methods: after at most six steps \<open>AllowRequest\<close>, \<open>RecordSuccess\<close> and \<open>RecordFailure\<close>
  have returned, with the answer and the breaker that the methods as single steps give.
\<close>

theorem methods_from_accesses:
  "(cb_micro now ^^ 6) (A_load, cb) = (Answer (fst (AllowRequest now cb)), snd (AllowRequest now cb))
   \<and> (cb_micro now ^^ 6) (S_load, cb) = (Done, cb_RecordSuccess now cb)
   \<and> (cb_micro now ^^ 6) (F_add, cb) = (Done, cb_RecordFailure now cb)"
  by (cases "cb_state cb") (simp_all add: numeral_eq_Suc cb_defs funpow_swap1)

text \<open>
  with interference more than one request can be let through in the half-open state. The transition to half-open and the
  probe flag are two stores, and a second goroutine that looks between them finds no probe in flight: both answers are yes.
\<close>

theorem two_probes:
  assumes "cb_state cb = CircuitOpen" "\<not> halfOpenProbe cb" "now - lastFailure cb \<ge> reset_seconds cb"
  shows "\<exists>cb'. cb_schedule (map (\<lambda>i. (i, now)) [0, 0, 0, 1, 1, 0, 0]) ([A_load, A_load], cb) = ([Answer True, Answer True], cb')
    \<and> cb_state cb' = CircuitHalfOpen"
  using assms by simp

theorem two_probes_witness:
  "\<exists>cb'. cb_schedule (map (\<lambda>i. (i, 20)) [0, 0, 0, 1, 1, 0, 0]) ([A_load, A_load], failures [1] (NewCircuitBreaker 1 10000000000))
     = ([Answer True, Answer True], cb')"
  using two_probes [of "failures [1] (NewCircuitBreaker 1 10000000000)" 20] by (auto simp: failures_def cb_defs reset_seconds_def)

end
