(* ===== verification/Export_Control.thy ===== *)
theory Export_Control
  imports Otlp_Types "HOL-Library.Sublist"
begin

text \<open>
  What steers the exporters: the classification of errors (\<open>internal/exporter/errors.go\<close> and the helpers of \<open>exporter.go\<close> and \<open>queued.go\<close>), the worker
  scaler (\<open>scaler.go\<close>), the batch tuner (\<open>batchtuner.go\<close>), the concurrency limiter (\<open>limiter.go\<close>) and the spillover rate limiter
  (\<open>spill_rate_limiter.go\<close>). Floating-point operations are parameters; each method is one step; logging and Prometheus counters are left out.
\<close>

section \<open>Errors\<close>

datatype ErrorType = ErrorTypeNetwork | ErrorTypeTimeout | ErrorTypeServerError | ErrorTypeClientError | ErrorTypeAuth | ErrorTypeRateLimit | ErrorTypeUnknown

record ExportError =
  ee_Err :: "gostring option"
  ee_Type :: ErrorType
  ee_StatusCode :: int
  ee_Message :: gostring

text \<open>
  An error of an exporter: an \<open>ExportError\<close>, one wrapped by \<open>fmt.Errorf("...%w")\<close>, or another error with its text and what the dynamic type
  tells: a \<open>net.Error\<close> with its \<open>Timeout()\<close>, a DNS or operation error, or the value \<open>context.DeadlineExceeded\<close>.
\<close>

datatype net_kind = NotNet | NetError bool | NetOther | DeadlineExceeded

datatype go_error = ExpError ExportError | WrapError gostring go_error | OtherError gostring net_kind

fun IsRetryable :: "ExportError \<Rightarrow> bool" where
  "IsRetryable e = (case ee_Type e of
     ErrorTypeServerError \<Rightarrow> True | ErrorTypeNetwork \<Rightarrow> True | ErrorTypeTimeout \<Rightarrow> True | ErrorTypeRateLimit \<Rightarrow> True | _ \<Rightarrow> False)"

text \<open>\<open>strings.Contains\<close>.\<close>

definition strings_Contains :: "gostring \<Rightarrow> gostring \<Rightarrow> bool" where
  "strings_Contains s p = sublist p s"

definition payload_patterns :: "string list" where
  "payload_patterns = [''too big'', ''too large'', ''exceeds'', ''exceeding'', ''maxrequestsize'', ''max_request_size'', ''payload too large'',
     ''request entity too large'', ''body too large'']"

definition containsPayloadTooLarge :: "gostring \<Rightarrow> bool" where
  "containsPayloadTooLarge msg = list_ex (\<lambda>p. strings_Contains msg (gostr p)) payload_patterns"

text \<open>\<open>strings.ToLower\<close>, which works on Unicode, is the parameter \<open>lower\<close>.\<close>

definition IsSplittable :: "(gostring \<Rightarrow> gostring) \<Rightarrow> ExportError \<Rightarrow> bool" where
  "IsSplittable lower e \<longleftrightarrow> ee_StatusCode e = 413
     \<or> (ee_StatusCode e = 400 \<or> ee_Type e = ErrorTypeClientError) \<and> containsPayloadTooLarge (lower (ee_Message e))"

text \<open>\<open>errors.As\<close> looks through wrappers.\<close>

fun errors_As :: "go_error \<Rightarrow> ExportError option" where
  "errors_As (ExpError e) = Some e"
| "errors_As (WrapError _ e) = errors_As e"
| "errors_As (OtherError _ _) = None"

definition is413 :: "go_error option \<Rightarrow> bool" where
  "is413 err = (case err of Some (ExpError e) \<Rightarrow> ee_StatusCode e = 413 | _ \<Rightarrow> False)"

definition toLower :: "gostring \<Rightarrow> gostring" where
  "toLower s = map (\<lambda>c. if 65 \<le> c \<and> c \<le> 90 then c + 32 else c) s"

text \<open>The loop over start positions, by the rest of the text from there.\<close>

fun containsLower :: "gostring \<Rightarrow> gostring \<Rightarrow> bool" where
  "containsLower [] p = (p = [])"
| "containsLower (c # s) p = (length p \<le> length (c # s) \<and> (take (length p) (c # s) = p \<or> containsLower s p))"

definition contains :: "gostring \<Rightarrow> gostring \<Rightarrow> bool" where
  "contains s p \<longleftrightarrow> length s \<ge> length p \<and> (s = p \<or> length p = 0 \<or> length s > 0 \<and> length p > 0 \<and> containsLower (toLower s) (toLower p))"

definition isTimeoutError :: "net_kind \<Rightarrow> bool" where
  "isTimeoutError k \<longleftrightarrow> k = NetError True \<or> k = DeadlineExceeded"

definition isNetworkError :: "net_kind \<Rightarrow> bool" where
  "isNetworkError k \<longleftrightarrow> k = NetError False \<or> k = NetOther"

definition classifyError :: "(gostring \<times> net_kind) option \<Rightarrow> ErrorType" where
  "classifyError err =
     (case err of
        None \<Rightarrow> ErrorTypeUnknown
      | Some (errStr, k) \<Rightarrow>
          if isTimeoutError k then ErrorTypeTimeout
          else if isNetworkError k then ErrorTypeNetwork
          else if list_ex (\<lambda>p. contains errStr (gostr p)) [''connection refused'', ''no such host'', ''network is unreachable'', ''connection reset'', ''broken pipe'']
          then ErrorTypeNetwork
          else if contains errStr (gostr ''timeout'') \<or> contains errStr (gostr ''deadline exceeded'') then ErrorTypeTimeout
          else ErrorTypeUnknown)"

definition classifyHTTPStatusCode :: "int \<Rightarrow> ErrorType" where
  "classifyHTTPStatusCode statusCode =
     (if statusCode = 401 \<or> statusCode = 403 then ErrorTypeAuth
      else if statusCode = 429 then ErrorTypeRateLimit
      else if statusCode \<ge> 400 \<and> statusCode < 500 then ErrorTypeClientError
      else if statusCode \<ge> 500 then ErrorTypeServerError
      else ErrorTypeUnknown)"

datatype grpc_code = GrpcDeadlineExceeded | GrpcUnavailable | GrpcUnauthenticated | GrpcPermissionDenied | GrpcResourceExhausted
  | GrpcInvalidArgument | GrpcFailedPrecondition | GrpcOutOfRange | GrpcInternal | GrpcUnknown | GrpcDataLoss | GrpcAborted | GrpcOther

text \<open>The code \<open>status.FromError\<close> finds, if any.\<close>

definition classifyGRPCError :: "grpc_code option \<Rightarrow> (gostring \<times> net_kind) option \<Rightarrow> ErrorType" where
  "classifyGRPCError code err =
     (if err = None then ErrorTypeUnknown
      else case code of
          Some GrpcDeadlineExceeded \<Rightarrow> ErrorTypeTimeout
        | Some GrpcUnavailable \<Rightarrow> ErrorTypeNetwork
        | Some GrpcUnauthenticated \<Rightarrow> ErrorTypeAuth
        | Some GrpcPermissionDenied \<Rightarrow> ErrorTypeAuth
        | Some GrpcResourceExhausted \<Rightarrow> ErrorTypeRateLimit
        | Some GrpcInvalidArgument \<Rightarrow> ErrorTypeClientError
        | Some GrpcFailedPrecondition \<Rightarrow> ErrorTypeClientError
        | Some GrpcOutOfRange \<Rightarrow> ErrorTypeClientError
        | Some GrpcInternal \<Rightarrow> ErrorTypeServerError
        | Some GrpcUnknown \<Rightarrow> ErrorTypeServerError
        | Some GrpcDataLoss \<Rightarrow> ErrorTypeServerError
        | Some GrpcAborted \<Rightarrow> ErrorTypeServerError
        | _ \<Rightarrow> classifyError err)"

definition classifyExportError :: "(gostring \<Rightarrow> gostring) \<Rightarrow> gostring option \<Rightarrow> ErrorType" where
  "classifyExportError lower err =
     (case err of
        None \<Rightarrow> ErrorTypeUnknown
      | Some text \<Rightarrow>
          let errLower = lower text;
              has = (\<lambda>ps. list_ex (\<lambda>p. strings_Contains errLower (gostr p)) ps)
          in if has [''timeout'', ''deadline exceeded'', ''context deadline''] then ErrorTypeTimeout
             else if has [''connection refused'', ''no such host'', ''network is unreachable'', ''connection reset'', ''broken pipe'', ''eof'', ''i/o timeout'']
             then ErrorTypeNetwork
             else if has [''status code: 401'', ''status code: 403'', ''unauthenticated'', ''permissiondenied''] then ErrorTypeAuth
             else if has [''status code: 429'', ''resourceexhausted''] then ErrorTypeRateLimit
             else if has [''status code: 5'', ''internal'', ''unavailable''] then ErrorTypeServerError
             else if has [''status code: 4''] then ErrorTypeClientError
             else ErrorTypeUnknown)"

definition exporter_countDatapoints :: "'v ResourceMetrics list \<Rightarrow> nat" where
  "exporter_countDatapoints rms = sum_list (map (\<lambda>rm. sum_list (map (\<lambda>sm. sum_list (map (\<lambda>m. length (data_points (m_Data m))) (sm_Metrics sm))) (rm_ScopeMetrics rm))) rms)"

lemma containsLower_sublist: "containsLower s p \<longleftrightarrow> sublist p s"
proof (induction s)
  case (Cons c s)
  have "take (length p) (c # s) = p \<longleftrightarrow> prefix p (c # s)" by (metis append_take_drop_id prefixI prefix_def append_eq_conv_conj)
  then show ?case using Cons.IH by (auto simp: sublist_Cons_right dest: sublist_length_le prefix_length_le)
qed auto

text \<open>
  \<open>contains\<close> is a case-insensitive substring test: it holds exactly when the lower-case form of the pattern is a contiguous part of the lower-case form
  of the text.
\<close>

theorem contains_iff: "contains s p \<longleftrightarrow> sublist (toLower p) (toLower s)"
  using sublist_length_le [of "toLower p" "toLower s"] by (auto simp: contains_def containsLower_sublist toLower_def)

text \<open>
  an HTTP answer is worth a retry exactly when the server or its rate limit refused the request: for a failed status the error that is made of it is
  retryable for 429 and from 500 on, and for no other.
\<close>

theorem http_retryable:
  assumes "ee_Type e = classifyHTTPStatusCode (ee_StatusCode e)"
  shows "IsRetryable e \<longleftrightarrow> ee_StatusCode e = 429 \<or> ee_StatusCode e \<ge> 500"
  using assms by (auto simp: classifyHTTPStatusCode_def split: if_splits)

theorem http_retryable_witness: "IsRetryable \<lparr>ee_Err = None, ee_Type = ErrorTypeServerError, ee_StatusCode = 503, ee_Message = []\<rparr>"
  using http_retryable [of "\<lparr>ee_Err = None, ee_Type = ErrorTypeServerError, ee_StatusCode = 503, ee_Message = []\<rparr>"]
  by (simp add: classifyHTTPStatusCode_def)

section \<open>Worker scaling\<close>

record ScalerConfig =
  sk_Enabled :: bool
  sk_MinWorkers :: int
  sk_MaxWorkers :: int
  sk_ScaleInterval :: int
  sk_HighWaterMark :: int
  sk_LowWaterMark :: int
  sk_MaxLatency :: int
  sk_SustainedIdleSecs :: int

record WorkerScaler =
  ws_config :: ScalerConfig
  ws_latencyEWMA :: int
  ws_idleStart :: int
  ws_currentCount :: int
  ws_started :: bool

definition scaler_defaults :: "ScalerConfig \<Rightarrow> ScalerConfig" where
  "scaler_defaults c =
     (let c = (if sk_MinWorkers c \<le> 0 then c\<lparr>sk_MinWorkers := 1\<rparr> else c);
          c = (if sk_MaxWorkers c \<le> 0 then c\<lparr>sk_MaxWorkers := sk_MinWorkers c * 4\<rparr> else c);
          c = (if sk_ScaleInterval c \<le> 0 then c\<lparr>sk_ScaleInterval := 5 * 10 ^ 9\<rparr> else c);
          c = (if sk_HighWaterMark c \<le> 0 then c\<lparr>sk_HighWaterMark := 100\<rparr> else c);
          c = (if sk_LowWaterMark c \<le> 0 then c\<lparr>sk_LowWaterMark := 10\<rparr> else c);
          c = (if sk_MaxLatency c \<le> 0 then c\<lparr>sk_MaxLatency := 500 * 10 ^ 6\<rparr> else c)
      in if sk_SustainedIdleSecs c \<le> 0 then c\<lparr>sk_SustainedIdleSecs := 30\<rparr> else c)"

definition NewWorkerScaler :: "ScalerConfig \<Rightarrow> WorkerScaler" where
  "NewWorkerScaler c = \<lparr>ws_config = scaler_defaults c, ws_latencyEWMA = 0, ws_idleStart = 0, ws_currentCount = 0, ws_started = False\<rparr>"

definition scaler_Start :: "int \<Rightarrow> WorkerScaler \<Rightarrow> WorkerScaler" where
  "scaler_Start initialWorkers ws = (if ws_started ws then ws else ws\<lparr>ws_started := True, ws_currentCount := initialWorkers\<rparr>)"

text \<open>The exponential average of latencies, \<open>int64(0.3 * ns + 0.7 * old)\<close> in floats, is the parameter \<open>ewma\<close>.\<close>

definition RecordLatency :: "(int \<Rightarrow> int \<Rightarrow> int) \<Rightarrow> int \<Rightarrow> WorkerScaler \<Rightarrow> WorkerScaler" where
  "RecordLatency ewma ns ws = (let old = ws_latencyEWMA ws in ws\<lparr>ws_latencyEWMA := (if old = 0 then ns else ewma ns old)\<rparr>)"

text \<open>A decision with the scaler it leaves and the numbers of workers it added and removed.\<close>

definition scaler_decide :: "int \<Rightarrow> int \<Rightarrow> WorkerScaler \<Rightarrow> WorkerScaler \<times> int \<times> int" where
  "scaler_decide now depth ws =
     (let c = ws_config ws; current = ws_currentCount ws; latency = ws_latencyEWMA ws
      in if depth > sk_HighWaterMark c \<and> current < sk_MaxWorkers c \<and> (latency \<le> sk_MaxLatency c \<or> latency = 0)
         then (ws\<lparr>ws_currentCount := current + 1, ws_idleStart := 0\<rparr>, 1, 0)
         else if depth < sk_LowWaterMark c then
           (if ws_idleStart ws = 0 then (ws\<lparr>ws_idleStart := now\<rparr>, 0, 0)
            else if now - ws_idleStart ws \<ge> sk_SustainedIdleSecs c \<and> current > sk_MinWorkers c then
              (let target = (if current div 2 < sk_MinWorkers c then sk_MinWorkers c else current div 2)
               in (ws\<lparr>ws_currentCount := target, ws_idleStart := 0\<rparr>, 0, current - target))
            else (ws, 0, 0))
         else (ws\<lparr>ws_idleStart := 0\<rparr>, 0, 0))"

datatype scaler_event = Decide int int | Latency int

fun scaler_run :: "(int \<Rightarrow> int \<Rightarrow> int) \<Rightarrow> scaler_event list \<Rightarrow> WorkerScaler \<Rightarrow> WorkerScaler \<times> int" where
  "scaler_run ewma [] ws = (ws, 0)"
| "scaler_run ewma (Latency ns # es) ws = scaler_run ewma es (RecordLatency ewma ns ws)"
| "scaler_run ewma (Decide now depth # es) ws =
     (case scaler_decide now depth ws of (ws, added, removed) \<Rightarrow>
        case scaler_run ewma es ws of (ws, n) \<Rightarrow> (ws, added - removed + n))"

lemma scaler_decide_bounds:
  assumes "scaler_decide now depth ws = (ws', added, removed)" "sk_MinWorkers (ws_config ws) \<le> sk_MaxWorkers (ws_config ws)" "0 \<le> sk_MinWorkers (ws_config ws)"
    and "sk_MinWorkers (ws_config ws) \<le> ws_currentCount ws" "ws_currentCount ws \<le> sk_MaxWorkers (ws_config ws)"
  shows "ws_config ws' = ws_config ws \<and> 0 \<le> added \<and> 0 \<le> removed \<and> ws_currentCount ws' = ws_currentCount ws + added - removed
    \<and> sk_MinWorkers (ws_config ws) \<le> ws_currentCount ws' \<and> ws_currentCount ws' \<le> sk_MaxWorkers (ws_config ws)"
  using assms by (auto simp: scaler_decide_def Let_def split: if_splits)

text \<open>
  worker scaling stays in its bounds. However queue depths and latencies develop, the worker count stays between \<open>MinWorkers\<close> and \<open>MaxWorkers\<close>
  once it is started there, and it is the initial count plus the workers added minus the workers removed.
\<close>

theorem scaler_within_bounds:
  assumes "0 \<le> sk_MinWorkers (ws_config ws)" "sk_MinWorkers (ws_config ws) \<le> ws_currentCount ws" "ws_currentCount ws \<le> sk_MaxWorkers (ws_config ws)"
    and "scaler_run ewma es ws = (ws', n)"
  shows "sk_MinWorkers (ws_config ws) \<le> ws_currentCount ws' \<and> ws_currentCount ws' \<le> sk_MaxWorkers (ws_config ws)
    \<and> ws_currentCount ws' = ws_currentCount ws + n"
  using assms
proof (induction es arbitrary: ws n)
  case (Cons e es)
  show ?case
  proof (cases e)
    case (Latency ns)
    then show ?thesis using Cons.IH [of "RecordLatency ewma ns ws" n] Cons.prems by (simp add: RecordLatency_def Let_def)
  next
    case (Decide now depth)
    obtain ws1 added removed where d: "scaler_decide now depth ws = (ws1, added, removed)" by (metis prod_cases3)
    obtain n1 where r: "scaler_run ewma es ws1 = (ws', n1)" "n = added - removed + n1"
      using Cons.prems(4) Decide d by (auto split: prod.splits)
    show ?thesis using scaler_decide_bounds [OF d] Cons.IH [OF _ _ _ r(1)] Cons.prems(1-3) r(2) by simp
  qed
qed simp

definition sample_scaler :: WorkerScaler where
  "sample_scaler = scaler_Start 4 (NewWorkerScaler \<lparr>sk_Enabled = True, sk_MinWorkers = 2, sk_MaxWorkers = 5, sk_ScaleInterval = 0, sk_HighWaterMark = 0,
     sk_LowWaterMark = 0, sk_MaxLatency = 0, sk_SustainedIdleSecs = 0\<rparr>)"

theorem scaler_within_bounds_witness:
  "let ws = fst (scaler_run (\<lambda>a b. a) [Decide 1 0, Decide 40 0, Latency 7, Decide 50 200] sample_scaler) in 2 \<le> ws_currentCount ws \<and> ws_currentCount ws \<le> 5"
  using scaler_within_bounds [of sample_scaler "\<lambda>a b. a" "[Decide 1 0, Decide 40 0, Latency 7, Decide 50 200]", OF _ _ _ prod.collapse [symmetric]]
  by (simp add: sample_scaler_def scaler_Start_def NewWorkerScaler_def scaler_defaults_def)

section \<open>Batch tuning\<close>

text \<open>Factors are floats of type \<open>'f\<close>; \<open>tl_scale f n\<close> is \<open>int64(float64(n) * f)\<close>.\<close>

record 'f tuner_lib =
  tl_zero :: 'f
  tl_one :: 'f
  tl_grow :: 'f
  tl_shrink :: 'f
  tl_eighty :: 'f
  tl_scale :: "'f \<Rightarrow> int \<Rightarrow> int"

text \<open>Multiplication of floats, truncated, is monotone for the integers that floats represent exactly.\<close>

definition tuner_laws :: "('f :: linorder) tuner_lib \<Rightarrow> bool" where
  "tuner_laws lib \<longleftrightarrow> tl_one lib < tl_grow lib \<and> tl_zero lib < tl_shrink lib \<and> tl_shrink lib < tl_one lib
     \<and> (\<forall>f g n. f \<le> g \<and> 0 \<le> n \<and> n \<le> 2 ^ 53 \<longrightarrow> tl_scale lib f n \<le> tl_scale lib g n)
     \<and> (\<forall>n. 0 \<le> n \<and> n \<le> 2 ^ 53 \<longrightarrow> tl_scale lib (tl_one lib) n = n)"

record 'f BatchTunerConfig =
  tu_Enabled :: bool
  tu_MinBytes :: int
  tu_MaxBytes :: int
  tu_SuccessStreak :: int
  tu_GrowFactor :: 'f
  tu_ShrinkFactor :: 'f

record 'f BatchTuner =
  bt_currentMaxBytes :: int
  bt_hardCeiling :: int
  bt_consecutiveOK :: int
  bt_adjustmentsUp :: int
  bt_adjustmentsDown :: int
  bt_minBytes :: int
  bt_maxBytes :: int
  bt_successStreak :: int
  bt_growFactor :: 'f
  bt_shrinkFactor :: 'f

definition NewBatchTuner :: "('f :: linorder) tuner_lib \<Rightarrow> 'f BatchTunerConfig \<Rightarrow> 'f BatchTuner" where
  "NewBatchTuner lib c =
     (let minBytes = (if tu_MinBytes c \<le> 0 then 512 else tu_MinBytes c);
          maxBytes = (if tu_MaxBytes c \<le> 0 then 16 * 1024 * 1024 else tu_MaxBytes c);
          streak = (if tu_SuccessStreak c \<le> 0 then 10 else tu_SuccessStreak c);
          grow = (if tu_GrowFactor c \<le> tl_one lib then tl_grow lib else tu_GrowFactor c);
          shrink = (if tu_ShrinkFactor c \<le> tl_zero lib \<or> tu_ShrinkFactor c \<ge> tl_one lib then tl_shrink lib else tu_ShrinkFactor c)
      in \<lparr>bt_currentMaxBytes = maxBytes, bt_hardCeiling = 0, bt_consecutiveOK = 0, bt_adjustmentsUp = 0, bt_adjustmentsDown = 0,
          bt_minBytes = minBytes, bt_maxBytes = maxBytes, bt_successStreak = streak, bt_growFactor = grow, bt_shrinkFactor = shrink\<rparr>)"

definition CurrentMaxBytes :: "'f BatchTuner \<Rightarrow> int" where
  "CurrentMaxBytes bt = bt_currentMaxBytes bt"

definition bt_RecordSuccess :: "'f tuner_lib \<Rightarrow> 'f BatchTuner \<Rightarrow> 'f BatchTuner" where
  "bt_RecordSuccess lib bt =
     (let streak = bt_consecutiveOK bt + 1; bt = bt\<lparr>bt_consecutiveOK := streak\<rparr>
      in if streak \<ge> bt_successStreak bt then
           (let bt = bt\<lparr>bt_consecutiveOK := 0\<rparr>;
                current = bt_currentMaxBytes bt;
                newMax = tl_scale lib (bt_growFactor bt) current;
                newMax = (if bt_hardCeiling bt > 0 \<and> newMax > bt_hardCeiling bt then bt_hardCeiling bt else newMax);
                newMax = (if newMax > bt_maxBytes bt then bt_maxBytes bt else newMax)
            in if newMax \<noteq> current then bt\<lparr>bt_currentMaxBytes := newMax, bt_adjustmentsUp := bt_adjustmentsUp bt + 1\<rparr> else bt)
         else bt)"

definition bt_RecordFailure :: "'f tuner_lib \<Rightarrow> go_error option \<Rightarrow> 'f BatchTuner \<Rightarrow> 'f BatchTuner" where
  "bt_RecordFailure lib err bt =
     (let bt = bt\<lparr>bt_consecutiveOK := 0\<rparr>;
          current = bt_currentMaxBytes bt;
          ceiling = tl_scale lib (tl_eighty lib) current;
          ceiling = (if ceiling < bt_minBytes bt then bt_minBytes bt else ceiling);
          bt = (if is413 err then bt\<lparr>bt_hardCeiling := ceiling\<rparr> else bt);
          newMax = tl_scale lib (bt_shrinkFactor bt) current;
          newMax = (if newMax < bt_minBytes bt then bt_minBytes bt else newMax)
      in if newMax \<noteq> current then bt\<lparr>bt_currentMaxBytes := newMax, bt_adjustmentsDown := bt_adjustmentsDown bt + 1\<rparr> else bt)"

datatype tuner_event = TuneSuccess | TuneFailure "go_error option"

fun tuner_step :: "'f tuner_lib \<Rightarrow> tuner_event \<Rightarrow> 'f BatchTuner \<Rightarrow> 'f BatchTuner" where
  "tuner_step lib TuneSuccess bt = bt_RecordSuccess lib bt"
| "tuner_step lib (TuneFailure err) bt = bt_RecordFailure lib err bt"

definition tuner_ok :: "('f :: linorder) tuner_lib \<Rightarrow> 'f BatchTuner \<Rightarrow> bool" where
  "tuner_ok lib bt \<longleftrightarrow> 0 < bt_minBytes bt \<and> bt_minBytes bt \<le> bt_currentMaxBytes bt \<and> bt_currentMaxBytes bt \<le> bt_maxBytes bt \<and> bt_maxBytes bt \<le> 2 ^ 53
     \<and> tl_one lib \<le> bt_growFactor bt \<and> bt_shrinkFactor bt \<le> tl_one lib"

lemma tuner_scale:
  assumes "tuner_laws lib" "tuner_ok lib bt"
  shows "bt_currentMaxBytes bt \<le> tl_scale lib (bt_growFactor bt) (bt_currentMaxBytes bt)"
    and "tl_scale lib (bt_shrinkFactor bt) (bt_currentMaxBytes bt) \<le> bt_currentMaxBytes bt"
    and "bt_shrinkFactor bt \<le> tl_eighty lib \<Longrightarrow> tl_scale lib (bt_shrinkFactor bt) (bt_currentMaxBytes bt) \<le> tl_scale lib (tl_eighty lib) (bt_currentMaxBytes bt)"
proof -
  have n: "0 \<le> bt_currentMaxBytes bt" "bt_currentMaxBytes bt \<le> 2 ^ 53" using assms(2) by (simp_all add: tuner_ok_def)
  have m: "f \<le> g \<Longrightarrow> tl_scale lib f (bt_currentMaxBytes bt) \<le> tl_scale lib g (bt_currentMaxBytes bt)" for f g
    using assms(1) n unfolding tuner_laws_def by blast
  have one: "tl_scale lib (tl_one lib) (bt_currentMaxBytes bt) = bt_currentMaxBytes bt" using assms(1) n unfolding tuner_laws_def by blast
  show "bt_currentMaxBytes bt \<le> tl_scale lib (bt_growFactor bt) (bt_currentMaxBytes bt)"
    using m [of "tl_one lib" "bt_growFactor bt"] assms(2) by (simp add: one tuner_ok_def)
  show "tl_scale lib (bt_shrinkFactor bt) (bt_currentMaxBytes bt) \<le> bt_currentMaxBytes bt"
    using m [of "bt_shrinkFactor bt" "tl_one lib"] assms(2) by (simp add: one tuner_ok_def)
  show "bt_shrinkFactor bt \<le> tl_eighty lib \<Longrightarrow> tl_scale lib (bt_shrinkFactor bt) (bt_currentMaxBytes bt) \<le> tl_scale lib (tl_eighty lib) (bt_currentMaxBytes bt)"
    by (rule m)
qed

definition below_ceiling :: "'f BatchTuner \<Rightarrow> bool" where
  "below_ceiling bt \<longleftrightarrow> bt_hardCeiling bt \<le> 0 \<or> bt_currentMaxBytes bt \<le> bt_hardCeiling bt"

lemma tuner_success_ok:
  assumes "tuner_laws lib" "tuner_ok lib bt" "below_ceiling bt"
  shows "tuner_ok lib (bt_RecordSuccess lib bt) \<and> below_ceiling (bt_RecordSuccess lib bt)"
  using tuner_scale(1) [OF assms(1,2)] assms(2,3) by (auto simp: bt_RecordSuccess_def Let_def tuner_ok_def below_ceiling_def)

lemma tuner_failure_ok:
  assumes "tuner_laws lib" "tuner_ok lib bt" "below_ceiling bt" "bt_shrinkFactor bt \<le> tl_eighty lib"
  shows "tuner_ok lib (bt_RecordFailure lib err bt) \<and> below_ceiling (bt_RecordFailure lib err bt)"
  using tuner_scale(2,3) [OF assms(1,2)] assms(2,3,4) by (auto simp: bt_RecordFailure_def Let_def tuner_ok_def below_ceiling_def)

lemma tuner_factors: "bt_shrinkFactor (tuner_step lib e bt) = bt_shrinkFactor bt" "bt_minBytes (tuner_step lib e bt) = bt_minBytes bt" "bt_maxBytes (tuner_step lib e bt) = bt_maxBytes bt"
  by (cases e; simp add: bt_RecordSuccess_def bt_RecordFailure_def Let_def)+

lemma tuner_run_ok:
  assumes "tuner_laws lib"
  shows "tuner_ok lib bt \<Longrightarrow> below_ceiling bt \<Longrightarrow> bt_shrinkFactor bt \<le> tl_eighty lib
    \<Longrightarrow> tuner_ok lib (fold (tuner_step lib) es bt) \<and> below_ceiling (fold (tuner_step lib) es bt)
      \<and> bt_minBytes (fold (tuner_step lib) es bt) = bt_minBytes bt \<and> bt_maxBytes (fold (tuner_step lib) es bt) = bt_maxBytes bt"
proof (induction es arbitrary: bt)
  case (Cons e es)
  have "tuner_ok lib (tuner_step lib e bt) \<and> below_ceiling (tuner_step lib e bt)"
    using tuner_success_ok [OF assms Cons.prems(1,2)] tuner_failure_ok [OF assms Cons.prems] by (cases e) simp_all
  then show ?case using Cons.IH [of "tuner_step lib e bt"] Cons.prems by (simp add: tuner_factors)
qed simp

text \<open>
  the batch tuner stays in its bounds. Whatever successes and failures it sees, the current limit is between the configured minimum and maximum, and after a
  413 answer it stays below the discovered ceiling. The minimum is at most the maximum, sizes are exact as floats, and the shrink factor is at most 0.8.
\<close>

theorem batch_tuner_bounds:
  fixes lib :: "('f :: linorder) tuner_lib"
  assumes "tuner_laws lib" "tu_ShrinkFactor c \<le> tl_eighty lib" "tl_shrink lib \<le> tl_eighty lib"
    and "bt_minBytes (NewBatchTuner lib c) \<le> bt_maxBytes (NewBatchTuner lib c)" "bt_maxBytes (NewBatchTuner lib c) \<le> 2 ^ 53"
    and "bt = fold (tuner_step lib) es (NewBatchTuner lib c)"
  shows "bt_minBytes bt \<le> CurrentMaxBytes bt \<and> CurrentMaxBytes bt \<le> bt_maxBytes bt \<and> (bt_hardCeiling bt > 0 \<longrightarrow> CurrentMaxBytes bt \<le> bt_hardCeiling bt)"
proof -
  have "tuner_ok lib (NewBatchTuner lib c)" "below_ceiling (NewBatchTuner lib c)" "bt_shrinkFactor (NewBatchTuner lib c) \<le> tl_eighty lib"
    using assms(1-5) by (auto simp: NewBatchTuner_def tuner_ok_def below_ceiling_def tuner_laws_def Let_def)
  from tuner_run_ok [OF assms(1) this, of es] show ?thesis
    by (auto simp: assms(6) tuner_ok_def below_ceiling_def CurrentMaxBytes_def)
qed

definition sample_tuner_lib :: "int tuner_lib" where
  "sample_tuner_lib = \<lparr>tl_zero = 0, tl_one = 100, tl_grow = 125, tl_shrink = 50, tl_eighty = 80, tl_scale = (\<lambda>f n. n * f div 100)\<rparr>"

definition sample_tuner_config :: "int BatchTunerConfig" where
  "sample_tuner_config = \<lparr>tu_Enabled = True, tu_MinBytes = 100, tu_MaxBytes = 1000, tu_SuccessStreak = 1, tu_GrowFactor = 0, tu_ShrinkFactor = 0\<rparr>"

lemma sample_tuner_laws: "tuner_laws sample_tuner_lib"
  by (auto simp: tuner_laws_def sample_tuner_lib_def intro: zdiv_mono1 mult_left_mono)

theorem batch_tuner_bounds_witness:
  "let bt = fold (tuner_step sample_tuner_lib) [TuneFailure (Some (ExpError \<lparr>ee_Err = None, ee_Type = ErrorTypeClientError, ee_StatusCode = 413, ee_Message = []\<rparr>)), TuneSuccess]
     (NewBatchTuner sample_tuner_lib sample_tuner_config)
   in bt_minBytes bt \<le> CurrentMaxBytes bt \<and> CurrentMaxBytes bt \<le> bt_maxBytes bt"
  using batch_tuner_bounds [OF sample_tuner_laws _ _ _ _ refl, of sample_tuner_config
    "[TuneFailure (Some (ExpError \<lparr>ee_Err = None, ee_Type = ErrorTypeClientError, ee_StatusCode = 413, ee_Message = []\<rparr>)), TuneSuccess]"]
  by (simp add: Let_def sample_tuner_lib_def sample_tuner_config_def NewBatchTuner_def)

section \<open>Concurrency limiter\<close>

text \<open>The buffered channel is the number of tokens in it; \<open>None\<close> is a goroutine that waits.\<close>

record ConcurrencyLimiter =
  cl_sem :: nat
  cl_cap :: nat

definition DefaultExportConcurrency :: "int \<Rightarrow> int" where
  "DefaultExportConcurrency numCPU = numCPU * 4"

definition NewConcurrencyLimiter :: "int \<Rightarrow> int \<Rightarrow> ConcurrencyLimiter" where
  "NewConcurrencyLimiter numCPU limit = \<lparr>cl_sem = 0, cl_cap = nat (if limit \<le> 0 then numCPU * 4 else limit)\<rparr>"

definition Acquire :: "ConcurrencyLimiter \<Rightarrow> ConcurrencyLimiter option" where
  "Acquire l = (if cl_sem l < cl_cap l then Some (l\<lparr>cl_sem := cl_sem l + 1\<rparr>) else None)"

definition Release :: "ConcurrencyLimiter \<Rightarrow> ConcurrencyLimiter option" where
  "Release l = (if cl_sem l > 0 then Some (l\<lparr>cl_sem := cl_sem l - 1\<rparr>) else None)"

definition TryAcquire :: "ConcurrencyLimiter \<Rightarrow> bool \<times> ConcurrencyLimiter" where
  "TryAcquire l = (case Acquire l of Some l \<Rightarrow> (True, l) | None \<Rightarrow> (False, l))"

text \<open>\<open>expired\<close>: the context is cancelled, or the timer has fired; \<open>prefer\<close>: the choice when a slot is free as well.\<close>

definition AcquireContext :: "bool \<Rightarrow> bool \<Rightarrow> ConcurrencyLimiter \<Rightarrow> (bool \<times> ConcurrencyLimiter) option" where
  "AcquireContext expired prefer l =
     (case Acquire l of
        Some l' \<Rightarrow> if expired \<and> prefer then Some (False, l) else Some (True, l')
      | None \<Rightarrow> if expired then Some (False, l) else None)"

definition AcquireTimeout :: "bool \<Rightarrow> bool \<Rightarrow> ConcurrencyLimiter \<Rightarrow> (bool \<times> ConcurrencyLimiter) option" where
  "AcquireTimeout expired prefer l = AcquireContext expired prefer l"

definition lim_Available :: "ConcurrencyLimiter \<Rightarrow> nat" where "lim_Available l = cl_cap l - cl_sem l"
definition lim_InUse :: "ConcurrencyLimiter \<Rightarrow> nat" where "lim_InUse l = cl_sem l"

section \<open>Spillover rate limiter\<close>

record spilloverRateLimiter =
  rl_maxPerSec :: int
  rl_tokens :: int
  rl_lastRefill :: int

definition newSpilloverRateLimiter :: "int \<Rightarrow> int \<Rightarrow> spilloverRateLimiter" where
  "newSpilloverRateLimiter now maxPerSec = \<lparr>rl_maxPerSec = maxPerSec, rl_tokens = maxPerSec, rl_lastRefill = now\<rparr>"

text \<open>\<open>tokens_of elapsed max\<close> is \<open>int(elapsed.Seconds() * float64(max))\<close>.\<close>

definition refillLocked :: "(int \<Rightarrow> int \<Rightarrow> int) \<Rightarrow> int \<Rightarrow> spilloverRateLimiter \<Rightarrow> spilloverRateLimiter" where
  "refillLocked tokens_of now r =
     (let elapsed = now - rl_lastRefill r; newTokens = tokens_of elapsed (rl_maxPerSec r)
      in if elapsed \<le> 0 \<or> newTokens \<le> 0 then r
         else r\<lparr>rl_tokens := min (rl_tokens r + newTokens) (rl_maxPerSec r), rl_lastRefill := now\<rparr>)"

definition rl_Allow :: "(int \<Rightarrow> int \<Rightarrow> int) \<Rightarrow> int \<Rightarrow> spilloverRateLimiter \<Rightarrow> bool \<times> spilloverRateLimiter" where
  "rl_Allow tokens_of now r =
     (let r = refillLocked tokens_of now r
      in if rl_tokens r > 0 then (True, r\<lparr>rl_tokens := rl_tokens r - 1\<rparr>) else (False, r))"

fun rl_allowed :: "(int \<Rightarrow> int \<Rightarrow> int) \<Rightarrow> int list \<Rightarrow> spilloverRateLimiter \<Rightarrow> int \<times> spilloverRateLimiter" where
  "rl_allowed tokens_of [] r = (0, r)"
| "rl_allowed tokens_of (now # ts) r =
     (case rl_Allow tokens_of now r of (b, r) \<Rightarrow> case rl_allowed tokens_of ts r of (n, r) \<Rightarrow> ((if b then 1 else 0) + n, r))"

text \<open>Products of this size are exact enough in floats that truncation never rounds up.\<close>

definition token_law :: "(int \<Rightarrow> int \<Rightarrow> int) \<Rightarrow> bool" where
  "token_law tokens_of \<longleftrightarrow> (\<forall>e m. 0 \<le> e \<and> 0 \<le> m \<and> e * m < 2 ^ 50 \<longrightarrow> tokens_of e m * 10 ^ 9 \<le> e * m)"

lemma refill_tokens:
  assumes "token_law tokens_of" "0 \<le> rl_maxPerSec r" "now \<le> rl_lastRefill r + len" "len * rl_maxPerSec r < 2 ^ 50" "r' = refillLocked tokens_of now r"
  shows "rl_tokens r' * 10 ^ 9 \<le> rl_tokens r * 10 ^ 9 + (rl_lastRefill r' - rl_lastRefill r) * rl_maxPerSec r \<and> rl_lastRefill r \<le> rl_lastRefill r'
    \<and> rl_lastRefill r' \<le> max now (rl_lastRefill r) \<and> rl_maxPerSec r' = rl_maxPerSec r"
proof (cases "now - rl_lastRefill r \<le> 0 \<or> tokens_of (now - rl_lastRefill r) (rl_maxPerSec r) \<le> 0")
  case False
  let ?e = "now - rl_lastRefill r"
  have "?e * rl_maxPerSec r \<le> len * rl_maxPerSec r" using assms(2,3) by (simp add: mult_right_mono)
  then have "tokens_of ?e (rl_maxPerSec r) * 10 ^ 9 \<le> ?e * rl_maxPerSec r" using assms(1,2,4) False by (simp add: token_law_def)
  then show ?thesis using False by (auto simp: assms(5) refillLocked_def Let_def min_def)
qed (auto simp: assms(5) refillLocked_def Let_def)

lemma rl_allowed_budget:
  assumes "token_law tokens_of" "0 \<le> rl_maxPerSec r" "\<forall>t \<in> set ts. t \<le> stop" "(stop - rl_lastRefill r) * rl_maxPerSec r < 2 ^ 50" "rl_lastRefill r \<le> stop"
    and "rl_allowed tokens_of ts r = (n, r')" "0 \<le> rl_tokens r"
  shows "n * 10 ^ 9 \<le> rl_tokens r * 10 ^ 9 + (stop - rl_lastRefill r) * rl_maxPerSec r"
  using assms(2-)
proof (induction ts arbitrary: r n)
  case Nil
  then show ?case by simp
next
  case (Cons now ts)
  define r1 where "r1 = refillLocked tokens_of now r"
  have f: "rl_tokens r1 * 10 ^ 9 \<le> rl_tokens r * 10 ^ 9 + (rl_lastRefill r1 - rl_lastRefill r) * rl_maxPerSec r" "rl_lastRefill r \<le> rl_lastRefill r1"
      "rl_lastRefill r1 \<le> max now (rl_lastRefill r)" "rl_maxPerSec r1 = rl_maxPerSec r"
    using refill_tokens [OF assms(1) Cons.prems(1) _ Cons.prems(3) r1_def] Cons.prems(2) by simp_all
  define r2 where "r2 = (if rl_tokens r1 > 0 then r1\<lparr>rl_tokens := rl_tokens r1 - 1\<rparr> else r1)"
  obtain n1 where n1: "rl_allowed tokens_of ts r2 = (n1, r')" "n = (if rl_tokens r1 > 0 then 1 else 0) + n1"
    using Cons.prems(5) by (auto simp: rl_Allow_def Let_def r2_def simp flip: r1_def split: prod.splits if_splits)
  have "(stop - rl_lastRefill r1) * rl_maxPerSec r \<le> (stop - rl_lastRefill r) * rl_maxPerSec r"
    using f(2) Cons.prems(1) by (simp add: mult_right_mono)
  then have "(stop - rl_lastRefill r2) * rl_maxPerSec r2 < 2 ^ 50" using Cons.prems(3) f(4) by (simp add: r2_def)
  moreover have "0 \<le> rl_tokens r1" using Cons.prems(1,6) by (auto simp: r1_def refillLocked_def Let_def)
  ultimately have "n1 * 10 ^ 9 \<le> rl_tokens r2 * 10 ^ 9 + (stop - rl_lastRefill r2) * rl_maxPerSec r2"
    using Cons.IH [of r2 n1] n1(1) Cons.prems(1,2,4) f(3,4) by (auto simp: r2_def)
  then show ?case using f(1,4) n1(2) by (simp add: r2_def algebra_simps split: if_splits)
qed

text \<open>
  the rate limiter keeps its rate. From a new limiter, whatever the times of the calls up to some time \<open>stop\<close>, at most the initial burst of \<open>maxPerSec\<close>
  and \<open>maxPerSec\<close> per second passed are allowed.
\<close>

theorem spill_rate_bounded:
  assumes "token_law tokens_of" "0 \<le> m" "start \<le> stop" "\<forall>t \<in> set ts. t \<le> stop" "(stop - start) * m < 2 ^ 50"
    and "rl_allowed tokens_of ts (newSpilloverRateLimiter start m) = (n, r)"
  shows "n * 10 ^ 9 \<le> m * 10 ^ 9 + (stop - start) * m"
  using rl_allowed_budget [OF assms(1) _ assms(4) _ _ assms(6)] assms(2,3,5) by (simp add: newSpilloverRateLimiter_def)

theorem spill_rate_bounded_witness:
  "fst (rl_allowed (\<lambda>e m. e * m div 10 ^ 9) [1, 2, 500000000, 1000000000] (newSpilloverRateLimiter 0 2)) * 10 ^ 9 \<le> 4 * 10 ^ 9"
proof -
  have "x div d * d \<le> x" if "0 < d" for x d :: int using div_mult_mod_eq [of x d] pos_mod_sign [OF that, of x] by linarith
  then have "token_law (\<lambda>e m. e * m div 10 ^ 9)" by (simp add: token_law_def)
  then show ?thesis
    using spill_rate_bounded [of "\<lambda>e m. e * m div 10 ^ 9" 2 0 1000000000 "[1, 2, 500000000, 1000000000]", OF _ _ _ _ _ prod.collapse [symmetric]] by simp
qed

end
