(* ===== verification/Queued_Exporter.thy ===== *)
theory Queued_Exporter
  imports Batch_Queue Circuit_Breaker Export_Control "HOL-Library.Monad_Syntax"
begin

text \<open>
  The queued OTLP exporter: \<open>internal/exporter/queued.go\<close>. Its goroutines are loops; one round of each loop is a function of the exporter's state.
  The backend is a parameter with a state of its own, with its optional interfaces (\<open>ExportData\<close>, \<open>CompressData\<close>, \<open>SendCompressed\<close>), and so are the
  generated message codec, the compression, Unicode and float operations. The result \<open>None\<close> is a call that does not return: it waits for ever, or it panics. Sleeping,
  contexts, logging and Prometheus counters are left out. The deadline of \<open>drainQueue\<close> is the number of rounds that fit before it.
\<close>

section \<open>State\<close>

type_synonym 'v req = "'v ResourceMetrics list"

record ('v, 'x, 'f) export_env =
  xe_SizeVT :: "'v req \<Rightarrow> nat"
  xe_MarshalVT :: "'v req \<Rightarrow> bytes option"
  xe_UnmarshalVT :: "bytes \<Rightarrow> 'v req option"
  xe_enc :: "bytes \<Rightarrow> bytes"
  xe_dec :: "bytes \<Rightarrow> bytes option"
  xe_full :: bool
  xe_wakes :: "wakeup list"
  xe_select :: "'v req select_wakeup list"
  xe_id :: string
  xe_lower :: "gostring \<Rightarrow> gostring"
  xe_Export :: "'x \<Rightarrow> 'v req \<Rightarrow> go_error option \<times> 'x"
  xe_ExportData :: "('x \<Rightarrow> bytes \<Rightarrow> go_error option \<times> 'x) option"
  xe_CompressData :: "(bytes \<Rightarrow> (bytes \<times> gostring) option) option"
  xe_SendCompressed :: "('x \<Rightarrow> bytes \<Rightarrow> gostring \<Rightarrow> nat \<Rightarrow> go_error option \<times> 'x) option"
  xe_backoff :: "int \<Rightarrow> int"
  xe_ewma :: "int \<Rightarrow> int \<Rightarrow> int"
  xe_tokens :: "int \<Rightarrow> int \<Rightarrow> int"
  xe_spill :: "'f spill_lib"
  xe_tune :: "'f tuner_lib"
  xe_numCPU :: int

record PreparedEntry =
  pe_CompressedData :: bytes
  pe_RawData :: bytes
  pe_ContentEncoding :: gostring
  pe_UncompressedSize :: nat

record ('v, 'x, 'f) QueuedExporter =
  qx_backend :: 'x
  qx_queue :: SendQueue
  qx_memQueue :: "'v req MemoryBatchQueue option"
  qx_queueMode :: QueueMode
  qx_hybridSpillPct :: int
  qx_hybridHysteresisPct :: int
  qx_spilloverState :: SpilloverState
  qx_spillRateLimiter :: "spilloverRateLimiter option"
  qx_baseDelay :: int
  qx_maxDelay :: int
  qx_circuitBreaker :: "CircuitBreaker option"
  qx_alwaysQueue :: bool
  qx_workers :: int
  qx_backoffEnabled :: bool
  qx_batchDrainSize :: int
  qx_burstDrainSize :: int
  qx_pipelineSplitEnabled :: bool
  qx_preparerCount :: int
  qx_senderCount :: int
  qx_preparedCh :: "PreparedEntry list option"
  qx_preparedCap :: int
  qx_scaler :: "WorkerScaler option"
  qx_batchTuner :: "'f BatchTuner option"
  qx_nextWorkerID :: int
  qx_workerStops :: "int list"
  qx_closed :: bool

section \<open>Configuration\<close>

record QueuedConfig =
  qd_send :: SendConfig
  qd_Mode :: QueueMode
  qd_MemoryMaxBytes :: int
  qd_AlwaysQueue :: bool
  qd_BackoffEnabled :: bool
  qd_BatchDrainSize :: int
  qd_BurstDrainSize :: int
  qd_Workers :: int
  qd_PipelineSplitEnabled :: bool
  qd_PreparerCount :: int
  qd_SenderCount :: int
  qd_PipelineChannelSize :: int
  qd_HybridSpilloverPct :: int
  qd_HybridHysteresisPct :: int
  qd_SpilloverRateLimitPerSec :: int
  qd_CircuitBreakerEnabled :: bool
  qd_CircuitBreakerThreshold :: int
  qd_CircuitBreakerResetTimeout :: int
  qd_AdaptiveWorkersEnabled :: bool
  qd_MinWorkers :: int
  qd_MaxWorkers :: int

definition positive_or :: "int \<Rightarrow> int \<Rightarrow> int" where
  "positive_or fallback n = (if n \<le> 0 then fallback else n)"

definition spill_pct :: "QueuedConfig \<Rightarrow> int" where
  "spill_pct c = (if qd_HybridSpilloverPct c \<le> 0 \<or> qd_HybridSpilloverPct c > 100 then 80 else qd_HybridSpilloverPct c)"

definition hysteresis_pct :: "QueuedConfig \<Rightarrow> int" where
  "hysteresis_pct c =
     (if qd_HybridHysteresisPct c \<le> 0 then (if spill_pct c - 10 < 10 then 10 else spill_pct c - 10) else qd_HybridHysteresisPct c)"

definition new_mem_queue :: "QueuedConfig \<Rightarrow> 'r MemoryBatchQueue option" where
  "new_mem_queue c =
     (if qd_Mode c = QueueModeMemory \<or> qd_Mode c = QueueModeHybrid
      then Some (NewMemoryBatchQueue \<lparr>bc_MaxSize = sc_MaxSize (qd_send c),
                   bc_MaxBytes = (if qd_MemoryMaxBytes c \<le> 0 then sc_MaxBytes (qd_send c) else qd_MemoryMaxBytes c),
                   bc_FullBehavior = sc_FullBehavior (qd_send c), bc_BlockTimeout = sc_BlockTimeout (qd_send c)\<rparr>)
      else None)"

definition new_breaker :: "QueuedConfig \<Rightarrow> CircuitBreaker option" where
  "new_breaker c =
     (if qd_CircuitBreakerEnabled c
      then Some (NewCircuitBreaker (positive_or 5 (qd_CircuitBreakerThreshold c)) (positive_or (30 * 10 ^ 9) (qd_CircuitBreakerResetTimeout c)))
      else None)"

definition new_scaler :: "QueuedConfig \<Rightarrow> int \<Rightarrow> int \<Rightarrow> WorkerScaler option" where
  "new_scaler c workers senders =
     (if qd_AdaptiveWorkersEnabled c
      then let ws = NewWorkerScaler \<lparr>sk_Enabled = True, sk_MinWorkers = positive_or 1 (qd_MinWorkers c),
                      sk_MaxWorkers = positive_or (workers * 4) (qd_MaxWorkers c), sk_ScaleInterval = 0, sk_HighWaterMark = 0, sk_LowWaterMark = 0,
                      sk_MaxLatency = 0, sk_SustainedIdleSecs = 0\<rparr>
           in Some (if qd_AlwaysQueue c then scaler_Start (if qd_PipelineSplitEnabled c then senders else workers) ws else ws)
      else None)"

text \<open>\<open>startWorkers\<close> and \<open>startPipelineSplitWorkers\<close> number the goroutines they start; the senders can be stopped one by one.\<close>

definition started_workers :: "QueuedConfig \<Rightarrow> int \<Rightarrow> int \<Rightarrow> int \<times> int list" where
  "started_workers c workers senders =
     (if \<not> qd_AlwaysQueue c \<or> qd_Mode c = QueueModeMemory then (0, [])
      else if qd_PipelineSplitEnabled c \<and> (qd_Mode c = QueueModeDisk \<or> qd_Mode c = QueueModeHybrid) then (senders, map int [1..<nat senders + 1])
      else (workers, []))"

text \<open>The exporter over a send queue, with its workers started.\<close>

definition queued_over :: "int \<Rightarrow> ('v, 'x, 'f) export_env \<Rightarrow> 'x \<Rightarrow> QueuedConfig \<Rightarrow> SendQueue \<Rightarrow> ('v, 'x, 'f) QueuedExporter" where
  "queued_over now env backend c q =
     (let workers = positive_or (xe_numCPU env) (qd_Workers c);
          senders = positive_or (xe_numCPU env * 2) (qd_SenderCount c);
          split_pipeline = (qd_AlwaysQueue c \<and> qd_PipelineSplitEnabled c \<and> (qd_Mode c = QueueModeDisk \<or> qd_Mode c = QueueModeHybrid))
      in \<lparr>qx_backend = backend, qx_queue = q, qx_memQueue = new_mem_queue c, qx_queueMode = qd_Mode c,
          qx_hybridSpillPct = spill_pct c, qx_hybridHysteresisPct = hysteresis_pct c, qx_spilloverState = NewSpilloverState,
          qx_spillRateLimiter = (if qd_Mode c = QueueModeHybrid \<and> qd_SpilloverRateLimitPerSec c > 0
                                 then Some (newSpilloverRateLimiter now (qd_SpilloverRateLimitPerSec c)) else None),
          qx_baseDelay = sc_RetryInterval (qd_send c), qx_maxDelay = sc_MaxRetryDelay (qd_send c), qx_circuitBreaker = new_breaker c,
          qx_alwaysQueue = qd_AlwaysQueue c, qx_workers = workers, qx_backoffEnabled = qd_BackoffEnabled c,
          qx_batchDrainSize = positive_or 10 (qd_BatchDrainSize c), qx_burstDrainSize = positive_or 100 (qd_BurstDrainSize c),
          qx_pipelineSplitEnabled = qd_PipelineSplitEnabled c, qx_preparerCount = positive_or (xe_numCPU env) (qd_PreparerCount c),
          qx_senderCount = senders, qx_preparedCh = (if split_pipeline then Some [] else None), qx_preparedCap = positive_or 256 (qd_PipelineChannelSize c),
          qx_scaler = new_scaler c workers senders, qx_batchTuner = None, qx_nextWorkerID = fst (started_workers c workers senders),
          qx_workerStops = snd (started_workers c workers senders), qx_closed = False\<rparr>)"

text \<open>The default mode is \<open>disk\<close>; the send queue is always there, also in memory mode.\<close>

definition NewQueued :: "bool \<Rightarrow> int \<Rightarrow> ('v, 'x, 'f) export_env \<Rightarrow> 'x \<Rightarrow> QueuedConfig \<Rightarrow> fsys \<Rightarrow> fastqueueMeta option \<Rightarrow> sq_error + ('v, 'x, 'f) QueuedExporter" where
  "NewQueued timed_out now env backend c files meta =
     (let c = c\<lparr>qd_Mode := (if qd_Mode c = QueueModeOther [] then QueueModeDisk else qd_Mode c)\<rparr>
      in case NewSendQueue timed_out (xe_full env) (qd_send c) files meta of Inl err \<Rightarrow> Inl err | Inr q \<Rightarrow> Inr (queued_over now env backend c q))"

definition SetBatchTuner :: "('v, 'x, 'f) QueuedExporter \<Rightarrow> 'f BatchTuner option \<Rightarrow> ('v, 'x, 'f) QueuedExporter" where
  "SetBatchTuner e bt = e\<lparr>qx_batchTuner := bt\<rparr>"

section \<open>Calls to the parts\<close>

definition push_disk :: "('v, 'x, 'f) export_env \<Rightarrow> 'v req \<Rightarrow> ('v, 'x, 'f) QueuedExporter \<Rightarrow> (sq_error option \<times> ('v, 'x, 'f) QueuedExporter) option" where
  "push_disk env req e = map_option (\<lambda>(r, q). (r, e\<lparr>qx_queue := q\<rparr>))
     (sq_Push (xe_MarshalVT env) (xe_enc env) (xe_dec env) (xe_full env) (xe_wakes env) (qx_queue e) req)"

definition push_raw :: "('v, 'x, 'f) export_env \<Rightarrow> bytes \<Rightarrow> ('v, 'x, 'f) QueuedExporter \<Rightarrow> (sq_error option \<times> ('v, 'x, 'f) QueuedExporter) option" where
  "push_raw env data e = map_option (\<lambda>(r, q). (r, e\<lparr>qx_queue := q\<rparr>))
     (PushData (xe_enc env) (xe_dec env) (xe_full env) (xe_wakes env) (qx_queue e) data)"

definition pop_disk :: "('v, 'x, 'f) export_env \<Rightarrow> ('v, 'x, 'f) QueuedExporter \<Rightarrow> (sq_error + QueueEntry option) \<times> ('v, 'x, 'f) QueuedExporter" where
  "pop_disk env e = (case sq_Pop (xe_dec env) (xe_full env) (xe_id env) (qx_queue e) of (r, q) \<Rightarrow> (r, e\<lparr>qx_queue := q\<rparr>))"

definition push_mem :: "('v, 'x, 'f) export_env \<Rightarrow> 'v req ExportBatch \<Rightarrow> ('v, 'x, 'f) QueuedExporter \<Rightarrow> (batch_error option \<times> ('v, 'x, 'f) QueuedExporter) option" where
  "push_mem env b e =
     (case qx_memQueue e of
        None \<Rightarrow> None
      | Some m \<Rightarrow> (case PushBatch (xe_select env) m b of Some (Ok (r, m)) \<Rightarrow> Some (r, e\<lparr>qx_memQueue := Some m\<rparr>) | _ \<Rightarrow> None))"

definition allow_request :: "int \<Rightarrow> ('v, 'x, 'f) QueuedExporter \<Rightarrow> bool \<times> ('v, 'x, 'f) QueuedExporter" where
  "allow_request now e =
     (case qx_circuitBreaker e of
        None \<Rightarrow> (True, e)
      | Some cb \<Rightarrow> (case AllowRequest now cb of (b, cb) \<Rightarrow> (b, e\<lparr>qx_circuitBreaker := Some cb\<rparr>)))"

definition record_success :: "int \<Rightarrow> ('v, 'x, 'f) QueuedExporter \<Rightarrow> ('v, 'x, 'f) QueuedExporter" where
  "record_success now e = e\<lparr>qx_circuitBreaker := map_option (cb_RecordSuccess now) (qx_circuitBreaker e)\<rparr>"

definition record_failure :: "int \<Rightarrow> ('v, 'x, 'f) QueuedExporter \<Rightarrow> ('v, 'x, 'f) QueuedExporter" where
  "record_failure now e = e\<lparr>qx_circuitBreaker := map_option (cb_RecordFailure now) (qx_circuitBreaker e)\<rparr>"

definition record_latency :: "('v, 'x, 'f) export_env \<Rightarrow> int \<Rightarrow> ('v, 'x, 'f) QueuedExporter \<Rightarrow> ('v, 'x, 'f) QueuedExporter" where
  "record_latency env dur e = e\<lparr>qx_scaler := map_option (RecordLatency (xe_ewma env) dur) (qx_scaler e)\<rparr>"

definition tune_success :: "('v, 'x, 'f) export_env \<Rightarrow> ('v, 'x, 'f) QueuedExporter \<Rightarrow> ('v, 'x, 'f) QueuedExporter" where
  "tune_success env e = e\<lparr>qx_batchTuner := map_option (bt_RecordSuccess (xe_tune env)) (qx_batchTuner e)\<rparr>"

definition tune_failure :: "('v, 'x, 'f) export_env \<Rightarrow> go_error \<Rightarrow> ('v, 'x, 'f) QueuedExporter \<Rightarrow> ('v, 'x, 'f) QueuedExporter" where
  "tune_failure env err e = e\<lparr>qx_batchTuner := map_option (bt_RecordFailure (xe_tune env) (Some err)) (qx_batchTuner e)\<rparr>"

definition export_req :: "('v, 'x, 'f) export_env \<Rightarrow> 'v req \<Rightarrow> ('v, 'x, 'f) QueuedExporter \<Rightarrow> go_error option \<times> ('v, 'x, 'f) QueuedExporter" where
  "export_req env req e = (case xe_Export env (qx_backend e) req of (err, x) \<Rightarrow> (err, e\<lparr>qx_backend := x\<rparr>))"

definition rate_allow :: "('v, 'x, 'f) export_env \<Rightarrow> int \<Rightarrow> ('v, 'x, 'f) QueuedExporter \<Rightarrow> bool \<times> ('v, 'x, 'f) QueuedExporter" where
  "rate_allow env now e =
     (case qx_spillRateLimiter e of
        None \<Rightarrow> (True, e)
      | Some r \<Rightarrow> (case rl_Allow (xe_tokens env) now r of (b, r) \<Rightarrow> (b, e\<lparr>qx_spillRateLimiter := Some r\<rparr>)))"

section \<open>Export\<close>

datatype qx_error =
    ExportQueued | LoadShedding | MemoryPush batch_error | DiskPush sq_error | HybridPush batch_error sq_error
  | RateLimitedPush batch_error | CircuitPush sq_error | BackendError go_error

definition mem_or_disk :: "('v, 'x, 'f) export_env \<Rightarrow> 'v req ExportBatch \<Rightarrow> 'v req \<Rightarrow> ('v, 'x, 'f) QueuedExporter \<Rightarrow> (qx_error option \<times> ('v, 'x, 'f) QueuedExporter) option" where
  "mem_or_disk env b req e = do {
     (r, e) \<leftarrow> push_mem env b e;
     (case r of
        None \<Rightarrow> Some (None, e)
      | Some memErr \<Rightarrow> map_option (\<lambda>(d, e). (map_option (HybridPush memErr) d, e)) (push_disk env req e))}"

definition disk_or_mem :: "('v, 'x, 'f) export_env \<Rightarrow> int \<Rightarrow> 'v req ExportBatch \<Rightarrow> 'v req \<Rightarrow> ('v, 'x, 'f) QueuedExporter \<Rightarrow> (qx_error option \<times> ('v, 'x, 'f) QueuedExporter) option" where
  "disk_or_mem env now b req e =
     (case rate_allow env now e of
        (True, e) \<Rightarrow> map_option (\<lambda>(d, e). (map_option DiskPush d, e)) (push_disk env req e)
      | (False, e) \<Rightarrow> map_option (\<lambda>(m, e). (map_option RateLimitedPush m, e)) (push_mem env b e))"

definition export_hybrid :: "('v, 'x, 'f :: linorder) export_env \<Rightarrow> int \<Rightarrow> 'v req \<Rightarrow> ('v, 'x, 'f) QueuedExporter \<Rightarrow> (qx_error option \<times> ('v, 'x, 'f) QueuedExporter) option" where
  "export_hybrid env now req e = do {
     m \<leftarrow> qx_memQueue e;
     let b = NewExportBatch (xe_SizeVT env) now req;
     let (mode, s) = Evaluate (xe_spill env) now (qx_spilloverState e) (Utilization (xe_spill env) m) (qx_hybridSpillPct e) (qx_hybridHysteresisPct e);
     let e = e\<lparr>qx_spilloverState := s\<rparr>;
     (case mode of
        SpilloverMemoryOnly \<Rightarrow> mem_or_disk env b req e
      | SpilloverPartialDisk \<Rightarrow>
          (case ShouldSpillThisBatch s of (spill, s) \<Rightarrow>
             let e = e\<lparr>qx_spilloverState := s\<rparr> in if spill then disk_or_mem env now b req e else mem_or_disk env b req e)
      | SpilloverAllDisk \<Rightarrow> disk_or_mem env now b req e
      | SpilloverLoadShedding \<Rightarrow> Some (Some LoadShedding, e))}"

definition legacyExport :: "('v, 'x, 'f) export_env \<Rightarrow> int \<Rightarrow> 'v req \<Rightarrow> ('v, 'x, 'f) QueuedExporter \<Rightarrow> (qx_error option \<times> ('v, 'x, 'f) QueuedExporter) option" where
  "legacyExport env now req e =
     (case allow_request now e of
        (False, e) \<Rightarrow> map_option (\<lambda>(d, e). (Some (case d of Some err \<Rightarrow> CircuitPush err | None \<Rightarrow> ExportQueued), e)) (push_disk env req e)
      | (True, e) \<Rightarrow>
          (case export_req env req e of
             (None, e) \<Rightarrow> Some (None, record_success now e)
           | (Some err, e) \<Rightarrow>
               map_option (\<lambda>(d, e). (Some (if d = None then ExportQueued else BackendError err), e)) (push_disk env req (record_failure now e))))"

definition qx_Export :: "('v, 'x, 'f :: linorder) export_env \<Rightarrow> int \<Rightarrow> 'v req \<Rightarrow> ('v, 'x, 'f) QueuedExporter \<Rightarrow> (qx_error option \<times> ('v, 'x, 'f) QueuedExporter) option" where
  "qx_Export env now req e =
     (if qx_alwaysQueue e then
        (case qx_queueMode e of
           QueueModeMemory \<Rightarrow> map_option (\<lambda>(m, e). (map_option MemoryPush m, e)) (push_mem env (NewExportBatch (xe_SizeVT env) now req) e)
         | QueueModeHybrid \<Rightarrow> export_hybrid env now req e
         | _ \<Rightarrow> map_option (\<lambda>(d, e). (map_option DiskPush d, e)) (push_disk env req e))
      else legacyExport env now req e)"

section \<open>Workers\<close>

definition base_backoff :: "('v, 'x, 'f) QueuedExporter \<Rightarrow> int" where
  "base_backoff e = (if qx_baseDelay e \<le> 0 then 5 * 10 ^ 9 else qx_baseDelay e)"

definition next_backoff :: "('v, 'x, 'f) export_env \<Rightarrow> ('v, 'x, 'f) QueuedExporter \<Rightarrow> int \<Rightarrow> int" where
  "next_backoff env e d =
     (if qx_backoffEnabled e then (let n = xe_backoff env d in if n > qx_maxDelay e \<and> qx_maxDelay e > 0 then qx_maxDelay e else n) else d)"

definition requeue_halves :: "('v, 'x, 'f) export_env \<Rightarrow> 'v req \<Rightarrow> ('v, 'x, 'f) QueuedExporter \<Rightarrow> ('v, 'x, 'f) QueuedExporter option" where
  "requeue_halves env req e = do {
     (_, e) \<leftarrow> push_disk env (take (length req div 2) req) e;
     (_, e) \<leftarrow> push_disk env (drop (length req div 2) req) e;
     Some e}"

text \<open>What follows a failed export of raw bytes; the answer is whether the worker backs off.\<close>

definition handle_failure :: "('v, 'x, 'f) export_env \<Rightarrow> go_error \<Rightarrow> bytes \<Rightarrow> ('v, 'x, 'f) QueuedExporter \<Rightarrow> (bool \<times> ('v, 'x, 'f) QueuedExporter) option" where
  "handle_failure env err raw e =
     (let splittable = (case errors_As err of Some ee \<Rightarrow> IsSplittable (xe_lower env) ee | None \<Rightarrow> False);
          halves = (case xe_UnmarshalVT env raw of Some req \<Rightarrow> if length req > 1 then Some req else None | None \<Rightarrow> None)
      in case (if splittable then halves else None) of
           Some req \<Rightarrow> map_option (Pair False) (requeue_halves env req e)
         | None \<Rightarrow>
             if (case errors_As err of Some ee \<Rightarrow> \<not> IsRetryable ee | None \<Rightarrow> False) then Some (False, e)
             else map_option (\<lambda>(_, e). (True, e)) (push_raw env raw e))"

definition send_raw :: "('v, 'x, 'f) export_env \<Rightarrow> bytes \<Rightarrow> ('v, 'x, 'f) QueuedExporter \<Rightarrow> (go_error option \<times> ('v, 'x, 'f) QueuedExporter) option" where
  "send_raw env raw e =
     (case xe_ExportData env of
        Some f \<Rightarrow> (case f (qx_backend e) raw of (err, x) \<Rightarrow> Some (err, e\<lparr>qx_backend := x\<rparr>))
      | None \<Rightarrow> map_option (\<lambda>req. export_req env req e) (xe_UnmarshalVT env raw))"

text \<open>One round of \<open>workerLoop\<close>. An entry that cannot be decoded is gone, and nothing is recorded.\<close>

definition worker_step :: "('v, 'x, 'f) export_env \<Rightarrow> int \<Rightarrow> int \<Rightarrow> int \<times> ('v, 'x, 'f) QueuedExporter \<Rightarrow> (int \<times> ('v, 'x, 'f) QueuedExporter) option" where
  "worker_step env now dur = (\<lambda>(backoff, e).
     case pop_disk env e of
       (Inl _, e) \<Rightarrow> Some (backoff, e)
     | (Inr None, e) \<Rightarrow> Some (backoff, e)
     | (Inr (Some entry), e) \<Rightarrow>
         (case allow_request now e of
            (False, e) \<Rightarrow> map_option (\<lambda>(_, e). (backoff, e)) (push_raw env (Data entry) e)
          | (True, e) \<Rightarrow>
              (case send_raw env (Data entry) e of
                 None \<Rightarrow> Some (backoff, e)
               | Some (None, e) \<Rightarrow> Some (base_backoff e, tune_success env (record_latency env dur (record_success now e)))
               | Some (Some err, e) \<Rightarrow>
                   map_option (\<lambda>(b, e). (if b then next_backoff env e backoff else backoff, e))
                     (handle_failure env err (Data entry) (tune_failure env err (record_failure now e))))))"

text \<open>One round of \<open>memBatchWorkerLoop\<close>; the first component says whether the loop goes on.\<close>

definition mem_worker_step :: "('v, 'x, 'f) export_env \<Rightarrow> bool \<Rightarrow> bool \<Rightarrow> int \<Rightarrow> int \<Rightarrow> int \<times> ('v, 'x, 'f) QueuedExporter \<Rightarrow> (bool \<times> int \<times> ('v, 'x, 'f) QueuedExporter) option" where
  "mem_worker_step env stopped prefer now dur = (\<lambda>(backoff, e).
     if stopped then Some (False, backoff, e)
     else do {
       m \<leftarrow> qx_memQueue e;
       (r, m) \<leftarrow> PopBatchBlocking stopped prefer m;
       let e = e\<lparr>qx_memQueue := Some m\<rparr>;
       (case r of
          Inl _ \<Rightarrow> Some (False, backoff, e)
        | Inr None \<Rightarrow> Some (False, backoff, e)
        | Inr (Some b) \<Rightarrow>
            (case allow_request now e of
               (False, e) \<Rightarrow> map_option (\<lambda>(_, e). (True, backoff, e)) (push_mem env b e)
             | (True, e) \<Rightarrow>
                 (case export_req env (ToRequest b) e of
                    (None, e) \<Rightarrow> Some (True, base_backoff e, record_latency env dur (record_success now e))
                  | (Some err, e) \<Rightarrow>
                      map_option (\<lambda>(_, e). (True, next_backoff env e backoff, e)) (push_mem env b (record_failure now e)))))})"

text \<open>One round of \<open>preparerLoop\<close>. \<open>stopped\<close>: the final select takes the case of the closed stop channel.\<close>

definition preparer_step :: "('v, 'x, 'f) export_env \<Rightarrow> bool \<Rightarrow> int \<Rightarrow> ('v, 'x, 'f) QueuedExporter \<Rightarrow> (bool \<times> ('v, 'x, 'f) QueuedExporter) option" where
  "preparer_step env stopped now e =
     (case pop_disk env e of
        (Inl _, e) \<Rightarrow> Some (True, e)
      | (Inr None, e) \<Rightarrow> Some (True, e)
      | (Inr (Some entry), e) \<Rightarrow>
          (case allow_request now e of
             (False, e) \<Rightarrow> map_option (\<lambda>(_, e). (True, e)) (push_raw env (Data entry) e)
           | (True, e) \<Rightarrow>
               (case (case xe_CompressData env of None \<Rightarrow> Some (Data entry, []) | Some f \<Rightarrow> f (Data entry)) of
                  None \<Rightarrow> map_option (\<lambda>(_, e). (True, e)) (push_raw env (Data entry) e)
                | Some (compressed, encoding) \<Rightarrow>
                    if stopped then map_option (\<lambda>(_, e). (False, e)) (push_raw env (Data entry) e)
                    else do {
                      pending \<leftarrow> qx_preparedCh e;
                      if int (length pending) < qx_preparedCap e
                      then Some (True, e\<lparr>qx_preparedCh := Some (pending @ [\<lparr>pe_CompressedData = compressed, pe_RawData = Data entry,
                             pe_ContentEncoding = encoding, pe_UncompressedSize = length (Data entry)\<rparr>])\<rparr>)
                      else None})))"

text \<open>
  One round of \<open>senderLoop\<close>; receiving from a nil or empty channel waits. The send semaphore is acquired with a background context, which is never cancelled. In the
  slow path an entry that cannot be decoded counts as a failed export with an error that is no \<open>ExportError\<close>.
\<close>

definition send_prepared :: "('v, 'x, 'f) export_env \<Rightarrow> PreparedEntry \<Rightarrow> ('v, 'x, 'f) QueuedExporter \<Rightarrow> go_error option \<times> ('v, 'x, 'f) QueuedExporter" where
  "send_prepared env p e =
     (case xe_SendCompressed env of
        Some f \<Rightarrow> (case f (qx_backend e) (pe_CompressedData p) (pe_ContentEncoding p) (pe_UncompressedSize p) of (err, x) \<Rightarrow> (err, e\<lparr>qx_backend := x\<rparr>))
      | None \<Rightarrow>
          (case send_raw env (pe_RawData p) e of
             Some r \<Rightarrow> r
           | None \<Rightarrow> (Some (OtherError (gostr ''failed to unmarshal request'') NotNet), e)))"

definition sender_step :: "('v, 'x, 'f) export_env \<Rightarrow> int \<Rightarrow> int \<Rightarrow> int \<times> ('v, 'x, 'f) QueuedExporter \<Rightarrow> (int \<times> ('v, 'x, 'f) QueuedExporter) option" where
  "sender_step env now dur = (\<lambda>(backoff, e).
     case qx_preparedCh e of
       Some (p # pending) \<Rightarrow>
         (case send_prepared env p (e\<lparr>qx_preparedCh := Some pending\<rparr>) of
            (None, e) \<Rightarrow> Some (base_backoff e, tune_success env (record_latency env dur (record_success now e)))
          | (Some err, e) \<Rightarrow>
              map_option (\<lambda>(b, e). (if b then next_backoff env e backoff else backoff, e))
                (handle_failure env err (pe_RawData p) (tune_failure env err (record_failure now e))))
     | _ \<Rightarrow> None)"

definition addSender :: "('v, 'x, 'f) QueuedExporter \<Rightarrow> ('v, 'x, 'f) QueuedExporter" where
  "addSender e = (let i = qx_nextWorkerID e + 1 in e\<lparr>qx_nextWorkerID := i, qx_workerStops := qx_workerStops e @ [i]\<rparr>)"

text \<open>The argument picks the entry that ranging over the map meets first.\<close>

definition removeSender :: "(int list \<Rightarrow> int) \<Rightarrow> ('v, 'x, 'f) QueuedExporter \<Rightarrow> ('v, 'x, 'f) QueuedExporter" where
  "removeSender pick e = (if qx_workerStops e = [] then e else e\<lparr>qx_workerStops := remove1 (pick (qx_workerStops e)) (qx_workerStops e)\<rparr>)"

definition activeSenderCount :: "('v, 'x, 'f) QueuedExporter \<Rightarrow> nat" where
  "activeSenderCount e = length (qx_workerStops e)"

section \<open>The retry loop\<close>

definition qx_processQueue :: "('v, 'x, 'f) export_env \<Rightarrow> int \<Rightarrow> ('v, 'x, 'f) QueuedExporter \<Rightarrow> (bool \<times> ('v, 'x, 'f) QueuedExporter) option" where
  "qx_processQueue env now e =
     (case pop_disk env e of
        (Inl _, e) \<Rightarrow> Some (False, e)
      | (Inr None, e) \<Rightarrow> Some (True, e)
      | (Inr (Some entry), e) \<Rightarrow>
          (case GetRequest (xe_UnmarshalVT env) entry of
             Inl _ \<Rightarrow> Some (False, e)
           | Inr req \<Rightarrow>
               (case export_req env req e of
                  (None, e) \<Rightarrow> Some (True, record_success now e)
                | (Some err, e) \<Rightarrow>
                    let e = record_failure now e
                    in if (case errors_As err of Some ee \<Rightarrow> IsSplittable (xe_lower env) ee | None \<Rightarrow> False) \<and> length req > 1
                       then map_option (Pair False) (requeue_halves env req e)
                       else if (case errors_As err of Some ee \<Rightarrow> \<not> IsRetryable ee | None \<Rightarrow> False) then Some (False, e)
                       else map_option (\<lambda>(_, e). (False, e)) (push_disk env req e))))"

text \<open>The batch drain counts the successes; it stops at the first failure and at an empty queue.\<close>

fun batch_drain :: "('v, 'x, 'f) export_env \<Rightarrow> int \<Rightarrow> nat \<Rightarrow> ('v, 'x, 'f) QueuedExporter \<Rightarrow> (nat \<times> ('v, 'x, 'f) QueuedExporter) option" where
  "batch_drain env now 0 e = Some (0, e)"
| "batch_drain env now (Suc n) e = do {
     (success, e) \<leftarrow> qx_processQueue env now e;
     if \<not> success then Some (0, e)
     else if sq_Len (qx_queue e) = 0 then Some (1, e)
     else map_option (\<lambda>(drained, e). (drained + 1, e)) (batch_drain env now n e)}"

fun burst_drain :: "('v, 'x, 'f) export_env \<Rightarrow> int \<Rightarrow> nat \<Rightarrow> ('v, 'x, 'f) QueuedExporter \<Rightarrow> ('v, 'x, 'f) QueuedExporter option" where
  "burst_drain env now 0 e = Some e"
| "burst_drain env now (Suc n) e =
     (if sq_Len (qx_queue e) > 0 then do { (success, e) \<leftarrow> qx_processQueue env now e; if success then burst_drain env now n e else Some e }
      else Some e)"

text \<open>One firing of the ticker of \<open>retryLoop\<close>, with the delay until the next.\<close>

definition qx_retry_tick :: "('v, 'x, 'f) export_env \<Rightarrow> int \<Rightarrow> int \<times> ('v, 'x, 'f) QueuedExporter \<Rightarrow> (int \<times> ('v, 'x, 'f) QueuedExporter) option" where
  "qx_retry_tick env now = (\<lambda>(currentDelay, e).
     case allow_request now e of
       (False, e) \<Rightarrow> Some (currentDelay, e)
     | (True, e) \<Rightarrow> do {
         (drained, e) \<leftarrow> batch_drain env now (nat (qx_batchDrainSize e)) e;
         if drained > 0 \<or> sq_Len (qx_queue e) = 0 then
           (if drained > 0 \<and> sq_Len (qx_queue e) > 0 then map_option (Pair (base_backoff e)) (burst_drain env now (nat (qx_burstDrainSize e)) e)
            else Some (base_backoff e, e))
         else if qx_backoffEnabled e \<and> sq_Len (qx_queue e) > 0 then
           (let newDelay = xe_backoff env currentDelay;
                newDelay = (if newDelay > qx_maxDelay e \<and> qx_maxDelay e > 0 then qx_maxDelay e else newDelay);
                newDelay = (if newDelay \<le> 0 then 5 * 10 ^ 9 else newDelay)
            in Some (newDelay, e))
         else Some (currentDelay, e)})"

fun push_all_disk :: "('v, 'x, 'f) export_env \<Rightarrow> 'v req list \<Rightarrow> ('v, 'x, 'f) QueuedExporter \<Rightarrow> ('v, 'x, 'f) QueuedExporter option" where
  "push_all_disk env [] e = Some e"
| "push_all_disk env (req # reqs) e = do { (_, e) \<leftarrow> push_disk env req e; push_all_disk env reqs e }"

text \<open>The loop of \<open>drainQueue\<close>; the deadline passes after \<open>n\<close> rounds. Entries that fail are pushed again at the end.\<close>

fun drain_rounds :: "('v, 'x, 'f) export_env \<Rightarrow> nat \<Rightarrow> 'v req list \<Rightarrow> ('v, 'x, 'f) QueuedExporter \<Rightarrow> ('v, 'x, 'f) QueuedExporter option" where
  "drain_rounds env 0 failed e = push_all_disk env failed e"
| "drain_rounds env (Suc n) failed e =
     (case pop_disk env e of
        (Inr (Some entry), e) \<Rightarrow>
          (case GetRequest (xe_UnmarshalVT env) entry of
             Inl _ \<Rightarrow> drain_rounds env n failed e
           | Inr req \<Rightarrow>
               (case export_req env req e of
                  (None, e) \<Rightarrow> drain_rounds env n failed e
                | (Some _, e) \<Rightarrow> drain_rounds env n (failed @ [req]) e))
      | (_, e) \<Rightarrow> push_all_disk env failed e)"

definition qx_drainQueue :: "('v, 'x, 'f) export_env \<Rightarrow> nat \<Rightarrow> ('v, 'x, 'f) QueuedExporter \<Rightarrow> ('v, 'x, 'f) QueuedExporter option" where
  "qx_drainQueue env n e = drain_rounds env n [] e"

text \<open>Closing, once the loops have ended; in both modes the disk queue is drained, by \<open>Close\<close> or by the retry loop.\<close>

definition qx_Close :: "('v, 'x, 'f) export_env \<Rightarrow> nat \<Rightarrow> ('v, 'x, 'f) QueuedExporter \<Rightarrow> ('v, 'x, 'f) QueuedExporter option" where
  "qx_Close env n e =
     (if qx_closed e then Some e
      else map_option (\<lambda>e. e\<lparr>qx_memQueue := map_option bq_Close (qx_memQueue e), qx_queue := snd (sq_Close (xe_enc env) (xe_full env) (qx_queue e))\<rparr>)
             (qx_drainQueue env n (e\<lparr>qx_closed := True\<rparr>)))"

section \<open>Observers\<close>

fun doubled :: "int \<Rightarrow> nat \<Rightarrow> int \<Rightarrow> int" where
  "doubled maxDelay 0 delay = delay"
| "doubled maxDelay (Suc n) delay = (if delay * 2 > maxDelay then maxDelay else doubled maxDelay n (delay * 2))"

definition calculateBackoff :: "('v, 'x, 'f) QueuedExporter \<Rightarrow> int \<Rightarrow> int" where
  "calculateBackoff e attempts = (if attempts \<le> 0 then 0 else doubled (qx_maxDelay e) (nat attempts) (qx_baseDelay e))"

definition getCircuitState :: "('v, 'x, 'f) QueuedExporter \<Rightarrow> string" where
  "getCircuitState e =
     (case qx_circuitBreaker e of
        None \<Rightarrow> ''disabled''
      | Some cb \<Rightarrow> (case cb_state cb of CircuitClosed \<Rightarrow> ''closed'' | CircuitOpen \<Rightarrow> ''open'' | CircuitHalfOpen \<Rightarrow> ''half_open''))"

definition QueueLen :: "('v, 'x, 'f) QueuedExporter \<Rightarrow> int" where
  "QueueLen e = sq_Len (qx_queue e) + (case qx_memQueue e of Some m \<Rightarrow> bq_Len m | None \<Rightarrow> 0)"

definition qx_QueueSize :: "('v, 'x, 'f) QueuedExporter \<Rightarrow> int" where
  "qx_QueueSize e = sq_Size (qx_queue e) + (case qx_memQueue e of Some m \<Rightarrow> bq_Size m | None \<Rightarrow> 0)"

end
