(* ===== verification/Queued_Exporter_Correct.thy ===== *)
theory Queued_Exporter_Correct
  imports Queued_Exporter
begin

text \<open>
  Properties of the queued OTLP exporter: what the parts it calls leave alone, what its workers do with an entry that the backend refuses, how the retry loop and
  the circuit breaker work together, and what closing does with the entries that are not on disk.
\<close>

section \<open>What each call leaves alone\<close>

definition queued :: "('v, 'x, 'f) QueuedExporter \<Rightarrow> bytes list" where
  "queued e = ch (fq (qx_queue e))"

lemma record_keeps [simp]:
  "qx_queue (record_success now e) = qx_queue e" "qx_queue (record_failure now e) = qx_queue e"
  "qx_queue (record_latency env dur e) = qx_queue e" "qx_queue (tune_success env e) = qx_queue e" "qx_queue (tune_failure env err e) = qx_queue e"
  "qx_backend (record_success now e) = qx_backend e" "qx_backend (record_failure now e) = qx_backend e"
  "qx_backend (record_latency env dur e) = qx_backend e" "qx_backend (tune_success env e) = qx_backend e" "qx_backend (tune_failure env err e) = qx_backend e"
  by (simp_all add: record_success_def record_failure_def record_latency_def tune_success_def tune_failure_def)

lemma allow_request_keeps:
  "allow_request now e = (b, e') \<Longrightarrow> qx_queue e' = qx_queue e \<and> qx_backend e' = qx_backend e"
  by (auto simp: allow_request_def split: option.splits prod.splits)

lemma push_raw_keeps: "push_raw env data e = Some (r, e') \<Longrightarrow> qx_backend e' = qx_backend e \<and> qx_circuitBreaker e' = qx_circuitBreaker e"
  by (auto simp: push_raw_def)

lemma push_disk_keeps:
  "push_disk env req e = Some (r, e') \<Longrightarrow> qx_backend e' = qx_backend e \<and> qx_circuitBreaker e' = qx_circuitBreaker e
     \<and> qx_memQueue e' = qx_memQueue e \<and> qx_preparedCh e' = qx_preparedCh e \<and> qx_closed e' = qx_closed e"
  by (auto simp: push_disk_def)

lemma pop_disk_keeps:
  "pop_disk env e = (r, e') \<Longrightarrow> qx_backend e' = qx_backend e \<and> qx_circuitBreaker e' = qx_circuitBreaker e
     \<and> qx_memQueue e' = qx_memQueue e \<and> qx_preparedCh e' = qx_preparedCh e \<and> qx_closed e' = qx_closed e"
  by (auto simp: pop_disk_def split: prod.splits)

lemma export_req_keeps:
  "export_req env req e = (r, e') \<Longrightarrow> qx_memQueue e' = qx_memQueue e \<and> qx_preparedCh e' = qx_preparedCh e \<and> qx_closed e' = qx_closed e"
  by (auto simp: export_req_def split: prod.splits)

section \<open>A queue that stays in memory and within its limits\<close>

definition within_limits :: "SendQueue \<Rightarrow> bool" where
  "within_limits q \<longleftrightarrow> mem_only q \<and> (cfg_MaxBytes (cfg (fq q)) > 0 \<longrightarrow> int (length (concat (ch (fq q)))) \<le> cfg_MaxBytes (cfg (fq q)))"

lemma pop_disk_mem:
  assumes "within_limits (qx_queue e)"
  shows "queued e = [] \<Longrightarrow> pop_disk env e = (Inr None, e)"
    and "queued e = d # ds \<Longrightarrow> \<exists>entry e'. pop_disk env e = (Inr (Some entry), e') \<and> Data entry = d \<and> queued e' = ds
      \<and> within_limits (qx_queue e') \<and> queue_fits (cfg (fq (qx_queue e'))) ds d \<and> qx_backend e' = qx_backend e"
proof -
  have m: "\<not> sq_closed (qx_queue e)" "fast_mem (fq (qx_queue e))" using assms by (simp_all add: within_limits_def mem_only_def)
  show "queued e = [] \<Longrightarrow> pop_disk env e = (Inr None, e)"
    using m Pop_mem(1) [OF m(2), of "xe_dec env" "xe_full env"] by (simp add: queued_def pop_disk_def sq_Pop_def)
  assume c: "queued e = d # ds"
  then obtain f where f: "fq_Pop (xe_dec env) (xe_full env) (fq (qx_queue e)) = (Inr (Some d), f)" "fast_mem f" "ch f = ds" "cfg f = cfg (fq (qx_queue e))"
    using Pop_mem(2) [OF m(2), of d ds "xe_dec env" "xe_full env"] by (auto simp: queued_def)
  let ?q = "cleanRetries (qx_queue e\<lparr>fq := f\<rparr>)"
  have q: "fq ?q = f" "\<not> sq_closed ?q" using m by (simp_all add: cleanRetries_def)
  have b: "cfg_MaxBytes (cfg f) > 0 \<longrightarrow> int (length d) + int (length (concat ds)) \<le> cfg_MaxBytes (cfg f)"
    using assms c f(4) by (simp add: within_limits_def queued_def)
  have "int (length ds) < cfg_MaxSize (cfg f)"
    using m(2) c f(4) by (simp add: fast_mem_def queued_def)
  with b have "queue_fits (cfg f) ds d" by (simp add: queue_fits_def add.commute)
  moreover have "within_limits ?q" using q f b by (auto simp: within_limits_def mem_only_def)
  moreover have "pop_disk env e = (Inr (Some \<lparr>ID = xe_id env, Data = d, Retries = 0\<rparr>), e\<lparr>qx_queue := ?q\<rparr>)"
    using m f(1) by (simp add: pop_disk_def sq_Pop_def)
  ultimately show "\<exists>entry e'. pop_disk env e = (Inr (Some entry), e') \<and> Data entry = d \<and> queued e' = ds
      \<and> within_limits (qx_queue e') \<and> queue_fits (cfg (fq (qx_queue e'))) ds d \<and> qx_backend e' = qx_backend e"
    using q f by (auto simp: queued_def)
qed

text \<open>An entry that has just been taken out fits again.\<close>

lemma push_raw_mem:
  assumes "within_limits (qx_queue e)" "queue_fits (cfg (fq (qx_queue e))) (queued e) data"
  shows "\<exists>e'. push_raw env data e = Some (None, e') \<and> within_limits (qx_queue e') \<and> queued e' = queued e @ [data] \<and> qx_backend e' = qx_backend e"
proof -
  have m: "\<not> sq_closed (qx_queue e)" "fast_mem (fq (qx_queue e))" using assms by (simp_all add: within_limits_def mem_only_def)
  obtain q where "push_loop (xe_enc env) (xe_dec env) (xe_full env) (xe_wakes env) (qx_queue e) data = Some (None, q)" "fast_mem (fq q)"
      "ch (fq q) = queued e @ [data]" "cfg (fq q) = cfg (fq (qx_queue e))" "\<not> sq_closed q"
    using push_loop_accepts [OF m(2), of data "xe_enc env" "xe_dec env" "xe_full env" "xe_wakes env"] assms(2) m(1) by (auto simp: queued_def)
  then show ?thesis
    using m(1) assms(2) by (auto simp: push_raw_def PushData_def pushData_def within_limits_def mem_only_def queued_def queue_fits_def)
qed

section \<open>Workers\<close>

text \<open>A backend that takes raw bytes. What it accepted is \<open>got\<close>; what it refuses it has not taken, and its errors can be retried.\<close>

definition kept_error :: "(gostring \<Rightarrow> gostring) \<Rightarrow> go_error \<Rightarrow> bool" where
  "kept_error lower err = (case errors_As err of None \<Rightarrow> True | Some ee \<Rightarrow> IsRetryable ee \<and> \<not> IsSplittable lower ee)"

definition retrying_backend :: "('v, 'x, 'f) export_env \<Rightarrow> ('x \<Rightarrow> bytes multiset) \<Rightarrow> bool" where
  "retrying_backend env got \<longleftrightarrow> (\<exists>f. xe_ExportData env = Some f
     \<and> (\<forall>x raw. case f x raw of (None, x') \<Rightarrow> got x' = add_mset raw (got x) | (Some err, x') \<Rightarrow> got x' = got x \<and> kept_error (xe_lower env) err))"

definition worker_rounds :: "('v, 'x, 'f) export_env \<Rightarrow> (int \<times> int \<times> int) list \<Rightarrow> ('v, 'x, 'f) QueuedExporter \<Rightarrow> ('v, 'x, 'f) QueuedExporter option" where
  "worker_rounds env rounds e = foldl (\<lambda>r (now, dur, backoff). do { e \<leftarrow> r; (_, e) \<leftarrow> worker_step env now dur (backoff, e); Some e }) (Some e) rounds"

lemma handle_failure_keeps:
  assumes "within_limits (qx_queue e)" "queue_fits (cfg (fq (qx_queue e))) (queued e) raw" "kept_error (xe_lower env) err"
  shows "\<exists>b e'. handle_failure env err raw e = Some (b, e') \<and> within_limits (qx_queue e') \<and> queued e' = queued e @ [raw] \<and> qx_backend e' = qx_backend e"
proof -
  obtain e' where "push_raw env raw e = Some (None, e')" "within_limits (qx_queue e')" "queued e' = queued e @ [raw]" "qx_backend e' = qx_backend e"
    using push_raw_mem [OF assms(1,2)] by blast
  with assms(3) show ?thesis by (auto simp: handle_failure_def kept_error_def Let_def split: option.splits)
qed

lemma queued_record [simp]:
  "queued (record_success now e) = queued e" "queued (record_failure now e) = queued e" "queued (record_latency env dur e) = queued e"
  "queued (tune_success env e) = queued e" "queued (tune_failure env err e) = queued e"
  by (simp_all add: queued_def)

lemma worker_step_keeps:
  assumes "retrying_backend env got" "within_limits (qx_queue e)"
  shows "\<exists>b e'. worker_step env now dur (backoff, e) = Some (b, e') \<and> within_limits (qx_queue e')
    \<and> mset (queued e') + got (qx_backend e') = mset (queued e) + got (qx_backend e)"
proof (cases "queued e")
  case Nil
  then show ?thesis using pop_disk_mem(1) [OF assms(2), of env] assms(2) by (simp add: worker_step_def)
next
  case (Cons d ds)
  then obtain entry e1 where p: "pop_disk env e = (Inr (Some entry), e1)" "Data entry = d" "queued e1 = ds" "within_limits (qx_queue e1)"
      "queue_fits (cfg (fq (qx_queue e1))) ds d" "qx_backend e1 = qx_backend e"
    using pop_disk_mem(2) [OF assms(2), of d ds env] by blast
  obtain b e2 where a: "allow_request now e1 = (b, e2)" by fastforce
  then have k: "qx_queue e2 = qx_queue e1" "qx_backend e2 = qx_backend e" "queued e2 = ds" using allow_request_keeps [OF a] p by (auto simp: queued_def)
  show ?thesis
  proof (cases b)
    case False
    then show ?thesis using push_raw_mem [of e2 d env] p a k Cons by (auto simp: worker_step_def)
  next
    case True
    obtain f where f: "xe_ExportData env = Some f"
        "\<forall>x raw. case f x raw of (None, x') \<Rightarrow> got x' = add_mset raw (got x) | (Some err, x') \<Rightarrow> got x' = got x \<and> kept_error (xe_lower env) err"
      using assms(1) by (auto simp: retrying_backend_def)
    obtain r x where r: "f (qx_backend e2) d = (r, x)" by fastforce
    let ?e3 = "e2\<lparr>qx_backend := x\<rparr>"
    have s: "send_raw env d e2 = Some (r, ?e3)" using f(1) r by (simp add: send_raw_def)
    have e3: "qx_queue ?e3 = qx_queue e1" "queued ?e3 = ds" using k by (simp_all add: queued_def)
    have x: "case f (qx_backend e2) d of (None, x') \<Rightarrow> got x' = add_mset d (got (qx_backend e2))
        | (Some err, x') \<Rightarrow> got x' = got (qx_backend e2) \<and> kept_error (xe_lower env) err"
      by (rule spec [OF spec [OF f(2)]])
    show ?thesis
    proof (cases r)
      case None
      then have "got x = add_mset d (got (qx_backend e))" using x r k by simp
      then show ?thesis using p a True s None Cons e3 by (auto simp: worker_step_def)
    next
      case (Some err)
      let ?e4 = "tune_failure env err (record_failure now ?e3)"
      obtain b' e' where "handle_failure env err d ?e4 = Some (b', e')" "within_limits (qx_queue e')" "queued e' = ds @ [d]" "qx_backend e' = x"
        using handle_failure_keeps [of ?e4 d env err] x r Some e3 p by auto
      then show ?thesis using p a True s Some Cons k x r by (auto simp: worker_step_def)
    qed
  qed
qed

lemma worker_rounds_keeps:
  assumes "retrying_backend env got" "within_limits (qx_queue e)"
  shows "\<exists>e'. worker_rounds env rounds e = Some e' \<and> within_limits (qx_queue e')
    \<and> mset (queued e') + got (qx_backend e') = mset (queued e) + got (qx_backend e)"
proof (induction rounds rule: rev_induct)
  case Nil
  then show ?case using assms by (simp add: worker_rounds_def)
next
  case (snoc x rounds)
  obtain now dur backoff where x: "x = (now, dur, backoff)" by (cases x)
  from snoc obtain e1 where e1: "worker_rounds env rounds e = Some e1" "within_limits (qx_queue e1)"
      "mset (queued e1) + got (qx_backend e1) = mset (queued e) + got (qx_backend e)" by blast
  obtain b e2 where "worker_step env now dur (backoff, e1) = Some (b, e2)" "within_limits (qx_queue e2)"
      "mset (queued e2) + got (qx_backend e2) = mset (queued e1) + got (qx_backend e1)"
    using worker_step_keeps [OF assms(1) e1(2)] by blast
  with e1 x show ?case by (simp add: worker_rounds_def)
qed

text \<open>
  A concrete exporter for the witnesses. Its backend fails the given number of times and then accepts; requests are encoded as one byte per resource.
\<close>

definition sample_backend :: "nat \<times> bytes list \<Rightarrow> bytes \<Rightarrow> go_error option \<times> nat \<times> bytes list" where
  "sample_backend x raw = (case fst x of 0 \<Rightarrow> (None, (0, snd x @ [raw])) | Suc n \<Rightarrow> (Some (OtherError [] (NetError True)), (n, snd x)))"

definition sample_env :: "(unit, nat \<times> bytes list, int) export_env" where
  "sample_env = \<lparr>xe_SizeVT = length, xe_MarshalVT = (\<lambda>req. Some (replicate (length req) 0)), xe_UnmarshalVT = (\<lambda>_. None), xe_enc = id, xe_dec = Some,
     xe_full = False, xe_wakes = [], xe_select = [], xe_id = ''id'', xe_lower = id, xe_Export = (\<lambda>x req. sample_backend x (replicate (length req) 0)),
     xe_ExportData = Some sample_backend, xe_CompressData = None, xe_SendCompressed = None, xe_backoff = (\<lambda>d. d * 2), xe_ewma = (\<lambda>a b. a),
     xe_tokens = (\<lambda>a b. 0), xe_spill = sample_spill_lib, xe_tune = sample_tuner_lib, xe_numCPU = 1\<rparr>"

definition sample_queued_config :: "QueueMode \<Rightarrow> bool \<Rightarrow> QueuedConfig" where
  "sample_queued_config mode always = \<lparr>qd_send = small_config DropOldest, qd_Mode = mode, qd_MemoryMaxBytes = 0, qd_AlwaysQueue = always,
     qd_BackoffEnabled = True, qd_BatchDrainSize = 0, qd_BurstDrainSize = 0, qd_Workers = 1, qd_PipelineSplitEnabled = False, qd_PreparerCount = 0,
     qd_SenderCount = 0, qd_PipelineChannelSize = 0, qd_HybridSpilloverPct = 0, qd_HybridHysteresisPct = 0, qd_SpilloverRateLimitPerSec = 0,
     qd_CircuitBreakerEnabled = True, qd_CircuitBreakerThreshold = 1, qd_CircuitBreakerResetTimeout = 0, qd_AdaptiveWorkersEnabled = False, qd_MinWorkers = 0,
     qd_MaxWorkers = 0\<rparr>"

definition sample_exporter :: "QueueMode \<Rightarrow> bool \<Rightarrow> SendQueue \<Rightarrow> (unit, nat \<times> bytes list, int) QueuedExporter" where
  "sample_exporter mode always q = queued_over 0 sample_env (2, []) (sample_queued_config mode always) q"

lemma sample_retrying: "retrying_backend sample_env (\<lambda>x. mset (snd x))"
  by (auto simp: retrying_backend_def sample_env_def sample_backend_def kept_error_def split: nat.split)



section \<open>The retry loop and the circuit breaker\<close>

datatype 'v legacy_call = CallExport int "'v req" | Tick int int

text \<open>What a call leaves behind; one that waits for ever leaves everything as it is.\<close>

fun legacy_step :: "('v, 'x, 'f) export_env \<Rightarrow> 'v legacy_call \<Rightarrow> ('v, 'x, 'f) QueuedExporter \<Rightarrow> ('v, 'x, 'f) QueuedExporter" where
  "legacy_step env (CallExport now req) e = (case legacyExport env now req e of None \<Rightarrow> e | Some (_, e') \<Rightarrow> e')"
| "legacy_step env (Tick now delay) e = (case qx_retry_tick env now (delay, e) of None \<Rightarrow> e | Some (_, e') \<Rightarrow> e')"

definition probing :: "('v, 'x, 'f) QueuedExporter \<Rightarrow> bool" where
  "probing e \<longleftrightarrow> (case qx_circuitBreaker e of None \<Rightarrow> False | Some cb \<Rightarrow> cb_state cb = CircuitHalfOpen \<and> halfOpenProbe cb)"

lemma probing_rejects: "probing e \<Longrightarrow> allow_request now e = (False, e)"
  by (auto simp: probing_def allow_request_def AllowRequest_def split: option.splits)

lemma legacy_step_probing:
  assumes "probing e"
  shows "probing (legacy_step env c e) \<and> qx_backend (legacy_step env c e) = qx_backend e"
proof (cases c)
  case (CallExport now req)
  show ?thesis
  proof (cases "push_disk env req e")
    case None
    then show ?thesis using assms CallExport by (simp add: legacyExport_def probing_rejects)
  next
    case (Some r)
    then obtain d e' where "push_disk env req e = Some (d, e')" by (cases r) simp
    then show ?thesis using assms CallExport push_disk_keeps [of env req e d e'] by (simp add: legacyExport_def probing_rejects probing_def)
  qed
next
  case (Tick now delay)
  then show ?thesis using assms by (simp add: qx_retry_tick_def probing_rejects)
qed

lemma empty_tick_takes_probe:
  assumes "qx_circuitBreaker e = Some cb" "cb_state cb = CircuitOpen" "now - lastFailure cb \<ge> reset_seconds cb"
    and "within_limits (qx_queue e)" "queued e = []" "qx_batchDrainSize e > 0"
  shows "probing (legacy_step env (Tick now delay) e) \<and> qx_backend (legacy_step env (Tick now delay) e) = qx_backend e"
proof -
  let ?cb = "cb\<lparr>cb_state := CircuitHalfOpen, halfOpenProbe := True, lastStateChange := now\<rparr>"
  let ?e = "e\<lparr>qx_circuitBreaker := Some ?cb\<rparr>"
  have a: "allow_request now e = (True, ?e)" using assms(1-3) by (simp add: allow_request_def AllowRequest_def)
  have l: "sq_Len (qx_queue e) = 0"
    using assms(4,5) by (simp add: sq_Len_def fq_Len_def within_limits_def mem_only_def fast_mem_def queued_def)
  have "pop_disk env ?e = (Inr None, ?e)" using pop_disk_mem(1) [of ?e env] assms(4,5) by (simp add: queued_def)
  then have "batch_drain env now (nat (qx_batchDrainSize e)) ?e = Some (1, ?e)"
    using assms(6) l by (cases "nat (qx_batchDrainSize e)") (simp_all add: qx_processQueue_def)
  then show ?thesis using a l by (simp add: qx_retry_tick_def probing_def)
qed

text \<open>
  C32: The retry loop can shut the circuit for good. In legacy mode, when the circuit is open past its timeout and the queue is empty, the next tick of the retry
  loop takes the one half-open probe for itself, finds nothing to send and records no outcome. From then on no sequence of
  exports and ticks, at whatever times, reaches the backend again, and the breaker stays half open with its probe taken.
\<close>

theorem retry_tick_wedges:
  assumes "qx_circuitBreaker e = Some cb" "cb_state cb = CircuitOpen" "now - lastFailure cb \<ge> reset_seconds cb"
    and "within_limits (qx_queue e)" "queued e = []" "qx_batchDrainSize e > 0"
  shows "probing (fold (legacy_step env) (Tick now delay # calls) e)
    \<and> qx_backend (fold (legacy_step env) (Tick now delay # calls) e) = qx_backend e"
proof (induction calls rule: rev_induct)
  case Nil
  then show ?case using empty_tick_takes_probe [OF assms] by simp
next
  case (snoc c calls)
  then show ?case using legacy_step_probing by fastforce
qed

text \<open>The breaker opens at the first failure; the reset timeout is the default of 30 seconds.\<close>

definition empty_queue :: SendQueue where
  "empty_queue = (case NewSendQueue False False (small_config DropOldest) empty_fsys None of Inr q \<Rightarrow> q)"

lemma empty_queue_mem: "mem_only empty_queue" "ch (fq empty_queue) = []" by code_simp+

theorem retry_tick_wedges_witness:
  "qx_backend (fold (legacy_step sample_env) [Tick 40 5, CallExport 41 [], Tick 1000 5, CallExport 2000 []]
      (record_failure 1 (sample_exporter QueueModeDisk False empty_queue))) = (2, [])"
proof -
  let ?e = "record_failure 1 (sample_exporter QueueModeDisk False empty_queue)"
  have "qx_circuitBreaker ?e = Some (failures [1] (NewCircuitBreaker 1 30000000000))" "qx_batchDrainSize ?e > 0" "qx_backend ?e = (2, [])"
      "within_limits (qx_queue ?e)" "queued ?e = []"
    using empty_queue_mem
    by (simp_all add: sample_exporter_def queued_over_def Let_def record_failure_def new_breaker_def sample_queued_config_def positive_or_def failures_def
      within_limits_def queued_def)
  from retry_tick_wedges [OF this(1) _ _ this(4,5,2), of 40 sample_env 5 "[CallExport 41 [], Tick 1000 5, CallExport 2000 []]"] this(3)
  show ?thesis by (simp add: failures_def cb_defs reset_seconds_def)
qed

section \<open>Closing\<close>

lemma push_all_disk_keeps:
  "push_all_disk env reqs e = Some e' \<Longrightarrow> qx_memQueue e' = qx_memQueue e \<and> qx_preparedCh e' = qx_preparedCh e \<and> qx_closed e' = qx_closed e"
proof (induction reqs arbitrary: e)
  case (Cons req reqs)
  from Cons.prems obtain d e1 where "push_disk env req e = Some (d, e1)" "push_all_disk env reqs e1 = Some e'"
    by (cases "push_disk env req e") auto
  then show ?case using Cons.IH [of e1] push_disk_keeps [of env req e d e1] by simp
qed simp

lemma drain_rounds_keeps:
  "drain_rounds env n failed e = Some e' \<Longrightarrow> qx_memQueue e' = qx_memQueue e \<and> qx_preparedCh e' = qx_preparedCh e \<and> qx_closed e' = qx_closed e"
proof (induction n arbitrary: failed e)
  case 0
  then show ?case using push_all_disk_keeps [of env failed e e'] by simp
next
  case (Suc n)
  obtain r e1 where p: "pop_disk env e = (r, e1)" by fastforce
  note k = pop_disk_keeps [OF p]
  show ?case
  proof (cases "\<exists>entry req. r = Inr (Some entry) \<and> GetRequest (xe_UnmarshalVT env) entry = Inr req")
    case True
    then obtain entry req where q: "r = Inr (Some entry)" "GetRequest (xe_UnmarshalVT env) entry = Inr req" by blast
    obtain err e2 where x: "export_req env req e1 = (err, e2)" by fastforce
    have "\<exists>failed. drain_rounds env n failed e2 = Some e'" using Suc.prems p q x by (cases err) auto
    then show ?thesis using Suc.IH k export_req_keeps [OF x] by metis
  next
    case False
    have "push_all_disk env failed e1 = Some e' \<or> drain_rounds env n failed e1 = Some e'"
      using Suc.prems p False by (auto split: sum.splits option.splits)
    then show ?thesis using Suc.IH [of failed e1] push_all_disk_keeps [of env failed e1 e'] k by auto
  qed
qed

text \<open>
  Closing loses what is not in the send queue. Whatever the backend answers and however long draining may take, after \<open>Close\<close> the batches that were in the memory
  queue are still there, in a closed queue that lives in memory only, and the entries that the preparers had taken out of the send queue are still in their channel.
\<close>

theorem close_loses_memory:
  assumes "qx_Close env n e = Some e'" "\<not> qx_closed e"
  shows "qx_closed e' \<and> map_option bq_ch (qx_memQueue e') = map_option bq_ch (qx_memQueue e)
    \<and> (\<forall>m. qx_memQueue e' = Some m \<longrightarrow> bq_closed m) \<and> qx_preparedCh e' = qx_preparedCh e"
proof -
  obtain e1 where e1: "drain_rounds env n [] (e\<lparr>qx_closed := True\<rparr>) = Some e1"
      "e' = e1\<lparr>qx_memQueue := map_option bq_Close (qx_memQueue e1), qx_queue := snd (sq_Close (xe_enc env) (xe_full env) (qx_queue e1))\<rparr>"
    using assms by (auto simp: qx_Close_def qx_drainQueue_def)
  have c: "bq_ch (bq_Close m) = bq_ch m" "bq_closed (bq_Close m)" for m :: "'a req MemoryBatchQueue" by (simp_all add: bq_Close_def)
  show ?thesis using e1(2) drain_rounds_keeps [OF e1(1)] by (auto simp: c option.map_comp comp_def)
qed

theorem close_loses_memory_witness:
  "\<exists>e e' b. qx_Export sample_env 0 [] (sample_exporter QueueModeMemory True empty_queue) = Some (None, e) \<and> map_option bq_ch (qx_memQueue e) = Some [b]
    \<and> qx_Close sample_env 10 e = Some e' \<and> qx_closed e' \<and> map_option bq_ch (qx_memQueue e') = Some [b]"
proof -
  obtain e b where e: "qx_Export sample_env 0 [] (sample_exporter QueueModeMemory True empty_queue) = Some (None, e)"
      "map_option bq_ch (qx_memQueue e) = Some [b]" "\<exists>e'. qx_Close sample_env 10 e = Some e'" "\<not> qx_closed e"
  proof -
    let ?r = "qx_Export sample_env 0 [] (sample_exporter QueueModeMemory True empty_queue)"
    have "map_option fst ?r = Some None" "map_option (\<lambda>(_, e). map_option (length \<circ> bq_ch) (qx_memQueue e)) ?r = Some (Some 1)"
        "map_option (\<lambda>(_, e). qx_Close sample_env 10 e = None \<or> qx_closed e) ?r = Some False"
      by code_simp+
    then show thesis using that by (auto simp: length_Suc_conv)
  qed
  then obtain e' where "qx_Close sample_env 10 e = Some e'" by blast
  with close_loses_memory [OF this e(4)] e show ?thesis by metis
qed

section \<open>Where an export goes\<close>

text \<open>The request is in the memory queue or in the send queue, and not in both.\<close>

definition one_queue :: "('v, 'x, 'f) export_env \<Rightarrow> 'v req ExportBatch \<Rightarrow> 'v req \<Rightarrow> ('v, 'x, 'f) QueuedExporter \<Rightarrow> ('v, 'x, 'f) QueuedExporter \<Rightarrow> bool" where
  "one_queue env b req e e' \<longleftrightarrow> (\<exists>m. qx_memQueue e = Some m \<and>
     ((\<exists>m'. PushBatch (xe_select env) m b = Some (Ok (None, m')) \<and> qx_memQueue e' = Some m' \<and> qx_queue e' = qx_queue e)
      \<or> (\<exists>q. sq_Push (xe_MarshalVT env) (xe_enc env) (xe_dec env) (xe_full env) (xe_wakes env) (qx_queue e) req = Some (None, q) \<and> qx_queue e' = q
           \<and> (qx_memQueue e' = Some m \<or> (\<exists>err m'. PushBatch (xe_select env) m b = Some (Ok (Some err, m')) \<and> qx_memQueue e' = Some m')))))"

text \<open>
  In hybrid mode an accepted request is in exactly one queue. When an export returns no error, the request was pushed without error either into the
  memory queue, and the send queue is untouched, or into the send queue, and the memory queue either was not tried or refused it with an error.
\<close>

theorem hybrid_one_queue:
  assumes "qx_alwaysQueue e" "qx_queueMode e = QueueModeHybrid" "qx_memQueue e = Some m"
    and "qx_Export env now req e = Some (None, e')"
  shows "one_queue env (NewExportBatch (xe_SizeVT env) now req) req e e'"
proof -
  define b where "b = NewExportBatch (xe_SizeVT env) now req"
  have e: "export_hybrid env now req e = Some (None, e')" using assms(1,2,4) by (simp add: qx_Export_def)
  have mem: "one_queue env b req e e'" if "mem_or_disk env b req (e\<lparr>qx_spilloverState := s\<rparr>) = Some (None, e')" for s
    using that assms(3) by (auto simp: mem_or_disk_def push_mem_def push_disk_def one_queue_def split: option.splits outcome.splits prod.splits bind_splits)
  have disk: "one_queue env b req e e'" if "disk_or_mem env now b req (e\<lparr>qx_spilloverState := s\<rparr>) = Some (None, e')" for s
    using that assms(3)
    by (auto simp: disk_or_mem_def rate_allow_def push_mem_def push_disk_def one_queue_def split: option.splits outcome.splits prod.splits bool.splits)
  show ?thesis unfolding b_def [symmetric]
    using e assms(3) mem disk by (auto simp: export_hybrid_def b_def Let_def split: SpilloverMode.splits prod.splits if_splits)
qed

theorem hybrid_one_queue_witness:
  "\<exists>e'. qx_Export sample_env 0 [] (sample_exporter QueueModeHybrid True empty_queue) = Some (None, e')
    \<and> one_queue sample_env (NewExportBatch length 0 []) [] (sample_exporter QueueModeHybrid True empty_queue) e'"
proof -
  let ?e = "sample_exporter QueueModeHybrid True empty_queue"
  have "qx_alwaysQueue ?e" "qx_queueMode ?e = QueueModeHybrid" "map_option (\<lambda>_. ()) (qx_memQueue ?e) = Some ()" "map_option fst (qx_Export sample_env 0 [] ?e) = Some None"
    by code_simp+
  then show ?thesis using hybrid_one_queue [of ?e _ sample_env 0 "[]"] by (auto simp: sample_env_def)
qed

section \<open>Backoff\<close>

lemma doubled_min: "0 < delay \<Longrightarrow> delay \<le> maxDelay \<Longrightarrow> doubled maxDelay n delay = min maxDelay (delay * 2 ^ n)"
proof (induction n arbitrary: delay)
  case (Suc n)
  show ?case
  proof (cases "delay * 2 > maxDelay")
    case True
    have "delay * 2 * 1 \<le> delay * 2 * 2 ^ n" using Suc.prems(1) by (intro mult_left_mono) simp_all
    with True show ?thesis by (simp add: ac_simps)
  next
    case False
    then show ?thesis using Suc.IH [of "delay * 2"] Suc.prems by (simp add: ac_simps)
  qed
qed simp

text \<open>
  The delay doubles up to the maximum. With a positive base delay that is no larger than the maximum, the delay before retry \<open>n\<close> is the base delay times
  \<open>2\<close> to the power \<open>n\<close>, or the maximum if that is less; the loop never leaves the range in between.
\<close>

theorem backoff_doubles:
  assumes "0 < qx_baseDelay e" "qx_baseDelay e \<le> qx_maxDelay e" "0 < n"
  shows "calculateBackoff e n = min (qx_maxDelay e) (qx_baseDelay e * 2 ^ nat n)"
  using assms by (simp add: calculateBackoff_def doubled_min)

theorem backoff_doubles_witness:
  "calculateBackoff (sample_exporter QueueModeDisk False empty_queue) 3 = 40000000000"
  using backoff_doubles [of "sample_exporter QueueModeDisk False empty_queue" 3]
  by (simp add: sample_exporter_def queued_over_def Let_def sample_queued_config_def small_config_def DefaultConfig_def)

end
