(* ===== verification/Otlp_Buffer.thy ===== *)
theory Otlp_Buffer
  imports Mem_Queue Batch_Splitter Export_Control Send_Queue "HOL-Library.Monad_Syntax"
begin

text \<open>
  The OTLP buffer: \<open>internal/buffer/buffer.go\<close>, and the fused processor of \<open>internal/pipeline/fused.go\<close>. The processors in front of the buffer share a
  state \<open>'p\<close> and are parameters, as is the exporter with its state \<open>'x\<close>; the failover queue is the one of \<open>Mem_Queue\<close>. Calls to the statistics collector are recorded in
  order. The result \<open>None\<close> is a call that does not return: it waits for ever, loops, or panics. Waiting for space is an explicit list of what other goroutines do
  before each wake-up. Every request that leaves the buffer is logged with its fate. Prometheus counters, logs and contexts are left out.
\<close>

section \<open>State\<close>

type_synonym 'v resources = "'v ResourceMetrics list"

datatype export_answer = Exported | AnswerQueued | Failed go_error

record ('v, 'p, 'x) buffer_env =
  be_SizeVT :: "'v ResourceMetrics \<Rightarrow> int"
  be_reqSize :: "'v resources \<Rightarrow> int"
  be_sampler :: "('p \<Rightarrow> 'v resources \<Rightarrow> ('v resources \<times> 'p) option) option"
  be_tenant :: "('p \<Rightarrow> 'v resources \<Rightarrow> gostring \<Rightarrow> ('v resources \<times> 'p) option) option"
  be_limits :: "('p \<Rightarrow> 'v resources \<Rightarrow> ('v resources \<times> 'p) option) option"
  be_fused :: "('p \<Rightarrow> 'v resources \<Rightarrow> gostring \<Rightarrow> ('v resources \<times> 'p) option) option"
  be_relabeler :: "('v resources \<Rightarrow> 'v resources) option"
  be_Export :: "'x \<Rightarrow> 'v resources \<Rightarrow> export_answer \<times> 'x"
  be_lower :: "gostring \<Rightarrow> gostring"

datatype buffer_stat =
    RecordReceived nat | RecordOTLPBytesReceived int | StatsProcess | SetOTLPBufferSize nat
  | RecordExport nat | RecordOTLPBytesSent int | RecordExportError

record ('v, 'p) MetricsBuffer =
  mb_metrics :: "'v resources"
  mb_metricSizes :: "int list"
  mb_maxSize :: int
  mb_maxBatchSize :: int
  mb_maxBatchBytes :: int
  mb_flushChan :: bool
  mb_failoverQueue :: "'v resources MemoryQueue option"
  mb_maxBufferBytes :: int
  mb_currentBytes :: int
  mb_fullPolicy :: string
  mb_batchTuner :: "int option"
  mb_stats :: "buffer_stat list option"
  mb_pipe :: 'p

definition otlp_NewBuffer :: "int \<Rightarrow> int \<Rightarrow> bool \<Rightarrow> 'p \<Rightarrow> ('v, 'p) MetricsBuffer" where
  "otlp_NewBuffer msize mbatch stats_given p =
     \<lparr>mb_metrics = [], mb_metricSizes = [], mb_maxSize = msize, mb_maxBatchSize = mbatch, mb_maxBatchBytes = 0, mb_flushChan = False,
      mb_failoverQueue = None, mb_maxBufferBytes = 0, mb_currentBytes = 0, mb_fullPolicy = DropNewest, mb_batchTuner = None,
      mb_stats = (if stats_given then Some [] else None), mb_pipe = p\<rparr>"

definition WithMaxBatchBytes :: "int \<Rightarrow> ('v, 'p) MetricsBuffer \<Rightarrow> ('v, 'p) MetricsBuffer" where
  "WithMaxBatchBytes n b = b\<lparr>mb_maxBatchBytes := n\<rparr>"

definition WithFailoverQueue :: "'v resources MemoryQueue \<Rightarrow> ('v, 'p) MetricsBuffer \<Rightarrow> ('v, 'p) MetricsBuffer" where
  "WithFailoverQueue q b = b\<lparr>mb_failoverQueue := Some q\<rparr>"

definition WithMaxBufferBytes :: "int \<Rightarrow> ('v, 'p) MetricsBuffer \<Rightarrow> ('v, 'p) MetricsBuffer" where
  "WithMaxBufferBytes n b = b\<lparr>mb_maxBufferBytes := n\<rparr>"

definition WithBufferFullPolicy :: "string \<Rightarrow> ('v, 'p) MetricsBuffer \<Rightarrow> ('v, 'p) MetricsBuffer" where
  "WithBufferFullPolicy p b = b\<lparr>mb_fullPolicy := p\<rparr>"

text \<open>A batch tuner, by what \<open>CurrentMaxBytes\<close> returns.\<close>

definition WithBatchTuner :: "int \<Rightarrow> ('v, 'p) MetricsBuffer \<Rightarrow> ('v, 'p) MetricsBuffer" where
  "WithBatchTuner n b = b\<lparr>mb_batchTuner := Some n\<rparr>"

definition buffer_stats :: "buffer_stat list \<Rightarrow> ('v, 'p) MetricsBuffer \<Rightarrow> ('v, 'p) MetricsBuffer" where
  "buffer_stats evs b = b\<lparr>mb_stats := map_option (\<lambda>l. l @ evs) (mb_stats b)\<rparr>"

definition estimateResourceMetricsSize :: "('v, 'p, 'x) buffer_env \<Rightarrow> 'v resources \<Rightarrow> int" where
  "estimateResourceMetricsSize env rms = foldl (\<lambda>size rm. size + be_SizeVT env rm) 0 rms"

section \<open>Adding\<close>

text \<open>The fused processor; typed nils are sanitised, so a missing part is \<open>None\<close>.\<close>

record ('v, 'p) FusedProcessor =
  fp_tenant :: "('p \<Rightarrow> 'v resources \<Rightarrow> gostring \<Rightarrow> ('v resources \<times> 'p) option) option"
  fp_limits :: "('p \<Rightarrow> 'v resources \<Rightarrow> ('v resources \<times> 'p) option) option"

definition NewFusedProcessor ::
    "('p \<Rightarrow> 'v resources \<Rightarrow> gostring \<Rightarrow> ('v resources \<times> 'p) option) option \<Rightarrow> ('p \<Rightarrow> 'v resources \<Rightarrow> ('v resources \<times> 'p) option) option
      \<Rightarrow> ('v, 'p) FusedProcessor option" where
  "NewFusedProcessor tenant limits =
     (case (tenant, limits) of (None, None) \<Rightarrow> None | _ \<Rightarrow> Some \<lparr>fp_tenant = tenant, fp_limits = limits\<rparr>)"

definition fused_Process :: "('v, 'p) FusedProcessor \<Rightarrow> 'p \<Rightarrow> 'v resources \<Rightarrow> gostring \<Rightarrow> ('v resources \<times> 'p) option" where
  "fused_Process f p rms headerTenant = do {
     (rms, p) \<leftarrow> (case fp_tenant f of None \<Rightarrow> Some (rms, p) | Some g \<Rightarrow> g p rms headerTenant);
     (case fp_limits f of None \<Rightarrow> Some (rms, p) | Some g \<Rightarrow> if length rms > 0 then g p rms else Some (rms, p))}"

definition tenant_and_limits :: "('v, 'p, 'x) buffer_env \<Rightarrow> gostring \<Rightarrow> 'p \<Rightarrow> 'v resources \<Rightarrow> ('v resources \<times> 'p) option" where
  "tenant_and_limits env headerTenant p rms =
     (case be_fused env of
        Some f \<Rightarrow> f p rms headerTenant
      | None \<Rightarrow> do {
          (rms, p) \<leftarrow> (case be_tenant env of None \<Rightarrow> Some (rms, p) | Some g \<Rightarrow> g p rms headerTenant);
          (case be_limits env of None \<Rightarrow> Some (rms, p) | Some g \<Rightarrow> g p rms)})"

fun evict_oldest :: "int \<Rightarrow> int \<Rightarrow> 'v resources \<Rightarrow> int list \<Rightarrow> (int \<times> 'v resources \<times> int list) option" where
  "evict_oldest needed evicted [] sizes = Some (evicted, [], sizes)"
| "evict_oldest needed evicted (rm # rms) sizes =
     (if evicted < needed then (case sizes of [] \<Rightarrow> None | s # ss \<Rightarrow> evict_oldest needed (evicted + s) rms ss)
      else Some (evicted, rm # rms, sizes))"

definition mb_evictOldest :: "int \<Rightarrow> ('v, 'p) MetricsBuffer \<Rightarrow> ('v, 'p) MetricsBuffer option" where
  "mb_evictOldest incomingBytes b = do {
     (evicted, rms, sizes) \<leftarrow> evict_oldest (mb_currentBytes b + incomingBytes - mb_maxBufferBytes b) 0 (mb_metrics b) (mb_metricSizes b);
     Some (b\<lparr>mb_metrics := rms, mb_metricSizes := sizes, mb_currentBytes := mb_currentBytes b - evicted\<rparr>)}"

fun wait_for_space :: "(('v, 'p) MetricsBuffer \<Rightarrow> ('v, 'p) MetricsBuffer) list \<Rightarrow> int \<Rightarrow> ('v, 'p) MetricsBuffer \<Rightarrow> ('v, 'p) MetricsBuffer option" where
  "wait_for_space wakes incomingBytes b =
     (if mb_currentBytes b + incomingBytes > mb_maxBufferBytes b
      then (case wakes of [] \<Rightarrow> None | others # wakes \<Rightarrow> wait_for_space wakes incomingBytes (others b))
      else Some b)"

declare wait_for_space.simps [simp del]

text \<open>The answer says whether there is no error; the error is \<open>ErrBufferFull\<close>.\<close>

definition enforceCapacity ::
    "(('v, 'p) MetricsBuffer \<Rightarrow> ('v, 'p) MetricsBuffer) list \<Rightarrow> int \<Rightarrow> ('v, 'p) MetricsBuffer \<Rightarrow> (bool \<times> ('v, 'p) MetricsBuffer) option" where
  "enforceCapacity wakes incomingBytes b =
     (if mb_currentBytes b + incomingBytes \<le> mb_maxBufferBytes b then Some (True, b)
      else if mb_fullPolicy b = DropNewest then Some (False, b)
      else if mb_fullPolicy b = DropOldest then map_option (Pair True) (mb_evictOldest incomingBytes b)
      else if mb_fullPolicy b = Block then map_option (Pair True) (wait_for_space wakes incomingBytes b)
      else Some (False, b))"

text \<open>Adding takes two steps, the critical section and the byte count, with the lock released in between; so does taking everything out.\<close>

definition add_append :: "'v resources \<Rightarrow> int list \<Rightarrow> ('v, 'p) MetricsBuffer \<Rightarrow> ('v, 'p) MetricsBuffer" where
  "add_append rms sizes b = b\<lparr>mb_metrics := mb_metrics b @ rms, mb_metricSizes := mb_metricSizes b @ sizes\<rparr>"

definition add_bytes :: "int \<Rightarrow> ('v, 'p) MetricsBuffer \<Rightarrow> ('v, 'p) MetricsBuffer" where
  "add_bytes incomingBytes b = b\<lparr>mb_currentBytes := mb_currentBytes b + incomingBytes\<rparr>"

definition flush_take :: "('v, 'p) MetricsBuffer \<Rightarrow> ('v, 'p) MetricsBuffer" where
  "flush_take b = b\<lparr>mb_metrics := [], mb_metricSizes := []\<rparr>"

definition flush_swap :: "('v, 'p) MetricsBuffer \<Rightarrow> ('v, 'p) MetricsBuffer" where
  "flush_swap b = b\<lparr>mb_currentBytes := 0\<rparr>"

definition append_metrics :: "'v resources \<Rightarrow> int list \<Rightarrow> int \<Rightarrow> ('v, 'p) MetricsBuffer \<Rightarrow> ('v, 'p) MetricsBuffer" where
  "append_metrics rms sizes incomingBytes b =
     (let b = add_append rms sizes b;
          bufferSize = length (mb_metrics b);
          b = buffer_stats [SetOTLPBufferSize bufferSize] (add_bytes incomingBytes b)
      in if int bufferSize \<ge> mb_maxSize b then b\<lparr>mb_flushChan := True\<rparr> else b)"

text \<open>What follows once the processors have answered.\<close>

definition store_metrics ::
    "('v, 'p, 'x) buffer_env \<Rightarrow> (('v, 'p) MetricsBuffer \<Rightarrow> ('v, 'p) MetricsBuffer) list \<Rightarrow> 'v resources \<Rightarrow> ('v, 'p) MetricsBuffer
      \<Rightarrow> (bool \<times> ('v, 'p) MetricsBuffer) option" where
  "store_metrics env wakes rms b =
     (if rms = [] then Some (True, b)
      else do {
        let sizes = map (be_SizeVT env) rms;
        let incomingBytes = sum_list sizes;
        (fits, b) \<leftarrow> (if mb_maxBufferBytes b > 0 then enforceCapacity wakes incomingBytes b else Some (True, b));
        Some (if fits then (True, append_metrics rms sizes incomingBytes b) else (False, b))})"

definition addInternal ::
    "('v, 'p, 'x) buffer_env \<Rightarrow> (('v, 'p) MetricsBuffer \<Rightarrow> ('v, 'p) MetricsBuffer) list \<Rightarrow> 'v resources \<Rightarrow> gostring \<Rightarrow> ('v, 'p) MetricsBuffer
      \<Rightarrow> (bool \<times> ('v, 'p) MetricsBuffer) option" where
  "addInternal env wakes rms headerTenant b = do {
     let b = buffer_stats [RecordReceived (exporter_countDatapoints rms), RecordOTLPBytesReceived (estimateResourceMetricsSize env rms), StatsProcess] b;
     (rms, p) \<leftarrow> (case be_sampler env of None \<Rightarrow> Some (rms, mb_pipe b) | Some f \<Rightarrow> f (mb_pipe b) rms);
     (if be_sampler env \<noteq> None \<and> rms = [] then Some (True, b\<lparr>mb_pipe := p\<rparr>)
      else do {
        (rms, p) \<leftarrow> tenant_and_limits env headerTenant p rms;
        store_metrics env wakes rms (b\<lparr>mb_pipe := p\<rparr>)})}"

definition AddWithTenant ::
    "('v, 'p, 'x) buffer_env \<Rightarrow> (('v, 'p) MetricsBuffer \<Rightarrow> ('v, 'p) MetricsBuffer) list \<Rightarrow> 'v resources \<Rightarrow> gostring \<Rightarrow> ('v, 'p) MetricsBuffer
      \<Rightarrow> (bool \<times> ('v, 'p) MetricsBuffer) option" where
  "AddWithTenant = addInternal"

definition otlp_Add ::
    "('v, 'p, 'x) buffer_env \<Rightarrow> (('v, 'p) MetricsBuffer \<Rightarrow> ('v, 'p) MetricsBuffer) list \<Rightarrow> 'v resources \<Rightarrow> ('v, 'p) MetricsBuffer
      \<Rightarrow> (bool \<times> ('v, 'p) MetricsBuffer) option" where
  "otlp_Add env wakes rms b = addInternal env wakes rms [] b"

definition AddAggregated ::
    "('v, 'p, 'x) buffer_env \<Rightarrow> (('v, 'p) MetricsBuffer \<Rightarrow> ('v, 'p) MetricsBuffer) list \<Rightarrow> 'v resources \<Rightarrow> ('v, 'p) MetricsBuffer
      \<Rightarrow> ('v, 'p) MetricsBuffer option" where
  "AddAggregated env wakes rms b =
     (if rms = [] then Some b
      else do {
        (rms, p) \<leftarrow> tenant_and_limits env [] (mb_pipe b) rms;
        map_option snd (store_metrics env wakes rms (b\<lparr>mb_pipe := p\<rparr>))})"

section \<open>Exporting\<close>

datatype fate = Sent | Requeued | Failover | Lost

type_synonym ('v, 'p, 'x) flush_state = "('v, 'p) MetricsBuffer \<times> 'x \<times> (fate \<times> 'v resources) list"

definition to_failover :: "('v, 'p, 'x) buffer_env \<Rightarrow> 'v resources \<Rightarrow> ('v, 'p) MetricsBuffer \<Rightarrow> (fate \<times> ('v, 'p) MetricsBuffer) option" where
  "to_failover env batch b =
     (case mb_failoverQueue b of
        None \<Rightarrow> Some (Lost, b)
      | Some q \<Rightarrow>
          (case Push (be_reqSize env) q batch of
             None \<Rightarrow> None
           | Some (Inl _) \<Rightarrow> Some (Lost, b)
           | Some (Inr q) \<Rightarrow> Some (Failover, b\<lparr>mb_failoverQueue := Some q\<rparr>)))"

definition relabelled :: "('v, 'p, 'x) buffer_env \<Rightarrow> 'v resources \<Rightarrow> 'v resources" where
  "relabelled env batch = (case be_relabeler env of None \<Rightarrow> batch | Some f \<Rightarrow> f batch)"

definition splittable :: "('v, 'p, 'x) buffer_env \<Rightarrow> go_error \<Rightarrow> bool" where
  "splittable env err = (case errors_As err of Some ee \<Rightarrow> IsSplittable (be_lower env) ee | None \<Rightarrow> False)"

partial_function (option) exportBatch :: "('v, 'p, 'x) buffer_env \<Rightarrow> 'v resources \<Rightarrow> ('v, 'p, 'x) flush_state \<Rightarrow> ('v, 'p, 'x) flush_state option" where
  "exportBatch env batch s =
     (let batch = relabelled env batch; (b, x, log) = s
      in if be_relabeler env \<noteq> None \<and> batch = [] then Some s
         else case be_Export env x batch of
           (Exported, x) \<Rightarrow>
             Some (buffer_stats [RecordExport (exporter_countDatapoints batch), RecordOTLPBytesSent (estimateResourceMetricsSize env batch)] b,
                   x, log @ [(Sent, batch)])
         | (AnswerQueued, x) \<Rightarrow> Some (b, x, log @ [(Requeued, batch)])
         | (Failed err, x) \<Rightarrow>
             if splittable env err \<and> length batch > 1 then
               Option.bind (exportBatch env (take (length batch div 2) batch) (b, x, log)) (exportBatch env (drop (length batch div 2) batch))
             else map_option (\<lambda>(f, b). (buffer_stats [RecordExportError] b, x, log @ [(f, batch)])) (to_failover env batch b))"

declare exportBatch.simps [code]

fun export_all :: "('v, 'p, 'x) buffer_env \<Rightarrow> 'v resources list \<Rightarrow> ('v, 'p, 'x) flush_state \<Rightarrow> ('v, 'p, 'x) flush_state option" where
  "export_all env [] s = Some s"
| "export_all env (batch # batches) s = Option.bind (exportBatch env batch s) (export_all env batches)"

text \<open>The split by count; with a batch size of zero it never ends.\<close>

partial_function (option) count_batches :: "int \<Rightarrow> 'r list \<Rightarrow> int \<Rightarrow> 'r list list option" where
  "count_batches maxBatchSize toSend i =
     (if i < int (length toSend) then
        let end1 = i + maxBatchSize;
            end2 = (if end1 > int (length toSend) then int (length toSend) else end1)
        in if end2 < i then None
           else Option.bind (count_batches maxBatchSize toSend (i + maxBatchSize)) (\<lambda>rest. Some (take (nat (end2 - i)) (drop (nat i) toSend) # rest))
      else Some [])"

declare count_batches.simps [code]

definition effective_max :: "('v, 'p) MetricsBuffer \<Rightarrow> int" where
  "effective_max b = (case mb_batchTuner b of Some n \<Rightarrow> if n > 0 then n else mb_maxBatchBytes b | None \<Rightarrow> mb_maxBatchBytes b)"

text \<open>
  A flush; \<open>order\<close> is the order in which the exports of the batches take effect. Without a concurrency limiter it is the order of the batches.
\<close>

definition mb_flush :: "('v, 'p, 'x) buffer_env \<Rightarrow> ('v resources list \<Rightarrow> 'v resources list) \<Rightarrow> ('v, 'p) MetricsBuffer \<Rightarrow> 'x \<Rightarrow> ('v, 'p, 'x) flush_state option" where
  "mb_flush env order b x =
     (if mb_metrics b = [] then Some (b, x, [])
      else do {
        let toSend = mb_metrics b;
        let b = buffer_stats [SetOTLPBufferSize 0] (flush_swap (flush_take b));
        countBatches \<leftarrow> count_batches (mb_maxBatchSize b) toSend 0;
        let batches = concat (map (\<lambda>c. fst (splitByBytes (be_SizeVT env) c (effective_max b))) countBatches);
        export_all env (order batches) (b, x, [])})"

fun drain_failover :: "('v, 'p, 'x) buffer_env \<Rightarrow> nat \<Rightarrow> ('v, 'p, 'x) flush_state \<Rightarrow> ('v, 'p, 'x) flush_state option" where
  "drain_failover env 0 s = Some s"
| "drain_failover env (Suc n) (b, x, log) =
     (case mb_failoverQueue b of
        None \<Rightarrow> Some (b, x, log)
      | Some q \<Rightarrow>
          (case Pop (be_reqSize env) q of
             (None, q) \<Rightarrow> Some (b\<lparr>mb_failoverQueue := Some q\<rparr>, x, log)
           | (Some req, q) \<Rightarrow>
               let b = b\<lparr>mb_failoverQueue := Some q\<rparr>
               in case be_Export env x req of
                    (Exported, x) \<Rightarrow> drain_failover env n (b, x, log @ [(Sent, req)])
                  | (_, x) \<Rightarrow> map_option (\<lambda>(f, b). (b, x, log @ [(f, req)])) (to_failover env req b)))"

definition drainFailoverQueue :: "('v, 'p, 'x) buffer_env \<Rightarrow> ('v, 'p) MetricsBuffer \<Rightarrow> 'x \<Rightarrow> ('v, 'p, 'x) flush_state option" where
  "drainFailoverQueue env b x = drain_failover env 10 (b, x, [])"

text \<open>The rounds of \<open>Start\<close>, once their channel has been received from.\<close>

datatype buffer_round = FlushTick | FlushSignal | DrainTick

definition start_round :: "('v, 'p, 'x) buffer_env \<Rightarrow> ('v resources list \<Rightarrow> 'v resources list) \<Rightarrow> buffer_round \<Rightarrow> ('v, 'p) MetricsBuffer \<Rightarrow> 'x \<Rightarrow> ('v, 'p, 'x) flush_state option" where
  "start_round env order r b x =
     (case r of
        FlushTick \<Rightarrow> mb_flush env order b x
      | FlushSignal \<Rightarrow> mb_flush env order (b\<lparr>mb_flushChan := False\<rparr>) x
      | DrainTick \<Rightarrow> drainFailoverQueue env b x)"

end
