(* ===== verification/Otlp_Buffer_Correct.thy ===== *)
theory Otlp_Buffer_Correct
  imports Otlp_Buffer
begin

text \<open>
  Properties of the OTLP buffer: the byte count and the capacity in every state that calls can reach one after another, what becomes of everything a flush takes out, and
  where the code goes wrong: a race between adding and flushing, relabelling on a split, draining the failover queue, and waiting for space that cannot come.
\<close>

section \<open>The byte count\<close>

definition buffer_ok :: "('v, 'p, 'x) buffer_env \<Rightarrow> ('v, 'p) MetricsBuffer \<Rightarrow> bool" where
  "buffer_ok env b \<longleftrightarrow> mb_metricSizes b = map (be_SizeVT env) (mb_metrics b) \<and> mb_currentBytes b = sum_list (mb_metricSizes b)"

definition within_capacity :: "('v, 'p) MetricsBuffer \<Rightarrow> bool" where
  "within_capacity b \<longleftrightarrow> (mb_maxBufferBytes b > 0 \<and> mb_fullPolicy b \<noteq> DropOldest \<longrightarrow> mb_currentBytes b \<le> mb_maxBufferBytes b)"

lemma buffer_stats_fields [simp]:
  "mb_metrics (buffer_stats evs b) = mb_metrics b" "mb_metricSizes (buffer_stats evs b) = mb_metricSizes b" "mb_currentBytes (buffer_stats evs b) = mb_currentBytes b"
  "mb_maxBufferBytes (buffer_stats evs b) = mb_maxBufferBytes b" "mb_fullPolicy (buffer_stats evs b) = mb_fullPolicy b" "mb_failoverQueue (buffer_stats evs b) = mb_failoverQueue b"
  "mb_maxBatchSize (buffer_stats evs b) = mb_maxBatchSize b" "mb_maxSize (buffer_stats evs b) = mb_maxSize b" "mb_pipe (buffer_stats evs b) = mb_pipe b"
  by (simp_all add: buffer_stats_def)

lemma evict_oldest_drop:
  assumes "sizes = map f rms"
  shows "\<exists>k. evict_oldest needed evicted rms sizes = Some (evicted + sum_list (take k sizes), drop k rms, drop k sizes)"
  using assms
proof (induction rms arbitrary: evicted sizes)
  case (Cons rm rms)
  show ?case
  proof (cases "evicted < needed")
    case True
    obtain k where "evict_oldest needed (evicted + f rm) rms (map f rms) = Some (evicted + f rm + sum_list (take k (map f rms)), drop k rms, drop k (map f rms))"
      using Cons.IH by blast
    then show ?thesis using True Cons.prems by (intro exI [of _ "Suc k"]) simp
  qed (intro exI [of _ 0], simp)
qed simp

lemma evictOldest_ok:
  assumes "buffer_ok env b" "mb_evictOldest n b = Some b'"
  shows "buffer_ok env b' \<and> mb_fullPolicy b' = mb_fullPolicy b"
proof -
  obtain k where k: "evict_oldest (mb_currentBytes b + n - mb_maxBufferBytes b) 0 (mb_metrics b) (mb_metricSizes b)
      = Some (sum_list (take k (mb_metricSizes b)), drop k (mb_metrics b), drop k (mb_metricSizes b))"
    using evict_oldest_drop [of "mb_metricSizes b" "be_SizeVT env" "mb_metrics b" _ 0] assms(1) by (auto simp: buffer_ok_def)
  have "sum_list (mb_metricSizes b) = sum_list (take k (mb_metricSizes b)) + sum_list (drop k (mb_metricSizes b))"
    by (metis append_take_drop_id sum_list_append)
  then show ?thesis using assms k by (auto simp: mb_evictOldest_def buffer_ok_def drop_map)
qed

lemma store_metrics_ok:
  assumes "buffer_ok env b" "within_capacity b" "store_metrics env [] rms b = Some (ok, b')"
  shows "buffer_ok env b' \<and> within_capacity b'"
proof (cases "rms = []")
  case True
  then show ?thesis using assms by (simp add: store_metrics_def)
next
  case False
  let ?n = "sum_list (map (be_SizeVT env) rms)"
  let ?check = "if mb_maxBufferBytes b > 0 then enforceCapacity [] ?n b else Some (True, b)"
  obtain fits b1 where c: "?check = Some (fits, b1)" "(ok, b') = (if fits then (True, append_metrics rms (map (be_SizeVT env) rms) ?n b1) else (False, b1))"
    using assms(3) False by (auto simp: store_metrics_def Let_def bind_eq_Some_conv)
  have b1: "buffer_ok env b1 \<and> (fits \<and> mb_maxBufferBytes b1 > 0 \<and> mb_fullPolicy b1 \<noteq> DropOldest \<longrightarrow> mb_currentBytes b1 + ?n \<le> mb_maxBufferBytes b1)
      \<and> (\<not> fits \<longrightarrow> b1 = b)"
    using c(1) assms(1) evictOldest_ok [OF assms(1), of ?n]
    by (auto simp: enforceCapacity_def wait_for_space.simps split: if_splits)
  show ?thesis
  proof (cases fits)
    case True
    then have "b' = append_metrics rms (map (be_SizeVT env) rms) ?n b1" using c(2) by simp
    then show ?thesis
      using b1 True by (auto simp: append_metrics_def Let_def buffer_ok_def within_capacity_def add_append_def add_bytes_def)
  next
    case False
    then show ?thesis using c(2) b1 assms by simp
  qed
qed

section \<open>Exports\<close>

definition failover_ok :: "('v, 'p, 'x) buffer_env \<Rightarrow> ('v, 'p) MetricsBuffer \<Rightarrow> bool" where
  "failover_ok env b \<longleftrightarrow> (\<forall>r. 0 \<le> be_reqSize env r) \<and> (\<forall>q. mb_failoverQueue b = Some q \<longrightarrow> mq_inv (be_reqSize env) q)"

text \<open>What the exports leave alone.\<close>

definition same_buffer :: "('v, 'p) MetricsBuffer \<Rightarrow> ('v, 'p) MetricsBuffer \<Rightarrow> bool" where
  "same_buffer b b' \<longleftrightarrow> mb_metrics b' = mb_metrics b \<and> mb_metricSizes b' = mb_metricSizes b \<and> mb_currentBytes b' = mb_currentBytes b
     \<and> mb_maxBufferBytes b' = mb_maxBufferBytes b \<and> mb_fullPolicy b' = mb_fullPolicy b"

lemma same_buffer_refl [simp]: "same_buffer b b" and same_buffer_trans: "same_buffer a b \<Longrightarrow> same_buffer b c \<Longrightarrow> same_buffer a c"
  by (simp_all add: same_buffer_def)

lemma same_buffer_keeps:
  "same_buffer b b' \<Longrightarrow> buffer_ok env b \<Longrightarrow> buffer_ok env b'" "same_buffer b b' \<Longrightarrow> within_capacity b \<Longrightarrow> within_capacity b'"
  by (simp_all add: same_buffer_def buffer_ok_def within_capacity_def)

lemma to_failover_returns:
  assumes "failover_ok env b"
  shows "\<exists>f b'. to_failover env batch b = Some (f, b') \<and> f \<in> {Failover, Lost} \<and> failover_ok env b' \<and> same_buffer b b' \<and> mb_maxBatchSize b' = mb_maxBatchSize b"
proof (cases "mb_failoverQueue b")
  case None
  then show ?thesis using assms by (simp add: to_failover_def)
next
  case (Some q)
  have q: "mq_inv (be_reqSize env) q" "\<And>r. 0 \<le> be_reqSize env r" using assms Some by (auto simp: failover_ok_def)
  show ?thesis
  proof (cases "be_reqSize env batch \<le> maxBytes q")
    case True
    then obtain q' where "Push (be_reqSize env) q batch = Some (Inr q')" using Push_drop [OF q(2,1)] by blast
    then show ?thesis using Push_inv [OF q(2,1)] Some q(2) by (auto simp: to_failover_def failover_ok_def same_buffer_def)
  next
    case False
    then show ?thesis using assms Some by (simp add: to_failover_def Push_def)
  qed
qed

lemma exportBatch_returns:
  assumes "\<forall>r. length (relabelled env r) \<le> length r"
  shows "failover_ok env b \<Longrightarrow> \<exists>b' x' out. exportBatch env batch (b, x, log) = Some (b', x', log @ out) \<and> failover_ok env b' \<and> same_buffer b b'
    \<and> mb_maxBatchSize b' = mb_maxBatchSize b \<and> (\<forall>r \<in> set out. length (snd r) \<le> length batch)
    \<and> (be_relabeler env = None \<longrightarrow> concat (map snd out) = batch)"
proof (induction "length batch" arbitrary: batch b x log rule: less_induct)
  case less
  let ?r = "relabelled env batch"
  have r: "length ?r \<le> length batch" "be_relabeler env = None \<Longrightarrow> ?r = batch" using assms by (simp_all add: relabelled_def)
  obtain ans x1 where x1: "be_Export env x ?r = (ans, x1)" by fastforce
  consider (empty) "be_relabeler env \<noteq> None \<and> ?r = []" | (split) err where "\<not> (be_relabeler env \<noteq> None \<and> ?r = [])" "ans = Failed err" "splittable env err" "length ?r > 1"
    | (fail) err where "\<not> (be_relabeler env \<noteq> None \<and> ?r = [])" "ans = Failed err" "\<not> (splittable env err \<and> length ?r > 1)"
    | (fine) "\<not> (be_relabeler env \<noteq> None \<and> ?r = [])" "ans = Exported \<or> ans = AnswerQueued"
    by (cases ans; blast)
  then show ?case
  proof cases
    case empty
    then show ?thesis using less.prems by (subst exportBatch.simps) auto
  next
    case (split err)
    let ?m = "length ?r div 2"
    have m: "length (take ?m ?r) < length batch" "length (drop ?m ?r) < length batch" using split(4) r(1) by auto
    obtain b1 x2 out1 where 1: "exportBatch env (take ?m ?r) (b, x1, log) = Some (b1, x2, log @ out1)" "failover_ok env b1" "same_buffer b b1"
        "mb_maxBatchSize b1 = mb_maxBatchSize b" "\<forall>r \<in> set out1. length (snd r) \<le> length (take ?m ?r)"
        "be_relabeler env = None \<longrightarrow> concat (map snd out1) = take ?m ?r"
      using less.hyps [OF m(1) less.prems, of x1 log] by (elim exE conjE) (rule that)
    obtain b2 x3 out2 where 2: "exportBatch env (drop ?m ?r) (b1, x2, log @ out1) = Some (b2, x3, (log @ out1) @ out2)" "failover_ok env b2" "same_buffer b1 b2"
        "mb_maxBatchSize b2 = mb_maxBatchSize b1" "\<forall>r \<in> set out2. length (snd r) \<le> length (drop ?m ?r)"
        "be_relabeler env = None \<longrightarrow> concat (map snd out2) = drop ?m ?r"
      using less.hyps [OF m(2) 1(2), of x2 "log @ out1"] by (elim exE conjE) (rule that)
    have "exportBatch env batch (b, x, log) = Some (b2, x3, log @ (out1 @ out2))"
      using split x1 1(1) 2(1) by (subst exportBatch.simps) (auto simp: Let_def)
    moreover have "same_buffer b b2" using 1(3) 2(3) by (rule same_buffer_trans)
    moreover have "\<forall>r \<in> set (out1 @ out2). length (snd r) \<le> length batch" using 1(5) 2(5) m by fastforce
    ultimately show ?thesis using 1(4,6) 2(2,4,6) r(2) by (intro exI [of _ b2] exI [of _ x3] exI [of _ "out1 @ out2"]) auto
  next
    case (fail err)
    obtain f b' where f: "to_failover env ?r b = Some (f, b')" "failover_ok env b'" "same_buffer b b'" "mb_maxBatchSize b' = mb_maxBatchSize b"
      using to_failover_returns [OF less.prems] by blast
    then have "exportBatch env batch (b, x, log) = Some (buffer_stats [RecordExportError] b', x1, log @ [(f, ?r)])"
      using fail x1 by (subst exportBatch.simps) auto
    moreover have "failover_ok env (buffer_stats [RecordExportError] b')" "same_buffer b (buffer_stats [RecordExportError] b')"
      using f by (simp_all add: failover_ok_def same_buffer_def)
    ultimately show ?thesis using f r by (intro exI [of _ "buffer_stats [RecordExportError] b'"] exI) auto
  next
    case fine
    then have "\<exists>b' f. exportBatch env batch (b, x, log) = Some (b', x1, log @ [(f, ?r)]) \<and> (b' = b \<or> (\<exists>evs. b' = buffer_stats evs b))"
      using x1 by (subst exportBatch.simps) (auto simp: Let_def)
    then obtain b' f where "exportBatch env batch (b, x, log) = Some (b', x1, log @ [(f, ?r)])" "b' = b \<or> (\<exists>evs. b' = buffer_stats evs b)" by blast
    then show ?thesis using less.prems r by (intro exI [of _ b'] exI [of _ x1] exI [of _ "[(f, ?r)]"]) (auto simp: failover_ok_def same_buffer_def)
  qed
qed

lemma export_all_returns:
  assumes "\<forall>r. length (relabelled env r) \<le> length r"
  shows "failover_ok env b \<Longrightarrow> \<exists>b' x' out. export_all env batches (b, x, log) = Some (b', x', log @ out) \<and> failover_ok env b' \<and> same_buffer b b'
    \<and> (\<forall>r \<in> set out. \<exists>batch \<in> set batches. length (snd r) \<le> length batch)
    \<and> (be_relabeler env = None \<longrightarrow> concat (map snd out) = concat batches)"
proof (induction batches arbitrary: b x log)
  case (Cons batch batches)
  obtain b1 x1 out1 where 1: "exportBatch env batch (b, x, log) = Some (b1, x1, log @ out1)" "failover_ok env b1" "same_buffer b b1"
      "\<forall>r \<in> set out1. length (snd r) \<le> length batch" "be_relabeler env = None \<longrightarrow> concat (map snd out1) = batch"
    using exportBatch_returns [OF assms Cons.prems] by blast
  obtain b2 x2 out2 where 2: "export_all env batches (b1, x1, log @ out1) = Some (b2, x2, (log @ out1) @ out2)" "failover_ok env b2" "same_buffer b1 b2"
      "\<forall>r \<in> set out2. \<exists>batch \<in> set batches. length (snd r) \<le> length batch" "be_relabeler env = None \<longrightarrow> concat (map snd out2) = concat batches"
    using Cons.IH [OF 1(2), of x1 "log @ out1"] by (elim exE conjE) (rule that)
  have "same_buffer b b2" using 1(3) 2(3) by (rule same_buffer_trans)
  then show ?case using 1 2 by (intro exI [of _ b2] exI [of _ x2] exI [of _ "out1 @ out2"]) auto
qed simp

lemma count_batches_correct:
  assumes "0 < n" "0 \<le> i"
  shows "\<exists>bs. count_batches n toSend i = Some bs \<and> concat bs = drop (nat i) toSend \<and> (\<forall>c \<in> set bs. int (length c) \<le> n)"
  using assms(2)
proof (induction "nat (int (length toSend) - i)" arbitrary: i rule: less_induct)
  case less
  show ?case
  proof (cases "i < int (length toSend)")
    case False
    then show ?thesis using less.prems by (subst count_batches.simps) simp
  next
    case True
    define e where "e = (if i + n > int (length toSend) then int (length toSend) else i + n)"
    obtain bs where bs: "count_batches n toSend (i + n) = Some bs" "concat bs = drop (nat (i + n)) toSend" "\<forall>c \<in> set bs. int (length c) \<le> n"
      using less.hyps [of "i + n"] True assms(1) less.prems by auto
    have e: "i \<le> e" "e \<le> i + n" "e \<le> int (length toSend)" using True assms(1) by (auto simp: e_def)
    have "take (nat (e - i)) (drop (nat i) toSend) @ drop (nat (i + n)) toSend = drop (nat i) toSend"
    proof (cases "i + n > int (length toSend)")
      case True
      then show ?thesis using less.prems by (simp add: e_def)
    next
      case False
      then have "nat (i + n) = nat (e - i) + nat i" using e less.prems assms(1) by (simp add: e_def)
      then show ?thesis by (metis append_take_drop_id drop_drop)
    qed
    then show ?thesis using True bs e less.prems
      by (subst count_batches.simps) (auto simp: Let_def e_def [symmetric] simp del: take_drop)
  qed
qed

section \<open>A flush\<close>

lemma splits_concat:
  "concat (concat (map (\<lambda>c. fst (splitByBytes f c m)) cs)) = concat cs
   \<and> (\<forall>p \<in> set (concat (map (\<lambda>c. fst (splitByBytes f c m)) cs)). \<exists>c \<in> set cs. length p \<le> length c)"
proof -
  have c: "concat (fst (splitByBytes f c m)) = c" for c
    using splitByBytes_good [of m f c] by (cases "m > 0") (auto simp: good_split_def splitByBytes_def)
  have "length p \<le> length c" if "p \<in> set (fst (splitByBytes f c m))" for p c
  proof -
    have "length p \<le> length (concat (fst (splitByBytes f c m)))"
      using that by (simp add: length_concat member_le_sum_list)
    then show ?thesis by (simp add: c)
  qed
  moreover have "concat (concat (map (\<lambda>c. fst (splitByBytes f c m)) cs)) = concat cs" by (induction cs) (simp_all add: c)
  ultimately show ?thesis by fastforce
qed

lemma mset_concat_cong: "mset xs = mset ys \<Longrightarrow> mset (concat xs) = mset (concat ys)"
  by (metis mset_concat mset_map sum_mset_sum_list)

lemma flush_fields [simp]:
  "mb_metrics (flush_swap (flush_take b)) = []" "mb_metricSizes (flush_swap (flush_take b)) = []" "mb_currentBytes (flush_swap (flush_take b)) = 0"
  "mb_maxBufferBytes (flush_swap (flush_take b)) = mb_maxBufferBytes b" "mb_fullPolicy (flush_swap (flush_take b)) = mb_fullPolicy b"
  by (simp_all add: flush_swap_def flush_take_def)

lemma mb_flush_returns:
  assumes "\<forall>r. length (relabelled env r) \<le> length r" "failover_ok env b" "0 < mb_maxBatchSize b" "\<And>bs. mset (order bs) = mset bs"
  obtains b' x' out where "mb_flush env order b x = Some (b', x', out)" "failover_ok env b'"
    "mb_metrics b = [] \<longrightarrow> b' = b \<and> out = []" "mb_metrics b \<noteq> [] \<longrightarrow> same_buffer (flush_swap (flush_take b)) b'"
    "\<forall>r \<in> set out. int (length (snd r)) \<le> mb_maxBatchSize b"
    "be_relabeler env = None \<longrightarrow> mset (concat (map snd out)) = mset (mb_metrics b)"
    "be_relabeler env = None \<longrightarrow> order = id \<longrightarrow> concat (map snd out) = mb_metrics b"
proof (cases "mb_metrics b = []")
  case True
  then show thesis using assms(2) by (intro that [of b x "[]"]) (simp_all add: mb_flush_def)
next
  case False
  define b1 where "b1 = buffer_stats [SetOTLPBufferSize 0] (flush_swap (flush_take b))"
  have b1: "failover_ok env b1" "mb_maxBatchSize b1 = mb_maxBatchSize b" "same_buffer (flush_swap (flush_take b)) b1"
    using assms(2) by (simp_all add: b1_def failover_ok_def flush_swap_def flush_take_def same_buffer_def)
  obtain cs where cs: "count_batches (mb_maxBatchSize b) (mb_metrics b) 0 = Some cs" "concat cs = mb_metrics b" "\<forall>c \<in> set cs. int (length c) \<le> mb_maxBatchSize b"
    using count_batches_correct [OF assms(3), of 0 "mb_metrics b"] by auto
  define bs where "bs = concat (map (\<lambda>c. fst (splitByBytes (be_SizeVT env) c (effective_max b1))) cs)"
  have "concat bs = mb_metrics b" "\<forall>c \<in> set bs. \<exists>c' \<in> set cs. length c \<le> length c'"
    using splits_concat [of "be_SizeVT env" "effective_max b1" cs] cs(2) by (simp_all add: bs_def)
  with cs(3) have bs: "concat bs = mb_metrics b" "\<forall>c \<in> set bs. int (length c) \<le> mb_maxBatchSize b" by fastforce+
  obtain b' x' out where out: "export_all env (order bs) (b1, x, []) = Some (b', x', [] @ out)" "failover_ok env b'" "same_buffer b1 b'"
      "\<forall>r \<in> set out. \<exists>batch \<in> set (order bs). length (snd r) \<le> length batch" "be_relabeler env = None \<longrightarrow> concat (map snd out) = concat (order bs)"
    using export_all_returns [OF assms(1) b1(1), of "order bs" x "[]"] by (elim exE conjE) (rule that)
  have "set (order bs) = set bs" "mset (concat (order bs)) = mset (concat bs)" using assms(4) [of bs] mset_eq_setD mset_concat_cong by blast+
  moreover have "mb_flush env order b x = Some (b', x', out)"
    using False out(1) cs(1) b1(2) by (simp add: mb_flush_def b1_def [symmetric] bs_def Let_def)
  ultimately show thesis
    using that [of b' x' out] out False same_buffer_trans [OF b1(3)] bs by fastforce
qed

text \<open>
  C8: A flush loses nothing without a trace. With a positive batch size, a failover queue in order (or none) and no relabelling, a flush returns; the buffer and its byte count are then empty; and
  the requests it made, each with at most \<open>maxBatchSize\<close> resources and each marked as sent, queued by the exporter, put into the failover queue or lost, consist of exactly the
  resources that were buffered, whatever the backend answers and in whatever order concurrent exports take effect; without concurrency they are in their old order.
\<close>

theorem flush_accounts:
  assumes "be_relabeler env = None" "failover_ok env b" "0 < mb_maxBatchSize b" "\<forall>bs. mset (order bs) = mset bs" "mb_metrics b \<noteq> []"
  shows "\<exists>b' x' out. mb_flush env order b x = Some (b', x', out) \<and> mb_metrics b' = [] \<and> mb_metricSizes b' = [] \<and> mb_currentBytes b' = 0
    \<and> mset (concat (map snd out)) = mset (mb_metrics b) \<and> (order = id \<longrightarrow> concat (map snd out) = mb_metrics b)
    \<and> (\<forall>r \<in> set out. int (length (snd r)) \<le> mb_maxBatchSize b)"
proof -
  have "\<forall>r. length (relabelled env r) \<le> length r" using assms(1) by (simp add: relabelled_def)
  from mb_flush_returns [OF this assms(2,3), of order x] assms(1,4,5) show ?thesis
    by (metis (no_types, lifting) flush_fields(1-3) same_buffer_def)
qed

text \<open>
  A concrete buffer for the witnesses. The backend accepts single resources and answers \<open>413\<close> to larger requests; a resource is one byte for each scope.
\<close>

definition sample_resource :: "nat \<Rightarrow> nat ResourceMetrics" where
  "sample_resource n = \<lparr>rm_Resource = None, rm_ScopeMetrics = replicate n \<lparr>sm_Scope = None, sm_Metrics = [], sm_SchemaUrl = []\<rparr>, rm_SchemaUrl = []\<rparr>"

definition too_large :: go_error where
  "too_large = ExpError \<lparr>ee_Err = None, ee_Type = ErrorTypeClientError, ee_StatusCode = 413, ee_Message = []\<rparr>"

definition single_env :: "(nat, unit, nat resources list) buffer_env" where
  "single_env = \<lparr>be_SizeVT = (\<lambda>rm. int (length (rm_ScopeMetrics rm))), be_reqSize = (\<lambda>r. int (length r)), be_sampler = None, be_tenant = None, be_limits = None, be_fused = None,
     be_relabeler = None, be_Export = (\<lambda>x r. if length r \<le> 1 then (Exported, x @ [r]) else (Failed too_large, x)), be_lower = id\<rparr>"

definition sample_buffer :: "nat list \<Rightarrow> (nat, unit) MetricsBuffer" where
  "sample_buffer ns = (otlp_NewBuffer 100 10 True ())\<lparr>mb_metrics := map sample_resource ns, mb_metricSizes := map int ns, mb_currentBytes := int (sum_list ns)\<rparr>"

theorem flush_accounts_witness:
  "\<exists>b' x' out. mb_flush single_env id (sample_buffer [1, 2, 3]) [] = Some (b', x', out) \<and> concat (map snd out) = map sample_resource [1, 2, 3]"
  using flush_accounts [of single_env "sample_buffer [1, 2, 3]" id "[]"]
  by (auto simp: single_env_def sample_buffer_def otlp_NewBuffer_def failover_ok_def)

section \<open>Reachable states\<close>

text \<open>
  The states that calls reach one after another. A call that has to wait for space is not a step; it is one once it returns.
\<close>

inductive buffer_reachable :: "('v, 'p, 'x) buffer_env \<Rightarrow> ('v, 'p) MetricsBuffer \<Rightarrow> ('v, 'p) MetricsBuffer \<Rightarrow> bool"
  for env :: "('v, 'p, 'x) buffer_env" and b0 :: "('v, 'p) MetricsBuffer" where
  br_start: "buffer_reachable env b0 b0"
| br_add: "buffer_reachable env b0 b \<Longrightarrow> addInternal env [] rms headerTenant b = Some (ok, b') \<Longrightarrow> buffer_reachable env b0 b'"
| br_aggregated: "buffer_reachable env b0 b \<Longrightarrow> AddAggregated env [] rms b = Some b' \<Longrightarrow> buffer_reachable env b0 b'"
| br_round: "buffer_reachable env b0 b \<Longrightarrow> start_round env order r b x = Some (b', x', out) \<Longrightarrow> buffer_reachable env b0 b'"

definition buffer_inv :: "('v, 'p, 'x) buffer_env \<Rightarrow> ('v, 'p) MetricsBuffer \<Rightarrow> bool" where
  "buffer_inv env b \<longleftrightarrow> buffer_ok env b \<and> within_capacity b"

lemma buffer_inv_pipe [simp]: "buffer_inv env (b\<lparr>mb_pipe := p\<rparr>) = buffer_inv env b" "buffer_inv env (buffer_stats evs b) = buffer_inv env b"
  "buffer_inv env (b\<lparr>mb_flushChan := f\<rparr>) = buffer_inv env b" "buffer_inv env (b\<lparr>mb_failoverQueue := q\<rparr>) = buffer_inv env b"
  by (simp_all add: buffer_inv_def buffer_ok_def within_capacity_def)

lemma store_metrics_inv: "buffer_inv env b \<Longrightarrow> store_metrics env [] rms b = Some (ok, b') \<Longrightarrow> buffer_inv env b'"
  using store_metrics_ok [of env b rms ok b'] by (auto simp: buffer_inv_def)

lemma to_failover_inv: "to_failover env batch b = Some (f, b') \<Longrightarrow> buffer_inv env b' = buffer_inv env b"
  by (auto simp: to_failover_def split: option.splits sum.splits)

lemma exportBatch_inv:
  assumes "exportBatch env batch s = Some s'"
  shows "buffer_inv env (fst s') = buffer_inv env (fst s)"
proof (rule exportBatch.raw_induct [where P = "\<lambda>env batch s s'. buffer_inv env (fst s') = buffer_inv env (fst s)", OF _ assms], goal_cases)
  case (1 rec env batch s s')
  obtain b x log where s: "s = (b, x, log)" by (cases s)
  let ?r = "relabelled env batch"
  obtain ans x1 where x1: "be_Export env x ?r = (ans, x1)" by fastforce
  show ?case
  proof (cases "be_relabeler env \<noteq> None \<and> ?r = []")
    case True
    then show ?thesis using 1(2) s by auto
  next
    case False
    show ?thesis
    proof (cases ans)
      case (Failed err)
      show ?thesis
      proof (cases "splittable env err \<and> length ?r > 1")
        case True
        then obtain s1 where "rec env (take (length ?r div 2) ?r) (b, x1, log) = Some s1" "rec env (drop (length ?r div 2) ?r) s1 = Some s'"
          using 1(2) s False x1 Failed by (auto simp: Let_def bind_eq_Some_conv)
        from 1(1) [OF this(1)] 1(1) [OF this(2)] show ?thesis by (simp add: s)
      next
        case 2: False
        then obtain f b' where "to_failover env ?r b = Some (f, b')" "fst s' = buffer_stats [RecordExportError] b'"
          using 1(2) s False x1 Failed by (auto simp: Let_def)
        then show ?thesis using to_failover_inv [of env ?r b f b'] by (simp add: s)
      qed
    qed (use 1(2) s False x1 in \<open>auto simp: Let_def\<close>)
  qed
qed

lemma export_all_inv: "export_all env batches s = Some s' \<Longrightarrow> buffer_inv env (fst s') = buffer_inv env (fst s)"
  by (induction batches arbitrary: s) (auto simp: bind_eq_Some_conv dest: exportBatch_inv)

lemma drain_failover_inv: "drain_failover env n s = Some s' \<Longrightarrow> buffer_inv env (fst s') = buffer_inv env (fst s)"
proof (induction n arbitrary: s)
  case (Suc n)
  obtain b x log where s: "s = (b, x, log)" by (cases s)
  show ?case
  proof (cases "mb_failoverQueue b")
    case None
    then show ?thesis using Suc.prems s by auto
  next
    case (Some q)
    obtain r q1 where q1: "Pop (be_reqSize env) q = (r, q1)" by fastforce
    let ?b = "b\<lparr>mb_failoverQueue := Some q1\<rparr>"
    show ?thesis
    proof (cases r)
      case None
      then show ?thesis using Suc.prems s Some q1 by auto
    next
      case 2: (Some req)
      obtain ans x1 where x1: "be_Export env x req = (ans, x1)" by fastforce
      consider "drain_failover env n (?b, x1, log @ [(Sent, req)]) = Some s'" | f b' where "to_failover env req ?b = Some (f, b')" "fst s' = b'"
        using Suc.prems s Some q1 2 x1 by (cases ans) (auto simp: Let_def)
      then show ?thesis
      proof cases
        case 1
        then show ?thesis using Suc.IH [OF 1] by (simp add: s)
      next
        case 2
        then show ?thesis using to_failover_inv [OF 2(1)] by (simp add: s)
      qed
    qed
  qed
qed simp

lemma mb_flush_inv:
  assumes "buffer_inv env b" "mb_flush env order b x = Some (b', x', out)"
  shows "buffer_inv env b'"
proof (cases "mb_metrics b = []")
  case True
  then show ?thesis using assms by (simp add: mb_flush_def)
next
  case False
  let ?b = "buffer_stats [SetOTLPBufferSize 0] (flush_swap (flush_take b))"
  obtain bs where "export_all env bs (?b, x, []) = Some (b', x', out)"
    using assms(2) False by (auto simp: mb_flush_def Let_def bind_eq_Some_conv)
  moreover have "buffer_inv env (flush_swap (flush_take b))" by (simp add: buffer_inv_def buffer_ok_def within_capacity_def)
  ultimately show ?thesis using export_all_inv by fastforce
qed

lemma buffer_reachable_inv:
  assumes "buffer_reachable env b0 b" "buffer_inv env b0"
  shows "buffer_inv env b"
  using assms
proof (induction rule: buffer_reachable.induct)
  case (br_add b rms headerTenant ok b')
  then have "buffer_inv env b" by blast
  with br_add.hyps(2) show ?case
    by (auto simp: addInternal_def Let_def bind_eq_Some_conv split: if_splits dest!: store_metrics_inv [rotated])
next
  case (br_aggregated b rms b')
  then have "buffer_inv env b" by blast
  with br_aggregated.hyps(2) show ?case
    by (auto simp: AddAggregated_def bind_eq_Some_conv split: if_splits dest!: store_metrics_inv [rotated])
next
  case (br_round b order r x b' x' out)
  then have "buffer_inv env b" by blast
  with br_round.hyps(2) show ?case
    by (cases r) (auto simp: start_round_def drainFailoverQueue_def dest: mb_flush_inv [rotated] drain_failover_inv)
qed



section \<open>A race\<close>

datatype 'v late_call = LateAdd "'v resources" gostring | LateRound buffer_round

text \<open>The errors of later calls and the buffer they leave; an \<open>Add\<close> without an error answers \<open>False\<close>.\<close>

fun late_calls :: "('v, 'p, 'x) buffer_env \<Rightarrow> 'v late_call list \<Rightarrow> ('v, 'p) MetricsBuffer \<Rightarrow> 'x \<Rightarrow> (bool list \<times> ('v, 'p) MetricsBuffer) option" where
  "late_calls env [] b x = Some ([], b)"
| "late_calls env (LateAdd rms headerTenant # cs) b x = do {
     (ok, b) \<leftarrow> addInternal env [] rms headerTenant b;
     (errs, b) \<leftarrow> late_calls env cs b x;
     Some ((\<not> ok) # errs, b)}"
| "late_calls env (LateRound r # cs) b x = do {
     (b, x, _) \<leftarrow> start_round env id r b x;
     late_calls env cs b x}"

text \<open>
  A flush between the two steps of an \<open>Add\<close> can make the buffer refuse everything. When a flush takes out what an \<open>Add\<close> has just appended and resets the byte count before that
  \<open>Add\<close> has added its bytes, the bytes are counted for an empty buffer, and no flush of an empty buffer resets the count. With the default policy, no processors and an
  empty failover queue, every later \<open>Add\<close> that does not fit beside these bytes is refused, however often the buffer is flushed in between.
\<close>

theorem racing_flush_wedges:
  assumes "mb_fullPolicy b = DropNewest" "0 < mb_maxBufferBytes b" "mb_failoverQueue b = None"
    and "be_sampler env = None" "be_fused env = None" "be_tenant env = None" "be_limits env = None"
    and "n = (\<Sum>rm\<leftarrow>rms. be_SizeVT env rm)" "b1 = add_bytes n (flush_swap (flush_take (add_append rms (map (be_SizeVT env) rms) b)))"
    and "\<forall>later headerTenant. LateAdd later headerTenant \<in> set cs \<longrightarrow> later \<noteq> [] \<and> n + (\<Sum>rm\<leftarrow>later. be_SizeVT env rm) > mb_maxBufferBytes b"
  shows "\<exists>errs b2. late_calls env cs b1 x = Some (errs, b2) \<and> list_all (\<lambda>e. e) errs \<and> mb_metrics b2 = []"
proof -
  have "\<exists>errs b2. late_calls env cs b' x = Some (errs, b2) \<and> list_all (\<lambda>e. e) errs \<and> mb_metrics b2 = []"
    if "mb_fullPolicy b' = DropNewest" "mb_maxBufferBytes b' = mb_maxBufferBytes b" "mb_failoverQueue b' = None" "mb_currentBytes b' = n" "mb_metrics b' = []" for b'
    using assms(10) that
  proof (induction cs arbitrary: b')
    case (Cons c cs)
    have cs: "\<forall>later headerTenant. LateAdd later headerTenant \<in> set cs \<longrightarrow> later \<noteq> [] \<and> n + (\<Sum>rm\<leftarrow>later. be_SizeVT env rm) > mb_maxBufferBytes b"
      using Cons.prems(1) by simp
    show ?case
    proof (cases c)
      case (LateAdd later headerTenant)
      let ?b = "buffer_stats [RecordReceived (exporter_countDatapoints later), RecordOTLPBytesReceived (estimateResourceMetricsSize env later), StatsProcess] b'"
      have "later \<noteq> []" "n + (\<Sum>rm\<leftarrow>later. be_SizeVT env rm) > mb_maxBufferBytes b" using Cons.prems(1) LateAdd by auto
      then have "addInternal env [] later headerTenant b' = Some (False, ?b)"
        using Cons.prems(2-) assms(2,4-7)
        by (auto simp: addInternal_def tenant_and_limits_def store_metrics_def enforceCapacity_def buffer_stats_def Let_def)
      moreover obtain errs b2 where "late_calls env cs ?b x = Some (errs, b2)" "list_all (\<lambda>e. e) errs" "mb_metrics b2 = []"
        using Cons.IH [OF cs, of ?b] Cons.prems(2-) by auto
      ultimately show ?thesis using LateAdd by simp
    next
      case (LateRound r)
      have "\<exists>b'' out. start_round env id r b' x = Some (b'', x, out) \<and> (b'' = b' \<or> b'' = b'\<lparr>mb_flushChan := False\<rparr>)"
        using Cons.prems by (cases r) (auto simp: start_round_def mb_flush_def drainFailoverQueue_def eval_nat_numeral)
      then obtain b'' out where b'': "start_round env id r b' x = Some (b'', x, out)" "b'' = b' \<or> b'' = b'\<lparr>mb_flushChan := False\<rparr>" by blast
      then obtain errs b2 where "late_calls env cs b'' x = Some (errs, b2)" "list_all (\<lambda>e. e) errs" "mb_metrics b2 = []"
        using Cons.IH [OF cs, of b''] Cons.prems(2-) by auto
      then show ?thesis using LateRound b''(1) by simp
    qed
  qed simp
  then show ?thesis using assms(1-3,9) by (simp add: add_bytes_def flush_swap_def flush_take_def add_append_def)
qed

theorem racing_flush_wedges_witness:
  "let b = WithMaxBufferBytes 10 (otlp_NewBuffer 100 10 True ());
       b1 = add_bytes 6 (flush_swap (flush_take (add_append [sample_resource 6] [6] b)))
   in \<exists>errs b2. late_calls single_env [LateRound FlushTick, LateAdd [sample_resource 5] [], LateRound FlushTick, LateAdd [sample_resource 5] []] b1 [] = Some (errs, b2)
     \<and> list_all (\<lambda>e. e) errs \<and> mb_metrics b2 = []"
  using racing_flush_wedges [of "WithMaxBufferBytes 10 (otlp_NewBuffer 100 10 True ())" single_env 6 "[sample_resource 6]" _
      "[LateRound FlushTick, LateAdd [sample_resource 5] [], LateRound FlushTick, LateAdd [sample_resource 5] []]" "[]", OF _ _ _ _ _ _ _ _ refl]
  by (simp add: WithMaxBufferBytes_def otlp_NewBuffer_def single_env_def sample_resource_def)

section \<open>Waiting, relabelling, draining\<close>

text \<open>
  Under the policy \<open>block\<close>, a request larger than the capacity waits for ever, even on an empty buffer and whatever others do meanwhile.
\<close>

lemma oversize_add_waits:
  assumes "mb_maxBufferBytes b < n" "\<forall>b. 0 \<le> mb_currentBytes b \<longrightarrow> (\<forall>w \<in> set wakes. 0 \<le> mb_currentBytes (w b) \<and> mb_maxBufferBytes (w b) = mb_maxBufferBytes b)"
    and "mb_fullPolicy b = Block" "0 \<le> mb_currentBytes b"
  shows "enforceCapacity wakes n b = None"
proof -
  have "wait_for_space wakes n b = None"
    using assms(1,2,4)
  proof (induction wakes arbitrary: b)
    case Nil
    then show ?case by (subst wait_for_space.simps) simp
  next
    case (Cons w wakes)
    then show ?case by (subst wait_for_space.simps) auto
  qed
  then show ?thesis using assms by (simp add: enforceCapacity_def DropNewest_def DropOldest_def Block_def)
qed

text \<open>
  When a batch is split because it is too large, its resources are relabelled again. With a relabeller, a batch whose relabelled form the backend refuses as too large is exported
  as two halves of the relabelled form, and each half goes through the relabeller once more: the backend receives resources that were relabelled twice.
\<close>

theorem split_relabels_twice:
  assumes "be_relabeler env = Some f" "f batch = [u, v]" "be_Export env x [u, v] = (Failed err, x1)" "splittable env err"
    and "be_Export env x1 (f [u]) = (Exported, x2)" "be_Export env x2 (f [v]) = (Exported, x3)" "f [u] \<noteq> []" "f [v] \<noteq> []"
  shows "\<exists>b'. exportBatch env batch (b, x, []) = Some (b', x3, [(Sent, f [u]), (Sent, f [v])])"
proof -
  have one: "\<exists>b'. exportBatch env [w] (b, y, log) = Some (b', y', log @ [(Sent, f [w])])" if "be_Export env y (f [w]) = (Exported, y')" "f [w] \<noteq> []" for w y y' log b
    using that assms(1) by (subst exportBatch.simps) (auto simp: relabelled_def Let_def)
  obtain b1 where b1: "exportBatch env [u] (b, x1, []) = Some (b1, x2, [(Sent, f [u])])" using one [OF assms(5,7), of b "[]"] by auto
  obtain b2 where b2: "exportBatch env [v] (b1, x2, [(Sent, f [u])]) = Some (b2, x3, [(Sent, f [u]), (Sent, f [v])])" using one [OF assms(6,8), of b1 "[(Sent, f [u])]"] by auto
  show ?thesis using assms(1-4) b1 b2 by (subst exportBatch.simps) (auto simp: relabelled_def Let_def)
qed

theorem split_relabels_twice_witness:
  "\<exists>b'. exportBatch (single_env\<lparr>be_relabeler := Some (map (\<lambda>rm. rm\<lparr>rm_SchemaUrl := 7 # rm_SchemaUrl rm\<rparr>))\<rparr>) [sample_resource 1, sample_resource 2] (sample_buffer [], [], [])
    = Some (b', [[sample_resource 1\<lparr>rm_SchemaUrl := [7, 7]\<rparr>], [sample_resource 2\<lparr>rm_SchemaUrl := [7, 7]\<rparr>]],
        [(Sent, [sample_resource 1\<lparr>rm_SchemaUrl := [7, 7]\<rparr>]), (Sent, [sample_resource 2\<lparr>rm_SchemaUrl := [7, 7]\<rparr>])])"
  using split_relabels_twice [of "single_env\<lparr>be_relabeler := Some (map (\<lambda>rm. rm\<lparr>rm_SchemaUrl := 7 # rm_SchemaUrl rm\<rparr>))\<rparr>" _ "[sample_resource 1, sample_resource 2]"
      "sample_resource 1\<lparr>rm_SchemaUrl := [7]\<rparr>" "sample_resource 2\<lparr>rm_SchemaUrl := [7]\<rparr>" "[]" too_large "[]"
      "[[sample_resource 1\<lparr>rm_SchemaUrl := [7, 7]\<rparr>]]" "[[sample_resource 1\<lparr>rm_SchemaUrl := [7, 7]\<rparr>], [sample_resource 2\<lparr>rm_SchemaUrl := [7, 7]\<rparr>]]" "sample_buffer []"]
  by (simp add: single_env_def sample_resource_def splittable_def too_large_def IsSplittable_def)

text \<open>
  Draining the failover queue duplicates what the exporter queues. When the exporter answers that it has queued the request it was given (which counts as success everywhere else), the
  drain pushes that request back into the failover queue, so it is then held twice.
\<close>

theorem drain_duplicates:
  assumes "failover_ok env b" "mb_failoverQueue b = Some q" "entries q = req # reqs" "be_Export env x req = (AnswerQueued, x1)" "be_reqSize env req \<le> maxBytes q"
  shows "\<exists>b' q'. drainFailoverQueue env b x = Some (b', x1, [(Failover, req)]) \<and> mb_failoverQueue b' = Some q' \<and> entries q' \<noteq> [] \<and> last (entries q') = req"
proof -
  have q: "mq_inv (be_reqSize env) q" "\<And>r. 0 \<le> be_reqSize env r" using assms(1,2) by (auto simp: failover_ok_def)
  obtain q1 where q1: "Pop (be_reqSize env) q = (Some req, q1)" "mq_inv (be_reqSize env) q1" "maxBytes q1 = maxBytes q"
    using Pop_cases [OF q(2,1)] assms(3) by (cases "Pop (be_reqSize env) q") (auto simp: Pop_def Let_def)
  obtain k where "Push (be_reqSize env) q1 req = Some (Inr (q1\<lparr>entries := drop k (entries q1) @ [req], mq_bytes := total_size (be_reqSize env) (drop k (entries q1) @ [req])\<rparr>))"
    using Push_drop [OF q(2) q1(2), of req] assms(5) q1(3) by auto
  then show ?thesis using assms(2,4) q1(1) by (simp add: drainFailoverQueue_def eval_nat_numeral to_failover_def)
qed

theorem drain_duplicates_witness:
  "\<exists>b' q'. drainFailoverQueue (single_env\<lparr>be_Export := \<lambda>x r. (AnswerQueued, x @ [r])\<rparr>)
      (WithFailoverQueue (push_or_keep (\<lambda>r. int (length r)) (NewMemoryQueue 10 100) [sample_resource 1]) (sample_buffer [])) []
      = Some (b', [[sample_resource 1]], [(Failover, [sample_resource 1])]) \<and> mb_failoverQueue b' = Some q' \<and> last (entries q') = [sample_resource 1]"
proof -
  let ?q = "push_or_keep (\<lambda>r. int (length r)) (NewMemoryQueue 10 100) [sample_resource 1]"
  have q: "mq_inv (\<lambda>r. int (length r)) ?q \<and> entries ?q = [[sample_resource 1]] \<and> maxBytes ?q = 100"
    by (simp add: push_or_keep_def Push_def NewMemoryQueue_def evict_by_count.simps evict_by_bytes.simps mq_inv_def Let_def)
  then show ?thesis
    using drain_duplicates [of "single_env\<lparr>be_Export := \<lambda>x r. (AnswerQueued, x @ [r])\<rparr>" "WithFailoverQueue ?q (sample_buffer [])" ?q "[sample_resource 1]" "[]" "[]"]
    by (auto simp: failover_ok_def single_env_def WithFailoverQueue_def)
qed

section \<open>The fused processor\<close>

lemma addInternal_fused:
  assumes "\<And>p. l p [] = Some ([], p)"
  shows "addInternal (env\<lparr>be_fused := Some (fused_Process \<lparr>fp_tenant = Some t, fp_limits = Some l\<rparr>)\<rparr>) wakes rms headerTenant b
    = addInternal (env\<lparr>be_fused := None, be_tenant := Some t, be_limits := Some l\<rparr>) wakes rms headerTenant b"
    (is "addInternal ?fused _ _ _ _ = addInternal ?separate _ _ _ _")
proof -
  have t: "tenant_and_limits ?fused h p rms = tenant_and_limits ?separate h p rms" for h p rms
    by (auto simp: tenant_and_limits_def fused_Process_def assms intro!: bind_option_cong)
  have s: "store_metrics ?fused wakes rms b = store_metrics ?separate wakes rms b" for rms b
    by (simp add: store_metrics_def)
  have e: "estimateResourceMetricsSize ?fused rms = estimateResourceMetricsSize ?separate rms" for rms
    by (simp add: estimateResourceMetricsSize_def)
  show ?thesis unfolding addInternal_def t s e by simp
qed

end
