(* ===== verification/Go_Floats.thy ===== *)
theory Go_Floats
  imports Prelude
begin

text \<open>
  What the sampling code uses of \<open>float64\<close>, of \<open>math\<close> and of the float part of \<open>strconv\<close>. The type of floats is a parameter
  \<open>'f\<close>: IEEE 754 arithmetic is hardware, and the theorems name what they rely on.
\<close>

record 'f float_lib =
  fl_of_int :: "int \<Rightarrow> 'f"
  fl_add :: "'f \<Rightarrow> 'f \<Rightarrow> 'f"
  fl_sub :: "'f \<Rightarrow> 'f \<Rightarrow> 'f"
  fl_mul :: "'f \<Rightarrow> 'f \<Rightarrow> 'f"
  fl_div :: "'f \<Rightarrow> 'f \<Rightarrow> 'f"
  fl_less :: "'f \<Rightarrow> 'f \<Rightarrow> bool"
  fl_le :: "'f \<Rightarrow> 'f \<Rightarrow> bool"
  fl_eq :: "'f \<Rightarrow> 'f \<Rightarrow> bool"
  fl_int64 :: "'f \<Rightarrow> int"
  fl_Mod :: "'f \<Rightarrow> 'f \<Rightarrow> 'f"
  fl_Trunc :: "'f \<Rightarrow> 'f"
  fl_Abs :: "'f \<Rightarrow> 'f"
  fl_Sqrt :: "'f \<Rightarrow> 'f"
  fl_IsInf :: "'f \<Rightarrow> bool"
  fl_ParseFloat :: "gostring \<Rightarrow> 'f option"
  fl_FormatFloat :: "'f \<Rightarrow> gostring"

text \<open>\<open>x > y\<close> and \<open>x >= y\<close>, and the literals \<open>0\<close>, \<open>1\<close>, \<open>-1\<close> and \<open>n / 10\<close>, which are exact or correctly rounded.\<close>

definition fl_greater :: "'f float_lib \<Rightarrow> 'f \<Rightarrow> 'f \<Rightarrow> bool" where
  "fl_greater fl x y = fl_less fl y x"

definition fl_ge :: "'f float_lib \<Rightarrow> 'f \<Rightarrow> 'f \<Rightarrow> bool" where
  "fl_ge fl x y = fl_le fl y x"

definition fl_zero :: "'f float_lib \<Rightarrow> 'f" where
  "fl_zero fl = fl_of_int fl 0"

definition fl_one :: "'f float_lib \<Rightarrow> 'f" where
  "fl_one fl = fl_of_int fl 1"

lemmas fl_literals = fl_zero_def fl_one_def fl_greater_def fl_ge_def

text \<open>Integers in the place of floats: exact as long as the code divides without remainder. The witnesses use them.\<close>

definition int_floats :: "int float_lib" where
  "int_floats = \<lparr>fl_of_int = id, fl_add = (+), fl_sub = (-), fl_mul = (*), fl_div = (div), fl_less = (<), fl_le = (\<le>), fl_eq = (=),
     fl_int64 = id, fl_Mod = (mod), fl_Trunc = id, fl_Abs = abs, fl_Sqrt = id, fl_IsInf = (\<lambda>_. False), fl_ParseFloat = (\<lambda>s. Some (foldl (\<lambda>n b. 10 * n + (uint b - 48)) 0 s)),
     fl_FormatFloat = (\<lambda>_. [])\<rparr>"

end
