(* ===== verification/Downsample.thy ===== *)
theory Downsample
  imports Go_Floats Otlp_Types Card_Trackers "HOL-Library.AList" "HOL-Library.Monad_Syntax"
begin

text \<open>
  Downsampling: \<open>internal/sampling/downsample.go\<close>. Each of the four processors is a record with its \<open>ingest\<close> and \<open>flush\<close>; the Go interface
  \<open>seriesProcessor\<close> is the datatype of the four. A call returns the emitted points and the new state, or \<open>None\<close> where the code panics (a division by
  zero, an index out of range). Timestamps are 64-bit words. The engine keeps its 32 shards; the wall clock is an argument.
\<close>

section \<open>Configuration\<close>

datatype DownsampleMethod = DSAvg | DSMin | DSMax | DSSum | DSCount | DSLast | DSDelta | DSLTTB | DSSDT | DSAdaptive | DSOther gostring

text \<open>The conversion of a string to the string type \<open>DownsampleMethod\<close>.\<close>

definition ds_method :: "gostring \<Rightarrow> DownsampleMethod" where
  "ds_method s =
     (case map_of [(gostr ''avg'', DSAvg), (gostr ''min'', DSMin), (gostr ''max'', DSMax), (gostr ''sum'', DSSum), (gostr ''count'', DSCount),
                   (gostr ''last'', DSLast), (gostr ''delta'', DSDelta), (gostr ''lttb'', DSLTTB), (gostr ''sdt'', DSSDT), (gostr ''adaptive'', DSAdaptive)] s of
        Some m \<Rightarrow> m
      | None \<Rightarrow> DSOther s)"

fun validMethods :: "DownsampleMethod \<Rightarrow> bool" where
  "validMethods (DSOther _) = False"
| "validMethods _ = True"

record 'f DownsampleConfig =
  dc_Method :: DownsampleMethod
  dc_Window :: gostring
  dc_Resolution :: int
  dc_Deviation :: 'f
  dc_MinRate :: 'f
  dc_MaxRate :: 'f
  dc_VarianceWindow :: int
  parsedWindow :: int

datatype downsample_error = UnknownMethod DownsampleMethod | WindowRequired | WindowInvalid gostring | WindowNotPositive int | DeviationNotPositive

definition fl_tenth :: "'f float_lib \<Rightarrow> 'f" where
  "fl_tenth fl = fl_div fl (fl_one fl) (fl_of_int fl 10)"

definition parse_window :: "(gostring \<Rightarrow> int option) \<Rightarrow> 'f DownsampleConfig \<Rightarrow> (downsample_error, 'f DownsampleConfig) outcome" where
  "parse_window parseDuration dc =
     (if dc_Window dc = [] then Err WindowRequired
      else case parseDuration (dc_Window dc) of
             None \<Rightarrow> Err (WindowInvalid (dc_Window dc))
           | Some d \<Rightarrow> if d \<le> 0 then Err (WindowNotPositive d) else Ok (dc\<lparr>parsedWindow := d\<rparr>))"

definition adaptive_defaults :: "'f float_lib \<Rightarrow> 'f DownsampleConfig \<Rightarrow> 'f DownsampleConfig" where
  "adaptive_defaults fl dc =
     (let dc = (if fl_le fl (dc_MinRate dc) (fl_zero fl) then dc\<lparr>dc_MinRate := fl_tenth fl\<rparr> else dc);
          dc = (if fl_le fl (dc_MaxRate dc) (fl_zero fl) \<or> fl_greater fl (dc_MaxRate dc) (fl_one fl) then dc\<lparr>dc_MaxRate := fl_one fl\<rparr> else dc);
          dc = (if fl_greater fl (dc_MinRate dc) (dc_MaxRate dc) then dc\<lparr>dc_MinRate := dc_MaxRate dc\<rparr> else dc)
      in if dc_VarianceWindow dc \<le> 0 then dc\<lparr>dc_VarianceWindow := 20\<rparr> else dc)"

definition ds_validate :: "'f float_lib \<Rightarrow> (gostring \<Rightarrow> int option) \<Rightarrow> 'f DownsampleConfig \<Rightarrow> (downsample_error, 'f DownsampleConfig) outcome" where
  "ds_validate fl parseDuration dc =
     (if \<not> validMethods (dc_Method dc) then Err (UnknownMethod (dc_Method dc))
      else bind_outcome
        (if dc_Method dc = DSSDT then (if fl_le fl (dc_Deviation dc) (fl_zero fl) then Err DeviationNotPositive else Ok dc)
         else parse_window parseDuration dc)
        (\<lambda>dc. let dc = (if dc_Method dc = DSLTTB \<and> dc_Resolution dc \<le> 0 then dc\<lparr>dc_Resolution := 10\<rparr> else dc)
              in Ok (if dc_Method dc = DSAdaptive then adaptive_defaults fl dc else dc)))"

section \<open>Processors\<close>

record 'f emittedPoint =
  ep_timestamp :: u64
  ep_value :: 'f

subsection \<open>Aggregation within windows\<close>

record 'f aggProcessor =
  ap_method :: DownsampleMethod
  ap_windowNs :: u64
  ap_count :: int
  ap_sum :: 'f
  ap_min :: 'f
  ap_max :: 'f
  ap_last :: 'f
  ap_first :: 'f
  ap_windowEnd :: u64
  ap_hasData :: bool

definition newAggProcessor :: "'f float_lib \<Rightarrow> DownsampleMethod \<Rightarrow> int \<Rightarrow> 'f aggProcessor" where
  "newAggProcessor fl meth window =
     \<lparr>ap_method = meth, ap_windowNs = word_of_int window, ap_count = 0, ap_sum = fl_zero fl, ap_min = fl_zero fl, ap_max = fl_zero fl,
      ap_last = fl_zero fl, ap_first = fl_zero fl, ap_windowEnd = 0, ap_hasData = False\<rparr>"

definition agg_reset :: "'f float_lib \<Rightarrow> 'f aggProcessor \<Rightarrow> 'f aggProcessor" where
  "agg_reset fl a = a\<lparr>ap_count := 0, ap_sum := fl_zero fl, ap_min := fl_zero fl, ap_max := fl_zero fl, ap_last := fl_zero fl, ap_first := fl_zero fl,
     ap_hasData := False\<rparr>"

definition agg_aggregate :: "'f float_lib \<Rightarrow> 'f aggProcessor \<Rightarrow> 'f" where
  "agg_aggregate fl a =
     (case ap_method a of
        DSAvg \<Rightarrow> if ap_count a = 0 then fl_zero fl else fl_div fl (ap_sum a) (fl_of_int fl (ap_count a))
      | DSMin \<Rightarrow> ap_min a
      | DSMax \<Rightarrow> ap_max a
      | DSSum \<Rightarrow> ap_sum a
      | DSCount \<Rightarrow> fl_of_int fl (ap_count a)
      | DSLast \<Rightarrow> ap_last a
      | DSDelta \<Rightarrow> fl_sub fl (ap_last a) (ap_first a)
      | _ \<Rightarrow> ap_last a)"

text \<open>The two halves of \<open>ingest\<close>: closing the window that has ended, and adding the value to the open one.\<close>

definition agg_close :: "'f float_lib \<Rightarrow> u64 \<Rightarrow> 'f aggProcessor \<Rightarrow> 'f emittedPoint list \<times> 'f aggProcessor" where
  "agg_close fl windowEnd a =
     (if ap_hasData a \<and> windowEnd \<noteq> ap_windowEnd a
      then ([\<lparr>ep_timestamp = ap_windowEnd a - 1, ep_value = agg_aggregate fl a\<rparr>], agg_reset fl a)
      else ([], a))"

definition agg_add :: "'f float_lib \<Rightarrow> u64 \<Rightarrow> 'f \<Rightarrow> 'f aggProcessor \<Rightarrow> 'f aggProcessor" where
  "agg_add fl windowEnd v a =
     (let a = (if \<not> ap_hasData a then a\<lparr>ap_windowEnd := windowEnd, ap_first := v, ap_min := v, ap_max := v, ap_hasData := True\<rparr> else a);
          a = a\<lparr>ap_count := ap_count a + 1, ap_sum := fl_add fl (ap_sum a) v\<rparr>;
          a = (if fl_less fl v (ap_min a) then a\<lparr>ap_min := v\<rparr> else a);
          a = (if fl_greater fl v (ap_max a) then a\<lparr>ap_max := v\<rparr> else a)
      in a\<lparr>ap_last := v\<rparr>)"

definition agg_ingest :: "'f float_lib \<Rightarrow> u64 \<Rightarrow> 'f \<Rightarrow> 'f aggProcessor \<Rightarrow> ('f emittedPoint list \<times> 'f aggProcessor) option" where
  "agg_ingest fl ts v a =
     (if ap_windowNs a = 0 then None
      else let windowStart = (ts div ap_windowNs a) * ap_windowNs a;
               windowEnd = windowStart + ap_windowNs a;
               (emitted, a) = agg_close fl windowEnd a
           in Some (emitted, agg_add fl windowEnd v a))"

definition agg_flush :: "'f float_lib \<Rightarrow> 'f aggProcessor \<Rightarrow> 'f emittedPoint list \<times> 'f aggProcessor" where
  "agg_flush fl a =
     (if \<not> ap_hasData a then ([], a)
      else ([\<lparr>ep_timestamp = ap_windowEnd a - 1, ep_value = agg_aggregate fl a\<rparr>], agg_reset fl a))"

subsection \<open>Largest triangle three buckets\<close>

record 'f lttbProcessor =
  lt_bucketDur :: u64
  lt_prevSelected :: "'f emittedPoint option"
  lt_currentBucket :: "'f emittedPoint list"
  lt_currentStart :: u64
  lt_initialized :: bool

definition newLTTBProcessor :: "int \<Rightarrow> int \<Rightarrow> 'f lttbProcessor" where
  "newLTTBProcessor window resolution =
     (let resolution = (if resolution \<le> 0 then 10 else resolution);
          bucketDur = (word_of_int window :: u64) div word_of_int resolution;
          bucketDur = (if bucketDur = 0 then 1000000000 else bucketDur)
      in \<lparr>lt_bucketDur = bucketDur, lt_prevSelected = None, lt_currentBucket = [], lt_currentStart = 0, lt_initialized = False\<rparr>)"

text \<open>The search for the first point with the largest score, which starts from the score \<open>-1\<close>.\<close>

fun best_index :: "'f float_lib \<Rightarrow> ('p \<Rightarrow> 'f) \<Rightarrow> nat \<Rightarrow> 'f \<Rightarrow> nat \<Rightarrow> 'p list \<Rightarrow> nat" where
  "best_index fl score i best bestIdx [] = bestIdx"
| "best_index fl score i best bestIdx (p # ps) =
     (if fl_greater fl (score p) best then best_index fl score (i + 1) (score p) i ps else best_index fl score (i + 1) best bestIdx ps)"

definition nth_point :: "'p list \<Rightarrow> nat \<Rightarrow> 'p option" where
  "nth_point ps i = (if i < length ps then Some (ps ! i) else None)"

definition triangle_area :: "'f float_lib \<Rightarrow> 'f emittedPoint \<Rightarrow> 'f \<Rightarrow> 'f \<Rightarrow> 'f emittedPoint \<Rightarrow> 'f" where
  "triangle_area fl prev avgTs avgVal p =
     fl_mul fl (fl_Abs fl
       (fl_add fl (fl_add fl
          (fl_mul fl (fl_of_int fl (uint (ep_timestamp prev))) (fl_sub fl (ep_value p) avgVal))
          (fl_mul fl (fl_of_int fl (uint (ep_timestamp p))) (fl_sub fl avgVal (ep_value prev))))
          (fl_mul fl avgTs (fl_sub fl (ep_value prev) (ep_value p)))))
       (fl_div fl (fl_one fl) (fl_of_int fl 2))"

definition selectBest :: "'f float_lib \<Rightarrow> 'f lttbProcessor \<Rightarrow> 'f emittedPoint option" where
  "selectBest fl l =
     (let bucket = lt_currentBucket l in
      if length bucket = 1 then Some (hd bucket)
      else let n = fl_of_int fl (int (length bucket));
               avgTs = fl_div fl (foldl (\<lambda>s p. fl_add fl s (fl_of_int fl (uint (ep_timestamp p)))) (fl_zero fl) bucket) n;
               avgVal = fl_div fl (foldl (\<lambda>s p. fl_add fl s (ep_value p)) (fl_zero fl) bucket) n
           in nth_point bucket
                (case lt_prevSelected l of
                   None \<Rightarrow> best_index fl (\<lambda>p. fl_Abs fl (fl_sub fl (ep_value p) avgVal)) 0 (fl_of_int fl (-1)) 0 bucket
                 | Some prev \<Rightarrow> best_index fl (triangle_area fl prev avgTs avgVal) 0 (fl_of_int fl (-1)) 0 bucket))"

definition lttb_ingest :: "'f float_lib \<Rightarrow> u64 \<Rightarrow> 'f \<Rightarrow> 'f lttbProcessor \<Rightarrow> ('f emittedPoint list \<times> 'f lttbProcessor) option" where
  "lttb_ingest fl ts v l =
     (if lt_bucketDur l = 0 then None
      else let point = \<lparr>ep_timestamp = ts, ep_value = v\<rparr>;
               bucketStart = (ts div lt_bucketDur l) * lt_bucketDur l
           in if \<not> lt_initialized l then
                Some ([], l\<lparr>lt_currentStart := bucketStart, lt_currentBucket := [point], lt_initialized := True\<rparr>)
              else if bucketStart = lt_currentStart l then
                Some ([], l\<lparr>lt_currentBucket := lt_currentBucket l @ [point]\<rparr>)
              else map_option (\<lambda>selected.
                     (case lt_prevSelected l of Some p \<Rightarrow> [p] | None \<Rightarrow> [],
                      l\<lparr>lt_prevSelected := Some selected, lt_currentBucket := [point], lt_currentStart := bucketStart\<rparr>)) (selectBest fl l))"

definition lttb_flush :: "'f float_lib \<Rightarrow> 'f lttbProcessor \<Rightarrow> ('f emittedPoint list \<times> 'f lttbProcessor) option" where
  "lttb_flush fl l =
     (let result = (case lt_prevSelected l of Some p \<Rightarrow> [p] | None \<Rightarrow> []);
          l = l\<lparr>lt_prevSelected := None\<rparr>
      in if lt_currentBucket l \<noteq> []
         then map_option (\<lambda>selected. (result @ [selected], l\<lparr>lt_currentBucket := [], lt_initialized := False\<rparr>)) (selectBest fl l)
         else Some (result, l\<lparr>lt_initialized := False\<rparr>))"

subsection \<open>Swinging door trending\<close>

record 'f sdtProcessor =
  sd_deviation :: 'f
  sd_lastEmitted :: "'f emittedPoint option"
  sd_lastPoint :: "'f emittedPoint option"
  sd_upperSlope :: 'f
  sd_lowerSlope :: 'f
  sd_doorOpen :: bool

definition newSDTProcessor :: "'f float_lib \<Rightarrow> 'f \<Rightarrow> 'f sdtProcessor" where
  "newSDTProcessor fl deviation =
     \<lparr>sd_deviation = (if fl_le fl deviation (fl_zero fl) then fl_one fl else deviation), sd_lastEmitted = None, sd_lastPoint = None,
      sd_upperSlope = fl_zero fl, sd_lowerSlope = fl_zero fl, sd_doorOpen = False\<rparr>"

definition sdt_upper :: "'f float_lib \<Rightarrow> 'f sdtProcessor \<Rightarrow> 'f \<Rightarrow> 'f emittedPoint \<Rightarrow> 'f \<Rightarrow> 'f" where
  "sdt_upper fl s v ref dt = fl_div fl (fl_add fl (fl_sub fl v (ep_value ref)) (sd_deviation s)) dt"

definition sdt_lower :: "'f float_lib \<Rightarrow> 'f sdtProcessor \<Rightarrow> 'f \<Rightarrow> 'f emittedPoint \<Rightarrow> 'f \<Rightarrow> 'f" where
  "sdt_lower fl s v ref dt = fl_div fl (fl_sub fl (fl_sub fl v (ep_value ref)) (sd_deviation s)) dt"

text \<open>The distance of two timestamps, an unsigned difference, as a float.\<close>

definition time_diff :: "'f float_lib \<Rightarrow> u64 \<Rightarrow> u64 \<Rightarrow> 'f" where
  "time_diff fl t t0 = fl_of_int fl (uint (t - t0))"

definition sdt_narrow :: "'f float_lib \<Rightarrow> 'f \<Rightarrow> 'f emittedPoint \<Rightarrow> 'f \<Rightarrow> 'f sdtProcessor \<Rightarrow> 'f sdtProcessor" where
  "sdt_narrow fl v ref dt s =
     (let s = (let newUpper = sdt_upper fl s v ref dt in if fl_less fl newUpper (sd_upperSlope s) then s\<lparr>sd_upperSlope := newUpper\<rparr> else s)
      in (let newLower = sdt_lower fl s v ref dt in if fl_greater fl newLower (sd_lowerSlope s) then s\<lparr>sd_lowerSlope := newLower\<rparr> else s))"

definition sdt_reopen :: "'f float_lib \<Rightarrow> u64 \<Rightarrow> 'f \<Rightarrow> 'f emittedPoint \<Rightarrow> 'f sdtProcessor \<Rightarrow> 'f sdtProcessor" where
  "sdt_reopen fl ts v ref s =
     (let s = s\<lparr>sd_lastEmitted := Some ref, sd_doorOpen := False\<rparr>; dt2 = time_diff fl ts (ep_timestamp ref)
      in if fl_greater fl dt2 (fl_zero fl)
         then s\<lparr>sd_upperSlope := sdt_upper fl s v ref dt2, sd_lowerSlope := sdt_lower fl s v ref dt2, sd_doorOpen := True\<rparr>
         else s)"

definition sdt_ingest :: "'f float_lib \<Rightarrow> u64 \<Rightarrow> 'f \<Rightarrow> 'f sdtProcessor \<Rightarrow> ('f emittedPoint list \<times> 'f sdtProcessor) option" where
  "sdt_ingest fl ts v s =
     (let point = \<lparr>ep_timestamp = ts, ep_value = v\<rparr> in
      case sd_lastEmitted s of
        None \<Rightarrow> Some ([point], s\<lparr>sd_lastEmitted := Some point, sd_lastPoint := Some point\<rparr>)
      | Some ref \<Rightarrow>
          if ts \<le> ep_timestamp ref then Some ([], s)
          else let dt = time_diff fl ts (ep_timestamp ref)
               in if \<not> sd_doorOpen s then
                    Some ([], s\<lparr>sd_upperSlope := sdt_upper fl s v ref dt, sd_lowerSlope := sdt_lower fl s v ref dt, sd_doorOpen := True,
                               sd_lastPoint := Some point\<rparr>)
                  else let s = sdt_narrow fl v ref dt s
                       in if fl_less fl (sd_upperSlope s) (sd_lowerSlope s) then
                            map_option (\<lambda>p. ([p], (sdt_reopen fl ts v p s)\<lparr>sd_lastPoint := Some point\<rparr>)) (sd_lastPoint s)
                          else Some ([], s\<lparr>sd_lastPoint := Some point\<rparr>))"

definition sdt_flush :: "'f sdtProcessor \<Rightarrow> 'f emittedPoint list" where
  "sdt_flush s =
     (case (sd_lastPoint s, sd_lastEmitted s) of
        (Some p, Some e) \<Rightarrow> if ep_timestamp p \<noteq> ep_timestamp e then [p] else []
      | _ \<Rightarrow> [])"

subsection \<open>Adaptive rate\<close>

record 'f adaptiveProcessor =
  ad_minRate :: 'f
  ad_maxRate :: 'f
  ad_varianceWindow :: int
  ad_values :: "'f list"
  ad_valIdx :: int
  ad_valFull :: bool
  ad_keepRate :: 'f
  ad_ops :: int

definition newAdaptiveProcessor :: "'f float_lib \<Rightarrow> 'f \<Rightarrow> 'f \<Rightarrow> int \<Rightarrow> 'f adaptiveProcessor" where
  "newAdaptiveProcessor fl minRate maxRate varianceWindow =
     (let minRate = (if fl_le fl minRate (fl_zero fl) then fl_tenth fl else minRate);
          maxRate = (if fl_le fl maxRate (fl_zero fl) \<or> fl_greater fl maxRate (fl_one fl) then fl_one fl else maxRate);
          minRate = (if fl_greater fl minRate maxRate then maxRate else minRate);
          varianceWindow = (if varianceWindow \<le> 0 then 20 else varianceWindow)
      in \<lparr>ad_minRate = minRate, ad_maxRate = maxRate, ad_varianceWindow = varianceWindow, ad_values = replicate (nat varianceWindow) (fl_zero fl),
          ad_valIdx = 0, ad_valFull = False, ad_keepRate = maxRate, ad_ops = 0\<rparr>)"

definition adjustRate :: "'f float_lib \<Rightarrow> 'f adaptiveProcessor \<Rightarrow> 'f adaptiveProcessor" where
  "adjustRate fl a =
     (let count = (if ad_valFull a then ad_varianceWindow a else ad_valIdx a) in
      if count < 2 then a\<lparr>ad_keepRate := ad_maxRate a\<rparr>
      else let vs = take (nat count) (ad_values a);
               mean = fl_div fl (foldl (fl_add fl) (fl_zero fl) vs) (fl_of_int fl count);
               variance = fl_div fl (foldl (\<lambda>s v. let d = fl_sub fl v mean in fl_add fl s (fl_mul fl d d)) (fl_zero fl) vs) (fl_of_int fl count);
               cv = (if fl_eq fl mean (fl_zero fl) then fl_zero fl else fl_div fl (fl_Sqrt fl variance) (fl_Abs fl mean))
           in a\<lparr>ad_keepRate := (if fl_ge fl cv (fl_one fl) then ad_maxRate a
                               else fl_add fl (ad_minRate a) (fl_mul fl cv (fl_sub fl (ad_maxRate a) (ad_minRate a))))\<rparr>)"

text \<open>One in \<open>int64(1.0 / rate)\<close>, and always for a quotient that is not positive.\<close>

definition one_in :: "'f float_lib \<Rightarrow> 'f \<Rightarrow> int" where
  "one_in fl rate = (let n = fl_int64 fl (fl_div fl (fl_one fl) rate) in if n \<le> 0 then 1 else n)"

definition adaptive_ingest :: "'f float_lib \<Rightarrow> u64 \<Rightarrow> 'f \<Rightarrow> 'f adaptiveProcessor \<Rightarrow> ('f emittedPoint list \<times> 'f adaptiveProcessor) option" where
  "adaptive_ingest fl ts v a =
     (if ad_valIdx a < 0 \<or> ad_valIdx a \<ge> int (length (ad_values a)) \<or> ad_varianceWindow a = 0 then None
      else let a = a\<lparr>ad_values := (ad_values a)[nat (ad_valIdx a) := v], ad_valIdx := (ad_valIdx a + 1) mod ad_varianceWindow a\<rparr>;
               a = (if ad_valIdx a = 0 then a\<lparr>ad_valFull := True\<rparr> else a);
               a = adjustRate fl a;
               a = a\<lparr>ad_ops := ad_ops a + 1\<rparr>
           in Some (if ad_ops a mod one_in fl (ad_keepRate a) = 0 then [\<lparr>ep_timestamp = ts, ep_value = v\<rparr>] else [], a))"

section \<open>The interface and the engine\<close>

datatype 'f seriesProcessor = AggP "'f aggProcessor" | LttbP "'f lttbProcessor" | SdtP "'f sdtProcessor" | AdaptiveP "'f adaptiveProcessor"

fun sp_ingest :: "'f float_lib \<Rightarrow> u64 \<Rightarrow> 'f \<Rightarrow> 'f seriesProcessor \<Rightarrow> ('f emittedPoint list \<times> 'f seriesProcessor) option" where
  "sp_ingest fl ts v (AggP a) = map_option (apsnd AggP) (agg_ingest fl ts v a)"
| "sp_ingest fl ts v (LttbP l) = map_option (apsnd LttbP) (lttb_ingest fl ts v l)"
| "sp_ingest fl ts v (SdtP s) = map_option (apsnd SdtP) (sdt_ingest fl ts v s)"
| "sp_ingest fl ts v (AdaptiveP a) = map_option (apsnd AdaptiveP) (adaptive_ingest fl ts v a)"

fun sp_flush :: "'f float_lib \<Rightarrow> 'f seriesProcessor \<Rightarrow> ('f emittedPoint list \<times> 'f seriesProcessor) option" where
  "sp_flush fl (AggP a) = Some (apsnd AggP (agg_flush fl a))"
| "sp_flush fl (LttbP l) = map_option (apsnd LttbP) (lttb_flush fl l)"
| "sp_flush fl (SdtP s) = Some (sdt_flush s, SdtP s)"
| "sp_flush fl (AdaptiveP a) = Some ([], AdaptiveP a)"

fun createProcessor :: "'f float_lib \<Rightarrow> 'f DownsampleConfig \<Rightarrow> 'f seriesProcessor" where
  "createProcessor fl cfg =
     (case dc_Method cfg of
        DSLTTB \<Rightarrow> LttbP (newLTTBProcessor (parsedWindow cfg) (dc_Resolution cfg))
      | DSSDT \<Rightarrow> SdtP (newSDTProcessor fl (dc_Deviation cfg))
      | DSAdaptive \<Rightarrow> AdaptiveP (newAdaptiveProcessor fl (dc_MinRate cfg) (dc_MaxRate cfg) (dc_VarianceWindow cfg))
      | DSOther _ \<Rightarrow> AggP (newAggProcessor fl DSLast (parsedWindow cfg))
      | m \<Rightarrow> AggP (newAggProcessor fl m (parsedWindow cfg)))"

record 'f downsampleShard =
  sh_series :: "(gostring \<times> 'f seriesProcessor) list"
  sh_lastSeen :: "(gostring \<times> int) list"

record 'f downsampleEngine =
  de_shards :: "'f downsampleShard list"
  de_cleanupCtr :: int

definition dsShardCount :: nat where
  "dsShardCount = 32"

definition empty_shard :: "'f downsampleShard" where
  "empty_shard = \<lparr>sh_series = [], sh_lastSeen = []\<rparr>"

definition newDownsampleEngine :: "'f downsampleEngine" where
  "newDownsampleEngine = \<lparr>de_shards = replicate dsShardCount empty_shard, de_cleanupCtr = 0\<rparr>"

definition fnvShard :: "gostring \<Rightarrow> nat" where
  "fnvShard key = unat (fnv32a key AND (word_of_nat dsShardCount - 1))"

definition cleanup_shard :: "int \<Rightarrow> int \<Rightarrow> 'f downsampleShard \<Rightarrow> 'f downsampleShard" where
  "cleanup_shard staleDuration now sh =
     (let stale = map fst (filter (\<lambda>(_, seen). now - seen > staleDuration) (sh_lastSeen sh))
      in sh\<lparr>sh_series := filter (\<lambda>(k, _). k \<notin> set stale) (sh_series sh), sh_lastSeen := filter (\<lambda>(k, _). k \<notin> set stale) (sh_lastSeen sh)\<rparr>)"

definition cleanupAll :: "int \<Rightarrow> int \<Rightarrow> 'f downsampleEngine \<Rightarrow> 'f downsampleEngine" where
  "cleanupAll staleDuration now de = de\<lparr>de_shards := map (cleanup_shard staleDuration now) (de_shards de)\<rparr>"

definition ds_stale :: int where
  "ds_stale = 10 * 60 * 1000000000"

definition shard_ingest ::
    "'f float_lib \<Rightarrow> int \<Rightarrow> gostring \<Rightarrow> 'f DownsampleConfig \<Rightarrow> u64 \<Rightarrow> 'f \<Rightarrow> 'f downsampleShard \<Rightarrow> ('f emittedPoint list \<times> 'f downsampleShard) option" where
  "shard_ingest fl now seriesKey cfg ts v sh =
     (let proc = (case map_of (sh_series sh) seriesKey of Some p \<Rightarrow> p | None \<Rightarrow> createProcessor fl cfg)
      in map_option (\<lambda>(result, proc). (result, sh\<lparr>sh_series := AList.update seriesKey proc (sh_series sh),
           sh_lastSeen := AList.update seriesKey now (sh_lastSeen sh)\<rparr>)) (sp_ingest fl ts v proc))"

definition ingestAndEmit ::
    "'f float_lib \<Rightarrow> int \<Rightarrow> gostring \<Rightarrow> 'f DownsampleConfig \<Rightarrow> u64 \<Rightarrow> 'f \<Rightarrow> 'f downsampleEngine \<Rightarrow> ('f emittedPoint list \<times> 'f downsampleEngine) option" where
  "ingestAndEmit fl now seriesKey cfg ts v de = do {
     let i = fnvShard seriesKey;
     (result, sh) \<leftarrow> shard_ingest fl now seriesKey cfg ts v (de_shards de ! i);
     let de = de\<lparr>de_shards := (de_shards de)[i := sh], de_cleanupCtr := de_cleanupCtr de + 1\<rparr>;
     Some (result, if de_cleanupCtr de mod 10000 = 0 then cleanupAll ds_stale now de else de)}"

fun flush_shard :: "'f float_lib \<Rightarrow> (gostring \<times> 'f seriesProcessor) list \<Rightarrow> (gostring \<times> 'f emittedPoint list) list option" where
  "flush_shard fl [] = Some []"
| "flush_shard fl ((k, p) # ps) = do {
     (pts, _) \<leftarrow> sp_flush fl p;
     rest \<leftarrow> flush_shard fl ps;
     Some (if pts \<noteq> [] then (k, pts) # rest else rest)}"

definition ds_flushAll :: "'f float_lib \<Rightarrow> 'f downsampleEngine \<Rightarrow> ((gostring \<times> 'f emittedPoint list) list \<times> 'f downsampleEngine) option" where
  "ds_flushAll fl de =
     map_option (\<lambda>result. (result, de\<lparr>de_shards := map (\<lambda>_. empty_shard) (de_shards de)\<rparr>)) (flush_shard fl (concat (map sh_series (de_shards de))))"

definition ds_seriesCount :: "'f downsampleEngine \<Rightarrow> nat" where
  "ds_seriesCount de = sum_list (map (\<lambda>sh. length (sh_series sh)) (de_shards de))"

section \<open>Data points\<close>

datatype 'f number_value = AsDouble 'f | AsInt int | NoValue

definition getNumberValue :: "'f float_lib \<Rightarrow> 'f number_value \<Rightarrow> 'f" where
  "getNumberValue fl v = (case v of AsDouble d \<Rightarrow> d | AsInt n \<Rightarrow> fl_of_int fl n | NoValue \<Rightarrow> fl_zero fl)"

text \<open>Attributes are sorted by key; the order of equal keys is left open by \<open>sort.Slice\<close>, here it is the given one.\<close>

definition buildDSSeriesKey :: "gostring \<Rightarrow> KeyValue list \<Rightarrow> gostring" where
  "buildDSSeriesKey metricName as =
     (if as = [] then metricName
      else foldl (\<lambda>b kv. b @ gostr ''|'' @ kv_Key kv @ gostr ''='' @ GetStringValue (kv_Value kv)) metricName (sort_key kv_Key as))"

end
