(* ===== verification/Downsample_Correct.thy ===== *)
theory Downsample_Correct
  imports Downsample
begin

text \<open>
  What downsampling guarantees. The locale \<open>series_processor\<close> is the contract of the Go interface of that name: a call never panics and never makes more
  points than it was given; \<open>point_selector\<close> adds that the points emitted are points that came in. The windows of the aggregating processor are
  compared with a grouping of the input, and the engine with its shards is refined from one map.
\<close>

section \<open>The contract of a processor\<close>

fun ingest_all :: "(u64 \<Rightarrow> 'f \<Rightarrow> 's \<Rightarrow> ('f emittedPoint list \<times> 's) option) \<Rightarrow> (u64 \<times> 'f) list \<Rightarrow> 's \<Rightarrow> ('f emittedPoint list \<times> 's) option" where
  "ingest_all ingest [] s = Some ([], s)"
| "ingest_all ingest ((ts, v) # pts) s = do {
     (out, s) \<leftarrow> ingest ts v s;
     (rest, s) \<leftarrow> ingest_all ingest pts s;
     Some (out @ rest, s)}"

locale series_processor =
  fixes ingest :: "u64 \<Rightarrow> 'f \<Rightarrow> 's \<Rightarrow> ('f emittedPoint list \<times> 's) option"
    and flush :: "'s \<Rightarrow> ('f emittedPoint list \<times> 's) option"
    and pending :: "'s \<Rightarrow> nat"
    and inv :: "'s \<Rightarrow> bool"
  assumes ingest_step: "inv s \<Longrightarrow> \<exists>out s'. ingest ts v s = Some (out, s') \<and> inv s' \<and> length out \<le> 1 \<and> length out + pending s' \<le> pending s + 1"
    and flush_step: "inv s \<Longrightarrow> \<exists>out s'. flush s = Some (out, s') \<and> length out \<le> pending s"
begin

lemma ingest_all_bounded:
  "inv s \<Longrightarrow> \<exists>out s'. ingest_all ingest pts s = Some (out, s') \<and> inv s' \<and> length out + pending s' \<le> pending s + length pts"
proof (induction pts arbitrary: s)
  case (Cons p pts)
  obtain ts v where p: "p = (ts, v)" by fastforce
  obtain out s1 where 1: "ingest ts v s = Some (out, s1)" "inv s1" "length out + pending s1 \<le> pending s + 1"
    using ingest_step [OF Cons.prems, of ts v] by blast
  obtain rest s2 where 2: "ingest_all ingest pts s1 = Some (rest, s2)" "inv s2" "length rest + pending s2 \<le> pending s1 + length pts"
    using Cons.IH [OF 1(2)] by blast
  show ?case using 1 2 by (simp add: p)
qed simp

lemma never_more_points:
  assumes "inv s"
  obtains out s' rest s'' where "ingest_all ingest pts s = Some (out, s')" "flush s' = Some (rest, s'')" "length (out @ rest) \<le> pending s + length pts"
proof -
  obtain out s' where 1: "ingest_all ingest pts s = Some (out, s')" "inv s'" "length out + pending s' \<le> pending s + length pts"
    using ingest_all_bounded [OF assms] by blast
  obtain rest s'' where 2: "flush s' = Some (rest, s'')" "length rest \<le> pending s'"
    using flush_step [OF 1(2)] by blast
  show ?thesis by (rule that [OF 1(1) 2(1)]) (use 1(3) 2(2) in simp)
qed

end

locale point_selector = series_processor ingest flush pending inv
  for ingest :: "u64 \<Rightarrow> 'f \<Rightarrow> 's \<Rightarrow> ('f emittedPoint list \<times> 's) option" and flush pending inv +
  fixes held :: "'s \<Rightarrow> 'f emittedPoint set"
  assumes ingest_selects: "ingest ts v s = Some (out, s') \<Longrightarrow> set out \<union> held s' \<subseteq> insert \<lparr>ep_timestamp = ts, ep_value = v\<rparr> (held s)"
    and flush_selects: "flush s = Some (out, s') \<Longrightarrow> set out \<subseteq> held s"
begin

lemma emits_ingested:
  "ingest_all ingest pts s = Some (out, s') \<Longrightarrow> set out \<union> held s' \<subseteq> (\<lambda>(ts, v). \<lparr>ep_timestamp = ts, ep_value = v\<rparr>) ` set pts \<union> held s"
proof (induction pts arbitrary: s out)
  case (Cons p pts)
  obtain ts v where p: "p = (ts, v)" by fastforce
  obtain o1 s1 o2 where 1: "ingest ts v s = Some (o1, s1)" "ingest_all ingest pts s1 = Some (o2, s')" "out = o1 @ o2"
    using Cons.prems by (auto simp: p split: bind_splits)
  show ?case using ingest_selects [OF 1(1)] Cons.IH [OF 1(2)] by (auto simp: p 1(3))
qed simp

end

section \<open>The four processors\<close>

definition agg_pending :: "'f aggProcessor \<Rightarrow> nat" where
  "agg_pending a = (if ap_hasData a then 1 else 0)"

lemma agg_add_hasData [simp]: "ap_hasData (agg_add fl e v a)" "ap_windowNs (agg_add fl e v a) = ap_windowNs a" "ap_method (agg_add fl e v a) = ap_method a"
  by (simp_all add: agg_add_def Let_def)

lemma agg_reset_fields [simp]: "ap_windowNs (agg_reset fl a) = ap_windowNs a" "ap_method (agg_reset fl a) = ap_method a" "\<not> ap_hasData (agg_reset fl a)"
  by (simp_all add: agg_reset_def)

interpretation agg: series_processor "agg_ingest fl" "\<lambda>a. Some (agg_flush fl a)" agg_pending "\<lambda>a. ap_windowNs a \<noteq> 0" for fl
  by unfold_locales (auto simp: agg_ingest_def agg_close_def agg_flush_def agg_pending_def Let_def)

definition lttb_inv :: "'f lttbProcessor \<Rightarrow> bool" where
  "lttb_inv l \<longleftrightarrow> lt_bucketDur l \<noteq> 0 \<and> (lt_initialized l \<longrightarrow> lt_currentBucket l \<noteq> [])"

definition lttb_pending :: "'f lttbProcessor \<Rightarrow> nat" where
  "lttb_pending l = (if lt_prevSelected l = None then 0 else 1) + (if lt_currentBucket l = [] then 0 else 1)"

definition lttb_held :: "'f lttbProcessor \<Rightarrow> 'f emittedPoint set" where
  "lttb_held l = set_option (lt_prevSelected l) \<union> set (lt_currentBucket l)"

lemma best_index_bound: "bestIdx < i + length ps \<Longrightarrow> best_index fl score i best bestIdx ps < i + length ps"
proof (induction ps arbitrary: i best bestIdx)
  case (Cons p ps)
  then show ?case using Cons.IH [of i "Suc i" "score p"] Cons.IH [of bestIdx "Suc i" best] by simp
qed simp

lemma selectBest_runs: "lt_currentBucket l \<noteq> [] \<Longrightarrow> \<exists>p \<in> set (lt_currentBucket l). selectBest fl l = Some p"
  by (auto simp: selectBest_def Let_def nth_point_def best_index_bound [where i = 0, simplified] split: option.split)

lemma nth_point_member: "nth_point ps i = Some p \<Longrightarrow> p \<in> set ps"
  by (auto simp: nth_point_def split: if_splits)

lemma selectBest_member: "selectBest fl l = Some p \<Longrightarrow> p \<in> set (lt_currentBucket l)"
proof (cases "length (lt_currentBucket l) = 1")
  case True
  assume "selectBest fl l = Some p"
  with True show ?thesis by (cases "lt_currentBucket l") (auto simp: selectBest_def Let_def)
qed (auto simp: selectBest_def Let_def dest: nth_point_member)

lemma lttb_step:
  assumes "lttb_inv l"
  shows "\<exists>out l'. lttb_ingest fl ts v l = Some (out, l') \<and> lttb_inv l' \<and> length out \<le> 1 \<and> length out + lttb_pending l' \<le> lttb_pending l + 1"
proof (cases "lt_initialized l \<and> (ts div lt_bucketDur l) * lt_bucketDur l \<noteq> lt_currentStart l")
  case True
  then obtain p where "selectBest fl l = Some p" "lt_currentBucket l \<noteq> []"
    using assms selectBest_runs [of l fl] by (auto simp: lttb_inv_def)
  with True assms show ?thesis
    by (cases "lt_prevSelected l") (simp_all add: lttb_ingest_def lttb_inv_def lttb_pending_def Let_def)
next
  case False
  with assms show ?thesis
    by (cases "lt_initialized l") (simp_all add: lttb_ingest_def lttb_inv_def lttb_pending_def Let_def)
qed

interpretation lttb: point_selector "lttb_ingest fl" "lttb_flush fl" lttb_pending lttb_inv lttb_held for fl
proof (unfold_locales, goal_cases)
  case (1 s ts v)
  then show ?case by (rule lttb_step)
next
  case (2 s)
  then show ?case
    using selectBest_runs [of "s\<lparr>lt_prevSelected := None\<rparr>" fl] by (auto simp: lttb_flush_def lttb_inv_def lttb_pending_def Let_def split: option.splits)
next
  case (3 ts v s out s')
  then show ?case
    using selectBest_member [of fl s] by (auto simp: lttb_ingest_def lttb_held_def Let_def split: if_splits option.splits)
next
  case (4 s out s')
  then show ?case
    using selectBest_member [of fl "s\<lparr>lt_prevSelected := None\<rparr>"] by (auto simp: lttb_flush_def lttb_held_def Let_def split: if_splits option.splits)
qed

definition sdt_inv :: "'f float_lib \<Rightarrow> 'f sdtProcessor \<Rightarrow> bool" where
  "sdt_inv fl s \<longleftrightarrow> \<not> fl_less fl (fl_zero fl) (fl_zero fl) \<and> (sd_lastEmitted s = None \<longleftrightarrow> sd_lastPoint s = None)
     \<and> (sd_doorOpen s \<longrightarrow> sdt_flush s \<noteq> [])"

definition sdt_held :: "'f sdtProcessor \<Rightarrow> 'f emittedPoint set" where
  "sdt_held s = set_option (sd_lastPoint s)"

lemma sdt_narrow_fields [simp]:
  "sd_lastEmitted (sdt_narrow fl v ref dt s) = sd_lastEmitted s" "sd_lastPoint (sdt_narrow fl v ref dt s) = sd_lastPoint s"
  "sd_doorOpen (sdt_narrow fl v ref dt s) = sd_doorOpen s"
  by (simp_all add: sdt_narrow_def Let_def)

lemma sdt_reopen_fields [simp]: "sd_lastEmitted (sdt_reopen fl ts v ref s) = Some ref" "sd_lastPoint (sdt_reopen fl ts v ref s) = sd_lastPoint s"
  by (simp_all add: sdt_reopen_def Let_def)

lemma sdt_reopen_door:
  "\<not> fl_less fl (fl_zero fl) (fl_zero fl) \<Longrightarrow> sd_doorOpen (sdt_reopen fl ts v ref s) \<Longrightarrow> ts \<noteq> ep_timestamp ref"
  by (auto simp: sdt_reopen_def Let_def time_diff_def fl_greater_def fl_zero_def)

lemma sdt_flush_length: "length (sdt_flush s) \<le> 1"
  by (simp add: sdt_flush_def split: option.split)

lemma sdt_step:
  assumes "sdt_inv fl s"
  shows "\<exists>out s'. sdt_ingest fl ts v s = Some (out, s') \<and> sdt_inv fl s' \<and> length out \<le> 1 \<and> length out + length (sdt_flush s') \<le> length (sdt_flush s) + 1"
proof (cases "sd_lastEmitted s")
  case None
  then show ?thesis using assms by (auto simp: sdt_ingest_def sdt_inv_def sdt_flush_def Let_def)
next
  case (Some ref)
  then obtain p where p: "sd_lastPoint s = Some p" using assms by (auto simp: sdt_inv_def)
  show ?thesis
  proof (cases "ts \<le> ep_timestamp ref")
    case True
    then show ?thesis using assms Some by (simp add: sdt_ingest_def Let_def)
  next
    case False
    then have ne: "ts \<noteq> ep_timestamp ref" by auto
    have "sd_doorOpen s \<Longrightarrow> length (sdt_flush s) = 1"
      using assms sdt_flush_length [of s] by (auto simp: sdt_inv_def le_Suc_eq)
    then show ?thesis
      using assms Some p False ne sdt_reopen_door [of fl ts v p] sdt_flush_length
      by (auto simp: sdt_ingest_def sdt_inv_def sdt_flush_def Let_def)
  qed
qed

interpretation sdt: point_selector "sdt_ingest fl" "\<lambda>s. Some (sdt_flush s, s)" "\<lambda>s. length (sdt_flush s)" "sdt_inv fl" sdt_held for fl
proof (unfold_locales, goal_cases)
  case (1 s ts v)
  then show ?case by (rule sdt_step)
next
  case (3 ts v s out s')
  then show ?case by (auto simp: sdt_ingest_def sdt_held_def Let_def split: if_splits option.splits)
qed (auto simp: sdt_flush_def sdt_held_def split: option.splits if_splits)

definition adaptive_inv :: "'f adaptiveProcessor \<Rightarrow> bool" where
  "adaptive_inv a \<longleftrightarrow> 0 < ad_varianceWindow a \<and> length (ad_values a) = nat (ad_varianceWindow a) \<and> 0 \<le> ad_valIdx a \<and> ad_valIdx a < ad_varianceWindow a"

lemma adjustRate_fields [simp]:
  "ad_varianceWindow (adjustRate fl a) = ad_varianceWindow a" "ad_values (adjustRate fl a) = ad_values a" "ad_valIdx (adjustRate fl a) = ad_valIdx a"
  "ad_valFull (adjustRate fl a) = ad_valFull a" "ad_ops (adjustRate fl a) = ad_ops a"
  by (simp_all add: adjustRate_def Let_def)

interpretation adaptive: point_selector "adaptive_ingest fl" "\<lambda>a. Some ([], a)" "\<lambda>_. 0" adaptive_inv "\<lambda>_. {}" for fl
proof (unfold_locales, goal_cases)
  case (1 s ts v)
  then show ?case by (auto simp: adaptive_ingest_def adaptive_inv_def Let_def)
qed (auto simp: adaptive_ingest_def Let_def split: if_splits)

section \<open>The interface\<close>

fun sp_inv :: "'f float_lib \<Rightarrow> 'f seriesProcessor \<Rightarrow> bool" where
  "sp_inv fl (AggP a) = (ap_windowNs a \<noteq> 0)"
| "sp_inv fl (LttbP l) = lttb_inv l"
| "sp_inv fl (SdtP s) = sdt_inv fl s"
| "sp_inv fl (AdaptiveP a) = adaptive_inv a"

fun sp_pending :: "'f seriesProcessor \<Rightarrow> nat" where
  "sp_pending (AggP a) = agg_pending a"
| "sp_pending (LttbP l) = lttb_pending l"
| "sp_pending (SdtP s) = length (sdt_flush s)"
| "sp_pending (AdaptiveP a) = 0"

interpretation sp: series_processor "sp_ingest fl" "sp_flush fl" sp_pending "sp_inv fl" for fl
proof (unfold_locales, goal_cases)
  case (1 s ts v)
  then show ?case
    using agg.ingest_step [of _ fl ts v] lttb.ingest_step [of _ fl ts v] sdt.ingest_step [of fl _ ts v] adaptive.ingest_step [of _ fl ts v]
    by (cases s) fastforce+
next
  case (2 s)
  then show ?case
    using agg.flush_step [of _ fl] lttb.flush_step [of _ fl] sdt.flush_step [of fl] by (cases s) fastforce+
qed

text \<open>Durations that the parser accepts are 64-bit integers.\<close>

definition int64_durations :: "(gostring \<Rightarrow> int option) \<Rightarrow> bool" where
  "int64_durations parseDuration \<longleftrightarrow> (\<forall>s d. parseDuration s = Some d \<longrightarrow> d < 2 ^ 63)"

lemma adaptive_defaults_fields [simp]: "dc_Method (adaptive_defaults fl dc) = dc_Method dc" "parsedWindow (adaptive_defaults fl dc) = parsedWindow dc"
  by (simp_all add: adaptive_defaults_def Let_def)

lemma word_of_window: "0 < d \<Longrightarrow> d < 2 ^ 63 \<Longrightarrow> (word_of_int d :: u64) \<noteq> 0"
  by (simp add: word_of_int_eq_0_iff zdvd_not_zless)

lemma parse_window_ok: "parse_window parseDuration dc = Ok dc' \<Longrightarrow> int64_durations parseDuration \<Longrightarrow> dc_Method dc' = dc_Method dc \<and> (word_of_int (parsedWindow dc') :: u64) \<noteq> 0"
  by (auto simp: parse_window_def int64_durations_def word_of_window split: if_splits option.splits)

lemma ds_validate_ok:
  assumes "ds_validate fl parseDuration dc = Ok dc'" "int64_durations parseDuration"
  shows "dc_Method dc' = dc_Method dc" "validMethods (dc_Method dc')" "dc_Method dc' \<noteq> DSSDT \<Longrightarrow> (word_of_int (parsedWindow dc') :: u64) \<noteq> 0"
  using assms(1) by (auto simp: ds_validate_def Let_def split: if_splits dest!: parse_window_ok [OF _ assms(2)])

lemma newLTTB_inv: "lttb_inv (newLTTBProcessor w r)" "lttb_pending (newLTTBProcessor w r) = 0" "lttb_held (newLTTBProcessor w r) = {}"
  by (simp_all add: newLTTBProcessor_def lttb_inv_def lttb_pending_def lttb_held_def Let_def)

lemma newSDT_inv: "\<not> fl_less fl (fl_zero fl) (fl_zero fl) \<Longrightarrow> sdt_inv fl (newSDTProcessor fl d)" "sdt_flush (newSDTProcessor fl d) = []" "sdt_held (newSDTProcessor fl d) = {}"
  by (simp_all add: newSDTProcessor_def sdt_inv_def sdt_flush_def sdt_held_def)

lemma newAdaptive_inv: "adaptive_inv (newAdaptiveProcessor fl a b w)"
  by (simp add: newAdaptiveProcessor_def adaptive_inv_def Let_def)

lemma createProcessor_inv:
  assumes "ds_validate fl parseDuration dc = Ok dc'" "int64_durations parseDuration" "\<not> fl_less fl (fl_zero fl) (fl_zero fl)"
  shows "sp_inv fl (createProcessor fl dc')" "sp_pending (createProcessor fl dc') = 0"
  using ds_validate_ok [OF assms(1,2)] assms(3)
  by (auto simp: newLTTB_inv newSDT_inv newAdaptive_inv newAggProcessor_def agg_pending_def split: DownsampleMethod.split)


definition sample_ds :: "DownsampleMethod \<Rightarrow> int DownsampleConfig" where
  "sample_ds m = \<lparr>dc_Method = m, dc_Window = gostr ''10ns'', dc_Resolution = 0, dc_Deviation = 10, dc_MinRate = 0, dc_MaxRate = 1, dc_VarianceWindow = 0, parsedWindow = 0\<rparr>"

definition parse_ten :: "gostring \<Rightarrow> int option" where
  "parse_ten s = Some 10"


text \<open>
  The shape-preserving processors invent nothing: what the LTTB, the swinging-door and the adaptive processor emit and flush are points that were ingested, whatever the floats do.
\<close>

theorem selectors_emit_ingested:
  assumes "dc_Method dc \<in> {DSLTTB, DSSDT, DSAdaptive}" "ingest_all (sp_ingest fl) pts (createProcessor fl dc) = Some (out, p)" "sp_flush fl p = Some (rest, p')"
  shows "set (out @ rest) \<subseteq> (\<lambda>(ts, v). \<lparr>ep_timestamp = ts, ep_value = v\<rparr>) ` set pts"
proof -
  have lift: "\<exists>q'. p = C q' \<and> ingest_all ing pts q = Some (out, q')"
    if "\<And>ts v q. sp_ingest fl ts v (C q) = map_option (apsnd C) (ing ts v q)" "ingest_all (sp_ingest fl) pts (C q) = Some (out, p)"
    for C :: "'s \<Rightarrow> 'a seriesProcessor" and ing q pts out
    using that(2)
  proof (induction pts arbitrary: q out)
    case (Cons x pts)
    then show ?case by (cases x) (fastforce simp: that(1) split: bind_splits)
  qed auto
  consider "dc_Method dc = DSLTTB" | "dc_Method dc = DSSDT" | "dc_Method dc = DSAdaptive" using assms(1) by auto
  then show ?thesis
  proof cases
    case 1
    let ?q = "newLTTBProcessor (parsedWindow dc) (dc_Resolution dc)"
    obtain q' where q: "p = LttbP q'" "ingest_all (lttb_ingest fl) pts ?q = Some (out, q')"
      using lift [of LttbP "lttb_ingest fl" pts ?q out] assms(2) 1 by auto
    show ?thesis
      using lttb.emits_ingested [OF q(2)] lttb.flush_selects [of fl q'] assms(3) newLTTB_inv(3) q(1) by fastforce
  next
    case 2
    obtain q' where q: "p = SdtP q'" "ingest_all (sdt_ingest fl) pts (newSDTProcessor fl (dc_Deviation dc)) = Some (out, q')"
      using lift [of SdtP "sdt_ingest fl" pts "newSDTProcessor fl (dc_Deviation dc)" out] assms(2) 2 by auto
    show ?thesis
      using sdt.emits_ingested [OF q(2)] sdt.flush_selects [of q' rest q'] assms(3) newSDT_inv(3) [of fl] q(1) by fastforce
  next
    case 3
    let ?q = "newAdaptiveProcessor fl (dc_MinRate dc) (dc_MaxRate dc) (dc_VarianceWindow dc)"
    obtain q' where q: "p = AdaptiveP q'" "ingest_all (adaptive_ingest fl) pts ?q = Some (out, q')"
      using lift [of AdaptiveP "adaptive_ingest fl" pts ?q out] assms(2) 3 by auto
    show ?thesis using adaptive.emits_ingested [OF q(2)] assms(3) q(1) by auto
  qed
qed


definition sdt_points :: "(u64 \<times> int) list" where
  "sdt_points = [(0, 0), (10, 0), (5, 1000)]"

text \<open>
  Points out of order. The guard of \<open>ingest\<close> compares with the point emitted last; when the corridor collapses, the previous point becomes the reference, which may be later than the current one. The unsigned
  difference of the timestamps then wraps around, the door opens with slopes near zero, and a flush emits the older point after the newer one.
\<close>

lemma sdt_run:
  "map_option (map ep_timestamp \<circ> fst) (ingest_all (sp_ingest int_floats) sdt_points (createProcessor int_floats (sample_ds DSSDT))) = Some [0, 10]"
  "map_option (map ep_timestamp \<circ> fst) (Option.bind (ingest_all (sp_ingest int_floats) sdt_points (createProcessor int_floats (sample_ds DSSDT))) (sp_flush int_floats \<circ> snd)) = Some [5]"
  by code_simp+

theorem selectors_emit_ingested_witness:
  "\<exists>out p rest p'. ingest_all (sp_ingest int_floats) sdt_points (createProcessor int_floats (sample_ds DSSDT)) = Some (out, p) \<and> sp_flush int_floats p = Some (rest, p')
     \<and> map ep_timestamp out = [0, 10]
     \<and> set (out @ rest) \<subseteq> {\<lparr>ep_timestamp = 0, ep_value = 0\<rparr>, \<lparr>ep_timestamp = 10, ep_value = 0\<rparr>, \<lparr>ep_timestamp = 5, ep_value = 1000\<rparr>}"
proof -
  obtain out p where 1: "ingest_all (sp_ingest int_floats) sdt_points (createProcessor int_floats (sample_ds DSSDT)) = Some (out, p)" "map ep_timestamp out = [0, 10]"
    using sdt_run(1) by (auto simp del: createProcessor.simps)
  obtain rest p' where 2: "sp_flush int_floats p = Some (rest, p')"
    using sdt_run(2) by (auto simp: 1 simp del: createProcessor.simps)
  show ?thesis
    using selectors_emit_ingested [OF _ 1(1) 2] 1 2 by (intro exI conjI) (auto simp: sample_ds_def sdt_points_def simp del: createProcessor.simps)
qed

section \<open>Windows\<close>

text \<open>The reference: consecutive points of the same window form a run, and each run is aggregated as a list.\<close>

definition window_end :: "u64 \<Rightarrow> u64 \<Rightarrow> u64" where
  "window_end w ts = (ts div w) * w + w"

fun prepend_run :: "u64 \<Rightarrow> 'f list \<Rightarrow> (u64 \<times> 'f list) list \<Rightarrow> (u64 \<times> 'f list) list" where
  "prepend_run e vs ((e', vs') # rs) = (if e' = e then (e, vs @ vs') # rs else (e, vs) # (e', vs') # rs)"
| "prepend_run e vs [] = [(e, vs)]"

fun runs :: "u64 \<Rightarrow> (u64 \<times> 'f) list \<Rightarrow> (u64 \<times> 'f list) list" where
  "runs w [] = []"
| "runs w ((ts, v) # pts) = prepend_run (window_end w ts) [v] (runs w pts)"

definition agg_value :: "'f float_lib \<Rightarrow> DownsampleMethod \<Rightarrow> 'f list \<Rightarrow> 'f" where
  "agg_value fl m vs =
     (case m of
        DSAvg \<Rightarrow> fl_div fl (foldl (fl_add fl) (fl_zero fl) vs) (fl_of_int fl (int (length vs)))
      | DSMin \<Rightarrow> foldl (\<lambda>m v. if fl_less fl v m then v else m) (hd vs) vs
      | DSMax \<Rightarrow> foldl (\<lambda>m v. if fl_less fl m v then v else m) (hd vs) vs
      | DSSum \<Rightarrow> foldl (fl_add fl) (fl_zero fl) vs
      | DSCount \<Rightarrow> fl_of_int fl (int (length vs))
      | DSDelta \<Rightarrow> fl_sub fl (last vs) (hd vs)
      | _ \<Rightarrow> last vs)"

definition run_point :: "'f float_lib \<Rightarrow> DownsampleMethod \<Rightarrow> u64 \<times> 'f list \<Rightarrow> 'f emittedPoint" where
  "run_point fl m = (\<lambda>(e, vs). \<lparr>ep_timestamp = e - 1, ep_value = agg_value fl m vs\<rparr>)"

text \<open>The state of a processor whose open window ends at \<open>e\<close> and has the values \<open>vs\<close>.\<close>

definition open_window :: "'f float_lib \<Rightarrow> 'f aggProcessor \<Rightarrow> u64 \<Rightarrow> 'f list \<Rightarrow> bool" where
  "open_window fl a e vs \<longleftrightarrow> vs \<noteq> [] \<and> ap_hasData a \<and> ap_windowEnd a = e \<and> ap_count a = int (length vs) \<and> ap_sum a = foldl (fl_add fl) (fl_zero fl) vs
     \<and> ap_min a = foldl (\<lambda>m v. if fl_less fl v m then v else m) (hd vs) vs \<and> ap_max a = foldl (\<lambda>m v. if fl_less fl m v then v else m) (hd vs) vs
     \<and> ap_last a = last vs \<and> ap_first a = hd vs"

text \<open>Nothing is open: the counters are those of a new processor.\<close>

definition idle_window :: "'f float_lib \<Rightarrow> 'f aggProcessor \<Rightarrow> bool" where
  "idle_window fl a \<longleftrightarrow> \<not> ap_hasData a \<and> ap_count a = 0 \<and> ap_sum a = fl_zero fl"

lemma idle_reset: "idle_window fl (agg_reset fl a)" "idle_window fl (newAggProcessor fl m w)"
  by (simp_all add: idle_window_def agg_reset_def newAggProcessor_def)

lemma agg_add_idle: "idle_window fl a \<Longrightarrow> open_window fl (agg_add fl e v a) e [v]"
  by (simp add: idle_window_def open_window_def agg_add_def Let_def fl_greater_def)

lemma agg_add_open: "open_window fl a e vs \<Longrightarrow> open_window fl (agg_add fl e v a) e (vs @ [v])"
  by (auto simp: open_window_def agg_add_def Let_def fl_greater_def)

lemma aggregate_open: "open_window fl a e vs \<Longrightarrow> agg_aggregate fl a = agg_value fl (ap_method a) vs"
  by (auto simp: open_window_def agg_aggregate_def agg_value_def split: DownsampleMethod.split)

lemma flush_open: "open_window fl a e vs \<Longrightarrow> fst (agg_flush fl a) = [run_point fl (ap_method a) (e, vs)]"
  using aggregate_open [of fl a e vs] by (simp add: agg_flush_def run_point_def open_window_def)

lemma prepend_prepend: "prepend_run e vs (prepend_run e vs' rs) = prepend_run e (vs @ vs') rs"
  by (cases "(e, vs', rs)" rule: prepend_run.cases) auto

lemma prepend_other: "e \<noteq> e' \<Longrightarrow> prepend_run e vs (prepend_run e' vs' rs) = (e, vs) # prepend_run e' vs' rs"
  by (cases "(e', vs', rs)" rule: prepend_run.cases) auto

lemma ingest_all_open:
  assumes "open_window fl a e vs" "ap_windowNs a \<noteq> 0"
  shows "\<exists>out a'. ingest_all (agg_ingest fl) pts a = Some (out, a') \<and> ap_method a' = ap_method a
    \<and> out @ fst (agg_flush fl a') = map (run_point fl (ap_method a)) (prepend_run e vs (runs (ap_windowNs a) pts))"
  using assms
proof (induction pts arbitrary: a e vs)
  case Nil
  then show ?case by (simp add: flush_open)
next
  case (Cons p pts)
  obtain ts v where p: "p = (ts, v)" by fastforce
  let ?e = "window_end (ap_windowNs a) ts"
  show ?case
  proof (cases "?e = e")
    case True
    let ?a = "agg_add fl e v a"
    have "agg_ingest fl ts v a = Some ([], ?a)"
      using Cons.prems True by (simp add: agg_ingest_def agg_close_def window_end_def open_window_def Let_def)
    moreover obtain out a' where "ingest_all (agg_ingest fl) pts ?a = Some (out, a')" "ap_method a' = ap_method a"
        "out @ fst (agg_flush fl a') = map (run_point fl (ap_method a)) (prepend_run e (vs @ [v]) (runs (ap_windowNs a) pts))"
      using Cons.IH [OF agg_add_open [OF Cons.prems(1)], of v] Cons.prems(2) by auto
    ultimately show ?thesis by (simp add: p True prepend_prepend)
  next
    case False
    let ?a = "agg_add fl ?e v (agg_reset fl a)"
    have "agg_ingest fl ts v a = Some ([run_point fl (ap_method a) (e, vs)], ?a)"
      using Cons.prems False aggregate_open [OF Cons.prems(1)]
      by (simp add: agg_ingest_def agg_close_def window_end_def open_window_def run_point_def Let_def)
    moreover obtain out a' where "ingest_all (agg_ingest fl) pts ?a = Some (out, a')" "ap_method a' = ap_method a"
        "out @ fst (agg_flush fl a') = map (run_point fl (ap_method a)) (prepend_run ?e [v] (runs (ap_windowNs a) pts))"
      using Cons.IH [OF agg_add_idle [OF idle_reset(1)], of ?e v a] Cons.prems(2) by auto
    ultimately show ?thesis using False by (simp add: p prepend_other [of e ?e])
  qed
qed

text \<open>
  C33: Windowed downsampling is aggregation by window. For each of the aggregating methods, any window and any sequence of datapoints, what the processor emits while ingesting and when flushed is, in
  order, one point for each run of datapoints in the same window, at the last nanosecond of the window, with the average, minimum, maximum, sum, count, last value or difference of
  exactly the values of the run.
\<close>

theorem windows_aggregate:
  assumes "0 < window" "window < 2 ^ 63"
  shows "\<exists>out a. ingest_all (agg_ingest fl) pts (newAggProcessor fl m window) = Some (out, a)
    \<and> out @ fst (agg_flush fl a) = map (run_point fl m) (runs (word_of_int window) pts)"
proof (cases pts)
  case (Cons p rest)
  obtain ts v where p: "p = (ts, v)" by fastforce
  let ?n = "newAggProcessor fl m window" and ?e = "window_end (word_of_int window) ts"
  have n: "ap_windowNs ?n = word_of_int window" "ap_method ?n = m" "\<not> ap_hasData ?n" by (simp_all add: newAggProcessor_def)
  have "agg_ingest fl ts v ?n = Some ([], agg_add fl ?e v ?n)"
    using n word_of_window [OF assms] by (simp add: agg_ingest_def agg_close_def window_end_def Let_def)
  moreover obtain out a where "ingest_all (agg_ingest fl) rest (agg_add fl ?e v ?n) = Some (out, a)"
      "out @ fst (agg_flush fl a) = map (run_point fl m) (prepend_run ?e [v] (runs (word_of_int window) rest))"
    using ingest_all_open [OF agg_add_idle [OF idle_reset(2)], of fl ?e v m window rest] word_of_window [OF assms] n by auto
  ultimately show ?thesis by (simp add: Cons p)
qed (simp add: newAggProcessor_def agg_flush_def)

theorem windows_aggregate_witness:
  "\<exists>out a. ingest_all (agg_ingest int_floats) [(1, 5), (2, 7), (13, 1)] (newAggProcessor int_floats DSMax 10) = Some (out, a)
    \<and> out @ fst (agg_flush int_floats a) = [\<lparr>ep_timestamp = 9, ep_value = 7\<rparr>, \<lparr>ep_timestamp = 19, ep_value = 1\<rparr>]"
proof -
  have "map (run_point int_floats DSMax) (runs (word_of_int 10) [(1, 5), (2, 7), (13, 1)]) = [\<lparr>ep_timestamp = 9, ep_value = 7\<rparr>, \<lparr>ep_timestamp = 19, ep_value = 1\<rparr>]"
    by code_simp
  then show ?thesis
    using windows_aggregate [of 10 int_floats "[(1, 5), (2, 7), (13, 1)]" DSMax] by simp
qed

section \<open>The engine\<close>

text \<open>What the engine keeps, as maps from series keys; shards and hashing disappear.\<close>

definition shard_of :: "'f downsampleEngine \<Rightarrow> gostring \<Rightarrow> 'f downsampleShard" where
  "shard_of de k = de_shards de ! fnvShard k"

definition abs_series :: "'f downsampleEngine \<Rightarrow> gostring \<rightharpoonup> 'f seriesProcessor" where
  "abs_series de = (\<lambda>k. map_of (sh_series (shard_of de k)) k)"

definition abs_seen :: "'f downsampleEngine \<Rightarrow> gostring \<rightharpoonup> int" where
  "abs_seen de = (\<lambda>k. map_of (sh_lastSeen (shard_of de k)) k)"

definition fresh :: "int \<Rightarrow> (gostring \<rightharpoonup> int) \<Rightarrow> gostring set" where
  "fresh now seen = {k. \<forall>t. seen k = Some t \<longrightarrow> now - t \<le> ds_stale}"

definition engine_ok :: "'f downsampleEngine \<Rightarrow> bool" where
  "engine_ok de \<longleftrightarrow> length (de_shards de) = dsShardCount \<and> (\<forall>sh \<in> set (de_shards de). distinct (map fst (sh_lastSeen sh)))"

lemma fnvShard_bound: "fnvShard k < dsShardCount"
proof -
  have "unat (fnv32a k AND mask 5) < 2 ^ 5"
    by (simp only: take_bit_eq_mask [symmetric] unsigned_take_bit_eq take_bit_nat_less_exp)
  moreover have "(word_of_nat dsShardCount - 1 :: 32 word) = mask 5" by (simp add: dsShardCount_def mask_eq_exp_minus_1)
  ultimately show ?thesis by (simp add: fnvShard_def dsShardCount_def)
qed

text \<open>
  The engine as one map: the series' own processor (a new one for a new series) ingests the point, and every ten thousandth call forgets the series that were not seen for ten minutes.
\<close>

definition map_ingest ::
    "'f float_lib \<Rightarrow> int \<Rightarrow> gostring \<Rightarrow> 'f DownsampleConfig \<Rightarrow> u64 \<Rightarrow> 'f \<Rightarrow> (gostring \<rightharpoonup> 'f seriesProcessor) \<Rightarrow> (gostring \<rightharpoonup> int) \<Rightarrow> int
      \<Rightarrow> ('f emittedPoint list \<times> (gostring \<rightharpoonup> 'f seriesProcessor) \<times> (gostring \<rightharpoonup> int)) option" where
  "map_ingest fl now k cfg ts v series seen calls =
     map_option (\<lambda>(out, p).
        let series = series(k \<mapsto> p); seen = seen(k \<mapsto> now)
        in (out, if calls mod 10000 = 0 then (series |` fresh now seen, seen |` fresh now seen) else (series, seen)))
       (sp_ingest fl ts v (case series k of Some p \<Rightarrow> p | None \<Rightarrow> createProcessor fl cfg))"

lemma shard_of_update:
  "engine_ok de \<Longrightarrow> shard_of (de\<lparr>de_shards := (de_shards de)[fnvShard k := sh], de_cleanupCtr := n\<rparr>) k' = (if fnvShard k' = fnvShard k then sh else shard_of de k')"
  using fnvShard_bound [of k] by (simp add: shard_of_def engine_ok_def)

text \<open>The engine after its shard for \<open>k\<close> has ingested a point.\<close>

definition with_shard :: "'f downsampleEngine \<Rightarrow> gostring \<Rightarrow> 'f downsampleShard \<Rightarrow> 'f downsampleEngine" where
  "with_shard de k sh = de\<lparr>de_shards := (de_shards de)[fnvShard k := sh], de_cleanupCtr := de_cleanupCtr de + 1\<rparr>"

lemma abs_with_shard:
  assumes "engine_ok de"
    and "sh = (shard_of de k)\<lparr>sh_series := AList.update k p (sh_series (shard_of de k)), sh_lastSeen := AList.update k now (sh_lastSeen (shard_of de k))\<rparr>"
  shows "abs_series (with_shard de k sh) = (abs_series de)(k \<mapsto> p)" "abs_seen (with_shard de k sh) = (abs_seen de)(k \<mapsto> now)" "engine_ok (with_shard de k sh)"
proof -
  have same: "fnvShard k' = fnvShard k \<Longrightarrow> shard_of de k' = shard_of de k" for k' by (simp add: shard_of_def)
  have sh: "shard_of (with_shard de k sh) k' = (if fnvShard k' = fnvShard k then sh else shard_of de k')" for k'
    using shard_of_update [OF assms(1)] by (simp add: with_shard_def)
  have f: "sh_series sh = AList.update k p (sh_series (shard_of de k))" "sh_lastSeen sh = AList.update k now (sh_lastSeen (shard_of de k))"
    by (simp_all add: assms(2))
  show "abs_series (with_shard de k sh) = (abs_series de)(k \<mapsto> p)"
  proof
    show "abs_series (with_shard de k sh) k' = ((abs_series de)(k \<mapsto> p)) k'" for k'
      using same [of k'] by (cases "k' = k") (simp_all add: abs_series_def sh f update_conv')
  qed
  show "abs_seen (with_shard de k sh) = (abs_seen de)(k \<mapsto> now)"
  proof
    show "abs_seen (with_shard de k sh) k' = ((abs_seen de)(k \<mapsto> now)) k'" for k'
      using same [of k'] by (cases "k' = k") (simp_all add: abs_seen_def sh f update_conv')
  qed
  have "distinct (map fst (sh_lastSeen (shard_of de k)))"
    using assms(1) fnvShard_bound [of k] by (simp add: engine_ok_def shard_of_def)
  then have "distinct (map fst (sh_lastSeen sh))" using assms(2) by (simp add: distinct_update)
  then show "engine_ok (with_shard de k sh)"
    using assms(1) set_update_subset_insert [of "de_shards de" "fnvShard k" sh] by (auto simp: engine_ok_def with_shard_def)
qed

lemma map_of_filter_keys: "map_of (filter (\<lambda>(k, _). k \<notin> S) xs) = map_of xs |` (- S)"
  by (induction xs) (auto simp: restrict_map_def fun_eq_iff)

lemma stale_keys:
  assumes "distinct (map fst xs)"
  shows "k \<in> fst ` set (filter (\<lambda>(_, seen). d < now - seen) xs) \<longleftrightarrow> (\<exists>t. map_of xs k = Some t \<and> d < now - t)"
  using map_of_eq_Some_iff [OF assms] by force

lemma abs_cleanup:
  assumes "engine_ok de"
  shows "abs_series (cleanupAll ds_stale now de) = abs_series de |` fresh now (abs_seen de)"
    "abs_seen (cleanupAll ds_stale now de) = abs_seen de |` fresh now (abs_seen de)"
    "engine_ok (cleanupAll ds_stale now de)"
proof -
  have d: "distinct (map fst (sh_lastSeen (shard_of de k)))" and s: "shard_of (cleanupAll ds_stale now de) k = cleanup_shard ds_stale now (shard_of de k)" for k
    using assms fnvShard_bound [of k] by (simp_all add: engine_ok_def shard_of_def cleanupAll_def)
  have st: "k \<in> fst ` set (filter (\<lambda>(_, seen). ds_stale < now - seen) (sh_lastSeen (shard_of de k))) \<longleftrightarrow> k \<notin> fresh now (abs_seen de)" for k
    unfolding stale_keys [OF d] by (auto simp: fresh_def abs_seen_def)
  show "abs_series (cleanupAll ds_stale now de) = abs_series de |` fresh now (abs_seen de)"
    "abs_seen (cleanupAll ds_stale now de) = abs_seen de |` fresh now (abs_seen de)"
    using st by (auto simp: abs_series_def abs_seen_def s cleanup_shard_def Let_def map_of_filter_keys restrict_map_def fun_eq_iff simp del: set_filter)
  show "engine_ok (cleanupAll ds_stale now de)"
    using assms by (auto simp: engine_ok_def cleanupAll_def cleanup_shard_def Let_def distinct_map_filter)
qed

lemma shard_ingest_abs:
  assumes "shard_ingest fl now k cfg ts v (shard_of de k) = Some (out, sh)"
  shows "\<exists>p. sp_ingest fl ts v (case abs_series de k of Some p \<Rightarrow> p | None \<Rightarrow> createProcessor fl cfg) = Some (out, p)
    \<and> sh = (shard_of de k)\<lparr>sh_series := AList.update k p (sh_series (shard_of de k)), sh_lastSeen := AList.update k now (sh_lastSeen (shard_of de k))\<rparr>"
  using assms by (auto simp: shard_ingest_def abs_series_def Let_def)

text \<open>
  The engine with its shards is one map. A call of \<open>ingestAndEmit\<close> on an engine with 32 shards emits what the series' own processor emits, changes the map exactly as the reference does, leaves
  every other series alone unless it is forgotten as stale, and panics exactly when the processor does; the shape of the engine is kept, and a new engine has it.
\<close>

theorem engine_is_one_map:
  fixes de :: "'f downsampleEngine"
  assumes "engine_ok de"
  shows "map_option (\<lambda>(out, de'). (out, abs_series de', abs_seen de')) (ingestAndEmit fl now k cfg ts v de)
     = map_ingest fl now k cfg ts v (abs_series de) (abs_seen de) (de_cleanupCtr de + 1)
    \<and> (\<forall>out de'. ingestAndEmit fl now k cfg ts v de = Some (out, de') \<longrightarrow> engine_ok de')
    \<and> engine_ok (newDownsampleEngine :: 'f downsampleEngine) \<and> abs_series (newDownsampleEngine :: 'f downsampleEngine) = Map.empty"
proof (intro conjI)
  let ?p = "case abs_series de k of Some p \<Rightarrow> p | None \<Rightarrow> createProcessor fl cfg"
  have new: "shard_of newDownsampleEngine k' = empty_shard" for k'
    using fnvShard_bound [of k'] by (simp add: shard_of_def newDownsampleEngine_def)
  show "engine_ok (newDownsampleEngine :: 'f downsampleEngine)" "abs_series (newDownsampleEngine :: 'f downsampleEngine) = Map.empty"
    by (simp_all add: new abs_series_def engine_ok_def empty_shard_def fun_eq_iff) (simp_all add: newDownsampleEngine_def empty_shard_def)
  note step = abs_with_shard [OF assms]
  have r: "ingestAndEmit fl now k cfg ts v de = Option.bind (shard_ingest fl now k cfg ts v (shard_of de k))
      (\<lambda>(out, sh). Some (out, if (de_cleanupCtr de + 1) mod 10000 = 0 then cleanupAll ds_stale now (with_shard de k sh) else with_shard de k sh))"
    unfolding ingestAndEmit_def shard_of_def with_shard_def Let_def by simp
  have n: "shard_ingest fl now k cfg ts v (shard_of de k) = None \<longleftrightarrow> sp_ingest fl ts v ?p = None"
    by (simp add: shard_ingest_def abs_series_def Let_def)
  show "map_option (\<lambda>(out, de'). (out, abs_series de', abs_seen de')) (ingestAndEmit fl now k cfg ts v de)
     = map_ingest fl now k cfg ts v (abs_series de) (abs_seen de) (de_cleanupCtr de + 1)"
  proof (cases "shard_ingest fl now k cfg ts v (shard_of de k)")
    case None
    then show ?thesis using n by (simp add: r map_ingest_def)
  next
    case (Some x)
    obtain out sh where x: "x = (out, sh)" by fastforce
    obtain p where p: "sp_ingest fl ts v ?p = Some (out, p)"
        "sh = (shard_of de k)\<lparr>sh_series := AList.update k p (sh_series (shard_of de k)), sh_lastSeen := AList.update k now (sh_lastSeen (shard_of de k))\<rparr>"
      using shard_ingest_abs [OF Some [unfolded x]] by blast
    show ?thesis using step [OF p(2)] p(1) abs_cleanup [of "with_shard de k sh"] by (simp add: r Some x map_ingest_def Let_def)
  qed
  show "\<forall>out de'. ingestAndEmit fl now k cfg ts v de = Some (out, de') \<longrightarrow> engine_ok de'"
    using step shard_ingest_abs [of fl now k cfg ts v de] abs_cleanup(3) by (fastforce simp: r split: bind_splits if_splits)
qed

text \<open>
  Forgetting loses what a processor holds: nothing is flushed before a stale series is deleted, so the window that was open when a series fell silent is never emitted.
\<close>

lemma cleanup_loses_pending:
  assumes "engine_ok de" "abs_series de k = Some p" "0 < sp_pending p" "abs_seen de k = Some t" "ds_stale < now - t"
  shows "abs_series (cleanupAll ds_stale now de) k = None"
  using abs_cleanup(1) [OF assms(1), of now] assms(4,5) by (simp add: fresh_def restrict_map_def)

theorem engine_is_one_map_witness:
  "map_option (\<lambda>(out, de'). (out, abs_series de', abs_seen de')) (ingestAndEmit int_floats 0 (gostr ''m'') ((sample_ds DSMax)\<lparr>parsedWindow := 10\<rparr>) 1 5 newDownsampleEngine)
   = map_ingest int_floats 0 (gostr ''m'') ((sample_ds DSMax)\<lparr>parsedWindow := 10\<rparr>) 1 5 Map.empty (abs_seen (newDownsampleEngine :: int downsampleEngine)) 1"
proof -
  have "engine_ok (newDownsampleEngine :: int downsampleEngine)" by (simp add: engine_ok_def newDownsampleEngine_def empty_shard_def)
  moreover have "de_cleanupCtr (newDownsampleEngine :: int downsampleEngine) = 0" by (simp add: newDownsampleEngine_def)
  ultimately show ?thesis
    using engine_is_one_map [of newDownsampleEngine int_floats 0 "gostr ''m''" "(sample_ds DSMax)\<lparr>parsedWindow := 10\<rparr>" 1 5] by auto
qed

end
