(* ===== verification/Transform.thy ===== *)
theory Transform
  imports Relabel Go_Floats "HOL-Library.Sublist" "HOL-Library.Monad_Syntax"
begin

text \<open>
  Transformation and classification of attributes: \<open>internal/sampling/transform.go\<close> and \<open>classify.go\<close>, with their configuration types of
  \<open>processing_config.go\<close>. An operation returns the new attributes, or \<open>None\<close> where it panics (a regular expression that was not compiled, an index out of
  range, a division by zero). A compiled regular expression is a record of its methods; upper and lower case are the Unicode tables of the Go library
  and a parameter. Go maps are association lists; the order in which one call happens to range over a map is the parameter \<open>tl_range\<close>. Attribute
  pointers are distinct, so updates in place are updates of the list. Prometheus counters are left out.
\<close>

section \<open>Types\<close>

record sub_regexp = regexp +
  rx_FindStringSubmatch :: "gostring \<Rightarrow> gostring list option"

record Condition =
  cond_Label :: gostring
  cond_Equals :: gostring
  cond_Matches :: gostring
  cond_Contains :: gostring
  cond_NotMatches :: gostring
  compiledMatches :: "sub_regexp option"
  compiledNotMatches :: "sub_regexp option"

record SetOp =
  set_Label :: gostring
  set_Value :: gostring

record RenameOp =
  rename_Source :: gostring
  rename_Target :: gostring

record CopyOp =
  copy_Source :: gostring
  copy_Target :: gostring

record ReplaceOp =
  replace_Label :: gostring
  replace_Pattern :: gostring
  replace_Replacement :: gostring

record ExtractOp =
  extract_Source :: gostring
  extract_Target :: gostring
  extract_Pattern :: gostring
  extract_Group :: int

record HashModOp =
  hashmod_Source :: gostring
  hashmod_Target :: gostring
  hashmod_Modulus :: u64

record LabelRef =
  ref_Label :: gostring

record ConcatOp =
  concat_Sources :: "gostring list"
  concat_Target :: gostring
  concat_Separator :: gostring

record MapOp =
  map_Source :: gostring
  map_Target :: gostring
  map_Values :: labels
  map_Default :: gostring

record 'f MathOp =
  math_Source :: gostring
  math_Target :: gostring
  math_Operation :: gostring
  math_Operand :: 'f

record 'f Operation =
  op_Remove :: "gostring list"
  op_Set :: "SetOp option"
  op_Rename :: "RenameOp option"
  op_Copy :: "CopyOp option"
  op_Replace :: "ReplaceOp option"
  op_Extract :: "ExtractOp option"
  op_HashMod :: "HashModOp option"
  op_Lower :: "LabelRef option"
  op_Upper :: "LabelRef option"
  op_Concat :: "ConcatOp option"
  op_Map :: "MapOp option"
  op_Math :: "'f MathOp option"

record compiledMapEntry =
  entry_pattern :: sub_regexp
  entry_value :: gostring

record 'f compiledOperation =
  cop_op :: "'f Operation"
  compiledReplace :: "sub_regexp option"
  compiledExtract :: "sub_regexp option"
  compiledMap :: "compiledMapEntry list"

record compiledClassifyChain =
  chain_conditions :: "Condition list"
  chain_set :: labels

record compiledClassifyMapping =
  cm_sources :: "gostring list"
  cm_separator :: gostring
  cm_target :: gostring
  cm_entries :: "compiledMapEntry list"
  cm_dflt :: gostring

record compiledClassifyConfig =
  cc_chains :: "compiledClassifyChain list"
  cc_mappings :: "compiledClassifyMapping list"
  cc_removeAfter :: "gostring list"

record 'f transform_lib =
  tl_floats :: "'f float_lib"
  tl_ToLower :: "gostring \<Rightarrow> gostring"
  tl_ToUpper :: "gostring \<Rightarrow> gostring"
  tl_range :: "labels \<Rightarrow> labels"

type_synonym attributes = "KeyValue list"

section \<open>Reading and writing labels\<close>

definition getLabelValue :: "attributes \<Rightarrow> gostring \<Rightarrow> gostring" where
  "getLabelValue as key = (case List.find (\<lambda>kv. kv_Key kv = key) as of Some kv \<Rightarrow> GetStringValue (kv_Value kv) | None \<Rightarrow> [])"

text \<open>The loops that stop at the first attribute with a key, and the wrapper around a new string value.\<close>

fun at_first :: "gostring \<Rightarrow> (KeyValue \<Rightarrow> KeyValue) \<Rightarrow> attributes \<Rightarrow> attributes" where
  "at_first key f [] = []"
| "at_first key f (kv # as) = (if kv_Key kv = key then f kv # as else kv # at_first key f as)"

definition string_value :: "gostring \<Rightarrow> KeyValue \<Rightarrow> KeyValue" where
  "string_value v kv = kv\<lparr>kv_Value := Some (StringValue v)\<rparr>"

definition setLabel :: "attributes \<Rightarrow> gostring \<Rightarrow> gostring \<Rightarrow> attributes" where
  "setLabel as key v =
     (if list_ex (\<lambda>kv. kv_Key kv = key) as then at_first key (string_value v) as
      else as @ [\<lparr>kv_Key = key, kv_Value = Some (StringValue v)\<rparr>])"

text \<open>
  The regular expression \<open>\$\{([^}]+)\}\<close>, leftmost and not overlapping: a dollar sign and a brace, at least one byte other than a closing
  brace, a closing brace. None of these bytes occurs inside a longer UTF-8 sequence.
\<close>

function interpolate :: "(gostring \<Rightarrow> gostring) \<Rightarrow> gostring \<Rightarrow> gostring" where
  "interpolate f [] = []"
| "interpolate f (c # cs) =
     (let body = drop 1 cs; name = takeWhile (\<lambda>b. b \<noteq> 125) body; rest = dropWhile (\<lambda>b. b \<noteq> 125) body
      in if c = 36 \<and> take 1 cs = [123] \<and> name \<noteq> [] \<and> rest \<noteq> [] then f name @ interpolate f (drop 1 rest)
         else c # interpolate f cs)"
  by pat_completeness auto

termination
proof (relation "measure (\<lambda>(f, s). length s)", goal_cases)
  case (2 f c cs body name rest)
  have "length rest \<le> length body" using 2(3) by (simp add: length_dropWhile_le)
  then show ?case using 2(1) by simp
qed auto

definition interpolateLabels :: "gostring \<Rightarrow> attributes \<Rightarrow> gostring" where
  "interpolateLabels template as = (if \<not> sublist (gostr ''${'') template then template else interpolate (getLabelValue as) template)"

section \<open>Conditions and operations\<close>

fun evaluateConditions :: "Condition list \<Rightarrow> attributes \<Rightarrow> bool" where
  "evaluateConditions [] as = True"
| "evaluateConditions (c # cs) as =
     (let labelValue = getLabelValue as (cond_Label c) in
      if cond_Equals c \<noteq> [] \<and> labelValue \<noteq> cond_Equals c then False
      else if cond_Contains c \<noteq> [] \<and> \<not> sublist (cond_Contains c) labelValue then False
      else if (case compiledMatches c of Some re \<Rightarrow> \<not> rx_MatchString re labelValue | None \<Rightarrow> False) then False
      else if (case compiledNotMatches c of Some re \<Rightarrow> rx_MatchString re labelValue | None \<Rightarrow> False) then False
      else evaluateConditions cs as)"

definition applyRemove :: "attributes \<Rightarrow> gostring list \<Rightarrow> attributes" where
  "applyRemove as labels = filter (\<lambda>kv. kv_Key kv \<notin> set labels) as"

definition applySet :: "attributes \<Rightarrow> SetOp \<Rightarrow> attributes" where
  "applySet as op = setLabel as (set_Label op) (interpolateLabels (set_Value op) as)"

definition applyRename :: "attributes \<Rightarrow> RenameOp \<Rightarrow> attributes" where
  "applyRename as op = at_first (rename_Source op) (\<lambda>kv. kv\<lparr>kv_Key := rename_Target op\<rparr>) as"

definition applyCopy :: "attributes \<Rightarrow> CopyOp \<Rightarrow> attributes" where
  "applyCopy as op =
     (let v = getLabelValue as (copy_Source op) in if v \<noteq> [] then setLabel as (copy_Target op) v else as)"

text \<open>What \<open>replace\<close>, \<open>lower\<close> and \<open>upper\<close> do to the attribute they find.\<close>

definition rewrite_value :: "(gostring \<Rightarrow> gostring) \<Rightarrow> KeyValue \<Rightarrow> KeyValue" where
  "rewrite_value f kv =
     (let oldVal = GetStringValue (kv_Value kv); newVal = f oldVal in if newVal \<noteq> oldVal then string_value newVal kv else kv)"

definition applyReplace :: "attributes \<Rightarrow> ReplaceOp \<Rightarrow> sub_regexp option \<Rightarrow> attributes option" where
  "applyReplace as op re =
     (if list_ex (\<lambda>kv. kv_Key kv = replace_Label op) as then
        map_option (\<lambda>re. at_first (replace_Label op) (rewrite_value (\<lambda>s. rx_ReplaceAllString re s (replace_Replacement op))) as) re
      else Some as)"

definition applyExtract :: "attributes \<Rightarrow> ExtractOp \<Rightarrow> sub_regexp option \<Rightarrow> attributes option" where
  "applyExtract as op re =
     (let sourceVal = getLabelValue as (extract_Source op) in
      if sourceVal = [] then Some as
      else Option.bind re (\<lambda>re. case rx_FindStringSubmatch re sourceVal of
             None \<Rightarrow> Some as
           | Some groups \<Rightarrow>
               if extract_Group op < int (length groups) then
                 if extract_Group op < 0 then None
                 else Some (setLabel as (extract_Target op) (groups ! nat (extract_Group op)))
               else Some as))"

definition fnv64a :: "bytes \<Rightarrow> u64" where
  "fnv64a data = foldl fnv_step fnv_offset64 data"

definition applyHashMod :: "attributes \<Rightarrow> HashModOp \<Rightarrow> attributes option" where
  "applyHashMod as op =
     (let sourceVal = getLabelValue as (hashmod_Source op) in
      if sourceVal = [] then Some as
      else if hashmod_Modulus op = 0 then None
      else Some (setLabel as (hashmod_Target op) (decimal (unat (fnv64a sourceVal mod hashmod_Modulus op)))))"

definition applyLower :: "'f transform_lib \<Rightarrow> attributes \<Rightarrow> LabelRef \<Rightarrow> attributes" where
  "applyLower lib as op = at_first (ref_Label op) (rewrite_value (tl_ToLower lib)) as"

definition applyUpper :: "'f transform_lib \<Rightarrow> attributes \<Rightarrow> LabelRef \<Rightarrow> attributes" where
  "applyUpper lib as op = at_first (ref_Label op) (rewrite_value (tl_ToUpper lib)) as"

definition applyConcat :: "attributes \<Rightarrow> ConcatOp \<Rightarrow> attributes" where
  "applyConcat as op = setLabel as (concat_Target op) (join_strings (concat_Separator op) (map (getLabelValue as) (concat_Sources op)))"

definition first_entry :: "compiledMapEntry list \<Rightarrow> gostring \<Rightarrow> gostring option" where
  "first_entry es v = map_option entry_value (List.find (\<lambda>e. rx_MatchString (entry_pattern e) v) es)"

definition applyMap :: "attributes \<Rightarrow> MapOp \<Rightarrow> compiledMapEntry list \<Rightarrow> attributes" where
  "applyMap as op compiled =
     (case first_entry compiled (getLabelValue as (map_Source op)) of
        Some v \<Rightarrow> setLabel as (map_Target op) v
      | None \<Rightarrow> if map_Default op \<noteq> [] then setLabel as (map_Target op) (map_Default op) else as)"

text \<open>\<open>strconv.FormatInt\<close> in base ten, and the result of the arithmetic, if there is one.\<close>

definition signed_decimal :: "int \<Rightarrow> gostring" where
  "signed_decimal n = (if n < 0 then gostr ''-'' @ decimal (nat (- n)) else decimal (nat n))"

definition math_result :: "'f float_lib \<Rightarrow> gostring \<Rightarrow> 'f \<Rightarrow> 'f \<Rightarrow> 'f option" where
  "math_result fl operation num operand =
     (if operation = gostr ''add'' then Some (fl_add fl num operand)
      else if operation = gostr ''sub'' then Some (fl_sub fl num operand)
      else if operation = gostr ''mul'' then Some (fl_mul fl num operand)
      else if operation = gostr ''div'' then if fl_eq fl operand (fl_zero fl) then None else Some (fl_div fl num operand)
      else if operation = gostr ''mod'' then if fl_eq fl operand (fl_zero fl) then None else Some (fl_Mod fl num operand)
      else None)"

definition format_result :: "'f float_lib \<Rightarrow> 'f \<Rightarrow> gostring" where
  "format_result fl result =
     (if fl_eq fl result (fl_Trunc fl result) \<and> \<not> fl_IsInf fl result then signed_decimal (fl_int64 fl result) else fl_FormatFloat fl result)"

definition applyMath :: "'f transform_lib \<Rightarrow> attributes \<Rightarrow> 'f MathOp \<Rightarrow> attributes" where
  "applyMath lib as op =
     (let sourceVal = getLabelValue as (math_Source op); fl = tl_floats lib in
      if sourceVal = [] then as
      else case fl_ParseFloat fl sourceVal of
             None \<Rightarrow> as
           | Some num \<Rightarrow>
               (case math_result fl (math_Operation op) num (math_Operand op) of
                  None \<Rightarrow> as
                | Some result \<Rightarrow> setLabel as (math_Target op) (format_result fl result)))"

text \<open>\<open>if x != nil { return ... }\<close>, followed by the rest of the function.\<close>

definition if_given :: "'a option \<Rightarrow> ('a \<Rightarrow> 'b) \<Rightarrow> 'b \<Rightarrow> 'b" where
  "if_given x f rest = (case x of Some a \<Rightarrow> f a | None \<Rightarrow> rest)"

definition applyOperation :: "'f transform_lib \<Rightarrow> 'f compiledOperation \<Rightarrow> attributes \<Rightarrow> attributes option" where
  "applyOperation lib cop as =
     (let op = cop_op cop in
      if op_Remove op \<noteq> [] then Some (applyRemove as (op_Remove op))
      else if_given (op_Set op) (\<lambda>o1. Some (applySet as o1))
        (if_given (op_Rename op) (\<lambda>o1. Some (applyRename as o1))
        (if_given (op_Copy op) (\<lambda>o1. Some (applyCopy as o1))
        (if_given (op_Replace op) (\<lambda>o1. applyReplace as o1 (compiledReplace cop))
        (if_given (op_Extract op) (\<lambda>o1. applyExtract as o1 (compiledExtract cop))
        (if_given (op_HashMod op) (applyHashMod as)
        (if_given (op_Lower op) (\<lambda>o1. Some (applyLower lib as o1))
        (if_given (op_Upper op) (\<lambda>o1. Some (applyUpper lib as o1))
        (if_given (op_Concat op) (\<lambda>o1. Some (applyConcat as o1))
        (if_given (op_Map op) (\<lambda>o1. Some (applyMap as o1 (compiledMap cop)))
        (if_given (op_Math op) (\<lambda>o1. Some (applyMath lib as o1)) (Some as))))))))))))"

fun applyTransformOperations :: "'f transform_lib \<Rightarrow> attributes \<Rightarrow> 'f compiledOperation list \<Rightarrow> attributes option" where
  "applyTransformOperations lib as [] = Some as"
| "applyTransformOperations lib as (cop # cops) = Option.bind (applyOperation lib cop as) (\<lambda>as. applyTransformOperations lib as cops)"

section \<open>Classification\<close>

definition set_chain_labels :: "labels \<Rightarrow> attributes \<Rightarrow> attributes" where
  "set_chain_labels kvs as = foldl (\<lambda>as (k, v). setLabel as k (interpolateLabels v as)) as kvs"

definition classify_chains :: "'f transform_lib \<Rightarrow> compiledClassifyChain list \<Rightarrow> attributes \<Rightarrow> attributes" where
  "classify_chains lib cchains as =
     (case List.find (\<lambda>chain. evaluateConditions (chain_conditions chain) as) cchains of
        Some chain \<Rightarrow> set_chain_labels (tl_range lib (chain_set chain)) as
      | None \<Rightarrow> as)"

definition mapping_lookup :: "compiledClassifyMapping \<Rightarrow> attributes \<Rightarrow> gostring" where
  "mapping_lookup m as =
     (if length (cm_sources m) = 1 then getLabelValue as (hd (cm_sources m))
      else join_strings (cm_separator m) (map (getLabelValue as) (cm_sources m)))"

definition classify_mapping :: "attributes \<Rightarrow> compiledClassifyMapping \<Rightarrow> attributes" where
  "classify_mapping as m =
     (case first_entry (cm_entries m) (mapping_lookup m as) of
        Some v \<Rightarrow> setLabel as (cm_target m) v
      | None \<Rightarrow> if cm_dflt m \<noteq> [] then setLabel as (cm_target m) (cm_dflt m) else as)"

definition applyClassify :: "'f transform_lib \<Rightarrow> attributes \<Rightarrow> compiledClassifyConfig option \<Rightarrow> attributes" where
  "applyClassify lib as cc =
     (case cc of
        None \<Rightarrow> as
      | Some cc \<Rightarrow>
          (let as = classify_chains lib (cc_chains cc) as;
               as = foldl classify_mapping as (cc_mappings cc)
           in if cc_removeAfter cc \<noteq> [] then applyRemove as (cc_removeAfter cc) else as))"

section \<open>Labels as a store\<close>

text \<open>
  The contract of reading and writing labels, and what follows for a sequence of writes: with distinct keys, their order does not matter.
\<close>

locale label_store =
  fixes get :: "'s \<Rightarrow> gostring \<Rightarrow> gostring" and put :: "'s \<Rightarrow> gostring \<Rightarrow> gostring \<Rightarrow> 's"
  assumes get_put: "get (put s k v) k' = (if k' = k then v else get s k')"
begin

lemma get_puts:
  "distinct (map fst kvs) \<Longrightarrow> get (foldl (\<lambda>s (k, v). put s k v) s kvs) k' = (case map_of kvs k' of Some v \<Rightarrow> v | None \<Rightarrow> get s k')"
proof (induction kvs arbitrary: s)
  case (Cons x kvs)
  obtain k v where x: "x = (k, v)" by fastforce
  have "map_of kvs k = None" using Cons.prems by (auto simp: x map_of_eq_None_iff)
  then show ?case using Cons by (auto simp: x get_put split: option.split)
qed simp

lemma get_puts_permuted:
  assumes "mset kvs = mset kvs'" "distinct (map fst kvs)"
  shows "get (foldl (\<lambda>s (k, v). put s k v) s kvs) k' = get (foldl (\<lambda>s (k, v). put s k v) s kvs') k'"
proof -
  have "mset (map fst kvs) = mset (map fst kvs')" using assms(1) by simp
  then have "distinct (map fst kvs')" using assms(2) by (metis mset_eq_imp_distinct_iff)
  moreover from this assms have "map_of kvs = map_of kvs'"
    by (intro map_of_eqI) (auto dest: mset_eq_setD simp: map_of_eq_Some_iff)
  ultimately show ?thesis using assms(2) by (simp add: get_puts)
qed

end

lemma find_at_first:
  assumes "\<And>kv. kv_Key (f kv) = kv_Key kv"
  shows "List.find (\<lambda>kv. kv_Key kv = k') (at_first k f as)
    = (if k' = k then map_option f (List.find (\<lambda>kv. kv_Key kv = k) as) else List.find (\<lambda>kv. kv_Key kv = k') as)"
  using assms by (induction as) auto

lemma find_other_key: "List.find (\<lambda>kv. kv_Key kv = k) as = None \<longleftrightarrow> k \<notin> kv_Key ` set as"
  by (auto simp: find_None_iff)

lemma keys_string_value [simp]: "kv_Key (string_value v kv) = kv_Key kv" "kv_Key (rewrite_value g kv) = kv_Key kv"
  by (simp_all add: string_value_def rewrite_value_def Let_def)

lemma GetStringValue_string_value [simp]:
  "GetStringValue (kv_Value (string_value v kv)) = v" "GetStringValue (kv_Value (rewrite_value g kv)) = g (GetStringValue (kv_Value kv))"
  by (simp_all add: string_value_def rewrite_value_def GetStringValue_def Let_def)

lemma find_append: "List.find P (xs @ ys) = (case List.find P xs of Some x \<Rightarrow> Some x | None \<Rightarrow> List.find P ys)"
  by (induction xs) auto

lemma getLabelValue_setLabel: "getLabelValue (setLabel as k v) k' = (if k' = k then v else getLabelValue as k')"
proof (cases "list_ex (\<lambda>kv. kv_Key kv = k) as")
  case True
  then obtain kv where "List.find (\<lambda>kv. kv_Key kv = k) as = Some kv"
    by (metis (mono_tags, lifting) find_None_iff2 list_ex_iff not_Some_eq)
  then show ?thesis using True by (simp add: setLabel_def getLabelValue_def find_at_first)
next
  case False
  then have "List.find (\<lambda>kv. kv_Key kv = k) as = None" by (auto simp: find_None_iff list_ex_iff)
  then show ?thesis using False by (auto simp: setLabel_def getLabelValue_def find_append GetStringValue_def split: option.split)
qed

interpretation attr_store: label_store getLabelValue setLabel
  by unfold_locales (rule getLabelValue_setLabel)

lemmas get_set = attr_store.get_put

section \<open>Interpolation\<close>

text \<open>Templates as the text between references, and what they look like.\<close>

datatype segment = Lit gostring | Ref gostring

fun render :: "segment list \<Rightarrow> gostring" where
  "render [] = []"
| "render (Lit s # ss) = s @ render ss"
| "render (Ref n # ss) = gostr ''${'' @ n @ gostr ''}'' @ render ss"

fun plain_segment :: "segment \<Rightarrow> bool" where
  "plain_segment (Lit s) = (36 \<notin> set s)"
| "plain_segment (Ref n) = (n \<noteq> [] \<and> 125 \<notin> set n)"

fun segment_value :: "(gostring \<Rightarrow> gostring) \<Rightarrow> segment \<Rightarrow> gostring" where
  "segment_value f (Lit s) = s"
| "segment_value f (Ref n) = f n"

lemma braces: "gostr ''${'' = [36, 123]" "gostr ''}'' = [125]"
  by (simp_all add: gostr_def)

lemma interpolate_lit: "36 \<notin> set s \<Longrightarrow> interpolate f (s @ t) = s @ interpolate f t"
  by (induction s) (auto simp: Let_def)

lemma interpolate_ref:
  assumes "n \<noteq> []" "125 \<notin> set n"
  shows "interpolate f (36 # 123 # n @ 125 # t) = f n @ interpolate f t"
proof -
  have "takeWhile (\<lambda>b. b \<noteq> 125) (n @ 125 # t) = n" "dropWhile (\<lambda>b. b \<noteq> 125) (n @ 125 # t) = 125 # t"
    using assms(2) by (auto simp: takeWhile_append2 dropWhile_append2 takeWhile_tail dropWhile_append3)
  then show ?thesis using assms(1) by (simp add: Let_def)
qed

lemma interpolate_no_ref: "\<not> sublist [36, 123] s \<Longrightarrow> interpolate f s = s"
proof (induction s)
  case (Cons c cs)
  have "\<not> (c = 36 \<and> take 1 cs = [123])"
    using Cons.prems by (cases cs) auto
  moreover have "\<not> sublist [36, 123] cs" using Cons.prems by (simp add: sublist_Cons_right)
  ultimately show ?case using Cons.IH by (auto simp: Let_def)
qed simp

lemma interpolateLabels_interpolate: "interpolateLabels template as = interpolate (getLabelValue as) template"
  by (simp add: interpolateLabels_def braces interpolate_no_ref)

text \<open>
  Interpolation is substitution. In a template made of text without dollar signs and references \<open>${name}\<close> with names that are not empty and have no closing brace, exactly
  the references are replaced by the values of the labels they name, once: values are not scanned again, and a template without references is unchanged.
\<close>

theorem interpolation_substitutes:
  assumes "list_all plain_segment ss"
  shows "interpolateLabels (render ss) as = concat (map (segment_value (getLabelValue as)) ss)"
  unfolding interpolateLabels_interpolate using assms
proof (induction ss rule: render.induct)
  case (3 n ss)
  then show ?case using interpolate_ref [of n "getLabelValue as" "render ss"] by (simp add: braces)
qed (simp_all add: interpolate_lit)

theorem interpolation_substitutes_witness:
  "interpolateLabels (gostr ''${a}-x${b}'') [\<lparr>kv_Key = gostr ''a'', kv_Value = Some (StringValue (gostr ''${b}''))\<rparr>] = gostr ''${b}-x''"
  using interpolation_substitutes [of "[Ref (gostr ''a''), Lit (gostr ''-x''), Ref (gostr ''b'')]" "[\<lparr>kv_Key = gostr ''a'', kv_Value = Some (StringValue (gostr ''${b}''))\<rparr>]"]
  by (simp add: gostr_def getLabelValue_def GetStringValue_def)

section \<open>What operations leave alone\<close>

text \<open>The labels an operation may write, and the keys of a list of attributes.\<close>

definition op_labels :: "'f Operation \<Rightarrow> gostring list" where
  "op_labels op = op_Remove op
     @ (case op_Set op of Some o1 \<Rightarrow> [set_Label o1] | None \<Rightarrow> [])
     @ (case op_Rename op of Some o1 \<Rightarrow> [rename_Source o1, rename_Target o1] | None \<Rightarrow> [])
     @ (case op_Copy op of Some o1 \<Rightarrow> [copy_Target o1] | None \<Rightarrow> [])
     @ (case op_Replace op of Some o1 \<Rightarrow> [replace_Label o1] | None \<Rightarrow> [])
     @ (case op_Extract op of Some o1 \<Rightarrow> [extract_Target o1] | None \<Rightarrow> [])
     @ (case op_HashMod op of Some o1 \<Rightarrow> [hashmod_Target o1] | None \<Rightarrow> [])
     @ (case op_Lower op of Some o1 \<Rightarrow> [ref_Label o1] | None \<Rightarrow> [])
     @ (case op_Upper op of Some o1 \<Rightarrow> [ref_Label o1] | None \<Rightarrow> [])
     @ (case op_Concat op of Some o1 \<Rightarrow> [concat_Target o1] | None \<Rightarrow> [])
     @ (case op_Map op of Some o1 \<Rightarrow> [map_Target o1] | None \<Rightarrow> [])
     @ (case op_Math op of Some o1 \<Rightarrow> [math_Target o1] | None \<Rightarrow> [])"

abbreviation attr_keys :: "attributes \<Rightarrow> gostring list" where
  "attr_keys as \<equiv> map kv_Key as"

lemma getLabelValue_filter:
  "(\<And>kv. kv_Key kv = k \<Longrightarrow> P kv) \<Longrightarrow> getLabelValue (filter P as) k = getLabelValue as k"
  unfolding getLabelValue_def by (induction as) (auto split: option.splits)

lemma getLabelValue_rename: "k \<noteq> src \<Longrightarrow> k \<noteq> dst \<Longrightarrow> getLabelValue (at_first src (\<lambda>kv. kv\<lparr>kv_Key := dst\<rparr>) as) k = getLabelValue as k"
  unfolding getLabelValue_def by (induction as) (auto split: option.splits)

lemma getLabelValue_rewrite: "k \<noteq> l \<Longrightarrow> getLabelValue (at_first l (rewrite_value g) as) k = getLabelValue as k"
  by (simp add: getLabelValue_def find_at_first)

lemmas operation_defs = applyRemove_def applySet_def applyRename_def applyCopy_def applyReplace_def applyExtract_def applyHashMod_def applyLower_def
  applyUpper_def applyConcat_def applyMap_def applyMath_def

text \<open>At most one of the labels is written.\<close>

definition written :: "gostring list \<Rightarrow> attributes \<Rightarrow> attributes \<Rightarrow> bool" where
  "written ls as as' \<longleftrightarrow> as' = as \<or> (\<exists>l \<in> set ls. (\<exists>v. as' = setLabel as l v) \<or> (\<exists>g. as' = at_first l (rewrite_value g) as))"

lemma written_intros:
  "written ls as as" "l \<in> set ls \<Longrightarrow> written ls as (setLabel as l v)" "l \<in> set ls \<Longrightarrow> written ls as (at_first l (rewrite_value g) as)"
  by (auto simp: written_def)

lemma op_labels_member:
  "op_Set op = Some o1 \<Longrightarrow> set_Label o1 \<in> set (op_labels op)"
  "op_Copy op = Some o2 \<Longrightarrow> copy_Target o2 \<in> set (op_labels op)"
  "op_Replace op = Some o3 \<Longrightarrow> replace_Label o3 \<in> set (op_labels op)"
  "op_Extract op = Some o4 \<Longrightarrow> extract_Target o4 \<in> set (op_labels op)"
  "op_HashMod op = Some o5 \<Longrightarrow> hashmod_Target o5 \<in> set (op_labels op)"
  "op_Lower op = Some o6 \<Longrightarrow> ref_Label o6 \<in> set (op_labels op)"
  "op_Upper op = Some o7 \<Longrightarrow> ref_Label o7 \<in> set (op_labels op)"
  "op_Concat op = Some o8 \<Longrightarrow> concat_Target o8 \<in> set (op_labels op)"
  "op_Map op = Some o9 \<Longrightarrow> map_Target o9 \<in> set (op_labels op)"
  "op_Math op = Some o10 \<Longrightarrow> math_Target o10 \<in> set (op_labels op)"
  by (simp_all add: op_labels_def)

lemma applyOperation_effect:
  assumes "applyOperation lib cop as = Some as'"
  shows "as' = applyRemove as (op_Remove (cop_op cop)) \<or> (\<exists>o1. op_Rename (cop_op cop) = Some o1 \<and> as' = applyRename as o1)
    \<or> written (op_labels (cop_op cop)) as as'"
  using assms unfolding applyOperation_def if_given_def Let_def
  by (auto simp: applySet_def applyCopy_def applyReplace_def applyExtract_def applyHashMod_def applyLower_def applyUpper_def applyConcat_def applyMap_def applyMath_def Let_def
      split: option.splits if_splits bind_splits intro: written_intros op_labels_member)

lemma applyOperation_frame:
  assumes "applyOperation lib cop as = Some as'" "k \<notin> set (op_labels (cop_op cop))"
  shows "getLabelValue as' k = getLabelValue as k"
proof -
  have "k \<notin> set (op_Remove (cop_op cop))"
    and "\<And>o1. op_Rename (cop_op cop) = Some o1 \<Longrightarrow> k \<noteq> rename_Source o1 \<and> k \<noteq> rename_Target o1"
    using assms(2) by (auto simp: op_labels_def)
  then show ?thesis
    using applyOperation_effect [OF assms(1)] assms(2) getLabelValue_rewrite [of k _ _ as]
    by (fastforce simp: applyRemove_def applyRename_def written_def get_set getLabelValue_filter getLabelValue_rename)
qed

lemma keys_at_first: "(\<And>kv. kv_Key (f kv) = kv_Key kv) \<Longrightarrow> attr_keys (at_first k f as) = attr_keys as"
  by (induction as) auto

lemma keys_setLabel: "attr_keys (setLabel as k v) = (if k \<in> set (attr_keys as) then attr_keys as else attr_keys as @ [k])"
  by (auto simp: setLabel_def keys_at_first list_ex_iff)

lemma keys_written: "written ls as as' \<Longrightarrow> distinct (attr_keys as) \<Longrightarrow> distinct (attr_keys as')"
  by (auto simp: written_def keys_setLabel keys_at_first)

lemma keys_rename:
  "distinct (attr_keys as) \<Longrightarrow> dst \<notin> set (attr_keys as) \<Longrightarrow> distinct (attr_keys (at_first src (\<lambda>kv. kv\<lparr>kv_Key := dst\<rparr>) as))
     \<and> set (attr_keys (at_first src (\<lambda>kv. kv\<lparr>kv_Key := dst\<rparr>) as)) \<subseteq> insert dst (set (attr_keys as))"
  by (induction as) auto

text \<open>The operations do not rename.\<close>

definition renames_nothing :: "'f compiledOperation list \<Rightarrow> bool" where
  "renames_nothing cops = list_all (\<lambda>cop. op_Rename (cop_op cop) = None) cops"

lemma applyOperation_keys:
  assumes "applyOperation lib cop as = Some as'" "op_Rename (cop_op cop) = None" "distinct (attr_keys as)"
  shows "distinct (attr_keys as')"
  using applyOperation_effect [OF assms(1)] assms(2,3) keys_written
  by (auto simp: applyRemove_def distinct_map_filter)

text \<open>
  A transformation touches only the labels its operations name. Whatever the operations, the regular expressions and the attributes: when the operations run through, every label that none of them
  removes, renames or names as its target still has its value; and, without rename operations, attributes with distinct keys still have distinct keys.
\<close>

theorem transform_touches_only_targets:
  assumes "applyTransformOperations lib as cops = Some as'"
  shows "(\<forall>k. k \<notin> (\<Union>cop \<in> set cops. set (op_labels (cop_op cop))) \<longrightarrow> getLabelValue as' k = getLabelValue as k)
    \<and> (renames_nothing cops \<longrightarrow> distinct (attr_keys as) \<longrightarrow> distinct (attr_keys as'))"
  using assms
proof (induction cops arbitrary: as)
  case (Cons cop cops)
  obtain bs where bs: "applyOperation lib cop as = Some bs" "applyTransformOperations lib bs cops = Some as'"
    using Cons.prems by (auto split: bind_splits)
  show ?case
    using Cons.IH [OF bs(2)] applyOperation_frame [OF bs(1)] applyOperation_keys [OF bs(1)] by (auto simp: renames_nothing_def)
qed (simp add: renames_nothing_def)

text \<open>Concrete operations and libraries for the witnesses.\<close>

definition no_operation :: "'f Operation" where
  "no_operation = \<lparr>op_Remove = [], op_Set = None, op_Rename = None, op_Copy = None, op_Replace = None, op_Extract = None, op_HashMod = None,
     op_Lower = None, op_Upper = None, op_Concat = None, op_Map = None, op_Math = None\<rparr>"

definition compiled_plain :: "'f Operation \<Rightarrow> 'f compiledOperation" where
  "compiled_plain op = \<lparr>cop_op = op, compiledReplace = None, compiledExtract = None, compiledMap = []\<rparr>"

definition attr :: "string \<Rightarrow> string \<Rightarrow> KeyValue" where
  "attr k v = \<lparr>kv_Key = gostr k, kv_Value = Some (StringValue (gostr v))\<rparr>"

definition int_lib :: "int transform_lib" where
  "int_lib = \<lparr>tl_floats = int_floats, tl_ToLower = id, tl_ToUpper = id, tl_range = id\<rparr>"

definition copy_ab :: "int Operation" where
  "copy_ab = no_operation\<lparr>op_Copy := Some \<lparr>copy_Source = gostr ''a'', copy_Target = gostr ''b''\<rparr>\<rparr>"

lemmas sample_ops = no_operation_def compiled_plain_def attr_def int_lib_def copy_ab_def gostr_def

theorem transform_touches_only_targets_witness:
  "applyTransformOperations int_lib [attr ''a'' ''x'', attr ''c'' ''y''] [compiled_plain copy_ab] = Some [attr ''a'' ''x'', attr ''c'' ''y'', attr ''b'' ''x'']
   \<and> getLabelValue [attr ''a'' ''x'', attr ''c'' ''y'', attr ''b'' ''x''] (gostr ''c'') = gostr ''y''"
proof -
  let ?as = "[attr ''a'' ''x'', attr ''c'' ''y'']" and ?as' = "[attr ''a'' ''x'', attr ''c'' ''y'', attr ''b'' ''x'']"
  have a: "applyTransformOperations int_lib ?as [compiled_plain copy_ab] = Some ?as'"
    by (simp add: sample_ops applyOperation_def if_given_def applyCopy_def getLabelValue_def GetStringValue_def setLabel_def Let_def)
  have "getLabelValue ?as' (gostr ''c'') = getLabelValue ?as (gostr ''c'')"
    using transform_touches_only_targets [OF a] by (simp add: sample_ops op_labels_def)
  then show ?thesis using a by (simp add: sample_ops getLabelValue_def GetStringValue_def)
qed

text \<open>
  Renaming onto a label that is there leaves two attributes with the same key: when both labels of a rename exist, the operation runs through, and the target label then occurs twice.
\<close>

theorem rename_duplicates_key:
  assumes "rename_Source o1 \<in> set (attr_keys as)" "rename_Target o1 \<in> set (attr_keys as)" "rename_Source o1 \<noteq> rename_Target o1"
  shows "length (filter (\<lambda>kv. kv_Key kv = rename_Target o1) (applyRename as o1)) \<ge> 2"
proof -
  have "length (filter (\<lambda>kv. kv_Key kv = t) (at_first s (\<lambda>kv. kv\<lparr>kv_Key := t\<rparr>) as)) = Suc (length (filter (\<lambda>kv. kv_Key kv = t) as))"
    if "s \<in> set (attr_keys as)" "s \<noteq> t" for s t :: gostring and as
    using that by (induction as) auto
  moreover have "filter (\<lambda>kv. kv_Key kv = rename_Target o1) as \<noteq> []" using assms(2) by (auto simp: filter_empty_conv)
  ultimately show ?thesis
    using assms(1,3) by (simp add: applyRename_def Suc_le_eq)
qed

theorem rename_duplicates_key_witness:
  "map kv_Key (applyRename [attr ''a'' ''x'', attr ''b'' ''y''] \<lparr>rename_Source = gostr ''a'', rename_Target = gostr ''b''\<rparr>) = [gostr ''b'', gostr ''b'']
   \<and> 2 \<le> length (filter (\<lambda>kv. kv_Key kv = gostr ''b'') (applyRename [attr ''a'' ''x'', attr ''b'' ''y''] \<lparr>rename_Source = gostr ''a'', rename_Target = gostr ''b''\<rparr>))"
  using rename_duplicates_key [of "\<lparr>rename_Source = gostr ''a'', rename_Target = gostr ''b''\<rparr>" "[attr ''a'' ''x'', attr ''b'' ''y'']"]
  by (simp add: applyRename_def attr_def gostr_def)

section \<open>Classification and the order of maps\<close>

definition no_reference :: "gostring \<Rightarrow> bool" where
  "no_reference s \<longleftrightarrow> \<not> sublist (gostr ''${'') s"

lemma set_chain_labels_plain:
  "list_all (\<lambda>(_, v). no_reference v) kvs \<Longrightarrow> set_chain_labels kvs as = foldl (\<lambda>as (k, v). setLabel as k v) as kvs"
  unfolding set_chain_labels_def
  by (induction kvs arbitrary: as) (auto simp: no_reference_def interpolateLabels_def)

text \<open>
  Without interpolation, the order in which Go ranges over a map does not matter for classification: when the label values set by a chain have no \<open>${\<close>, then any two orders of its map lead
  to attributes with the same label values, namely those of the map, and the old value for every other label.
\<close>

theorem chain_order_irrelevant:
  assumes "mset kvs = mset m" "distinct (map fst m)" "list_all (\<lambda>(_, v). no_reference v) m"
  shows "getLabelValue (set_chain_labels kvs as) k = (case map_of m k of Some v \<Rightarrow> v | None \<Rightarrow> getLabelValue as k)"
proof -
  have "list_all (\<lambda>(_, v). no_reference v) kvs" using assms(1,3) mset_eq_setD [OF assms(1)] by (simp add: list_all_iff)
  moreover have "mset (map fst kvs) = mset (map fst m)" using assms(1) by simp
  then have "distinct (map fst kvs)" using assms(2) by (metis mset_eq_imp_distinct_iff)
  ultimately show ?thesis
    using attr_store.get_puts [OF assms(2)] attr_store.get_puts_permuted [OF assms(1)] by (simp add: set_chain_labels_plain)
qed

theorem chain_order_irrelevant_witness:
  "getLabelValue (set_chain_labels [(gostr ''b'', gostr ''2''), (gostr ''a'', gostr ''1'')] []) (gostr ''a'') = gostr ''1''"
  using chain_order_irrelevant [of "[(gostr ''b'', gostr ''2''), (gostr ''a'', gostr ''1'')]" "[(gostr ''a'', gostr ''1''), (gostr ''b'', gostr ''2'')]" "[]" "gostr ''a''"]
  by (simp add: gostr_def no_reference_def sublist_Cons_right)

text \<open>
  With interpolation it matters: a chain that sets \<open>a\<close> to a constant and \<open>b\<close> to \<open>${a}\<close> gives \<open>b\<close> the new or the old value of \<open>a\<close>, depending on the order.
\<close>

definition dependent_labels :: labels where
  "dependent_labels = [(gostr ''a'', gostr ''new''), (gostr ''b'', gostr ''${a}'')]"

lemma chain_order_matters:
  "getLabelValue (set_chain_labels dependent_labels [attr ''a'' ''old'']) (gostr ''b'') = gostr ''new''"
  "getLabelValue (set_chain_labels (rev dependent_labels) [attr ''a'' ''old'']) (gostr ''b'') = gostr ''old''"
  by (simp_all add: dependent_labels_def set_chain_labels_def interpolateLabels_interpolate get_set attr_def gostr_def getLabelValue_def GetStringValue_def setLabel_def string_value_def Let_def)

end
