(* ===== verification/Processing_Config.thy ===== *)
theory Processing_Config
  imports Transform Downsample Rule_Activity
begin

text \<open>
  The configuration of the processing engine: \<open>internal/sampling/processing_config.go\<close>. A rule is one record with the fields of the file and the compiled
  ones; validation returns the configuration with its rules compiled, or the first error. YAML, files, durations, float scanning, white space and regular expressions
  are the record \<open>processing_lib\<close>. Go maps are association lists, ranged over in the order \<open>tl_range\<close>. The Prometheus counters that validation resolves are left out.
\<close>

section \<open>Types\<close>

datatype ProcessingAction = ProcUnset | ProcSample | ProcDownsample | ProcAggregate | ProcTransform | ProcClassify | ProcDrop | ProcOther gostring

datatype AggFunc = AggSum | AggAvg | AggMin | AggMax | AggCount | AggLast | AggIncrease | AggRate | AggStddev | AggStdvar | AggQuantiles

record 'f parsedAggFunc =
  pf_Func :: AggFunc
  pf_Quantiles :: "'f list"

record ClassifyChain =
  ch_When :: "Condition list"
  ch_Set :: labels

record ClassifyMapping =
  mp_Source :: gostring
  mp_Sources :: "gostring list"
  mp_Separator :: gostring
  mp_Target :: gostring
  mp_Values :: labels
  mp_Default :: gostring

record ClassifyConfig =
  cl_Chains :: "ClassifyChain list"
  cl_Mappings :: "ClassifyMapping list"
  cl_RemoveAfter :: "gostring list"

record 'f ProcessingRule =
  pr_Name :: gostring
  pr_Input :: gostring
  pr_InputLabels :: labels
  pr_Action :: ProcessingAction
  pr_Labels :: labels
  pr_Rate :: 'f
  pr_Method :: gostring
  pr_Interval :: gostring
  pr_Resolution :: int
  pr_Deviation :: 'f
  pr_MinRate :: 'f
  pr_MaxRate :: 'f
  pr_VarianceWindow :: int
  pr_Output :: gostring
  pr_GroupBy :: "gostring list"
  pr_DropLabels :: "gostring list"
  pr_Functions :: "gostring list"
  pr_KeepInput :: bool
  pr_When :: "Condition list"
  pr_Operations :: "'f Operation list"
  pr_Classify :: "ClassifyConfig option"
  compiledInput :: "sub_regexp option"
  compiledLabels :: "(gostring \<times> sub_regexp) list"
  parsedInterval :: int
  parsedFunctions :: "'f parsedAggFunc list"
  dsConfig :: "'f DownsampleConfig option"
  compiledOps :: "'f compiledOperation list"
  compiledClassify :: "compiledClassifyConfig option"
  pr_dead :: Activity
  inputPrefix :: gostring

record 'f ProcessingConfig =
  StalenessInterval :: gostring
  DeadRuleInterval :: gostring
  RequiredLabels :: "gostring list"
  Rules :: "'f ProcessingRule list"
  parsedStaleness :: int
  parsedDeadRuleIntvl :: int

datatype Strategy = StrategyUnset | StrategyHead | StrategyProbabilistic | StrategyDownsample | StrategyOther gostring

record 'f LegacyRule =
  old_Name :: gostring
  old_Match :: labels
  old_Rate :: 'f
  old_Strategy :: Strategy
  old_Downsample :: "'f DownsampleConfig option"

record 'f FileConfig =
  old_DefaultRate :: 'f
  old_FileStrategy :: Strategy
  old_Rules :: "'f LegacyRule list"

text \<open>The probe for the old format: whether there is a default rate, the strategy, the actions of the rules.\<close>

record probe =
  probe_DefaultRate :: bool
  probe_Strategy :: gostring
  probe_Actions :: "gostring list"

record 'f processing_lib = "'f transform_lib" +
  pl_Compile :: "gostring \<Rightarrow> sub_regexp option"
  pl_ParseDuration :: "gostring \<Rightarrow> int option"
  pl_ScanFloat :: "gostring \<Rightarrow> 'f option"
  pl_TrimSpace :: "gostring \<Rightarrow> gostring"
  pl_ReadFile :: "gostring \<Rightarrow> bytes option"
  pl_Probe :: "bytes \<Rightarrow> probe option"
  pl_UnmarshalOld :: "bytes \<Rightarrow> 'f FileConfig option"
  pl_Unmarshal :: "bytes \<Rightarrow> 'f ProcessingConfig option"

datatype rule_error =
    InputRequired | InputRegex gostring | LabelReserved gostring | LabelMissing gostring | LabelRegex gostring | UnknownAction ProcessingAction
  | RateRange | MethodUnknown gostring | MethodRequired | DownsampleError downsample_error
  | IntervalRequired | IntervalInvalid gostring | IntervalNotPositive | GroupAndDrop | NoFunctions | QuantileInvalid gostring | QuantileRange | UnknownFunction gostring
  | NoOperations | WhenLabel nat | WhenRegex nat gostring | OperationField nat string | OperationRegex nat gostring | NoOperation nat | ManyOperations nat nat
  | ClassifyRequired | ClassifyEmpty | ChainWhen nat | ChainSet nat | ChainLabel nat nat | ChainRegex nat nat gostring
  | MappingTarget nat | MappingSource nat | MappingValues nat | MappingRegex nat gostring

datatype processing_error =
    ReadConfig | ParseConfig | ParseLegacy | StalenessInvalid gostring | StalenessNotPositive | DeadRuleInvalid gostring | DeadRuleNegative
  | NameRequired nat | DuplicateName nat gostring | RuleError gostring rule_error

type_synonym 'a checked = "(rule_error, 'a) outcome"

section \<open>Compiling\<close>

definition anchored :: "gostring \<Rightarrow> gostring" where
  "anchored p = gostr ''^(?:'' @ p @ gostr '')$''"

definition compile_or :: "'f processing_lib \<Rightarrow> rule_error \<Rightarrow> gostring \<Rightarrow> sub_regexp checked" where
  "compile_or lib e p = (case pl_Compile lib p of Some re \<Rightarrow> Ok re | None \<Rightarrow> Err e)"

text \<open>A loop that checks and converts element by element and stops at the first error.\<close>

fun check_each :: "(nat \<Rightarrow> 'a \<Rightarrow> 'b checked) \<Rightarrow> nat \<Rightarrow> 'a list \<Rightarrow> 'b list checked" where
  "check_each f i [] = Ok []"
| "check_each f i (x # xs) = bind_outcome (f i x) (\<lambda>y. bind_outcome (check_each f (i + 1) xs) (\<lambda>ys. Ok (y # ys)))"

definition compile_condition :: "'f processing_lib \<Rightarrow> rule_error \<Rightarrow> (gostring \<Rightarrow> rule_error) \<Rightarrow> Condition \<Rightarrow> Condition checked" where
  "compile_condition lib noLabel badRegex c =
     (if cond_Label c = [] then Err noLabel
      else bind_outcome
        (if cond_Matches c \<noteq> [] then bind_outcome (compile_or lib (badRegex (cond_Matches c)) (anchored (cond_Matches c))) (\<lambda>re. Ok (c\<lparr>compiledMatches := Some re\<rparr>))
         else Ok c)
        (\<lambda>c. if cond_NotMatches c \<noteq> [] then bind_outcome (compile_or lib (badRegex (cond_NotMatches c)) (anchored (cond_NotMatches c))) (\<lambda>re. Ok (c\<lparr>compiledNotMatches := Some re\<rparr>))
             else Ok c))"

definition compile_entries :: "'f processing_lib \<Rightarrow> (gostring \<Rightarrow> rule_error) \<Rightarrow> labels \<Rightarrow> compiledMapEntry list checked" where
  "compile_entries lib badRegex values =
     check_each (\<lambda>_ (p, v). bind_outcome (compile_or lib (badRegex p) (anchored p)) (\<lambda>re. Ok \<lparr>entry_pattern = re, entry_value = v\<rparr>)) 0 (tl_range lib values)"

text \<open>The field checks of \<open>compileOperation\<close>, in order: the first one that fails.\<close>

definition require :: "bool \<Rightarrow> rule_error \<Rightarrow> unit checked" where
  "require b e = (if b then Ok () else Err e)"

definition set_count :: "'f Operation \<Rightarrow> nat" where
  "set_count op = (if op_Remove op \<noteq> [] then 1 else 0) + (if op_Set op \<noteq> None then 1 else 0) + (if op_Rename op \<noteq> None then 1 else 0) + (if op_Copy op \<noteq> None then 1 else 0)
     + (if op_Replace op \<noteq> None then 1 else 0) + (if op_Extract op \<noteq> None then 1 else 0) + (if op_HashMod op \<noteq> None then 1 else 0) + (if op_Lower op \<noteq> None then 1 else 0)
     + (if op_Upper op \<noteq> None then 1 else 0) + (if op_Concat op \<noteq> None then 1 else 0) + (if op_Map op \<noteq> None then 1 else 0) + (if op_Math op \<noteq> None then 1 else 0)"

definition math_operations :: "gostring list" where
  "math_operations = map gostr [''add'', ''sub'', ''mul'', ''div'', ''mod'']"

definition compile_simple_fields :: "nat \<Rightarrow> 'f Operation \<Rightarrow> unit checked" where
  "compile_simple_fields i op =
     bind_outcome (case op_Set op of Some o1 \<Rightarrow> require (set_Label o1 \<noteq> []) (OperationField i ''set'') | None \<Rightarrow> Ok ()) (\<lambda>_.
     bind_outcome (case op_Rename op of Some o1 \<Rightarrow> require (rename_Source o1 \<noteq> [] \<and> rename_Target o1 \<noteq> []) (OperationField i ''rename'') | None \<Rightarrow> Ok ()) (\<lambda>_.
     (case op_Copy op of Some o1 \<Rightarrow> require (copy_Source o1 \<noteq> [] \<and> copy_Target o1 \<noteq> []) (OperationField i ''copy'') | None \<Rightarrow> Ok ())))"

definition compile_replace :: "'f processing_lib \<Rightarrow> nat \<Rightarrow> 'f compiledOperation \<Rightarrow> 'f compiledOperation checked" where
  "compile_replace lib i co =
     (case op_Replace (cop_op co) of
        None \<Rightarrow> Ok co
      | Some o1 \<Rightarrow> bind_outcome (require (replace_Label o1 \<noteq> [] \<and> replace_Pattern o1 \<noteq> []) (OperationField i ''replace'')) (\<lambda>_.
          bind_outcome (compile_or lib (OperationRegex i (replace_Pattern o1)) (replace_Pattern o1)) (\<lambda>re. Ok (co\<lparr>compiledReplace := Some re\<rparr>))))"

definition compile_extract :: "'f processing_lib \<Rightarrow> nat \<Rightarrow> 'f compiledOperation \<Rightarrow> 'f compiledOperation checked" where
  "compile_extract lib i co =
     (case op_Extract (cop_op co) of
        None \<Rightarrow> Ok co
      | Some o1 \<Rightarrow> bind_outcome (require (extract_Source o1 \<noteq> [] \<and> extract_Target o1 \<noteq> [] \<and> extract_Pattern o1 \<noteq> []) (OperationField i ''extract'')) (\<lambda>_.
          bind_outcome (compile_or lib (OperationRegex i (extract_Pattern o1)) (extract_Pattern o1)) (\<lambda>re. Ok (co\<lparr>compiledExtract := Some re\<rparr>))))"

definition compile_target_fields :: "nat \<Rightarrow> 'f Operation \<Rightarrow> unit checked" where
  "compile_target_fields i op =
     bind_outcome (case op_HashMod op of
         Some o1 \<Rightarrow> bind_outcome (require (hashmod_Source o1 \<noteq> [] \<and> hashmod_Target o1 \<noteq> []) (OperationField i ''hash_mod''))
                      (\<lambda>_. require (hashmod_Modulus o1 \<noteq> 0) (OperationField i ''hash_mod.modulus''))
       | None \<Rightarrow> Ok ()) (\<lambda>_.
     bind_outcome (case op_Lower op of Some o1 \<Rightarrow> require (ref_Label o1 \<noteq> []) (OperationField i ''lower'') | None \<Rightarrow> Ok ()) (\<lambda>_.
     bind_outcome (case op_Upper op of Some o1 \<Rightarrow> require (ref_Label o1 \<noteq> []) (OperationField i ''upper'') | None \<Rightarrow> Ok ()) (\<lambda>_.
     (case op_Concat op of
         Some o1 \<Rightarrow> bind_outcome (require (length (concat_Sources o1) \<ge> 2) (OperationField i ''concat'')) (\<lambda>_. require (concat_Target o1 \<noteq> []) (OperationField i ''concat.target''))
       | None \<Rightarrow> Ok ()))))"

definition compile_map :: "'f processing_lib \<Rightarrow> nat \<Rightarrow> 'f compiledOperation \<Rightarrow> 'f compiledOperation checked" where
  "compile_map lib i co =
     (case op_Map (cop_op co) of
        None \<Rightarrow> Ok co
      | Some o1 \<Rightarrow> bind_outcome (require (map_Source o1 \<noteq> [] \<and> map_Target o1 \<noteq> []) (OperationField i ''map'')) (\<lambda>_.
          bind_outcome (require (map_Values o1 \<noteq> []) (OperationField i ''map.values'')) (\<lambda>_.
          bind_outcome (compile_entries lib (OperationRegex i) (map_Values o1)) (\<lambda>es. Ok (co\<lparr>compiledMap := es\<rparr>)))))"

definition compile_math :: "nat \<Rightarrow> 'f Operation \<Rightarrow> unit checked" where
  "compile_math i op =
     (case op_Math op of
        None \<Rightarrow> Ok ()
      | Some o1 \<Rightarrow> bind_outcome (require (math_Source o1 \<noteq> [] \<and> math_Target o1 \<noteq> []) (OperationField i ''math''))
                      (\<lambda>_. require (math_Operation o1 \<in> set math_operations) (OperationField i ''math.operation'')))"

definition compileOperation :: "'f processing_lib \<Rightarrow> nat \<Rightarrow> 'f Operation \<Rightarrow> 'f compiledOperation checked" where
  "compileOperation lib i op =
     bind_outcome (compile_simple_fields i op) (\<lambda>_.
     bind_outcome (compile_replace lib i \<lparr>cop_op = op, compiledReplace = None, compiledExtract = None, compiledMap = []\<rparr>) (\<lambda>co.
     bind_outcome (compile_extract lib i co) (\<lambda>co.
     bind_outcome (compile_target_fields i op) (\<lambda>_.
     bind_outcome (compile_map lib i co) (\<lambda>co.
     bind_outcome (compile_math i op) (\<lambda>_.
     if set_count op = 0 then Err (NoOperation i)
     else if set_count op > 1 then Err (ManyOperations i (set_count op))
     else Ok co))))))"

section \<open>Validating rules\<close>

definition validateTransformRule :: "'f processing_lib \<Rightarrow> 'f ProcessingRule \<Rightarrow> 'f ProcessingRule checked" where
  "validateTransformRule lib r =
     (if pr_Operations r = [] then Err NoOperations
      else bind_outcome (check_each (\<lambda>i. compile_condition lib (WhenLabel i) (WhenRegex i)) 0 (pr_When r)) (\<lambda>conds.
           bind_outcome (check_each (compileOperation lib) 0 (pr_Operations r)) (\<lambda>cops.
           Ok (r\<lparr>pr_When := conds, compiledOps := compiledOps r @ cops\<rparr>))))"

definition compile_chain :: "'f processing_lib \<Rightarrow> nat \<Rightarrow> ClassifyChain \<Rightarrow> compiledClassifyChain checked" where
  "compile_chain lib i chain =
     (if ch_When chain = [] then Err (ChainWhen i)
      else if ch_Set chain = [] then Err (ChainSet i)
      else bind_outcome (check_each (\<lambda>j. compile_condition lib (ChainLabel i j) (ChainRegex i j)) 0 (ch_When chain))
             (\<lambda>conds. Ok \<lparr>chain_conditions = conds, chain_set = ch_Set chain\<rparr>))"

definition compile_mapping :: "'f processing_lib \<Rightarrow> nat \<Rightarrow> ClassifyMapping \<Rightarrow> compiledClassifyMapping checked" where
  "compile_mapping lib i m =
     (if mp_Target m = [] then Err (MappingTarget i)
      else if mp_Source m = [] \<and> mp_Sources m = [] then Err (MappingSource i)
      else if mp_Values m = [] then Err (MappingValues i)
      else bind_outcome (compile_entries lib (MappingRegex i) (mp_Values m)) (\<lambda>es.
             Ok \<lparr>cm_sources = (if mp_Source m \<noteq> [] then [mp_Source m] else mp_Sources m),
                 cm_separator = (if mp_Separator m = [] then gostr '':'' else mp_Separator m),
                 cm_target = mp_Target m, cm_entries = es, cm_dflt = mp_Default m\<rparr>))"

definition validateClassifyRule :: "'f processing_lib \<Rightarrow> 'f ProcessingRule \<Rightarrow> 'f ProcessingRule checked" where
  "validateClassifyRule lib r =
     (case pr_Classify r of
        None \<Rightarrow> Err ClassifyRequired
      | Some cc \<Rightarrow>
          if cl_Chains cc = [] \<and> cl_Mappings cc = [] then Err ClassifyEmpty
          else bind_outcome (check_each (compile_chain lib) 0 (cl_Chains cc)) (\<lambda>chs.
               bind_outcome (check_each (compile_mapping lib) 0 (cl_Mappings cc)) (\<lambda>mps.
               Ok (r\<lparr>compiledClassify := Some \<lparr>cc_chains = chs, cc_mappings = mps, cc_removeAfter = cl_RemoveAfter cc\<rparr>\<rparr>))))"

definition validateSampleRule :: "'f processing_lib \<Rightarrow> 'f ProcessingRule \<Rightarrow> 'f ProcessingRule checked" where
  "validateSampleRule lib r =
     (let fl = tl_floats lib in
      if fl_less fl (pr_Rate r) (fl_zero fl) \<or> fl_greater fl (pr_Rate r) (fl_one fl) then Err RateRange
      else let r = (if pr_Method r = [] then r\<lparr>pr_Method := gostr ''head''\<rparr> else r)
           in if pr_Method r \<noteq> gostr ''head'' \<and> pr_Method r \<noteq> gostr ''probabilistic'' then Err (MethodUnknown (pr_Method r)) else Ok r)"

definition validateDownsampleRule :: "'f processing_lib \<Rightarrow> 'f ProcessingRule \<Rightarrow> 'f ProcessingRule checked" where
  "validateDownsampleRule lib r =
     (if pr_Method r = [] then Err MethodRequired
      else if \<not> validMethods (ds_method (pr_Method r)) then Err (MethodUnknown (pr_Method r))
      else bind_outcome
        (map_err DownsampleError (ds_validate (tl_floats lib) (pl_ParseDuration lib)
           \<lparr>dc_Method = ds_method (pr_Method r), dc_Window = pr_Interval r, dc_Resolution = pr_Resolution r, dc_Deviation = pr_Deviation r,
            dc_MinRate = pr_MinRate r, dc_MaxRate = pr_MaxRate r, dc_VarianceWindow = pr_VarianceWindow r, parsedWindow = 0\<rparr>))
        (\<lambda>dc. Ok (r\<lparr>dsConfig := Some dc, parsedInterval := parsedWindow dc\<rparr>)))"

text \<open>\<open>strings.Split(s, ",")\<close>.\<close>

fun split_commas :: "gostring \<Rightarrow> gostring list" where
  "split_commas [] = [[]]"
| "split_commas (c # cs) = (if c = 44 then [] # split_commas cs else (case split_commas cs of p # ps \<Rightarrow> (c # p) # ps | [] \<Rightarrow> [[c]]))"

definition agg_names :: "(gostring \<times> AggFunc) list" where
  "agg_names = [(gostr ''sum'', AggSum), (gostr ''avg'', AggAvg), (gostr ''min'', AggMin), (gostr ''max'', AggMax), (gostr ''count'', AggCount), (gostr ''last'', AggLast),
     (gostr ''increase'', AggIncrease), (gostr ''rate'', AggRate), (gostr ''stddev'', AggStddev), (gostr ''stdvar'', AggStdvar)]"

definition parse_quantile :: "'f processing_lib \<Rightarrow> gostring \<Rightarrow> 'f checked" where
  "parse_quantile lib p =
     (let p = pl_TrimSpace lib p; fl = tl_floats lib in
      case pl_ScanFloat lib p of
        None \<Rightarrow> Err (QuantileInvalid p)
      | Some q \<Rightarrow> if fl_less fl q (fl_zero fl) \<or> fl_greater fl q (fl_one fl) then Err QuantileRange else Ok q)"

definition parseAggFunc :: "'f processing_lib \<Rightarrow> gostring \<Rightarrow> 'f parsedAggFunc checked" where
  "parseAggFunc lib s =
     (let s = pl_TrimSpace lib s; open_q = gostr ''quantiles('' in
      if prefix open_q s \<and> suffix (gostr '')'') s then
        bind_outcome (check_each (\<lambda>_. parse_quantile lib) 0 (split_commas (butlast (drop (length open_q) s))))
          (\<lambda>qs. Ok \<lparr>pf_Func = AggQuantiles, pf_Quantiles = qs\<rparr>)
      else case map_of agg_names s of Some f \<Rightarrow> Ok \<lparr>pf_Func = f, pf_Quantiles = []\<rparr> | None \<Rightarrow> Err (UnknownFunction s))"

definition validateAggregateRule :: "'f processing_lib \<Rightarrow> 'f ProcessingRule \<Rightarrow> 'f ProcessingRule checked" where
  "validateAggregateRule lib r =
     (if pr_Interval r = [] then Err IntervalRequired
      else case pl_ParseDuration lib (pr_Interval r) of
             None \<Rightarrow> Err (IntervalInvalid (pr_Interval r))
           | Some d \<Rightarrow>
               if d \<le> 0 then Err IntervalNotPositive
               else if pr_GroupBy r \<noteq> [] \<and> pr_DropLabels r \<noteq> [] then Err GroupAndDrop
               else if pr_Functions r = [] then Err NoFunctions
               else bind_outcome (check_each (\<lambda>_. parseAggFunc lib) 0 (pr_Functions r))
                      (\<lambda>fs. Ok (r\<lparr>parsedInterval := d, parsedFunctions := parsedFunctions r @ fs\<rparr>)))"

text \<open>The bytes that \<open>extractLiteralPrefix\<close> stops at.\<close>

definition metacharacters :: "byte set" where
  "metacharacters = set (gostr ''.*+?[](){}|^$'' @ [92])"

definition extractLiteralPrefix :: "gostring \<Rightarrow> gostring" where
  "extractLiteralPrefix pattern = takeWhile (\<lambda>c. c \<notin> metacharacters) pattern"

definition reservedLabelNames :: "gostring list" where
  "reservedLabelNames = map gostr [''rule'', ''action'', ''__name__'']"

definition check_rule_labels :: "gostring list \<Rightarrow> 'f ProcessingRule \<Rightarrow> unit checked" where
  "check_rule_labels required r =
     (case List.find (\<lambda>k. k \<in> set reservedLabelNames) (map fst (pr_Labels r)) of
        Some k \<Rightarrow> Err (LabelReserved k)
      | None \<Rightarrow>
          (case List.find (\<lambda>req. map_of (pr_Labels r) req = None) required of
             Some req \<Rightarrow> Err (LabelMissing req)
           | None \<Rightarrow> Ok ()))"

definition validate_action :: "'f processing_lib \<Rightarrow> 'f ProcessingRule \<Rightarrow> 'f ProcessingRule checked" where
  "validate_action lib r =
     (case pr_Action r of
        ProcSample \<Rightarrow> validateSampleRule lib r
      | ProcDownsample \<Rightarrow> validateDownsampleRule lib r
      | ProcAggregate \<Rightarrow> validateAggregateRule lib r
      | ProcTransform \<Rightarrow> validateTransformRule lib r
      | ProcClassify \<Rightarrow> validateClassifyRule lib r
      | ProcDrop \<Rightarrow> Ok r
      | a \<Rightarrow> Err (UnknownAction a))"

definition validate_processing_rule :: "'f processing_lib \<Rightarrow> gostring list \<Rightarrow> int \<Rightarrow> 'f ProcessingRule \<Rightarrow> 'f ProcessingRule checked" where
  "validate_processing_rule lib required now r =
     bind_outcome (check_rule_labels required r) (\<lambda>_.
     bind_outcome (require (pr_Input r \<noteq> []) InputRequired) (\<lambda>_.
     bind_outcome (compile_or lib (InputRegex (pr_Input r)) (anchored (pr_Input r))) (\<lambda>re.
     bind_outcome
       (if pr_InputLabels r \<noteq> [] then
          check_each (\<lambda>_ (k, v). bind_outcome (compile_or lib (LabelRegex k) (anchored v)) (\<lambda>lre. Ok (k, lre))) 0 (tl_range lib (pr_InputLabels r))
        else Ok (compiledLabels r)) (\<lambda>ls.
     bind_outcome (validate_action lib (r\<lparr>compiledInput := Some re, compiledLabels := ls\<rparr>)) (\<lambda>r.
     Ok (r\<lparr>pr_dead := NewActivity now, inputPrefix := extractLiteralPrefix (pr_Input r)\<rparr>))))))"

fun validate_processing_rules :: "'f processing_lib \<Rightarrow> gostring list \<Rightarrow> int \<Rightarrow> nat \<Rightarrow> gostring list \<Rightarrow> 'f ProcessingRule list \<Rightarrow> (processing_error, 'f ProcessingRule list) outcome" where
  "validate_processing_rules lib required now i names [] = Ok []"
| "validate_processing_rules lib required now i names (r # rs) =
     (if pr_Name r = [] then Err (NameRequired i)
      else if pr_Name r \<in> set names then Err (DuplicateName i (pr_Name r))
      else bind_outcome (map_err (RuleError (pr_Name r)) (validate_processing_rule lib required now r)) (\<lambda>r'.
           bind_outcome (validate_processing_rules lib required now (i + 1) (pr_Name r # names) rs) (\<lambda>rs'. Ok (r' # rs'))))"

definition one_minute :: int where
  "one_minute = 60 * 1000000000"

definition validate_intervals :: "'f processing_lib \<Rightarrow> 'f ProcessingConfig \<Rightarrow> (processing_error, 'f ProcessingConfig) outcome" where
  "validate_intervals lib cfg =
     bind_outcome
       (if StalenessInterval cfg \<noteq> [] then
          (case pl_ParseDuration lib (StalenessInterval cfg) of
             None \<Rightarrow> Err (StalenessInvalid (StalenessInterval cfg))
           | Some d \<Rightarrow> if d \<le> 0 then Err StalenessNotPositive else Ok (cfg\<lparr>parsedStaleness := d\<rparr>))
        else Ok (cfg\<lparr>parsedStaleness := 10 * one_minute\<rparr>))
       (\<lambda>cfg. if DeadRuleInterval cfg \<noteq> [] then
                (case pl_ParseDuration lib (DeadRuleInterval cfg) of
                   None \<Rightarrow> Err (DeadRuleInvalid (DeadRuleInterval cfg))
                 | Some d \<Rightarrow> if d < 0 then Err DeadRuleNegative else Ok (cfg\<lparr>parsedDeadRuleIntvl := d\<rparr>))
              else Ok cfg)"

definition validateProcessingConfig :: "'f processing_lib \<Rightarrow> int \<Rightarrow> 'f ProcessingConfig \<Rightarrow> (processing_error, 'f ProcessingConfig) outcome" where
  "validateProcessingConfig lib now cfg =
     bind_outcome (validate_intervals lib cfg) (\<lambda>cfg.
     bind_outcome (validate_processing_rules lib (RequiredLabels cfg) now 0 [] (Rules cfg)) (\<lambda>rs. Ok (cfg\<lparr>Rules := rs\<rparr>)))"

section \<open>The old format and loading\<close>

definition blank_processing_rule :: "'f float_lib \<Rightarrow> 'f ProcessingRule" where
  "blank_processing_rule fl =
     \<lparr>pr_Name = [], pr_Input = [], pr_InputLabels = [], pr_Action = ProcUnset, pr_Labels = [], pr_Rate = fl_zero fl, pr_Method = [], pr_Interval = [], pr_Resolution = 0,
      pr_Deviation = fl_zero fl, pr_MinRate = fl_zero fl, pr_MaxRate = fl_zero fl, pr_VarianceWindow = 0, pr_Output = [], pr_GroupBy = [], pr_DropLabels = [], pr_Functions = [],
      pr_KeepInput = False, pr_When = [], pr_Operations = [], pr_Classify = None, compiledInput = None, compiledLabels = [], parsedInterval = 0, parsedFunctions = [],
      dsConfig = None, compiledOps = [], compiledClassify = None, pr_dead = NewActivity 0, inputPrefix = []\<rparr>"

definition fill_downsample :: "'f DownsampleConfig option \<Rightarrow> (DownsampleMethod \<Rightarrow> gostring) \<Rightarrow> 'f ProcessingRule \<Rightarrow> 'f ProcessingRule" where
  "fill_downsample d name pr =
     (case d of
        None \<Rightarrow> pr
      | Some d \<Rightarrow> pr\<lparr>pr_Method := name (dc_Method d), pr_Interval := dc_Window d, pr_Resolution := dc_Resolution d, pr_Deviation := dc_Deviation d,
                     pr_MinRate := dc_MinRate d, pr_MaxRate := dc_MaxRate d, pr_VarianceWindow := dc_VarianceWindow d\<rparr>)"

text \<open>The conversion of a method back to a string.\<close>

fun method_name :: "DownsampleMethod \<Rightarrow> gostring" where
  "method_name DSAvg = gostr ''avg''" | "method_name DSMin = gostr ''min''" | "method_name DSMax = gostr ''max''" | "method_name DSSum = gostr ''sum''"
| "method_name DSCount = gostr ''count''" | "method_name DSLast = gostr ''last''" | "method_name DSDelta = gostr ''delta''" | "method_name DSLTTB = gostr ''lttb''"
| "method_name DSSDT = gostr ''sdt''" | "method_name DSAdaptive = gostr ''adaptive''" | "method_name (DSOther s) = s"

definition convert_rule :: "'f float_lib \<Rightarrow> Strategy \<Rightarrow> 'f LegacyRule \<Rightarrow> 'f ProcessingRule" where
  "convert_rule fl fileStrategy r =
     (let name = label_value (old_Match r) name_label;
          pr = (blank_processing_rule fl)\<lparr>pr_Name := old_Name r, pr_Input := name\<rparr>;
          pr = (if length (old_Match r) > 1 \<or> length (old_Match r) = 1 \<and> name = []
                then pr\<lparr>pr_InputLabels := filter (\<lambda>(k, _). k \<noteq> name_label) (old_Match r)\<rparr> else pr);
          pr = (if pr_Input pr = [] then pr\<lparr>pr_Input := gostr ''.*''\<rparr> else pr);
          strategy = (if old_Strategy r = StrategyUnset then fileStrategy else old_Strategy r)
      in if strategy = StrategyDownsample then fill_downsample (old_Downsample r) method_name (pr\<lparr>pr_Action := ProcDownsample\<rparr>)
         else if fl_le fl (old_Rate r) (fl_zero fl) then pr\<lparr>pr_Action := ProcDrop\<rparr>
         else pr\<lparr>pr_Action := ProcSample, pr_Rate := old_Rate r, pr_Method := (if strategy = StrategyProbabilistic then gostr ''probabilistic'' else gostr ''head'')\<rparr>)"

definition default_rules :: "'f float_lib \<Rightarrow> 'f FileConfig \<Rightarrow> 'f ProcessingRule list" where
  "default_rules fl old =
     (let pr = (blank_processing_rule fl)\<lparr>pr_Name := gostr ''default'', pr_Input := gostr ''.*''\<rparr> in
      if fl_greater fl (old_DefaultRate old) (fl_zero fl) \<and> fl_less fl (old_DefaultRate old) (fl_one fl) then
        [pr\<lparr>pr_Action := ProcSample, pr_Rate := old_DefaultRate old,
            pr_Method := (if old_FileStrategy old = StrategyProbabilistic then gostr ''probabilistic'' else gostr ''head'')\<rparr>]
      else if fl_le fl (old_DefaultRate old) (fl_zero fl) then [pr\<lparr>pr_Action := ProcDrop\<rparr>]
      else [])"

definition convertLegacyConfig :: "'f float_lib \<Rightarrow> 'f FileConfig \<Rightarrow> 'f ProcessingConfig" where
  "convertLegacyConfig fl old =
     \<lparr>StalenessInterval = gostr ''10m'', DeadRuleInterval = [], RequiredLabels = [], Rules = map (convert_rule fl (old_FileStrategy old)) (old_Rules old) @ default_rules fl old,
      parsedStaleness = 0, parsedDeadRuleIntvl = 0\<rparr>"

definition is_legacy :: "probe \<Rightarrow> bool" where
  "is_legacy p \<longleftrightarrow> probe_DefaultRate p \<or> probe_Strategy p \<noteq> [] \<or> (case probe_Actions p of a # _ \<Rightarrow> a = [] | [] \<Rightarrow> False)"

definition ParseProcessing :: "'f processing_lib \<Rightarrow> int \<Rightarrow> bytes \<Rightarrow> (processing_error, 'f ProcessingConfig) outcome" where
  "ParseProcessing lib now data =
     (case pl_Probe lib data of
        None \<Rightarrow> Err ParseConfig
      | Some p \<Rightarrow>
          if is_legacy p then
            (case pl_UnmarshalOld lib data of None \<Rightarrow> Err ParseLegacy | Some old \<Rightarrow> Ok (convertLegacyConfig (tl_floats lib) old))
          else
            (case pl_Unmarshal lib data of None \<Rightarrow> Err ParseConfig | Some cfg \<Rightarrow> validateProcessingConfig lib now cfg))"

definition LoadProcessingFile :: "'f processing_lib \<Rightarrow> int \<Rightarrow> gostring \<Rightarrow> (processing_error, 'f ProcessingConfig) outcome" where
  "LoadProcessingFile lib now path = (case pl_ReadFile lib path of None \<Rightarrow> Err ReadConfig | Some data \<Rightarrow> ParseProcessing lib now data)"

end
