(* ===== verification/Aggregate.thy ===== *)
theory Aggregate
  imports Processing_Config Go_Maps
begin

text \<open>
  Aggregation across series: \<open>internal/sampling/accumulators.go\<close> and \<open>aggregate.go\<close>. The accumulators are the constructors of one datatype, one for each struct. A rule's groups are
  an association list in the order in which one flush happens to range over the map. The flush and clean-up loops are modelled by what one round does; what the output callback receives is a result.
  \<open>None\<close> is a panic. Sorting, random numbers and \<open>%.1f\<close> are parameters. Attributes are copied where the code shares pointers.
\<close>

section \<open>Accumulators\<close>

datatype 'f accum =
    SumAccum 'f
  | AvgAccum 'f int
  | MinAccum 'f bool
  | MaxAccum 'f bool
  | CountAccum int
  | LastAccum 'f bool
  | IncreaseAccum 'f 'f bool
  | RateAccum 'f 'f bool 'f
  | StddevAccum int 'f 'f
  | StdvarAccum int 'f 'f
  | QuantilesAccum "'f list" "'f list" int

text \<open>\<open>al_Int63n n\<close> is the random number drawn for the \<open>n\<close>-th value of a window, between zero and \<open>n\<close>; the numbers of values of a window are all different.\<close>

record 'f aggregate_lib =
  al_floats :: "'f float_lib"
  al_Float64s :: "'f list \<Rightarrow> 'f list"
  al_Int63n :: "int \<Rightarrow> int"
  al_Format1 :: "'f \<Rightarrow> gostring"

definition maxQuantileSamples :: int where
  "maxQuantileSamples = 10000"

fun newAccumulator :: "'f float_lib \<Rightarrow> AggFunc \<Rightarrow> 'f accum" where
  "newAccumulator fl AggSum = SumAccum (fl_zero fl)"
| "newAccumulator fl AggAvg = AvgAccum (fl_zero fl) 0"
| "newAccumulator fl AggMin = MinAccum (fl_zero fl) False"
| "newAccumulator fl AggMax = MaxAccum (fl_zero fl) False"
| "newAccumulator fl AggCount = CountAccum 0"
| "newAccumulator fl AggIncrease = IncreaseAccum (fl_zero fl) (fl_zero fl) False"
| "newAccumulator fl AggRate = RateAccum (fl_zero fl) (fl_zero fl) False (fl_zero fl)"
| "newAccumulator fl AggStddev = StddevAccum 0 (fl_zero fl) (fl_zero fl)"
| "newAccumulator fl AggStdvar = StdvarAccum 0 (fl_zero fl) (fl_zero fl)"
| "newAccumulator fl _ = LastAccum (fl_zero fl) False"

definition newQuantilesAccum :: "'f list \<Rightarrow> 'f accum" where
  "newQuantilesAccum qs = QuantilesAccum [] qs 0"

fun setWindow :: "'f \<Rightarrow> 'f accum \<Rightarrow> 'f accum" where
  "setWindow secs (RateAccum first l hasData _) = RateAccum first l hasData secs"
| "setWindow secs a = a"

definition welford :: "'f float_lib \<Rightarrow> 'f \<Rightarrow> int \<times> 'f \<times> 'f \<Rightarrow> int \<times> 'f \<times> 'f" where
  "welford fl v = (\<lambda>(n, mean, m2).
     let n = n + 1;
         delta = fl_sub fl v mean;
         mean = fl_add fl mean (fl_div fl delta (fl_of_int fl n));
         delta2 = fl_sub fl v mean
     in (n, mean, fl_add fl m2 (fl_mul fl delta delta2)))"

text \<open>Algorithm R: once the reservoir is full, a value replaces a random one or none.\<close>

definition reservoir :: "(int \<Rightarrow> int) \<Rightarrow> 'f \<Rightarrow> 'f list \<Rightarrow> int \<Rightarrow> 'f list" where
  "reservoir draw v values n =
     (if int (length values) < maxQuantileSamples then values @ [v]
      else let j = draw n in if j < maxQuantileSamples then values[nat j := v] else values)"

fun acc_Add :: "'f aggregate_lib \<Rightarrow> 'f \<Rightarrow> 'f accum \<Rightarrow> 'f accum" where
  "acc_Add lib v (SumAccum s) = SumAccum (fl_add (al_floats lib) s v)"
| "acc_Add lib v (AvgAccum s n) = AvgAccum (fl_add (al_floats lib) s v) (n + 1)"
| "acc_Add lib v (MinAccum m hasData) = (if \<not> hasData \<or> fl_less (al_floats lib) v m then MinAccum v True else MinAccum m hasData)"
| "acc_Add lib v (MaxAccum m hasData) = (if \<not> hasData \<or> fl_greater (al_floats lib) v m then MaxAccum v True else MaxAccum m hasData)"
| "acc_Add lib v (CountAccum n) = CountAccum (n + 1)"
| "acc_Add lib v (LastAccum _ _) = LastAccum v True"
| "acc_Add lib v (IncreaseAccum first _ hasData) = IncreaseAccum (if hasData then first else v) v True"
| "acc_Add lib v (RateAccum first _ hasData secs) = RateAccum (if hasData then first else v) v True secs"
| "acc_Add lib v (StddevAccum n mean m2) = (case welford (al_floats lib) v (n, mean, m2) of (n, mean, m2) \<Rightarrow> StddevAccum n mean m2)"
| "acc_Add lib v (StdvarAccum n mean m2) = (case welford (al_floats lib) v (n, mean, m2) of (n, mean, m2) \<Rightarrow> StdvarAccum n mean m2)"
| "acc_Add lib v (QuantilesAccum values qs n) = QuantilesAccum (reservoir (al_Int63n lib) v values (n + 1)) qs (n + 1)"

definition nth_value :: "'f list \<Rightarrow> int \<Rightarrow> 'f option" where
  "nth_value xs i = (if 0 \<le> i \<and> i < int (length xs) then Some (xs ! nat i) else None)"

definition quantileFromSorted :: "'f float_lib \<Rightarrow> 'f list \<Rightarrow> 'f \<Rightarrow> 'f option" where
  "quantileFromSorted fl xs q =
     (if xs = [] then Some (fl_zero fl)
      else if fl_le fl q (fl_zero fl) then Some (hd xs)
      else if fl_ge fl q (fl_one fl) then Some (last xs)
      else let idx = fl_mul fl q (fl_of_int fl (int (length xs) - 1));
               lower = fl_int64 fl idx;
               upper = lower + 1
           in if upper \<ge> int (length xs) then nth_value xs lower
              else do {
                let frac = fl_sub fl idx (fl_of_int fl lower);
                a \<leftarrow> nth_value xs lower;
                b \<leftarrow> nth_value xs upper;
                Some (fl_add fl (fl_mul fl a (fl_sub fl (fl_one fl) frac)) (fl_mul fl b frac))})"

definition quantile_results :: "'f aggregate_lib \<Rightarrow> 'f list \<Rightarrow> 'f list \<Rightarrow> 'f list option" where
  "quantile_results lib values qs =
     (if values = [] then Some (map (\<lambda>_. fl_zero (al_floats lib)) qs)
      else those (map (quantileFromSorted (al_floats lib) (al_Float64s lib values)) qs))"

fun acc_Result :: "'f aggregate_lib \<Rightarrow> 'f accum \<Rightarrow> 'f option" where
  "acc_Result lib (SumAccum s) = Some s"
| "acc_Result lib (AvgAccum s n) = Some (if n = 0 then fl_zero (al_floats lib) else fl_div (al_floats lib) s (fl_of_int (al_floats lib) n))"
| "acc_Result lib (MinAccum m hasData) = Some (if hasData then m else fl_zero (al_floats lib))"
| "acc_Result lib (MaxAccum m hasData) = Some (if hasData then m else fl_zero (al_floats lib))"
| "acc_Result lib (CountAccum n) = Some (fl_of_int (al_floats lib) n)"
| "acc_Result lib (LastAccum l hasData) = Some (if hasData then l else fl_zero (al_floats lib))"
| "acc_Result lib (IncreaseAccum first l hasData) = Some (if hasData then fl_sub (al_floats lib) l first else fl_zero (al_floats lib))"
| "acc_Result lib (RateAccum first l hasData secs) =
     Some (if \<not> hasData \<or> fl_le (al_floats lib) secs (fl_zero (al_floats lib)) then fl_zero (al_floats lib)
           else fl_div (al_floats lib) (fl_sub (al_floats lib) l first) secs)"
| "acc_Result lib (StddevAccum n mean m2) =
     Some (if n < 2 then fl_zero (al_floats lib) else fl_Sqrt (al_floats lib) (fl_div (al_floats lib) m2 (fl_of_int (al_floats lib) n)))"
| "acc_Result lib (StdvarAccum n mean m2) =
     Some (if n < 2 then fl_zero (al_floats lib) else fl_div (al_floats lib) m2 (fl_of_int (al_floats lib) n))"
| "acc_Result lib (QuantilesAccum values qs n) =
     map_option (\<lambda>rs. case rs of r # _ \<Rightarrow> r | [] \<Rightarrow> fl_zero (al_floats lib)) (quantile_results lib values qs)"

fun acc_Reset :: "'f float_lib \<Rightarrow> 'f accum \<Rightarrow> 'f accum" where
  "acc_Reset fl (SumAccum _) = SumAccum (fl_zero fl)"
| "acc_Reset fl (AvgAccum _ _) = AvgAccum (fl_zero fl) 0"
| "acc_Reset fl (MinAccum _ _) = MinAccum (fl_zero fl) False"
| "acc_Reset fl (MaxAccum _ _) = MaxAccum (fl_zero fl) False"
| "acc_Reset fl (CountAccum _) = CountAccum 0"
| "acc_Reset fl (LastAccum _ _) = LastAccum (fl_zero fl) False"
| "acc_Reset fl (IncreaseAccum _ _ _) = IncreaseAccum (fl_zero fl) (fl_zero fl) False"
| "acc_Reset fl (RateAccum _ _ _ secs) = RateAccum (fl_zero fl) (fl_zero fl) False secs"
| "acc_Reset fl (StddevAccum _ _ _) = StddevAccum 0 (fl_zero fl) (fl_zero fl)"
| "acc_Reset fl (StdvarAccum _ _ _) = StdvarAccum 0 (fl_zero fl) (fl_zero fl)"
| "acc_Reset fl (QuantilesAccum _ qs _) = QuantilesAccum [] qs 0"

section \<open>Groups\<close>

text \<open>What the code reads of a data point besides its attributes; the other fields are \<open>'o\<close>.\<close>

record ('f, 'o) point_rest =
  TimeUnixNano :: u64
  np_Value :: "'f number_value"
  np_other :: 'o

record 'f aggregateGroup =
  ag_accumulators :: "'f accum list"
  ag_quantilesIdx :: "nat list"
  ag_lastSeen :: int
  ag_count :: int
  ag_labels :: attributes

record 'f aggregateRuleState =
  rs_rule :: "'f ProcessingRule"
  rs_groups :: "(gostring \<times> 'f aggregateGroup) list"
  rs_interval :: int

record 'f aggregateEngine =
  ae_rules :: "'f aggregateRuleState list"
  ae_staleness :: int
  ae_started :: bool

definition rule_states :: "'f ProcessingRule list \<Rightarrow> 'f aggregateRuleState list" where
  "rule_states rules = map (\<lambda>r. \<lparr>rs_rule = r, rs_groups = [], rs_interval = parsedInterval r\<rparr>) (filter (\<lambda>r. pr_Action r = ProcAggregate) rules)"

definition staleness_or_default :: "int \<Rightarrow> int" where
  "staleness_or_default d = (if d \<le> 0 then 10 * one_minute else d)"

definition newAggregateEngine :: "'f ProcessingRule list \<Rightarrow> int \<Rightarrow> 'f aggregateEngine" where
  "newAggregateEngine rules staleness = \<lparr>ae_rules = rule_states rules, ae_staleness = staleness_or_default staleness, ae_started = False\<rparr>"

definition buildGroupLabels :: "attributes \<Rightarrow> gostring list \<Rightarrow> gostring list \<Rightarrow> attributes" where
  "buildGroupLabels as groupBy dropLabels =
     (if groupBy \<noteq> [] then filter (\<lambda>kv. kv_Key kv \<in> set groupBy) as
      else if dropLabels \<noteq> [] then filter (\<lambda>kv. kv_Key kv \<notin> set dropLabels) as
      else as)"

text \<open>The key, and the labels as the call leaves them: sorted in place. The order of equal keys is left open by \<open>sort.Slice\<close>, here it is the given one.\<close>

definition agg_buildGroupKey :: "attributes \<Rightarrow> gostring \<times> attributes" where
  "agg_buildGroupKey labels =
     (if labels = [] then ([], labels)
      else let labels = sort_key kv_Key labels
           in (join_strings (gostr ''|'') (map (\<lambda>kv. kv_Key kv @ gostr ''='' @ GetStringValue (kv_Value kv)) labels), labels))"

text \<open>\<open>Duration.Seconds\<close>: whole seconds and the rest in nanoseconds.\<close>

definition duration_seconds :: "'f float_lib \<Rightarrow> int \<Rightarrow> 'f" where
  "duration_seconds fl d = fl_add fl (fl_of_int fl (d div 1000000000)) (fl_div fl (fl_of_int fl (d mod 1000000000)) (fl_of_int fl 1000000000))"

definition new_accum :: "'f float_lib \<Rightarrow> int \<Rightarrow> 'f parsedAggFunc \<Rightarrow> 'f accum" where
  "new_accum fl interval pf =
     (if pf_Func pf = AggQuantiles then newQuantilesAccum (pf_Quantiles pf)
      else setWindow (duration_seconds fl interval) (newAccumulator fl (pf_Func pf)))"

definition createGroup :: "'f float_lib \<Rightarrow> int \<Rightarrow> 'f ProcessingRule \<Rightarrow> attributes \<Rightarrow> 'f aggregateGroup" where
  "createGroup fl now rule labels =
     \<lparr>ag_accumulators = map (new_accum fl (parsedInterval rule)) (parsedFunctions rule),
      ag_quantilesIdx = filter (\<lambda>i. pf_Func (parsedFunctions rule ! i) = AggQuantiles) [0..<length (parsedFunctions rule)],
      ag_lastSeen = now, ag_count = 0, ag_labels = labels\<rparr>"

definition group_add :: "'f aggregate_lib \<Rightarrow> int \<Rightarrow> 'f \<Rightarrow> 'f aggregateGroup \<Rightarrow> 'f aggregateGroup" where
  "group_add lib now v g = g\<lparr>ag_accumulators := map (acc_Add lib v) (ag_accumulators g), ag_count := ag_count g + 1, ag_lastSeen := now\<rparr>"

definition state_ingest ::
    "'f aggregate_lib \<Rightarrow> int \<Rightarrow> 'f ProcessingRule \<Rightarrow> attributes \<Rightarrow> 'f number_value \<Rightarrow> 'f aggregateRuleState \<Rightarrow> 'f aggregateRuleState" where
  "state_ingest lib now rule as v rs =
     (let (groupKey, groupLabels) = agg_buildGroupKey (buildGroupLabels as (pr_GroupBy rule) (pr_DropLabels rule));
          group = (case map_of (rs_groups rs) groupKey of Some g \<Rightarrow> g | None \<Rightarrow> createGroup (al_floats lib) now rule groupLabels)
      in rs\<lparr>rs_groups := AList.update groupKey (group_add lib now (getNumberValue (al_floats lib) v) group) (rs_groups rs)\<rparr>)"

text \<open>The first state with the name of the rule.\<close>

fun at_rule :: "gostring \<Rightarrow> ('f aggregateRuleState \<Rightarrow> 'f aggregateRuleState) \<Rightarrow> 'f aggregateRuleState list \<Rightarrow> 'f aggregateRuleState list" where
  "at_rule n f [] = []"
| "at_rule n f (rs # rss) = (if pr_Name (rs_rule rs) = n then f rs # rss else rs # at_rule n f rss)"

definition agg_Ingest :: "'f aggregate_lib \<Rightarrow> int \<Rightarrow> 'f ProcessingRule \<Rightarrow> attributes \<Rightarrow> 'f number_value \<Rightarrow> 'f aggregateEngine \<Rightarrow> 'f aggregateEngine" where
  "agg_Ingest lib now rule as v e = e\<lparr>ae_rules := at_rule (pr_Name rule) (state_ingest lib now rule as v) (ae_rules e)\<rparr>"

section \<open>Flushing\<close>

text \<open>An emitted data point: the name of its metric, its attributes, its time and its value. It becomes a gauge with this one point.\<close>

record 'f agg_output =
  out_Name :: gostring
  out_Attributes :: attributes
  out_Time :: u64
  out_Value :: 'f

definition formatQuantile :: "'f aggregate_lib \<Rightarrow> 'f \<Rightarrow> gostring" where
  "formatQuantile lib q =
     (let fl = al_floats lib; p = fl_mul fl q (fl_of_int fl 100)
      in if fl_eq fl p (fl_of_int fl (fl_int64 fl p)) then signed_decimal (fl_int64 fl p) else al_Format1 lib p)"

definition func_name :: "AggFunc \<Rightarrow> gostring" where
  "func_name f = (case f of AggSum \<Rightarrow> gostr ''sum'' | AggAvg \<Rightarrow> gostr ''avg'' | AggMin \<Rightarrow> gostr ''min'' | AggMax \<Rightarrow> gostr ''max'' | AggCount \<Rightarrow> gostr ''count'' | AggLast \<Rightarrow> gostr ''last''
     | AggIncrease \<Rightarrow> gostr ''increase'' | AggRate \<Rightarrow> gostr ''rate'' | AggStddev \<Rightarrow> gostr ''stddev'' | AggStdvar \<Rightarrow> gostr ''stdvar'' | AggQuantiles \<Rightarrow> gostr ''quantiles'')"

definition quantile_outputs :: "'f aggregate_lib \<Rightarrow> gostring \<Rightarrow> attributes \<Rightarrow> u64 \<Rightarrow> 'f parsedAggFunc \<Rightarrow> 'f accum \<Rightarrow> 'f agg_output list option" where
  "quantile_outputs lib outputName labels now pf acc =
     (case acc of
        QuantilesAccum values qs _ \<Rightarrow> do {
          results \<leftarrow> quantile_results lib values qs;
          (if length results < length (pf_Quantiles pf) then None
           else Some (map (\<lambda>(q, v). \<lparr>out_Name = outputName @ gostr ''_p'' @ formatQuantile lib q, out_Attributes = labels, out_Time = now, out_Value = v\<rparr>) (zip (pf_Quantiles pf) results)))}
      | _ \<Rightarrow> None)"

definition func_outputs :: "'f aggregate_lib \<Rightarrow> gostring \<Rightarrow> bool \<Rightarrow> attributes \<Rightarrow> u64 \<Rightarrow> 'f parsedAggFunc \<Rightarrow> 'f accum \<Rightarrow> 'f agg_output list option" where
  "func_outputs lib outputName multiOutput labels now pf acc =
     (if pf_Func pf = AggQuantiles then quantile_outputs lib outputName labels now pf acc
      else map_option (\<lambda>v. [\<lparr>out_Name = (if multiOutput then outputName @ gostr ''_'' @ func_name (pf_Func pf) else outputName),
                              out_Attributes = labels, out_Time = now, out_Value = v\<rparr>]) (acc_Result lib acc))"

fun funcs_outputs :: "'f aggregate_lib \<Rightarrow> gostring \<Rightarrow> bool \<Rightarrow> attributes \<Rightarrow> u64 \<Rightarrow> 'f parsedAggFunc list \<Rightarrow> 'f accum list \<Rightarrow> 'f agg_output list option" where
  "funcs_outputs lib outputName multiOutput labels now [] accs = Some []"
| "funcs_outputs lib outputName multiOutput labels now (pf # pfs) [] = None"
| "funcs_outputs lib outputName multiOutput labels now (pf # pfs) (acc # accs) = do {
     ms \<leftarrow> func_outputs lib outputName multiOutput labels now pf acc;
     rest \<leftarrow> funcs_outputs lib outputName multiOutput labels now pfs accs;
     Some (ms @ rest)}"

definition group_flush :: "'f aggregate_lib \<Rightarrow> 'f ProcessingRule \<Rightarrow> u64 \<Rightarrow> 'f aggregateGroup \<Rightarrow> ('f agg_output list \<times> 'f aggregateGroup) option" where
  "group_flush lib rule now g =
     (if ag_count g = 0 then Some ([], g)
      else map_option (\<lambda>ms. (ms, g\<lparr>ag_accumulators := map (acc_Reset (al_floats lib)) (ag_accumulators g), ag_count := 0\<rparr>))
        (funcs_outputs lib (if pr_Output rule = [] then pr_Input rule else pr_Output rule) (length (parsedFunctions rule) > 1) (ag_labels g) now (parsedFunctions rule) (ag_accumulators g)))"

fun groups_flush :: "'f aggregate_lib \<Rightarrow> 'f ProcessingRule \<Rightarrow> u64 \<Rightarrow> (gostring \<times> 'f aggregateGroup) list \<Rightarrow> ('f agg_output list \<times> (gostring \<times> 'f aggregateGroup) list) option" where
  "groups_flush lib rule now [] = Some ([], [])"
| "groups_flush lib rule now ((k, g) # gs) = do {
     (ms, g) \<leftarrow> group_flush lib rule now g;
     (rest, gs) \<leftarrow> groups_flush lib rule now gs;
     Some (ms @ rest, (k, g) # gs)}"

definition flushRule :: "'f aggregate_lib \<Rightarrow> u64 \<Rightarrow> 'f aggregateRuleState \<Rightarrow> ('f agg_output list \<times> 'f aggregateRuleState) option" where
  "flushRule lib now rs = map_option (\<lambda>(ms, gs). (ms, rs\<lparr>rs_groups := gs\<rparr>)) (groups_flush lib (rs_rule rs) now (rs_groups rs))"

text \<open>The batch handed to the output callback: one resource with one scope, and no call for an empty list.\<close>

definition output_batch :: "'f agg_output list \<Rightarrow> 'o \<Rightarrow> ('f, 'o) point_rest ResourceMetrics list" where
  "output_batch ms other =
     (if ms = [] then []
      else [\<lparr>rm_Resource = Some \<lparr>res_Attributes = [], res_DroppedAttributesCount = 0\<rparr>,
              rm_ScopeMetrics = [\<lparr>sm_Scope = None,
                sm_Metrics = map (\<lambda>m. \<lparr>m_Name = out_Name m, m_Description = [], m_Unit = [], m_Metadata = [],
                   m_Data = Metric_Gauge [\<lparr>dp_Attributes = out_Attributes m, dp_rest = \<lparr>TimeUnixNano = out_Time m, np_Value = AsDouble (out_Value m), np_other = other\<rparr>\<rparr>]\<rparr>) ms,
                sm_SchemaUrl = []\<rparr>],
              rm_SchemaUrl = []\<rparr>])"

definition cleanup_state :: "int \<Rightarrow> int \<Rightarrow> 'f aggregateRuleState \<Rightarrow> 'f aggregateRuleState" where
  "cleanup_state staleness now rs = rs\<lparr>rs_groups := filter (\<lambda>(_, g). \<not> now - ag_lastSeen g > staleness) (rs_groups rs)\<rparr>"

definition cleanupStale :: "int \<Rightarrow> 'f aggregateEngine \<Rightarrow> 'f aggregateEngine" where
  "cleanupStale now e = e\<lparr>ae_rules := map (cleanup_state (ae_staleness e) now) (ae_rules e)\<rparr>"

definition agg_Start :: "'f aggregateEngine \<Rightarrow> 'f aggregateEngine" where
  "agg_Start e = (if ae_started e then e else e\<lparr>ae_started := True\<rparr>)"

fun flush_states :: "'f aggregate_lib \<Rightarrow> u64 \<Rightarrow> 'f aggregateRuleState list \<Rightarrow> ('f agg_output list list \<times> 'f aggregateRuleState list) option" where
  "flush_states lib now [] = Some ([], [])"
| "flush_states lib now (rs # rss) = do {
     (ms, rs) \<leftarrow> flushRule lib now rs;
     (rest, rss) \<leftarrow> flush_states lib now rss;
     Some (ms # rest, rs # rss)}"

text \<open>Stopping cancels the loops, and each flush loop flushes its rule once more before it ends.\<close>

definition agg_Stop :: "'f aggregate_lib \<Rightarrow> u64 \<Rightarrow> 'f aggregateEngine \<Rightarrow> ('f agg_output list list \<times> 'f aggregateEngine) option" where
  "agg_Stop lib now e =
     (if \<not> ae_started e then Some ([], e)
      else map_option (\<lambda>(out, rss). (out, e\<lparr>ae_rules := rss, ae_started := False\<rparr>)) (flush_states lib now (ae_rules e)))"

definition agg_Reload ::
    "'f aggregate_lib \<Rightarrow> u64 \<Rightarrow> 'f ProcessingRule list \<Rightarrow> int \<Rightarrow> 'f aggregateEngine \<Rightarrow> ('f agg_output list list \<times> 'f aggregateEngine) option" where
  "agg_Reload lib now rules staleness e =
     map_option (\<lambda>(out, e). (out, e\<lparr>ae_rules := rule_states rules, ae_staleness := staleness_or_default staleness\<rparr>)) (agg_Stop lib now e)"

definition ActiveGroups :: "'f aggregateEngine \<Rightarrow> nat" where
  "ActiveGroups e = sum_list (map (\<lambda>rs. length (rs_groups rs)) (ae_rules e))"

definition HasRules :: "'f aggregateEngine \<Rightarrow> bool" where
  "HasRules e = (ae_rules e \<noteq> [])"

end
