(* ===== verification/Aggregate_Correct.thy ===== *)
theory Aggregate_Correct
  imports Aggregate Complex_Main
begin

text \<open>
  Aggregation computes what its functions say, group by group. The locale \<open>accumulator\<close> is the contract of the Go interface \<open>seriesAccumulator\<close> towards the engine: the result is a function of the values
  added since the last reset. It is interpreted for all functions but quantiles. Welford's algorithm is compared with the definition of the variance in exact arithmetic.
\<close>

section \<open>The contract of an accumulator\<close>

locale accumulator =
  fixes init :: 'a and add :: "'v \<Rightarrow> 'a \<Rightarrow> 'a" and result :: "'a \<Rightarrow> 'v option" and reset :: "'a \<Rightarrow> 'a" and spec :: "'v list \<Rightarrow> 'v"
  assumes result_spec: "vs \<noteq> [] \<Longrightarrow> result (fold add vs init) = Some (spec vs)"
    and reset_init: "reset (fold add vs init) = init"
begin

lemma after_reset: "vs \<noteq> [] \<Longrightarrow> result (fold add vs (reset (fold add ws init))) = Some (spec vs)"
  by (simp add: reset_init result_spec)

end

text \<open>The value of each function on the values of a window.\<close>

definition agg_ref :: "'f float_lib \<Rightarrow> 'f \<Rightarrow> AggFunc \<Rightarrow> 'f list \<Rightarrow> 'f" where
  "agg_ref fl secs f vs =
     (let n = int (length vs); m2 = snd (snd (fold (welford fl) vs (0, fl_zero fl, fl_zero fl))) in
      case f of
        AggSum \<Rightarrow> foldl (fl_add fl) (fl_zero fl) vs
      | AggAvg \<Rightarrow> fl_div fl (foldl (fl_add fl) (fl_zero fl) vs) (fl_of_int fl n)
      | AggMin \<Rightarrow> foldl (\<lambda>m v. if fl_less fl v m then v else m) (hd vs) (tl vs)
      | AggMax \<Rightarrow> foldl (\<lambda>m v. if fl_less fl m v then v else m) (hd vs) (tl vs)
      | AggCount \<Rightarrow> fl_of_int fl n
      | AggIncrease \<Rightarrow> fl_sub fl (last vs) (hd vs)
      | AggRate \<Rightarrow> if fl_le fl secs (fl_zero fl) then fl_zero fl else fl_div fl (fl_sub fl (last vs) (hd vs)) secs
      | AggStddev \<Rightarrow> if n < 2 then fl_zero fl else fl_Sqrt fl (fl_div fl m2 (fl_of_int fl n))
      | AggStdvar \<Rightarrow> if n < 2 then fl_zero fl else fl_div fl m2 (fl_of_int fl n)
      | _ \<Rightarrow> last vs)"

lemma fold_sum: "fold (acc_Add lib) vs (SumAccum s) = SumAccum (foldl (fl_add (al_floats lib)) s vs)"
  by (induction vs arbitrary: s) auto

lemma fold_avg: "fold (acc_Add lib) vs (AvgAccum s n) = AvgAccum (foldl (fl_add (al_floats lib)) s vs) (n + int (length vs))"
  by (induction vs arbitrary: s n) auto

lemma fold_min: "fold (acc_Add lib) vs (MinAccum m True) = MinAccum (foldl (\<lambda>m v. if fl_less (al_floats lib) v m then v else m) m vs) True"
  by (induction vs arbitrary: m) auto

lemma fold_max: "fold (acc_Add lib) vs (MaxAccum m True) = MaxAccum (foldl (\<lambda>m v. if fl_less (al_floats lib) m v then v else m) m vs) True"
  by (induction vs arbitrary: m) (auto simp: fl_greater_def)

lemma fold_count: "fold (acc_Add lib) vs (CountAccum n) = CountAccum (n + int (length vs))"
  by (induction vs arbitrary: n) auto

lemma fold_last: "fold (acc_Add lib) vs (LastAccum l True) = LastAccum (last (l # vs)) True"
  by (induction vs arbitrary: l) auto

lemma fold_increase: "fold (acc_Add lib) vs (IncreaseAccum f l True) = IncreaseAccum f (last (l # vs)) True"
  by (induction vs arbitrary: l) auto

lemma fold_rate: "fold (acc_Add lib) vs (RateAccum f l True secs) = RateAccum f (last (l # vs)) True secs"
  by (induction vs arbitrary: l) auto

lemma fold_stddev: "fold (acc_Add lib) vs (StddevAccum n m s) = (case fold (welford (al_floats lib)) vs (n, m, s) of (n, m, s) \<Rightarrow> StddevAccum n m s)"
  by (induction vs arbitrary: n m s) (auto split: prod.split)

lemma fold_stdvar: "fold (acc_Add lib) vs (StdvarAccum n m s) = (case fold (welford (al_floats lib)) vs (n, m, s) of (n, m, s) \<Rightarrow> StdvarAccum n m s)"
  by (induction vs arbitrary: n m s) (auto split: prod.split)

lemma welford_count: "fst (fold (welford fl) vs (n, m, s)) = n + int (length vs)"
proof (induction vs arbitrary: n m s)
  case (Cons v vs)
  obtain m' s' where "welford fl v (n, m, s) = (n + 1, m', s')" by (simp add: welford_def Let_def)
  then show ?case using Cons.IH [of "n + 1" m' s'] by simp
qed simp

lemmas fold_accums = fold_sum fold_avg fold_min fold_max fold_count fold_last fold_increase fold_rate fold_stddev fold_stdvar

definition acc_window :: "'f float_lib \<Rightarrow> int \<Rightarrow> AggFunc \<Rightarrow> 'f accum" where
  "acc_window fl d f = setWindow (duration_seconds fl d) (newAccumulator fl f)"

lemma acc_result:
  assumes "vs \<noteq> []" "f \<noteq> AggQuantiles"
  shows "acc_Result lib (fold (acc_Add lib) vs (acc_window (al_floats lib) d f)) = Some (agg_ref (al_floats lib) (duration_seconds (al_floats lib) d) f vs)"
proof -
  obtain v ws where vs: "vs = v # ws" using assms(1) by (cases vs) auto
  let ?w = "fold (welford (al_floats lib)) vs (0, fl_zero (al_floats lib), fl_zero (al_floats lib))"
  obtain n m s where w: "?w = (n, m, s)" by (metis prod_cases3)
  have n: "n = int (length vs)" using welford_count [of "al_floats lib" vs 0] w by (metis add_0 fst_conv)
  show ?thesis
    using assms(2)
  proof (cases f)
    case AggStddev then show ?thesis by (simp add: acc_window_def fold_accums agg_ref_def w n Let_def)
  next
    case AggStdvar then show ?thesis by (simp add: acc_window_def fold_accums agg_ref_def w n Let_def)
  qed (simp_all add: acc_window_def fold_accums agg_ref_def vs Let_def)
qed

lemma acc_reset:
  assumes "f \<noteq> AggQuantiles"
  shows "acc_Reset (al_floats lib) (fold (acc_Add lib) vs (acc_window (al_floats lib) d f)) = acc_window (al_floats lib) d f"
proof (cases vs)
  case Nil
  then show ?thesis using assms by (cases f) (simp_all add: acc_window_def)
next
  case (Cons v ws)
  then show ?thesis using assms by (cases f) (auto simp: acc_window_def fold_accums welford_def Let_def split: prod.split)
qed

text \<open>The functions other than quantiles.\<close>

definition plain_func :: "AggFunc \<Rightarrow> AggFunc" where
  "plain_func f = (if f = AggQuantiles then AggLast else f)"

lemma plain_func_simps [simp]: "plain_func f \<noteq> AggQuantiles" "f \<noteq> AggQuantiles \<Longrightarrow> plain_func f = f"
  by (simp_all add: plain_func_def)

interpretation acc: accumulator "acc_window (al_floats lib) d (plain_func f)" "acc_Add lib" "acc_Result lib" "acc_Reset (al_floats lib)"
    "agg_ref (al_floats lib) (duration_seconds (al_floats lib) d) (plain_func f)" for lib d f
  by unfold_locales (simp_all add: acc_result acc_reset)

section \<open>Welford's algorithm\<close>

text \<open>Exact arithmetic in the place of floats: what the algorithms compute without rounding.\<close>

definition exact :: "('a :: field_char_0) float_lib \<Rightarrow> bool" where
  "exact fl \<longleftrightarrow> fl_of_int fl = of_int \<and> fl_add fl = (+) \<and> fl_sub fl = (-) \<and> fl_mul fl = (*) \<and> fl_div fl = (/)"

definition mean_of :: "('a :: field_char_0) list \<Rightarrow> 'a" where
  "mean_of vs = sum_list vs / of_nat (length vs)"

lemma sum_of_squares:
  "vs \<noteq> [] \<Longrightarrow> (\<Sum>x\<leftarrow>vs. (x - mean_of vs) * (x - mean_of vs)) = (\<Sum>x\<leftarrow>vs. x * x) - of_nat (length vs) * (mean_of vs * mean_of vs)" for vs :: "('a :: field_char_0) list"
proof -
  assume "vs \<noteq> []"
  then have m: "sum_list vs = of_nat (length vs) * mean_of vs" by (simp add: mean_of_def)
  have "(\<Sum>x\<leftarrow>vs. (x - c) * (x - c)) = (\<Sum>x\<leftarrow>vs. x * x) - 2 * c * sum_list vs + of_nat (length vs) * (c * c)" for c
    by (induction vs) (simp_all add: algebra_simps)
  from this [of "mean_of vs"] show ?thesis unfolding m by (simp add: algebra_simps)
qed

lemma welford_exact:
  assumes "exact fl"
  shows "vs \<noteq> [] \<Longrightarrow> fold (welford fl) vs (0, fl_zero fl, fl_zero fl)
    = (int (length vs), mean_of vs, (\<Sum>x\<leftarrow>vs. x * x) - of_nat (length vs) * (mean_of vs * mean_of vs))"
proof (induction vs rule: rev_induct)
  case (snoc v vs)
  show ?case
  proof (cases "vs = []")
    case True
    then show ?thesis using assms by (simp add: welford_def exact_def fl_zero_def mean_of_def)
  next
    case False
    let ?n = "of_nat (length vs) :: 'a" and ?m = "mean_of vs"
    have n0: "1 + ?n \<noteq> 0" by (simp only: of_nat_Suc [symmetric] of_nat_eq_0_iff)
    have m: "sum_list vs = ?n * ?m" using False by (simp add: mean_of_def)
    have mean: "mean_of (vs @ [v]) = ?m + (v - ?m) / (1 + ?n)"
      using n0 by (simp add: mean_of_def [of "vs @ [v]"] m field_simps)
    let ?m' = "mean_of (vs @ [v])"
    have k: "(1 + ?n) * ?m' = ?n * ?m + v" using n0 by (simp add: mean field_simps)
    have "(v - ?m) * (v - ?m') - ?n * (?m * ?m) = v * v - (1 + ?n) * (?m' * ?m')"
      using k by algebra
    then show ?thesis
      using snoc.IH [OF False] assms mean by (simp add: welford_def exact_def Let_def of_int_of_nat_eq) (simp add: algebra_simps)
  qed
qed simp

text \<open>
  C24: The online variance is the variance. In exact arithmetic, the accumulator for \<open>stdvar\<close> returns, for any two or more values in any order, the mean of the squared distances from their mean, although it
  never keeps the values; so the algorithm adds no error but rounding.
\<close>

theorem stdvar_is_variance:
  fixes vs :: "('a :: field_char_0) list"
  assumes "exact (al_floats lib)" "2 \<le> length vs"
  shows "acc_Result lib (fold (acc_Add lib) vs (newAccumulator (al_floats lib) AggStdvar))
    = Some ((\<Sum>x\<leftarrow>vs. (x - mean_of vs) * (x - mean_of vs)) / of_nat (length vs))"
proof -
  have vs: "vs \<noteq> []" using assms(2) by auto
  show ?thesis
    using assms(2) welford_exact [OF assms(1) vs] sum_of_squares [OF vs] assms(1)
    by (simp add: fold_stdvar exact_def of_int_of_nat_eq)
qed

definition rat_lib :: "rat aggregate_lib" where
  "rat_lib = \<lparr>al_floats = \<lparr>fl_of_int = of_int, fl_add = (+), fl_sub = (-), fl_mul = (*), fl_div = (/), fl_less = (<), fl_le = (\<le>), fl_eq = (=),
      fl_int64 = floor, fl_Mod = (\<lambda>x y. x), fl_Trunc = (\<lambda>x. of_int \<lfloor>x\<rfloor>), fl_Abs = abs, fl_Sqrt = id, fl_IsInf = (\<lambda>_. False), fl_ParseFloat = (\<lambda>_. None), fl_FormatFloat = (\<lambda>_. [])\<rparr>,
    al_Float64s = sort, al_Int63n = (\<lambda>_. 0), al_Format1 = (\<lambda>_. [])\<rparr>"

theorem stdvar_is_variance_witness:
  "acc_Result rat_lib (fold (acc_Add rat_lib) [1, 2, 6] (newAccumulator (al_floats rat_lib) AggStdvar)) = Some (14 / 3)"
  using stdvar_is_variance [of rat_lib "[1, 2, 6]"] by (simp add: rat_lib_def exact_def mean_of_def)

section \<open>Groups\<close>

type_synonym 'f sample = "int \<times> attributes \<times> 'f number_value"

definition ingest_samples :: "'f aggregate_lib \<Rightarrow> 'f ProcessingRule \<Rightarrow> 'f sample list \<Rightarrow> 'f aggregateRuleState \<Rightarrow> 'f aggregateRuleState" where
  "ingest_samples lib rule ss rs = fold (\<lambda>(now, as, v). state_ingest lib now rule as v) ss rs"

definition sample_group :: "'f ProcessingRule \<Rightarrow> 'f sample \<Rightarrow> gostring" where
  "sample_group rule = (\<lambda>(_, as, _). fst (agg_buildGroupKey (buildGroupLabels as (pr_GroupBy rule) (pr_DropLabels rule))))"

definition sample_labels :: "'f ProcessingRule \<Rightarrow> 'f sample \<Rightarrow> attributes" where
  "sample_labels rule = (\<lambda>(_, as, _). snd (agg_buildGroupKey (buildGroupLabels as (pr_GroupBy rule) (pr_DropLabels rule))))"

definition in_group :: "'f ProcessingRule \<Rightarrow> gostring \<Rightarrow> 'f sample list \<Rightarrow> 'f sample list" where
  "in_group rule k ss = filter (\<lambda>s. sample_group rule s = k) ss"

definition group_values :: "'f aggregate_lib \<Rightarrow> 'f ProcessingRule \<Rightarrow> gostring \<Rightarrow> 'f sample list \<Rightarrow> 'f list" where
  "group_values lib rule k ss = map (\<lambda>(_, _, v). getNumberValue (al_floats lib) v) (in_group rule k ss)"

text \<open>The state of a group that has received the samples \<open>ss\<close>.\<close>

definition holds_samples :: "'f aggregate_lib \<Rightarrow> 'f ProcessingRule \<Rightarrow> gostring \<Rightarrow> 'f sample list \<Rightarrow> 'f aggregateGroup option \<Rightarrow> bool" where
  "holds_samples lib rule k ss g \<longleftrightarrow>
     (case g of
        None \<Rightarrow> in_group rule k ss = []
      | Some g \<Rightarrow> in_group rule k ss \<noteq> [] \<and> ag_count g = int (length (in_group rule k ss)) \<and> ag_labels g = sample_labels rule (hd (in_group rule k ss))
          \<and> ag_accumulators g = map (\<lambda>pf. fold (acc_Add lib) (group_values lib rule k ss) (new_accum (al_floats lib) (parsedInterval rule) pf)) (parsedFunctions rule))"

lemma state_ingest_groups:
  "rs_groups (state_ingest lib now rule as v rs) = (let s = (now, as, v); k = sample_group rule s in
     AList.update k (group_add lib now (getNumberValue (al_floats lib) v)
       (case map_of (rs_groups rs) k of Some g \<Rightarrow> g | None \<Rightarrow> createGroup (al_floats lib) now rule (sample_labels rule s))) (rs_groups rs))"
  unfolding state_ingest_def sample_group_def sample_labels_def Let_def by (simp add: split_beta split: option.split)

lemma state_ingest_rule [simp]: "rs_rule (state_ingest lib now rule as v rs) = rs_rule rs"
  by (simp add: state_ingest_def Let_def split_beta)

lemma holds_samples_step:
  assumes "holds_samples lib rule k ss (map_of (rs_groups rs) k)"
  shows "holds_samples lib rule k (ss @ [(now, as, v)]) (map_of (rs_groups (state_ingest lib now rule as v rs)) k)"
proof (cases "sample_group rule (now, as, v) = k")
  case True
  then have i: "in_group rule k (ss @ [(now, as, v)]) = in_group rule k ss @ [(now, as, v)]" by (simp add: in_group_def)
  show ?thesis
  proof (cases "map_of (rs_groups rs) k")
    case None
    then show ?thesis
      using assms True by (simp add: state_ingest_groups holds_samples_def i group_values_def createGroup_def group_add_def update_conv' Let_def)
  next
    case (Some g)
    then show ?thesis
      using assms True by (simp add: state_ingest_groups holds_samples_def i group_values_def group_add_def update_conv' Let_def hd_append)
  qed
next
  case False
  then have i: "in_group rule k (ss @ [(now, as, v)]) = in_group rule k ss" by (simp add: in_group_def)
  have "map_of (rs_groups (state_ingest lib now rule as v rs)) k = map_of (rs_groups rs) k"
    using False by (simp add: state_ingest_groups update_conv' Let_def)
  then show ?thesis using assms unfolding holds_samples_def group_values_def i by simp
qed

lemma ingest_samples_groups:
  assumes "rs_groups rs = []"
  shows "distinct (map fst (rs_groups (ingest_samples lib rule ss rs))) \<and> rs_rule (ingest_samples lib rule ss rs) = rs_rule rs
    \<and> (\<forall>k. holds_samples lib rule k ss (map_of (rs_groups (ingest_samples lib rule ss rs)) k))"
proof (induction ss rule: rev_induct)
  case Nil
  then show ?case using assms by (simp add: ingest_samples_def holds_samples_def in_group_def)
next
  case (snoc s ss)
  obtain now as v where s: "s = (now, as, v)" by (metis prod_cases3)
  have "ingest_samples lib rule (ss @ [s]) rs = state_ingest lib now rule as v (ingest_samples lib rule ss rs)" by (simp add: ingest_samples_def s)
  moreover have "distinct (map fst (rs_groups (state_ingest lib now rule as v (ingest_samples lib rule ss rs))))"
    using snoc by (simp add: state_ingest_groups distinct_update Let_def)
  moreover have "holds_samples lib rule k (ss @ [s]) (map_of (rs_groups (state_ingest lib now rule as v (ingest_samples lib rule ss rs))) k)" for k
    unfolding s by (rule holds_samples_step) (use snoc in simp)
  ultimately show ?case using snoc by simp
qed

text \<open>What a group should emit.\<close>

definition expected_outputs :: "'f aggregate_lib \<Rightarrow> 'f ProcessingRule \<Rightarrow> u64 \<Rightarrow> 'f sample list \<Rightarrow> gostring \<Rightarrow> 'f agg_output list" where
  "expected_outputs lib rule now ss k =
     map (\<lambda>pf. \<lparr>out_Name = (let n = (if pr_Output rule = [] then pr_Input rule else pr_Output rule)
                              in if length (parsedFunctions rule) > 1 then n @ gostr ''_'' @ func_name (pf_Func pf) else n),
                 out_Attributes = sample_labels rule (hd (in_group rule k ss)), out_Time = now,
                 out_Value = agg_ref (al_floats lib) (duration_seconds (al_floats lib) (parsedInterval rule)) (pf_Func pf) (group_values lib rule k ss)\<rparr>)
       (parsedFunctions rule)"

definition no_quantiles :: "'f ProcessingRule \<Rightarrow> bool" where
  "no_quantiles rule = list_all (\<lambda>pf. pf_Func pf \<noteq> AggQuantiles) (parsedFunctions rule)"

lemma new_accum_plain: "pf_Func pf \<noteq> AggQuantiles \<Longrightarrow> new_accum fl d pf = acc_window fl d (plain_func (pf_Func pf))"
  by (simp add: new_accum_def acc_window_def)

lemma funcs_outputs_plain:
  assumes "list_all (\<lambda>pf. pf_Func pf \<noteq> AggQuantiles) pfs" "vs \<noteq> []"
  shows "funcs_outputs lib n multi labels now pfs (map (\<lambda>pf. fold (acc_Add lib) vs (new_accum (al_floats lib) d pf)) pfs)
    = Some (map (\<lambda>pf. \<lparr>out_Name = (if multi then n @ gostr ''_'' @ func_name (pf_Func pf) else n), out_Attributes = labels, out_Time = now,
        out_Value = agg_ref (al_floats lib) (duration_seconds (al_floats lib) d) (pf_Func pf) vs\<rparr>) pfs)"
  using assms(1)
proof (induction pfs)
  case (Cons pf pfs)
  then show ?case
    using acc.result_spec [OF assms(2), of lib d "pf_Func pf"] by (simp add: func_outputs_def new_accum_plain)
qed simp

lemma group_flush_plain:
  assumes "no_quantiles rule" "holds_samples lib rule k ss (Some g)"
  shows "\<exists>g'. group_flush lib rule now g = Some (expected_outputs lib rule now ss k, g') \<and> ag_count g' = 0
    \<and> ag_accumulators g' = map (new_accum (al_floats lib) (parsedInterval rule)) (parsedFunctions rule)"
proof -
  have v: "group_values lib rule k ss \<noteq> []" and c: "ag_count g \<noteq> 0" using assms(2) by (auto simp: holds_samples_def group_values_def)
  have r: "acc_Reset (al_floats lib) (fold (acc_Add lib) (group_values lib rule k ss) (new_accum (al_floats lib) (parsedInterval rule) pf)) = new_accum (al_floats lib) (parsedInterval rule) pf"
    if "pf \<in> set (parsedFunctions rule)" for pf
    using acc.reset_init [of lib _ "parsedInterval rule" "pf_Func pf"] assms(1) that by (auto simp: no_quantiles_def list_all_iff new_accum_plain)
  show ?thesis
    using assms c funcs_outputs_plain [OF _ v, of "parsedFunctions rule" lib _ _ "ag_labels g" now "parsedInterval rule"] r
    by (simp add: group_flush_def holds_samples_def expected_outputs_def no_quantiles_def Let_def)
qed

lemma groups_flush_plain:
  assumes "no_quantiles rule" "\<forall>(k, g) \<in> set gs. holds_samples lib rule k ss (Some g)"
  shows "\<exists>gs'. groups_flush lib rule now gs = Some (concat (map (expected_outputs lib rule now ss) (map fst gs)), gs')
    \<and> map fst gs' = map fst gs \<and> (\<forall>g \<in> set gs'. ag_count (snd g) = 0)"
  using assms(2)
proof (induction gs)
  case (Cons x gs)
  obtain k g where x: "x = (k, g)" by fastforce
  obtain g' where "group_flush lib rule now g = Some (expected_outputs lib rule now ss k, g')" "ag_count g' = 0"
    using group_flush_plain [OF assms(1), of lib k ss g now] Cons.prems x by auto
  then show ?case using Cons x by auto
qed simp

lemma groups_flush_empty: "\<forall>g \<in> set gs. ag_count (snd g) = 0 \<Longrightarrow> groups_flush lib rule now gs = Some ([], gs)"
proof (induction gs)
  case (Cons x gs)
  then show ?case by (cases x) (simp add: group_flush_def)
qed simp


definition int_agg :: "int aggregate_lib" where
  "int_agg = \<lparr>al_floats = int_floats, al_Float64s = sort, al_Int63n = (\<lambda>_. 0), al_Format1 = (\<lambda>_. [])\<rparr>"

definition sum_rule :: "int ProcessingRule" where
  "sum_rule = (blank_processing_rule int_floats)\<lparr>pr_Name := gostr ''r'', pr_Input := gostr ''in'', pr_Output := gostr ''out'', pr_Action := ProcAggregate, parsedFunctions := [\<lparr>pf_Func = AggSum, pf_Quantiles = []\<rparr>]\<rparr>"

definition fresh_state :: "'f ProcessingRule \<Rightarrow> 'f aggregateRuleState" where
  "fresh_state r = \<lparr>rs_rule = r, rs_groups = [], rs_interval = parsedInterval r\<rparr>"


section \<open>What is lost\<close>

lemma last_seen_sample:
  assumes "rs_groups rs = []" "(k, g) \<in> set (rs_groups (ingest_samples lib rule ss rs))"
  shows "ag_lastSeen g \<in> fst ` set ss"
  using assms(2)
proof (induction ss arbitrary: k g rule: rev_induct)
  case (snoc s ss)
  obtain now as v where s: "s = (now, as, v)" by (metis prod_cases3)
  have i: "ingest_samples lib rule (ss @ [s]) rs = state_ingest lib now rule as v (ingest_samples lib rule ss rs)" by (simp add: ingest_samples_def s)
  have "set (AList.update k' x al) \<subseteq> insert (k', x) (set al)" for k' and x :: "'a aggregateGroup" and al by (induction al) auto
  then have "(k, g) \<in> set (rs_groups (ingest_samples lib rule ss rs)) \<or> ag_lastSeen g = now"
    using snoc.prems unfolding i state_ingest_groups Let_def by (fastforce simp: group_add_def)
  then show ?case using snoc.IH by (auto simp: s)
qed (use assms(1) in \<open>simp add: ingest_samples_def\<close>)

text \<open>
  Clean-up loses datapoints that were not flushed yet. When all datapoints of a rule are older than the staleness interval at the time of a clean-up, the next flush emits nothing, however many were
  ingested; validation accepts rules whose interval is longer than the staleness interval, ten minutes by default.
\<close>

theorem stale_groups_lost:
  assumes "rs_groups rs = []" "\<forall>s \<in> set ss. now - fst s > staleness"
  shows "flushRule lib t (cleanup_state staleness now (ingest_samples lib rule ss rs)) = Some ([], (ingest_samples lib rule ss rs)\<lparr>rs_groups := []\<rparr>)"
proof -
  have "now - ag_lastSeen g > staleness" if "(k, g) \<in> set (rs_groups (ingest_samples lib rule ss rs))" for k g
    using last_seen_sample [OF assms(1) that] assms(2) by auto
  then have "filter (\<lambda>(_, g). \<not> now - ag_lastSeen g > staleness) (rs_groups (ingest_samples lib rule ss rs)) = []"
    by (auto simp: filter_empty_conv)
  then show ?thesis by (simp add: cleanup_state_def flushRule_def)
qed

theorem stale_groups_lost_witness:
  "flushRule int_agg 9 (cleanup_state (10 * one_minute) (11 * one_minute) (ingest_samples int_agg sum_rule [(0, [], AsInt 3), (1, [], AsInt 4)] (fresh_state sum_rule)))
     = Some ([], fresh_state sum_rule)"
proof -
  have "(ingest_samples int_agg sum_rule [(0, [], AsInt 3), (1, [], AsInt 4)] (fresh_state sum_rule))\<lparr>rs_groups := []\<rparr> = fresh_state sum_rule"
    by (simp add: fresh_state_def ingest_samples_def state_ingest_def Let_def split_beta)
  moreover have "rs_groups (fresh_state sum_rule) = []" by (simp add: fresh_state_def)
  ultimately show ?thesis
    using stale_groups_lost [of "fresh_state sum_rule" "[(0, [], AsInt 3), (1, [], AsInt 4)]" "10 * one_minute" "11 * one_minute" int_agg 9 sum_rule] by (simp add: one_minute_def)
qed

text \<open>Keys of groups do not escape their separators: different label sets share a group, and so do values that are not strings.\<close>

lemma group_keys_collide:
  "fst (agg_buildGroupKey [attr ''a'' ''1|b=2'']) = fst (agg_buildGroupKey [attr ''a'' ''1'', attr ''b'' ''2''])"
  "fst (agg_buildGroupKey [\<lparr>kv_Key = k, kv_Value = Some (IntValue m)\<rparr>]) = fst (agg_buildGroupKey [\<lparr>kv_Key = k, kv_Value = Some (IntValue n)\<rparr>])"
  by (simp_all add: agg_buildGroupKey_def attr_def GetStringValue_def gostr_def Let_def)

end
