(* ===== verification/Sampler.thy ===== *)
theory Sampler
  imports Aggregate Rule_Cache Limits_Enforcer
begin

text \<open>
  The processing engine: \<open>internal/sampling/sampling.go\<close>, \<open>rulecache.go\<close> and \<open>dead_rules.go\<close>. The cache of rule indices is the LRU cache of \<open>Rule_Cache\<close> with lists of indices as its values. A rule list
  is passed along as in the code, so that a cached index can be out of range; \<open>None\<close> is a panic. Times of the last match are kept by rule name. Clock and random numbers are fields of \<open>sampler_env\<close>;
  \<open>se_Float64 n\<close> is the number drawn for the \<open>n\<close>-th sampling operation. A data point list that is empty is nil, as unmarshalling leaves it. Prometheus counters are left out.
\<close>

section \<open>State\<close>

record 'f sampler_env =
  se_lib :: "'f processing_lib"
  se_agg :: "'f aggregate_lib"
  se_now :: int
  se_Float64 :: "int \<Rightarrow> 'f"

record 'f Sampler =
  sp_ops :: int
  sp_dsEngine :: "'f downsampleEngine option"
  sp_procRules :: "'f ProcessingRule list"
  sp_aggEngine :: "'f aggregateEngine"
  sp_deadScanner :: "int option"
  sp_ruleNameCache :: "nat list ruleCache option"
  sp_dead :: activity_map

type_synonym ('f, 'o) dpoint = "('f, 'o) point_rest DataPoint"

section \<open>Sampling and matching\<close>

definition shouldKeep :: "'f sampler_env \<Rightarrow> 'f \<Rightarrow> bool \<Rightarrow> 'f Sampler \<Rightarrow> bool \<times> 'f Sampler" where
  "shouldKeep env rate probabilistic s =
     (let fl = tl_floats (se_lib env) in
      if fl_ge fl rate (fl_one fl) then (True, s)
      else if fl_le fl rate (fl_zero fl) then (False, s)
      else let s = s\<lparr>sp_ops := sp_ops s + 1\<rparr>
           in if probabilistic then (fl_less fl (se_Float64 env (sp_ops s)) rate, s)
              else (sp_ops s mod one_in fl rate = 0, s))"

definition matchProcessingRuleName :: "'f ProcessingRule \<Rightarrow> gostring \<Rightarrow> bool" where
  "matchProcessingRuleName rule metricName =
     (if inputPrefix rule \<noteq> [] \<and> \<not> prefix (inputPrefix rule) metricName then False
      else case compiledInput rule of Some re \<Rightarrow> rx_MatchString re metricName | None \<Rightarrow> True)"

definition matchProcessingRuleLabels :: "'f ProcessingRule \<Rightarrow> labels \<Rightarrow> bool" where
  "matchProcessingRuleLabels rule attrMap =
     list_all (\<lambda>(key, re). case map_of attrMap key of Some v \<Rightarrow> rx_MatchString re v | None \<Rightarrow> False) (compiledLabels rule)"

definition buildAttrMap :: "attributes \<Rightarrow> labels" where
  "buildAttrMap as = foldl (\<lambda>m kv. AList.update (kv_Key kv) (GetStringValue (kv_Value kv)) m) [] as"

definition computeNameMatchingIndices :: "'f ProcessingRule list \<Rightarrow> gostring \<Rightarrow> nat list" where
  "computeNameMatchingIndices rules metricName = filter (\<lambda>i. matchProcessingRuleName (rules ! i) metricName) [0..<length rules]"

text \<open>The cache of the sampler is the code of the limits cache with other values.\<close>

type_synonym processingRuleCache = "nat list ruleCache"

definition newProcessingRuleCache :: "int \<Rightarrow> processingRuleCache option" where
  "newProcessingRuleCache = newRuleCache"

definition procCache_Get :: "processingRuleCache option \<Rightarrow> gostring \<Rightarrow> nat list option \<times> processingRuleCache option" where
  "procCache_Get = cache_Get"

definition procCache_Put :: "processingRuleCache option \<Rightarrow> gostring \<Rightarrow> nat list \<Rightarrow> processingRuleCache option" where
  "procCache_Put = cache_Put"

definition procCache_Size :: "processingRuleCache option \<Rightarrow> nat" where
  "procCache_Size = cache_Size"

definition procCache_Clear :: "processingRuleCache option \<Rightarrow> processingRuleCache option" where
  "procCache_Clear = ClearCache"

definition procCache_EstimatedMemoryBytes :: "processingRuleCache option \<Rightarrow> nat" where
  "procCache_EstimatedMemoryBytes c = (case c of None \<Rightarrow> 0 | Some c \<Rightarrow> foldl (\<lambda>n (k, is). n + (200 + length k + length is * 8)) 0 (rc_order c))"

definition name_indices :: "'f ProcessingRule list \<Rightarrow> gostring \<Rightarrow> 'f Sampler \<Rightarrow> nat list \<times> 'f Sampler" where
  "name_indices rules metricName s =
     (case procCache_Get (sp_ruleNameCache s) metricName of
        (Some indices, c) \<Rightarrow> (indices, s\<lparr>sp_ruleNameCache := c\<rparr>)
      | (None, c) \<Rightarrow>
          (let indices = computeNameMatchingIndices rules metricName in (indices, s\<lparr>sp_ruleNameCache := procCache_Put c metricName indices\<rparr>)))"

section \<open>Applying rules\<close>

datatype verdict = Continue | Keep | Discard

definition record_match :: "'f sampler_env \<Rightarrow> 'f ProcessingRule \<Rightarrow> 'f Sampler \<Rightarrow> 'f Sampler" where
  "record_match env rule s = s\<lparr>sp_dead := recordRuleMatch (sp_dead s) (pr_Name rule) (se_now env)\<rparr>"

definition apply_transform :: "'f sampler_env \<Rightarrow> 'f ProcessingRule \<Rightarrow> ('f, 'o) dpoint \<Rightarrow> ('f, 'o) dpoint option" where
  "apply_transform env rule dp =
     (if pr_When rule \<noteq> [] \<and> \<not> evaluateConditions (pr_When rule) (dp_Attributes dp) then Some dp
      else map_option (\<lambda>as. dp\<lparr>dp_Attributes := as\<rparr>)
        (applyTransformOperations (transform_lib.truncate (se_lib env)) (dp_Attributes dp) (compiledOps rule)))"

definition apply_downsample :: "'f sampler_env \<Rightarrow> gostring \<Rightarrow> 'f ProcessingRule \<Rightarrow> ('f, 'o) dpoint \<Rightarrow> 'f Sampler \<Rightarrow> (verdict \<times> ('f, 'o) dpoint \<times> 'f Sampler) option" where
  "apply_downsample env metricName rule dp s =
     (case (dsConfig rule, sp_dsEngine s) of
        (Some cfg, Some de) \<Rightarrow> do {
          let fl = tl_floats (se_lib env);
          let seriesKey = buildDSSeriesKey metricName (dp_Attributes dp);
          (emitted, de) \<leftarrow> ingestAndEmit fl (se_now env) seriesKey cfg (TimeUnixNano (dp_rest dp)) (getNumberValue fl (np_Value (dp_rest dp))) de;
          let s = s\<lparr>sp_dsEngine := Some de\<rparr>;
          Some (case emitted of
                  p # _ \<Rightarrow> (Keep, dp\<lparr>dp_rest := (dp_rest dp)\<lparr>TimeUnixNano := ep_timestamp p, np_Value := AsDouble (ep_value p)\<rparr>\<rparr>, s)
                | [] \<Rightarrow> (Discard, dp, s))}
      | _ \<Rightarrow> Some (Keep, dp, s))"

definition apply_sample :: "'f sampler_env \<Rightarrow> 'f ProcessingRule \<Rightarrow> 'f Sampler \<Rightarrow> verdict \<times> 'f Sampler" where
  "apply_sample env rule s =
     (case shouldKeep env (pr_Rate rule) (pr_Method rule = gostr ''probabilistic'') s of (keep, s) \<Rightarrow> (if keep then Keep else Discard, s))"

text \<open>One rule, once its name and labels match; \<open>number\<close> tells the two variants of the switch apart.\<close>

definition apply_rule ::
    "'f sampler_env \<Rightarrow> bool \<Rightarrow> gostring \<Rightarrow> 'f ProcessingRule \<Rightarrow> ('f, 'o) dpoint \<Rightarrow> 'f Sampler \<Rightarrow> (verdict \<times> ('f, 'o) dpoint \<times> 'f Sampler) option" where
  "apply_rule env number metricName rule dp s =
     (case pr_Action rule of
        ProcTransform \<Rightarrow> map_option (\<lambda>dp. (Continue, dp, s)) (apply_transform env rule dp)
      | ProcClassify \<Rightarrow> Some (Continue, dp\<lparr>dp_Attributes := applyClassify (transform_lib.truncate (se_lib env)) (dp_Attributes dp) (compiledClassify rule)\<rparr>, s)
      | ProcDrop \<Rightarrow> Some (Discard, dp, s)
      | ProcSample \<Rightarrow> (case apply_sample env rule s of (v, s) \<Rightarrow> Some (v, dp, s))
      | ProcDownsample \<Rightarrow> if number then apply_downsample env metricName rule dp s else Some (Continue, dp, s)
      | ProcAggregate \<Rightarrow>
          if number then
            Some (if pr_KeepInput rule then Keep else Discard, dp,
                  s\<lparr>sp_aggEngine := agg_Ingest (se_agg env) (se_now env) rule (dp_Attributes dp) (np_Value (dp_rest dp)) (sp_aggEngine s)\<rparr>)
          else Some (Continue, dp, s)
      | _ \<Rightarrow> Some (Continue, dp, s))"

text \<open>The attribute map is built when the first rule with label conditions is reached, and then kept.\<close>

definition attr_map :: "'f ProcessingRule \<Rightarrow> attributes \<Rightarrow> labels option \<Rightarrow> labels option" where
  "attr_map rule as am = (if compiledLabels rule \<noteq> [] \<and> am = None then Some (buildAttrMap as) else am)"

definition labels_match :: "'f ProcessingRule \<Rightarrow> labels option \<Rightarrow> bool" where
  "labels_match rule am = (compiledLabels rule = [] \<or> (case am of Some m \<Rightarrow> matchProcessingRuleLabels rule m | None \<Rightarrow> False))"

fun apply_indices ::
    "'f sampler_env \<Rightarrow> bool \<Rightarrow> gostring \<Rightarrow> 'f ProcessingRule list \<Rightarrow> nat list \<Rightarrow> labels option \<Rightarrow> ('f, 'o) dpoint \<Rightarrow> 'f Sampler \<Rightarrow> (bool \<times> ('f, 'o) dpoint \<times> 'f Sampler) option" where
  "apply_indices env number metricName rules [] am dp s = Some (True, dp, s)"
| "apply_indices env number metricName rules (i # is) am dp s =
     (if i \<ge> length rules then None
      else let rule = rules ! i; am = attr_map rule (dp_Attributes dp) am
           in if \<not> labels_match rule am then apply_indices env number metricName rules is am dp s
              else (case apply_rule env number metricName rule dp (record_match env rule s) of
                      None \<Rightarrow> None
                    | Some (Continue, dp, s) \<Rightarrow> apply_indices env number metricName rules is am dp s
                    | Some (Keep, dp, s) \<Rightarrow> Some (True, dp, s)
                    | Some (Discard, dp, s) \<Rightarrow> Some (False, dp, s)))"

definition apply_processing ::
    "'f sampler_env \<Rightarrow> bool \<Rightarrow> gostring \<Rightarrow> 'f ProcessingRule list \<Rightarrow> ('f, 'o) dpoint \<Rightarrow> 'f Sampler \<Rightarrow> (bool \<times> ('f, 'o) dpoint \<times> 'f Sampler) option" where
  "apply_processing env number metricName rules dp s =
     (case name_indices rules metricName s of (indices, s) \<Rightarrow> apply_indices env number metricName rules indices None dp s)"

definition applyProcessingRules ::
    "'f sampler_env \<Rightarrow> gostring \<Rightarrow> 'f ProcessingRule list \<Rightarrow> ('f, 'o) dpoint \<Rightarrow> 'f Sampler \<Rightarrow> (bool \<times> ('f, 'o) dpoint \<times> 'f Sampler) option" where
  "applyProcessingRules env = apply_processing env True"

definition applyProcessingRulesGeneric ::
    "'f sampler_env \<Rightarrow> gostring \<Rightarrow> 'f ProcessingRule list \<Rightarrow> ('f, 'o) dpoint \<Rightarrow> 'f Sampler \<Rightarrow> (bool \<times> ('f, 'o) dpoint \<times> 'f Sampler) option" where
  "applyProcessingRulesGeneric env = apply_processing env False"

section \<open>Batches\<close>

definition kept_point :: "(bool \<times> 'd \<times> 's) option \<Rightarrow> ('d option \<times> 's) option" where
  "kept_point r = map_option (\<lambda>(kept, dp, s). (if kept then Some dp else None, s)) r"

definition processNumberDataPoints ::
    "'f sampler_env \<Rightarrow> 'f ProcessingRule list \<Rightarrow> gostring \<Rightarrow> ('f, 'o) dpoint list \<Rightarrow> 'f Sampler \<Rightarrow> (('f, 'o) dpoint list \<times> 'f Sampler) option" where
  "processNumberDataPoints env rules metricName dps s = process_all (\<lambda>s dp. kept_point (applyProcessingRules env metricName rules dp s)) s dps"

definition processOtherDataPoints ::
    "'f sampler_env \<Rightarrow> 'f ProcessingRule list \<Rightarrow> gostring \<Rightarrow> ('f, 'o) dpoint list \<Rightarrow> 'f Sampler \<Rightarrow> (('f, 'o) dpoint list \<times> 'f Sampler) option" where
  "processOtherDataPoints env rules metricName dps s = process_all (\<lambda>s dp. kept_point (applyProcessingRulesGeneric env metricName rules dp s)) s dps"

fun is_number :: "'v metric_data \<Rightarrow> bool" where
  "is_number (Metric_Gauge _) = True"
| "is_number (Metric_Sum _ _ _) = True"
| "is_number _ = False"

definition sampling_processMetric ::
    "'f sampler_env \<Rightarrow> 'f ProcessingRule list \<Rightarrow> 'f Sampler \<Rightarrow> ('f, 'o) point_rest Metric \<Rightarrow> (('f, 'o) point_rest Metric option \<times> 'f Sampler) option" where
  "sampling_processMetric env rules s m =
     (if m_Data m = Metric_NoData then Some (Some m, s)
      else map_option (\<lambda>(filtered, s). (if filtered = [] then None else Some (m\<lparr>m_Data := with_data_points (m_Data m) filtered\<rparr>), s))
        (if is_number (m_Data m) then processNumberDataPoints env rules (m_Name m) (data_points (m_Data m)) s
         else processOtherDataPoints env rules (m_Name m) (data_points (m_Data m)) s))"

definition processScopeMetrics ::
    "'f sampler_env \<Rightarrow> 'f ProcessingRule list \<Rightarrow> 'f Sampler \<Rightarrow> ('f, 'o) point_rest ScopeMetrics \<Rightarrow> (('f, 'o) point_rest ScopeMetrics option \<times> 'f Sampler) option" where
  "processScopeMetrics env rules s sm =
     map_option (\<lambda>(filteredMetrics, s). (if filteredMetrics = [] then None else Some (sm\<lparr>sm_Metrics := filteredMetrics\<rparr>), s))
       (process_all (sampling_processMetric env rules) s (sm_Metrics sm))"

definition processResourceMetrics ::
    "'f sampler_env \<Rightarrow> 'f ProcessingRule list \<Rightarrow> 'f Sampler \<Rightarrow> ('f, 'o) point_rest ResourceMetrics \<Rightarrow> (('f, 'o) point_rest ResourceMetrics option \<times> 'f Sampler) option" where
  "processResourceMetrics env rules s rm =
     map_option (\<lambda>(filteredScopes, s). (if filteredScopes = [] then None else Some (rm\<lparr>rm_ScopeMetrics := filteredScopes\<rparr>), s))
       (process_all (processScopeMetrics env rules) s (rm_ScopeMetrics rm))"

definition sampling_Process ::
    "'f sampler_env \<Rightarrow> ('f, 'o) point_rest ResourceMetrics list \<Rightarrow> 'f Sampler \<Rightarrow> (('f, 'o) point_rest ResourceMetrics list \<times> 'f Sampler) option" where
  "sampling_Process env rms s = (if rms = [] then Some (rms, s) else process_all (processResourceMetrics env (sp_procRules s)) s rms)"

definition Sample :: "'f sampler_env \<Rightarrow> ('f, 'o) point_rest ResourceMetrics list \<Rightarrow> 'f Sampler \<Rightarrow> (('f, 'o) point_rest ResourceMetrics list \<times> 'f Sampler) option" where
  "Sample = sampling_Process"

section \<open>Creating and reloading\<close>

definition ds_engine_for :: "'f ProcessingRule list \<Rightarrow> 'f downsampleEngine option" where
  "ds_engine_for rules = (if list_ex (\<lambda>r. pr_Action r = ProcDownsample) rules then Some newDownsampleEngine else None)"

definition rule_activities :: "'f ProcessingRule list \<Rightarrow> activity_map" where
  "rule_activities rules = map (\<lambda>r. (pr_Name r, pr_dead r)) rules"

definition NewFromProcessing :: "'f sampler_env \<Rightarrow> 'f ProcessingConfig \<Rightarrow> (processing_error, 'f Sampler) outcome" where
  "NewFromProcessing env cfg =
     bind_outcome (validateProcessingConfig (se_lib env) (se_now env) cfg) (\<lambda>cfg.
       Ok \<lparr>sp_ops = 0, sp_dsEngine = ds_engine_for (Rules cfg), sp_procRules = Rules cfg, sp_aggEngine = newAggregateEngine (Rules cfg) (parsedStaleness cfg),
           sp_deadScanner = (if parsedDeadRuleIntvl cfg > 0 then Some (parsedDeadRuleIntvl cfg) else None), sp_ruleNameCache = newProcessingRuleCache 50000,
           sp_dead = rule_activities (Rules cfg)\<rparr>)"

text \<open>The two critical parts of a reload: the rules are replaced first, and the cache is cleared afterwards.\<close>

definition reload_swap :: "'f ProcessingConfig \<Rightarrow> 'f Sampler \<Rightarrow> 'f Sampler" where
  "reload_swap cfg s = s\<lparr>sp_procRules := Rules cfg, sp_dsEngine := ds_engine_for (Rules cfg), sp_dead := rule_activities (Rules cfg)\<rparr>"

definition reload_clear :: "'f Sampler \<Rightarrow> 'f Sampler" where
  "reload_clear s = s\<lparr>sp_ruleNameCache := procCache_Clear (sp_ruleNameCache s)\<rparr>"

text \<open>The result: an error, or what stopping the aggregation emitted.\<close>

definition ReloadProcessingConfig ::
    "'f sampler_env \<Rightarrow> u64 \<Rightarrow> 'f ProcessingConfig \<Rightarrow> 'f Sampler \<Rightarrow> ((processing_error, 'f agg_output list list) outcome \<times> 'f Sampler) option" where
  "ReloadProcessingConfig env t cfg s =
     (case validateProcessingConfig (se_lib env) (se_now env) cfg of
        Ok cfg \<Rightarrow>
          (let s = reload_clear (reload_swap cfg s)
           in map_option (\<lambda>(out, e). (Ok out, s\<lparr>sp_aggEngine := e\<rparr>)) (agg_Reload (se_agg env) t (Rules cfg) (parsedStaleness cfg) (sp_aggEngine s)))
      | Err e \<Rightarrow> Some (Err e, s)
      | Panic \<Rightarrow> None)"

definition StartAggregation :: "'f Sampler \<Rightarrow> 'f Sampler" where
  "StartAggregation s = s\<lparr>sp_aggEngine := agg_Start (sp_aggEngine s)\<rparr>"

definition StopAggregation :: "'f sampler_env \<Rightarrow> u64 \<Rightarrow> 'f Sampler \<Rightarrow> ('f agg_output list list \<times> 'f Sampler) option" where
  "StopAggregation env t s = map_option (\<lambda>(out, e). (out, s\<lparr>sp_aggEngine := e\<rparr>)) (agg_Stop (se_agg env) t (sp_aggEngine s))"

definition HasAggregation :: "'f Sampler \<Rightarrow> bool" where
  "HasAggregation s = HasRules (sp_aggEngine s)"

definition ProcessingRuleCount :: "'f Sampler \<Rightarrow> nat" where
  "ProcessingRuleCount s = length (sp_procRules s)"

section \<open>Dead rules\<close>

definition updateDeadRuleMetrics :: "activity_map \<Rightarrow> int \<Rightarrow> (gostring \<times> int option \<times> bool \<times> int) list" where
  "updateDeadRuleMetrics acts now =
     map (\<lambda>(name, a). (name, if LastMatchTime a = 0 then None else Some (now - LastMatchTime a), LastMatchTime a = 0, now - LoadedTime a)) acts"

text \<open>One tick of the scanner: the transitions it logs, the number of dead rules, and the new activities.\<close>

fun scan_activities :: "int \<Rightarrow> int \<Rightarrow> activity_map \<Rightarrow> (gostring \<times> bool) list \<times> nat \<times> activity_map" where
  "scan_activities now threshold [] = ([], 0, [])"
| "scan_activities now threshold ((name, a) # acts) =
     (let ((isDead, transitioned, _), a) = EvaluateAndTransition a now threshold;
          (log, n, acts) = scan_activities now threshold acts
      in (if transitioned then (name, isDead) # log else log, if isDead then n + 1 else n, (name, a) # acts))"

definition scanner_tick :: "int \<Rightarrow> 'f Sampler \<Rightarrow> ((gostring \<times> bool) list \<times> nat) \<times> 'f Sampler" where
  "scanner_tick now s =
     (case sp_deadScanner s of
        None \<Rightarrow> (([], 0), s)
      | Some interval \<Rightarrow> (case scan_activities now interval (sp_dead s) of (log, n, acts) \<Rightarrow> ((log, n), s\<lparr>sp_dead := acts\<rparr>)))"

end
