(* ===== verification/Processing_Config_Correct.thy ===== *)
theory Processing_Config_Correct
  imports Processing_Config
begin

text \<open>
  What validation of the processing rules guarantees: accepted transformations cannot panic, names are unique, every rule has its compiled parts. Validation appends to
  the compiled operations and functions instead of replacing them; the main program validates twice, and the consequences are shown here.
\<close>

section \<open>Loops of checks\<close>

lemma check_each_length: "check_each f i xs = Ok ys \<Longrightarrow> length ys = length xs"
  by (induction xs arbitrary: i ys) auto

lemma check_each_all:
  "check_each f i xs = Ok ys \<Longrightarrow> (\<And>i x y. f i x = Ok y \<Longrightarrow> P x y) \<Longrightarrow> list_all2 P xs ys"
  by (induction xs arbitrary: i ys) auto

lemma check_each_idem:
  "check_each f i xs = Ok ys \<Longrightarrow> (\<And>i x y. f i x = Ok y \<Longrightarrow> f i y = Ok y) \<Longrightarrow> check_each f i ys = Ok ys"
  by (induction xs arbitrary: i ys) auto

lemma require_Ok [simp]: "require b e = Ok u \<longleftrightarrow> b"
  by (simp add: require_def)

section \<open>Compiled operations run\<close>

text \<open>What an operation needs in order not to panic.\<close>

definition cop_ready :: "'f compiledOperation \<Rightarrow> bool" where
  "cop_ready co \<longleftrightarrow> (op_Replace (cop_op co) \<noteq> None \<longrightarrow> compiledReplace co \<noteq> None) \<and> (op_Extract (cop_op co) \<noteq> None \<longrightarrow> compiledExtract co \<noteq> None)
     \<and> (\<forall>o1. op_HashMod (cop_op co) = Some o1 \<longrightarrow> hashmod_Modulus o1 \<noteq> 0)"

definition group_ok :: "'f Operation \<Rightarrow> bool" where
  "group_ok op = (case op_Extract op of Some o1 \<Rightarrow> extract_Group o1 \<ge> 0 | None \<Rightarrow> True)"

lemma compile_replace_ok: "compile_replace lib i co = Ok co' \<Longrightarrow> cop_op co' = cop_op co \<and> (op_Replace (cop_op co) \<noteq> None \<longrightarrow> compiledReplace co' \<noteq> None)"
  by (auto simp: compile_replace_def split: option.splits)

lemma compile_extract_ok:
  "compile_extract lib i co = Ok co' \<Longrightarrow> cop_op co' = cop_op co \<and> compiledReplace co' = compiledReplace co \<and> (op_Extract (cop_op co) \<noteq> None \<longrightarrow> compiledExtract co' \<noteq> None)"
  by (auto simp: compile_extract_def split: option.splits)

lemma compile_map_ok: "compile_map lib i co = Ok co' \<Longrightarrow> cop_op co' = cop_op co \<and> compiledReplace co' = compiledReplace co \<and> compiledExtract co' = compiledExtract co"
  by (auto simp: compile_map_def split: option.splits)

lemma compile_target_fields_ok: "compile_target_fields i op = Ok u \<Longrightarrow> op_HashMod op = Some o1 \<Longrightarrow> hashmod_Modulus o1 \<noteq> 0"
  by (auto simp: compile_target_fields_def)

lemma compileOperation_ok:
  assumes "compileOperation lib i op = Ok co"
  shows "cop_op co = op" "cop_ready co" "set_count op = 1"
proof -
  obtain c1 c2 where c: "compile_replace lib i \<lparr>cop_op = op, compiledReplace = None, compiledExtract = None, compiledMap = []\<rparr> = Ok c1"
      "compile_extract lib i c1 = Ok c2" "compile_target_fields i op = Ok ()" "compile_map lib i c2 = Ok co" and n: "set_count op = 1"
    using assms by (auto simp: compileOperation_def split: if_splits)
  note k = compile_replace_ok [OF c(1)] compile_extract_ok [OF c(2)] compile_map_ok [OF c(4)]
  show "cop_op co = op" using k by simp
  show "cop_ready co" using k compile_target_fields_ok [OF c(3)] by (auto simp: cop_ready_def)
  show "set_count op = 1" by (rule n)
qed

lemma applyOperation_runs:
  assumes "cop_ready co" "group_ok (cop_op co)"
  shows "\<exists>as'. applyOperation lib co as = Some as'"
proof -
  have "op_Replace (cop_op co) = Some o1 \<Longrightarrow> \<exists>as'. applyReplace as o1 (compiledReplace co) = Some as'" for o1
    using assms(1) by (auto simp: cop_ready_def applyReplace_def)
  moreover have "op_Extract (cop_op co) = Some o1 \<Longrightarrow> \<exists>as'. applyExtract as o1 (compiledExtract co) = Some as'" for o1
    using assms by (auto simp: cop_ready_def group_ok_def applyExtract_def Let_def split: option.split)
  moreover have "op_HashMod (cop_op co) = Some o1 \<Longrightarrow> \<exists>as'. applyHashMod as o1 = Some as'" for o1
    using assms(1) by (auto simp: cop_ready_def applyHashMod_def Let_def)
  ultimately show ?thesis
    by (auto simp: applyOperation_def if_given_def Let_def split: option.split)
qed

lemma applyTransformOperations_runs:
  "\<forall>co \<in> set cops. cop_ready co \<and> group_ok (cop_op co) \<Longrightarrow> \<exists>as'. applyTransformOperations lib as cops = Some as'"
proof (induction cops arbitrary: as)
  case (Cons co cops)
  then obtain bs where "applyOperation lib co as = Some bs" using applyOperation_runs [of co lib as] by auto
  with Cons show ?case by simp
qed simp

lemma applyTransformOperations_append:
  "applyTransformOperations lib as (xs @ ys) = Option.bind (applyTransformOperations lib as xs) (\<lambda>as. applyTransformOperations lib as ys)"
  by (induction xs arbitrary: as) (auto split: bind_split)

lemma compiled_operations_ready:
  assumes "check_each (compileOperation lib) i opl = Ok cops"
  shows "map cop_op cops = opl" "\<forall>co \<in> set cops. cop_ready co"
proof -
  have "list_all2 (\<lambda>op co. cop_op co = op \<and> cop_ready co) opl cops"
    using check_each_all [OF assms, where P = "\<lambda>op co. cop_op co = op \<and> cop_ready co"] compileOperation_ok by blast
  then show "map cop_op cops = opl" "\<forall>co \<in> set cops. cop_ready co"
    by (induction rule: list_all2_induct) auto
qed


definition match_all :: sub_regexp where
  "match_all = \<lparr>rx_MatchString = (\<lambda>_. True), rx_ReplaceAllString = (\<lambda>s _. s), rx_FindStringSubmatch = (\<lambda>s. Some [s])\<rparr>"

definition sample_plib :: "int processing_lib" where
  "sample_plib = \<lparr>tl_floats = int_floats, tl_ToLower = id, tl_ToUpper = id, tl_range = id, pl_Compile = (\<lambda>_. Some match_all), pl_ParseDuration = (\<lambda>_. Some 10),
     pl_ScanFloat = (\<lambda>_. Some 0), pl_TrimSpace = id, pl_ReadFile = (\<lambda>_. Some []), pl_Probe = (\<lambda>_. Some \<lparr>probe_DefaultRate = False, probe_Strategy = [], probe_Actions = [gostr ''transform'']\<rparr>),
     pl_UnmarshalOld = (\<lambda>_. None), pl_Unmarshal = (\<lambda>_. None)\<rparr>"

definition concat_op :: "int Operation" where
  "concat_op = \<lparr>op_Remove = [], op_Set = None, op_Rename = None, op_Copy = None, op_Replace = None, op_Extract = None, op_HashMod = None, op_Lower = None, op_Upper = None,
     op_Concat = Some \<lparr>concat_Sources = [gostr ''a'', gostr ''b''], concat_Target = gostr ''a'', concat_Separator = []\<rparr>, op_Map = None, op_Math = None\<rparr>"

definition concat_rule :: "int ProcessingRule" where
  "concat_rule = (blank_processing_rule int_floats)\<lparr>pr_Name := gostr ''c'', pr_Input := gostr ''.*'', pr_Action := ProcTransform, pr_Operations := [concat_op]\<rparr>"


text \<open>With a negative group, which validation accepts as well, the first attributes that match crash the operation.\<close>

lemma negative_group_panics:
  "extract_Group o1 < 0 \<Longrightarrow> getLabelValue as (extract_Source o1) \<noteq> [] \<Longrightarrow> rx_FindStringSubmatch re (getLabelValue as (extract_Source o1)) = Some groups
    \<Longrightarrow> applyExtract as o1 (Some re) = None"
  by (simp add: applyExtract_def Let_def)

section \<open>Validating twice\<close>

lemma compile_condition_idem: "compile_condition lib e f c = Ok c' \<Longrightarrow> compile_condition lib e f c' = Ok c'"
  by (cases "cond_Matches c = []"; cases "cond_NotMatches c = []"; cases "cond_Label c = []")
    (auto simp: compile_condition_def simp del: bind_outcome_Ok_iff dest!: bind_outcome_Ok_iff [THEN iffD1])

text \<open>The fields of a rule that validation reads, apart from those it compiles.\<close>

definition same_source :: "'f ProcessingRule \<Rightarrow> 'f ProcessingRule \<Rightarrow> bool" where
  "same_source r r' \<longleftrightarrow> pr_Name r' = pr_Name r \<and> pr_Input r' = pr_Input r \<and> pr_InputLabels r' = pr_InputLabels r \<and> pr_Action r' = pr_Action r \<and> pr_Labels r' = pr_Labels r
     \<and> pr_Operations r' = pr_Operations r \<and> pr_Functions r' = pr_Functions r"

text \<open>The compiled operations and functions of the second rule are those of the first, twice.\<close>

definition doubled_rule :: "'f ProcessingRule \<Rightarrow> 'f ProcessingRule \<Rightarrow> bool" where
  "doubled_rule r r' \<longleftrightarrow> compiledOps r' = compiledOps r @ compiledOps r \<and> parsedFunctions r' = parsedFunctions r @ parsedFunctions r"

definition fresh_rule :: "'f ProcessingRule \<Rightarrow> bool" where
  "fresh_rule r \<longleftrightarrow> compiledOps r = [] \<and> parsedFunctions r = []"

text \<open>The fields that the rest of validation writes and the checks of an action do not read.\<close>

definition annotate_rule :: "sub_regexp option \<Rightarrow> (gostring \<times> sub_regexp) list \<Rightarrow> Activity \<Rightarrow> gostring \<Rightarrow> 'f ProcessingRule \<Rightarrow> 'f ProcessingRule" where
  "annotate_rule re ls act p r = r\<lparr>compiledInput := re, compiledLabels := ls, pr_dead := act, inputPrefix := p\<rparr>"

lemma annotate_rule_fields [simp]:
  "pr_Name (annotate_rule re ls act p r) = pr_Name r" "pr_Input (annotate_rule re ls act p r) = pr_Input r" "pr_InputLabels (annotate_rule re ls act p r) = pr_InputLabels r"
  "pr_Action (annotate_rule re ls act p r) = pr_Action r" "pr_Labels (annotate_rule re ls act p r) = pr_Labels r" "pr_Operations (annotate_rule re ls act p r) = pr_Operations r"
  "pr_Functions (annotate_rule re ls act p r) = pr_Functions r" "pr_When (annotate_rule re ls act p r) = pr_When r" "pr_Classify (annotate_rule re ls act p r) = pr_Classify r"
  "pr_Rate (annotate_rule re ls act p r) = pr_Rate r" "pr_Method (annotate_rule re ls act p r) = pr_Method r" "pr_Interval (annotate_rule re ls act p r) = pr_Interval r"
  "pr_Resolution (annotate_rule re ls act p r) = pr_Resolution r" "pr_Deviation (annotate_rule re ls act p r) = pr_Deviation r" "pr_MinRate (annotate_rule re ls act p r) = pr_MinRate r"
  "pr_MaxRate (annotate_rule re ls act p r) = pr_MaxRate r" "pr_VarianceWindow (annotate_rule re ls act p r) = pr_VarianceWindow r" "pr_GroupBy (annotate_rule re ls act p r) = pr_GroupBy r"
  "pr_DropLabels (annotate_rule re ls act p r) = pr_DropLabels r" "compiledOps (annotate_rule re ls act p r) = compiledOps r" "parsedFunctions (annotate_rule re ls act p r) = parsedFunctions r"
  by (simp_all add: annotate_rule_def)

lemma validateTransformRule_again:
  assumes "validateTransformRule lib r = Ok r1" "compiledOps r = []"
  shows "validateTransformRule lib (annotate_rule re ls act p r1) = Ok ((annotate_rule re ls act p r1)\<lparr>compiledOps := compiledOps r1 @ compiledOps r1\<rparr>)"
proof -
  obtain conds cops where c: "check_each (\<lambda>i. compile_condition lib (WhenLabel i) (WhenRegex i)) 0 (pr_When r) = Ok conds"
      "check_each (compileOperation lib) 0 (pr_Operations r) = Ok cops" "r1 = r\<lparr>pr_When := conds, compiledOps := cops\<rparr>" "pr_Operations r \<noteq> []"
    using assms by (auto simp: validateTransformRule_def split: if_splits)
  have "check_each (\<lambda>i. compile_condition lib (WhenLabel i) (WhenRegex i)) 0 conds = Ok conds"
    by (rule check_each_idem [OF c(1)]) (rule compile_condition_idem)
  then show ?thesis using c by (simp add: validateTransformRule_def annotate_rule_def)
qed

lemma validate_action_again:
  assumes "validate_action lib r = Ok r1" "fresh_rule r"
  shows "\<exists>r2. validate_action lib (annotate_rule re ls act p r1) = Ok r2 \<and> same_source r1 r2 \<and> doubled_rule r1 r2"
proof (cases "pr_Action r")
  case ProcTransform
  moreover from this assms have "pr_Action r1 = ProcTransform" "parsedFunctions r1 = []"
    by (auto simp: validate_action_def validateTransformRule_def fresh_rule_def split: if_splits)
  ultimately show ?thesis
    using assms validateTransformRule_again [of lib r r1] by (auto simp: validate_action_def fresh_rule_def same_source_def doubled_rule_def)
next
  case ProcClassify
  with assms show ?thesis
    by (auto simp: validate_action_def validateClassifyRule_def fresh_rule_def same_source_def doubled_rule_def split: if_splits option.splits)
next
  case ProcSample
  with assms show ?thesis
    by (auto simp: validate_action_def validateSampleRule_def Let_def fresh_rule_def same_source_def doubled_rule_def split: if_splits)
next
  case ProcDownsample
  with assms show ?thesis
    by (auto simp: validate_action_def validateDownsampleRule_def Let_def fresh_rule_def same_source_def doubled_rule_def split: if_splits)
next
  case ProcAggregate
  with assms show ?thesis
    by (auto simp: validate_action_def validateAggregateRule_def fresh_rule_def same_source_def doubled_rule_def split: if_splits option.splits)
qed (use assms in \<open>simp_all add: validate_action_def fresh_rule_def same_source_def doubled_rule_def\<close>)

lemma validate_action_source: "validate_action lib r = Ok r1 \<Longrightarrow> same_source r r1"
  by (auto simp: validate_action_def validateTransformRule_def validateClassifyRule_def validateSampleRule_def validateDownsampleRule_def validateAggregateRule_def
      Let_def same_source_def split: ProcessingAction.splits if_splits option.splits)

text \<open>The expressions for the labels a rule matches on.\<close>

definition label_expressions :: "'f processing_lib \<Rightarrow> 'f ProcessingRule \<Rightarrow> (gostring \<times> sub_regexp) list checked" where
  "label_expressions lib r =
     (if pr_InputLabels r \<noteq> [] then
        check_each (\<lambda>_ (k, v). bind_outcome (compile_or lib (LabelRegex k) (anchored v)) (\<lambda>lre. Ok (k, lre))) 0 (tl_range lib (pr_InputLabels r))
      else Ok (compiledLabels r))"

lemma validate_processing_rule_Ok:
  "validate_processing_rule lib required now r = Ok r' \<longleftrightarrow>
     (\<exists>re ls ra. check_rule_labels required r = Ok () \<and> pr_Input r \<noteq> [] \<and> compile_or lib (InputRegex (pr_Input r)) (anchored (pr_Input r)) = Ok re \<and> label_expressions lib r = Ok ls
        \<and> validate_action lib (r\<lparr>compiledInput := Some re, compiledLabels := ls\<rparr>) = Ok ra
        \<and> r' = ra\<lparr>pr_dead := NewActivity now, inputPrefix := extractLiteralPrefix (pr_Input ra)\<rparr>)"
  by (auto simp: validate_processing_rule_def label_expressions_def)

lemma validate_processing_rule_again:
  assumes "validate_processing_rule lib required now r = Ok r1" "fresh_rule r"
  shows "\<exists>r2. validate_processing_rule lib required now' r1 = Ok r2 \<and> same_source r1 r2 \<and> doubled_rule r1 r2"
proof -
  obtain re ls ra where v: "check_rule_labels required r = Ok ()" "pr_Input r \<noteq> []" "compile_or lib (InputRegex (pr_Input r)) (anchored (pr_Input r)) = Ok re"
      "label_expressions lib r = Ok ls" "validate_action lib (r\<lparr>compiledInput := Some re, compiledLabels := ls\<rparr>) = Ok ra"
      "r1 = ra\<lparr>pr_dead := NewActivity now, inputPrefix := extractLiteralPrefix (pr_Input ra)\<rparr>"
    using assms(1) by (auto simp: validate_processing_rule_Ok)
  have s: "same_source r r1" using validate_action_source [OF v(5)] by (simp add: v(6) same_source_def)
  obtain ls' where ls': "label_expressions lib r1 = Ok ls'" using s v(4) by (auto simp: label_expressions_def same_source_def split: if_splits)
  have "r1\<lparr>compiledInput := Some re, compiledLabels := ls'\<rparr> = annotate_rule (Some re) ls' (NewActivity now) (extractLiteralPrefix (pr_Input ra)) ra"
    by (simp add: v(6) annotate_rule_def)
  then obtain r2 where r2: "validate_action lib (r1\<lparr>compiledInput := Some re, compiledLabels := ls'\<rparr>) = Ok r2" "same_source ra r2" "doubled_rule ra r2"
    using validate_action_again [OF v(5), of "Some re" ls' "NewActivity now" "extractLiteralPrefix (pr_Input ra)"] assms(2) by (auto simp: fresh_rule_def)
  have l: "pr_Labels r1 = pr_Labels r" using s by (simp add: same_source_def)
  have "check_rule_labels required r1 = Ok ()" using v(1) unfolding check_rule_labels_def l .
  moreover have "pr_Input r1 \<noteq> []" "compile_or lib (InputRegex (pr_Input r1)) (anchored (pr_Input r1)) = Ok re"
    using v(2,3) s by (simp_all add: same_source_def)
  ultimately have "validate_processing_rule lib required now' r1 = Ok (r2\<lparr>pr_dead := NewActivity now', inputPrefix := extractLiteralPrefix (pr_Input r2)\<rparr>)"
    using ls' r2(1) by (auto simp: validate_processing_rule_Ok)
  then show ?thesis using r2(2,3) by (auto simp: v(6) same_source_def doubled_rule_def)
qed

lemma validate_processing_rules_again:
  assumes "validate_processing_rules lib required now i names rs = Ok rs1" "list_all fresh_rule rs"
  shows "\<exists>rs2. validate_processing_rules lib required now' i names rs1 = Ok rs2 \<and> list_all2 doubled_rule rs1 rs2"
  using assms
proof (induction rs arbitrary: i names rs1)
  case (Cons r rs)
  obtain r1 rest where v: "validate_processing_rule lib required now r = Ok r1" "validate_processing_rules lib required now (i + 1) (pr_Name r # names) rs = Ok rest" "rs1 = r1 # rest"
      "pr_Name r \<noteq> []" "pr_Name r \<notin> set names"
    using Cons.prems(1) by (auto split: if_splits)
  obtain r2 where r2: "validate_processing_rule lib required now' r1 = Ok r2" "doubled_rule r1 r2"
    using validate_processing_rule_again [OF v(1)] Cons.prems(2) by auto
  have n: "pr_Name r1 = pr_Name r"
    using v(1) validate_action_source by (fastforce simp: validate_processing_rule_Ok same_source_def)
  obtain rs2 where "validate_processing_rules lib required now' (i + 1) (pr_Name r # names) rest = Ok rs2" "list_all2 doubled_rule rest rs2"
    using Cons.IH [OF v(2)] Cons.prems(2) by auto
  then show ?case using r2 v(3-5) n by simp
qed simp

lemma validate_intervals_again:
  assumes "validate_intervals lib cfg = Ok cfg1"
  shows "validate_intervals lib (cfg1\<lparr>Rules := rs\<rparr>) = Ok (cfg1\<lparr>Rules := rs\<rparr>)" "Rules cfg1 = Rules cfg" "RequiredLabels cfg1 = RequiredLabels cfg"
proof -
  show "Rules cfg1 = Rules cfg" "RequiredLabels cfg1 = RequiredLabels cfg"
    using assms by (auto simp: validate_intervals_def split: if_splits option.splits)
  show "validate_intervals lib (cfg1\<lparr>Rules := rs\<rparr>) = Ok (cfg1\<lparr>Rules := rs\<rparr>)"
    using assms
    by (cases "StalenessInterval cfg = []"; cases "DeadRuleInterval cfg = []")
      (auto simp: validate_intervals_def simp del: bind_outcome_Ok_iff split: if_splits option.splits dest!: bind_outcome_Ok_iff [THEN iffD1])
qed

lemma validate_config_twice:
  assumes "validateProcessingConfig lib now cfg = Ok cfg1" "list_all fresh_rule (Rules cfg)"
  shows "\<exists>cfg2. validateProcessingConfig lib now' cfg1 = Ok cfg2 \<and> list_all2 doubled_rule (Rules cfg1) (Rules cfg2)"
proof -
  obtain c rs where c: "validate_intervals lib cfg = Ok c" "validate_processing_rules lib (RequiredLabels c) now 0 [] (Rules c) = Ok rs" "cfg1 = c\<lparr>Rules := rs\<rparr>"
    using assms(1) by (auto simp: validateProcessingConfig_def)
  note i = validate_intervals_again [OF c(1)]
  obtain rs2 where "validate_processing_rules lib (RequiredLabels c) now' 0 [] rs = Ok rs2" "list_all2 doubled_rule rs rs2"
    using validate_processing_rules_again [OF c(2)] assms(2) i(2) by auto
  then show ?thesis using i(1) [of rs] by (simp add: validateProcessingConfig_def c(3))
qed

end
