(* ===== verification/Sampler_Correct.thy ===== *)
theory Sampler_Correct
  imports Sampler Processing_Config_Correct
begin

text \<open>
  What the processing engine guarantees: the cache of rule indices changes nothing, rules are a walk to the first terminal match, dropped metrics never pass, head sampling keeps one in \<open>n\<close>. And where it does not do what
  its configuration says: rules loaded from a file run twice, alternatives in a pattern are cut off by the literal prefix, head-sampled streams starve each other, and a reload may leave indices in
  the cache that are out of range. The locale \<open>simulated_loop\<close> carries a simulation through the nested loops over resources, scopes, metrics and data points.
\<close>

section \<open>The rules without a cache\<close>

text \<open>The reference: the rules in order, up to the first one that decides.\<close>

fun walk ::
    "'f sampler_env \<Rightarrow> bool \<Rightarrow> gostring \<Rightarrow> 'f ProcessingRule list \<Rightarrow> labels option \<Rightarrow> ('f, 'o) dpoint \<Rightarrow> 'f Sampler \<Rightarrow> (bool \<times> ('f, 'o) dpoint \<times> 'f Sampler) option" where
  "walk env number n [] am dp s = Some (True, dp, s)"
| "walk env number n (rule # rules) am dp s =
     (if \<not> matchProcessingRuleName rule n then walk env number n rules am dp s
      else let am = attr_map rule (dp_Attributes dp) am
           in if \<not> labels_match rule am then walk env number n rules am dp s
              else (case apply_rule env number n rule dp (record_match env rule s) of
                      None \<Rightarrow> None
                    | Some (Continue, dp, s) \<Rightarrow> walk env number n rules am dp s
                    | Some (Keep, dp, s) \<Rightarrow> Some (True, dp, s)
                    | Some (Discard, dp, s) \<Rightarrow> Some (False, dp, s)))"

lemma apply_indices_walk:
  "k \<le> length rules \<Longrightarrow> apply_indices env number n rules (filter (\<lambda>i. matchProcessingRuleName (rules ! i) n) [k..<length rules]) am dp s = walk env number n (drop k rules) am dp s"
proof (induction "length rules - k" arbitrary: k am dp s)
  case (Suc d)
  then have k: "k < length rules" "d = length rules - Suc k" by simp_all
  have u: "[k..<length rules] = k # [Suc k..<length rules]" "drop k rules = rules ! k # drop (Suc k) rules"
    using k(1) by (simp_all add: upt_conv_Cons Cons_nth_drop_Suc)
  note IH = Suc.hyps(1) [OF k(2)]
  show ?case
    unfolding u using k(1) by (simp add: IH Let_def split: option.split prod.split verdict.split)
qed simp

section \<open>The cache\<close>

definition cache_ok :: "'f ProcessingRule list \<Rightarrow> 'f Sampler \<Rightarrow> bool" where
  "cache_ok rules s \<longleftrightarrow> cache_inv (sp_ruleNameCache s) \<and> (\<forall>n is. cached (sp_ruleNameCache s) n = Some is \<longrightarrow> is = computeNameMatchingIndices rules n)"

definition no_cache :: "'f Sampler \<Rightarrow> 'f Sampler" where
  "no_cache s = s\<lparr>sp_ruleNameCache := None\<rparr>"

lemmas procCache_defs = procCache_Get_def procCache_Put_def procCache_Clear_def newProcessingRuleCache_def

lemma name_indices_ok:
  assumes "cache_ok rules s"
  obtains c where "name_indices rules n s = (computeNameMatchingIndices rules n, s\<lparr>sp_ruleNameCache := c\<rparr>)" "cache_ok rules (s\<lparr>sp_ruleNameCache := c\<rparr>)"
proof -
  let ?c = "sp_ruleNameCache s" and ?is = "computeNameMatchingIndices rules n"
  have i: "cache_inv (snd (cache_Get ?c n))" by (rule cache_Get_inv) (use assms in \<open>simp add: cache_ok_def\<close>)
  show ?thesis
  proof (cases "fst (cache_Get ?c n)")
    case None
    then have "name_indices rules n s = (?is, s\<lparr>sp_ruleNameCache := cache_Put (snd (cache_Get ?c n)) n ?is\<rparr>)"
      by (simp add: name_indices_def procCache_defs split_beta Let_def)
    moreover have "cache_ok rules (s\<lparr>sp_ruleNameCache := cache_Put (snd (cache_Get ?c n)) n ?is\<rparr>)"
      using assms cache_Put_inv [OF i] cache_Put_cached [OF _ i] by (fastforce simp: cache_ok_def)
    ultimately show ?thesis by (rule that)
  next
    case (Some xs)
    then have "xs = ?is" using assms cache_Get_value [of ?c n] by (simp add: cache_ok_def)
    then have "name_indices rules n s = (?is, s\<lparr>sp_ruleNameCache := snd (cache_Get ?c n)\<rparr>)"
      using Some by (simp add: name_indices_def procCache_defs split_beta)
    moreover have "cache_ok rules (s\<lparr>sp_ruleNameCache := snd (cache_Get ?c n)\<rparr>)" using assms i by (simp add: cache_ok_def)
    ultimately show ?thesis by (rule that)
  qed
qed

text \<open>Applying a rule neither reads nor writes the cache.\<close>

definition with_cache :: "nat list ruleCache option \<Rightarrow> 'f Sampler \<Rightarrow> 'f Sampler" where
  "with_cache c s = s\<lparr>sp_ruleNameCache := c\<rparr>"

lemma shouldKeep_with_cache: "shouldKeep env rate p (with_cache c s) = map_prod id (with_cache c) (shouldKeep env rate p s)"
  by (simp add: shouldKeep_def with_cache_def Let_def)

lemma apply_rule_with_cache:
  "apply_rule env number n rule dp (with_cache c s) = map_option (map_prod id (map_prod id (with_cache c))) (apply_rule env number n rule dp s)"
proof (cases "pr_Action rule")
  case ProcDownsample
  then show ?thesis
    by (cases "dsConfig rule"; cases "sp_dsEngine s") (auto simp: apply_rule_def apply_downsample_def with_cache_def Let_def split: bind_split list.split)
next
  case ProcSample
  then show ?thesis by (simp add: apply_rule_def apply_sample_def shouldKeep_with_cache split_beta)
qed (simp_all add: apply_rule_def option.map_comp o_def split_beta with_cache_def)

lemma record_match_with_cache: "record_match env rule (with_cache c s) = with_cache c (record_match env rule s)"
  by (simp add: record_match_def with_cache_def)

lemma walk_with_cache:
  "walk env number n rules am dp (with_cache c s) = map_option (map_prod id (map_prod id (with_cache c))) (walk env number n rules am dp s)"
proof (induction rules arbitrary: am dp s)
  case (Cons rule rules)
  show ?case
    by (auto simp: Cons.IH record_match_with_cache apply_rule_with_cache Let_def split: option.split verdict.split)
qed simp

lemma apply_processing_walk:
  assumes "cache_ok rules s"
  shows "map_option (map_prod id (map_prod id no_cache)) (apply_processing env number n rules dp s) = walk env number n rules None dp (no_cache s)"
    and "apply_processing env number n rules dp s = Some (b, dp', s') \<Longrightarrow> cache_ok rules s'"
proof -
  obtain c where c: "name_indices rules n s = (computeNameMatchingIndices rules n, with_cache c s)" "cache_ok rules (with_cache c s)"
    using name_indices_ok [OF assms] unfolding with_cache_def by blast
  have w: "apply_processing env number n rules dp s = map_option (map_prod id (map_prod id (with_cache c))) (walk env number n rules None dp s)"
    using apply_indices_walk [of 0 rules env number n None dp] by (simp add: apply_processing_def c(1) computeNameMatchingIndices_def walk_with_cache)
  have n: "no_cache (with_cache c s) = no_cache s" "no_cache s = with_cache None s" for s :: "'a Sampler" by (simp_all add: no_cache_def with_cache_def)
  show "map_option (map_prod id (map_prod id no_cache)) (apply_processing env number n rules dp s) = walk env number n rules None dp (no_cache s)"
    unfolding w n(2) walk_with_cache by (cases "walk env number n rules None dp s") (auto simp: with_cache_def)
  show "apply_processing env number n rules dp s = Some (b, dp', s') \<Longrightarrow> cache_ok rules s'"
    unfolding w using c(2) by (auto simp: cache_ok_def with_cache_def)
qed

lemma apply_processing_no_cache: "apply_processing env number n rules dp (no_cache s) = walk env number n rules None dp (no_cache s)"
proof -
  have "name_indices rules n (no_cache s) = (computeNameMatchingIndices rules n, no_cache s)"
    by (simp add: name_indices_def no_cache_def procCache_defs cache_Get_def cache_Put_def)
  then show ?thesis using apply_indices_walk [of 0 rules env number n None dp] by (simp add: apply_processing_def computeNameMatchingIndices_def)
qed

section \<open>Nested loops\<close>

locale simulated_loop =
  fixes f :: "'s \<Rightarrow> 'a \<Rightarrow> ('b option \<times> 's) option" and abs :: "'s \<Rightarrow> 's" and inv :: "'s \<Rightarrow> bool"
  assumes sim: "inv s \<Longrightarrow> map_option (map_prod id abs) (f s x) = f (abs s) x"
    and keeps_inv: "inv s \<Longrightarrow> f s x = Some (y, s') \<Longrightarrow> inv s'"
begin

lemma process_all_sim:
  "inv s \<Longrightarrow> map_option (map_prod id abs) (process_all f s xs) = process_all f (abs s) xs"
  "inv s \<Longrightarrow> process_all f s xs = Some (ys, s') \<Longrightarrow> inv s'"
proof -
  have "inv s \<Longrightarrow> map_option (map_prod id abs) (process_all f s xs) = process_all f (abs s) xs \<and> (\<forall>ys s'. process_all f s xs = Some (ys, s') \<longrightarrow> inv s')" for s xs
  proof (induction xs arbitrary: s)
    case (Cons x xs)
    show ?case
    proof (cases "f s x")
      case None
      then show ?thesis using sim [OF Cons.prems, of x] by simp
    next
      case (Some r)
      obtain y s1 where r: "r = (y, s1)" by fastforce
      have "f (abs s) x = Some (y, abs s1)" "inv s1" using sim [OF Cons.prems, of x] keeps_inv [OF Cons.prems] Some r by auto
      then show ?thesis using Cons.IH [of s1] Some r by (cases "process_all f s1 xs") (auto split: option.split)
    qed
  qed simp
  then show "inv s \<Longrightarrow> map_option (map_prod id abs) (process_all f s xs) = process_all f (abs s) xs"
    "inv s \<Longrightarrow> process_all f s xs = Some (ys, s') \<Longrightarrow> inv s'" by blast+
qed

lemma process_all_all:
  assumes "\<And>s x y s'. inv s \<Longrightarrow> f s x = Some (Some y, s') \<Longrightarrow> P y"
  shows "inv s \<Longrightarrow> process_all f s xs = Some (ys, s') \<Longrightarrow> list_all P ys"
proof (induction xs arbitrary: s ys)
  case (Cons x xs)
  from Cons.prems(2) obtain y s1 ys1 where 1: "f s x = Some (y, s1)" "process_all f s1 xs = Some (ys1, s')" "ys = (case y of Some y \<Rightarrow> y # ys1 | None \<Rightarrow> ys1)"
    by (auto split: option.splits)
  have "list_all P ys1" by (rule Cons.IH [OF keeps_inv [OF Cons.prems(1) 1(1)] 1(2)])
  then show ?case using 1 assms [OF Cons.prems(1)] by (cases y) auto
qed simp

end

interpretation points: simulated_loop "\<lambda>s dp. kept_point (apply_processing env number n rules dp s)" no_cache "cache_ok rules" for env number n rules
proof (unfold_locales, goal_cases)
  case (1 s dp)
  have "kept_point (map_option (map_prod id (map_prod id no_cache)) r) = map_option (map_prod id no_cache) (kept_point r)" for r :: "(bool \<times> ('a, 'b) dpoint \<times> 'a Sampler) option"
    by (cases r) (auto simp: kept_point_def)
  then show ?case using apply_processing_walk(1) [OF 1, of env number n dp] apply_processing_no_cache [of env number n rules dp s] by metis
next
  case (2 s dp y s')
  then show ?case using apply_processing_walk(2) [OF 2(1)] by (auto simp: kept_point_def)
qed

lemma points_sim:
  "cache_ok rules s \<Longrightarrow> map_option (map_prod id no_cache) (processNumberDataPoints env rules n dps s) = processNumberDataPoints env rules n dps (no_cache s)"
  "cache_ok rules s \<Longrightarrow> map_option (map_prod id no_cache) (processOtherDataPoints env rules n dps s) = processOtherDataPoints env rules n dps (no_cache s)"
  "cache_ok rules s \<Longrightarrow> processNumberDataPoints env rules n dps s = Some (ys, s') \<Longrightarrow> cache_ok rules s'"
  "cache_ok rules s \<Longrightarrow> processOtherDataPoints env rules n dps s = Some (ys, s') \<Longrightarrow> cache_ok rules s'"
  unfolding processNumberDataPoints_def processOtherDataPoints_def applyProcessingRules_def applyProcessingRulesGeneric_def
  by (rule points.process_all_sim; assumption)+

lemma map_option_post:
  assumes "map_option (map_prod id a) r = r'"
  shows "map_option (map_prod id a) (map_option (\<lambda>(ys, s). (g ys, s)) r) = map_option (\<lambda>(ys, s). (g ys, s)) r'"
  using assms by (cases r) auto

interpretation metrics: simulated_loop "sampling_processMetric env rules" no_cache "cache_ok rules" for env rules
proof (unfold_locales, goal_cases)
  case (1 s m)
  show ?case
  proof (cases "m_Data m = Metric_NoData")
    case False
    show ?thesis unfolding sampling_processMetric_def if_not_P [OF False] by (rule map_option_post) (simp add: points_sim 1)
  qed (simp add: sampling_processMetric_def)
next
  case (2 s m y s')
  then show ?case using points_sim(3,4) [OF 2(1)] by (auto simp: sampling_processMetric_def split: if_splits)
qed

interpretation scopes: simulated_loop "processScopeMetrics env rules" no_cache "cache_ok rules" for env rules
proof (unfold_locales, goal_cases)
  case (1 s sm)
  show ?case unfolding processScopeMetrics_def by (rule map_option_post [OF metrics.process_all_sim(1) [OF 1]])
next
  case (2 s sm y s')
  then show ?case using metrics.process_all_sim(2) [OF 2(1)] by (auto simp: processScopeMetrics_def)
qed

interpretation resources: simulated_loop "processResourceMetrics env rules" no_cache "cache_ok rules" for env rules
proof (unfold_locales, goal_cases)
  case (1 s rm)
  show ?case unfolding processResourceMetrics_def by (rule map_option_post [OF scopes.process_all_sim(1) [OF 1]])
next
  case (2 s rm y s')
  then show ?case using scopes.process_all_sim(2) [OF 2(1)] by (auto simp: processResourceMetrics_def)
qed

text \<open>
  C23: The cache of rule indices is transparent. In a state whose cache holds, for each metric name, the indices of the current rules that match it, processing a batch returns the same batch, decides on every datapoint
  and every panic the same way, and leaves the same counters, downsampling and aggregation states as processing without a cache.
\<close>

theorem name_cache_transparent:
  assumes "cache_ok (sp_procRules s) s"
  shows "map_option (map_prod id no_cache) (sampling_Process env rms s) = sampling_Process env rms (no_cache s)"
proof (cases "rms = []")
  case False
  have "sp_procRules (no_cache s) = sp_procRules s" by (simp add: no_cache_def)
  then show ?thesis using False resources.process_all_sim(1) [OF assms] by (simp add: sampling_Process_def)
qed (simp add: sampling_Process_def)

lemma new_cache_ok: "NewFromProcessing env cfg = Ok s \<Longrightarrow> cache_ok rules s"
  by (auto simp: NewFromProcessing_def cache_ok_def procCache_defs newRuleCache_def cached_def cache_inv_def)

lemma Process_cache_ok:
  assumes "cache_ok (sp_procRules s) s" "sampling_Process env rms s = Some (out, s')"
  shows "cache_ok (sp_procRules s) s'"
  using assms resources.process_all_sim(2) [OF assms(1)] by (auto simp: sampling_Process_def split: if_splits)

section \<open>Concrete samplers\<close>

definition sampler_env0 :: "int sampler_env" where
  "sampler_env0 = \<lparr>se_lib = sample_plib, se_agg = \<lparr>al_floats = int_floats, al_Float64s = sort, al_Int63n = (\<lambda>_. 0), al_Format1 = (\<lambda>_. [])\<rparr>, se_now = 1, se_Float64 = (\<lambda>_. 0)\<rparr>"

definition drop_rule :: "gostring \<Rightarrow> int ProcessingRule" where
  "drop_rule name = (blank_processing_rule int_floats)\<lparr>pr_Name := name, pr_Input := gostr ''.*'', pr_Action := ProcDrop, compiledInput := Some match_all\<rparr>"

definition plain_sampler :: "int ProcessingRule list \<Rightarrow> int Sampler" where
  "plain_sampler rules = \<lparr>sp_ops = 0, sp_dsEngine = None, sp_procRules = rules, sp_aggEngine = newAggregateEngine rules 0, sp_deadScanner = None,
     sp_ruleNameCache = newProcessingRuleCache 50000, sp_dead = rule_activities rules\<rparr>"

lemma plain_sampler_ok: "cache_ok rules' (plain_sampler rules)"
  by (simp add: plain_sampler_def cache_ok_def procCache_defs newRuleCache_def cached_def cache_inv_def)

definition one_point :: "gostring \<Rightarrow> (int, unit) point_rest ResourceMetrics" where
  "one_point n = \<lparr>rm_Resource = None, rm_ScopeMetrics = [\<lparr>sm_Scope = None, sm_Metrics = [\<lparr>m_Name = n, m_Description = [], m_Unit = [], m_Metadata = [],
     m_Data = Metric_Gauge [\<lparr>dp_Attributes = [], dp_rest = \<lparr>TimeUnixNano = 1, np_Value = AsInt 1, np_other = ()\<rparr>\<rparr>]\<rparr>], sm_SchemaUrl = []\<rparr>], rm_SchemaUrl = []\<rparr>"

theorem name_cache_transparent_witness:
  "map_option (map_prod id no_cache) (sampling_Process sampler_env0 [one_point (gostr ''a'')] (plain_sampler [drop_rule (gostr ''d'')]))
   = sampling_Process sampler_env0 [one_point (gostr ''a'')] (no_cache (plain_sampler [drop_rule (gostr ''d'')]))"
  by (rule name_cache_transparent) (rule plain_sampler_ok)

section \<open>Dropped metrics\<close>

text \<open>The rules drop all metrics with this name: a drop rule without label conditions matches it, and every rule before it that matches only changes attributes.\<close>

definition drops_name :: "'f ProcessingRule list \<Rightarrow> gostring \<Rightarrow> bool" where
  "drops_name rules n \<longleftrightarrow> (\<exists>before r after. rules = before @ r # after \<and> pr_Action r = ProcDrop \<and> compiledLabels r = [] \<and> matchProcessingRuleName r n
     \<and> (\<forall>p \<in> set before. matchProcessingRuleName p n \<longrightarrow> pr_Action p \<in> {ProcTransform, ProcClassify}))"

lemma walk_drops:
  assumes "pr_Action r = ProcDrop" "compiledLabels r = []" "matchProcessingRuleName r n"
    and "\<forall>p \<in> set before. matchProcessingRuleName p n \<longrightarrow> pr_Action p \<in> {ProcTransform, ProcClassify}"
  shows "walk env number n (before @ r # after) am dp s = Some (kept, dp', s') \<Longrightarrow> \<not> kept"
  using assms(4)
proof (induction before arbitrary: am dp s)
  case Nil
  then show ?case using assms(1-3) by (auto simp: apply_rule_def labels_match_def Let_def)
next
  case (Cons p before)
  show ?case
  proof (cases "matchProcessingRuleName p n \<and> labels_match p (attr_map p (dp_Attributes dp) am)")
    case True
    then have "pr_Action p \<in> {ProcTransform, ProcClassify}" using Cons.prems(2) by simp
    then show ?thesis
      using Cons True by (fastforce simp: apply_rule_def Let_def split: option.splits)
  next
    case False
    then show ?thesis using Cons by (fastforce simp: Let_def split: if_splits)
  qed
qed

lemma dropped_points:
  fixes dps :: "('f, 'o) dpoint list"
  assumes "drops_name rules n" "cache_ok rules s" "process_all (\<lambda>s dp. kept_point (apply_processing env number n rules dp s)) s dps = Some (ys, s')"
  shows "ys = []"
proof -
  have k: "\<not> kept" if "cache_ok rules s" "apply_processing env number n rules dp s = Some (kept, dp', s')" for s kept s' and dp dp' :: "('f, 'o) dpoint"
  proof -
    have "walk env number n rules None dp (no_cache s) = Some (kept, dp', no_cache s')" using apply_processing_walk(1) [OF that(1), of env number n dp] that(2) by simp
    then show ?thesis using assms(1) walk_drops unfolding drops_name_def by blast
  qed
  have "list_all (\<lambda>_. False) ys" by (rule points.process_all_all [OF _ assms(2,3)]) (auto simp: kept_point_def dest: k split: if_splits)
  then show ?thesis by (cases ys) auto
qed

definition passes_no :: "gostring \<Rightarrow> 'v Metric \<Rightarrow> bool" where
  "passes_no n m \<longleftrightarrow> m_Name m = n \<longrightarrow> m_Data m = Metric_NoData"

lemma dropped_metric:
  assumes "drops_name rules n" "cache_ok rules s" "sampling_processMetric env rules s m = Some (Some m', s')"
  shows "passes_no n m'"
proof (cases "m_Data m = Metric_NoData \<or> m_Name m \<noteq> n")
  case True
  then show ?thesis using assms(3) by (auto simp: sampling_processMetric_def passes_no_def split: if_splits)
next
  case False
  then have n: "m_Data m \<noteq> Metric_NoData" "m_Name m = n" by auto
  from assms(3) obtain number ys where "process_all (\<lambda>s dp. kept_point (apply_processing env number n rules dp s)) s (data_points (m_Data m)) = Some (ys, s')" "ys \<noteq> []"
    by (auto simp: sampling_processMetric_def processNumberDataPoints_def processOtherDataPoints_def applyProcessingRules_def applyProcessingRulesGeneric_def n split: if_splits)
  then show ?thesis using dropped_points [OF assms(1,2)] by blast
qed

text \<open>
  C15: A metric that the rules drop never passes. When a drop rule without label conditions matches a name and only transforming rules before it match that name too, no metric of that name with data points is in the
  processed batch, whatever its type, its labels, the other rules, the random numbers and the cache.
\<close>

theorem dropped_metrics_never_pass:
  assumes "cache_ok (sp_procRules s) s" "drops_name (sp_procRules s) n" "sampling_Process env rms s = Some (out, s')"
  shows "\<forall>rm \<in> set out. \<forall>sm \<in> set (rm_ScopeMetrics rm). \<forall>m \<in> set (sm_Metrics sm). m_Name m = n \<longrightarrow> m_Data m = Metric_NoData"
proof -
  let ?rules = "sp_procRules s"
  have sc: "list_all (passes_no n) (sm_Metrics sm')" if "cache_ok ?rules s1" "processScopeMetrics env ?rules s1 sm = Some (Some sm', s2)" for s1 sm sm' s2
    using that metrics.process_all_all [OF dropped_metric [OF assms(2)]] by (auto simp: processScopeMetrics_def split: if_splits)
  have rs: "list_all (\<lambda>sm. list_all (passes_no n) (sm_Metrics sm)) (rm_ScopeMetrics rm')" if "cache_ok ?rules s1" "processResourceMetrics env ?rules s1 rm = Some (Some rm', s2)" for s1 rm rm' s2
    using that scopes.process_all_all [OF sc] by (auto simp: processResourceMetrics_def split: if_splits)
  have "list_all (\<lambda>rm. list_all (\<lambda>sm. list_all (passes_no n) (sm_Metrics sm)) (rm_ScopeMetrics rm)) out"
    using assms(1,3) resources.process_all_all [OF rs assms(1)] by (auto simp: sampling_Process_def split: if_splits)
  then show ?thesis by (simp add: list_all_iff passes_no_def)
qed

theorem dropped_metrics_never_pass_witness:
  "\<exists>out s'. sampling_Process sampler_env0 [one_point (gostr ''a'')] (plain_sampler [drop_rule (gostr ''d'')]) = Some (out, s')
     \<and> \<not> (\<exists>rm \<in> set out. \<exists>sm \<in> set (rm_ScopeMetrics rm). \<exists>m \<in> set (sm_Metrics sm). m_Name m = gostr ''a'' \<and> m_Data m \<noteq> Metric_NoData)"
proof -
  let ?s = "plain_sampler [drop_rule (gostr ''d'')]" and ?n = "gostr ''a''"
  have c: "cache_ok (sp_procRules ?s) ?s" by (rule plain_sampler_ok)
  have d: "drops_name (sp_procRules ?s) ?n"
    unfolding drops_name_def by (rule exI [of _ "[]"]) (simp add: plain_sampler_def drop_rule_def matchProcessingRuleName_def match_all_def blank_processing_rule_def)
  have "sampling_Process sampler_env0 [one_point ?n] ?s \<noteq> None" by code_simp
  then obtain out s' where "sampling_Process sampler_env0 [one_point ?n] ?s = Some (out, s')" by auto
  then show ?thesis using dropped_metrics_never_pass [OF c d] by blast
qed

section \<open>Head sampling\<close>

text \<open>The decisions of \<open>k\<close> operations in a row.\<close>

fun head_run :: "'f sampler_env \<Rightarrow> 'f \<Rightarrow> nat \<Rightarrow> 'f Sampler \<Rightarrow> bool list \<times> 'f Sampler" where
  "head_run env rate 0 s = ([], s)"
| "head_run env rate (Suc k) s =
     (let (b, s) = shouldKeep env rate False s; (bs, s) = head_run env rate k s in (b # bs, s))"

definition head_rate :: "'f float_lib \<Rightarrow> 'f \<Rightarrow> bool" where
  "head_rate fl rate \<longleftrightarrow> \<not> fl_ge fl rate (fl_one fl) \<and> \<not> fl_le fl rate (fl_zero fl)"

lemma shouldKeep_head:
  "head_rate (tl_floats (se_lib env)) rate \<Longrightarrow>
     shouldKeep env rate False s = ((sp_ops s + 1) mod one_in (tl_floats (se_lib env)) rate = 0, s\<lparr>sp_ops := sp_ops s + 1\<rparr>)"
  by (simp add: shouldKeep_def head_rate_def Let_def)

lemma one_in_pos: "0 < one_in fl rate"
  by (simp add: one_in_def Let_def)

lemma div_next:
  fixes a n :: int
  assumes "0 < n"
  shows "(a + 1) div n = a div n + (if (a + 1) mod n = 0 then 1 else 0)"
proof -
  have r: "a mod n < n" "0 \<le> a mod n" "a + 1 = n * (a div n) + (a mod n + 1)" using assms by simp_all
  show ?thesis
  proof (cases "a mod n + 1 = n")
    case True
    have "a + 1 = n * (a div n + 1) + 0" using r(3) unfolding True by (simp add: distrib_left)
    from int_div_pos_eq [OF this] int_mod_pos_eq [OF this] show ?thesis using assms by simp
  next
    case False
    from int_div_pos_eq [OF r(3)] int_mod_pos_eq [OF r(3)] show ?thesis using r(1,2) False by simp
  qed
qed

text \<open>
  Head sampling keeps one in \<open>n\<close>. With a rate strictly between zero and one, of \<open>k\<close> consecutive sampling operations the sampler keeps exactly as many as there are multiples of \<open>n\<close> among the
  next \<open>k\<close> values of its counter, where \<open>n\<close> is one divided by the rate, truncated; so between \<open>k / n\<close> rounded down and rounded up.
\<close>

theorem head_keeps_one_in_n:
  assumes "head_rate (tl_floats (se_lib env)) rate"
  shows "int (length (filter id (fst (head_run env rate k s))))
      = (sp_ops s + int k) div one_in (tl_floats (se_lib env)) rate - sp_ops s div one_in (tl_floats (se_lib env)) rate
    \<and> sp_ops (snd (head_run env rate k s)) = sp_ops s + int k"
proof (induction k arbitrary: s)
  case (Suc k)
  let ?n = "one_in (tl_floats (se_lib env)) rate" and ?s = "s\<lparr>sp_ops := sp_ops s + 1\<rparr>"
  show ?case
    using Suc.IH [of ?s] div_next [OF one_in_pos, of "sp_ops s" "tl_floats (se_lib env)" rate]
    by (auto simp: shouldKeep_head [OF assms] Let_def split_beta algebra_simps)
qed simp

text \<open>Fixed point numbers with four steps to the unit: the rate \<open>2\<close> is a half.\<close>

definition fixed_floats :: "int float_lib" where
  "fixed_floats = int_floats\<lparr>fl_of_int := (\<lambda>n. 4 * n), fl_div := (\<lambda>x y. (4 * x) div y), fl_int64 := (\<lambda>x. x div 4)\<rparr>"

definition sampler_env2 :: "int sampler_env" where
  "sampler_env2 = sampler_env0\<lparr>se_lib := sample_plib\<lparr>tl_floats := fixed_floats\<rparr>\<rparr>"

lemma half_rate: "head_rate (tl_floats (se_lib sampler_env2)) 2" "one_in (tl_floats (se_lib sampler_env2)) 2 = 2"
  by code_simp+

theorem head_keeps_one_in_n_witness: "int (length (filter id (fst (head_run sampler_env2 2 5 (plain_sampler []))))) = 2"
  using head_keeps_one_in_n [OF half_rate(1), of 5 "plain_sampler []"] by (simp add: half_rate(2) plain_sampler_def)

text \<open>
  The counter of head sampling is shared by all series, so it can starve one. With a rate of one in two, an even counter and a metric with two series that are always sent in the same order, the second series is
  kept every time and the first one never: each batch ends in a state from which the next one does the same.
\<close>

theorem alternating_series_starve:
  assumes "cache_ok [r] s" "matchProcessingRuleName r n" "compiledLabels r = []" "pr_Action r = ProcSample" "pr_Method r \<noteq> gostr ''probabilistic''"
    and "head_rate (tl_floats (se_lib env)) (pr_Rate r)" "one_in (tl_floats (se_lib env)) (pr_Rate r) = 2" "even (sp_ops s)"
  shows "\<exists>s'. processNumberDataPoints env [r] n [x, y] s = Some ([y], s') \<and> cache_ok [r] s' \<and> even (sp_ops s')"
proof -
  let ?f = "\<lambda>s dp. kept_point (applyProcessingRules env n [r] dp s)"
  have step: "\<exists>s1. ?f s dp = Some (if even (sp_ops s) then None else Some dp, s1) \<and> cache_ok [r] s1 \<and> sp_ops s1 = sp_ops s + 1"
    if c: "cache_ok [r] s" for s and dp :: "('a, 'b) dpoint"
  proof -
    have "walk env True n [r] None dp (no_cache s) = Some (odd (sp_ops s), dp, (record_match env r (no_cache s))\<lparr>sp_ops := sp_ops s + 1\<rparr>)"
      using assms(2-7) by (simp add: labels_match_def apply_rule_def apply_sample_def shouldKeep_head record_match_def no_cache_def split_beta Let_def even_iff_mod_2_eq_zero) presburger
    then obtain s1 where s1: "apply_processing env True n [r] dp s = Some (odd (sp_ops s), dp, s1)" "no_cache s1 = (record_match env r (no_cache s))\<lparr>sp_ops := sp_ops s + 1\<rparr>"
      using apply_processing_walk(1) [OF c, of env True n dp] by (cases "apply_processing env True n [r] dp s") auto
    have "sp_ops s1 = sp_ops (no_cache s1)" by (simp add: no_cache_def)
    then show ?thesis using s1 apply_processing_walk(2) [OF c s1(1)] by (auto simp: applyProcessingRules_def kept_point_def s1(2))
  qed
  obtain s1 where s1: "?f s x = Some (None, s1)" "cache_ok [r] s1" "sp_ops s1 = sp_ops s + 1" using step [OF assms(1), of x] assms(8) by auto
  obtain s2 where s2: "?f s1 y = Some (Some y, s2)" "cache_ok [r] s2" "sp_ops s2 = sp_ops s1 + 1" using step [OF s1(2), of y] assms(8) s1(3) by auto
  show ?thesis using s1 s2 assms(8) by (simp add: processNumberDataPoints_def)
qed

definition half_rule :: "int ProcessingRule" where
  "half_rule = (drop_rule (gostr ''h''))\<lparr>pr_Action := ProcSample, pr_Rate := 2\<rparr>"

theorem alternating_series_starve_witness:
  fixes x y :: "(int, unit) dpoint"
  shows "\<exists>s'. processNumberDataPoints sampler_env2 [half_rule] (gostr ''a'') [x, y] (plain_sampler [half_rule]) = Some ([y], s') \<and> even (sp_ops s')"
proof -
  let ?s = "plain_sampler [half_rule]" and ?n = "gostr ''a''"
  have r: "matchProcessingRuleName half_rule ?n" "compiledLabels half_rule = []" "pr_Action half_rule = ProcSample" "pr_Method half_rule \<noteq> gostr ''probabilistic''" "pr_Rate half_rule = 2"
    by code_simp+
  have "even (sp_ops ?s)" by (simp add: plain_sampler_def)
  then show ?thesis
    using alternating_series_starve [OF plain_sampler_ok r(1-4), of sampler_env2 "[half_rule]" x y] half_rate unfolding r(5) by blast
qed

section \<open>Patterns with alternatives\<close>

text \<open>
  C36: The literal prefix of a pattern cuts off matches. When the first metacharacter of an accepted pattern is an alternative, or a quantifier that allows the character before it to be absent, the rule never
  matches a name that does not start with the text before the metacharacter, whatever the regular expression says.
\<close>

theorem alternation_cut_off:
  assumes "validate_processing_rule lib required now r = Ok r'" "pr_Input r = p @ c # q" "set p \<inter> metacharacters = {}" "c \<in> set (gostr ''|?*{'')" "p \<noteq> []" "\<not> prefix p name"
  shows "\<not> matchProcessingRuleName r' name"
proof -
  obtain ra where ra: "same_source r ra" "inputPrefix r' = extractLiteralPrefix (pr_Input ra)"
    using assms(1) validate_action_source by (fastforce simp: validate_processing_rule_Ok same_source_def)
  have "c \<in> metacharacters" using assms(4) by (auto simp: metacharacters_def gostr_def)
  then have "extractLiteralPrefix (p @ c # q) = p"
    using assms(3) by (auto simp: extractLiteralPrefix_def takeWhile_append)
  then have "inputPrefix r' = p" using ra assms(2) by (simp add: same_source_def)
  then show ?thesis using assms(5,6) by (simp add: matchProcessingRuleName_def)
qed

theorem alternation_cut_off_witness:
  "\<exists>r' re. validate_processing_rule sample_plib [] 0 (drop_rule (gostr ''d'')\<lparr>pr_Input := gostr ''cpu|mem''\<rparr>) = Ok r'
     \<and> compiledInput r' = Some re \<and> rx_MatchString re (gostr ''mem'') \<and> \<not> matchProcessingRuleName r' (gostr ''mem'')"
proof -
  let ?r = "drop_rule (gostr ''d'')\<lparr>pr_Input := gostr ''cpu|mem''\<rparr>"
  let ?r' = "?r\<lparr>compiledInput := Some match_all, compiledLabels := [], pr_dead := NewActivity 0, inputPrefix := extractLiteralPrefix (gostr ''cpu|mem'')\<rparr>"
  have v: "validate_processing_rule sample_plib [] 0 ?r = Ok ?r'"
    by (simp add: validate_processing_rule_def check_rule_labels_def drop_rule_def blank_processing_rule_def require_def compile_or_def sample_plib_def validate_action_def gostr_def)
  have i: "pr_Input ?r = gostr ''cpu'' @ 124 # gostr ''mem''" "set (gostr ''cpu'') \<inter> metacharacters = {}" "124 \<in> set (gostr ''|?*{'')" "gostr ''cpu'' \<noteq> []" "\<not> prefix (gostr ''cpu'') (gostr ''mem'')"
    by code_simp+
  have "\<not> matchProcessingRuleName ?r' (gostr ''mem'')" by (rule alternation_cut_off [OF v i])
  then show ?thesis using v by (intro exI [of _ ?r'] exI [of _ match_all]) (simp add: match_all_def)
qed

section \<open>Reloading under traffic\<close>

lemma name_indices_miss:
  assumes "cache_inv (Some c)" "cached (Some c) n = None" "sp_ruleNameCache s = Some c"
  shows "\<exists>c'. name_indices rules n s = (computeNameMatchingIndices rules n, s\<lparr>sp_ruleNameCache := c'\<rparr>) \<and> cached c' n = Some (computeNameMatchingIndices rules n)"
proof -
  obtain d where d: "snd (cache_Get (Some c) n) = Some d" by (cases "map_of (rc_order c) n") (simp_all add: cache_Get_def)
  have "cache_inv (Some d)" using cache_Get_inv [OF assms(1), of n] d by simp
  then obtain c' where "cache_Put (Some d) n (computeNameMatchingIndices rules n) = Some c'" "cached (Some c') n = Some (computeNameMatchingIndices rules n)"
    using cache_Put_order by (fastforce simp: cached_def)
  then show ?thesis using assms(2,3) d cache_Get_value [of "Some c" n] by (auto simp: name_indices_def procCache_defs split_beta Let_def)
qed

text \<open>
  C37: A reload that races with a batch can crash the sampler. A batch that started before the reload still has the old rules; when it handles a metric after the cache has been cleared, it caches the indices of
  the old rules. The next datapoint of that metric uses these indices on the new rules, and panics when the first one is not below the number of new rules.
\<close>

theorem reload_race_panics:
  assumes "cache_inv (Some c)" "sp_ruleNameCache s = Some c" "s1 = reload_clear (reload_swap cfg s)"
    and "apply_processing env number n (sp_procRules s) dp s1 = Some (kept, dp', s2)"
    and "computeNameMatchingIndices (sp_procRules s) n = i # is" "length (Rules cfg) \<le> i"
  shows "sp_procRules s1 = Rules cfg \<and> apply_processing env number' n (sp_procRules s1) dp2 s2 = None"
proof -
  let ?old = "sp_procRules s"
  let ?c = "c\<lparr>rc_order := []\<rparr>"
  have c: "sp_ruleNameCache s1 = Some ?c" "cache_inv (Some ?c)" "cached (Some ?c) n = None"
    using assms(1-3) by (auto simp: reload_clear_def reload_swap_def procCache_defs ClearCache_def cache_inv_def cached_def)
  obtain c' where c': "name_indices ?old n s1 = (i # is, with_cache c' s1)" "cached c' n = Some (i # is)"
    using name_indices_miss [OF c(2,3,1), of ?old] by (auto simp: assms(5) with_cache_def)
  have "apply_processing env number n ?old dp s1 = map_option (map_prod id (map_prod id (with_cache c'))) (walk env number n ?old None dp s1)"
    using c'(1) apply_indices_walk [of 0 ?old env number n None dp] assms(5) by (simp add: apply_processing_def walk_with_cache computeNameMatchingIndices_def)
  then have "cached (sp_ruleNameCache s2) n = Some (i # is)" using assms(4) c'(2) by (cases "walk env number n ?old None dp s1") (auto simp: with_cache_def)
  then have "fst (name_indices (Rules cfg) n s2) = i # is"
    using cache_Get_value [of "sp_ruleNameCache s2" n] by (auto simp: name_indices_def procCache_defs split: prod.splits option.splits)
  then have "apply_processing env number' n (Rules cfg) dp2 s2 = None" using assms(6) by (simp add: apply_processing_def split_beta)
  then show ?thesis by (simp add: assms(3) reload_clear_def reload_swap_def)
qed

definition empty_config :: "int ProcessingConfig" where
  "empty_config = \<lparr>StalenessInterval = [], DeadRuleInterval = [], RequiredLabels = [], Rules = [], parsedStaleness = 0, parsedDeadRuleIntvl = 0\<rparr>"

definition plain_point :: "(int, unit) dpoint" where
  "plain_point = \<lparr>dp_Attributes = [], dp_rest = \<lparr>TimeUnixNano = 1, np_Value = AsInt 1, np_other = ()\<rparr>\<rparr>"

theorem reload_race_panics_witness:
  "\<exists>s2. apply_processing sampler_env0 True (gostr ''a'') [drop_rule (gostr ''d'')] plain_point (reload_clear (reload_swap empty_config (plain_sampler [drop_rule (gostr ''d'')])))
       = Some (False, plain_point, s2)
     \<and> apply_processing sampler_env0 True (gostr ''a'') [] plain_point s2 = None"
proof -
  let ?s = "plain_sampler [drop_rule (gostr ''d'')]" and ?n = "gostr ''a''"
  let ?s1 = "reload_clear (reload_swap empty_config ?s)"
  let ?c = "\<lparr>rc_order = [], rc_maxSize = 50000, rc_hits = 0, rc_misses = 0, rc_evictions = 0\<rparr>"
  have c: "cache_inv (Some ?c)" "sp_ruleNameCache ?s = Some ?c" by (simp_all add: cache_inv_def plain_sampler_def procCache_defs newRuleCache_def)
  have r: "sp_procRules ?s = [drop_rule (gostr ''d'')]" "Rules empty_config = []" by (simp_all add: plain_sampler_def empty_config_def)
  have i: "computeNameMatchingIndices (sp_procRules ?s) ?n = 0 # []"
    by (simp add: r(1) computeNameMatchingIndices_def matchProcessingRuleName_def drop_rule_def blank_processing_rule_def match_all_def plain_sampler_def)
  have k: "cache_ok [drop_rule (gostr ''d'')] ?s1"
    by (simp add: cache_ok_def reload_clear_def reload_swap_def plain_sampler_def procCache_defs newRuleCache_def ClearCache_def cached_def cache_inv_def)
  have "walk sampler_env0 True ?n [drop_rule (gostr ''d'')] None plain_point (no_cache ?s1) = Some (False, plain_point, record_match sampler_env0 (drop_rule (gostr ''d'')) (no_cache ?s1))"
    by (simp add: matchProcessingRuleName_def drop_rule_def blank_processing_rule_def match_all_def attr_map_def labels_match_def apply_rule_def)
  then obtain s2 where s2: "apply_processing sampler_env0 True ?n (sp_procRules ?s) plain_point ?s1 = Some (False, plain_point, s2)"
    using apply_processing_walk(1) [OF k, of sampler_env0 True ?n plain_point] unfolding r
    by (cases "apply_processing sampler_env0 True ?n [drop_rule (gostr ''d'')] plain_point ?s1") auto
  have "sp_procRules ?s1 = [] \<and> apply_processing sampler_env0 True ?n (sp_procRules ?s1) plain_point s2 = None"
    using reload_race_panics [OF c refl s2 i] by (simp add: r(2))
  then show ?thesis using s2 unfolding r by auto
qed

section \<open>Loading and creating\<close>

text \<open>
  C35: The operations of a loaded file run twice. Loading a file in the current format validates its rules, and creating the sampler from the result validates them again, which appends the compiled operations and
  aggregation functions a second time. So creating succeeds, and for every rule the sampler transforms attributes as two passes of what was loaded and computes every aggregation function twice. The hypothesis on the
  decoded rules is that decoding leaves the compiled fields, which the decoder cannot see, empty.
\<close>

theorem loaded_operations_run_twice:
  assumes "pl_ReadFile (se_lib env) path = Some data" "pl_Probe (se_lib env) data = Some p" "\<not> is_legacy p" "pl_Unmarshal (se_lib env) data = Some raw" "list_all fresh_rule (Rules raw)"
    and "LoadProcessingFile (se_lib env) now path = Ok cfg"
  shows "\<exists>s. NewFromProcessing env cfg = Ok s
    \<and> list_all2 (\<lambda>r r'. parsedFunctions r' = parsedFunctions r @ parsedFunctions r
        \<and> (\<forall>as. applyTransformOperations tlib as (compiledOps r')
             = Option.bind (applyTransformOperations tlib as (compiledOps r)) (\<lambda>as. applyTransformOperations tlib as (compiledOps r)))) (Rules cfg) (sp_procRules s)"
proof -
  have "validateProcessingConfig (se_lib env) now raw = Ok cfg"
    using assms(1-4,6) by (simp add: LoadProcessingFile_def ParseProcessing_def)
  then obtain cfg2 where c: "validateProcessingConfig (se_lib env) (se_now env) cfg = Ok cfg2" "list_all2 doubled_rule (Rules cfg) (Rules cfg2)"
    using validate_config_twice assms(5) by blast
  obtain s where "NewFromProcessing env cfg = Ok s" "sp_procRules s = Rules cfg2" using c(1) by (simp add: NewFromProcessing_def)
  moreover have "list_all2 (\<lambda>r r'. parsedFunctions r' = parsedFunctions r @ parsedFunctions r
        \<and> (\<forall>as. applyTransformOperations tlib as (compiledOps r')
             = Option.bind (applyTransformOperations tlib as (compiledOps r)) (\<lambda>as. applyTransformOperations tlib as (compiledOps r)))) (Rules cfg) (Rules cfg2)"
    by (rule list_all2_mono [OF c(2)]) (simp add: doubled_rule_def applyTransformOperations_append)
  ultimately show ?thesis by simp
qed

text \<open>A file with one rule that appends the label \<open>b\<close> to the label \<open>a\<close>.\<close>

definition concat_env :: "int sampler_env" where
  "concat_env = sampler_env0\<lparr>se_lib := sample_plib\<lparr>pl_Unmarshal := (\<lambda>_. Some (empty_config\<lparr>Rules := [concat_rule]\<rparr>))\<rparr>\<rparr>"

definition concat_compiled :: "int ProcessingRule" where
  "concat_compiled = concat_rule\<lparr>compiledOps := [\<lparr>cop_op = concat_op, compiledReplace = None, compiledExtract = None, compiledMap = []\<rparr>], compiledInput := Some match_all,
     inputPrefix := []\<rparr>"

lemma concat_loads:
  "LoadProcessingFile (se_lib concat_env) 0 [] = Ok (empty_config\<lparr>Rules := [concat_compiled], parsedStaleness := 10 * one_minute\<rparr>)"
  by (simp add: LoadProcessingFile_def ParseProcessing_def concat_env_def sampler_env0_def sample_plib_def is_legacy_def validateProcessingConfig_def validate_intervals_def empty_config_def
      validate_processing_rule_def check_rule_labels_def concat_compiled_def concat_rule_def blank_processing_rule_def compile_or_def require_def validate_action_def validateTransformRule_def
      compileOperation_def compile_simple_fields_def compile_replace_def compile_extract_def compile_target_fields_def compile_map_def compile_math_def set_count_def concat_op_def gostr_def
      extractLiteralPrefix_def metacharacters_def)

definition ab_labels :: attributes where
  "ab_labels = [\<lparr>kv_Key = gostr ''a'', kv_Value = Some (StringValue (gostr ''x''))\<rparr>, \<lparr>kv_Key = gostr ''b'', kv_Value = Some (StringValue (gostr ''y''))\<rparr>]"

theorem loaded_operations_run_twice_witness:
  "\<exists>s as. NewFromProcessing concat_env (empty_config\<lparr>Rules := [concat_compiled], parsedStaleness := 10 * one_minute\<rparr>) = Ok s
     \<and> applyTransformOperations (transform_lib.truncate sample_plib) ab_labels (compiledOps (hd (sp_procRules s))) = Some as
     \<and> getLabelValue as (gostr ''a'') = gostr ''xyy''"
proof -
  let ?lib = "se_lib concat_env" and ?tl = "transform_lib.truncate sample_plib"
  have f: "pl_ReadFile ?lib [] = Some []" "pl_Probe ?lib [] = Some \<lparr>probe_DefaultRate = False, probe_Strategy = [], probe_Actions = [gostr ''transform'']\<rparr>"
    "\<not> is_legacy \<lparr>probe_DefaultRate = False, probe_Strategy = [], probe_Actions = [gostr ''transform'']\<rparr>" "pl_Unmarshal ?lib [] = Some (empty_config\<lparr>Rules := [concat_rule]\<rparr>)"
    "list_all fresh_rule (Rules (empty_config\<lparr>Rules := [concat_rule]\<rparr>))"
    by (simp_all add: concat_env_def sampler_env0_def sample_plib_def is_legacy_def gostr_def fresh_rule_def concat_rule_def blank_processing_rule_def)
  obtain s r where s: "NewFromProcessing concat_env (empty_config\<lparr>Rules := [concat_compiled], parsedStaleness := 10 * one_minute\<rparr>) = Ok s" "sp_procRules s = [r]"
      "applyTransformOperations ?tl ab_labels (compiledOps r)
         = Option.bind (applyTransformOperations ?tl ab_labels (compiledOps concat_compiled)) (\<lambda>as. applyTransformOperations ?tl as (compiledOps concat_compiled))"
    using loaded_operations_run_twice [OF f concat_loads, of ?tl] by (auto simp: list_all2_Cons1)
  have "\<exists>as. Option.bind (applyTransformOperations ?tl ab_labels (compiledOps concat_compiled)) (\<lambda>as. applyTransformOperations ?tl as (compiledOps concat_compiled)) = Some as
      \<and> getLabelValue as (gostr ''a'') = gostr ''xyy''"
    by (simp add: concat_compiled_def concat_op_def concat_rule_def ab_labels_def applyOperation_def if_given_def applyConcat_def setLabel_def getLabelValue_def GetStringValue_def string_value_def gostr_def)
  then show ?thesis using s by auto
qed

text \<open>A file in the old format without a default rate, recognised by its strategy, gets a last rule that drops every metric no rule before it decided on.\<close>

lemma legacy_without_rate_drops_rest:
  assumes "fl_le fl (fl_zero fl) (fl_zero fl)" "\<not> fl_greater fl (fl_zero fl) (fl_zero fl)" "old_DefaultRate old = fl_zero fl"
  shows "\<exists>r. pr_Action r = ProcDrop \<and> pr_Input r = gostr ''.*'' \<and> pr_InputLabels r = [] \<and> last (Rules (convertLegacyConfig fl old)) = r"
  using assms by (simp add: convertLegacyConfig_def default_rules_def blank_processing_rule_def)

end
