(* ===== verification/Endpoint_Discovery.thy ===== *)
theory Endpoint_Discovery
  imports Hash_Ring
begin

text \<open>
  Discovery of endpoints by DNS: \<open>internal/sharding/discovery.go\<close>. The resolver is an argument, its answer for a host a list of addresses or an error. The loop is modelled by what one tick does. A change starts a
  goroutine that calls the client back; these calls are a list of pending ones that may run in any order, so discovery and client together are the step relation \<open>watch_step\<close>. Shown is that the client
  agrees with discovery when the calls run in order, and that it can disagree for ever when they do not.
\<close>

section \<open>Model\<close>

record DiscoveryConfig =
  HeadlessService :: gostring
  RefreshInterval :: int
  dns_Timeout :: int
  FallbackEndpoint :: gostring
  FallbackOnEmpty :: bool

record Discovery =
  d_config :: DiscoveryConfig
  d_endpoints :: "gostring list"
  d_onChange :: bool
  d_stopped :: bool

definition one_second :: int where
  "one_second = 1000000000"

definition DefaultDiscoveryConfig :: DiscoveryConfig where
  "DefaultDiscoveryConfig =
     \<lparr>HeadlessService = [], RefreshInterval = 30 * one_second, dns_Timeout = 5 * one_second, FallbackEndpoint = [], FallbackOnEmpty = True\<rparr>"

definition NewDiscovery :: "DiscoveryConfig \<Rightarrow> bool \<Rightarrow> Discovery" where
  "NewDiscovery cfg onChange =
     (let cfg = (if RefreshInterval cfg \<le> 0 then cfg\<lparr>RefreshInterval := 30 * one_second\<rparr> else cfg);
          cfg = (if dns_Timeout cfg \<le> 0 then cfg\<lparr>dns_Timeout := 5 * one_second\<rparr> else cfg)
      in \<lparr>d_config = cfg, d_endpoints = [], d_onChange = onChange, d_stopped = False\<rparr>)"

text \<open>The text before and after the last colon.\<close>

definition cut_last_colon :: "gostring \<Rightarrow> (gostring \<times> gostring) option" where
  "cut_last_colon s =
     (if 58 \<in> set s then Some (rev (tl (dropWhile (\<lambda>c. c \<noteq> 58) (rev s))), rev (takeWhile (\<lambda>c. c \<noteq> 58) (rev s))) else None)"

definition parseHostPort :: "gostring \<Rightarrow> gostring \<times> gostring" where
  "parseHostPort service =
     (case cut_last_colon service of
        Some (before, possiblePort) \<Rightarrow>
          if 58 \<notin> set possiblePort \<and> 46 \<notin> set possiblePort then (before, possiblePort) else (service, [])
      | None \<Rightarrow> (service, []))"

definition with_port :: "gostring \<Rightarrow> gostring \<Rightarrow> gostring" where
  "with_port port ip =
     (if port = [] then ip
      else if 58 \<in> set ip then gostr ''['' @ ip @ gostr '']:'' @ port
      else ip @ gostr '':'' @ port)"

definition lookupEndpoints :: "(gostring \<Rightarrow> gostring list option) \<Rightarrow> DiscoveryConfig \<Rightarrow> gostring list option" where
  "lookupEndpoints LookupHost cfg =
     (let (host, port) = parseHostPort (HeadlessService cfg)
      in map_option (\<lambda>ips.
           let eps = sort (map (with_port port) (filter (\<lambda>ip. ip \<noteq> []) ips))
           in if eps = [] \<and> FallbackOnEmpty cfg \<and> FallbackEndpoint cfg \<noteq> [] then [FallbackEndpoint cfg] else eps) (LookupHost host))"

definition endpointsEqual :: "gostring list \<Rightarrow> gostring list \<Rightarrow> bool" where
  "endpointsEqual a b = (if length a \<noteq> length b then False else list_all (\<lambda>i. a ! i = b ! i) [0..<length a])"

definition endpointsDiff :: "gostring list \<Rightarrow> gostring list \<Rightarrow> gostring list \<times> gostring list" where
  "endpointsDiff old new = (filter (\<lambda>ep. ep \<notin> set old) new, filter (\<lambda>ep. ep \<notin> set new) old)"

text \<open>The argument of the call that is started, if there is one, and the new state.\<close>

definition updateEndpoints :: "gostring list \<Rightarrow> Discovery \<Rightarrow> gostring list option \<times> Discovery" where
  "updateEndpoints newEndpoints d =
     (if endpointsEqual (d_endpoints d) newEndpoints then (None, d)
      else (if d_onChange d then Some newEndpoints else None, d\<lparr>d_endpoints := newEndpoints\<rparr>))"

definition refresh :: "(gostring \<Rightarrow> gostring list option) \<Rightarrow> Discovery \<Rightarrow> gostring list option \<times> Discovery" where
  "refresh LookupHost d =
     (case lookupEndpoints LookupHost (d_config d) of
        None \<Rightarrow> (None, d)
      | Some newEndpoints \<Rightarrow> updateEndpoints newEndpoints d)"

definition refresh_tick :: "(gostring \<Rightarrow> gostring list option) \<Rightarrow> Discovery \<Rightarrow> gostring list option \<times> Discovery" where
  "refresh_tick LookupHost d = (if d_stopped d then (None, d) else refresh LookupHost d)"

definition discovery_Start :: "(gostring \<Rightarrow> gostring list option) \<Rightarrow> Discovery \<Rightarrow> gostring list option \<times> Discovery" where
  "discovery_Start = refresh"

definition discovery_Stop :: "Discovery \<Rightarrow> Discovery" where
  "discovery_Stop d = d\<lparr>d_stopped := True\<rparr>"

definition discovery_GetEndpoints :: "Discovery \<Rightarrow> gostring list" where
  "discovery_GetEndpoints d = d_endpoints d"

definition ForceRefresh :: "(gostring \<Rightarrow> gostring list option) \<Rightarrow> Discovery \<Rightarrow> gostring list option \<times> Discovery" where
  "ForceRefresh = refresh"

section \<open>Discovery and its client\<close>

record 'c watch =
  w_discovery :: Discovery
  w_pending :: "gostring list list"
  w_client :: 'c

text \<open>Running the call at one position of the pending ones.\<close>

definition deliver :: "(gostring list \<Rightarrow> 'c \<Rightarrow> 'c) \<Rightarrow> nat \<Rightarrow> 'c watch \<Rightarrow> 'c watch" where
  "deliver onChange i w =
     (if i < length (w_pending w) then
        w\<lparr>w_pending := take i (w_pending w) @ drop (Suc i) (w_pending w), w_client := onChange (w_pending w ! i) (w_client w)\<rparr>
      else w)"

definition watch_refresh :: "(gostring \<Rightarrow> gostring list option) \<Rightarrow> 'c watch \<Rightarrow> 'c watch" where
  "watch_refresh LookupHost w =
     (case refresh_tick LookupHost (w_discovery w) of
        (call, d) \<Rightarrow> w\<lparr>w_discovery := d, w_pending := w_pending w @ (case call of Some eps \<Rightarrow> [eps] | None \<Rightarrow> [])\<rparr>)"

inductive watch_step :: "(gostring list \<Rightarrow> 'c \<Rightarrow> 'c) \<Rightarrow> 'c watch \<Rightarrow> 'c watch \<Rightarrow> bool" for onChange where
  tick: "watch_step onChange w (watch_refresh LookupHost w)"
| call: "i < length (w_pending w) \<Longrightarrow> watch_step onChange w (deliver onChange i w)"
| stop: "watch_step onChange w (w\<lparr>w_discovery := discovery_Stop (w_discovery w)\<rparr>)"

section \<open>Lookups\<close>

lemma endpointsEqual_iff [simp]: "endpointsEqual a b \<longleftrightarrow> a = b"
  by (auto simp: endpointsEqual_def list_all_iff intro: nth_equalityI)

lemma cut_last_colon_append: "58 \<notin> set port \<Longrightarrow> cut_last_colon (host @ 58 # port) = Some (host, port)"
  by (simp add: cut_last_colon_def takeWhile_append dropWhile_append takeWhile_eq_all_conv [THEN iffD2] dropWhile_eq_Nil_conv [THEN iffD2])

text \<open>A service name with a port is taken apart again, and the address built from it too.\<close>

lemma parseHostPort_roundtrip:
  assumes "58 \<notin> set port" "46 \<notin> set port"
  shows "parseHostPort (host @ gostr '':'' @ port) = (host, port)"
  using assms by (simp add: parseHostPort_def gostr_def cut_last_colon_append)

lemma with_port_roundtrip:
  assumes "58 \<notin> set port" "46 \<notin> set port" "port \<noteq> []"
  shows "snd (parseHostPort (with_port port ip)) = port"
proof (cases "58 \<in> set ip")
  case True
  then have "with_port port ip = (91 # ip @ [93]) @ 58 # port" using assms(3) by (simp add: with_port_def gostr_def)
  then show ?thesis using assms by (simp add: parseHostPort_def cut_last_colon_append del: append_Cons append_assoc)
next
  case False
  then show ?thesis using assms parseHostPort_roundtrip [of port ip] by (simp add: with_port_def)
qed

lemma lookup_sorted: "lookupEndpoints LookupHost cfg = Some eps \<Longrightarrow> sorted eps"
  by (auto simp: lookupEndpoints_def Let_def split: prod.splits if_splits)

section \<open>Calls in order\<close>

text \<open>Discovery's list is the last one started, or the one the client saw last, or still the first one.\<close>

definition watch_agrees :: "('c \<Rightarrow> gostring list) \<Rightarrow> 'c watch \<Rightarrow> bool" where
  "watch_agrees seen w \<longleftrightarrow> d_onChange (w_discovery w)
     \<and> (if w_pending w = [] then seen (w_client w) = d_endpoints (w_discovery w) else List.last (w_pending w) = d_endpoints (w_discovery w))"

lemma watch_refresh_agrees: "watch_agrees seen w \<Longrightarrow> watch_agrees seen (watch_refresh LookupHost w)"
  by (auto simp: watch_agrees_def watch_refresh_def refresh_tick_def refresh_def updateEndpoints_def split: option.splits if_splits)

inductive ordered_run :: "(gostring list \<Rightarrow> 'c \<Rightarrow> 'c) \<Rightarrow> 'c watch \<Rightarrow> 'c watch \<Rightarrow> bool" for onChange where
  start: "ordered_run onChange w w"
| refreshed: "ordered_run onChange w w' \<Longrightarrow> ordered_run onChange w (watch_refresh LookupHost w')"
| delivered: "ordered_run onChange w w' \<Longrightarrow> ordered_run onChange w (deliver onChange 0 w')"

lemma ordered_run_agrees:
  assumes "ordered_run onChange w w'" "\<And>eps c. seen (onChange eps c) = eps" "watch_agrees seen w"
  shows "watch_agrees seen w'"
  using assms(1,3)
proof (induction rule: ordered_run.induct)
  case (delivered w w')
  then show ?case
    by (cases "w_pending w'") (auto simp: watch_agrees_def deliver_def assms(2))
qed (auto intro: watch_refresh_agrees)

section \<open>Calls out of order\<close>

text \<open>A resolver that always gives the same answer, for a service without a port.\<close>

definition answers :: "gostring list \<Rightarrow> gostring \<Rightarrow> gostring list option" where
  "answers ips = (\<lambda>_. Some ips)"

lemma refresh_answers:
  assumes "snd (parseHostPort (HeadlessService (d_config d))) = []" "sorted ips" "[] \<notin> set ips" "ips \<noteq> []"
  shows "refresh (answers ips) d = (if d_endpoints d = ips then (None, d) else (if d_onChange d then Some ips else None, d\<lparr>d_endpoints := ips\<rparr>))"
proof -
  have "filter (\<lambda>ip. ip \<noteq> []) ips = ips" using assms(3) by (metis (mono_tags, lifting) filter_True)
  moreover have "map (with_port []) ips = ips" by (simp add: with_port_def map_idI)
  ultimately have "lookupEndpoints (answers ips) (d_config d) = Some ips"
    using assms by (simp add: lookupEndpoints_def answers_def split_beta Let_def sorted_sort_id)
  then show ?thesis by (simp add: refresh_def updateEndpoints_def)
qed

text \<open>
  C40: The client of discovery can be left with endpoints that are gone. Each change starts a goroutine for the client; when two changes follow each other and the second call runs first, the client ends with the older
  list while discovery holds the newer one, nothing is pending, and as long as DNS keeps its answer no later refresh calls the client again.
\<close>

theorem stale_endpoints_stick:
  assumes "snd (parseHostPort (HeadlessService cfg)) = []" "sorted a" "sorted b" "[] \<notin> set a" "[] \<notin> set b" "a \<noteq> []" "b \<noteq> []" "a \<noteq> b"
    and "w = \<lparr>w_discovery = NewDiscovery cfg True, w_pending = [], w_client = c\<rparr>"
  shows "\<exists>w'. (watch_step onChange)\<^sup>*\<^sup>* w w' \<and> w_pending w' = [] \<and> d_endpoints (w_discovery w') = b \<and> w_client w' = onChange a (onChange b c)
    \<and> watch_refresh (answers b) w' = w'"
proof -
  let ?w1 = "watch_refresh (answers a) w" let ?w2 = "watch_refresh (answers b) ?w1"
  let ?w3 = "deliver onChange 1 ?w2" let ?w4 = "deliver onChange 0 ?w3"
  have h: "HeadlessService (d_config (NewDiscovery cfg True)) = HeadlessService cfg" "d_endpoints (NewDiscovery cfg True) = []"
    "d_onChange (NewDiscovery cfg True)" "\<not> d_stopped (NewDiscovery cfg True)"
    by (simp_all add: NewDiscovery_def Let_def)
  have 2: "?w2 = \<lparr>w_discovery = (NewDiscovery cfg True)\<lparr>d_endpoints := b\<rparr>, w_pending = [a, b], w_client = c\<rparr>"
    using assms h by (simp add: watch_refresh_def refresh_tick_def refresh_answers)
  then have 4: "?w4 = \<lparr>w_discovery = (NewDiscovery cfg True)\<lparr>d_endpoints := b\<rparr>, w_pending = [], w_client = onChange a (onChange b c)\<rparr>"
    by (simp add: deliver_def)
  have p: "1 < length (w_pending ?w2)" "0 < length (w_pending ?w3)" using 2 by (simp_all add: deliver_def)
  have "(watch_step onChange)\<^sup>*\<^sup>* w ?w4"
    using watch_step.tick [of onChange w "answers a"] watch_step.tick [of onChange ?w1 "answers b"] watch_step.call [OF p(1), of onChange] watch_step.call [OF p(2), of onChange]
    by (meson rtranclp.rtrancl_into_rtrancl rtranclp.rtrancl_refl)
  moreover have "watch_refresh (answers b) ?w4 = ?w4"
    unfolding 4 using assms h by (simp add: watch_refresh_def refresh_tick_def refresh_answers)
  ultimately show ?thesis using 4 by (intro exI [of _ ?w4]) simp
qed

theorem stale_endpoints_stick_witness:
  "\<exists>w'. (watch_step (\<lambda>eps ring. UpdateEndpoints (\<lambda>s. word_of_nat (length s)) ring eps))\<^sup>*\<^sup>*
      \<lparr>w_discovery = NewDiscovery (DefaultDiscoveryConfig\<lparr>HeadlessService := gostr ''svc''\<rparr>) True, w_pending = [], w_client = NewHashRing 1\<rparr> w'
    \<and> GetEndpoints (w_client w') = [gostr ''10.0.0.1''] \<and> d_endpoints (w_discovery w') = [gostr ''10.0.0.2'']"
proof -
  have a: "snd (parseHostPort (HeadlessService (DefaultDiscoveryConfig\<lparr>HeadlessService := gostr ''svc''\<rparr>))) = []" "sorted [gostr ''10.0.0.1'']" "sorted [gostr ''10.0.0.2'']"
    "[] \<notin> set [gostr ''10.0.0.1'']" "[] \<notin> set [gostr ''10.0.0.2'']" "[gostr ''10.0.0.1''] \<noteq> []" "[gostr ''10.0.0.2''] \<noteq> []" "[gostr ''10.0.0.1''] \<noteq> [gostr ''10.0.0.2'']"
    by (simp_all add: parseHostPort_def cut_last_colon_def gostr_def)
  show ?thesis
    using stale_endpoints_stick [OF a refl, of "\<lambda>eps ring. UpdateEndpoints (\<lambda>s. word_of_nat (length s)) ring eps" "NewHashRing 1"]
    by (fastforce simp: GetEndpoints_def UpdateEndpoints_fields)
qed

end
