(* ===== verification/Sharded_Exporter.thy ===== *)
theory Sharded_Exporter
  imports Endpoint_Discovery Otlp_Splitter Prw_Splitter
begin

text \<open>
  The exporters that fan out over endpoints: \<open>internal/exporter/sharded.go\<close> and \<open>prw_sharded.go\<close>. The exporters of single endpoints are handles of a record of operations that work on a state of the outside
  world; so are the queues of the PRW variant. The goroutines of an export run one after the other, in the order that the record gives for the shards; the limiter only delays them. The ring is shared between
  exporter and splitter, so it is kept in the splitter alone. \<open>filepath.Join\<close> and \<open>Sprintf\<close> of queue paths are left to the operation that gets directory and name.
\<close>

section \<open>Errors\<close>

text \<open>An error of an exporter: the sentinel for queued requests, a message, an error wrapped with an endpoint, a message made of several errors.\<close>

datatype export_err = ErrExportQueued | ErrMessage gostring | ErrAtEndpoint gostring export_err | ErrCombined "export_err list"

text \<open>\<open>errors.Is(err, ErrExportQueued)\<close>: wrapping is looked through, a message made of others is not.\<close>

fun is_queued :: "export_err \<Rightarrow> bool" where
  "is_queued ErrExportQueued = True"
| "is_queued (ErrAtEndpoint _ e) = is_queued e"
| "is_queued _ = False"

definition collectErrors :: "export_err list \<Rightarrow> export_err option" where
  "collectErrors errs = (if length errs = 0 then None else if length errs = 1 then Some (errs ! 0) else Some (ErrCombined errs))"

section \<open>OTLP\<close>

record ShardedExporterConfig =
  sc_Endpoint :: gostring
  sc_Insecure :: bool
  sc_HeadlessService :: gostring
  sc_DNSRefreshInterval :: int
  sc_DNSTimeout :: int
  sc_Labels :: "gostring list"
  sc_VirtualNodes :: int
  sc_FallbackOnEmpty :: bool
  sc_QueueEnabled :: bool
  sc_QueuePath :: gostring
  sc_ExportConcurrency :: int

record ('h, 'x, 'v) sharded_env =
  sx_hash :: "gostring \<Rightarrow> u64"
  sx_fts :: "f64 \<Rightarrow> gostring"
  sx_order :: "(gostring \<times> 'v ResourceMetrics list) list \<Rightarrow> (gostring \<times> 'v ResourceMetrics list) list"
  sx_UrlPath :: "gostring \<Rightarrow> gostring option"
  sx_sha256 :: "bytes \<Rightarrow> bytes"
  sx_New :: "gostring \<Rightarrow> 'x \<Rightarrow> (export_err + 'h) \<times> 'x"
  sx_NewQueued :: "'h \<Rightarrow> gostring \<Rightarrow> gostring \<Rightarrow> 'x \<Rightarrow> (export_err + 'h) \<times> 'x"
  sx_Export :: "'h \<Rightarrow> 'v ResourceMetrics list \<Rightarrow> 'x \<Rightarrow> export_err option \<times> 'x"
  sx_Close :: "'h \<Rightarrow> 'x \<Rightarrow> export_err option \<times> 'x"

record 'h ShardedExporter =
  sh_config :: ShardedExporterConfig
  sh_splitter :: MetricsSplitter
  sh_exporters :: "(gostring \<times> 'h) list"
  sh_cancelled :: bool

definition sharded_defaults :: "ShardedExporterConfig \<Rightarrow> ShardedExporterConfig" where
  "sharded_defaults cfg =
     (let cfg = (if sc_DNSRefreshInterval cfg \<le> 0 then cfg\<lparr>sc_DNSRefreshInterval := 30 * one_second\<rparr> else cfg);
          cfg = (if sc_DNSTimeout cfg \<le> 0 then cfg\<lparr>sc_DNSTimeout := 5 * one_second\<rparr> else cfg)
      in if sc_VirtualNodes cfg \<le> 0 then cfg\<lparr>sc_VirtualNodes := DefaultVirtualNodes\<rparr> else cfg)"

definition discovery_config :: "ShardedExporterConfig \<Rightarrow> DiscoveryConfig" where
  "discovery_config cfg =
     \<lparr>HeadlessService = sc_HeadlessService cfg, RefreshInterval = sc_DNSRefreshInterval cfg, dns_Timeout = sc_DNSTimeout cfg, FallbackEndpoint = sc_Endpoint cfg, FallbackOnEmpty = sc_FallbackOnEmpty cfg\<rparr>"

text \<open>The exporter, and the discovery that is started with it.\<close>

definition NewSharded :: "ShardedExporterConfig \<Rightarrow> 'h ShardedExporter \<times> Discovery" where
  "NewSharded cfg =
     (let cfg = sharded_defaults cfg
      in (\<lparr>sh_config = cfg, sh_splitter = NewMetricsSplitter (NewShardKeyBuilder (sc_Labels cfg)) (NewHashRing (sc_VirtualNodes cfg)), sh_exporters = [], sh_cancelled = False\<rparr>,
          NewDiscovery (discovery_config cfg) True))"

text \<open>Two hexadecimal digits for each byte.\<close>

definition hex_digit :: "nat \<Rightarrow> byte" where
  "hex_digit n = word_of_nat (if n < 10 then 48 + n else 87 + n)"

definition hex_string :: "bytes \<Rightarrow> gostring" where
  "hex_string bs = concat (map (\<lambda>b. [hex_digit (unat b div 16), hex_digit (unat b mod 16)]) bs)"

definition hashEndpoint :: "('h, 'x, 'v) sharded_env \<Rightarrow> gostring \<Rightarrow> gostring" where
  "hashEndpoint env endpoint = hex_string (take 8 (sx_sha256 env endpoint))"

definition buildEndpointWithPath :: "(gostring \<Rightarrow> gostring option) \<Rightarrow> gostring \<Rightarrow> gostring \<Rightarrow> bool \<Rightarrow> gostring" where
  "buildEndpointWithPath UrlPath hostPort baseEndpoint insecure =
     (let basePath = (case UrlPath baseEndpoint of Some p \<Rightarrow> p | None \<Rightarrow> [])
      in if basePath = [] \<or> basePath = gostr ''/'' then hostPort
         else gostr (if insecure then ''http'' else ''https'') @ gostr ''://'' @ hostPort @ basePath)"

text \<open>An exporter of one endpoint: a real one, or \<open>errorExporter\<close>.\<close>

datatype 'h shard_exporter = Live 'h | ErrorExporter gostring export_err

definition exporter_Export ::
    "('h, 'x, 'v) sharded_env \<Rightarrow> 'h shard_exporter \<Rightarrow> 'v ResourceMetrics list \<Rightarrow> 'x \<Rightarrow> export_err option \<times> 'x" where
  "exporter_Export env exp ms x =
     (case exp of Live h \<Rightarrow> sx_Export env h ms x | ErrorExporter ep err \<Rightarrow> (Some (ErrAtEndpoint ep err), x))"

definition wrap_queued :: "('h, 'x, 'v) sharded_env \<Rightarrow> ShardedExporterConfig \<Rightarrow> gostring \<Rightarrow> 'h \<Rightarrow> 'x \<Rightarrow> 'h \<times> 'x" where
  "wrap_queued env cfg endpoint h x =
     (if sc_QueueEnabled cfg then
        (case sx_NewQueued env h (sc_QueuePath cfg) (hashEndpoint env endpoint) x of (Inl _, x) \<Rightarrow> (h, x) | (Inr q, x) \<Rightarrow> (q, x))
      else (h, x))"

definition getOrCreateExporter ::
    "('h, 'x, 'v) sharded_env \<Rightarrow> gostring \<Rightarrow> 'h ShardedExporter \<Rightarrow> 'x \<Rightarrow> 'h shard_exporter \<times> 'h ShardedExporter \<times> 'x" where
  "getOrCreateExporter env endpoint e x =
     (case map_of (sh_exporters e) endpoint of
        Some h \<Rightarrow> (Live h, e, x)
      | None \<Rightarrow>
          (let cfg = sh_config e
           in case sx_New env (buildEndpointWithPath (sx_UrlPath env) endpoint (sc_Endpoint cfg) (sc_Insecure cfg)) x of
                (Inl err, x) \<Rightarrow> (ErrorExporter endpoint err, e, x)
              | (Inr h, x) \<Rightarrow>
                  (case wrap_queued env cfg endpoint h x of
                     (h, x) \<Rightarrow> (Live h, e\<lparr>sh_exporters := AList.update endpoint h (sh_exporters e)\<rparr>, x))))"

definition export_shard ::
    "('h, 'x, 'v) sharded_env \<Rightarrow> gostring \<times> 'v ResourceMetrics list \<Rightarrow> export_err list \<times> 'h ShardedExporter \<times> 'x \<Rightarrow> export_err list \<times> 'h ShardedExporter \<times> 'x" where
  "export_shard env = (\<lambda>(ep, ms) (errs, e, x).
     case getOrCreateExporter env ep e x of
       (exp, e, x) \<Rightarrow>
         (case exporter_Export env exp ms x of
            (None, x) \<Rightarrow> (errs, e, x)
          | (Some err, x) \<Rightarrow> (errs @ [ErrAtEndpoint ep err], e, x)))"

definition Sharded_Export ::
    "('h, 'x, 'v) sharded_env \<Rightarrow> 'v ResourceMetrics list \<Rightarrow> 'h ShardedExporter \<Rightarrow> 'x \<Rightarrow> export_err option \<times> 'h ShardedExporter \<times> 'x" where
  "Sharded_Export env rms e x =
     (if length rms = 0 then (None, e, x)
      else case otlp_Split (sx_hash env) (sx_fts env) (sh_splitter e) rms of
             None \<Rightarrow> (Some (ErrMessage (gostr ''no endpoints available'')), e, x)
           | Some shards \<Rightarrow>
               if length shards = 0 then (Some (ErrMessage (gostr ''no endpoints available'')), e, x)
               else (case fold (export_shard env) (sx_order env shards) ([], e, x) of (errs, e, x) \<Rightarrow> (collectErrors errs, e, x)))"

text \<open>Closing exporters in the order of the map, keeping the first error.\<close>

fun close_all :: "('h \<Rightarrow> 'x \<Rightarrow> export_err option \<times> 'x) \<Rightarrow> (gostring \<times> 'h) list \<Rightarrow> export_err option \<Rightarrow> 'x \<Rightarrow> export_err option \<times> 'x" where
  "close_all close [] firstErr x = (firstErr, x)"
| "close_all close ((ep, h) # hs) firstErr x =
     (case close h x of (err, x) \<Rightarrow> close_all close hs (if firstErr = None then map_option (ErrAtEndpoint ep) err else firstErr) x)"

definition cleanupStaleExporters :: "('h, 'x, 'v) sharded_env \<Rightarrow> gostring list \<Rightarrow> 'h ShardedExporter \<Rightarrow> 'x \<Rightarrow> 'h ShardedExporter \<times> 'x" where
  "cleanupStaleExporters env currentEndpoints e x =
     (case close_all (sx_Close env) (filter (\<lambda>(ep, _). ep \<notin> set currentEndpoints) (sh_exporters e)) None x of
        (_, x) \<Rightarrow> (e\<lparr>sh_exporters := filter (\<lambda>(ep, _). ep \<in> set currentEndpoints) (sh_exporters e)\<rparr>, x))"

definition set_ring :: "(gostring \<Rightarrow> u64) \<Rightarrow> gostring list \<Rightarrow> MetricsSplitter \<Rightarrow> MetricsSplitter" where
  "set_ring hash eps s = s\<lparr>ms_hashRing := UpdateEndpoints hash (ms_hashRing s) eps\<rparr>"

definition sharded_onEndpointsChanged :: "('h, 'x, 'v) sharded_env \<Rightarrow> gostring list \<Rightarrow> 'h ShardedExporter \<Rightarrow> 'x \<Rightarrow> 'h ShardedExporter \<times> 'x" where
  "sharded_onEndpointsChanged env eps e x = cleanupStaleExporters env eps (e\<lparr>sh_splitter := set_ring (sx_hash env) eps (sh_splitter e)\<rparr>) x"

definition Sharded_Close :: "('h, 'x, 'v) sharded_env \<Rightarrow> 'h ShardedExporter \<Rightarrow> 'x \<Rightarrow> export_err option \<times> 'h ShardedExporter \<times> 'x" where
  "Sharded_Close env e x =
     (case close_all (sx_Close env) (sh_exporters e) None x of (firstErr, x) \<Rightarrow> (firstErr, e\<lparr>sh_exporters := [], sh_cancelled := True\<rparr>, x))"

definition sharded_EndpointCount :: "'h ShardedExporter \<Rightarrow> nat" where
  "sharded_EndpointCount e = ring_Size (ms_hashRing (sh_splitter e))"

definition sharded_GetEndpoints :: "'h ShardedExporter \<Rightarrow> gostring list" where
  "sharded_GetEndpoints e = GetEndpoints (ms_hashRing (sh_splitter e))"

section \<open>PRW\<close>

record PRWShardedConfig =
  pc_ShardKeyLabels :: "gostring list"
  pc_VirtualNodes :: int
  pc_Endpoints :: "gostring list"
  pc_Discovery :: "DiscoveryConfig option"
  pc_QueueEnabled :: bool
  pc_QueuePath :: gostring
  pc_ExportConcurrency :: int

text \<open>\<open>px_range\<close> lists the keys of a map in the order in which a loop ranges over it.\<close>

record ('h, 'q, 'x) prw_sharded_env =
  px_hash :: "gostring \<Rightarrow> u64"
  px_range :: "(gostring \<rightharpoonup> WriteRequest) \<Rightarrow> gostring list"
  px_New :: "gostring \<Rightarrow> 'x \<Rightarrow> (export_err + 'h) \<times> 'x"
  px_Export :: "'h \<Rightarrow> WriteRequest \<Rightarrow> 'x \<Rightarrow> export_err option \<times> 'x"
  px_Close :: "'h \<Rightarrow> 'x \<Rightarrow> export_err option \<times> 'x"
  px_NewQueue :: "gostring \<Rightarrow> gostring \<Rightarrow> 'h \<Rightarrow> 'x \<Rightarrow> (export_err + 'q) \<times> 'x"
  px_QueueExport :: "'q \<Rightarrow> WriteRequest \<Rightarrow> 'x \<Rightarrow> export_err option \<times> 'x"
  px_QueueClose :: "'q \<Rightarrow> 'x \<Rightarrow> export_err option \<times> 'x"

record ('h, 'q) PRWShardedExporter =
  ps_config :: PRWShardedConfig
  ps_splitter :: Splitter
  ps_pool :: Pool
  ps_discovery :: "Discovery option"
  ps_exporters :: "(gostring \<times> 'h) list"
  ps_queues :: "(gostring \<times> 'q) list"
  ps_closed :: bool

definition prw_set_ring :: "(gostring \<Rightarrow> u64) \<Rightarrow> gostring list \<Rightarrow> ('h, 'q) PRWShardedExporter \<Rightarrow> ('h, 'q) PRWShardedExporter" where
  "prw_set_ring hash eps e = e\<lparr>ps_splitter := splitter_UpdateEndpoints hash (ps_splitter e) eps\<rparr>"

text \<open>One removed endpoint: its exporter is closed first, its queue afterwards.\<close>

fun drop_endpoints ::
    "('h, 'q, 'x) prw_sharded_env \<Rightarrow> (gostring \<times> 'h) list \<Rightarrow> ('h, 'q) PRWShardedExporter \<Rightarrow> 'x \<Rightarrow> ('h, 'q) PRWShardedExporter \<times> 'x" where
  "drop_endpoints env [] e x = (e, x)"
| "drop_endpoints env ((ep, h) # hs) e x =
     (let x = snd (px_Close env h x);
          e = e\<lparr>ps_exporters := AList.delete ep (ps_exporters e)\<rparr>
      in case map_of (ps_queues e) ep of
           Some q \<Rightarrow> drop_endpoints env hs (e\<lparr>ps_queues := AList.delete ep (ps_queues e)\<rparr>) (snd (px_QueueClose env q x))
         | None \<Rightarrow> drop_endpoints env hs e x)"

definition prw_onEndpointsChanged ::
    "('h, 'q, 'x) prw_sharded_env \<Rightarrow> gostring list \<Rightarrow> ('h, 'q) PRWShardedExporter \<Rightarrow> 'x \<Rightarrow> ('h, 'q) PRWShardedExporter \<times> 'x" where
  "prw_onEndpointsChanged env eps e x =
     (if ps_closed e then (e, x)
      else drop_endpoints env (filter (\<lambda>(ep, _). ep \<notin> set eps) (ps_exporters e)) (prw_set_ring (px_hash env) eps e) x)"

definition NewPRWSharded ::
    "('h, 'q, 'x) prw_sharded_env \<Rightarrow> Pool \<Rightarrow> Pool \<Rightarrow> PRWShardedConfig \<Rightarrow> 'x \<Rightarrow> ('h, 'q) PRWShardedExporter \<times> 'x" where
  "NewPRWSharded env labelKeys pool cfg x =
     (let vn = (if pc_VirtualNodes cfg \<le> 0 then DefaultVirtualNodes else pc_VirtualNodes cfg);
          e = \<lparr>ps_config = cfg, ps_splitter = NewSplitter (fst (prw_NewShardKeyBuilder labelKeys (pc_ShardKeyLabels cfg))) (NewHashRing vn), ps_pool = pool, ps_discovery = None, ps_exporters = [], ps_queues = [], ps_closed = False\<rparr>
      in case pc_Discovery cfg of
           Some dc \<Rightarrow> (e\<lparr>ps_discovery := Some (NewDiscovery dc True)\<rparr>, x)
         | None \<Rightarrow> if length (pc_Endpoints cfg) > 0 then prw_onEndpointsChanged env (pc_Endpoints cfg) e x else (e, x))"

definition prw_getOrCreateExporter ::
    "('h, 'q, 'x) prw_sharded_env \<Rightarrow> gostring \<Rightarrow> ('h, 'q) PRWShardedExporter \<Rightarrow> 'x \<Rightarrow> (export_err + 'h) \<times> ('h, 'q) PRWShardedExporter \<times> 'x" where
  "prw_getOrCreateExporter env endpoint e x =
     (case map_of (ps_exporters e) endpoint of
        Some h \<Rightarrow> (Inr h, e, x)
      | None \<Rightarrow>
          (case px_New env endpoint x of
             (Inl err, x) \<Rightarrow> (Inl (ErrAtEndpoint endpoint err), e, x)
           | (Inr h, x) \<Rightarrow> (Inr h, e\<lparr>ps_exporters := AList.update endpoint h (ps_exporters e)\<rparr>, x)))"

text \<open>Every byte that is not a letter, a digit, a hyphen or an underscore becomes an underscore.\<close>

definition safe_byte :: "byte \<Rightarrow> bool" where
  "safe_byte c \<longleftrightarrow> 97 \<le> c \<and> c \<le> 122 \<or> 65 \<le> c \<and> c \<le> 90 \<or> 48 \<le> c \<and> c \<le> 57 \<or> c = 45 \<or> c = 95"

definition sanitizeEndpoint :: "gostring \<Rightarrow> gostring" where
  "sanitizeEndpoint endpoint = map (\<lambda>c. if safe_byte c then c else 95) endpoint"

definition getOrCreateQueue ::
    "('h, 'q, 'x) prw_sharded_env \<Rightarrow> gostring \<Rightarrow> 'h \<Rightarrow> ('h, 'q) PRWShardedExporter \<Rightarrow> 'x \<Rightarrow> (export_err + 'q) \<times> ('h, 'q) PRWShardedExporter \<times> 'x" where
  "getOrCreateQueue env endpoint h e x =
     (case map_of (ps_queues e) endpoint of
        Some q \<Rightarrow> (Inr q, e, x)
      | None \<Rightarrow>
          (case px_NewQueue env (pc_QueuePath (ps_config e)) (sanitizeEndpoint endpoint) h x of
             (Inl err, x) \<Rightarrow> (Inl (ErrAtEndpoint endpoint err), e, x)
           | (Inr q, x) \<Rightarrow> (Inr q, e\<lparr>ps_queues := AList.update endpoint q (ps_queues e)\<rparr>, x)))"

definition exportToEndpoint ::
    "('h, 'q, 'x) prw_sharded_env \<Rightarrow> gostring \<Rightarrow> WriteRequest \<Rightarrow> ('h, 'q) PRWShardedExporter \<Rightarrow> 'x \<Rightarrow> export_err option \<times> ('h, 'q) PRWShardedExporter \<times> 'x" where
  "exportToEndpoint env endpoint req e x =
     (case prw_getOrCreateExporter env endpoint e x of
        (Inl err, e, x) \<Rightarrow> (Some err, e, x)
      | (Inr h, e, x) \<Rightarrow>
          if pc_QueueEnabled (ps_config e) then
            (case getOrCreateQueue env endpoint h e x of
               (Inl _, e, x) \<Rightarrow> (case px_Export env h req x of (err, x) \<Rightarrow> (err, e, x))
             | (Inr q, e, x) \<Rightarrow> (case px_QueueExport env q req x of (err, x) \<Rightarrow> (err, e, x)))
          else (case px_Export env h req x of (err, x) \<Rightarrow> (err, e, x)))"

definition prw_export_shard ::
    "('h, 'q, 'x) prw_sharded_env \<Rightarrow> (gostring \<rightharpoonup> WriteRequest) \<Rightarrow> gostring \<Rightarrow> export_err list \<times> ('h, 'q) PRWShardedExporter \<times> 'x
      \<Rightarrow> export_err list \<times> ('h, 'q) PRWShardedExporter \<times> 'x" where
  "prw_export_shard env shards ep = (\<lambda>(errs, e, x).
     case shards ep of
       None \<Rightarrow> (errs, e, x)
     | Some req \<Rightarrow>
         (case exportToEndpoint env ep req e x of
            (None, e, x) \<Rightarrow> (errs, e, x)
          | (Some err, e, x) \<Rightarrow> (errs @ [ErrAtEndpoint ep err], e, x)))"

definition PRWSharded_Export ::
    "('h, 'q, 'x) prw_sharded_env \<Rightarrow> WriteRequest option \<Rightarrow> ('h, 'q) PRWShardedExporter \<Rightarrow> 'x \<Rightarrow> export_err option \<times> ('h, 'q) PRWShardedExporter \<times> 'x" where
  "PRWSharded_Export env req e x =
     (case req of
        None \<Rightarrow> (None, e, x)
      | Some r \<Rightarrow>
          if length (req_Timeseries r) = 0 then (None, e, x)
          else case Split (px_hash env) (ps_splitter e) (ps_pool e) req of
                 (shards, pool) \<Rightarrow>
                   (let e = e\<lparr>ps_pool := pool\<rparr>
                    in case shards of
                         None \<Rightarrow> (None, e, x)
                       | Some shards \<Rightarrow>
                           (case fold (prw_export_shard env shards) (px_range env shards) ([], e, x) of
                              (errs, e, x) \<Rightarrow> (if length errs > 0 then Some (ErrCombined errs) else None, e, x))))"

text \<open>Closing: the queues, then the exporters; the maps keep what was closed.\<close>

fun close_each :: "('h \<Rightarrow> 'x \<Rightarrow> export_err option \<times> 'x) \<Rightarrow> 'h list \<Rightarrow> export_err option \<Rightarrow> 'x \<Rightarrow> export_err option \<times> 'x" where
  "close_each close [] closeErr x = (closeErr, x)"
| "close_each close (h # hs) closeErr x = (case close h x of (err, x) \<Rightarrow> close_each close hs (if closeErr = None then err else closeErr) x)"

definition PRWSharded_Close ::
    "('h, 'q, 'x) prw_sharded_env \<Rightarrow> ('h, 'q) PRWShardedExporter \<Rightarrow> 'x \<Rightarrow> export_err option \<times> ('h, 'q) PRWShardedExporter \<times> 'x" where
  "PRWSharded_Close env e x =
     (if ps_closed e then (None, e, x)
      else let e = e\<lparr>ps_closed := True, ps_discovery := map_option discovery_Stop (ps_discovery e)\<rparr>
           in case close_each (px_QueueClose env) (map snd (ps_queues e)) None x of
                (err, x) \<Rightarrow> (case close_each (px_Close env) (map snd (ps_exporters e)) err x of (err, x) \<Rightarrow> (err, e, x)))"

definition prw_sharded_GetEndpoints :: "('h, 'q) PRWShardedExporter \<Rightarrow> gostring list" where
  "prw_sharded_GetEndpoints e = splitter_GetEndpoints (ps_splitter e)"

definition prw_sharded_EndpointCount :: "('h, 'q) PRWShardedExporter \<Rightarrow> nat" where
  "prw_sharded_EndpointCount e = length (prw_sharded_GetEndpoints e)"

end
