(* ===== verification/Sharded_Exporter_Correct.thy ===== *)
theory Sharded_Exporter_Correct
  imports Sharded_Exporter
begin

text \<open>
  What the sharded exporters guarantee: every datapoint and every series reaches the exporter of its own endpoint, each endpoint has one exporter as long as it exists, and no exporter is left open. And where they
  do not do what their callers expect: two shards that queue look like a failure, and PRW requests sent before discovery has found an endpoint are lost. The locale \<open>exporter_pool\<close> is the contract of
  the two maps of exporters; backends are observed through the events they see.
\<close>

section \<open>One exporter for each endpoint\<close>

locale exporter_pool =
  fixes held :: "'s \<Rightarrow> gostring \<rightharpoonup> 'h" and get :: "gostring \<Rightarrow> 's \<Rightarrow> 'h option \<times> 's"
  assumes get_held: "held s ep = Some h \<Longrightarrow> get ep s = (Some h, s)"
    and get_holds: "get ep s = (Some h, s') \<Longrightarrow> held s' ep = Some h"
    and get_keeps: "get ep s = (r, s') \<Longrightarrow> held s ep' = Some h \<Longrightarrow> held s' ep' = Some h"
begin

lemma get_twice: "get ep s = (Some h, s') \<Longrightarrow> get ep s' = (Some h, s')"
  by (rule get_held) (rule get_holds)

lemma gets_keep: "held s ep = Some h \<Longrightarrow> held (fold (\<lambda>ep s. snd (get ep s)) eps s) ep = Some h"
proof (induction eps arbitrary: s)
  case (Cons ep' eps)
  then show ?case using get_keeps [of ep' s "fst (get ep' s)" "snd (get ep' s)" ep h] by simp
qed simp

end

fun live_handle :: "'h shard_exporter \<Rightarrow> 'h option" where
  "live_handle (Live h) = Some h"
| "live_handle (ErrorExporter _ _) = None"

interpretation otlp_pool: exporter_pool "\<lambda>(e, x). map_of (sh_exporters e)"
    "\<lambda>ep (e, x). case getOrCreateExporter env ep e x of (exp, e, x) \<Rightarrow> (live_handle exp, e, x)" for env
  by unfold_locales
    (auto simp: getOrCreateExporter_def wrap_queued_def Let_def update_conv' split: prod.splits option.splits sum.splits if_splits)

interpretation prw_pool: exporter_pool "\<lambda>(e, x). map_of (ps_exporters e)"
    "\<lambda>ep (e, x). case prw_getOrCreateExporter env ep e x of (r, e, x) \<Rightarrow> (case r of Inr h \<Rightarrow> Some h | Inl _ \<Rightarrow> None, e, x)" for env
  by unfold_locales
    (auto simp: prw_getOrCreateExporter_def update_conv' split: prod.splits option.splits sum.splits if_splits)

section \<open>Observed backends\<close>

datatype 'm event = Opened gostring | Sent gostring 'm | Closed gostring

text \<open>A backend: its answers may depend on everything that happened before.\<close>

record 'm backend =
  be_open :: "gostring \<Rightarrow> 'm event list \<Rightarrow> export_err option"
  be_answer :: "gostring \<Rightarrow> 'm \<Rightarrow> 'm event list \<Rightarrow> export_err option"
  be_close :: "gostring \<Rightarrow> 'm event list \<Rightarrow> export_err option"

definition observed ::
    "'v ResourceMetrics list backend \<Rightarrow> (gostring, 'v ResourceMetrics list event list, 'v) sharded_env \<Rightarrow> (gostring, 'v ResourceMetrics list event list, 'v) sharded_env" where
  "observed b env = env\<lparr>
     sx_New := \<lambda>u x. case be_open b u x of Some err \<Rightarrow> (Inl err, x) | None \<Rightarrow> (Inr u, x @ [Opened u]),
     sx_NewQueued := \<lambda>h _ _ x. (Inr h, x),
     sx_Export := \<lambda>h ms x. (be_answer b h ms x, x @ [Sent h ms]),
     sx_Close := \<lambda>h x. (be_close b h x, x @ [Closed h])\<rparr>"

definition shard_url :: "('h, 'x, 'v) sharded_env \<Rightarrow> ShardedExporterConfig \<Rightarrow> gostring \<Rightarrow> gostring" where
  "shard_url env cfg ep = buildEndpointWithPath (sx_UrlPath env) ep (sc_Endpoint cfg) (sc_Insecure cfg)"

lemma shard_url_inj: "shard_url env cfg a = shard_url env cfg b \<longleftrightarrow> a = b"
  by (auto simp: shard_url_def buildEndpointWithPath_def Let_def split: option.splits if_splits)

lemma observed_fields [simp]:
  "sx_hash (observed b env) = sx_hash env" "sx_fts (observed b env) = sx_fts env" "sx_order (observed b env) = sx_order env" "sx_UrlPath (observed b env) = sx_UrlPath env"
  "shard_url (observed b env) cfg = shard_url env cfg"
  by (simp_all add: observed_def shard_url_def fun_eq_iff)

text \<open>Every exporter is for the address of its endpoint.\<close>

definition named :: "('h, 'x, 'v) sharded_env \<Rightarrow> gostring ShardedExporter \<Rightarrow> bool" where
  "named env e \<longleftrightarrow> (\<forall>ep h. map_of (sh_exporters e) ep = Some h \<longrightarrow> h = shard_url env (sh_config e) ep)"

section \<open>Every datapoint to its endpoint\<close>

fun delivered :: "gostring \<Rightarrow> 'v ResourceMetrics list event list \<Rightarrow> (Resource option \<times> gostring \<times> 'v DataPoint) multiset" where
  "delivered u [] = {#}"
| "delivered u (Sent h ms # x) = (if h = u then all_entries ms else {#}) + delivered u x"
| "delivered u (_ # x) = delivered u x"

lemma delivered_append [simp]: "delivered u (x @ y) = delivered u x + delivered u y"
  by (induction x rule: delivered.induct) (auto simp: ac_simps)

lemma get_observed:
  assumes "named env e" "\<forall>u x. be_open b u x = None"
  shows "\<exists>e' x'. getOrCreateExporter (observed b env) ep e x = (Live (shard_url env (sh_config e) ep), e', x @ x')
    \<and> named env e' \<and> sh_config e' = sh_config e \<and> (\<forall>u. delivered u x' = {#})"
proof (cases "map_of (sh_exporters e) ep")
  case None
  let ?u = "shard_url env (sh_config e) ep"
  let ?e = "e\<lparr>sh_exporters := AList.update ep ?u (sh_exporters e)\<rparr>"
  have "getOrCreateExporter (observed b env) ep e x = (Live ?u, ?e, x @ [Opened ?u])"
    using None assms(2) by (simp add: getOrCreateExporter_def wrap_queued_def observed_def shard_url_def Let_def)
  moreover have "named env ?e" using assms(1) by (auto simp: named_def update_conv')
  ultimately show ?thesis by (intro exI [of _ ?e] exI [of _ "[Opened ?u]"]) simp
next
  case (Some h)
  then show ?thesis using assms(1) by (intro exI [of _ e] exI [of _ "[]"]) (auto simp: getOrCreateExporter_def named_def)
qed

definition shard_entries :: "gostring \<Rightarrow> (gostring \<times> 'v ResourceMetrics list) list \<Rightarrow> (Resource option \<times> gostring \<times> 'v DataPoint) multiset" where
  "shard_entries ep shards = sum_list (map (\<lambda>(k, ms). if k = ep then all_entries ms else {#}) shards)"

lemma shard_entries_perm: "mset xs = mset ys \<Longrightarrow> shard_entries ep xs = shard_entries ep ys"
  unfolding shard_entries_def sum_mset_sum_list [symmetric] mset_map by simp

lemma shard_entries_map_of: "distinct (map fst al) \<Longrightarrow> shard_entries ep al = (case map_of al ep of Some ms \<Rightarrow> all_entries ms | None \<Rightarrow> {#})"
proof (induction al)
  case (Cons a al)
  have "map_of al ep = None" if "fst a = ep" using Cons.prems that by (auto simp: map_of_eq_None_iff)
  then show ?case using Cons by (cases a) (auto simp: shard_entries_def)
qed (simp add: shard_entries_def)

lemma export_shards_deliver:
  assumes "named env e" "\<forall>u x. be_open b u x = None"
  shows "\<exists>errs' e' x'. fold (export_shard (observed b env)) shards (errs, e, x) = (errs @ errs', e', x @ x') \<and> named env e' \<and> sh_config e' = sh_config e
    \<and> (\<forall>ep. delivered (shard_url env (sh_config e) ep) x' = shard_entries ep shards) \<and> ((\<forall>h ms x. be_answer b h ms x = None) \<longrightarrow> errs' = [])"
  using assms(1)
proof (induction shards arbitrary: errs e x)
  case Nil
  then show ?case by (simp add: shard_entries_def)
next
  case (Cons shard shards)
  obtain ep ms where s: "shard = (ep, ms)" by fastforce
  let ?u = "shard_url env (sh_config e) ep"
  obtain e1 x1 where g: "getOrCreateExporter (observed b env) ep e x = (Live ?u, e1, x @ x1)" "named env e1" "sh_config e1 = sh_config e" "\<forall>u. delivered u x1 = {#}"
    using get_observed [OF Cons.prems assms(2)] by blast
  define er where "er = (case be_answer b ?u ms (x @ x1) of None \<Rightarrow> [] | Some err \<Rightarrow> [ErrAtEndpoint ep err])"
  have 1: "export_shard (observed b env) shard (errs, e, x) = (errs @ er, e1, x @ x1 @ [Sent ?u ms])"
    using g(1) by (simp add: export_shard_def s er_def exporter_Export_def observed_def split: option.split)
  obtain errs2 e2 x2 where 2: "fold (export_shard (observed b env)) shards (errs @ er, e1, x @ x1 @ [Sent ?u ms]) = ((errs @ er) @ errs2, e2, (x @ x1 @ [Sent ?u ms]) @ x2)"
      "named env e2" "sh_config e2 = sh_config e1" "\<forall>ep. delivered (shard_url env (sh_config e1) ep) x2 = shard_entries ep shards" "(\<forall>h ms x. be_answer b h ms x = None) \<longrightarrow> errs2 = []"
    using Cons.IH [OF g(2)] by blast
  have "delivered (shard_url env (sh_config e) ep') (x1 @ [Sent ?u ms] @ x2) = shard_entries ep' (shard # shards)" for ep'
    using 2(4) g(3,4) by (simp add: s shard_entries_def shard_url_inj)
  then show ?case
    using 1 2 g(3) by (intro exI [of _ "er @ errs2"] exI [of _ e2] exI [of _ "x1 @ [Sent ?u ms] @ x2"]) (auto simp: er_def)
qed

text \<open>
  C3: A sharded export delivers every datapoint exactly once, to the exporter of its endpoint. Whatever the backends answer and in whichever order the shards are sent, the exporter of an endpoint gets exactly the
  datapoints, with their metric names and resources, whose shard key the ring maps to it; and when the backends accept everything and there is a datapoint, the export succeeds.
\<close>

theorem sharded_export_delivers:
  assumes "rms \<noteq> []" "ring_ok (sx_hash env) (ms_hashRing (sh_splitter e))" "\<not> IsEmpty (ms_hashRing (sh_splitter e))" "named env e" "\<forall>u x. be_open b u x = None"
    and "\<forall>shards. mset (sx_order env shards) = mset shards"
  shows "\<exists>err e' x'. Sharded_Export (observed b env) rms e x = (err, e', x @ x') \<and> named env e'
    \<and> (\<forall>ep. delivered (shard_url env (sh_config e) ep) x'
            = filter_mset (\<lambda>d. entry_endpoint (sx_hash env) (sx_fts env) (sh_splitter e) d = ep) (all_entries rms))
    \<and> ((\<forall>h ms x. be_answer b h ms x = None) \<and> CountDatapoints rms > 0 \<longrightarrow> err = None)"
proof -
  let ?ents = "\<lambda>ep. filter_mset (\<lambda>d. entry_endpoint (sx_hash env) (sx_fts env) (sh_splitter e) d = ep) (all_entries rms)"
  obtain shards where s: "otlp_Split (sx_hash env) (sx_fts env) (sh_splitter e) rms = Some shards" "distinct (map fst shards)"
      "\<And>ep. (case map_of shards ep of Some out \<Rightarrow> all_entries out | None \<Rightarrow> {#}) = ?ents ep"
    using otlp_Split_result [OF assms(1-3), of "sx_fts env"] by blast
  show ?thesis
  proof (cases "shards = []")
    case True
    have "?ents ep = {#}" for ep using s(3) [of ep] True by simp
    moreover have "d \<in># ?ents (entry_endpoint (sx_hash env) (sx_fts env) (sh_splitter e) d)" if "d \<in># all_entries rms" for d using that by simp
    ultimately have "all_entries rms = {#}" by (metis empty_not_add_mset multiset_nonemptyE set_mset_empty empty_iff)
    then have "CountDatapoints rms = 0" using CountDatapoints_entries [of rms] by simp
    then show ?thesis
      using s(1) True assms(1,4) \<open>all_entries rms = {#}\<close> by (intro exI [of _ "Some (ErrMessage (gostr ''no endpoints available''))"] exI [of _ e] exI [of _ "[]"]) (simp add: Sharded_Export_def)
  next
    case False
    obtain errs e' x' where f: "fold (export_shard (observed b env)) (sx_order env shards) ([], e, x) = (errs, e', x @ x')" "named env e'"
        "\<And>ep. delivered (shard_url env (sh_config e) ep) x' = shard_entries ep (sx_order env shards)" "(\<forall>h ms x. be_answer b h ms x = None) \<longrightarrow> errs = []"
      using export_shards_deliver [OF assms(4,5), of "sx_order env shards" "[]" x] unfolding append_Nil by blast
    have "shard_entries ep (sx_order env shards) = ?ents ep" for ep
      using shard_entries_perm [of "sx_order env shards" shards ep] assms(6) shard_entries_map_of [OF s(2), of ep] s(3) [of ep] by simp
    then show ?thesis
      using f s(1) False assms(1) by (intro exI [of _ "collectErrors errs"] exI [of _ e'] exI [of _ x']) (auto simp: Sharded_Export_def collectErrors_def)
  qed
qed

definition byte_sum :: "gostring \<Rightarrow> u64" where
  "byte_sum s = sum_list (map ucast s)"

definition plain_env :: "(gostring, 'v ResourceMetrics list event list, 'v) sharded_env" where
  "plain_env = \<lparr>sx_hash = byte_sum, sx_fts = (\<lambda>_. []), sx_order = id, sx_UrlPath = (\<lambda>_. Some (gostr ''/write'')), sx_sha256 = id,
     sx_New = (\<lambda>u x. (Inr u, x)), sx_NewQueued = (\<lambda>h _ _ x. (Inr h, x)), sx_Export = (\<lambda>_ _ x. (None, x)), sx_Close = (\<lambda>_ x. (None, x))\<rparr>"

definition accepting :: "'m backend" where
  "accepting = \<lparr>be_open = (\<lambda>_ _. None), be_answer = (\<lambda>_ _ _. None), be_close = (\<lambda>_ _. None)\<rparr>"

definition two_endpoints :: "gostring ShardedExporter" where
  "two_endpoints =
     \<lparr>sh_config = \<lparr>sc_Endpoint = [], sc_Insecure = True, sc_HeadlessService = [], sc_DNSRefreshInterval = 0, sc_DNSTimeout = 0, sc_Labels = [], sc_VirtualNodes = 1, sc_FallbackOnEmpty = False,
        sc_QueueEnabled = False, sc_QueuePath = [], sc_ExportConcurrency = 0\<rparr>,
      sh_splitter = NewMetricsSplitter (NewShardKeyBuilder []) (UpdateEndpoints byte_sum (NewHashRing 1) [[97], [98]]), sh_exporters = [], sh_cancelled = False\<rparr>"

definition one_gauge :: "gostring \<Rightarrow> nat ResourceMetrics" where
  "one_gauge n = \<lparr>rm_Resource = None, rm_ScopeMetrics = [\<lparr>sm_Scope = None, sm_Metrics = [\<lparr>m_Name = n, m_Description = [], m_Unit = [], m_Metadata = [],
     m_Data = Metric_Gauge [\<lparr>dp_Attributes = [], dp_rest = 42\<rparr>]\<rparr>], sm_SchemaUrl = []\<rparr>], rm_SchemaUrl = []\<rparr>"

theorem sharded_export_delivers_witness:
  "\<exists>e' x'. Sharded_Export (observed accepting plain_env) [one_gauge [8]] two_endpoints [] = (None, e', x')"
proof -
  have p: "[one_gauge [8]] \<noteq> []" "ring_ok (sx_hash plain_env) (ms_hashRing (sh_splitter two_endpoints))" "\<not> IsEmpty (ms_hashRing (sh_splitter two_endpoints))"
    "named plain_env two_endpoints" "\<forall>u x. be_open accepting u x = None" "\<forall>shards. mset (sx_order plain_env shards) = mset shards"
    by (simp_all add: two_endpoints_def plain_env_def NewMetricsSplitter_def IsEmpty_def UpdateEndpoints_fields named_def accepting_def)
  have "CountDatapoints [one_gauge [8]] > 0" by (simp add: one_gauge_def CountDatapoints_def)
  then show ?thesis using sharded_export_delivers [OF p, of "[]"] by (fastforce simp: accepting_def)
qed

section \<open>No exporter is left open\<close>

fun open_handles :: "'m event list \<Rightarrow> gostring multiset \<Rightarrow> gostring multiset" where
  "open_handles [] M = M"
| "open_handles (Opened u # x) M = open_handles x (add_mset u M)"
| "open_handles (Closed u # x) M = open_handles x (M - {#u#})"
| "open_handles (Sent _ _ # x) M = open_handles x M"

lemma open_handles_append [simp]: "open_handles (x @ y) M = open_handles y (open_handles x M)"
  by (induction x M rule: open_handles.induct) simp_all

text \<open>The critical sections of the exporter, in any interleaving: exports of several requests, changes of the endpoints, closing.\<close>

inductive shard_step :: "('h, 'x, 'v) sharded_env \<Rightarrow> 'h ShardedExporter \<times> 'x \<Rightarrow> 'h ShardedExporter \<times> 'x \<Rightarrow> bool" for env where
  get: "getOrCreateExporter env ep e x = (exp, e', x') \<Longrightarrow> shard_step env (e, x) (e', x')"
| send: "exporter_Export env exp ms x = (err, x') \<Longrightarrow> shard_step env (e, x) (e, x')"
| change: "sharded_onEndpointsChanged env eps e x = (e', x') \<Longrightarrow> shard_step env (e, x) (e', x')"
| close: "Sharded_Close env e x = (err, e', x') \<Longrightarrow> shard_step env (e, x) (e', x')"

definition all_open :: "gostring ShardedExporter \<times> 'm event list \<Rightarrow> bool" where
  "all_open = (\<lambda>(e, x). distinct (map fst (sh_exporters e)) \<and> open_handles x {#} = mset (map snd (sh_exporters e)))"

lemma close_all_observed:
  "\<exists>err. close_all (sx_Close (observed b env)) hs firstErr x = (err, x @ map (\<lambda>(_, h). Closed h) hs)"
proof (induction hs arbitrary: firstErr x)
  case (Cons a hs)
  obtain ep h where a: "a = (ep, h)" by fastforce
  show ?case
    using Cons.IH [of _ "x @ [Closed h]"] by (simp add: a observed_def)
qed simp

lemma open_handles_closed: "open_handles (map (\<lambda>(_, h). Closed h) hs) M = M - mset (map snd hs)"
  by (induction hs arbitrary: M) (auto simp: diff_diff_add_mset)

lemma mset_update_new: "map_of al k = None \<Longrightarrow> image_mset snd (mset (AList.update k v al)) = add_mset v (image_mset snd (mset al))"
  by (induction al) (auto split: if_splits)

lemma mset_keys_partition: "mset al = mset (filter (\<lambda>(k, _). k \<notin> K) al) + mset (filter (\<lambda>(k, _). k \<in> K) al)"
  by (induction al) auto

lemma shard_step_all_open:
  assumes "shard_step (observed b env) p p'" "all_open p"
  shows "all_open p'"
  using assms
proof (cases rule: shard_step.cases)
  case (get ep e x exp e' x')
  then show ?thesis using assms(2)
    by (auto simp: getOrCreateExporter_def wrap_queued_def observed_def Let_def all_open_def mset_update_new distinct_update split: option.splits prod.splits if_splits)
next
  case (send exp ms x err x' e)
  then show ?thesis using assms(2) by (auto simp: exporter_Export_def observed_def all_open_def split: shard_exporter.splits)
next
  case (change eps e x e' x')
  let ?stale = "filter (\<lambda>(ep, _). ep \<notin> set eps) (sh_exporters e)" and ?kept = "filter (\<lambda>(ep, _). ep \<in> set eps) (sh_exporters e)"
  have "mset (sh_exporters e) = mset ?stale + mset ?kept"
    by (rule mset_keys_partition)
  from arg_cong [OF this, of "image_mset snd"]
  have "mset (map snd (sh_exporters e)) = mset (map snd ?stale) + mset (map snd ?kept)" by (simp only: mset_map image_mset_union)
  moreover have "distinct (map fst ?kept)" using assms(2) change(1) by (auto simp: all_open_def distinct_map_filter)
  moreover obtain err where "close_all (sx_Close (observed b env)) ?stale None x = (err, x @ map (\<lambda>(_, h). Closed h) ?stale)" using close_all_observed by blast
  ultimately show ?thesis
    using assms(2) change by (auto simp: sharded_onEndpointsChanged_def cleanupStaleExporters_def all_open_def open_handles_closed)
next
  case (close e x err e' x')
  then show ?thesis
    using assms(2) close_all_observed [of b env "sh_exporters e" None x] by (auto simp: Sharded_Close_def all_open_def open_handles_closed)
qed

text \<open>
  C13: No exporter is left open. In every state that interleaved exports, endpoint changes and closing reach, the exporters that are open are exactly those of the map, one for each endpoint; so a change leaves
  open only exporters of current endpoints, and closing none.
\<close>

theorem sharded_no_leak:
  assumes "(shard_step (observed b env))\<^sup>*\<^sup>* (e0, []) (e, x)" "sh_exporters e0 = []"
  shows "open_handles x {#} = mset (map snd (sh_exporters e)) \<and> distinct (map fst (sh_exporters e))"
proof -
  have "all_open (e0, [])" using assms(2) by (simp add: all_open_def)
  with assms(1) have "all_open (e, x)" by (induction rule: rtranclp_induct) (auto intro: shard_step_all_open)
  then show ?thesis by (simp add: all_open_def)
qed

theorem sharded_no_leak_witness:
  "\<exists>e x. (shard_step (observed accepting plain_env))\<^sup>*\<^sup>* (two_endpoints, []) (e, x) \<and> sh_exporters e \<noteq> [] \<and> open_handles (x :: nat ResourceMetrics list event list) {#} = mset (map snd (sh_exporters e))"
proof -
  let ?env = "observed accepting plain_env :: (gostring, nat ResourceMetrics list event list, nat) sharded_env"
  obtain exp e x where g: "getOrCreateExporter ?env [97] two_endpoints [] = (exp, e, x)" by (metis prod_cases3)
  then have n: "sh_exporters e \<noteq> []"
    by (auto simp: getOrCreateExporter_def two_endpoints_def observed_def accepting_def wrap_queued_def)
  have r: "(shard_step ?env)\<^sup>*\<^sup>* (two_endpoints, []) (e, x)" using shard_step.get [OF g] by (rule r_into_rtranclp)
  have "sh_exporters two_endpoints = []" by (simp add: two_endpoints_def)
  from sharded_no_leak [OF r this] show ?thesis using n r by blast
qed

section \<open>Queued shards\<close>

lemma collect_queued:
  assumes "ss \<noteq> []"
  obtains err where "collectErrors (map (\<lambda>(ep, _). ErrAtEndpoint ep ErrExportQueued) ss) = Some err" "is_queued err \<longleftrightarrow> length ss = 1"
proof (cases "length ss = 1")
  case True
  then obtain ep ms where "ss = [(ep, ms)]" by (auto simp: length_Suc_conv)
  then show ?thesis by (intro that [of "ErrAtEndpoint ep ErrExportQueued"]) (simp_all add: collectErrors_def)
next
  case False
  then show ?thesis using assms by (intro that [of "ErrCombined (map (\<lambda>(ep, _). ErrAtEndpoint ep ErrExportQueued) ss)"]) (simp_all add: collectErrors_def)
qed

text \<open>
  C38: Requests that two shards have queued look lost. When every exporter answers that it has queued its shard, an export to one endpoint returns an error that is recognised as queued; but with two or more shards
  the errors are combined into a message that is not, although every shard has been handed over. The caller then keeps the batch as failed and sends it again.
\<close>

theorem queued_shards_look_failed:
  assumes "rms \<noteq> []" "otlp_Split (sx_hash env) (sx_fts env) (sh_splitter e) rms = Some shards" "shards \<noteq> []" "\<forall>shards. mset (sx_order env shards) = mset shards"
    and "named env e" "\<forall>u x. be_open b u x = None" "\<forall>u ms x. be_answer b u ms x = Some ErrExportQueued"
  shows "\<exists>err e' x'. Sharded_Export (observed b env) rms e x = (Some err, e', x @ x') \<and> (is_queued err \<longleftrightarrow> length shards = 1)
    \<and> (\<forall>ep. delivered (shard_url env (sh_config e) ep) x' = shard_entries ep shards)"
proof -
  have errs: "\<exists>e' x'. fold (export_shard (observed b env)) ss (errs, e, x) = (errs @ map (\<lambda>(ep, _). ErrAtEndpoint ep ErrExportQueued) ss, e', x')" if "named env e" for ss errs e x
    using that
  proof (induction ss arbitrary: errs e x)
    case (Cons s ss)
    obtain ep ms where s: "s = (ep, ms)" by fastforce
    obtain e1 x1 where g: "getOrCreateExporter (observed b env) ep e x = (Live (shard_url env (sh_config e) ep), e1, x @ x1)" "named env e1"
      using get_observed [OF Cons.prems assms(6)] by blast
    have "export_shard (observed b env) s (errs, e, x) = (errs @ [ErrAtEndpoint ep ErrExportQueued], e1, x @ x1 @ [Sent (shard_url env (sh_config e) ep) ms])"
      using g(1) assms(7) by (simp add: s export_shard_def exporter_Export_def observed_def)
    then show ?case
      using Cons.IH [OF g(2), of "errs @ [ErrAtEndpoint ep ErrExportQueued]" "x @ x1 @ [Sent (shard_url env (sh_config e) ep) ms]"] by (simp add: s)
  qed simp
  let ?errs = "map (\<lambda>(ep, _). ErrAtEndpoint ep ErrExportQueued) (sx_order env shards)"
  have l: "length (sx_order env shards) = length shards" using assms(4) by (metis size_mset)
  obtain errs1 e' x' where f: "fold (export_shard (observed b env)) (sx_order env shards) ([], e, x) = (errs1, e', x @ x')"
      "\<And>ep. delivered (shard_url env (sh_config e) ep) x' = shard_entries ep (sx_order env shards)"
    using export_shards_deliver [OF assms(5,6), of "sx_order env shards" "[]" x] unfolding append_Nil by blast
  obtain e2 x2 where "fold (export_shard (observed b env)) (sx_order env shards) ([], e, x) = ([] @ ?errs, e2, x2)"
    using errs [OF assms(5)] by blast
  then have e: "errs1 = ?errs" using f(1) by simp
  have ne: "sx_order env shards \<noteq> []" using l assms(3) by auto
  obtain err where c: "collectErrors ?errs = Some err" "is_queued err \<longleftrightarrow> length shards = 1"
    using collect_queued [OF ne] unfolding l by blast
  show ?thesis
    using assms(1-3) f c e shard_entries_perm [of "sx_order env shards" shards] assms(4)
    by (intro exI [of _ err] exI [of _ e'] exI [of _ x']) (simp add: Sharded_Export_def)
qed

definition queueing :: "'m backend" where
  "queueing = \<lparr>be_open = (\<lambda>_ _. None), be_answer = (\<lambda>_ _ _. Some ErrExportQueued), be_close = (\<lambda>_ _. None)\<rparr>"

theorem queued_shards_look_failed_witness:
  "\<exists>err e' x'. Sharded_Export (observed queueing plain_env) [one_gauge [8], one_gauge [181]] two_endpoints [] = (Some err, e', x') \<and> \<not> is_queued err"
proof -
  let ?env = "plain_env :: (gostring, nat ResourceMetrics list event list, nat) sharded_env" and ?rms = "[one_gauge [8], one_gauge [181]]"
  have "map_option (map fst) (otlp_Split byte_sum (\<lambda>_. []) (sh_splitter two_endpoints) ?rms) = Some [[97], [98]]" by code_simp
  then obtain shards where s: "otlp_Split (sx_hash ?env) (sx_fts ?env) (sh_splitter two_endpoints) ?rms = Some shards" "map fst shards = [[97], [98]]"
    by (auto simp: plain_env_def)
  have n: "?rms \<noteq> []" "shards \<noteq> []" "length shards \<noteq> 1" using s(2) by auto
  have p: "\<forall>shards. mset (sx_order ?env shards) = mset shards" "named ?env two_endpoints"
    "\<forall>u x. be_open (queueing :: nat ResourceMetrics list backend) u x = None" "\<forall>u ms x. be_answer (queueing :: nat ResourceMetrics list backend) u ms x = Some ErrExportQueued"
    by (simp_all add: two_endpoints_def plain_env_def named_def queueing_def)
  show ?thesis using queued_shards_look_failed [OF n(1) s(1) n(2) p, of "[]"] n(3) by auto
qed

section \<open>The PRW variant\<close>

text \<open>
  C39: Requests sent before discovery has found an endpoint are lost without an error. A new sharded PRW exporter with discovery has an empty ring until the first lookup, which runs in the background; until then every
  export returns success, and no exporter and no queue is created, called or changed. (The OTLP exporter returns an error in this state.)
\<close>

theorem prw_lost_before_discovery:
  assumes "pc_Discovery cfg = Some dc" "NewPRWSharded env labelKeys pool cfg x = (e, x')"
  shows "PRWSharded_Export env req e y = (None, e, y)"
proof -
  have "IsEmpty (hashRing (ps_splitter e))" using assms by (auto simp: NewPRWSharded_def NewSplitter_def NewHashRing_def IsEmpty_def Let_def)
  then show ?thesis by (auto simp: PRWSharded_Export_def Split_def Let_def split: option.split)
qed

definition prw_plain_env :: "(gostring, unit, unit) prw_sharded_env" where
  "prw_plain_env = \<lparr>px_hash = byte_sum, px_range = (\<lambda>m. filter (\<lambda>e. m e \<noteq> None) [[97], [98]]), px_New = (\<lambda>u x. (Inr u, x)), px_Export = (\<lambda>_ _ x. (None, x)), px_Close = (\<lambda>_ x. (None, x)),
     px_NewQueue = (\<lambda>_ _ _ x. (Inr (), x)), px_QueueExport = (\<lambda>_ _ x. (None, x)), px_QueueClose = (\<lambda>_ x. (None, x))\<rparr>"

definition discovery_only :: PRWShardedConfig where
  "discovery_only = \<lparr>pc_ShardKeyLabels = [], pc_VirtualNodes = 1, pc_Endpoints = [], pc_Discovery = Some DefaultDiscoveryConfig, pc_QueueEnabled = False, pc_QueuePath = [], pc_ExportConcurrency = 0\<rparr>"

theorem prw_lost_before_discovery_witness:
  "\<exists>e x'. NewPRWSharded prw_plain_env NewPool NewPool discovery_only () = (e, x') \<and> PRWSharded_Export prw_plain_env
     (Some \<lparr>req_Timeseries = [\<lparr>ts_Labels = [], ts_Samples = [], ts_Exemplars = [], ts_Histograms = []\<rparr>], req_Metadata = []\<rparr>) e () = (None, e, ())"
proof -
  obtain e x' where n: "NewPRWSharded prw_plain_env NewPool NewPool discovery_only () = (e, x')" by (rule prod.exhaust)
  have "pc_Discovery discovery_only = Some DefaultDiscoveryConfig" by (simp add: discovery_only_def)
  from prw_lost_before_discovery [OF this n] show ?thesis using n by blast
qed

text \<open>Backends and queues that are observed; a queue hands on to its exporter.\<close>

definition observed_prw ::
    "WriteRequest backend \<Rightarrow> (gostring, gostring, WriteRequest event list) prw_sharded_env \<Rightarrow> (gostring, gostring, WriteRequest event list) prw_sharded_env" where
  "observed_prw b env = env\<lparr>
     px_New := \<lambda>u x. case be_open b u x of Some err \<Rightarrow> (Inl err, x) | None \<Rightarrow> (Inr u, x @ [Opened u]),
     px_Export := \<lambda>h r x. (be_answer b h r x, x @ [Sent h r]),
     px_NewQueue := \<lambda>_ _ h x. (Inr h, x),
     px_QueueExport := \<lambda>h r x. (be_answer b h r x, x @ [Sent h r])\<rparr>"

definition prw_named :: "(gostring, gostring) PRWShardedExporter \<Rightarrow> bool" where
  "prw_named e \<longleftrightarrow> (\<forall>ep h. map_of (ps_exporters e) ep = Some h \<longrightarrow> h = ep) \<and> (\<forall>ep h. map_of (ps_queues e) ep = Some h \<longrightarrow> h = ep)"

fun series_sent :: "gostring \<Rightarrow> WriteRequest event list \<Rightarrow> TimeSeries list" where
  "series_sent u [] = []"
| "series_sent u (Sent h r # x) = (if h = u then req_Timeseries r else []) @ series_sent u x"
| "series_sent u (_ # x) = series_sent u x"

lemma series_sent_append [simp]: "series_sent u (x @ y) = series_sent u x @ series_sent u y"
  by (induction x rule: series_sent.induct) auto

lemma exportToEndpoint_observed:
  assumes "prw_named e" "\<forall>u x. be_open b u x = None"
  shows "\<exists>err e' x' y. exportToEndpoint (observed_prw b env) ep r e x = (err, e', x @ x') \<and> prw_named e' \<and> ps_splitter e' = ps_splitter e
    \<and> x' = y @ [Sent ep r] \<and> (\<forall>u. series_sent u y = []) \<and> ((\<forall>h r x. be_answer b h r x = None) \<longrightarrow> err = None)"
proof -
  obtain e1 y where g: "prw_getOrCreateExporter (observed_prw b env) ep e x = (Inr ep, e1, x @ y)" "prw_named e1" "ps_splitter e1 = ps_splitter e" "\<forall>u. series_sent u y = []"
  proof (cases "map_of (ps_exporters e) ep")
    case None
    let ?e = "e\<lparr>ps_exporters := AList.update ep ep (ps_exporters e)\<rparr>"
    have "prw_named ?e" using assms(1) by (auto simp: prw_named_def update_conv')
    then show ?thesis using that [of ?e "[Opened ep]"] None assms(2) by (simp add: prw_getOrCreateExporter_def observed_prw_def)
  next
    case (Some h)
    then show ?thesis using that [of e "[]"] assms(1) by (simp add: prw_getOrCreateExporter_def prw_named_def)
  qed
  obtain e2 where q: "getOrCreateQueue (observed_prw b env) ep ep e1 z = (Inr ep, e2, z)" "prw_named e2" "ps_splitter e2 = ps_splitter e1" for z
  proof (cases "map_of (ps_queues e1) ep")
    case None
    let ?e = "e1\<lparr>ps_queues := AList.update ep ep (ps_queues e1)\<rparr>"
    have "prw_named ?e" using g(2) by (auto simp: prw_named_def update_conv')
    then show ?thesis using that [of ?e] None by (simp add: getOrCreateQueue_def observed_prw_def)
  next
    case (Some h)
    then show ?thesis using that [of e1] g(2) by (simp add: getOrCreateQueue_def prw_named_def)
  qed
  let ?e = "if pc_QueueEnabled (ps_config e1) then e2 else e1"
  have "exportToEndpoint (observed_prw b env) ep r e x = (be_answer b ep r (x @ y), ?e, x @ y @ [Sent ep r])"
    using g(1) q(1) by (simp add: exportToEndpoint_def observed_prw_def)
  then show ?thesis
    using g(2-4) q(2,3) by (intro exI [of _ "be_answer b ep r (x @ y)"] exI [of _ ?e] exI [of _ "y @ [Sent ep r]"] exI [of _ y]) simp
qed

definition shard_series :: "(gostring \<rightharpoonup> WriteRequest) \<Rightarrow> gostring \<Rightarrow> TimeSeries list" where
  "shard_series shards ep = (case shards ep of Some r \<Rightarrow> req_Timeseries r | None \<Rightarrow> [])"

lemma prw_shards_deliver:
  assumes "prw_named e" "\<forall>u x. be_open b u x = None" "distinct eps"
  shows "\<exists>errs' e' x'. fold (prw_export_shard (observed_prw b env) shards) eps (errs, e, x) = (errs @ errs', e', x @ x') \<and> prw_named e'
    \<and> (\<forall>ep. series_sent ep x' = (if ep \<in> set eps then shard_series shards ep else [])) \<and> ((\<forall>h r x. be_answer b h r x = None) \<longrightarrow> errs' = [])"
  using assms(1,3)
proof (induction eps arbitrary: errs e x)
  case Nil
  then show ?case by simp
next
  case (Cons ep eps)
  show ?case
  proof (cases "shards ep")
    case None
    then have 1: "prw_export_shard (observed_prw b env) shards ep (errs, e, x) = (errs, e, x)" by (simp add: prw_export_shard_def)
    obtain errs2 e2 x2 where 2: "fold (prw_export_shard (observed_prw b env) shards) eps (errs, e, x) = (errs @ errs2, e2, x @ x2)" "prw_named e2"
        "\<forall>ep. series_sent ep x2 = (if ep \<in> set eps then shard_series shards ep else [])" "(\<forall>h r x. be_answer b h r x = None) \<longrightarrow> errs2 = []"
      using Cons.IH [OF Cons.prems(1), of errs x] Cons.prems(2) by (simp only: distinct.simps(2)) blast
    then show ?thesis using 1 None by (intro exI [of _ errs2] exI [of _ e2] exI [of _ x2]) (simp add: shard_series_def)
  next
    case (Some r)
    obtain err e1 y where g: "exportToEndpoint (observed_prw b env) ep r e x = (err, e1, x @ y @ [Sent ep r])" "prw_named e1" "\<forall>u. series_sent u y = []"
        "(\<forall>h r x. be_answer b h r x = None) \<longrightarrow> err = None"
      using exportToEndpoint_observed [OF Cons.prems(1) assms(2), of env ep r x] by blast
    define er where "er = (case err of None \<Rightarrow> [] | Some er \<Rightarrow> [ErrAtEndpoint ep er])"
    have 1: "prw_export_shard (observed_prw b env) shards ep (errs, e, x) = (errs @ er, e1, x @ y @ [Sent ep r])"
      using g(1) Some by (simp add: prw_export_shard_def er_def split: option.split)
    obtain errs2 e2 x2 where 2: "fold (prw_export_shard (observed_prw b env) shards) eps (errs @ er, e1, x @ y @ [Sent ep r]) = ((errs @ er) @ errs2, e2, (x @ y @ [Sent ep r]) @ x2)"
        "prw_named e2" "\<forall>ep. series_sent ep x2 = (if ep \<in> set eps then shard_series shards ep else [])" "(\<forall>h r x. be_answer b h r x = None) \<longrightarrow> errs2 = []"
      using Cons.IH [OF g(2), of "errs @ er" "x @ y @ [Sent ep r]"] Cons.prems(2) by (simp only: distinct.simps(2)) blast
    have "series_sent ep' (y @ [Sent ep r] @ x2) = (if ep' \<in> set (ep # eps) then shard_series shards ep' else [])" for ep'
      using 2(3) g(3) Some Cons.prems(2) by (auto simp: shard_series_def)
    then show ?thesis
      using 1 2 g(4) by (intro exI [of _ "er @ errs2"] exI [of _ e2] exI [of _ "y @ [Sent ep r] @ x2"]) (auto simp: er_def)
  qed
qed

text \<open>
  C4: A sharded PRW export delivers every series exactly once, to the exporter or queue of its endpoint. Whatever the backends answer and in whichever order the shards are sent, an endpoint gets exactly the series whose
  shard key the ring maps to it, in the order of the request; and when the backends accept everything, the export succeeds.
\<close>

theorem prw_sharded_export_delivers:
  assumes "pool_wf (ps_pool e)" "ring_ok (px_hash env) (hashRing (ps_splitter e))" "endpoints (hashRing (ps_splitter e)) \<noteq> []" "[] \<notin> set (endpoints (hashRing (ps_splitter e)))"
    and "req_Timeseries req \<noteq> []" "prw_named e" "\<forall>u x. be_open b u x = None" "\<forall>m. finite (dom m) \<longrightarrow> distinct (px_range env m) \<and> set (px_range env m) = dom m"
  shows "\<exists>err e' x'. PRWSharded_Export (observed_prw b env) (Some req) e x = (err, e', x @ x') \<and> prw_named e'
    \<and> (\<forall>ep. series_sent ep x'
            = filter (\<lambda>ts. GetEndpoint (px_hash env) (hashRing (ps_splitter e)) (series_key (keyBuilder (ps_splitter e)) ts) = ep) (req_Timeseries req))
    \<and> ((\<forall>h r x. be_answer b h r x = None) \<longrightarrow> err = None)"
proof -
  let ?s = "ps_splitter e" and ?hash = "px_hash env"
  let ?series = "series_for ?hash ?s (req_Timeseries req)"
  have ring: "\<not> IsEmpty (hashRing ?s)" using assms(3) by (simp add: IsEmpty_def)
  obtain shards pool where s: "Split ?hash ?s (ps_pool e) (Some req) = (Some shards, pool)"
      "\<And>ep. shards ep = (if ep = [] \<or> ?series ep = [] then None else Some \<lparr>req_Timeseries = ?series ep, req_Metadata = req_Metadata req\<rparr>)"
    using Split_entry [OF assms(1,5) ring] by metis
  have empty: "?series [] = []"
    using hash_router.routed_target [OF assms(2) ring] assms(4) by (fastforce simp: GetEndpoints_def)
  have "dom shards \<subseteq> set (endpoints (hashRing ?s))"
    using hash_router.routed_target [OF assms(2) ring] by (auto simp: s(2) GetEndpoints_def dom_def split: if_splits)
  then have r: "distinct (px_range env shards)" "set (px_range env shards) = dom shards" using assms(8) finite_subset by blast+
  have n: "prw_named (e\<lparr>ps_pool := pool\<rparr>)" using assms(6) by (simp add: prw_named_def)
  obtain errs e' x' where f: "fold (prw_export_shard (observed_prw b env) shards) (px_range env shards) ([], e\<lparr>ps_pool := pool\<rparr>, x) = (errs, e', x @ x')" "prw_named e'"
      "\<And>ep. series_sent ep x' = (if ep \<in> set (px_range env shards) then shard_series shards ep else [])" "(\<forall>h r x. be_answer b h r x = None) \<longrightarrow> errs = []"
    using prw_shards_deliver [OF n assms(7) r(1), of env shards "[]" x] unfolding append_Nil by blast
  have "series_sent ep x' = ?series ep" for ep
    using f(3) [of ep] empty by (auto simp: r(2) shard_series_def s(2) dom_def)
  then show ?thesis
    using f s(1) assms(5) by (intro exI [of _ "if length errs > 0 then Some (ErrCombined errs) else None"] exI [of _ e'] exI [of _ x'])
      (auto simp: PRWSharded_Export_def observed_prw_def hash_router.routed_def Let_def)
qed

definition prw_log_env :: "(gostring, gostring, WriteRequest event list) prw_sharded_env" where
  "prw_log_env = \<lparr>px_hash = byte_sum, px_range = (\<lambda>m. sorted_list_of_set (dom m)), px_New = (\<lambda>u x. (Inr u, x)), px_Export = (\<lambda>_ _ x. (None, x)), px_Close = (\<lambda>_ x. (None, x)),
     px_NewQueue = (\<lambda>_ _ h x. (Inr h, x)), px_QueueExport = (\<lambda>_ _ x. (None, x)), px_QueueClose = (\<lambda>_ x. (None, x))\<rparr>"

definition prw_two_endpoints :: "(gostring, gostring) PRWShardedExporter" where
  "prw_two_endpoints =
     \<lparr>ps_config = discovery_only, ps_splitter = NewSplitter (fst (prw_NewShardKeyBuilder CommonLabels [])) (UpdateEndpoints byte_sum (NewHashRing 1) [[97], [98]]), ps_pool = NewPool,
      ps_discovery = None, ps_exporters = [], ps_queues = [], ps_closed = False\<rparr>"

definition one_series :: WriteRequest where
  "one_series = \<lparr>req_Timeseries = [\<lparr>ts_Labels = [], ts_Samples = [], ts_Exemplars = [], ts_Histograms = []\<rparr>], req_Metadata = []\<rparr>"

theorem prw_sharded_export_delivers_witness:
  "\<exists>e' x'. PRWSharded_Export (observed_prw accepting prw_log_env) (Some one_series) prw_two_endpoints [] = (None, e', x')
     \<and> series_sent (GetEndpoint byte_sum (hashRing (ps_splitter prw_two_endpoints)) (series_key (keyBuilder (ps_splitter prw_two_endpoints)) (hd (req_Timeseries one_series)))) x'
         = req_Timeseries one_series"
proof -
  have p: "pool_wf (ps_pool prw_two_endpoints)" "ring_ok (px_hash prw_log_env) (hashRing (ps_splitter prw_two_endpoints))" "endpoints (hashRing (ps_splitter prw_two_endpoints)) \<noteq> []"
    "[] \<notin> set (endpoints (hashRing (ps_splitter prw_two_endpoints)))" "req_Timeseries one_series \<noteq> []" "prw_named prw_two_endpoints" "\<forall>u x. be_open (accepting :: WriteRequest backend) u x = None"
    "\<forall>m. finite (dom m) \<longrightarrow> distinct (px_range prw_log_env m) \<and> set (px_range prw_log_env m) = dom m"
    by (simp_all add: prw_two_endpoints_def prw_log_env_def NewSplitter_def UpdateEndpoints_fields one_series_def prw_named_def accepting_def)
  show ?thesis
    using prw_sharded_export_delivers [OF p, of "[]"] by (fastforce simp: accepting_def prw_log_env_def one_series_def)
qed

section \<open>Paths of queues\<close>

text \<open>The names of queue directories are made of safe characters, so they stay inside their directory; but endpoints that differ in other characters share one.\<close>

lemma sanitizeEndpoint_safe: "list_all safe_byte (sanitizeEndpoint ep) \<and> length (sanitizeEndpoint ep) = length ep"
  by (auto simp: sanitizeEndpoint_def list_all_iff safe_byte_def)

lemma sanitizeEndpoint_collides: "\<not> safe_byte c \<Longrightarrow> \<not> safe_byte d \<Longrightarrow> sanitizeEndpoint (a @ c # b) = sanitizeEndpoint (a @ d # b)"
  by (simp add: sanitizeEndpoint_def)

end
