(* ===== verification/Spec2Isabelle.thy ===== *)
theory Spec2Isabelle
  imports Label_Interning Prw_Splitter Prw_Limits Prw_Buffer Mem_Queue Batch_Splitter Prw_Queue Limits_Labels
    Relabel Otlp_Splitter Tenant_Quotas Queued_Exporter_Correct Otlp_Buffer_Correct
    Downsample_Correct Aggregate_Correct Sampler_Correct Sharded_Exporter_Correct
begin

text \<open>
  Verification of the core of metrics-governor.

  The program is a proxy for metrics. It receives Prometheus remote write (PRW) and OTLP requests,
  decodes them, enforces limits, buffers series, splits them over backend endpoints by consistent
  hashing, and exports them, with queues in memory and on disk for what cannot be sent at once.
  All paths below are under \<open>src/internal/\<close>.

  \<^bold>\<open>Theories and parts.\<close>

  \<^item> \<open>Prelude\<close>: the type of bytes and machine words, the type \<open>outcome\<close> of code that may return an
    error or panic, \<open>thread\<close> (a state threaded through a list of calls), shared list and word lemmas.
  \<^item> \<open>Wire\<close>, \<open>Prw_Types\<close>, \<open>Prw_Codec\<close>: \<open>prw/types.go\<close> and \<open>prw/proto.go\<close>. Every message type is
    a record; each \<open>marshal\<close>, \<open>unmarshal\<close> and \<open>estimateSize\<close> is a definition of that name with its
    type in front. A decoder returns a value, an error or a panic (slicing out of range). Floats
    are their 64-bit patterns.
  \<^item> \<open>Intern\<close>, \<open>Label_Interning\<close>: \<open>intern/intern.go\<close> and the two pools used by label decoding.
    A pool is an association list with hit and miss counters, and the atomic operations of
    \<open>sync.Map\<close> are single steps. The locale \<open>interner\<close> is what clients rely on.
  \<^item> \<open>Hash_Ring\<close>, \<open>Shard_Key\<close>, \<open>Prw_Splitter\<close>: \<open>sharding/hashring.go\<close>, \<open>sharding/shardkey.go\<close>,
    \<open>prw/shardkey.go\<close> and \<open>prw/splitter.go\<close>. The hash function is a parameter. The locale \<open>router\<close>
    says that keys go to configured endpoints.
  \<^item> \<open>Prw_Limits\<close>: \<open>prw/limits.go\<close>, with compiled regular expressions as predicates.
  \<^item> \<open>Prw_Buffer\<close>: \<open>prw/buffer.go\<close>. The flush loop and its clients are the step relation
    \<open>buffer_step\<close>; the exporter is a parameter with a state of its own.
  \<^item> \<open>Fifo\<close>, \<open>Mem_Queue\<close>, \<open>Batch_Splitter\<close>: \<open>buffer/memqueue.go\<close> and \<open>buffer/splitter.go\<close>. The
    locale \<open>lossy_fifo\<close> is the contract of a bounded queue that evicts from the front.
  \<^item> \<open>Chunk_Files\<close>, \<open>Fast_Queue\<close>, \<open>Fast_Queue_Correct\<close>: \<open>queue/fastqueue.go\<close> on an explicit
    model of files, open file descriptions with positions, append mode, and \<open>bufio.Writer\<close>. Files
    are shared between reader and writer as in the code.

  \<^item> \<open>Send_Queue\<close>, \<open>Prw_Queue\<close>: \<open>queue/queue.go\<close> and \<open>prw/queue.go\<close>, the queue with its full-queue
    behaviours and retry counters above the disk queue, and the PRW retry loop above that. Waiting
    for space is an explicit list of wake-ups.
  \<^item> \<open>Otlp_Types\<close>: the OTLP messages; the five kinds of metrics share one shape of data points.
  \<^item> \<open>Card_Trackers\<close>: \<open>cardinality/\<close> without its persistence. Bloom filter and HyperLogLog are a record
    of library operations; the locale \<open>membership_tracker\<close> is the contract of a tracker.
  \<^item> \<open>Rule_Cache\<close>, \<open>Limits_Config\<close>, \<open>Rule_Activity\<close>, \<open>Log_Aggregator\<close>, \<open>Limits_Enforcer\<close>: the files of
    \<open>limits/\<close> and \<open>ruleactivity/\<close>. \<open>None\<close> as a result of the enforcer is a deadlock. The proofs are in
    \<open>Limits_Enforcer_Correct\<close> (locales \<open>filter_loop\<close> and \<open>value_loop\<close> for the loops over metrics, scopes and
    resources), \<open>Limits_Guarantees\<close> (locale \<open>charging_loop\<close>) and \<open>Limits_Labels\<close>.
  \<^item> \<open>Relabel\<close>: \<open>relabel/relabel.go\<close>. Regular expressions, YAML, files and SHA-256 are a record of library
    functions; label sets are association lists.
  \<^item> \<open>Otlp_Splitter\<close>: \<open>sharding/splitter.go\<close> on the ring and the shard keys of the PRW splitter. \<open>Go_Maps\<close> holds the
    association lists both use for Go maps.
  \<^item> \<open>Tenant\<close>, \<open>Tenant_Quotas\<close>: the files of \<open>tenant/\<close>. The locale \<open>quota_budget\<close> is a measure of the enforcer's
    state that bounds what a run lets through; it is interpreted for the quota of a tenant and for the global one.
  \<^item> \<open>Circuit_Breaker\<close>, \<open>Batch_Queue\<close>, \<open>Export_Control\<close>: the circuit breaker of \<open>exporter/queued.go\<close>, as methods and as interleaved atomic
    accesses; \<open>queue/batchqueue.go\<close>, the memory queue and its graduated spillover; \<open>errors.go\<close>, \<open>scaler.go\<close>, \<open>batchtuner.go\<close>, \<open>limiter.go\<close>,
    \<open>spill_rate_limiter.go\<close> and the error classification of \<open>exporter/\<close>.
  \<^item> \<open>Queued_Exporter\<close>, \<open>Queued_Exporter_Correct\<close>: the rest of \<open>exporter/queued.go\<close>. One round of each of its loops is a function of the exporter's state; backend, message
    codec, compression and float operations are the record \<open>export_env\<close>.
  \<^item> \<open>Otlp_Buffer\<close>, \<open>Otlp_Buffer_Correct\<close>: \<open>buffer/buffer.go\<close> and \<open>pipeline/fused.go\<close>. The stages before the buffer (sampler, tenants, limits,
    fused processor), the stages of a flush (relabeller, exporter, failover queue) and the sizes of messages are the record \<open>buffer_env\<close>;
    an add is one function and also a sequence of sections that other operations may interleave with.
  \<^item> \<open>Go_Floats\<close>, \<open>Transform\<close>: \<open>sampling/transform.go\<close> and \<open>sampling/classify.go\<close> on lists of attributes. Operations on float64 are the record
    \<open>float_lib\<close>; so float results are stated relative to the operations of the library, or for exact arithmetic where a law is needed.
  \<^item> \<open>Downsample\<close>, \<open>Downsample_Correct\<close>: \<open>sampling/downsample.go\<close>, the processors and the sharded engine.
  \<^item> \<open>Processing_Config\<close>, \<open>Processing_Config_Correct\<close>: \<open>sampling/processing_config.go\<close>. Validation maps the configuration to one with its rules compiled, or to the first error.
  \<^item> \<open>Aggregate\<close>, \<open>Aggregate_Correct\<close>: \<open>sampling/accumulators.go\<close> and \<open>sampling/aggregate.go\<close>. The locale \<open>accumulator\<close> is the contract of an accumulator between two resets.
  \<^item> \<open>Sampler\<close>, \<open>Sampler_Correct\<close>: \<open>sampling/sampling.go\<close>, \<open>rulecache.go\<close> and \<open>dead_rules.go\<close>, the engine that applies the rules to batches. The locale
    \<open>simulated_loop\<close> carries simulations and invariants through its nested loops.
  \<^item> \<open>Endpoint_Discovery\<close>, \<open>Sharded_Exporter\<close>, \<open>Sharded_Exporter_Correct\<close>: \<open>sharding/discovery.go\<close>, \<open>exporter/sharded.go\<close> and \<open>exporter/prw_sharded.go\<close>.
    The resolver and the exporters and queues of single endpoints are parameters; callbacks that discovery starts are pending calls that run in any order (\<open>watch_step\<close>), and the critical sections of
    the exporter interleave (\<open>shard_step\<close>). The locale \<open>exporter_pool\<close> is the contract of a map of exporters.

  \<^bold>\<open>What is shown.\<close> The codec is a round trip, also for concatenated and unknown fields, and where it
  panics. The ring gives the clockwise successor, removing an endpoint moves only its own keys, and a split
  loses and duplicates nothing. Shard keys and series identities do not depend on orders.
  Interning never changes a result. PRW limits are never exceeded by what passes. The buffer
  conserves series in every reachable state and a flush sends all of them. The in-memory queue
  keeps its limits and evicts minimally, and delivers in order. The queue on disk delivers what was
  pushed, also after a restart, for a phase of pushes followed by a phase of pops within one
  chunk; three concrete runs show where interleaved use loses blocks. Requests the backend
  refuses go through encoder, queue and disk and are delivered when the queue is closed.
  The OTLP enforcer keeps its totals within the limits, a drop rule bounds what is let through,
  a dry run removes nothing, label limits bound the values that pass, accepted configurations are well-formed and
  the rule cache is transparent without label matchers; adaptive limiting never drops, hybrid
  trackers deadlock it, and with label matchers the cache is wrong. Relabelling keeps exactly the datapoints
  whose labels pass its rules, hashmod rules partition them over shards, and the OTLP splitter hands every datapoint
  to exactly the endpoint of its key. Tenant and global quotas bound what passes in a window, and tenants do not
  influence each other without a global quota. The circuit breaker lets one probe through, opens at its threshold and recovers, when its methods do not interleave; the memory queue is a
  bounded queue in order; spillover settles; scaler, tuner and rate limiter keep their bounds. The workers of the queued exporter lose nothing while the backend
  answers with retryable errors, and a hybrid export uses exactly one queue; but a retry tick on an empty queue shuts the circuit for good, and closing loses what is in memory.
  The OTLP buffer counts its bytes exactly and accounts for every batch of a flush as exported, queued or dropped; flushes that race wedge it, and a batch that is split is
  relabelled twice. The fused processor equals the tenant pipeline followed by the enforcer.
  Transformations change only the labels they name and cannot crash once accepted; downsampling emits the aggregate of each window and never more points than it takes in; aggregation emits for each group
  the functions of exactly the values since the last flush. The sampler's rule cache is transparent, a metric that the rules drop never passes, and head sampling keeps one in \<open>n\<close>. But a
  loaded rule runs its operations twice, a pattern with alternatives matches only its first one, head sampling can starve a series, stale groups are lost, and a reload under traffic can crash the sampler.
  The sharded exporters deliver every datapoint and series exactly once to the exporter of its endpoint and leave no exporter open; but callbacks of discovery that overtake each other leave the
  ring with removed endpoints, shards that were queued are reported as failed, and PRW requests before the first lookup are lost.

  \<^bold>\<open>Loops and fuel.\<close> No definition uses fuel. Loops that always end are \<open>fun\<close> or \<open>function\<close> with a
  measure; \<open>batch_loop\<close>, \<open>push_loop\<close>, the eviction loops and \<open>count_entries\<close> may run forever and are partial
  functions into \<open>option\<close>, whose \<open>None\<close> is not returning. Where they end, this is proved.

  \<^bold>\<open>Not modelled.\<close> Prometheus counters and logging, except where a counter is a result; locks
  (each critical section is one step, except where a lock is taken twice); the wall clock, which is an argument; network I/O; the
  compression, hashing, sketch, regular-expression and generated protobuf code, which are parameters;
  \<open>ServeHTTP\<close> of the enforcer, a rendering of its state as text. Aggregation copies attributes where the code shares them by pointer with emitted data points.
  The PRW twin of the queued exporter (\<open>exporter/prw_queued.go\<close>) repeats the structure of a part that is modelled and is left out; so are
  the persistence of the trackers (\<open>cardinality/persistence.go\<close>), the configuration of the main program and reporting.
\<close>

section \<open>The PRW path through queue, disk and codec\<close>

text \<open>Requests exported one after the other while the backend refuses everything: they are all queued.\<close>

fun export_refused :: "(bytes \<Rightarrow> bytes) \<Rightarrow> (bytes \<Rightarrow> bytes option) \<Rightarrow> Queue \<Rightarrow> WriteRequest list \<Rightarrow> Queue option" where
  "export_refused enc dec q [] = Some q"
| "export_refused enc dec q (r # rs) =
     (case queue_Export enc dec False [] refuse q () (Some r) of
        Some (Ok (True, q, _)) \<Rightarrow> export_refused enc dec q rs
      | _ \<Rightarrow> None)"

lemma queue_Export_filled:
  assumes "filled enc (fq (sendQueue q)) ds" "limits_allow (fq (sendQueue q)) [WriteRequest_Marshal r]" "req_Timeseries r \<noteq> []"
    and "length (stream enc (fq (sendQueue q)) (ds @ [WriteRequest_Marshal r])) < chunk_size (fq (sendQueue q))"
    and "\<not> sq_closed (sendQueue q)" "q_has_exporter q"
  shows "\<exists>f. queue_Export enc dec False [] refuse q () (Some r) = Some (Ok (True, q\<lparr>sendQueue := (sendQueue q)\<lparr>fq := f\<rparr>\<rparr>, ()))
    \<and> filled enc f (ds @ [WriteRequest_Marshal r]) \<and> cfg f = cfg (fq (sendQueue q))"
proof -
  obtain f where f: "fq_Push enc False (fq (sendQueue q)) (WriteRequest_Marshal r) = (None, f)"
      "filled enc f (ds @ [WriteRequest_Marshal r])" "cfg f = cfg (fq (sendQueue q))"
    using Push_filled [OF assms(1,2,4)] by blast
  have "push_loop enc dec False [] (sendQueue q) (WriteRequest_Marshal r) = Some (None, (sendQueue q)\<lparr>fq := f\<rparr>)"
    by (subst push_loop.simps) (simp add: f(1))
  with f assms(3,5,6) show ?thesis
    by (intro exI [of _ f]) (simp add: queue_Export_def queue_Push_def PushData_def pushData_def refuse_def)
qed

lemma export_refused_filled:
  assumes "filled enc (fq (sendQueue q)) ds" "limits_allow (fq (sendQueue q)) (map WriteRequest_Marshal rs)"
    and "\<forall>r \<in> set rs. req_Timeseries r \<noteq> []" "\<not> sq_closed (sendQueue q)" "q_has_exporter q" "\<not> q_closed q"
    and "length (stream enc (fq (sendQueue q)) (ds @ map WriteRequest_Marshal rs)) < chunk_size (fq (sendQueue q))"
  shows "\<exists>q'. export_refused enc dec q rs = Some q' \<and> filled enc (fq (sendQueue q')) (ds @ map WriteRequest_Marshal rs)
    \<and> cfg (fq (sendQueue q')) = cfg (fq (sendQueue q)) \<and> \<not> sq_closed (sendQueue q') \<and> q_has_exporter q' \<and> \<not> q_closed q'"
  using assms
proof (induction rs arbitrary: q ds)
  case (Cons r rs)
  let ?m = "WriteRequest_Marshal r"
  have "limits_allow (fq (sendQueue q)) [?m]" using Cons.prems(2) by (auto simp: limits_allow_def)
  moreover have "length (stream enc (fq (sendQueue q)) (ds @ [?m])) < chunk_size (fq (sendQueue q))"
    using Cons.prems(7) by (simp add: stream_def)
  ultimately obtain f where f: "queue_Export enc dec False [] refuse q () (Some r)
        = Some (Ok (True, q\<lparr>sendQueue := (sendQueue q)\<lparr>fq := f\<rparr>\<rparr>, ()))"
      "filled enc f (ds @ [?m])" "cfg f = cfg (fq (sendQueue q))"
    using queue_Export_filled [OF Cons.prems(1) _ _ _ Cons.prems(4,5), of r dec] Cons.prems(3) by auto
  have "activeCount f = activeCount (fq (sendQueue q)) + 1" "totalBytes f = totalBytes (fq (sendQueue q)) + int (length ?m)"
    using f(2) Cons.prems(1) by (simp_all add: filled_def)
  then have "limits_allow f (map WriteRequest_Marshal rs)" using Cons.prems(2) f(3) by (auto simp: limits_allow_def)
  then show ?case
    using Cons.IH [of "q\<lparr>sendQueue := (sendQueue q)\<lparr>fq := f\<rparr>\<rparr>" "ds @ [?m]"] f Cons.prems(3-7) stream_cong [OF f(3), of enc]
    by simp
qed simp

lemma NewQueue_filled:
  assumes "NewQueue timed_out full c given empty_fsys None = Inr q"
  shows "filled enc (fq (sendQueue q)) []" "\<not> sq_closed (sendQueue q)" "\<not> q_closed q" "q_has_exporter q = given"
  using assms filled_new(1)
  by (auto simp: NewQueue_def NewSendQueue_def Let_def split: sum.splits)



section \<open>The OTLP path into the buffer\<close>

text \<open>The tenant pipeline and the limits enforcer as the processors of the buffer.\<close>

definition tenant_stage ::
    "quota_lib \<Rightarrow> (gostring \<Rightarrow> int \<times> int) \<Rightarrow> Pipeline \<times> ('b, 'h, 'f) Enforcer \<Rightarrow> 'v resources \<Rightarrow> gostring \<Rightarrow> ('v resources \<times> Pipeline \<times> ('b, 'h, 'f) Enforcer) option" where
  "tenant_stage lib clock s rms headerTenant = (case ProcessBatch lib clock (fst s) rms headerTenant of (rms, p) \<Rightarrow> Some (rms, p, snd s))"

definition limits_stage ::
    "('b, 'h, 'f) limits_env \<Rightarrow> int \<Rightarrow> Pipeline \<times> ('b, 'h, 'f) Enforcer \<Rightarrow> 'v resources \<Rightarrow> ('v resources \<times> Pipeline \<times> ('b, 'h, 'f) Enforcer) option" where
  "limits_stage lenv now s rms = map_option (\<lambda>(rms, e). (rms, fst s, e)) (limits_Process lenv now (snd s) rms)"

lemma limits_stage_empty: "limits_stage lenv now s [] = Some ([], s)"
  by (simp add: limits_stage_def limits_Process_def split: option.split)

text \<open>
  Fusing tenant detection and limits changes nothing. Whatever the sampler, the sizes, the capacity policy and the state, adding through the fused processor built from the tenant pipeline
  and the limits enforcer gives the same answer, the same buffer and the same state of pipeline and enforcer as calling the two one after the other.
\<close>

theorem fused_equals_separate:
  "addInternal (env\<lparr>be_fused := map_option fused_Process (NewFusedProcessor (Some (tenant_stage lib clock)) (Some (limits_stage lenv now)))\<rparr>) wakes rms headerTenant b
   = addInternal (env\<lparr>be_fused := None, be_tenant := Some (tenant_stage lib clock), be_limits := Some (limits_stage lenv now)\<rparr>) wakes rms headerTenant b"
  using addInternal_fused [where l = "limits_stage lenv now" and t = "tenant_stage lib clock" and env = env]
  by (simp add: NewFusedProcessor_def limits_stage_empty)

end
